(* ===== verification/Prelude.thy ===== *)
theory Prelude
  imports Main "HOL-Library.Char_ord" "HOL-Library.List_Lexorder" "HOL-Library.AList"
begin

text \<open>
  What every component of the development shares: the reading of C++'s
  string operations on HOL strings (a \<open>std::string\<close> is a list of 8-bit
  characters), of its ordered and unordered maps as association lists, and the
  rewrite rules that carry the component proofs.

  A \<open>std::unordered_map\<close> is an association list with distinct keys whose order
  is the map's iteration order.  C++ leaves that order open, so nothing is
  assumed about it: the theorems hold for every list.  A \<open>std::map\<close> is an
  association list sorted by key.
\<close>

named_theorems str_simps \<open>facts on substrings, prefixes and searches\<close>
named_theorems umap_simps \<open>facts on association lists that stand for C++ maps\<close>

section \<open>Characters in the C locale\<close>

abbreviation NUL :: char where "NUL \<equiv> CHR 0x00"
abbreviation TAB :: char where "TAB \<equiv> CHR 0x09"
abbreviation LF :: char where "LF \<equiv> CHR 0x0A"
abbreviation CR :: char where "CR \<equiv> CHR 0x0D"
abbreviation SPACE :: char where "SPACE \<equiv> CHR 0x20"
abbreviation DQUOTE :: char where "DQUOTE \<equiv> CHR 0x22"

abbreviation quoted :: "string \<Rightarrow> string" where
  "quoted s \<equiv> CHR 0x27 # s @ [CHR 0x27]"

definition char_in :: "nat \<Rightarrow> nat \<Rightarrow> char \<Rightarrow> bool" where
  "char_in lo hi c \<longleftrightarrow> lo \<le> of_char c \<and> of_char c \<le> hi"

definition isdigit :: "char \<Rightarrow> bool" where
  "isdigit c \<longleftrightarrow> char_in 48 57 c"

definition isalpha :: "char \<Rightarrow> bool" where
  "isalpha c \<longleftrightarrow> char_in 65 90 c \<or> char_in 97 122 c"

definition isalnum :: "char \<Rightarrow> bool" where
  "isalnum c \<longleftrightarrow> isalpha c \<or> isdigit c"

definition isspace :: "char \<Rightarrow> bool" where
  "isspace c \<longleftrightarrow> c = SPACE \<or> char_in 9 13 c"

definition digit_value :: "char \<Rightarrow> nat" where
  "digit_value c = of_char c - 48"

lemma isalnumI [simp]: "isalpha c \<Longrightarrow> isalnum c" "isdigit c \<Longrightarrow> isalnum c"
  by (simp_all add: isalnum_def)

lemma digit_value_le: "isdigit c \<Longrightarrow> digit_value c \<le> 9"
  by (auto simp: isdigit_def char_in_def digit_value_def)

lemmas ctype_defs = isdigit_def isalpha_def isalnum_def isspace_def char_in_def

section \<open>Strings\<close>

text \<open>\<open>s.substr(p, n)\<close> for \<open>p \<le> s.size()\<close>, and \<open>s.substr(p)\<close>.\<close>

definition substr :: "string \<Rightarrow> nat \<Rightarrow> nat \<Rightarrow> string" where
  "substr s p n = take n (drop p s)"

definition substr_from :: "string \<Rightarrow> nat \<Rightarrow> string" where
  "substr_from s p = drop p s"

definition is_prefix :: "string \<Rightarrow> string \<Rightarrow> bool" where
  "is_prefix p s \<longleftrightarrow> take (length p) s = p"

definition is_suffix :: "string \<Rightarrow> string \<Rightarrow> bool" where
  "is_suffix p s \<longleftrightarrow> length p \<le> length s \<and> drop (length s - length p) s = p"

text \<open>\<open>s.find(pat)\<close>: the offset of the first occurrence, \<open>npos\<close> as \<^const>\<open>None\<close>.\<close>

fun find_str :: "string \<Rightarrow> string \<Rightarrow> nat option" where
  "find_str pat [] = (if pat = [] then Some 0 else None)"
| "find_str pat (c # cs) =
     (if is_prefix pat (c # cs) then Some 0 else map_option Suc (find_str pat cs))"

text \<open>\<open>s.rfind(pat)\<close>: the offset of the last occurrence.\<close>

fun rfind_str :: "string \<Rightarrow> string \<Rightarrow> nat option" where
  "rfind_str pat [] = (if pat = [] then Some 0 else None)"
| "rfind_str pat (c # cs) =
     (case rfind_str pat cs of
        Some i \<Rightarrow> Some (Suc i)
      | None \<Rightarrow> if is_prefix pat (c # cs) then Some 0 else None)"

text \<open>The decimal spelling of \<open>std::to_string\<close>.\<close>

fun nat_to_string :: "nat \<Rightarrow> string" where
  "nat_to_string n =
     (if n < 10 then [char_of (48 + n)]
      else nat_to_string (n div 10) @ [char_of (48 + n mod 10)])"

declare nat_to_string.simps [simp del]

definition int_to_string :: "int \<Rightarrow> string" where
  "int_to_string i =
     (if i < 0 then CHR ''-'' # nat_to_string (nat (- i)) else nat_to_string (nat i))"

lemma substr_add [str_simps]: "substr s p (n + m) = substr s p n @ substr s (p + n) m"
  by (simp only: substr_def take_add drop_drop add.commute [of n p])

lemma is_prefix_append [simp, str_simps]: "is_prefix p (p @ s)"
  by (simp add: is_prefix_def)

lemma is_prefix_length: "is_prefix p s \<Longrightarrow> length p \<le> length s"
  by (auto simp: is_prefix_def dest: arg_cong [where f = length])

lemma is_prefix_iff: "is_prefix p s \<longleftrightarrow> (\<exists>t. s = p @ t)"
  by (metis append_eq_conv_conj append_take_drop_id is_prefix_def)

lemma find_str_Some:
  "find_str pat s = Some i \<Longrightarrow> is_prefix pat (drop i s) \<and> i \<le> length s"
  by (induction s arbitrary: i) (auto simp: is_prefix_def split: if_splits)

lemma find_str_first:
  "find_str pat s = Some i \<Longrightarrow> j < i \<Longrightarrow> \<not> is_prefix pat (drop j s)"
proof (induction s arbitrary: i j)
  case Nil
  then show ?case by (auto split: if_splits)
next
  case (Cons c cs)
  then show ?case by (cases j) (auto split: if_splits)
qed

lemma rfind_str_Some:
  "rfind_str pat s = Some i \<Longrightarrow> is_prefix pat (drop i s) \<and> i \<le> length s"
proof (induction s arbitrary: i)
  case Nil
  then show ?case by (auto simp: is_prefix_def split: if_splits)
next
  case (Cons c cs)
  then show ?case by (auto split: option.splits if_splits)
qed

lemma rfind_str_last:
  "rfind_str pat s = Some i \<Longrightarrow> i < j \<Longrightarrow> j < length s \<Longrightarrow> \<not> is_prefix pat (drop j s)"
proof (induction s arbitrary: i j)
  case Nil
  then show ?case by simp
next
  case (Cons c cs)
  show ?case
  proof (cases "rfind_str pat cs")
    case None
    from None have "\<And>k. k < length cs \<Longrightarrow> \<not> is_prefix pat (drop k cs)"
    proof (induction cs)
      case (Cons d ds)
      then show ?case by (cases k) (auto split: option.splits if_splits)
    qed simp
    with None Cons.prems show ?thesis by (cases j) (auto split: if_splits)
  next
    case (Some m)
    with Cons.prems Cons.IH show ?thesis by (cases j) auto
  qed
qed

text \<open>The lines a loop over \<open>std::getline(stream, line, d)\<close> sees: no line after a last \<open>d\<close>.\<close>

function (sequential) getlines :: "char \<Rightarrow> string \<Rightarrow> string list" where
  "getlines d [] = []"
| "getlines d (c # cs) =
     takeWhile (\<lambda>x. x \<noteq> d) (c # cs) # getlines d (tl (dropWhile (\<lambda>x. x \<noteq> d) (c # cs)))"
  by pat_completeness auto
termination
  by (relation "measure (\<lambda>(d, s). length s)")
    (auto simp: less_Suc_eq_le le_trans [OF length_dropWhile_le] le_diff_conv
      intro: le_trans [OF diff_le_self length_dropWhile_le])

lemma takeWhile_sep [simp]: "d \<notin> set s \<Longrightarrow> takeWhile (\<lambda>x. x \<noteq> d) (s @ d # t) = s"
  by (induction s) auto

lemma dropWhile_sep [simp]: "d \<notin> set s \<Longrightarrow> dropWhile (\<lambda>x. x \<noteq> d) (s @ d # t) = d # t"
  by (induction s) auto

lemma takeWhile_no_sep [simp]: "d \<notin> set s \<Longrightarrow> takeWhile (\<lambda>x. x \<noteq> d) s = s"
  by (induction s) auto

lemma dropWhile_no_sep [simp]: "d \<notin> set s \<Longrightarrow> dropWhile (\<lambda>x. x \<noteq> d) s = []"
  by (induction s) auto

lemma getlines_no_sep: "d \<notin> set s \<Longrightarrow> s \<noteq> [] \<Longrightarrow> getlines d s = [s]"
  by (cases s) auto

lemma getlines_append: "d \<notin> set s \<Longrightarrow> getlines d (s @ d # t) = s # getlines d t"
  by (cases s) auto

section \<open>Decimal numbers\<close>

lemma isdigit_char_of [simp]: "n < 10 \<Longrightarrow> isdigit (char_of (48 + n :: nat))"
  by (simp add: isdigit_def char_in_def)

lemma digit_value_char_of [simp]: "n < 10 \<Longrightarrow> digit_value (char_of (48 + n :: nat)) = n"
  by (simp add: digit_value_def)

lemma nat_to_string_digits: "\<forall>c \<in> set (nat_to_string n). isdigit c"
proof (induction n rule: nat_to_string.induct)
  case (1 n)
  then show ?case by (subst nat_to_string.simps) auto
qed

lemma nat_to_string_ne [simp]: "nat_to_string n \<noteq> []"
  by (subst nat_to_string.simps) simp

definition digits_value :: "nat \<Rightarrow> string \<Rightarrow> nat" where
  "digits_value = foldl (\<lambda>acc c. acc * 10 + digit_value c)"

lemma digits_value_nat_to_string: "digits_value 0 (nat_to_string n) = n"
proof (induction n rule: nat_to_string.induct)
  case (1 n)
  then show ?case
    by (subst nat_to_string.simps) (auto simp: digits_value_def)
qed

lemma not_isdigit_dot [simp]: "\<not> isdigit CHR ''.''" "\<not> isdigit CHR ''-''" "\<not> isdigit CHR ''+''"
  by (simp_all add: ctype_defs)

lemma isdigit_not_isspace: "isdigit c \<Longrightarrow> \<not> isspace c"
  by (auto simp: ctype_defs)

section \<open>Trimming\<close>

definition trim_space :: "string \<Rightarrow> string" where
  "trim_space s = rev (dropWhile isspace (rev (dropWhile isspace s)))"

lemma trim_space_id:
  "s = [] \<or> (\<not> isspace (hd s) \<and> \<not> isspace (last s)) \<Longrightarrow> trim_space s = s"
proof -
  assume a: "s = [] \<or> (\<not> isspace (hd s) \<and> \<not> isspace (last s))"
  then have "dropWhile isspace s = s" "dropWhile isspace (rev s) = rev s"
    by (auto simp: dropWhile_eq_self_iff hd_rev)
  then show ?thesis by (simp add: trim_space_def)
qed

lemma trim_space_idem [simp]: "trim_space (trim_space s) = trim_space s"
proof (rule trim_space_id)
  let ?d = "dropWhile isspace s"
  have "hd (trim_space s) = hd ?d" if "trim_space s \<noteq> []"
  proof -
    have "?d = trim_space s @ rev (takeWhile isspace (rev ?d))"
      by (metis rev_append rev_rev_ident takeWhile_dropWhile_id trim_space_def)
    with that show ?thesis by (metis hd_append2)
  qed
  moreover have "last (trim_space s) = hd (dropWhile isspace (rev ?d))" if "trim_space s \<noteq> []"
    using that by (simp add: trim_space_def last_rev)
  ultimately show "trim_space s = [] \<or> \<not> isspace (hd (trim_space s)) \<and> \<not> isspace (last (trim_space s))"
    by (metis dropWhile.simps(1) hd_dropWhile rev.simps(1) trim_space_def)
qed

section \<open>Maps\<close>

type_synonym 'v umap = "(string \<times> 'v) list"

text \<open>
  \<open>m.emplace(k, v)\<close> leaves an existing entry alone and says whether it
  inserted; \<open>m[k] = v\<close> is \<^const>\<open>AList.update\<close>.
\<close>

definition umap_emplace :: "'k \<Rightarrow> 'v \<Rightarrow> ('k \<times> 'v) list \<Rightarrow> ('k \<times> 'v) list \<times> bool" where
  "umap_emplace k v m = (if map_of m k = None then (m @ [(k, v)], True) else (m, False))"

definition umap_keys :: "('k \<times> 'v) list \<Rightarrow> 'k list" where
  "umap_keys m = map fst m"

lemma umap_emplace_map_of [umap_simps]:
  "map_of (fst (umap_emplace k v m)) j =
     (if j = k \<and> map_of m k = None then Some v else map_of m j)"
  by (auto simp: umap_emplace_def map_of_append map_add_def split: option.splits)

lemma umap_emplace_distinct [umap_simps]:
  "distinct (map fst m) \<Longrightarrow> distinct (map fst (fst (umap_emplace k v m)))"
  by (auto simp: umap_emplace_def map_of_eq_None_iff)

lemma umap_emplace_set [umap_simps]:
  "set (fst (umap_emplace k v m)) =
     (if map_of m k = None then insert (k, v) (set m) else set m)"
  by (auto simp: umap_emplace_def)

lemma umap_emplace_inserted [umap_simps]:
  "snd (umap_emplace k v m) \<longleftrightarrow> k \<notin> fst ` set m"
  by (simp add: umap_emplace_def map_of_eq_None_iff)

text \<open>Insertion into a \<open>std::map\<close>, kept sorted by key.\<close>

fun smap_put :: "'k::linorder \<Rightarrow> 'v \<Rightarrow> ('k \<times> 'v) list \<Rightarrow> ('k \<times> 'v) list" where
  "smap_put k v [] = [(k, v)]"
| "smap_put k v ((j, w) # m) =
     (if k < j then (k, v) # (j, w) # m
      else if k = j then (k, v) # m
      else (j, w) # smap_put k v m)"

lemma smap_put_map_of [umap_simps]: "map_of (smap_put k v m) = (map_of m)(k \<mapsto> v)"
  by (induction k v m rule: smap_put.induct) auto

lemma smap_put_keys [umap_simps]: "fst ` set (smap_put k v m) = insert k (fst ` set m)"
  by (induction k v m rule: smap_put.induct) auto

lemma smap_put_sorted [umap_simps]:
  "sorted_wrt (<) (map fst m) \<Longrightarrow> sorted_wrt (<) (map fst (smap_put k v m))"
proof (induction k v m rule: smap_put.induct)
  case (2 k v j w m)
  have "set (map fst (smap_put k v m)) = insert k (set (map fst m))"
    by (simp add: smap_put_keys)
  with 2 show ?case
    by (auto simp del: set_map)
qed simp

end
