(* ===== verification/Basics.thy ===== *)
theory Basics
  imports Prelude "HOL-Library.Word"
begin

unbundle bit_operations_syntax

text \<open>
  The foundation layer, \<open>include/topo/Basic\<close> and \<open>lib/Basic\<close>: source
  locations, the diagnostic engine with its error limit, the FNV-1a fingerprint
  of the caches, and the host-language names.
\<close>

section \<open>Source locations\<close>

record SourceLocation =
  loc_file :: string
  loc_line :: int
  loc_column :: int
  loc_endLine :: int
  loc_endColumn :: int

definition mkLoc :: "string \<Rightarrow> int \<Rightarrow> int \<Rightarrow> SourceLocation" where
  "mkLoc f l c =
     \<lparr>loc_file = f, loc_line = l, loc_column = c, loc_endLine = 0, loc_endColumn = 0\<rparr>"

definition default_loc :: SourceLocation where
  "default_loc = mkLoc [] 1 1"

text \<open>\<open>operator==\<close> compares the line and the column only.\<close>

definition loc_equal :: "SourceLocation \<Rightarrow> SourceLocation \<Rightarrow> bool" where
  "loc_equal a b \<longleftrightarrow> loc_line a = loc_line b \<and> loc_column a = loc_column b"

lemma mkLoc_sel [simp]:
  "loc_file (mkLoc f l c) = f" "loc_line (mkLoc f l c) = l" "loc_column (mkLoc f l c) = c"
  "loc_endLine (mkLoc f l c) = 0" "loc_endColumn (mkLoc f l c) = 0"
  by (simp_all add: mkLoc_def)

lemma loc_equal_equiv: "equivp loc_equal"
  by (rule equivpI) (auto simp: reflp_def symp_def transp_def loc_equal_def)

section \<open>The diagnostic engine\<close>

datatype DiagLevel = DL_Error | DL_Warning

record Diagnostic =
  dg_level :: DiagLevel
  dg_location :: SourceLocation
  dg_message :: string
  dg_code :: string

record DiagnosticEngine =
  diagnostics :: "Diagnostic list"
  errorCount :: int

definition kMaxErrors :: int where
  "kMaxErrors = 100"

definition empty_engine :: DiagnosticEngine where
  "empty_engine = \<lparr>diagnostics = [], errorCount = 0\<rparr>"

definition mkDiag :: "DiagLevel \<Rightarrow> SourceLocation \<Rightarrow> string \<Rightarrow> string \<Rightarrow> Diagnostic" where
  "mkDiag lv loc msg code =
     \<lparr>dg_level = lv, dg_location = loc, dg_message = msg, dg_code = code\<rparr>"

definition limit_message :: string where
  "limit_message =
     ''error limit reached ('' @ int_to_string kMaxErrors @ '' errors); further errors suppressed''"

definition report ::
  "DiagLevel \<Rightarrow> SourceLocation \<Rightarrow> string \<Rightarrow> string \<Rightarrow> DiagnosticEngine \<Rightarrow> DiagnosticEngine" where
  "report lv loc msg code e =
     (if lv = DL_Error \<and> errorCount e \<ge> kMaxErrors then e
      else
        let e1 = e\<lparr>diagnostics := diagnostics e @ [mkDiag lv loc msg code]\<rparr> in
        if lv = DL_Error then
          let e2 = e1\<lparr>errorCount := errorCount e1 + 1\<rparr> in
          if errorCount e2 = kMaxErrors then
            e2\<lparr>diagnostics := diagnostics e2 @ [mkDiag DL_Error loc limit_message []]\<rparr>
          else e2
        else e1)"

definition diag_error :: "SourceLocation \<Rightarrow> string \<Rightarrow> string \<Rightarrow> DiagnosticEngine \<Rightarrow> DiagnosticEngine" where
  "diag_error loc msg code e = report DL_Error loc msg code e"

definition diag_warning :: "SourceLocation \<Rightarrow> string \<Rightarrow> string \<Rightarrow> DiagnosticEngine \<Rightarrow> DiagnosticEngine" where
  "diag_warning loc msg code e = report DL_Warning loc msg code e"

definition reachedLimit :: "DiagnosticEngine \<Rightarrow> bool" where
  "reachedLimit e \<longleftrightarrow> errorCount e \<ge> kMaxErrors"

definition hasErrors :: "DiagnosticEngine \<Rightarrow> bool" where
  "hasErrors e \<longleftrightarrow> errorCount e > 0"

fun diagLevelLabel :: "DiagLevel \<Rightarrow> string" where
  "diagLevelLabel DL_Error = ''error: ''"
| "diagLevelLabel DL_Warning = ''warning: ''"

definition diag_line :: "Diagnostic \<Rightarrow> string" where
  "diag_line d =
     loc_file (dg_location d) @ '':'' @ int_to_string (loc_line (dg_location d)) @ '':'' @
     int_to_string (loc_column (dg_location d)) @ '': '' @
     diagLevelLabel (dg_level d) @ dg_message d @ [LF]"

definition diag_print :: "DiagnosticEngine \<Rightarrow> string" where
  "diag_print e = concat (map diag_line (diagnostics e))"

subsection \<open>What the engine keeps\<close>

text \<open>A run of reports, in order.\<close>

type_synonym diag_report = "DiagLevel \<times> SourceLocation \<times> string \<times> string"

fun report_all :: "diag_report list \<Rightarrow> DiagnosticEngine \<Rightarrow> DiagnosticEngine" where
  "report_all [] e = e"
| "report_all ((lv, loc, msg, code) # rs) e = report_all rs (report lv loc msg code e)"

definition is_error :: "Diagnostic \<Rightarrow> bool" where
  "is_error d \<longleftrightarrow> dg_level d = DL_Error"

definition reported :: "diag_report \<Rightarrow> Diagnostic" where
  "reported r = (case r of (lv, loc, msg, code) \<Rightarrow> mkDiag lv loc msg code)"

text \<open>
  The engine's invariant: the counter never passes the limit, and it counts the
  errors stored, to which reaching the limit adds one notice.
\<close>

definition engine_ok :: "DiagnosticEngine \<Rightarrow> bool" where
  "engine_ok e \<longleftrightarrow>
     0 \<le> errorCount e \<and> errorCount e \<le> kMaxErrors \<and>
     int (length (filter is_error (diagnostics e))) =
       errorCount e + (if errorCount e = kMaxErrors then 1 else 0)"

lemma is_error_mkDiag [simp]: "is_error (mkDiag lv loc msg code) \<longleftrightarrow> lv = DL_Error"
  by (simp add: is_error_def mkDiag_def)

lemma engine_ok_empty [simp]: "engine_ok empty_engine"
  by (simp add: engine_ok_def empty_engine_def kMaxErrors_def)

lemma engine_ok_report: "engine_ok e \<Longrightarrow> engine_ok (report lv loc msg code e)"
  by (cases lv) (auto simp: engine_ok_def report_def Let_def kMaxErrors_def)

lemma engine_ok_report_all: "engine_ok e \<Longrightarrow> engine_ok (report_all rs e)"
  by (induction rs e rule: report_all.induct) (auto simp: engine_ok_report)

lemma engine_ok_diag_error [simp]: "engine_ok e \<Longrightarrow> engine_ok (diag_error loc msg code e)"
  by (simp add: diag_error_def engine_ok_report)

lemma engine_ok_diag_warning [simp]: "engine_ok e \<Longrightarrow> engine_ok (diag_warning loc msg code e)"
  by (simp add: diag_warning_def engine_ok_report)

lemma diag_error_count: "errorCount e \<le> errorCount (diag_error loc msg code e)"
  by (simp add: diag_error_def report_def Let_def)

lemma report_warnings:
  "filter (\<lambda>d. \<not> is_error d) (diagnostics (report lv loc msg code e)) =
     filter (\<lambda>d. \<not> is_error d) (diagnostics e) @
     (if lv = DL_Warning then [mkDiag lv loc msg code] else [])"
  by (cases lv) (auto simp: report_def Let_def)

lemma report_all_warnings:
  "filter (\<lambda>d. \<not> is_error d) (diagnostics (report_all rs e)) =
     filter (\<lambda>d. \<not> is_error d) (diagnostics e) @
     filter (\<lambda>d. \<not> is_error d) (map reported rs)"
proof (induction rs e rule: report_all.induct)
  case (2 lv loc msg code rs e)
  then show ?case
    by (cases lv) (simp_all add: report_warnings reported_def)
qed simp

lemma errorCount_report:
  "errorCount e \<le> kMaxErrors \<Longrightarrow>
   errorCount (report lv loc msg code e) =
     min kMaxErrors (errorCount e + (if lv = DL_Error then 1 else 0))"
  by (cases lv) (auto simp: report_def Let_def min_def)

lemma errorCount_report_all:
  "errorCount e \<le> kMaxErrors \<Longrightarrow>
   errorCount (report_all rs e) =
     min kMaxErrors (errorCount e + int (length (filter is_error (map reported rs))))"
proof (induction rs e rule: report_all.induct)
  case (2 lv loc msg code rs e)
  have "errorCount (report lv loc msg code e) \<le> kMaxErrors"
    using 2(2) by (simp add: errorCount_report)
  from 2(1) [OF this] 2(2) show ?case
    by (auto simp: errorCount_report reported_def min_def)
qed (simp add: min_def)

text \<open>
  The errors stored are the first hundred reported, in order, followed by the
  limit notice exactly when the limit is reached.
\<close>

definition kept_errors :: "Diagnostic list \<Rightarrow> Diagnostic list" where
  "kept_errors ds =
     take 100 ds @
     (if length ds \<ge> 100
      then [mkDiag DL_Error (dg_location (ds ! 99)) limit_message []] else [])"

lemma report_error_step:
  assumes "filter is_error (diagnostics e) = kept_errors ds"
    and "errorCount e = min 100 (int (length ds))"
  shows "filter is_error (diagnostics (report lv loc msg code e)) =
           kept_errors (if lv = DL_Error then ds @ [mkDiag lv loc msg code] else ds)"
proof (cases "lv = DL_Error \<and> length ds < 100")
  case True
  with assms show ?thesis
    by (auto simp: report_def Let_def kMaxErrors_def kept_errors_def mkDiag_def is_error_def
        nth_append)
next
  case False
  with assms show ?thesis
    by (cases lv) (auto simp: report_def Let_def kMaxErrors_def kept_errors_def nth_append)
qed

lemma report_all_errors_from:
  "filter is_error (diagnostics e) = kept_errors ds \<Longrightarrow>
   errorCount e = min 100 (int (length ds)) \<Longrightarrow>
   filter is_error (diagnostics (report_all rs e)) =
     kept_errors (ds @ filter is_error (map reported rs))"
proof (induction rs e arbitrary: ds rule: report_all.induct)
  case (2 lv loc msg code rs e)
  let ?ds = "if lv = DL_Error then ds @ [mkDiag lv loc msg code] else ds"
  have cnt: "errorCount (report lv loc msg code e) = min 100 (int (length ?ds))"
    using errorCount_report [of e lv loc msg code] 2(3)
    by (auto simp: kMaxErrors_def min_def)
  from 2(1) [OF report_error_step [OF 2(2,3)] cnt] show ?case
    by (auto simp: reported_def)
qed simp

section \<open>FNV-1a\<close>

type_synonym u64 = "64 word"

definition kFNV1aOffsetBasis :: u64 where
  "kFNV1aOffsetBasis = 14695981039346656037"

definition kFNV1aPrime :: u64 where
  "kFNV1aPrime = 1099511628211"

definition fnv_step :: "u64 \<Rightarrow> char \<Rightarrow> u64" where
  "fnv_step hash c = (hash XOR of_char c) * kFNV1aPrime"

fun fnv_loop :: "u64 \<Rightarrow> string \<Rightarrow> u64" where
  "fnv_loop hash [] = hash"
| "fnv_loop hash (c # cs) = fnv_loop (fnv_step hash c) cs"

definition fnv1aHash :: "string \<Rightarrow> u64" where
  "fnv1aHash s = fnv_loop kFNV1aOffsetBasis s"

text \<open>
  The prime is odd, hence invertible modulo \<open>2 ^ 64\<close>: a step can be undone, so
  two inputs that part at one byte can never meet again.
\<close>

lemma fnv_prime_inverse: "kFNV1aPrime * 14886173955864302971 = 1"
  by (simp add: kFNV1aPrime_def)

lemma fnv_prime_cancel: "x * kFNV1aPrime = y * kFNV1aPrime \<longleftrightarrow> x = y"
proof
  assume "x * kFNV1aPrime = y * kFNV1aPrime"
  then have "x * (kFNV1aPrime * 14886173955864302971) = y * (kFNV1aPrime * 14886173955864302971)"
    by (simp only: mult.assoc [symmetric])
  then show "x = y"
    by (simp only: fnv_prime_inverse mult_1_right)
qed simp

lemma of_char_word_inj: "(of_char a :: u64) = of_char b \<longleftrightarrow> a = b"
proof
  assume "(of_char a :: u64) = of_char b"
  then have "unat (word_of_nat (of_char a) :: u64) = unat (word_of_nat (of_char b) :: u64)"
    by (simp only: of_nat_of_char)
  moreover have "(of_char x :: nat) < 2 ^ 64" for x
    by (rule less_le_trans [where y = 256]) simp_all
  ultimately have "(of_char a :: nat) = of_char b"
    by (simp add: unat_of_nat take_bit_nat_eq_self)
  then show "a = b" by simp
qed simp

lemma fnv_step_inj_hash: "fnv_step g c = fnv_step h c \<longleftrightarrow> g = h"
  by (auto simp: fnv_step_def fnv_prime_cancel dest: arg_cong [where f = "\<lambda>w. w XOR of_char c"]
      simp: xor.assoc)

lemma fnv_step_inj_char: "fnv_step h a = fnv_step h b \<longleftrightarrow> a = b"
proof
  assume "fnv_step h a = fnv_step h b"
  then have "h XOR (h XOR of_char a) = h XOR (h XOR of_char b)"
    by (simp add: fnv_step_def fnv_prime_cancel)
  then show "a = b"
    by (simp add: of_char_word_inj flip: xor.assoc)
qed simp

lemma fnv_loop_inj: "fnv_loop g s = fnv_loop h s \<longleftrightarrow> g = h"
  by (induction s arbitrary: g h) (auto simp: fnv_step_inj_hash)

lemma fnv_loop_append: "fnv_loop h (s @ t) = fnv_loop (fnv_loop h s) t"
  by (induction s arbitrary: h) simp_all

section \<open>Host languages\<close>

datatype HostLanguage = Cpp | Rust | Java | Python | TypeScript | Mixed

definition parseHostLanguage :: "string \<Rightarrow> HostLanguage" where
  "parseHostLanguage s =
     (if s = ''rust'' then Rust
      else if s = ''java'' then Java
      else if s = ''python'' then Python
      else if s = ''typescript'' then TypeScript
      else if s = ''mixed'' then Mixed
      else Cpp)"

section \<open>Properties\<close>

text \<open>C38: the engine's error limit, for any run of reports on a fresh engine.  Every
  warning is stored, in order; of the errors exactly the first hundred are stored, in
  order, followed by the one limit notice when the limit is reached; and the counter
  is the number of errors reported, cut off at the limit.\<close>

theorem diagnostics_kept:
  "filter (\<lambda>d. \<not> is_error d) (diagnostics (report_all rs empty_engine)) =
     filter (\<lambda>d. \<not> is_error d) (map reported rs) \<and>
   filter is_error (diagnostics (report_all rs empty_engine)) =
     kept_errors (filter is_error (map reported rs)) \<and>
   errorCount (report_all rs empty_engine) =
     min kMaxErrors (int (length (filter is_error (map reported rs))))"
  using report_all_warnings [of rs empty_engine]
    report_all_errors_from [of empty_engine "[]" rs] errorCount_report_all [of empty_engine rs]
  by (simp add: empty_engine_def kept_errors_def kMaxErrors_def)

text \<open>Two inputs of the cache fingerprint that differ in one byte, anywhere, have
  different hashes: changing a single byte of a fingerprinted file is always noticed.\<close>

theorem fnv1a_single_byte:
  "fnv1aHash (p @ [a] @ s) = fnv1aHash (p @ [b] @ s) \<longleftrightarrow> a = b"
  by (simp add: fnv1aHash_def fnv_loop_append fnv_loop_inj fnv_step_inj_char)

end
