(* ===== verification/Tokens.thy ===== *)
theory Tokens
  imports Basics
begin

text \<open>
  Token kinds and tokens: \<open>include/topo/Basic/TokenKinds.h\<close> and
  \<open>include/topo/Lexer/Token.h\<close>.  The enumeration is declared without the
  datatype package's plugins, which take minutes on a hundred constructors; the
  executable equality the library would derive is instantiated here from the
  enumerators' values.
\<close>

section \<open>Token kinds\<close>

datatype (plugins only:) TokenKind =
    Eof | Error | Identifier | IntegerLiteral | StringLiteral | KW_namespace | KW_using
    | KW_import | KW_public | KW_protected | KW_private | KW_internal | KW_ignore
    | KW_fn | KW_stage | KW_const | KW_void | KW_true | KW_false | KW_return | KW_class
    | KW_static | KW_explicit | KW_virtual | KW_template | KW_typename | KW_constraint
    | KW_requires | KW_adapt | KW_instantiate | KW_for | KW_comptime | KW_typefn
    | KW_match | KW_if | KW_else | KW_owned | KW_shared | KW_weak | KW_operator
    | KW_priority | KW_type | KW_external | KW_with | KW_handler | KW_flow | KW_bool
    | KW_i64 | KW_f64 | KW_string | KW_optional | KW_slice | KW_bytes | KW_u8 | KW_i32
    | KW_u32 | KW_u64 | KW_f32 | KW_i8 | KW_i16 | KW_u16 | KW_time_ns | KW_uuid
    | KW_decimal128 | KW_record | KW_array | KW_union | FatArrow | Assign | Arrow
    | ColonColon | Dot | Plus | Minus | Slash | Bang | EqEq | NotEq | LessEq | GreaterEq
    | Percent | Pipe | Caret | ShiftLeft | ShiftRight | AmpAmp | PipePipe | LCurly
    | RCurly | LParen | RParen | LAngle | RAngle | Comma | Semicolon | Colon | Amp
    | Star | Tilde | DotDot | Ellipsis | At | Hash | LBracket | RBracket

text \<open>The underlying value of an enumerator: its place in the declaration.\<close>

primrec tokenKindValue :: "TokenKind \<Rightarrow> nat" where
  "tokenKindValue Eof = 0"
| "tokenKindValue Error = 1"
| "tokenKindValue Identifier = 2"
| "tokenKindValue IntegerLiteral = 3"
| "tokenKindValue StringLiteral = 4"
| "tokenKindValue KW_namespace = 5"
| "tokenKindValue KW_using = 6"
| "tokenKindValue KW_import = 7"
| "tokenKindValue KW_public = 8"
| "tokenKindValue KW_protected = 9"
| "tokenKindValue KW_private = 10"
| "tokenKindValue KW_internal = 11"
| "tokenKindValue KW_ignore = 12"
| "tokenKindValue KW_fn = 13"
| "tokenKindValue KW_stage = 14"
| "tokenKindValue KW_const = 15"
| "tokenKindValue KW_void = 16"
| "tokenKindValue KW_true = 17"
| "tokenKindValue KW_false = 18"
| "tokenKindValue KW_return = 19"
| "tokenKindValue KW_class = 20"
| "tokenKindValue KW_static = 21"
| "tokenKindValue KW_explicit = 22"
| "tokenKindValue KW_virtual = 23"
| "tokenKindValue KW_template = 24"
| "tokenKindValue KW_typename = 25"
| "tokenKindValue KW_constraint = 26"
| "tokenKindValue KW_requires = 27"
| "tokenKindValue KW_adapt = 28"
| "tokenKindValue KW_instantiate = 29"
| "tokenKindValue KW_for = 30"
| "tokenKindValue KW_comptime = 31"
| "tokenKindValue KW_typefn = 32"
| "tokenKindValue KW_match = 33"
| "tokenKindValue KW_if = 34"
| "tokenKindValue KW_else = 35"
| "tokenKindValue KW_owned = 36"
| "tokenKindValue KW_shared = 37"
| "tokenKindValue KW_weak = 38"
| "tokenKindValue KW_operator = 39"
| "tokenKindValue KW_priority = 40"
| "tokenKindValue KW_type = 41"
| "tokenKindValue KW_external = 42"
| "tokenKindValue KW_with = 43"
| "tokenKindValue KW_handler = 44"
| "tokenKindValue KW_flow = 45"
| "tokenKindValue KW_bool = 46"
| "tokenKindValue KW_i64 = 47"
| "tokenKindValue KW_f64 = 48"
| "tokenKindValue KW_string = 49"
| "tokenKindValue KW_optional = 50"
| "tokenKindValue KW_slice = 51"
| "tokenKindValue KW_bytes = 52"
| "tokenKindValue KW_u8 = 53"
| "tokenKindValue KW_i32 = 54"
| "tokenKindValue KW_u32 = 55"
| "tokenKindValue KW_u64 = 56"
| "tokenKindValue KW_f32 = 57"
| "tokenKindValue KW_i8 = 58"
| "tokenKindValue KW_i16 = 59"
| "tokenKindValue KW_u16 = 60"
| "tokenKindValue KW_time_ns = 61"
| "tokenKindValue KW_uuid = 62"
| "tokenKindValue KW_decimal128 = 63"
| "tokenKindValue KW_record = 64"
| "tokenKindValue KW_array = 65"
| "tokenKindValue KW_union = 66"
| "tokenKindValue FatArrow = 67"
| "tokenKindValue Assign = 68"
| "tokenKindValue Arrow = 69"
| "tokenKindValue ColonColon = 70"
| "tokenKindValue Dot = 71"
| "tokenKindValue Plus = 72"
| "tokenKindValue Minus = 73"
| "tokenKindValue Slash = 74"
| "tokenKindValue Bang = 75"
| "tokenKindValue EqEq = 76"
| "tokenKindValue NotEq = 77"
| "tokenKindValue LessEq = 78"
| "tokenKindValue GreaterEq = 79"
| "tokenKindValue Percent = 80"
| "tokenKindValue Pipe = 81"
| "tokenKindValue Caret = 82"
| "tokenKindValue ShiftLeft = 83"
| "tokenKindValue ShiftRight = 84"
| "tokenKindValue AmpAmp = 85"
| "tokenKindValue PipePipe = 86"
| "tokenKindValue LCurly = 87"
| "tokenKindValue RCurly = 88"
| "tokenKindValue LParen = 89"
| "tokenKindValue RParen = 90"
| "tokenKindValue LAngle = 91"
| "tokenKindValue RAngle = 92"
| "tokenKindValue Comma = 93"
| "tokenKindValue Semicolon = 94"
| "tokenKindValue Colon = 95"
| "tokenKindValue Amp = 96"
| "tokenKindValue Star = 97"
| "tokenKindValue Tilde = 98"
| "tokenKindValue DotDot = 99"
| "tokenKindValue Ellipsis = 100"
| "tokenKindValue At = 101"
| "tokenKindValue Hash = 102"
| "tokenKindValue LBracket = 103"
| "tokenKindValue RBracket = 104"

definition tokenKinds :: "TokenKind list" where
  "tokenKinds =
     [Eof, Error, Identifier, IntegerLiteral, StringLiteral, KW_namespace, KW_using
      , KW_import, KW_public, KW_protected, KW_private, KW_internal, KW_ignore, KW_fn
      , KW_stage, KW_const, KW_void, KW_true, KW_false, KW_return, KW_class, KW_static
      , KW_explicit, KW_virtual, KW_template, KW_typename, KW_constraint, KW_requires
      , KW_adapt, KW_instantiate, KW_for, KW_comptime, KW_typefn, KW_match, KW_if
      , KW_else, KW_owned, KW_shared, KW_weak, KW_operator, KW_priority, KW_type
      , KW_external, KW_with, KW_handler, KW_flow, KW_bool, KW_i64, KW_f64, KW_string
      , KW_optional, KW_slice, KW_bytes, KW_u8, KW_i32, KW_u32, KW_u64, KW_f32, KW_i8
      , KW_i16, KW_u16, KW_time_ns, KW_uuid, KW_decimal128, KW_record, KW_array
      , KW_union, FatArrow, Assign, Arrow, ColonColon, Dot, Plus, Minus, Slash, Bang
      , EqEq, NotEq, LessEq, GreaterEq, Percent, Pipe, Caret, ShiftLeft, ShiftRight
      , AmpAmp, PipePipe, LCurly, RCurly, LParen, RParen, LAngle, RAngle, Comma
      , Semicolon, Colon, Amp, Star, Tilde, DotDot, Ellipsis, At, Hash, LBracket
      , RBracket]"

text \<open>\<open>tokenKindName\<close>: every enumerator has a case of its own, so the switch never
  reaches the \<open>Unknown\<close> after it.\<close>

primrec tokenKindName :: "TokenKind \<Rightarrow> string" where
  "tokenKindName Eof = ''Eof''"
| "tokenKindName Error = ''Error''"
| "tokenKindName Identifier = ''Identifier''"
| "tokenKindName IntegerLiteral = ''IntegerLiteral''"
| "tokenKindName StringLiteral = ''StringLiteral''"
| "tokenKindName KW_namespace = ''KW_namespace''"
| "tokenKindName KW_using = ''KW_using''"
| "tokenKindName KW_import = ''KW_import''"
| "tokenKindName KW_public = ''KW_public''"
| "tokenKindName KW_protected = ''KW_protected''"
| "tokenKindName KW_private = ''KW_private''"
| "tokenKindName KW_internal = ''KW_internal''"
| "tokenKindName KW_ignore = ''KW_ignore''"
| "tokenKindName KW_fn = ''KW_fn''"
| "tokenKindName KW_stage = ''KW_stage''"
| "tokenKindName KW_const = ''KW_const''"
| "tokenKindName KW_void = ''KW_void''"
| "tokenKindName KW_true = ''KW_true''"
| "tokenKindName KW_false = ''KW_false''"
| "tokenKindName KW_return = ''KW_return''"
| "tokenKindName KW_class = ''KW_class''"
| "tokenKindName KW_static = ''KW_static''"
| "tokenKindName KW_explicit = ''KW_explicit''"
| "tokenKindName KW_virtual = ''KW_virtual''"
| "tokenKindName KW_template = ''KW_template''"
| "tokenKindName KW_typename = ''KW_typename''"
| "tokenKindName KW_constraint = ''KW_constraint''"
| "tokenKindName KW_requires = ''KW_requires''"
| "tokenKindName KW_adapt = ''KW_adapt''"
| "tokenKindName KW_instantiate = ''KW_instantiate''"
| "tokenKindName KW_for = ''KW_for''"
| "tokenKindName KW_comptime = ''KW_comptime''"
| "tokenKindName KW_typefn = ''KW_typefn''"
| "tokenKindName KW_match = ''KW_match''"
| "tokenKindName KW_if = ''KW_if''"
| "tokenKindName KW_else = ''KW_else''"
| "tokenKindName KW_owned = ''KW_owned''"
| "tokenKindName KW_shared = ''KW_shared''"
| "tokenKindName KW_weak = ''KW_weak''"
| "tokenKindName KW_operator = ''KW_operator''"
| "tokenKindName KW_priority = ''KW_priority''"
| "tokenKindName KW_type = ''KW_type''"
| "tokenKindName KW_external = ''KW_external''"
| "tokenKindName KW_with = ''KW_with''"
| "tokenKindName KW_handler = ''KW_handler''"
| "tokenKindName KW_flow = ''KW_flow''"
| "tokenKindName KW_bool = ''KW_bool''"
| "tokenKindName KW_i64 = ''KW_i64''"
| "tokenKindName KW_f64 = ''KW_f64''"
| "tokenKindName KW_string = ''KW_string''"
| "tokenKindName KW_optional = ''KW_optional''"
| "tokenKindName KW_slice = ''KW_slice''"
| "tokenKindName KW_bytes = ''KW_bytes''"
| "tokenKindName KW_u8 = ''KW_u8''"
| "tokenKindName KW_i32 = ''KW_i32''"
| "tokenKindName KW_u32 = ''KW_u32''"
| "tokenKindName KW_u64 = ''KW_u64''"
| "tokenKindName KW_f32 = ''KW_f32''"
| "tokenKindName KW_i8 = ''KW_i8''"
| "tokenKindName KW_i16 = ''KW_i16''"
| "tokenKindName KW_u16 = ''KW_u16''"
| "tokenKindName KW_time_ns = ''KW_time_ns''"
| "tokenKindName KW_uuid = ''KW_uuid''"
| "tokenKindName KW_decimal128 = ''KW_decimal128''"
| "tokenKindName KW_record = ''KW_record''"
| "tokenKindName KW_array = ''KW_array''"
| "tokenKindName KW_union = ''KW_union''"
| "tokenKindName FatArrow = ''FatArrow''"
| "tokenKindName Assign = ''Assign''"
| "tokenKindName Arrow = ''Arrow''"
| "tokenKindName ColonColon = ''ColonColon''"
| "tokenKindName Dot = ''Dot''"
| "tokenKindName Plus = ''Plus''"
| "tokenKindName Minus = ''Minus''"
| "tokenKindName Slash = ''Slash''"
| "tokenKindName Bang = ''Bang''"
| "tokenKindName EqEq = ''EqEq''"
| "tokenKindName NotEq = ''NotEq''"
| "tokenKindName LessEq = ''LessEq''"
| "tokenKindName GreaterEq = ''GreaterEq''"
| "tokenKindName Percent = ''Percent''"
| "tokenKindName Pipe = ''Pipe''"
| "tokenKindName Caret = ''Caret''"
| "tokenKindName ShiftLeft = ''ShiftLeft''"
| "tokenKindName ShiftRight = ''ShiftRight''"
| "tokenKindName AmpAmp = ''AmpAmp''"
| "tokenKindName PipePipe = ''PipePipe''"
| "tokenKindName LCurly = ''LCurly''"
| "tokenKindName RCurly = ''RCurly''"
| "tokenKindName LParen = ''LParen''"
| "tokenKindName RParen = ''RParen''"
| "tokenKindName LAngle = ''LAngle''"
| "tokenKindName RAngle = ''RAngle''"
| "tokenKindName Comma = ''Comma''"
| "tokenKindName Semicolon = ''Semicolon''"
| "tokenKindName Colon = ''Colon''"
| "tokenKindName Amp = ''Amp''"
| "tokenKindName Star = ''Star''"
| "tokenKindName Tilde = ''Tilde''"
| "tokenKindName DotDot = ''DotDot''"
| "tokenKindName Ellipsis = ''Ellipsis''"
| "tokenKindName At = ''At''"
| "tokenKindName Hash = ''Hash''"
| "tokenKindName LBracket = ''LBracket''"
| "tokenKindName RBracket = ''RBracket''"

lemma tokenKinds_nth: "tokenKinds ! tokenKindValue k = k"
  by (cases k) (simp_all add: tokenKinds_def)

lemma tokenKindValue_inj [simp]: "tokenKindValue a = tokenKindValue b \<longleftrightarrow> a = b"
  by (metis tokenKinds_nth)

instantiation TokenKind :: equal
begin

definition equal_TokenKind :: "TokenKind \<Rightarrow> TokenKind \<Rightarrow> bool" where
  "equal_TokenKind a b \<longleftrightarrow> tokenKindValue a = tokenKindValue b"

instance
  by standard (simp add: equal_TokenKind_def)

end

section \<open>Tokens\<close>

record Token =
  tk_kind :: TokenKind
  tk_text :: string
  tk_location :: SourceLocation

record CommentToken =
  ct_text :: string
  ct_location :: SourceLocation
  ct_isBlock :: bool

definition mkToken :: "TokenKind \<Rightarrow> string \<Rightarrow> SourceLocation \<Rightarrow> Token" where
  "mkToken k t l = \<lparr>tk_kind = k, tk_text = t, tk_location = l\<rparr>"

lemma mkToken_sel [simp]:
  "tk_kind (mkToken k t l) = k" "tk_text (mkToken k t l) = t" "tk_location (mkToken k t l) = l"
  by (simp_all add: mkToken_def)

text \<open>\<open>Token::isKeyword\<close> compares the enumerators' values.\<close>

definition isKeyword :: "Token \<Rightarrow> bool" where
  "isKeyword t \<longleftrightarrow>
     tokenKindValue KW_namespace \<le> tokenKindValue (tk_kind t) \<and>
     tokenKindValue (tk_kind t) \<le> tokenKindValue KW_operator"

text \<open>\<open>operator<<\<close> for tokens.\<close>

definition token_print :: "Token \<Rightarrow> string" where
  "token_print t =
     ''['' @ int_to_string (loc_line (tk_location t)) @ '':'' @
     int_to_string (loc_column (tk_location t)) @ ''] '' @ tokenKindName (tk_kind t) @
     '' '' @ [CHR 0x27] @ tk_text t @ [CHR 0x27]"

end
