(* ===== verification/Lexer.thy ===== *)
theory Lexer
  imports Tokens
begin

text \<open>
  The lexer, \<open>lib/Lexer/Lexer.cpp\<close> and \<open>include/topo/Lexer/Lexer.h\<close>.  The
  class is a record passed through every method; the diagnostic engine it holds
  by reference is a field of it.  Bytes above 127 are no letters and no digits:
  the classification functions read them in the C locale.
\<close>

section \<open>Tables\<close>

definition keywordAliases :: "(string \<times> TokenKind) list" where
  "keywordAliases =
    [(''struct'', KW_type), (''trait'', KW_constraint), (''interface'', KW_constraint),
     (''protocol'', KW_constraint), (''impl'', KW_adapt), (''implement'', KW_adapt),
     (''module'', KW_namespace), (''package'', KW_namespace), (''mod'', KW_namespace),
     (''pub'', KW_public), (''export'', KW_public), (''unique'', KW_owned),
     (''own'', KW_owned), (''extern'', KW_external), (''def'', KW_fn), (''func'', KW_fn),
     (''function'', KW_fn)]"

definition keywordTable :: "(string \<times> TokenKind) list" where
  "keywordTable =
    [(''namespace'', KW_namespace), (''using'', KW_using), (''import'', KW_import),
     (''public'', KW_public), (''protected'', KW_protected), (''private'', KW_private),
     (''internal'', KW_internal), (''ignore'', KW_ignore), (''fn'', KW_fn),
     (''stage'', KW_stage), (''const'', KW_const), (''void'', KW_void),
     (''true'', KW_true), (''false'', KW_false), (''return'', KW_return),
     (''class'', KW_class), (''static'', KW_static), (''explicit'', KW_explicit),
     (''virtual'', KW_virtual), (''template'', KW_template), (''typename'', KW_typename),
     (''constraint'', KW_constraint), (''requires'', KW_requires), (''adapt'', KW_adapt),
     (''instantiate'', KW_instantiate), (''for'', KW_for), (''comptime'', KW_comptime),
     (''typefn'', KW_typefn), (''match'', KW_match), (''if'', KW_if), (''else'', KW_else),
     (''owned'', KW_owned), (''shared'', KW_shared), (''weak'', KW_weak),
     (''operator'', KW_operator), (''priority'', KW_priority), (''type'', KW_type),
     (''external'', KW_external), (''with'', KW_with), (''handler'', KW_handler),
     (''flow'', KW_flow), (''bool'', KW_bool), (''i64'', KW_i64), (''f64'', KW_f64),
     (''string'', KW_string), (''optional'', KW_optional), (''slice'', KW_slice),
     (''bytes'', KW_bytes), (''u8'', KW_u8), (''i32'', KW_i32), (''u32'', KW_u32),
     (''u64'', KW_u64), (''f32'', KW_f32), (''i8'', KW_i8), (''i16'', KW_i16),
     (''u16'', KW_u16), (''time_ns'', KW_time_ns), (''uuid'', KW_uuid),
     (''decimal128'', KW_decimal128), (''record'', KW_record), (''array'', KW_array),
     (''union'', KW_union)]"

definition canonicalKeywordText :: "TokenKind \<Rightarrow> string" where
  "canonicalKeywordText k =
     (if k = KW_type then ''type''
      else if k = KW_constraint then ''constraint''
      else if k = KW_adapt then ''adapt''
      else if k = KW_namespace then ''namespace''
      else if k = KW_public then ''public''
      else if k = KW_owned then ''owned''
      else if k = KW_fn then ''fn''
      else if k = KW_external then ''external''
      else [])"

text \<open>The multi-character operators, in the order the code tests them.\<close>

definition twoCharOps :: "((char \<times> char) \<times> TokenKind) list" where
  "twoCharOps =
    [((CHR '':'', CHR '':''), ColonColon), ((CHR ''-'', CHR ''>''), Arrow),
     ((CHR ''='', CHR ''=''), EqEq), ((CHR ''='', CHR ''>''), FatArrow),
     ((CHR ''!'', CHR ''=''), NotEq), ((CHR ''<'', CHR ''<''), ShiftLeft),
     ((CHR ''<'', CHR ''=''), LessEq), ((CHR ''>'', CHR ''>''), ShiftRight),
     ((CHR ''>'', CHR ''=''), GreaterEq), ((CHR ''&'', CHR ''&''), AmpAmp),
     ((CHR ''|'', CHR ''|''), PipePipe)]"

definition singleCharOps :: "(char \<times> TokenKind) list" where
  "singleCharOps =
    [(CHR ''{'', LCurly), (CHR ''}'', RCurly), (CHR ''('', LParen), (CHR '')'', RParen),
     (CHR ''<'', LAngle), (CHR ''>'', RAngle), (CHR '','', Comma), (CHR '';'', Semicolon),
     (CHR '':'', Colon), (CHR ''='', Assign), (CHR ''.'', Dot), (CHR ''&'', Amp),
     (CHR ''*'', Star), (CHR ''+'', Plus), (CHR ''-'', Minus), (CHR ''/'', Slash),
     (CHR ''!'', Bang), (CHR ''~'', Tilde), (CHR ''%'', Percent), (CHR ''|'', Pipe),
     (CHR ''^'', Caret), (CHR ''['', LBracket), (CHR '']'', RBracket)]"

definition singleCharKind :: "bool \<Rightarrow> char \<Rightarrow> TokenKind option" where
  "singleCharKind lenient c =
     (if c = CHR ''@'' then (if lenient then Some At else None)
      else if c = CHR ''#'' then (if lenient then Some Hash else None)
      else map_of singleCharOps c)"

section \<open>State\<close>

datatype TransformKind = KeywordAlias | OperatorAlias | StructuralRewrite

record TransformRecord =
  tr_location :: SourceLocation
  tr_originalText :: string
  tr_canonicalText :: string
  tr_kind :: TransformKind

definition mkTransform ::
  "SourceLocation \<Rightarrow> string \<Rightarrow> string \<Rightarrow> TransformKind \<Rightarrow> TransformRecord" where
  "mkTransform l a b k =
     \<lparr>tr_location = l, tr_originalText = a, tr_canonicalText = b, tr_kind = k\<rparr>"

record Lexer =
  source :: string
  filename :: string
  lx_diag :: DiagnosticEngine
  pos :: nat
  lx_line :: int
  lx_column :: int
  tokenLine :: int
  tokenColumn :: int
  preserveComments :: bool
  comments :: "CommentToken list"
  lenientMode :: bool
  transformRecords :: "TransformRecord list"
  tokenBuffer :: "Token list"
  bufferCursor :: nat

definition mkLexer :: "string \<Rightarrow> string \<Rightarrow> DiagnosticEngine \<Rightarrow> Lexer" where
  "mkLexer src file d =
     \<lparr>source = src, filename = file, lx_diag = d, pos = 0, lx_line = 1, lx_column = 1,
      tokenLine = 1, tokenColumn = 1, preserveComments = False, comments = [],
      lenientMode = False, transformRecords = [], tokenBuffer = [], bufferCursor = 0\<rparr>"

definition setPreserveComments :: "bool \<Rightarrow> Lexer \<Rightarrow> Lexer" where
  "setPreserveComments b s = s\<lparr>preserveComments := b\<rparr>"

definition setLenientMode :: "bool \<Rightarrow> Lexer \<Rightarrow> Lexer" where
  "setLenientMode b s = s\<lparr>lenientMode := b\<rparr>"

definition setTokenBuffer :: "Token list \<Rightarrow> Lexer \<Rightarrow> Lexer" where
  "setTokenBuffer ts s = s\<lparr>tokenBuffer := ts, bufferCursor := 0\<rparr>"

section \<open>Reading characters\<close>

definition isAtEnd :: "Lexer \<Rightarrow> bool" where
  "isAtEnd s \<longleftrightarrow> pos s \<ge> length (source s)"

definition peek :: "Lexer \<Rightarrow> char" where
  "peek s = (if isAtEnd s then NUL else source s ! pos s)"

definition peekNext :: "Lexer \<Rightarrow> char" where
  "peekNext s = (if pos s + 1 \<ge> length (source s) then NUL else source s ! (pos s + 1))"

text \<open>\<open>advance\<close>; no caller reads the character it returns.\<close>

definition advance :: "Lexer \<Rightarrow> Lexer" where
  "advance s =
     (let c = peek s; s1 = s\<lparr>pos := pos s + 1\<rparr> in
      if c = LF then s1\<lparr>lx_line := lx_line s1 + 1, lx_column := 1\<rparr>
      else s1\<lparr>lx_column := lx_column s1 + 1\<rparr>)"

lemma advance_fields [simp]:
  "source (advance s) = source s" "filename (advance s) = filename s"
  "lx_diag (advance s) = lx_diag s" "pos (advance s) = pos s + 1"
  "tokenLine (advance s) = tokenLine s" "tokenColumn (advance s) = tokenColumn s"
  "preserveComments (advance s) = preserveComments s" "comments (advance s) = comments s"
  "lenientMode (advance s) = lenientMode s" "transformRecords (advance s) = transformRecords s"
  "tokenBuffer (advance s) = tokenBuffer s" "bufferCursor (advance s) = bufferCursor s"
  by (simp_all add: advance_def Let_def)

text \<open>The scanning loop \<open>while (!isAtEnd() && p(peek())) advance();\<close>.\<close>

function (sequential) advanceWhile :: "(char \<Rightarrow> bool) \<Rightarrow> Lexer \<Rightarrow> Lexer" where
  "advanceWhile p s = (if \<not> isAtEnd s \<and> p (peek s) then advanceWhile p (advance s) else s)"
  by pat_completeness auto
termination
  by (relation "measure (\<lambda>(p, s). length (source s) - pos s)") (auto simp: isAtEnd_def)

declare advanceWhile.simps [simp del]

lemma advanceWhile_fields [simp]:
  "source (advanceWhile p s) = source s" "filename (advanceWhile p s) = filename s"
  "lx_diag (advanceWhile p s) = lx_diag s"
  "tokenLine (advanceWhile p s) = tokenLine s" "tokenColumn (advanceWhile p s) = tokenColumn s"
  "preserveComments (advanceWhile p s) = preserveComments s"
  "comments (advanceWhile p s) = comments s" "lenientMode (advanceWhile p s) = lenientMode s"
  "transformRecords (advanceWhile p s) = transformRecords s"
  "tokenBuffer (advanceWhile p s) = tokenBuffer s"
  "bufferCursor (advanceWhile p s) = bufferCursor s"
  by (induction p s rule: advanceWhile.induct; subst advanceWhile.simps; simp)+

lemma advanceWhile_pos:
  "pos (advanceWhile p s) = pos s + length (takeWhile p (drop (pos s) (source s)))"
proof (induction p s rule: advanceWhile.induct)
  case (1 p s)
  show ?case
  proof (cases "isAtEnd s")
    case True
    then show ?thesis by (subst advanceWhile.simps) (simp add: isAtEnd_def)
  next
    case False
    then have "drop (pos s) (source s) = peek s # drop (pos s + 1) (source s)"
      by (simp add: peek_def isAtEnd_def Cons_nth_drop_Suc)
    with 1 False show ?thesis by (subst advanceWhile.simps) simp
  qed
qed

section \<open>Whitespace and comments\<close>

definition isBlank :: "char \<Rightarrow> bool" where
  "isBlank c \<longleftrightarrow> c = SPACE \<or> c = TAB \<or> c = CR \<or> c = LF"

definition record_comment :: "nat \<Rightarrow> int \<Rightarrow> int \<Rightarrow> bool \<Rightarrow> Lexer \<Rightarrow> Lexer" where
  "record_comment startPos startLine startCol block s =
     (if preserveComments s
      then s\<lparr>comments := comments s @
             [\<lparr>ct_text = substr (source s) startPos (pos s - startPos),
               ct_location = mkLoc (filename s) startLine startCol, ct_isBlock = block\<rparr>]\<rparr>
      else s)"

definition skipLineComment :: "Lexer \<Rightarrow> Lexer" where
  "skipLineComment s =
     record_comment (pos s) (lx_line s) (lx_column s) False
       (advanceWhile (\<lambda>c. c \<noteq> LF) (advance (advance s)))"

text \<open>The loop of \<open>skipBlockComment\<close>: whether it met the closing delimiter.\<close>

function (sequential) blockCommentLoop :: "Lexer \<Rightarrow> bool \<times> Lexer" where
  "blockCommentLoop s =
     (if isAtEnd s then (False, s)
      else if peek s = CHR ''*'' \<and> peekNext s = CHR ''/'' then (True, advance (advance s))
      else blockCommentLoop (advance s))"
  by pat_completeness auto
termination
  by (relation "measure (\<lambda>s. length (source s) - pos s)") (auto simp: isAtEnd_def)

declare blockCommentLoop.simps [simp del]

definition skipBlockComment :: "Lexer \<Rightarrow> bool \<times> Lexer" where
  "skipBlockComment s =
     (case blockCommentLoop (advance (advance s)) of
        (True, s') \<Rightarrow> (True, record_comment (pos s) (lx_line s) (lx_column s) True s')
      | (False, s') \<Rightarrow>
          (False, s'\<lparr>lx_diag := diag_error (mkLoc (filename s) (lx_line s) (lx_column s))
                                  ''unterminated block comment'' [] (lx_diag s')\<rparr>))"

lemma record_comment_fields [simp]:
  "source (record_comment a b c d s) = source s" "pos (record_comment a b c d s) = pos s"
  by (simp_all add: record_comment_def)

lemma skipLineComment_source [simp]: "source (skipLineComment s) = source s"
  by (simp add: skipLineComment_def)

lemma skipLineComment_pos: "pos s + 2 \<le> pos (skipLineComment s)"
  by (simp add: skipLineComment_def advanceWhile_pos)

lemma blockCommentLoop_source: "source (snd (blockCommentLoop s)) = source s"
  by (induction s rule: blockCommentLoop.induct) (subst blockCommentLoop.simps, simp)

lemma blockCommentLoop_pos: "pos s \<le> pos (snd (blockCommentLoop s))"
proof (induction s rule: blockCommentLoop.induct)
  case (1 s)
  then show ?case by (subst blockCommentLoop.simps) auto
qed

lemma skipBlockComment_source [simp]: "source (snd (skipBlockComment s)) = source s"
  using blockCommentLoop_source [of "advance (advance s)"]
  by (auto simp: skipBlockComment_def split: prod.splits bool.splits)

lemma skipBlockComment_pos: "pos s + 2 \<le> pos (snd (skipBlockComment s))"
  using blockCommentLoop_pos [of "advance (advance s)"]
  by (auto simp: skipBlockComment_def split: prod.splits bool.splits)

lemma skipBlockComment_result:
  "(closed, s') = skipBlockComment s \<Longrightarrow> source s' = source s \<and> pos s + 2 \<le> pos s'"
  by (metis skipBlockComment_pos skipBlockComment_source snd_conv)

function (sequential) skipWhitespace :: "Lexer \<Rightarrow> Lexer" where
  "skipWhitespace s =
     (if isAtEnd s then s
      else if isBlank (peek s) then skipWhitespace (advance s)
      else if peek s = CHR ''/'' \<and> peekNext s = CHR ''/'' then skipWhitespace (skipLineComment s)
      else if peek s = CHR ''/'' \<and> peekNext s = CHR ''*'' then
        (case skipBlockComment s of
           (closed, s') \<Rightarrow> if \<not> closed then s' else skipWhitespace s')
      else s)"
  by pat_completeness auto
termination
proof (relation "measure (\<lambda>s. length (source s) - pos s)", goal_cases)
  case (3 s)
  then show ?case using skipLineComment_pos [of s] by (simp add: isAtEnd_def)
next
  case (4 s closed s')
  then show ?case using skipBlockComment_result [of closed s' s] by (auto simp: isAtEnd_def)
qed (auto simp: isAtEnd_def)

declare skipWhitespace.simps [simp del]

section \<open>Scanning tokens\<close>

definition currentLocation :: "Lexer \<Rightarrow> SourceLocation" where
  "currentLocation s = mkLoc (filename s) (tokenLine s) (tokenColumn s)"

definition makeToken :: "TokenKind \<Rightarrow> string \<Rightarrow> Lexer \<Rightarrow> Token" where
  "makeToken k t s =
     mkToken k t \<lparr>loc_file = filename s, loc_line = tokenLine s, loc_column = tokenColumn s,
                   loc_endLine = lx_line s, loc_endColumn = lx_column s\<rparr>"

definition isIdentChar :: "char \<Rightarrow> bool" where
  "isIdentChar c \<longleftrightarrow> isalnum c \<or> c = CHR ''_''"

definition scanIdentifierOrKeyword :: "Lexer \<Rightarrow> Token \<times> Lexer" where
  "scanIdentifierOrKeyword s =
     (let s1 = advanceWhile isIdentChar s;
          text = substr (source s1) (pos s) (pos s1 - pos s) in
      case map_of keywordTable text of
        Some k \<Rightarrow> (makeToken k text s1, s1)
      | None \<Rightarrow>
          (case (if lenientMode s1 then map_of keywordAliases text else None) of
             Some k \<Rightarrow>
               let s2 = s1\<lparr>transformRecords := transformRecords s1 @
                            [mkTransform (mkLoc (filename s1) (tokenLine s1) (tokenColumn s1))
                               text (canonicalKeywordText k) KeywordAlias]\<rparr>
               in (makeToken k text s2, s2)
           | None \<Rightarrow> (makeToken Identifier text s1, s1)))"

definition scanIntegerLiteral :: "Lexer \<Rightarrow> Token \<times> Lexer" where
  "scanIntegerLiteral s =
     (let s1 = advanceWhile isdigit s in
      (makeToken IntegerLiteral (substr (source s1) (pos s) (pos s1 - pos s)) s1, s1))"

definition lex_error :: "string \<Rightarrow> Lexer \<Rightarrow> Lexer" where
  "lex_error msg s = s\<lparr>lx_diag := diag_error (currentLocation s) msg [] (lx_diag s)\<rparr>"

text \<open>
  The loop of \<open>scanStringLiteral\<close> stops at a quote, at a line feed or at the end
  of the source; the first is the literal's end, the other two are the error.
\<close>

definition scanStringLiteral :: "Lexer \<Rightarrow> Token \<times> Lexer" where
  "scanStringLiteral s =
     (let s0 = advance s;
          s1 = advanceWhile (\<lambda>c. c \<noteq> DQUOTE \<and> c \<noteq> LF) s0 in
      if isAtEnd s1 \<or> peek s1 = LF then
        let s2 = lex_error ''unterminated string literal'' s1 in (makeToken Error [] s2, s2)
      else
        let text = substr (source s1) (pos s0) (pos s1 - pos s0); s2 = advance s1 in
        (makeToken StringLiteral text s2, s2))"

definition scanOperator :: "Lexer \<Rightarrow> Token \<times> Lexer" where
  "scanOperator s =
     (let c = peek s in
      case map_of twoCharOps (c, peekNext s) of
        Some k \<Rightarrow>
          let text = [c, peekNext s]; s1 = advance (advance s) in (makeToken k text s1, s1)
      | None \<Rightarrow>
          if c = CHR ''.'' \<and> peekNext s = CHR ''.'' then
            let s1 = advance (advance s) in
            if peek s1 = CHR ''.''
            then let s2 = advance s1 in (makeToken Ellipsis ''...'' s2, s2)
            else (makeToken DotDot ''..'' s1, s1)
          else
            let s1 = advance s in
            (case singleCharKind (lenientMode s1) c of
               Some k \<Rightarrow> (makeToken k [c] s1, s1)
             | None \<Rightarrow>
                 let s2 = lex_error (''unexpected character '' @ [CHR 0x27, c, CHR 0x27]) s1
                 in (makeToken Error [c] s2, s2)))"

definition scanToken :: "Lexer \<Rightarrow> Token \<times> Lexer" where
  "scanToken s =
     (let c = peek s in
      if isalpha c \<or> c = CHR ''_'' then scanIdentifierOrKeyword s
      else if isdigit c then scanIntegerLiteral s
      else if c = DQUOTE then scanStringLiteral s
      else scanOperator s)"

definition beginToken :: "Lexer \<Rightarrow> Lexer" where
  "beginToken s = s\<lparr>tokenLine := lx_line s, tokenColumn := lx_column s\<rparr>"

definition nextToken :: "Lexer \<Rightarrow> Token \<times> Lexer" where
  "nextToken s =
     (if tokenBuffer s \<noteq> [] then
        if bufferCursor s < length (tokenBuffer s)
        then (tokenBuffer s ! bufferCursor s, s\<lparr>bufferCursor := bufferCursor s + 1\<rparr>)
        else (makeToken Eof [] s, s)
      else
        let s1 = beginToken (skipWhitespace s) in
        if isAtEnd s1 then (makeToken Eof [] s1, s1) else scanToken s1)"

end
