(* ===== verification/Lexer_Laws.thy ===== *)
theory Lexer_Laws
  imports Lexer
begin

text \<open>
  What the lexer promises, over the definitions of \<open>Lexer\<close>: the positions it
  keeps are those of the text, every call makes progress, what it skips is blanks
  and comments, and every token spells the stretch of source it came from.
\<close>

section \<open>Positions\<close>

definition line_at :: "string \<Rightarrow> nat \<Rightarrow> int" where
  "line_at src p = 1 + int (length (filter (\<lambda>c. c = LF) (take p src)))"

definition column_at :: "string \<Rightarrow> nat \<Rightarrow> int" where
  "column_at src p = 1 + int (length (takeWhile (\<lambda>c. c \<noteq> LF) (rev (take p src))))"

definition lex_wf :: "Lexer \<Rightarrow> bool" where
  "lex_wf s \<longleftrightarrow>
     pos s \<le> length (source s) \<and>
     lx_line s = line_at (source s) (pos s) \<and> lx_column s = column_at (source s) (pos s) \<and>
     engine_ok (lx_diag s)"

lemma lex_wf_mkLexer: "engine_ok d \<Longrightarrow> lex_wf (mkLexer src file d)"
  by (simp add: lex_wf_def mkLexer_def line_at_def column_at_def)

lemma not_end_take: "\<not> isAtEnd s \<Longrightarrow> take (Suc (pos s)) (source s) = take (pos s) (source s) @ [peek s]"
  by (simp add: peek_def isAtEnd_def take_Suc_conv_app_nth)

lemma advance_wf: "lex_wf s \<Longrightarrow> \<not> isAtEnd s \<Longrightarrow> lex_wf (advance s)"
  using not_end_take [of s]
  by (auto simp: lex_wf_def line_at_def column_at_def advance_def Let_def isAtEnd_def)

text \<open>
  One scanning step leads to another state of the same lexer: the input and the
  modes stay, the position does not go back, and positions stay true.
\<close>

definition scans :: "Lexer \<Rightarrow> Lexer \<Rightarrow> bool" where
  "scans s s' \<longleftrightarrow>
     source s' = source s \<and> filename s' = filename s \<and>
     preserveComments s' = preserveComments s \<and> lenientMode s' = lenientMode s \<and>
     tokenBuffer s' = tokenBuffer s \<and> bufferCursor s' = bufferCursor s \<and>
     pos s \<le> pos s' \<and> errorCount (lx_diag s) \<le> errorCount (lx_diag s') \<and>
     (lex_wf s \<longrightarrow> lex_wf s')"

lemma scans_refl [simp, intro]: "scans s s"
  by (simp add: scans_def)

lemma scans_trans [trans]: "scans a b \<Longrightarrow> scans b c \<Longrightarrow> scans a c"
  by (auto simp: scans_def)

lemma scans_wf: "scans s s' \<Longrightarrow> lex_wf s \<Longrightarrow> lex_wf s'"
  by (simp add: scans_def)

lemma scans_advance: "\<not> isAtEnd s \<Longrightarrow> scans s (advance s)"
  by (simp add: scans_def advance_wf)

lemma scans_advanceWhile: "scans s (advanceWhile p s)"
proof (induction p s rule: advanceWhile.induct)
  case (1 p s)
  then show ?case
    by (subst advanceWhile.simps) (auto intro: scans_trans [OF scans_advance])
qed

lemma peek_not_end: "peek s \<noteq> NUL \<Longrightarrow> \<not> isAtEnd s"
  by (auto simp: peek_def)

lemma peekNext_not_end: "peekNext s \<noteq> NUL \<Longrightarrow> \<not> isAtEnd s \<and> \<not> isAtEnd (advance s)"
  by (auto simp: peekNext_def isAtEnd_def split: if_splits)

lemma scans_advance2: "peekNext s \<noteq> NUL \<Longrightarrow> scans s (advance (advance s))"
  by (blast dest: peekNext_not_end intro: scans_trans scans_advance)

lemma scans_record_comment: "scans s (record_comment p l c b s)"
  by (auto simp: scans_def record_comment_def lex_wf_def)

lemma scans_diag: "scans s (s\<lparr>lx_diag := diag_error loc msg code (lx_diag s)\<rparr>)"
  by (auto simp: scans_def lex_wf_def diag_error_count)

lemma scans_lex_error: "scans s (lex_error msg s)"
  by (simp add: lex_error_def scans_diag)

lemma scans_skipLineComment: "peekNext s \<noteq> NUL \<Longrightarrow> scans s (skipLineComment s)"
  unfolding skipLineComment_def
  by (blast intro: scans_trans scans_advance2 scans_advanceWhile scans_record_comment)

lemma scans_blockCommentLoop: "scans s (snd (blockCommentLoop s))"
proof (induction s rule: blockCommentLoop.induct)
  case (1 s)
  then show ?case
    by (subst blockCommentLoop.simps)
      (auto intro: scans_advance2 scans_trans [OF scans_advance])
qed

lemma scans_skipBlockComment:
  assumes "peekNext s \<noteq> NUL"
  shows "scans s (snd (skipBlockComment s))"
proof -
  obtain b s' where l: "blockCommentLoop (advance (advance s)) = (b, s')" by fastforce
  have "scans s s'"
    using scans_trans [OF scans_advance2 [OF assms] scans_blockCommentLoop] l by simp
  then show ?thesis
    by (auto simp: skipBlockComment_def l intro: scans_trans scans_record_comment scans_diag
        split: bool.splits)
qed

lemma scans_skipWhitespace: "scans s (skipWhitespace s)"
proof (induction s rule: skipWhitespace.induct)
  case (1 s)
  obtain b s' where c: "skipBlockComment s = (b, s')" by fastforce
  have block: "peekNext s = CHR ''*'' \<Longrightarrow> scans s s'"
    using scans_skipBlockComment [of s] c by simp
  have line: "peekNext s = CHR ''/'' \<Longrightarrow> scans s (skipLineComment s)"
    by (simp add: scans_skipLineComment)
  show ?case
    by (subst skipWhitespace.simps)
      (use 1 c block line in \<open>auto intro: scans_trans scans_advance\<close>)
qed

lemma scans_beginToken: "scans s (beginToken s)"
  by (simp add: scans_def beginToken_def lex_wf_def)

section \<open>Trivia\<close>

text \<open>The text between tokens, as a grammar: blanks, line comments, block comments.\<close>

inductive trivia :: "string \<Rightarrow> bool" where
  trivia_nil: "trivia []"
| trivia_blank: "isBlank c \<Longrightarrow> trivia t \<Longrightarrow> trivia (c # t)"
| trivia_line: "LF \<notin> set b \<Longrightarrow> t = [] \<or> hd t = LF \<Longrightarrow> trivia t \<Longrightarrow> trivia (''//'' @ b @ t)"
| trivia_block: "find_str ''*/'' (b @ ''*/'') = Some (length b) \<Longrightarrow> trivia t \<Longrightarrow>
     trivia (''/*'' @ (b @ ''*/'') @ t)"

text \<open>The stretch of source between two states.\<close>

definition stretch :: "Lexer \<Rightarrow> Lexer \<Rightarrow> string" where
  "stretch s s' = substr (source s) (pos s) (pos s' - pos s)"

lemma stretch_self [simp]: "stretch s s = []"
  by (simp add: stretch_def substr_def)

lemma stretch_append:
  assumes "scans a b" and "scans b c"
  shows "stretch a c = stretch a b @ stretch b c"
proof -
  from assms have src: "source b = source a" and "pos a \<le> pos b" "pos b \<le> pos c"
    by (auto simp: scans_def)
  then obtain n m where "pos b = pos a + n" "pos c = pos a + n + m"
    by (metis le_Suc_ex)
  with src show ?thesis
    by (simp add: stretch_def substr_add)
qed

lemma stretch_advance: "\<not> isAtEnd s \<Longrightarrow> stretch s (advance s) = [peek s]"
  by (simp add: stretch_def substr_def peek_def isAtEnd_def take_Suc_conv_app_nth hd_drop_conv_nth
      flip: take_Suc)

lemma stretch_advanceWhile:
  "stretch s (advanceWhile p s) = takeWhile p (drop (pos s) (source s))"
  by (simp add: stretch_def substr_def advanceWhile_pos takeWhile_eq_take [symmetric])

lemma stretch_cong: "source a' = source a \<Longrightarrow> pos a' = pos a \<Longrightarrow> pos b' = pos b \<Longrightarrow> stretch a' b' = stretch a b"
  by (simp add: stretch_def)

lemma stretch_head: "stretch a b \<noteq> [] \<Longrightarrow> hd (stretch a b) = peek a"
  by (auto simp: stretch_def substr_def peek_def isAtEnd_def hd_drop_conv_nth)

lemma stretch_advance2:
  assumes "peekNext s \<noteq> NUL"
  shows "stretch s (advance (advance s)) = [peek s, peekNext s]"
proof -
  have ends: "\<not> isAtEnd s" "\<not> isAtEnd (advance s)"
    using peekNext_not_end [OF assms] by auto
  have "stretch s (advance (advance s)) = [peek s] @ [peek (advance s)]"
    by (simp only: stretch_append [OF scans_advance [OF ends(1)] scans_advance [OF ends(2)]]
        stretch_advance ends not_False_eq_True)
  moreover have "peek (advance s) = peekNext s"
    using ends(2) by (simp add: peek_def peekNext_def isAtEnd_def)
  ultimately show ?thesis by simp
qed

lemma peek_advanceWhile_stop: "isAtEnd (advanceWhile p s) \<or> \<not> p (peek (advanceWhile p s))"
proof (induction p s rule: advanceWhile.induct)
  case (1 p s)
  then show ?case
    by (cases "\<not> isAtEnd s \<and> p (peek s)") (subst (1 2) advanceWhile.simps; auto)+
qed

lemma stretch_skipLineComment:
  assumes "peek s = CHR ''/''" and "peekNext s = CHR ''/''"
  shows "\<exists>b. stretch s (skipLineComment s) = ''//'' @ b \<and> LF \<notin> set b"
    and "isAtEnd (skipLineComment s) \<or> peek (skipLineComment s) = LF"
proof -
  let ?s2 = "advance (advance s)"
  let ?s3 = "advanceWhile (\<lambda>c. c \<noteq> LF) ?s2"
  have sc: "scans s ?s2" using assms by (simp add: scans_advance2)
  have "stretch s (skipLineComment s) = stretch s ?s3"
    by (simp add: stretch_def skipLineComment_def)
  also have "\<dots> = ''//'' @ takeWhile (\<lambda>c. c \<noteq> LF) (drop (pos ?s2) (source ?s2))"
    using assms
    by (simp add: stretch_append [OF sc scans_advanceWhile] stretch_advance2 stretch_advanceWhile)
  finally show "\<exists>b. stretch s (skipLineComment s) = ''//'' @ b \<and> LF \<notin> set b"
    by (auto dest: set_takeWhileD)
  show "isAtEnd (skipLineComment s) \<or> peek (skipLineComment s) = LF"
    using peek_advanceWhile_stop [of "\<lambda>c. c \<noteq> LF" ?s2]
    by (auto simp: skipLineComment_def isAtEnd_def peek_def)
qed

lemma blockCommentLoop_closed:
  "blockCommentLoop s = (True, s') \<Longrightarrow>
   \<exists>b. stretch s s' = b @ ''*/'' \<and> find_str ''*/'' (b @ ''*/'') = Some (length b)"
proof (induction s rule: blockCommentLoop.induct)
  case (1 s)
  from 1(2) have ne: "\<not> isAtEnd s"
    by (auto simp: blockCommentLoop.simps [of s] split: if_splits)
  show ?case
  proof (cases "peek s = CHR ''*'' \<and> peekNext s = CHR ''/''")
    case True
    with 1(2) ne have "s' = advance (advance s)"
      by (simp add: blockCommentLoop.simps [of s])
    with True have "stretch s s' = [] @ ''*/''"
      by (simp add: stretch_advance2)
    then show ?thesis by (intro exI [of _ "[]"]) (simp add: is_prefix_def)
  next
    case False
    with 1(2) ne have rec: "blockCommentLoop (advance s) = (True, s')"
      by (auto simp: blockCommentLoop.simps [of s])
    from 1(1) [OF ne False rec] obtain b where
      b: "stretch (advance s) s' = b @ ''*/''" "find_str ''*/'' (b @ ''*/'') = Some (length b)"
      by blast
    have "scans (advance s) s'"
      using scans_blockCommentLoop [of "advance s"] rec by simp
    then have split: "stretch s s' = peek s # b @ ''*/''"
      using stretch_append [OF scans_advance [OF ne]] b(1) by (simp add: stretch_advance ne)
    have "hd (b @ ''*/'') = peek (advance s)"
      using stretch_head [of "advance s" s'] b(1) by simp
    moreover from this have "peek (advance s) = peekNext s"
      using b(1) by (auto simp: peek_def peekNext_def isAtEnd_def stretch_def substr_def)
    ultimately have "\<not> is_prefix ''*/'' (peek s # b @ ''*/'')"
      using False by (cases b) (auto simp: is_prefix_def)
    with split b(2) show ?thesis
      by (intro exI [of _ "peek s # b"]) simp
  qed
qed

lemma hasErrors_diag_error: "engine_ok e \<Longrightarrow> hasErrors (diag_error loc msg code e)"
  by (auto simp: hasErrors_def diag_error_def report_def Let_def engine_ok_def kMaxErrors_def)

lemma trivia_append_line:
  "LF \<notin> set b \<Longrightarrow> t = [] \<or> hd t = LF \<Longrightarrow> trivia t \<Longrightarrow> trivia ((''//'' @ b) @ t)"
  using trivia_line by simp

lemma skipWhitespace_trivia:
  "lex_wf s \<Longrightarrow> \<not> hasErrors (lx_diag (skipWhitespace s)) \<Longrightarrow> trivia (stretch s (skipWhitespace s))"
proof (induction s rule: skipWhitespace.induct)
  case (1 s)
  let ?f = "skipWhitespace s"
  consider (stop) "?f = s"
    | (blank) "\<not> isAtEnd s" "isBlank (peek s)"
    | (line) "\<not> isAtEnd s" "\<not> isBlank (peek s)" "peek s = CHR ''/''" "peekNext s = CHR ''/''"
    | (block) "\<not> isAtEnd s" "\<not> isBlank (peek s)" "peek s = CHR ''/''" "peekNext s = CHR ''*''"
    using skipWhitespace.simps [of s] by presburger
  then show ?case
  proof cases
    case stop
    then show ?thesis by (simp add: trivia_nil)
  next
    case blank
    then have f: "?f = skipWhitespace (advance s)" by (simp add: skipWhitespace.simps [of s])
    have "trivia (stretch (advance s) (skipWhitespace (advance s)))"
      using 1(1) blank 1(4,5) f advance_wf by auto
    then show ?thesis
      using blank by (simp add: f stretch_append [OF scans_advance scans_skipWhitespace]
          stretch_advance trivia_blank)
  next
    case line
    then have f: "?f = skipWhitespace (skipLineComment s)" by (simp add: skipWhitespace.simps [of s])
    let ?t = "stretch (skipLineComment s) ?f"
    have sc: "scans s (skipLineComment s)" using line by (simp add: scans_skipLineComment)
    have t: "trivia ?t"
      using 1(2) line 1(4,5) f scans_wf [OF sc] by auto
    have "?t = [] \<or> hd ?t = LF"
    proof (cases "isAtEnd (skipLineComment s)")
      case True
      then show ?thesis by (simp add: stretch_def substr_def isAtEnd_def)
    next
      case False
      then show ?thesis
        using stretch_skipLineComment(2) [OF line(3,4)] stretch_head by metis
    qed
    moreover obtain b where b: "stretch s (skipLineComment s) = ''//'' @ b" "LF \<notin> set b"
      using stretch_skipLineComment(1) [OF line(3,4)] by blast
    ultimately have "trivia ((''//'' @ b) @ ?t)"
      using t by (intro trivia_append_line) auto
    moreover have "stretch s ?f = (''//'' @ b) @ ?t"
      using stretch_append [OF sc, of ?f] scans_skipWhitespace [of "skipLineComment s"] b(1)
      by (simp add: f)
    ultimately show ?thesis by (simp only:)
  next
    case block
    obtain c s' where c: "skipBlockComment s = (c, s')" by fastforce
    have sc: "scans s s'" using scans_skipBlockComment [of s] block c by simp
    have "c"
    proof (rule ccontr)
      assume "\<not> c"
      with block c have f: "?f = s'" by (simp add: skipWhitespace.simps [of s])
      obtain b s1 where l: "blockCommentLoop (advance (advance s)) = (b, s1)" by fastforce
      with c \<open>\<not> c\<close> have s': "lx_diag s' = diag_error (mkLoc (filename s) (lx_line s) (lx_column s))
          ''unterminated block comment'' [] (lx_diag s1)"
        by (auto simp: skipBlockComment_def split: bool.splits)
      have "scans s s1"
        using scans_trans [OF scans_advance2 scans_blockCommentLoop, of s] block l by simp
      then have "engine_ok (lx_diag s1)"
        using 1(4) by (auto simp: scans_def lex_wf_def)
      with s' f 1(5) show False by (simp add: hasErrors_diag_error)
    qed
    with block c have f: "?f = skipWhitespace s'" by (simp add: skipWhitespace.simps [of s])
    have t: "trivia (stretch s' ?f)"
      using 1(3) [OF block(1,2) _ _ c [symmetric]] block \<open>c\<close> 1(4,5) f scans_wf [OF sc] by simp
    obtain s1 where l: "blockCommentLoop (advance (advance s)) = (True, s1)"
        and s': "s' = record_comment (pos s) (lx_line s) (lx_column s) True s1"
      using c \<open>c\<close> by (auto simp: skipBlockComment_def split: prod.splits bool.splits)
    from blockCommentLoop_closed [OF l] obtain b where
      b: "stretch (advance (advance s)) s1 = b @ ''*/''" "find_str ''*/'' (b @ ''*/'') = Some (length b)"
      by blast
    have "stretch s s' = stretch s s1" by (simp add: s' stretch_def)
    also have "\<dots> = ''/*'' @ b @ ''*/''"
      using stretch_append [OF scans_advance2, of s s1] scans_blockCommentLoop [of "advance (advance s)"]
        block l b(1) by (simp add: stretch_advance2)
    finally show ?thesis
      using stretch_append [OF sc, of ?f] scans_skipWhitespace [of s'] trivia_block [OF b(2) t]
      by (simp add: f)
  qed
qed

section \<open>Tokens\<close>

text \<open>The source text a token spells: a string literal is stored without its quotes.\<close>

definition lexeme :: "Token \<Rightarrow> string" where
  "lexeme t = (if tk_kind t = StringLiteral then DQUOTE # tk_text t @ [DQUOTE] else tk_text t)"

text \<open>Where a token scanned from \<open>s\<close> to \<open>s'\<close> is said to lie.\<close>

definition located :: "Lexer \<Rightarrow> Token \<Rightarrow> Lexer \<Rightarrow> bool" where
  "located s t s' \<longleftrightarrow>
     tk_location t = \<lparr>loc_file = filename s, loc_line = tokenLine s, loc_column = tokenColumn s,
                      loc_endLine = lx_line s', loc_endColumn = lx_column s'\<rparr>"

text \<open>What one scanning function delivers.\<close>

definition scanned :: "Lexer \<Rightarrow> Token \<times> Lexer \<Rightarrow> bool" where
  "scanned s r \<longleftrightarrow>
     scans s (snd r) \<and> pos s < pos (snd r) \<and> tk_kind (fst r) \<noteq> Eof \<and>
     located s (fst r) (snd r) \<and>
     (tk_kind (fst r) = Error \<longrightarrow> lex_wf s \<longrightarrow> hasErrors (lx_diag (snd r))) \<and>
     (tk_kind (fst r) \<noteq> Error \<longrightarrow>
        stretch s (snd r) = lexeme (fst r) \<and> lx_diag (snd r) = lx_diag s)"

lemma makeToken_sel [simp]:
  "tk_kind (makeToken k t s) = k" "tk_text (makeToken k t s) = t"
  by (simp_all add: makeToken_def)

lemma keyword_kinds:
  "map_of keywordTable w = Some k \<Longrightarrow> k \<noteq> Eof \<and> k \<noteq> Error \<and> k \<noteq> StringLiteral \<and> k \<noteq> Identifier"
  by (drule map_of_SomeD) (auto simp: keywordTable_def)

lemma alias_kinds:
  "map_of keywordAliases w = Some k \<Longrightarrow> k \<noteq> Eof \<and> k \<noteq> Error \<and> k \<noteq> StringLiteral \<and> k \<noteq> Identifier"
  by (drule map_of_SomeD) (auto simp: keywordAliases_def)

lemma twoCharOps_kinds:
  "map_of twoCharOps (c, d) = Some k \<Longrightarrow>
   d \<noteq> NUL \<and> k \<noteq> Eof \<and> k \<noteq> Error \<and> k \<noteq> StringLiteral"
  by (drule map_of_SomeD) (auto simp: twoCharOps_def)

lemma singleCharKind_kinds:
  "singleCharKind l c = Some k \<Longrightarrow> k \<noteq> Eof \<and> k \<noteq> Error \<and> k \<noteq> StringLiteral"
  by (auto simp: singleCharKind_def singleCharOps_def split: if_splits dest!: map_of_SomeD)

lemma substr_stretch: "source s' = source s \<Longrightarrow> substr (source s') (pos s) (pos s' - pos s) = stretch s s'"
  by (simp add: stretch_def)

lemma advanceWhile_progress:
  assumes "\<not> isAtEnd s" and "p (peek s)"
  shows "pos s < pos (advanceWhile p s)"
proof -
  have "pos (advance s) \<le> pos (advanceWhile p (advance s))"
    using scans_advanceWhile [of "advance s" p] by (simp add: scans_def)
  with assms show ?thesis by (subst advanceWhile.simps) simp
qed

lemma isalpha_ident: "isalpha c \<Longrightarrow> isIdentChar c"
  by (simp add: isIdentChar_def)

lemma scanned_identifier:
  assumes "\<not> isAtEnd s" and "isalpha (peek s) \<or> peek s = CHR ''_''"
  shows "scanned s (scanIdentifierOrKeyword s)"
proof -
  let ?s1 = "advanceWhile isIdentChar s"
  have prog: "pos s < pos ?s1"
    using assms by (auto intro!: advanceWhile_progress simp: isIdentChar_def)
  have sc: "scans s ?s1" "scans s (?s1\<lparr>transformRecords := r\<rparr>)" for r
    using scans_advanceWhile [of s isIdentChar] by (auto simp: scans_def lex_wf_def)
  have st: "stretch s (?s1\<lparr>transformRecords := r\<rparr>) = stretch s ?s1" for r
    by (simp add: stretch_def)
  show ?thesis
    using sc prog
    by (auto simp: scanned_def scanIdentifierOrKeyword_def Let_def lexeme_def located_def st
        makeToken_def stretch_def dest: keyword_kinds alias_kinds split: option.splits if_splits)
qed

lemma scanned_integer:
  assumes "\<not> isAtEnd s" and "isdigit (peek s)"
  shows "scanned s (scanIntegerLiteral s)"
  using assms scans_advanceWhile [of s isdigit] advanceWhile_progress [of s isdigit]
  by (auto simp: scanned_def scanIntegerLiteral_def Let_def lexeme_def located_def makeToken_def
      stretch_def)

lemma located_makeToken:
  "filename s' = filename s \<Longrightarrow> tokenLine s' = tokenLine s \<Longrightarrow> tokenColumn s' = tokenColumn s \<Longrightarrow>
   located s (makeToken k t s') s'"
  by (simp add: located_def makeToken_def)

lemma lex_error_sel [simp]:
  "pos (lex_error m s) = pos s" "filename (lex_error m s) = filename s"
  "tokenLine (lex_error m s) = tokenLine s" "tokenColumn (lex_error m s) = tokenColumn s"
  by (simp_all add: lex_error_def)

lemma lex_error_hasErrors: "lex_wf s \<Longrightarrow> hasErrors (lx_diag (lex_error m s))"
  by (simp add: lex_error_def lex_wf_def hasErrors_diag_error)

lemma scanned_string:
  assumes ne: "\<not> isAtEnd s" and q: "peek s = DQUOTE"
  shows "scanned s (scanStringLiteral s)"
proof -
  let ?s0 = "advance s"
  let ?s1 = "advanceWhile (\<lambda>c. c \<noteq> DQUOTE \<and> c \<noteq> LF) ?s0"
  have sc: "scans s ?s1" using scans_trans [OF scans_advance [OF ne] scans_advanceWhile] .
  have p1: "pos s < pos ?s1"
    using scans_advanceWhile [of ?s0] by (auto simp: scans_def Suc_le_eq)
  show ?thesis
  proof (cases "isAtEnd ?s1 \<or> peek ?s1 = LF")
    case True
    then have e: "scanStringLiteral s =
        (makeToken Error [] (lex_error ''unterminated string literal'' ?s1),
         lex_error ''unterminated string literal'' ?s1)"
      by (simp add: scanStringLiteral_def Let_def)
    show ?thesis
      unfolding e scanned_def using p1 scans_trans [OF sc scans_lex_error] scans_wf [OF sc]
      by (auto intro: located_makeToken lex_error_hasErrors)
  next
    case False
    then have e: "scanStringLiteral s =
        (makeToken StringLiteral (substr (source s) (pos ?s0) (pos ?s1 - pos ?s0)) (advance ?s1),
         advance ?s1)"
      by (simp add: scanStringLiteral_def Let_def)
    have "peek ?s1 = DQUOTE"
      using False peek_advanceWhile_stop [of "\<lambda>c. c \<noteq> DQUOTE \<and> c \<noteq> LF" ?s0] by auto
    moreover have "stretch s (advance ?s1) = stretch s ?s0 @ stretch ?s0 ?s1 @ stretch ?s1 (advance ?s1)"
      using False ne by (simp add: stretch_append [OF sc scans_advance]
          stretch_append [OF scans_advance scans_advanceWhile])
    ultimately have "stretch s (advance ?s1) =
        DQUOTE # substr (source s) (pos ?s0) (pos ?s1 - pos ?s0) @ [DQUOTE]"
      using False ne q by (simp add: stretch_advance) (simp add: stretch_def)
    then show ?thesis
      unfolding e scanned_def using p1 scans_trans [OF sc scans_advance] False
      by (auto simp: lexeme_def intro: located_makeToken)
  qed
qed

lemma peek_advance: "\<not> isAtEnd s \<Longrightarrow> peek (advance s) = peekNext s"
  by (auto simp: peek_def peekNext_def isAtEnd_def)

lemma scanned_operator:
  assumes ne: "\<not> isAtEnd s"
  shows "scanned s (scanOperator s)"
proof -
  let ?s2 = "advance (advance s)"
  consider (two) k where "map_of twoCharOps (peek s, peekNext s) = Some k"
    | (dots) "map_of twoCharOps (peek s, peekNext s) = None" "peek s = CHR ''.''"
        "peekNext s = CHR ''.''"
    | (one) "map_of twoCharOps (peek s, peekNext s) = None"
        "\<not> (peek s = CHR ''.'' \<and> peekNext s = CHR ''.'')"
    by blast
  then show ?thesis
  proof cases
    case (two k)
    then have e: "scanOperator s = (makeToken k [peek s, peekNext s] ?s2, ?s2)"
      by (simp add: scanOperator_def Let_def)
    show ?thesis
      unfolding e scanned_def using twoCharOps_kinds [OF two] scans_advance2 [of s]
      by (auto simp: lexeme_def stretch_advance2 intro: located_makeToken)
  next
    case dots
    then have sc: "scans s ?s2" by (simp add: scans_advance2)
    show ?thesis
    proof (cases "peek ?s2 = CHR ''.''")
      case True
      then have ne2: "\<not> isAtEnd ?s2" using peek_not_end [of ?s2] by simp
      from True dots have e: "scanOperator s = (makeToken Ellipsis ''...'' (advance ?s2), advance ?s2)"
        by (simp add: scanOperator_def Let_def)
      show ?thesis
        unfolding e scanned_def using scans_trans [OF sc scans_advance [OF ne2]] dots True
        by (auto simp: lexeme_def stretch_append [OF sc scans_advance [OF ne2]] stretch_advance2
            stretch_advance ne2 intro: located_makeToken)
    next
      case False
      with dots have e: "scanOperator s = (makeToken DotDot ''..'' ?s2, ?s2)"
        by (simp add: scanOperator_def Let_def)
      show ?thesis
        unfolding e scanned_def using sc dots
        by (auto simp: lexeme_def stretch_advance2 intro: located_makeToken)
    qed
  next
    case one
    let ?s1 = "advance s"
    show ?thesis
    proof (cases "singleCharKind (lenientMode s) (peek s)")
      case None
      let ?s3 = "lex_error (''unexpected character '' @ [CHR 0x27, peek s, CHR 0x27]) ?s1"
      from None one have e: "scanOperator s = (makeToken Error [peek s] ?s3, ?s3)"
        by (auto simp: scanOperator_def Let_def)
      show ?thesis
        unfolding e scanned_def using ne advance_wf [of s]
        by (auto intro: located_makeToken lex_error_hasErrors
            scans_trans [OF scans_advance scans_lex_error])
    next
      case (Some k)
      with one have e: "scanOperator s = (makeToken k [peek s] ?s1, ?s1)"
        by (auto simp: scanOperator_def Let_def)
      show ?thesis
        unfolding e scanned_def using singleCharKind_kinds [OF Some] ne
        by (auto simp: lexeme_def stretch_advance intro: located_makeToken scans_advance)
    qed
  qed
qed

lemma scanned_token: "\<not> isAtEnd s \<Longrightarrow> scanned s (scanToken s)"
  by (simp add: scanToken_def Let_def scanned_identifier scanned_integer scanned_string
      scanned_operator)

subsection \<open>The next token\<close>

lemma nextToken_unbuffered:
  assumes "tokenBuffer s = []"
  obtains (eof) "isAtEnd (skipWhitespace s)" "tk_kind (fst (nextToken s)) = Eof"
      "tk_text (fst (nextToken s)) = []"
      "snd (nextToken s) = beginToken (skipWhitespace s)"
    | (token) "\<not> isAtEnd (skipWhitespace s)"
      "scanned (beginToken (skipWhitespace s)) (nextToken s)"
proof (cases "isAtEnd (skipWhitespace s)")
  case True
  then have "isAtEnd (beginToken (skipWhitespace s))" by (simp add: isAtEnd_def beginToken_def)
  with assms True eof show ?thesis by (simp add: nextToken_def Let_def)
next
  case False
  then have ne: "\<not> isAtEnd (beginToken (skipWhitespace s))" by (simp add: isAtEnd_def beginToken_def)
  with assms scanned_token [OF ne] token [OF False] show ?thesis
    by (simp add: nextToken_def Let_def)
qed

lemma scans_to_begin: "scans s (beginToken (skipWhitespace s))"
  by (rule scans_trans [OF scans_skipWhitespace scans_beginToken])

lemma nextToken_scans:
  assumes "tokenBuffer s = []"
  shows "scans s (snd (nextToken s))"
  using assms
proof (cases rule: nextToken_unbuffered)
  case eof
  then show ?thesis using scans_to_begin [of s] by simp
next
  case token
  then show ?thesis using scans_trans [OF scans_to_begin [of s]] by (simp add: scanned_def)
qed

lemma nextToken_progress:
  assumes "tokenBuffer s = []" and "tk_kind (fst (nextToken s)) \<noteq> Eof"
  shows "pos s < pos (snd (nextToken s))"
  using assms(1)
proof (cases rule: nextToken_unbuffered)
  case eof
  with assms(2) show ?thesis by simp
next
  case token
  then show ?thesis using scans_to_begin [of s] by (simp add: scanned_def scans_def)
qed

text \<open>
  A token lies where the text says: there is a start offset such that everything
  before it (from where the call began) was skipped, the recorded line and column
  are the start's, the recorded end is that of the offset reached, and an
  error-free token spells exactly the text between the two.
\<close>

definition token_at :: "string \<Rightarrow> nat \<Rightarrow> nat \<Rightarrow> Token \<Rightarrow> bool" where
  "token_at src b e t \<longleftrightarrow>
     loc_line (tk_location t) = line_at src b \<and> loc_column (tk_location t) = column_at src b \<and>
     loc_endLine (tk_location t) = line_at src e \<and> loc_endColumn (tk_location t) = column_at src e \<and>
     (tk_kind t \<noteq> Error \<longrightarrow> substr src b (e - b) = lexeme t)"

lemma nextToken_at:
  assumes "tokenBuffer s = []" and wf: "lex_wf s"
  shows "\<exists>b. pos s \<le> b \<and> b \<le> pos (snd (nextToken s)) \<and>
     b = pos (skipWhitespace s) \<and>
     token_at (source s) b (pos (snd (nextToken s))) (fst (nextToken s))"
proof -
  let ?b = "beginToken (skipWhitespace s)"
  let ?r = "nextToken s"
  have wfb: "lex_wf ?b" using scans_to_begin wf scans_wf by blast
  have bpos: "pos ?b = pos (skipWhitespace s)" "tokenLine ?b = lx_line ?b"
      "tokenColumn ?b = lx_column ?b" "source ?b = source s" "pos s \<le> pos ?b"
    using scans_to_begin [of s] by (auto simp: beginToken_def scans_def)
  from assms(1) have "token_at (source s) (pos ?b) (pos (snd ?r)) (fst ?r) \<and> pos ?b \<le> pos (snd ?r)"
  proof (cases rule: nextToken_unbuffered)
    case eof
    have "isAtEnd ?b" using eof(1) by (simp add: isAtEnd_def beginToken_def)
    then have "fst ?r = makeToken Eof [] ?b"
      using assms(1) by (simp add: nextToken_def Let_def)
    then show ?thesis
      using eof wfb bpos by (simp add: token_at_def makeToken_def lex_wf_def lexeme_def substr_def)
  next
    case token
    have wfr: "lex_wf (snd ?r)" using token(2) wfb by (auto simp: scanned_def scans_def)
    have src: "source (snd ?r) = source s" using token(2) bpos by (simp add: scanned_def scans_def)
    show ?thesis
      using token(2) wfb wfr src bpos
      by (auto simp: scanned_def located_def token_at_def lex_wf_def stretch_def scans_def)
  qed
  then show ?thesis using bpos by auto
qed

section \<open>Words\<close>

text \<open>
  The classification of a word: the keyword table first, then, in lenient mode,
  the aliases, and an identifier otherwise.
\<close>

definition word_kind :: "bool \<Rightarrow> string \<Rightarrow> TokenKind" where
  "word_kind lenient w =
     (case map_of keywordTable w of
        Some k \<Rightarrow> k
      | None \<Rightarrow> if lenient then (case map_of keywordAliases w of Some k \<Rightarrow> k | None \<Rightarrow> Identifier)
                else Identifier)"

lemma scanIdentifier_word:
  "tk_kind (fst (scanIdentifierOrKeyword s)) = word_kind (lenientMode s) (tk_text (fst (scanIdentifierOrKeyword s)))"
  "tk_text (fst (scanIdentifierOrKeyword s)) = takeWhile isIdentChar (drop (pos s) (source s))"
  "pos (snd (scanIdentifierOrKeyword s)) = pos (advanceWhile isIdentChar s)"
proof -
  have st: "substr (source s) (pos s) (pos (advanceWhile isIdentChar s) - pos s)
      = takeWhile isIdentChar (drop (pos s) (source s))"
    using stretch_advanceWhile [of s isIdentChar] by (simp add: stretch_def)
  show "tk_kind (fst (scanIdentifierOrKeyword s)) =
      word_kind (lenientMode s) (tk_text (fst (scanIdentifierOrKeyword s)))"
    by (auto simp: scanIdentifierOrKeyword_def Let_def word_kind_def split: option.splits)
  show "tk_text (fst (scanIdentifierOrKeyword s)) = takeWhile isIdentChar (drop (pos s) (source s))"
    by (auto simp: scanIdentifierOrKeyword_def Let_def st split: option.splits)
  show "pos (snd (scanIdentifierOrKeyword s)) = pos (advanceWhile isIdentChar s)"
    by (auto simp: scanIdentifierOrKeyword_def Let_def split: option.splits)
qed

lemma nextToken_word:
  assumes "tokenBuffer s = []" and "b = pos (skipWhitespace s)" and "b < length (source s)"
    and start: "isalpha (source s ! b) \<or> source s ! b = CHR ''_''"
  shows "tk_text (fst (nextToken s)) = takeWhile isIdentChar (drop b (source s))"
    and "tk_kind (fst (nextToken s)) = word_kind (lenientMode s) (tk_text (fst (nextToken s)))"
    and "pos (snd (nextToken s)) = b + length (tk_text (fst (nextToken s)))"
proof -
  let ?b = "beginToken (skipWhitespace s)"
  have f: "pos ?b = b" "source ?b = source s" "lenientMode ?b = lenientMode s"
    using assms(2) scans_to_begin [of s] by (auto simp: beginToken_def scans_def)
  have ne: "\<not> isAtEnd ?b" and pk: "peek ?b = source s ! b"
    using f assms(3) by (auto simp: isAtEnd_def peek_def)
  have e: "nextToken s = scanIdentifierOrKeyword ?b"
    using assms(1) start ne pk by (simp add: nextToken_def Let_def scanToken_def)
  show "tk_text (fst (nextToken s)) = takeWhile isIdentChar (drop b (source s))"
    and "tk_kind (fst (nextToken s)) = word_kind (lenientMode s) (tk_text (fst (nextToken s)))"
    and "pos (snd (nextToken s)) = b + length (tk_text (fst (nextToken s)))"
    by (simp_all add: e scanIdentifier_word f advanceWhile_pos)
qed

section \<open>The two modes\<close>

text \<open>The mode takes no part in scanning: only the classification reads it.\<close>

abbreviation in_mode :: "bool \<Rightarrow> Lexer \<Rightarrow> Lexer" where
  "in_mode b s \<equiv> s\<lparr>lenientMode := b\<rparr>"

lemma mode_reads [simp]:
  "isAtEnd (in_mode b s) = isAtEnd s" "peek (in_mode b s) = peek s"
  "peekNext (in_mode b s) = peekNext s"
  by (simp_all add: isAtEnd_def peek_def peekNext_def)

lemma advance_mode [simp]: "advance (in_mode b s) = in_mode b (advance s)"
  by (simp add: advance_def Let_def)

lemma advanceWhile_mode [simp]: "advanceWhile p (in_mode b s) = in_mode b (advanceWhile p s)"
proof (induction p s rule: advanceWhile.induct)
  case (1 p s)
  then show ?case
    by (subst (1 2) advanceWhile.simps) simp
qed

lemma record_comment_mode [simp]:
  "record_comment p l c k (in_mode b s) = in_mode b (record_comment p l c k s)"
  by (simp add: record_comment_def)

lemma skipLineComment_mode [simp]: "skipLineComment (in_mode b s) = in_mode b (skipLineComment s)"
  by (simp add: skipLineComment_def)

lemma blockCommentLoop_mode [simp]:
  "blockCommentLoop (in_mode b s) = map_prod id (in_mode b) (blockCommentLoop s)"
proof (induction s rule: blockCommentLoop.induct)
  case (1 s)
  then show ?case
    by (subst (1 2) blockCommentLoop.simps) (simp add: id_def)
qed

lemma skipBlockComment_mode [simp]:
  "skipBlockComment (in_mode b s) = map_prod id (in_mode b) (skipBlockComment s)"
  by (simp add: skipBlockComment_def split: prod.splits bool.splits)

lemma skipWhitespace_mode [simp]: "skipWhitespace (in_mode b s) = in_mode b (skipWhitespace s)"
proof (induction s rule: skipWhitespace.induct)
  case (1 s)
  obtain c s' where e: "skipBlockComment s = (c, s')" by fastforce
  show ?case
    using 1(1,2) 1(3) [OF _ _ _ _ e [symmetric]]
    by (simp add: skipWhitespace.simps [of s] skipWhitespace.simps [of "in_mode b s"] e)
qed

lemma beginToken_mode [simp]: "beginToken (in_mode b s) = in_mode b (beginToken s)"
  by (simp add: beginToken_def)

text \<open>How a strict token and the lenient token at the same place may differ.\<close>

definition mode_agrees :: "Token \<Rightarrow> Token \<Rightarrow> bool" where
  "mode_agrees strict lenient \<longleftrightarrow>
     tk_text lenient = tk_text strict \<and> tk_location lenient = tk_location strict \<and>
     (tk_kind lenient = tk_kind strict \<or>
      tk_kind strict = Identifier \<and> map_of keywordAliases (tk_text strict) = Some (tk_kind lenient) \<or>
      tk_kind strict = Error \<and> tk_text strict = ''@'' \<and> tk_kind lenient = At \<or>
      tk_kind strict = Error \<and> tk_text strict = ''#'' \<and> tk_kind lenient = Hash)"

definition step_agrees :: "Token \<times> Lexer \<Rightarrow> Token \<times> Lexer \<Rightarrow> bool" where
  "step_agrees r r' \<longleftrightarrow> mode_agrees (fst r) (fst r') \<and> pos (snd r') = pos (snd r)"

lemma makeToken_mode [simp]: "makeToken k t (in_mode b s) = makeToken k t s"
  by (simp add: makeToken_def)

lemma makeToken_records [simp]: "makeToken k t (s\<lparr>transformRecords := r\<rparr>) = makeToken k t s"
  by (simp add: makeToken_def)

lemma makeToken_lex_error [simp]: "makeToken k t (lex_error m s) = makeToken k t s"
  by (simp add: makeToken_def lex_error_def)

lemma makeToken_location: "tk_location (makeToken k t s) = tk_location (makeToken j u s)"
  by (simp add: makeToken_def)

lemma scanIdentifier_agrees:
  "step_agrees (scanIdentifierOrKeyword (in_mode False s)) (scanIdentifierOrKeyword (in_mode True s))"
  by (auto simp: step_agrees_def mode_agrees_def scanIdentifierOrKeyword_def Let_def
      split: option.splits intro: makeToken_location)

lemma scanInteger_agrees:
  "step_agrees (scanIntegerLiteral (in_mode False s)) (scanIntegerLiteral (in_mode True s))"
  by (simp add: step_agrees_def mode_agrees_def scanIntegerLiteral_def Let_def)

lemma lex_error_mode [simp]: "lex_error m (in_mode b s) = in_mode b (lex_error m s)"
  by (simp add: lex_error_def currentLocation_def)

lemma scanString_agrees:
  "step_agrees (scanStringLiteral (in_mode False s)) (scanStringLiteral (in_mode True s))"
  by (simp add: step_agrees_def mode_agrees_def scanStringLiteral_def Let_def)

lemma singleCharKind_agrees:
  "singleCharKind False c = Some k \<Longrightarrow> singleCharKind True c = Some k"
  "singleCharKind False c = None \<Longrightarrow> singleCharKind True c = Some k \<Longrightarrow>
     c = CHR ''@'' \<and> k = At \<or> c = CHR ''#'' \<and> k = Hash"
  by (auto simp: singleCharKind_def split: if_splits)

lemma scanOperator_agrees:
  "step_agrees (scanOperator (in_mode False s)) (scanOperator (in_mode True s))"
proof (cases "singleCharKind False (peek s)")
  case None
  then show ?thesis
    by (auto simp: step_agrees_def mode_agrees_def scanOperator_def Let_def
        split: option.splits intro: makeToken_location dest: singleCharKind_agrees(2))
next
  case (Some k)
  with singleCharKind_agrees(1) [OF this] show ?thesis
    by (simp add: step_agrees_def mode_agrees_def scanOperator_def Let_def split: option.splits)
qed

lemma scanToken_agrees:
  "step_agrees (scanToken (in_mode False s)) (scanToken (in_mode True s))"
  by (simp add: scanToken_def Let_def scanIdentifier_agrees scanInteger_agrees scanString_agrees
      scanOperator_agrees)

lemma nextToken_agrees:
  assumes "tokenBuffer s = []"
  shows "step_agrees (nextToken (in_mode False s)) (nextToken (in_mode True s))"
proof (cases "isAtEnd (beginToken (skipWhitespace s))")
  case True
  with assms show ?thesis
    by (simp add: nextToken_def Let_def step_agrees_def mode_agrees_def)
next
  case False
  with assms show ?thesis
    by (simp add: nextToken_def Let_def scanToken_agrees)
qed

section \<open>The tables\<close>

lemma keyword_kinds_distinct: "distinct (map snd keywordTable)"
proof -
  have "distinct (map tokenKindValue (map snd keywordTable))"
    by (simp add: keywordTable_def)
  then show ?thesis by (simp only: distinct_map)
qed

lemma aliases_not_keywords: "list_all (\<lambda>p. map_of keywordTable (fst p) = None) keywordAliases"
  by (simp add: keywordAliases_def keywordTable_def)

lemma aliases_canonical:
  "list_all (\<lambda>p. map_of keywordTable (canonicalKeywordText (snd p)) = Some (snd p)) keywordAliases"
  by (simp add: keywordAliases_def keywordTable_def canonicalKeywordText_def)

lemma alias_not_keyword: "map_of keywordAliases w = Some k \<Longrightarrow> map_of keywordTable w = None"
  using aliases_not_keywords by (force simp: list_all_iff dest: map_of_SomeD)

lemma alias_canonical:
  "map_of keywordAliases w = Some k \<Longrightarrow> map_of keywordTable (canonicalKeywordText k) = Some k"
  using aliases_canonical by (force simp: list_all_iff dest: map_of_SomeD)

section \<open>Properties\<close>

text \<open>C4: every token of the unbuffered lexer lies where its location says.  It starts
  where the skipped blanks and comments end; its line and column count the line feeds
  and characters before that offset, its end line and column those before the offset
  the lexer moved to; and unless it is an error token it spells exactly the source
  text between the two.\<close>

theorem token_located:
  assumes "tokenBuffer s = []" and "lex_wf s"
  shows "token_at (source s) (pos (skipWhitespace s)) (pos (snd (nextToken s))) (fst (nextToken s))"
  using nextToken_at [OF assms] by blast

lemma token_located_witness:
  "token_at (source (mkLexer ''// x'' [] empty_engine)) (pos (skipWhitespace (mkLexer ''// x'' [] empty_engine)))
     (pos (snd (nextToken (mkLexer ''// x'' [] empty_engine))))
     (fst (nextToken (mkLexer ''// x'' [] empty_engine)))"
proof (rule token_located)
  show "lex_wf (mkLexer ''// x'' [] empty_engine)" by (simp add: lex_wf_mkLexer)
qed (simp add: mkLexer_def)

text \<open>C7: the strict and the lenient mode read the same tokens.  From the same state the two
  modes stop at the same offset with tokens of the same text and location; the kinds
  agree too, except where the lenient mode turns an identifier into the keyword it is an
  alias of, or an \<open>@\<close> or \<open>#\<close> that strict mode rejects into a token.\<close>

theorem modes_agree:
  assumes "tokenBuffer s = []"
  shows "step_agrees (nextToken (setLenientMode False s)) (nextToken (setLenientMode True s))"
  using nextToken_agrees [OF assms] by (simp add: setLenientMode_def)

lemma modes_agree_witness:
  "step_agrees (nextToken (setLenientMode False (mkLexer ''struct @x'' [] empty_engine)))
     (nextToken (setLenientMode True (mkLexer ''struct @x'' [] empty_engine)))"
  by (rule modes_agree) (simp add: mkLexer_def)

end
