(* ===== verification/TokenStream.thy ===== *)
theory TokenStream
  imports Lexer_Laws
begin

text \<open>
  The interface between whoever produces tokens and whoever reads them up to the
  end of file, and the reading loop of
  \<open>TokenStreamRewriter::TokenStreamRewriter\<close>
  (\<open>lib/Transform/TokenStreamRewriter.cpp\<close>), which \<open>tools/topo/main.cpp\<close>
  repeats to dump tokens.  The loop has no bound of its own: whether it returns
  is part of its value.
\<close>

partial_function (option) collectTokens ::
  "('s \<Rightarrow> Token \<times> 's) \<Rightarrow> 's \<Rightarrow> (Token list \<times> 's) option" where
  "collectTokens next_token s =
     (case next_token s of (t, s1) \<Rightarrow>
        if tk_kind t = Eof then Some ([t], s1)
        else Option.bind (collectTokens next_token s1) (\<lambda>(ts, s2). Some (t # ts, s2)))"

text \<open>
  What a reader relies on: in a ready state, a token other than the end of file
  uses up some of what remains, no token adds to it, and the source stays ready.
\<close>

locale token_source =
  fixes next_token :: "'s \<Rightarrow> Token \<times> 's"
    and remaining :: "'s \<Rightarrow> nat"
    and ready :: "'s \<Rightarrow> bool"
  assumes ready_next: "ready s \<Longrightarrow> ready (snd (next_token s))"
    and next_uses: "ready s \<Longrightarrow> tk_kind (fst (next_token s)) \<noteq> Eof \<Longrightarrow>
      remaining (snd (next_token s)) < remaining s"
    and next_keeps: "ready s \<Longrightarrow> remaining (snd (next_token s)) \<le> remaining s"
begin

lemma collect_returns:
  "ready s \<Longrightarrow>
   \<exists>ts t s'. collectTokens next_token s = Some (ts @ [t], s') \<and> tk_kind t = Eof \<and>
     (\<forall>u \<in> set ts. tk_kind u \<noteq> Eof) \<and> length ts \<le> remaining s \<and> ready s'"
proof (induction "remaining s" arbitrary: s rule: less_induct)
  case less
  obtain t s1 where e: "next_token s = (t, s1)" by fastforce
  with ready_next [OF less.prems] have r1: "ready s1" by simp
  show ?case
  proof (cases "tk_kind t = Eof")
    case True
    with e r1 show ?thesis
      by (intro exI [of _ "[]"]) (simp add: collectTokens.simps [of next_token s])
  next
    case False
    with next_uses [OF less.prems] e have d: "remaining s1 < remaining s" by simp
    from less.hyps [OF d r1] obtain ts u s' where
      "collectTokens next_token s1 = Some (ts @ [u], s')" "tk_kind u = Eof"
      "\<forall>u \<in> set ts. tk_kind u \<noteq> Eof" "length ts \<le> remaining s1" "ready s'"
      by blast
    with e False d show ?thesis
      by (intro exI [of _ "t # ts"]) (auto simp: collectTokens.simps [of next_token s])
  qed
qed

end

section \<open>The lexer as a token source\<close>

text \<open>Both of the lexer's modes: reading its text, and replaying a buffer.\<close>

definition lexer_ready :: "Lexer \<Rightarrow> bool" where
  "lexer_ready s \<longleftrightarrow> (tokenBuffer s = [] \<longrightarrow> lex_wf s)"

definition lexer_remaining :: "Lexer \<Rightarrow> nat" where
  "lexer_remaining s =
     (if tokenBuffer s = [] then length (source s) - pos s
      else length (tokenBuffer s) - bufferCursor s)"

lemma nextToken_buffered:
  "tokenBuffer s \<noteq> [] \<Longrightarrow>
   nextToken s =
     (if bufferCursor s < length (tokenBuffer s)
      then (tokenBuffer s ! bufferCursor s, s\<lparr>bufferCursor := bufferCursor s + 1\<rparr>)
      else (makeToken Eof [] s, s))"
  by (simp add: nextToken_def)

interpretation lexer: token_source nextToken lexer_remaining lexer_ready
proof
  fix s :: Lexer
  assume r: "lexer_ready s"
  show "lexer_remaining (snd (nextToken s)) \<le> lexer_remaining s"
  proof (cases "tokenBuffer s = []")
    case True
    with nextToken_scans [OF True] show ?thesis
      by (auto simp: lexer_remaining_def scans_def)
  qed (auto simp: lexer_remaining_def nextToken_buffered intro: diff_le_mono2)
  show "lexer_ready (snd (nextToken s))"
  proof (cases "tokenBuffer s = []")
    case True
    with nextToken_scans [OF True] r show ?thesis
      by (auto simp: lexer_ready_def scans_def)
  qed (simp add: lexer_ready_def nextToken_buffered)
  assume k: "tk_kind (fst (nextToken s)) \<noteq> Eof"
  show "lexer_remaining (snd (nextToken s)) < lexer_remaining s"
  proof (cases "tokenBuffer s = []")
    case True
    with nextToken_scans [OF True] nextToken_progress [OF True k] r show ?thesis
      by (auto simp: lexer_ready_def lexer_remaining_def scans_def lex_wf_def)
  next
    case False
    with k show ?thesis
      by (auto simp: lexer_remaining_def nextToken_buffered split: if_splits)
  qed
qed

section \<open>Lexing loses nothing\<close>

lemma hasErrors_scans: "scans s s' \<Longrightarrow> \<not> hasErrors (lx_diag s') \<Longrightarrow> \<not> hasErrors (lx_diag s)"
  by (simp add: scans_def hasErrors_def)

lemma collectTokens_scans:
  "collectTokens nextToken s = Some (ts, s') \<Longrightarrow> tokenBuffer s = [] \<Longrightarrow> scans s s'"
proof (induction ts arbitrary: s)
  case Nil
  then show ?case
    by (subst (asm) collectTokens.simps) (auto split: prod.splits if_splits bind_splits)
next
  case (Cons t ts)
  obtain u s1 where e: "nextToken s = (u, s1)" by fastforce
  have sc: "scans s s1" using nextToken_scans [OF Cons.prems(2)] e by simp
  show ?case
  proof (cases "tk_kind u = Eof")
    case True
    with Cons.prems(1) e sc show ?thesis by (simp add: collectTokens.simps [of nextToken s])
  next
    case False
    with Cons.prems(1) e have "collectTokens nextToken s1 = Some (ts, s')"
      by (auto simp: collectTokens.simps [of nextToken s] split: bind_splits)
    from Cons.IH [OF this] sc Cons.prems(2) show ?thesis
      by (auto simp: scans_def)
  qed
qed

lemma nextToken_spells:
  assumes "tokenBuffer s = []" and "lex_wf s" and "\<not> hasErrors (lx_diag (snd (nextToken s)))"
  shows "\<exists>g. trivia g \<and> stretch s (snd (nextToken s)) = g @ lexeme (fst (nextToken s))"
proof -
  let ?w = "skipWhitespace s"
  have sw: "scans s (beginToken ?w)" by (rule scans_to_begin)
  have st: "stretch s (beginToken ?w) = stretch s ?w"
    by (simp add: stretch_def beginToken_def)
  from assms(1) show ?thesis
  proof (cases rule: nextToken_unbuffered)
    case eof
    then have "\<not> hasErrors (lx_diag ?w)"
      using assms(3) by (simp add: beginToken_def)
    then have "trivia (stretch s ?w)" by (rule skipWhitespace_trivia [OF assms(2)])
    with eof st show ?thesis by (simp add: lexeme_def)
  next
    case token
    then have sc: "scans (beginToken ?w) (snd (nextToken s))" by (simp add: scanned_def)
    have wf: "lex_wf (beginToken ?w)" using sw assms(2) by (rule scans_wf)
    have ne: "tk_kind (fst (nextToken s)) \<noteq> Error"
      using token(2) assms(3) wf by (auto simp: scanned_def)
    have "\<not> hasErrors (lx_diag (beginToken ?w))" using sc assms(3) by (rule hasErrors_scans)
    then have "\<not> hasErrors (lx_diag ?w)" by (simp add: beginToken_def)
    then have "trivia (stretch s ?w)" by (rule skipWhitespace_trivia [OF assms(2)])
    moreover have "stretch s (snd (nextToken s)) = stretch s ?w @ lexeme (fst (nextToken s))"
      using token(2) ne by (simp add: stretch_append [OF sw sc] st scanned_def)
    ultimately show ?thesis by blast
  qed
qed

text \<open>The source as an alternation of trivia and lexemes, one gap before each token.\<close>

definition laid_out :: "string list \<Rightarrow> Token list \<Rightarrow> string" where
  "laid_out gaps ts = concat (map2 (\<lambda>g t. g @ lexeme t) gaps ts)"

lemma collectTokens_lossless:
  "collectTokens nextToken s = Some (ts, s') \<Longrightarrow> tokenBuffer s = [] \<Longrightarrow> lex_wf s \<Longrightarrow>
   \<not> hasErrors (lx_diag s') \<Longrightarrow>
   \<exists>gaps. length gaps = length ts \<and> (\<forall>g \<in> set gaps. trivia g) \<and>
     substr_from (source s) (pos s) = laid_out gaps ts"
proof (induction ts arbitrary: s)
  case Nil
  then show ?case
    by (subst (asm) collectTokens.simps) (auto split: prod.splits if_splits bind_splits)
next
  case (Cons t ts)
  obtain u s1 where e: "nextToken s = (u, s1)" by fastforce
  have sc: "scans s s1" using nextToken_scans [OF Cons.prems(2)] e by simp
  then have s1: "tokenBuffer s1 = []" "lex_wf s1" "source s1 = source s" "pos s \<le> pos s1"
    using Cons.prems(2,3) by (auto simp: scans_def)
  have rest: "substr_from (source s) (pos s) = stretch s s1 @ substr_from (source s) (pos s1)"
    using s1(4) by (simp add: substr_from_def stretch_def substr_def)
      (metis append_take_drop_id drop_drop le_add_diff_inverse2)
  show ?case
  proof (cases "tk_kind u = Eof")
    case True
    with Cons.prems(1) e have ts: "t = u" "ts = []" "s' = s1"
      by (auto simp: collectTokens.simps [of nextToken s])
    from nextToken_unbuffered [OF Cons.prems(2)] True e have "isAtEnd (skipWhitespace s)"
        "s1 = beginToken (skipWhitespace s)"
      by (auto simp: scanned_def)
    then have "length (source s) \<le> pos s1"
      using scans_skipWhitespace [of s] by (simp add: isAtEnd_def beginToken_def scans_def)
    moreover obtain g where "trivia g" "stretch s s1 = g @ lexeme u"
      using nextToken_spells [OF Cons.prems(2,3)] e ts Cons.prems(4) by auto
    ultimately show ?thesis
      using rest ts by (intro exI [of _ "[g]"]) (simp add: laid_out_def substr_from_def)
  next
    case False
    with Cons.prems(1) e have ts: "t = u" and c: "collectTokens nextToken s1 = Some (ts, s')"
      by (auto simp: collectTokens.simps [of nextToken s] split: bind_splits)
    have "\<not> hasErrors (lx_diag s1)"
      using collectTokens_scans [OF c s1(1)] Cons.prems(4) by (rule hasErrors_scans)
    then obtain g where g: "trivia g" "stretch s s1 = g @ lexeme u"
      using nextToken_spells [OF Cons.prems(2,3)] e by auto
    from Cons.IH [OF c s1(1,2) Cons.prems(4)] obtain gaps where
      "length gaps = length ts" "\<forall>g \<in> set gaps. trivia g"
      "substr_from (source s) (pos s1) = laid_out gaps ts"
      using s1(3) by auto
    with g rest ts show ?thesis
      by (intro exI [of _ "g # gaps"]) (simp add: laid_out_def)
  qed
qed

section \<open>Properties\<close>

text \<open>C1: lexing is total and loses nothing.  In either mode the collecting loop returns on
  every source, with exactly one end-of-file token, the last; and when no error was
  reported the source is, character for character, the token texts (string literals
  with their quotes) with one stretch of blanks and complete comments before each.\<close>

theorem lexing_lossless:
  "\<exists>ts t s'.
     collectTokens nextToken (setLenientMode b (mkLexer src fname empty_engine)) = Some (ts @ [t], s') \<and>
     tk_kind t = Eof \<and> (\<forall>u \<in> set ts. tk_kind u \<noteq> Eof) \<and> length ts \<le> length src \<and>
     (hasErrors (lx_diag s') \<or>
      (\<exists>gaps. length gaps = length (ts @ [t]) \<and> (\<forall>g \<in> set gaps. trivia g) \<and>
         src = laid_out gaps (ts @ [t])))"
proof -
  let ?s = "setLenientMode b (mkLexer src fname empty_engine)"
  have f: "tokenBuffer ?s = []" "source ?s = src" "pos ?s = 0" "lexer_remaining ?s = length src"
    by (simp_all add: setLenientMode_def mkLexer_def lexer_remaining_def)
  have wf: "lex_wf ?s"
    using lex_wf_mkLexer [of empty_engine src fname] by (simp add: setLenientMode_def lex_wf_def)
  then have "lexer_ready ?s" by (simp add: lexer_ready_def)
  then obtain ts t s' where c: "collectTokens nextToken ?s = Some (ts @ [t], s')" "tk_kind t = Eof"
      "\<forall>u \<in> set ts. tk_kind u \<noteq> Eof" "length ts \<le> length src"
    using lexer.collect_returns [of ?s] f by auto
  with collectTokens_lossless [OF c(1) f(1) wf] f show ?thesis
    by (intro exI [of _ ts] exI [of _ t] exI [of _ s']) (auto simp: substr_from_def)
qed

lemma lexing_lossless_witness:
  "\<exists>ts t s'.
     collectTokens nextToken (setLenientMode True (mkLexer ''fn /* */ f;'' ''a.topo'' empty_engine)) =
       Some (ts @ [t], s') \<and> length ts \<le> 11"
  using lexing_lossless [of True "''fn /* */ f;''" "''a.topo''"] by auto

end
