(* ===== verification/Rewriter.thy ===== *)
theory Rewriter
  imports TokenStream
begin

text \<open>
  \<open>lib/Transform/TokenStreamRewriter.cpp\<close>: the passes that bring a leniently
  lexed token stream into canonical form.  The object's state is the token vector
  and the records; each pass walks an index over the vector and splices.
\<close>

record Rewriter =
  rw_tokens :: "Token list"
  rw_records :: "TransformRecord list"
  rw_lenient :: bool

definition mkRewriter :: "Lexer \<Rightarrow> (Rewriter \<times> Lexer) option" where
  "mkRewriter lx =
     (case collectTokens nextToken lx of
        None \<Rightarrow> None
      | Some (ts, lx') \<Rightarrow>
          Some (\<lparr>rw_tokens = ts, rw_records = [], rw_lenient = lenientMode lx\<rparr>, lx'))"

definition kindAt :: "Token list \<Rightarrow> nat \<Rightarrow> TokenKind \<Rightarrow> bool" where
  "kindAt ts i k = (if i \<ge> length ts then False else tk_kind (ts ! i) = k)"

definition replaceRange :: "nat \<Rightarrow> nat \<Rightarrow> Token list \<Rightarrow> Token list \<Rightarrow> Token list" where
  "replaceRange from to replacement ts = take from ts @ replacement @ drop to ts"

definition spanLoc :: "Token \<Rightarrow> Token \<Rightarrow> SourceLocation" where
  "spanLoc first last' =
     \<lparr>loc_file = loc_file (tk_location first), loc_line = loc_line (tk_location first),
      loc_column = loc_column (tk_location first),
      loc_endLine = loc_endLine (tk_location last'),
      loc_endColumn = loc_endColumn (tk_location last')\<rparr>"

definition startOf :: "SourceLocation \<Rightarrow> SourceLocation" where
  "startOf l = mkLoc (loc_file l) (loc_line l) (loc_column l)"

section \<open>Stage parentheses\<close>

text \<open>
  One step of \<open>rewriteStageParens\<close> at index \<open>i\<close>: how many tokens the pattern
  covers, the four tokens that replace them, and the record.
\<close>

type_synonym rewrite_step = "nat \<times> Token list \<times> TransformRecord"

definition stagePatternAt :: "Token list \<Rightarrow> nat \<Rightarrow> rewrite_step option" where
  "stagePatternAt ts i =
     (if kindAt ts i Hash \<and> kindAt ts (i + 1) LBracket \<and> kindAt ts (i + 2) KW_stage \<and>
         kindAt ts (i + 3) LParen \<and> kindAt ts (i + 4) IntegerLiteral \<and>
         kindAt ts (i + 5) RParen \<and> kindAt ts (i + 6) RBracket then
        let loc = spanLoc (ts ! i) (ts ! (i + 6)); n = tk_text (ts ! (i + 4)) in
        Some (7, [mkToken KW_stage ''stage'' loc, mkToken LAngle ''<'' loc,
                  mkToken IntegerLiteral n loc, mkToken RAngle ''>'' loc],
              mkTransform (startOf loc) (''#[stage('' @ n @ '')]'') (''stage<'' @ n @ ''>'')
                StructuralRewrite)
      else if kindAt ts i At \<and> kindAt ts (i + 1) KW_stage \<and> kindAt ts (i + 2) LParen \<and>
              kindAt ts (i + 3) IntegerLiteral \<and> kindAt ts (i + 4) RParen then
        let loc = spanLoc (ts ! i) (ts ! (i + 4)); n = tk_text (ts ! (i + 3)) in
        Some (5, [mkToken KW_stage ''stage'' loc, mkToken LAngle ''<'' loc,
                  mkToken IntegerLiteral n loc, mkToken RAngle ''>'' loc],
              mkTransform (startOf loc) (''@stage('' @ n @ '')'') (''stage<'' @ n @ ''>'')
                StructuralRewrite)
      else if kindAt ts i KW_stage \<and> kindAt ts (i + 1) LParen \<and>
              kindAt ts (i + 2) IntegerLiteral \<and> kindAt ts (i + 3) RParen then
        let loc = spanLoc (ts ! i) (ts ! (i + 3)); n = tk_text (ts ! (i + 2)) in
        Some (4, [mkToken KW_stage ''stage'' (tk_location (ts ! i)), mkToken LAngle ''<'' loc,
                  mkToken IntegerLiteral n (tk_location (ts ! (i + 2))), mkToken RAngle ''>'' loc],
              mkTransform (startOf loc) (''stage('' @ n @ '')'') (''stage<'' @ n @ ''>'')
                StructuralRewrite)
      else None)"

lemma kindAt_less: "kindAt ts i k \<Longrightarrow> i < length ts"
  by (simp add: kindAt_def split: if_splits)

lemma stagePattern_bounds:
  "stagePatternAt ts i = Some (n, rep, r) \<Longrightarrow> 4 \<le> n \<and> length rep = 4 \<and> i + n \<le> length ts"
  by (auto simp: stagePatternAt_def Let_def split: if_splits dest!: kindAt_less)

function (sequential) stageLoop ::
  "nat \<Rightarrow> Token list \<Rightarrow> TransformRecord list \<Rightarrow> Token list \<times> TransformRecord list" where
  "stageLoop i ts rs =
     (if i < length ts then
        (case stagePatternAt ts i of
           Some (n, rep, r) \<Rightarrow> stageLoop (i + 4) (replaceRange i (i + n) rep ts) (rs @ [r])
         | None \<Rightarrow> stageLoop (i + 1) ts rs)
      else (ts, rs))"
  by pat_completeness auto
termination
  by (relation "measure (\<lambda>(i, ts, rs). length ts - i)")
    (auto simp: replaceRange_def dest!: stagePattern_bounds)

definition rewriteStageParens :: "Rewriter \<Rightarrow> Rewriter" where
  "rewriteStageParens w =
     (case stageLoop 0 (rw_tokens w) (rw_records w) of
        (ts, rs) \<Rightarrow> w\<lparr>rw_tokens := ts, rw_records := rs\<rparr>)"

section \<open>Visibility and ownership annotations\<close>

definition visibilityPatternAt :: "Token list \<Rightarrow> nat \<Rightarrow> rewrite_step option" where
  "visibilityPatternAt ts i =
     (if kindAt ts i At then
        let nextKind = (if i + 1 < length ts then tk_kind (ts ! (i + 1)) else Eof) in
        if nextKind = KW_public \<or> nextKind = KW_private \<or> nextKind = KW_protected then
          let loc = spanLoc (ts ! i) (ts ! (i + 1)); kwText = tk_text (ts ! (i + 1)) in
          Some (2, [mkToken nextKind kwText loc, mkToken Colon '':'' loc],
                mkTransform (startOf loc) (''@'' @ kwText) (kwText @ '':'') StructuralRewrite)
        else None
      else None)"

definition modifierPatternAt :: "Token list \<Rightarrow> nat \<Rightarrow> rewrite_step option" where
  "modifierPatternAt ts i =
     (if kindAt ts i At \<and> kindAt ts (i + 1) KW_owned then
        let loc = spanLoc (ts ! i) (ts ! (i + 1)) in
        Some (2, [mkToken KW_owned ''owned'' loc],
              mkTransform (startOf loc) ''@owned'' ''owned'' StructuralRewrite)
      else None)"

lemma visibilityPattern_bounds:
  "visibilityPatternAt ts i = Some (n, rep, r) \<Longrightarrow> n = 2 \<and> length rep = 2 \<and> i + n \<le> length ts"
  by (auto simp: visibilityPatternAt_def Let_def split: if_splits)

lemma modifierPattern_bounds:
  "modifierPatternAt ts i = Some (n, rep, r) \<Longrightarrow> n = 2 \<and> length rep = 1 \<and> i + n \<le> length ts"
  by (auto simp: modifierPatternAt_def Let_def split: if_splits dest!: kindAt_less)

function (sequential) visibilityLoop ::
  "nat \<Rightarrow> Token list \<Rightarrow> TransformRecord list \<Rightarrow> Token list \<times> TransformRecord list" where
  "visibilityLoop i ts rs =
     (if i < length ts then
        (case visibilityPatternAt ts i of
           Some (n, rep, r) \<Rightarrow> visibilityLoop (i + 2) (replaceRange i (i + n) rep ts) (rs @ [r])
         | None \<Rightarrow> visibilityLoop (i + 1) ts rs)
      else (ts, rs))"
  by pat_completeness auto
termination
  by (relation "measure (\<lambda>(i, ts, rs). length ts - i)")
    (auto simp: replaceRange_def dest!: visibilityPattern_bounds)

definition rewriteAtVisibility :: "Rewriter \<Rightarrow> Rewriter" where
  "rewriteAtVisibility w =
     (case visibilityLoop 0 (rw_tokens w) (rw_records w) of
        (ts, rs) \<Rightarrow> w\<lparr>rw_tokens := ts, rw_records := rs\<rparr>)"

function (sequential) modifierLoop ::
  "nat \<Rightarrow> Token list \<Rightarrow> TransformRecord list \<Rightarrow> Token list \<times> TransformRecord list" where
  "modifierLoop i ts rs =
     (if i < length ts then
        (case modifierPatternAt ts i of
           Some (n, rep, r) \<Rightarrow> modifierLoop (i + 1) (replaceRange i (i + n) rep ts) (rs @ [r])
         | None \<Rightarrow> modifierLoop (i + 1) ts rs)
      else (ts, rs))"
  by pat_completeness auto
termination
  by (relation "measure (\<lambda>(i, ts, rs). length ts - i)")
    (auto simp: replaceRange_def dest!: modifierPattern_bounds)

definition rewriteAtModifier :: "Rewriter \<Rightarrow> Rewriter" where
  "rewriteAtModifier w =
     (case modifierLoop 0 (rw_tokens w) (rw_records w) of
        (ts, rs) \<Rightarrow> w\<lparr>rw_tokens := ts, rw_records := rs\<rparr>)"

section \<open>Keyword spellings\<close>

definition canonicalText :: "TokenKind \<Rightarrow> string option" where
  "canonicalText k =
     (if k = KW_type then Some ''type''
      else if k = KW_constraint then Some ''constraint''
      else if k = KW_adapt then Some ''adapt''
      else if k = KW_namespace then Some ''namespace''
      else if k = KW_public then Some ''public''
      else if k = KW_owned then Some ''owned''
      else if k = KW_fn then Some ''fn''
      else if k = KW_external then Some ''external''
      else None)"

definition canonicalToken :: "Token \<Rightarrow> Token" where
  "canonicalToken t =
     (case canonicalText (tk_kind t) of
        None \<Rightarrow> t
      | Some c \<Rightarrow> if tk_text t \<noteq> c then t\<lparr>tk_text := c\<rparr> else t)"

definition aliasRecords :: "Token \<Rightarrow> TransformRecord list" where
  "aliasRecords t =
     (case canonicalText (tk_kind t) of
        None \<Rightarrow> []
      | Some c \<Rightarrow>
          if tk_text t \<noteq> c
          then [mkTransform (startOf (tk_location t)) (tk_text t) c KeywordAlias] else [])"

definition rewriteKeywordAliasText :: "Rewriter \<Rightarrow> Rewriter" where
  "rewriteKeywordAliasText w =
     w\<lparr>rw_tokens := map canonicalToken (rw_tokens w),
       rw_records := rw_records w @ concat (map aliasRecords (rw_tokens w))\<rparr>"

text \<open>\<open>rewrite\<close>: the tokens are moved out to the caller, the records stay.\<close>

definition rewriteTokens :: "Rewriter \<Rightarrow> Token list \<times> Rewriter" where
  "rewriteTokens w =
     (let w' = (if rw_lenient w
                then rewriteKeywordAliasText (rewriteAtModifier
                       (rewriteAtVisibility (rewriteStageParens w)))
                else w)
      in (rw_tokens w', w'\<lparr>rw_tokens := []\<rparr>))"

declare stageLoop.simps [simp del] visibilityLoop.simps [simp del] modifierLoop.simps [simp del]

section \<open>The passes as rewriting of a suffix\<close>

text \<open>
  All three passes share one contract: the pattern looks at the stream from the
  index on only, it stays within it, and the index moves past what it wrote.  So
  the pass leaves what is before the index alone and is a structural recursion on
  the rest, here \<open>suffix_rewrite\<close>.
\<close>

function (sequential) suffix_rewrite ::
  "(Token list \<Rightarrow> rewrite_step option) \<Rightarrow> Token list \<Rightarrow> Token list \<times> TransformRecord list" where
  "suffix_rewrite pat [] = ([], [])"
| "suffix_rewrite pat (t # ts) =
     (case pat (t # ts) of
        Some (n, rep, r) \<Rightarrow>
          (case suffix_rewrite pat (drop (max 1 n) (t # ts)) of (us, rs) \<Rightarrow> (rep @ us, r # rs))
      | None \<Rightarrow> (case suffix_rewrite pat ts of (us, rs) \<Rightarrow> (t # us, rs)))"
  by pat_completeness auto
termination
  by (relation "measure (\<lambda>(pat, ts). length ts)") (auto split: nat_diff_split)

declare suffix_rewrite.simps(2) [simp del]

locale rewrite_pass =
  fixes pat :: "Token list \<Rightarrow> nat \<Rightarrow> rewrite_step option"
    and width :: nat
    and loop :: "nat \<Rightarrow> Token list \<Rightarrow> TransformRecord list \<Rightarrow> Token list \<times> TransformRecord list"
  assumes pat_suffix: "pat (xs @ ts) (length xs + i) = pat ts i"
    and pat_bounds: "pat ts i = Some (n, rep, r) \<Longrightarrow> 1 \<le> n \<and> length rep = width \<and> i + n \<le> length ts"
    and loop_end: "\<not> i < length ts \<Longrightarrow> loop i ts rs = (ts, rs)"
    and loop_hit: "i < length ts \<Longrightarrow> pat ts i = Some (n, rep, r) \<Longrightarrow>
      loop i ts rs = loop (i + width) (replaceRange i (i + n) rep ts) (rs @ [r])"
    and loop_miss: "i < length ts \<Longrightarrow> pat ts i = None \<Longrightarrow> loop i ts rs = loop (i + 1) ts rs"
begin

lemma loop_suffix:
  "loop (length xs) (xs @ ts) rs =
     (case suffix_rewrite (\<lambda>us. pat us 0) ts of (us, rs') \<Rightarrow> (xs @ us, rs @ rs'))"
proof (induction "length ts" arbitrary: xs ts rs rule: less_induct)
  case less
  show ?case
  proof (cases ts)
    case Nil
    then show ?thesis by (simp add: loop_end)
  next
    case (Cons t us)
    have i: "length xs < length (xs @ ts)" using Cons by simp
    have p: "pat (xs @ ts) (length xs) = pat ts 0" using pat_suffix [of xs ts 0] by simp
    show ?thesis
    proof (cases "pat ts 0")
      case None
      have "loop (length xs) (xs @ ts) rs = loop (length (xs @ [t])) ((xs @ [t]) @ us) rs"
        using loop_miss [OF i] p None Cons by simp
      also have "\<dots> = (case suffix_rewrite (\<lambda>us. pat us 0) us of (vs, rs') \<Rightarrow> ((xs @ [t]) @ vs, rs @ rs'))"
        by (rule less) (simp add: Cons)
      finally show ?thesis
        using None Cons by (simp add: suffix_rewrite.simps(2) split: prod.splits)
    next
      case (Some step)
      then obtain n rep r where s: "pat ts 0 = Some (n, rep, r)" by (cases step) auto
      from pat_bounds [OF s] have b: "1 \<le> n" "length rep = width" "n \<le> length ts" by auto
      have "replaceRange (length xs) (length xs + n) rep (xs @ ts) = (xs @ rep) @ drop n ts"
        by (simp add: replaceRange_def)
      then have "loop (length xs) (xs @ ts) rs = loop (length (xs @ rep)) ((xs @ rep) @ drop n ts) (rs @ [r])"
        using loop_hit [OF i, of n rep r rs] p s b by simp
      also have "\<dots> = (case suffix_rewrite (\<lambda>us. pat us 0) (drop n ts) of
          (vs, rs') \<Rightarrow> ((xs @ rep) @ vs, (rs @ [r]) @ rs'))"
        by (rule less) (use b Cons in simp)
      finally show ?thesis
        using s b Cons by (simp add: suffix_rewrite.simps(2) max_def split: prod.splits)
    qed
  qed
qed

lemma loop_suffix_start:
  "loop 0 ts rs = (case suffix_rewrite (\<lambda>us. pat us 0) ts of (us, rs') \<Rightarrow> (us, rs @ rs'))"
  using loop_suffix [of "[]" ts rs] by simp

end

lemma kindAt_append [simp]: "kindAt (xs @ ts) (length xs + i) k = kindAt ts i k"
  by (simp add: kindAt_def)

lemma kindAt_append_add [simp]:
  "kindAt (xs @ ts) (length xs + i + j) k = kindAt ts (i + j) k"
  "(xs @ ts) ! (length xs + i + j) = ts ! (i + j)"
  using kindAt_append [of xs ts "i + j" k] by (simp_all add: add.assoc nth_append)

lemma kindAt_append_0 [simp]: "kindAt (xs @ ts) (length xs) k = kindAt ts 0 k"
  using kindAt_append [of xs ts 0 k] by simp

interpretation stage_pass: rewrite_pass stagePatternAt 4 stageLoop
proof
  show "stagePatternAt (xs @ ts) (length xs + i) = stagePatternAt ts i" for xs ts i
    by (simp only: stagePatternAt_def kindAt_append kindAt_append_add nth_append_length_plus)
  show "stagePatternAt ts i = Some (n, rep, r) \<Longrightarrow> 1 \<le> n \<and> length rep = 4 \<and> i + n \<le> length ts"
    for ts i n rep r by (drule stagePattern_bounds) simp
qed (simp_all add: stageLoop.simps)

interpretation visibility_pass: rewrite_pass visibilityPatternAt 2 visibilityLoop
proof
  show "visibilityPatternAt (xs @ ts) (length xs + i) = visibilityPatternAt ts i" for xs ts i
    by (simp only: visibilityPatternAt_def kindAt_append kindAt_append_add nth_append_length_plus)
      simp
  show "visibilityPatternAt ts i = Some (n, rep, r) \<Longrightarrow> 1 \<le> n \<and> length rep = 2 \<and> i + n \<le> length ts"
    for ts i n rep r by (drule visibilityPattern_bounds) simp
qed (simp_all add: visibilityLoop.simps)

interpretation modifier_pass: rewrite_pass modifierPatternAt 1 modifierLoop
proof
  show "modifierPatternAt (xs @ ts) (length xs + i) = modifierPatternAt ts i" for xs ts i
    by (simp only: modifierPatternAt_def kindAt_append kindAt_append_add nth_append_length_plus)
  show "modifierPatternAt ts i = Some (n, rep, r) \<Longrightarrow> 1 \<le> n \<and> length rep = 1 \<and> i + n \<le> length ts"
    for ts i n rep r by (drule modifierPattern_bounds) simp
qed (simp_all add: modifierLoop.simps)

section \<open>Normal forms\<close>

text \<open>
  After the stage pass no stage pattern is left anywhere: what the pass writes
  starts with \<open>stage <\<close>, which fits into no pattern, so it opens no new match to
  its left either.
\<close>

definition stagePatterns :: "TokenKind list list" where
  "stagePatterns =
     [[Hash, LBracket, KW_stage, LParen, IntegerLiteral, RParen, RBracket],
      [At, KW_stage, LParen, IntegerLiteral, RParen],
      [KW_stage, LParen, IntegerLiteral, RParen]]"

definition kinds_prefix :: "TokenKind list \<Rightarrow> Token list \<Rightarrow> bool" where
  "kinds_prefix ks ts \<longleftrightarrow> length ks \<le> length ts \<and> map tk_kind (take (length ks) ts) = ks"

lemma kinds_prefix_Nil [simp]: "kinds_prefix [] ts"
  by (simp add: kinds_prefix_def)

lemma kinds_prefix_Cons [simp]:
  "kinds_prefix (k # ks) ts \<longleftrightarrow> (\<exists>t us. ts = t # us \<and> tk_kind t = k \<and> kinds_prefix ks us)"
  by (cases ts) (auto simp: kinds_prefix_def)

lemma kindAt_Cons [simp]:
  "kindAt (t # ts) 0 k = (tk_kind t = k)" "kindAt (t # ts) (Suc i) k = kindAt ts i k"
  "kindAt [] i k = False"
  by (simp_all add: kindAt_def)

lemma kinds_prefix_at:
  "kinds_prefix (k # ks) (drop n ts) \<longleftrightarrow> kindAt ts n k \<and> kinds_prefix ks (drop (Suc n) ts)"
proof (cases "n < length ts")
  case True
  then have "drop n ts = ts ! n # drop (Suc n) ts" by (simp add: Cons_nth_drop_Suc)
  with True show ?thesis by (simp add: kindAt_def)
qed (simp add: kindAt_def)

lemma stagePatterns_at:
  "(\<exists>ks \<in> set stagePatterns. kinds_prefix ks (drop 0 ts)) \<longleftrightarrow>
     kindAt ts 0 Hash \<and> kindAt ts 1 LBracket \<and> kindAt ts 2 KW_stage \<and> kindAt ts 3 LParen \<and>
       kindAt ts 4 IntegerLiteral \<and> kindAt ts 5 RParen \<and> kindAt ts 6 RBracket \<or>
     kindAt ts 0 At \<and> kindAt ts 1 KW_stage \<and> kindAt ts 2 LParen \<and>
       kindAt ts 3 IntegerLiteral \<and> kindAt ts 4 RParen \<or>
     kindAt ts 0 KW_stage \<and> kindAt ts 1 LParen \<and> kindAt ts 2 IntegerLiteral \<and> kindAt ts 3 RParen"
  unfolding stagePatterns_def list.set bex_simps kinds_prefix_at
  by (simp add: numeral_eq_Suc)

lemma if3_None: "(if a then Some x else if b then Some y else if c then Some z else None) = None \<longleftrightarrow> \<not> (a \<or> b \<or> c)"
  by simp

lemma stagePattern_None_iff:
  "stagePatternAt ts 0 = None \<longleftrightarrow> (\<forall>ks \<in> set stagePatterns. \<not> kinds_prefix ks ts)"
proof -
  have "stagePatternAt ts 0 = None \<longleftrightarrow> \<not> (\<exists>ks \<in> set stagePatterns. kinds_prefix ks (drop 0 ts))"
    unfolding stagePatternAt_def Let_def stagePatterns_at if3_None add_0 ..
  then show ?thesis by simp
qed

abbreviation stage_rw :: "Token list \<Rightarrow> Token list" where
  "stage_rw ts \<equiv> fst (suffix_rewrite (\<lambda>us. stagePatternAt us 0) ts)"

lemma stagePattern_written:
  "stagePatternAt ts 0 = Some (n, rep, r) \<Longrightarrow> map tk_kind rep = [KW_stage, LAngle, IntegerLiteral, RAngle]"
  by (auto simp: stagePatternAt_def Let_def split: if_splits)

lemma stage_rw_hit:
  "stagePatternAt (t # ts) 0 = Some (n, rep, r) \<Longrightarrow> stage_rw (t # ts) = rep @ stage_rw (drop n (t # ts))"
  using stage_pass.pat_bounds [of "t # ts" 0 n rep r]
  by (simp add: suffix_rewrite.simps(2) max_def split: prod.splits)

lemma stage_rw_miss:
  "stagePatternAt (t # ts) 0 = None \<Longrightarrow> stage_rw (t # ts) = t # stage_rw ts"
  by (simp add: suffix_rewrite.simps(2) split: prod.splits)

text \<open>A kind sequence with no angle bracket that does not end in \<open>stage\<close> was there before.\<close>

lemma stage_rw_prefix:
  "kinds_prefix ks (stage_rw ts) \<Longrightarrow> LAngle \<notin> set ks \<Longrightarrow> ks \<noteq> [] \<longrightarrow> last ks \<noteq> KW_stage \<Longrightarrow>
   kinds_prefix ks ts"
proof (induction ks arbitrary: ts)
  case (Cons k ks)
  show ?case
  proof (cases ts)
    case Nil
    with Cons.prems show ?thesis by simp
  next
    case (Cons t us)
    show ?thesis
    proof (cases "stagePatternAt ts 0")
      case None
      then have "stage_rw ts = t # stage_rw us" using Cons stage_rw_miss by simp
      with Cons.prems Cons.IH [of us] Cons show ?thesis
        by (auto split: if_splits)
    next
      case (Some step)
      then obtain n rep r where s: "stagePatternAt ts 0 = Some (n, rep, r)" by (cases step) auto
      then obtain a b vs where "rep = a # b # vs" "tk_kind a = KW_stage" "tk_kind b = LAngle"
        using stagePattern_written [OF s] by (auto simp: map_eq_Cons_conv)
      with stage_rw_hit [of t us n rep r] s Cons have
        "stage_rw ts = a # b # (vs @ stage_rw (drop n ts))" by simp
      with Cons.prems \<open>tk_kind a = KW_stage\<close> \<open>tk_kind b = LAngle\<close> have False
        by (cases ks) (auto split: if_splits)
      then show ?thesis ..
    qed
  qed
qed simp

lemma stagePattern_at_drop: "stagePatternAt ts i = stagePatternAt (drop i ts) 0"
proof (cases "i \<le> length ts")
  case True
  then show ?thesis using stage_pass.pat_suffix [of "take i ts" "drop i ts" 0] by simp
next
  case False
  then show ?thesis by (simp add: stagePatternAt_def kindAt_def)
qed

lemma stage_rw_normal: "stagePatternAt (drop i (stage_rw ts)) 0 = None"
proof (induction "length ts" arbitrary: ts i rule: less_induct)
  case less
  show ?case
  proof (cases ts)
    case Nil
    then show ?thesis by (simp add: stagePatternAt_def)
  next
    case (Cons t us)
    show ?thesis
    proof (cases "stagePatternAt ts 0")
      case None
      then have e: "stage_rw ts = t # stage_rw us" using Cons stage_rw_miss by simp
      show ?thesis
      proof (cases i)
        case 0
        have "\<not> kinds_prefix ks (t # stage_rw us)" if "ks \<in> set stagePatterns" for ks
        proof
          assume "kinds_prefix ks (t # stage_rw us)"
          moreover have "\<not> kinds_prefix ks (t # us)" using None Cons that stagePattern_None_iff by blast
          moreover have "LAngle \<notin> set (tl ks)" "ks \<noteq> []" "last (tl ks) \<noteq> KW_stage"
            using that by (auto simp: stagePatterns_def)
          ultimately show False
            using stage_rw_prefix [of "tl ks" us] by (cases ks) auto
        qed
        then show ?thesis using 0 e stagePattern_None_iff by simp
      next
        case (Suc j)
        then show ?thesis using e less [of us j] Cons by simp
      qed
    next
      case (Some step)
      then obtain n rep r where s: "stagePatternAt ts 0 = Some (n, rep, r)" by (cases step) auto
      have e: "stage_rw ts = rep @ stage_rw (drop n ts)" using stage_rw_hit [of t us n rep r] s Cons by simp
      have b: "length rep = 4" "1 \<le> n" "n \<le> length ts" using stage_pass.pat_bounds [OF s] by auto
      show ?thesis
      proof (cases "i < 4")
        case True
        then have "i = 0 \<or> i = 1 \<or> i = 2 \<or> i = 3" by auto
        then show ?thesis
          using stagePattern_written [OF s]
          by (auto simp: e stagePattern_None_iff stagePatterns_def map_eq_Cons_conv numeral_eq_Suc)
      next
        case False
        then show ?thesis using e b less [of "drop n ts" "i - 4"] Cons by simp
      qed
    qed
  qed
qed

lemma suffix_rewrite_normal:
  "(\<And>i. pat (drop i ts) = None) \<Longrightarrow> suffix_rewrite pat ts = (ts, [])"
proof (induction ts)
  case (Cons t ts)
  from Cons.prems [of 0] have "pat (t # ts) = None" by simp
  moreover have "suffix_rewrite pat ts = (ts, [])"
    using Cons.prems [of "Suc i" for i] by (intro Cons.IH) simp
  ultimately show ?case by (simp add: suffix_rewrite.simps(2))
qed simp

lemma stageLoop_tokens: "fst (stageLoop 0 ts rs) = stage_rw ts"
  by (simp add: stage_pass.loop_suffix_start split: prod.splits)

lemma stageLoop_normal: "stagePatternAt (fst (stageLoop 0 ts rs)) i = None"
  by (subst stagePattern_at_drop) (simp add: stageLoop_tokens stage_rw_normal)

lemma stageLoop_stable: "stageLoop 0 (fst (stageLoop 0 ts rs)) rs' = (fst (stageLoop 0 ts rs), rs')"
proof -
  have "suffix_rewrite (\<lambda>us. stagePatternAt us 0) (fst (stageLoop 0 ts rs)) = (fst (stageLoop 0 ts rs), [])"
    by (rule suffix_rewrite_normal) (simp add: stageLoop_tokens stage_rw_normal)
  then show ?thesis by (simp add: stage_pass.loop_suffix_start)
qed

lemma canonicalToken_idem [simp]: "canonicalToken (canonicalToken t) = canonicalToken t"
  by (simp add: canonicalToken_def split: option.splits)

lemma canonicalToken_sel [simp]:
  "tk_kind (canonicalToken t) = tk_kind t" "tk_location (canonicalToken t) = tk_location t"
  by (simp_all add: canonicalToken_def split: option.splits)

lemma aliasRecords_canonical [simp]: "aliasRecords (canonicalToken t) = []"
  by (simp add: aliasRecords_def canonicalToken_def split: option.splits)

section \<open>Properties\<close>

text \<open>C33: the stage pass brings the token stream into normal form in one walk: no stage
  pattern of any of the three spellings is left at any index, although the walk never
  looks back past what it wrote, so a second pass changes nothing and records nothing.\<close>

theorem stage_pass_normal:
  "stagePatternAt (rw_tokens (rewriteStageParens w)) i = None \<and>
   rewriteStageParens (rewriteStageParens w) = rewriteStageParens w"
proof -
  obtain ts rs where l: "stageLoop 0 (rw_tokens w) (rw_records w) = (ts, rs)" by fastforce
  with stageLoop_stable [of "rw_tokens w" "rw_records w"] stageLoop_normal [of "rw_tokens w" "rw_records w" i]
  show ?thesis by (simp add: rewriteStageParens_def)
qed


end
