(* ===== verification/SemVer.thy ===== *)
theory SemVer
  imports Prelude
begin

text \<open>
  \<open>lib/Distribution/SemVer.cpp\<close>: version triples, their order and the
  comparator ranges of a package's \<open>core_compat\<close>.  The accumulator of a number
  is checked after every digit, so it stays below the range of its
  \<open>long long\<close> (lemma \<open>parseUInt_bound\<close>) and is a natural number here.
\<close>

record SemVer =
  sv_major :: int
  sv_minor :: int
  sv_patch :: int
  sv_prerelease :: string
  sv_valid :: bool

definition empty_semver :: SemVer where
  "empty_semver =
     \<lparr>sv_major = 0, sv_minor = 0, sv_patch = 0, sv_prerelease = [], sv_valid = False\<rparr>"

definition compareCore :: "SemVer \<Rightarrow> SemVer \<Rightarrow> int" where
  "compareCore a b =
     (if sv_major a \<noteq> sv_major b then (if sv_major a < sv_major b then -1 else 1)
      else if sv_minor a \<noteq> sv_minor b then (if sv_minor a < sv_minor b then -1 else 1)
      else if sv_patch a \<noteq> sv_patch b then (if sv_patch a < sv_patch b then -1 else 1)
      else 0)"

text \<open>
  The loop of \<open>parseUInt\<close>: the value and the rest of the text, or \<^const>\<open>None\<close> where
  the code returns false on a number past a thousand million.
\<close>

definition uintLimit :: nat where
  "uintLimit = 1000000000"

fun parseUInt_loop :: "nat \<Rightarrow> string \<Rightarrow> (nat \<times> string) option" where
  "parseUInt_loop acc [] = Some (acc, [])"
| "parseUInt_loop acc (c # cs) =
     (if isdigit c then
        let acc' = acc * 10 + digit_value c in
        if acc' > uintLimit then None else parseUInt_loop acc' cs
      else Some (acc, c # cs))"

definition parseUInt :: "string \<Rightarrow> (nat \<times> string) option" where
  "parseUInt s =
     (case parseUInt_loop 0 s of
        None \<Rightarrow> None
      | Some (n, rest) \<Rightarrow> if length rest = length s then None else Some (n, rest))"

text \<open>The \<open>-prerelease\<close> and \<open>+build\<close> suffixes, and what is left after them.\<close>

definition parseSuffix :: "string \<Rightarrow> string \<times> string" where
  "parseSuffix s =
     (let (pre, s1) =
        (if s \<noteq> [] \<and> hd s = CHR ''-'' then
           (takeWhile (\<lambda>c. c \<noteq> CHR ''+'') (tl s), dropWhile (\<lambda>c. c \<noteq> CHR ''+'') (tl s))
         else ([], s))
      in (pre, if s1 \<noteq> [] \<and> hd s1 = CHR ''+'' then [] else s1))"

definition parseSemVer :: "string \<Rightarrow> SemVer" where
  "parseSemVer text =
     (let v0 = empty_semver; s = trim_space text in
      if s = [] then v0
      else case parseUInt s of
        None \<Rightarrow> v0
      | Some (ma, s1) \<Rightarrow>
          let v1 = v0\<lparr>sv_major := int ma\<rparr> in
          if s1 = [] \<or> hd s1 \<noteq> CHR ''.'' then v1
          else case parseUInt (tl s1) of
            None \<Rightarrow> v1
          | Some (mi, s2) \<Rightarrow>
              let v2 = v1\<lparr>sv_minor := int mi\<rparr> in
              if s2 = [] \<or> hd s2 \<noteq> CHR ''.'' then v2
              else case parseUInt (tl s2) of
                None \<Rightarrow> v2
              | Some (pa, s3) \<Rightarrow>
                  let v3 = v2\<lparr>sv_patch := int pa\<rparr>; (pre, rest) = parseSuffix s3;
                      v4 = v3\<lparr>sv_prerelease := pre\<rparr>
                  in if rest \<noteq> [] then v4 else v4\<lparr>sv_valid := True\<rparr>)"

datatype RangeOp = OpEq | OpGt | OpGe | OpLt | OpLe

definition comparatorOp :: "string \<Rightarrow> RangeOp \<times> nat" where
  "comparatorOp c =
     (if take 2 c = ''>='' then (OpGe, 2)
      else if take 2 c = ''<='' then (OpLe, 2)
      else if hd c = CHR ''>'' then (OpGt, 1)
      else if hd c = CHR ''<'' then (OpLt, 1)
      else if hd c = CHR ''='' then (OpEq, 1)
      else (OpEq, 0))"

fun op_holds :: "RangeOp \<Rightarrow> int \<Rightarrow> bool" where
  "op_holds OpEq c = (c = 0)"
| "op_holds OpGt c = (c > 0)"
| "op_holds OpGe c = (c \<ge> 0)"
| "op_holds OpLt c = (c < 0)"
| "op_holds OpLe c = (c \<le> 0)"

fun satisfiesComparators :: "SemVer \<Rightarrow> string list \<Rightarrow> bool" where
  "satisfiesComparators v [] = True"
| "satisfiesComparators v (raw # cs) =
     (let comparator = trim_space raw in
      if comparator = [] then satisfiesComparators v cs
      else
        let (rop, p) = comparatorOp comparator;
            bound = parseSemVer (trim_space (substr_from comparator p)) in
        if \<not> sv_valid bound then False
        else if \<not> op_holds rop (compareCore v bound) then False
        else satisfiesComparators v cs)"

definition satisfiesRange :: "SemVer \<Rightarrow> string \<Rightarrow> bool" where
  "satisfiesRange v rng =
     (if \<not> sv_valid v then False
      else
        let r = trim_space rng in
        if r = [] then True else satisfiesComparators v (getlines CHR '','' r))"

definition satisfiesRangeText :: "string \<Rightarrow> string \<Rightarrow> bool" where
  "satisfiesRangeText version rng = satisfiesRange (parseSemVer version) rng"

section \<open>Numbers\<close>

lemma parseUInt_loop_Some:
  "parseUInt_loop acc s = Some (n, rest) \<Longrightarrow> acc \<le> uintLimit \<Longrightarrow>
   rest = dropWhile isdigit s \<and> n = digits_value acc (takeWhile isdigit s) \<and> n \<le> uintLimit"
  by (induction acc s rule: parseUInt_loop.induct)
    (auto simp: Let_def digits_value_def split: if_splits)

lemma digits_value_Cons: "digits_value acc (c # cs) = digits_value (acc * 10 + digit_value c) cs"
  by (simp add: digits_value_def)

lemma digits_value_ge: "acc \<le> digits_value acc s"
proof (induction s arbitrary: acc)
  case (Cons c cs)
  have "acc \<le> acc * 10 + digit_value c" by simp
  also have "\<dots> \<le> digits_value (acc * 10 + digit_value c) cs" by (rule Cons)
  finally show ?case by (simp add: digits_value_Cons)
qed (simp add: digits_value_def)

lemma parseUInt_loop_in_range:
  "digits_value acc ds \<le> uintLimit \<Longrightarrow> \<forall>c \<in> set ds. isdigit c \<Longrightarrow>
   rest = [] \<or> \<not> isdigit (hd rest) \<Longrightarrow>
   parseUInt_loop acc (ds @ rest) = Some (digits_value acc ds, rest)"
proof (induction ds arbitrary: acc)
  case Nil
  then show ?case by (cases rest) (auto simp: digits_value_def)
next
  case (Cons d ds)
  have step: "digits_value acc (d # ds) = digits_value (acc * 10 + digit_value d) ds"
    by (simp add: digits_value_def)
  with Cons.prems(1) digits_value_ge [of "acc * 10 + digit_value d" ds]
  have "\<not> acc * 10 + digit_value d > uintLimit" by linarith
  with Cons step show ?case by (simp add: Let_def)
qed

lemma parseUInt_nat_to_string:
  assumes "n \<le> uintLimit" and "rest = [] \<or> \<not> isdigit (hd rest)"
  shows "parseUInt (nat_to_string n @ rest) = Some (n, rest)"
  using parseUInt_loop_in_range [of 0 "nat_to_string n" rest] assms
  by (simp add: digits_value_nat_to_string nat_to_string_digits parseUInt_def)

lemma parseUInt_bound: "parseUInt s = Some (n, rest) \<Longrightarrow> n \<le> uintLimit"
  by (auto simp: parseUInt_def dest!: parseUInt_loop_Some split: option.splits if_splits)

section \<open>The order\<close>

definition triple :: "SemVer \<Rightarrow> int \<times> int \<times> int" where
  "triple v = (sv_major v, sv_minor v, sv_patch v)"

lemma compareCore_antisym: "compareCore b a = - compareCore a b"
  by (auto simp: compareCore_def)

lemma compareCore_zero: "compareCore a b = 0 \<longleftrightarrow> triple a = triple b"
  by (auto simp: compareCore_def triple_def)

lemma compareCore_trans: "compareCore a b \<le> 0 \<Longrightarrow> compareCore b c \<le> 0 \<Longrightarrow> compareCore a c \<le> 0"
  by (auto simp: compareCore_def split: if_splits)

lemma compareCore_triple:
  "triple a = triple a' \<Longrightarrow> triple b = triple b' \<Longrightarrow> compareCore a b = compareCore a' b'"
  by (simp add: compareCore_def triple_def)

section \<open>Printing and parsing back\<close>

definition print_core :: "nat \<times> nat \<times> nat \<Rightarrow> string" where
  "print_core t =
     (case t of (a, b, c) \<Rightarrow>
        nat_to_string a @ CHR ''.'' # nat_to_string b @ CHR ''.'' # nat_to_string c)"

definition print_suffix :: "string \<Rightarrow> string option \<Rightarrow> string" where
  "print_suffix pre build =
     (if pre = [] then [] else CHR ''-'' # pre) @
     (case build of None \<Rightarrow> [] | Some b \<Rightarrow> CHR ''+'' # b)"

definition in_limits :: "nat \<times> nat \<times> nat \<Rightarrow> bool" where
  "in_limits t \<longleftrightarrow> (case t of (a, b, c) \<Rightarrow> a \<le> uintLimit \<and> b \<le> uintLimit \<and> c \<le> uintLimit)"

definition semver_of :: "nat \<times> nat \<times> nat \<Rightarrow> string \<Rightarrow> SemVer" where
  "semver_of t pre =
     (case t of (a, b, c) \<Rightarrow>
        \<lparr>sv_major = int a, sv_minor = int b, sv_patch = int c, sv_prerelease = pre, sv_valid = True\<rparr>)"

lemma parseSuffix_print:
  "CHR ''+'' \<notin> set pre \<Longrightarrow> parseSuffix (print_suffix pre build) = (pre, [])"
  by (cases build) (auto simp: parseSuffix_def print_suffix_def)

lemma print_suffix_start: "print_suffix pre build = [] \<or> \<not> isdigit (hd (print_suffix pre build))"
  by (auto simp: print_suffix_def split: option.splits)

lemma nat_to_string_hd: "\<not> isspace (hd (nat_to_string n))"
  using nat_to_string_digits [of n] by (simp add: isdigit_not_isspace)

lemma nat_to_string_last: "\<not> isspace (last (nat_to_string n))"
  using nat_to_string_digits [of n] by (simp add: isdigit_not_isspace)

lemma print_core_hd: "print_core t \<noteq> [] \<and> \<not> isspace (hd (print_core t))"
  using nat_to_string_hd by (cases t) (simp add: print_core_def)

lemma print_core_last: "\<not> isspace (last (print_core t))"
  using nat_to_string_last by (cases t) (simp add: print_core_def)

lemma parseSemVer_print:
  assumes "in_limits t" and "CHR ''+'' \<notin> set pre"
    and "print_suffix pre build = [] \<or> \<not> isspace (last (print_suffix pre build))"
  shows "parseSemVer (print_core t @ print_suffix pre build) = semver_of t pre"
proof -
  obtain a b c where t: "t = (a, b, c)" by (cases t)
  let ?x = "print_suffix pre build"
  have trim: "trim_space (print_core t @ ?x) = print_core t @ ?x"
    using assms(3) print_core_hd [of t] print_core_last [of t]
    by (intro trim_space_id) (auto simp: last_append)
  have "parseUInt (nat_to_string a @ CHR ''.'' # nat_to_string b @ CHR ''.'' # nat_to_string c @ ?x)
      = Some (a, CHR ''.'' # nat_to_string b @ CHR ''.'' # nat_to_string c @ ?x)"
    "parseUInt (nat_to_string b @ CHR ''.'' # nat_to_string c @ ?x)
      = Some (b, CHR ''.'' # nat_to_string c @ ?x)"
    "parseUInt (nat_to_string c @ ?x) = Some (c, ?x)"
    using assms(1) print_suffix_start [of pre build]
    by (intro parseUInt_nat_to_string; simp add: in_limits_def t)+
  with trim assms(2) show ?thesis
    by (simp add: parseSemVer_def t print_core_def Let_def parseSuffix_print semver_of_def
        empty_semver_def)
qed

lemma parseSemVer_core: "in_limits t \<Longrightarrow> parseSemVer (print_core t) = semver_of t []"
  using parseSemVer_print [of t "[]" None] by (simp add: print_suffix_def)

lemma parseSemVer_bounds:
  "0 \<le> sv_major (parseSemVer s) \<and> sv_major (parseSemVer s) \<le> int uintLimit \<and>
   0 \<le> sv_minor (parseSemVer s) \<and> sv_minor (parseSemVer s) \<le> int uintLimit \<and>
   0 \<le> sv_patch (parseSemVer s) \<and> sv_patch (parseSemVer s) \<le> int uintLimit"
  by (auto simp: parseSemVer_def empty_semver_def Let_def dest: parseUInt_bound
      split: option.splits prod.splits)

section \<open>Ranges\<close>

definition comparator_ok :: "SemVer \<Rightarrow> string \<Rightarrow> bool" where
  "comparator_ok v raw \<longleftrightarrow>
     (let c = trim_space raw in
      c = [] \<or>
      (case comparatorOp c of (rop, p) \<Rightarrow>
         let bound = parseSemVer (trim_space (substr_from c p)) in
         sv_valid bound \<and> op_holds rop (compareCore v bound)))"

lemma satisfiesComparators_all: "satisfiesComparators v cs \<longleftrightarrow> (\<forall>c \<in> set cs. comparator_ok v c)"
  by (induction v cs rule: satisfiesComparators.induct)
    (auto simp: Let_def comparator_ok_def split: prod.splits if_splits)

lemma satisfiesRange_all:
  "satisfiesRange v r \<longleftrightarrow>
     sv_valid v \<and> (\<forall>c \<in> set (getlines CHR '','' (trim_space r)). comparator_ok v c)"
  by (auto simp: satisfiesRange_def Let_def satisfiesComparators_all)

lemma comparatorOp_ge: "print_core t = c \<Longrightarrow> comparatorOp (''>='' @ c) = (OpGe, 2)"
  by (simp add: comparatorOp_def)

lemma comparatorOp_lt:
  assumes "c \<noteq> []" and "hd c \<noteq> CHR ''=''"
  shows "comparatorOp (CHR ''<'' # c) = (OpLt, 1)"
  using assms by (cases c) (simp_all add: comparatorOp_def)

lemma print_core_no_comma: "CHR '','' \<notin> set (print_core t)"
proof -
  have "CHR '','' \<notin> set (nat_to_string n)" for n
    using nat_to_string_digits [of n] by (auto simp: ctype_defs)
  then show ?thesis by (cases t) (simp add: print_core_def)
qed

lemma print_core_hd_digit: "isdigit (hd (print_core t))"
proof -
  have "isdigit (hd (nat_to_string n))" for n
    using nat_to_string_digits [of n] hd_in_set [OF nat_to_string_ne [of n]] by blast
  then show ?thesis by (cases t) (simp add: print_core_def)
qed

lemma comparator_ok_ge:
  assumes "in_limits t"
  shows "comparator_ok v (''>='' @ print_core t) \<longleftrightarrow> compareCore v (semver_of t []) \<ge> 0"
proof -
  have "trim_space (''>='' @ print_core t) = ''>='' @ print_core t"
    using print_core_last [of t] print_core_hd [of t] by (intro trim_space_id) (auto simp: ctype_defs)
  moreover have "trim_space (print_core t) = print_core t"
    using print_core_last [of t] print_core_hd [of t] by (intro trim_space_id) auto
  ultimately show ?thesis
    using assms comparatorOp_ge [OF refl, of t]
    by (cases t) (simp add: comparator_ok_def Let_def substr_from_def parseSemVer_core semver_of_def)
qed

lemma comparator_ok_lt:
  assumes "in_limits t"
  shows "comparator_ok v ('' <'' @ print_core t) \<longleftrightarrow> compareCore v (semver_of t []) < 0"
proof -
  have "trim_space ('' <'' @ print_core t) = CHR ''<'' # print_core t"
    using print_core_last [of t] print_core_hd [of t] trim_space_id [of "CHR ''<'' # print_core t"]
    by (auto simp: ctype_defs trim_space_def)
  moreover have "trim_space (print_core t) = print_core t"
    using print_core_last [of t] print_core_hd [of t] by (intro trim_space_id) auto
  moreover have "comparatorOp (CHR ''<'' # print_core t) = (OpLt, 1)"
    using print_core_hd [of t] print_core_hd_digit [of t]
    by (intro comparatorOp_lt) (auto simp: ctype_defs)
  ultimately show ?thesis
    using assms
    by (cases t) (simp add: comparator_ok_def Let_def substr_from_def parseSemVer_core semver_of_def)
qed

lemma range_window:
  assumes "in_limits lo" and "in_limits hi"
  shows "satisfiesRange v (''>='' @ print_core lo @ '', <'' @ print_core hi) \<longleftrightarrow>
    sv_valid v \<and> compareCore v (semver_of lo []) \<ge> 0 \<and> compareCore v (semver_of hi []) < 0"
proof -
  let ?r = "''>='' @ print_core lo @ '', <'' @ print_core hi"
  have "trim_space ?r = ?r"
    using print_core_last [of hi] print_core_hd [of hi] by (intro trim_space_id) (auto simp: ctype_defs)
  moreover have "?r = (''>='' @ print_core lo) @ CHR '','' # '' <'' @ print_core hi" by simp
  moreover have "getlines CHR '','' ((''>='' @ print_core lo) @ CHR '','' # '' <'' @ print_core hi)
      = [''>='' @ print_core lo, '' <'' @ print_core hi]"
    using print_core_no_comma by (subst getlines_append) (auto simp: getlines_no_sep)
  ultimately show ?thesis
    using assms comparator_ok_ge comparator_ok_lt by (simp only: satisfiesRange_all) simp
qed

section \<open>Properties\<close>

text \<open>Parsing reads back what a version prints as: a core triple within the limit, an
  optional prerelease with no plus sign and optional build metadata, printed without
  trailing blanks, parses as valid with exactly that triple and that prerelease.\<close>

theorem semver_roundtrip:
  assumes "in_limits t" and "CHR ''+'' \<notin> set pre"
    and "print_suffix pre build = [] \<or> \<not> isspace (last (print_suffix pre build))"
  shows "parseSemVer (print_core t @ print_suffix pre build) = semver_of t pre"
  using assms by (rule parseSemVer_print)

lemma semver_roundtrip_witness:
  "parseSemVer (print_core (4, 12, 0) @ print_suffix ''rc.1'' (Some ''b7'')) =
     semver_of (4, 12, 0) ''rc.1''"
  by (rule semver_roundtrip)
    (simp_all add: in_limits_def uintLimit_def print_suffix_def ctype_defs)

text \<open>A compatibility range \<open>>=lo, <hi\<close> admits exactly the valid versions whose core
  triple lies in the half-open window from \<open>lo\<close> to \<open>hi\<close>.\<close>

theorem semver_window:
  assumes "in_limits lo" and "in_limits hi"
  shows "satisfiesRange v (''>='' @ print_core lo @ '', <'' @ print_core hi) \<longleftrightarrow>
    sv_valid v \<and> compareCore v (semver_of lo []) \<ge> 0 \<and> compareCore v (semver_of hi []) < 0"
  using assms by (rule range_window)

lemma semver_window_witness:
  "satisfiesRange (semver_of (4, 2, 0) []) (''>='' @ print_core (4, 0, 0) @ '', <'' @ print_core (5, 0, 0))"
  by (subst semver_window)
    (simp_all add: in_limits_def uintLimit_def semver_of_def compareCore_def)

end
