(* ===== verification/Bytes.thy ===== *)
theory Bytes
  imports Basics
begin

text \<open>
  Byte buffers and the fixed-endian loads and stores of the wire format
  (\<open>lib/Debug/Ipc/BinaryFrame.cpp\<close>) and of the hash (\<open>lib/Distribution/Sha256.cpp\<close>).
  A buffer is a list of 8-bit words; a store through a pointer is \<open>poke\<close>.
\<close>

type_synonym u8 = "8 word"
type_synonym u32 = "32 word"

definition poke :: "nat \<Rightarrow> u8 list \<Rightarrow> u8 list \<Rightarrow> u8 list" where
  "poke p bs buf = take p buf @ bs @ drop (p + length bs) buf"

definition loadU32BE :: "u8 list \<Rightarrow> u32" where
  "loadU32BE p =
     push_bit 24 (ucast (p ! 0)) OR push_bit 16 (ucast (p ! 1)) OR
     push_bit 8 (ucast (p ! 2)) OR ucast (p ! 3)"

definition storeU32BE :: "u32 \<Rightarrow> u8 list" where
  "storeU32BE v = [ucast (drop_bit 24 v), ucast (drop_bit 16 v), ucast (drop_bit 8 v), ucast v]"

definition loadU32LE :: "u8 list \<Rightarrow> u32" where
  "loadU32LE p =
     ucast (p ! 0) OR push_bit 8 (ucast (p ! 1)) OR
     push_bit 16 (ucast (p ! 2)) OR push_bit 24 (ucast (p ! 3))"

definition storeU32LE :: "u32 \<Rightarrow> u8 list" where
  "storeU32LE v = [ucast v, ucast (drop_bit 8 v), ucast (drop_bit 16 v), ucast (drop_bit 24 v)]"

definition loadU64LE :: "u8 list \<Rightarrow> u64" where
  "loadU64LE p = fold (\<lambda>i v. v OR push_bit (i * 8) (ucast (p ! i))) [0..<8] 0"

definition storeU64LE :: "u64 \<Rightarrow> u8 list" where
  "storeU64LE v = map (\<lambda>i. ucast (drop_bit (i * 8) v)) [0..<8]"

named_theorems byte_simps \<open>facts on byte buffers\<close>

lemma poke_length [byte_simps]:
  "p + length bs \<le> length buf \<Longrightarrow> length (poke p bs buf) = length buf"
  by (simp add: poke_def)

lemma poke_prefix [byte_simps]: "poke (length xs) bs (xs @ ys) = xs @ bs @ drop (length bs) ys"
  by (simp add: poke_def)

lemma store_lengths [simp, byte_simps]:
  "length (storeU32BE v) = 4" "length (storeU32LE v) = 4" "length (storeU64LE w) = 8"
  by (simp_all add: storeU32BE_def storeU32LE_def storeU64LE_def)

lemma upt_8: "[0..<8] = [0, 1, 2, 3, 4, 5, 6, 7::nat]"
  by (simp add: upt_rec)

lemma bit_u8_high [simp]: "8 \<le> n \<Longrightarrow> \<not> bit (w :: u8) n"
  using bit_imp_le_length [of w n] by auto

lemma add_minus_nat: "k + (n - k) = max k (n :: nat)"
  by simp

lemma load_store_U32BE [simp, byte_simps]: "loadU32BE (storeU32BE v @ xs) = v"
  by (rule bit_word_eqI) (auto simp: loadU32BE_def storeU32BE_def bit_simps add_minus_nat max_def not_le)

lemma load_store_U32LE [simp, byte_simps]: "loadU32LE (storeU32LE v @ xs) = v"
  by (rule bit_word_eqI) (auto simp: loadU32LE_def storeU32LE_def bit_simps add_minus_nat max_def not_le)

lemma load_store_U64LE [simp, byte_simps]: "loadU64LE (storeU64LE v @ xs) = v"
  by (rule bit_word_eqI) (auto simp: loadU64LE_def storeU64LE_def upt_8 bit_simps add_minus_nat max_def not_le)

lemma length_4_conv: "length xs = 4 \<longleftrightarrow> (\<exists>a b c d. xs = [a, b, c, d])"
  by (auto simp: numeral_eq_Suc length_Suc_conv)

lemma length_8_conv: "length xs = 8 \<longleftrightarrow> (\<exists>a b c d e f g h. xs = [a, b, c, d, e, f, g, h])"
  by (auto simp: numeral_eq_Suc length_Suc_conv)

lemma store_load_U32BE: "length xs = 4 \<Longrightarrow> storeU32BE (loadU32BE (xs @ ys)) = xs"
  unfolding length_4_conv
  by (elim exE; simp add: loadU32BE_def storeU32BE_def; intro conjI bit_word_eqI; auto simp: bit_simps)

lemma store_load_U32LE: "length xs = 4 \<Longrightarrow> storeU32LE (loadU32LE (xs @ ys)) = xs"
  unfolding length_4_conv
  by (elim exE; simp add: loadU32LE_def storeU32LE_def; intro conjI bit_word_eqI; auto simp: bit_simps)

lemma store_load_U64LE: "length xs = 8 \<Longrightarrow> storeU64LE (loadU64LE (xs @ ys)) = xs"
  unfolding length_8_conv
  by (elim exE; simp add: loadU64LE_def storeU64LE_def upt_8; intro conjI bit_word_eqI; auto simp: bit_simps)

lemma loadU32BE_inj: "loadU32BE (xs @ ys) = v \<longleftrightarrow> xs = storeU32BE v" if "length xs = 4"
  using store_load_U32BE [OF that] by auto

end
