(* ===== verification/Sha256.thy ===== *)
theory Sha256
  imports Bytes
begin

text \<open>
  The incremental SHA-256 hasher of \<open>lib/Distribution/Sha256.cpp\<close>: the object with
  its 64-byte buffer, the block function on 32-bit words, \<open>update\<close> as the code's
  loop, the padding written byte by byte, and the one-shot helpers.  The reference
  is the hash of a whole message: pad it, cut it into blocks, fold the block
  function.  Memory the constructor leaves uninitialised is an argument.
\<close>

section \<open>The block function\<close>

definition kK :: "u32 list" where
  "kK =
     concat
      [[0x428a2f98, 0x71374491, 0xb5c0fbcf, 0xe9b5dba5, 0x3956c25b, 0x59f111f1],
       [0x923f82a4, 0xab1c5ed5, 0xd807aa98, 0x12835b01, 0x243185be, 0x550c7dc3],
       [0x72be5d74, 0x80deb1fe, 0x9bdc06a7, 0xc19bf174, 0xe49b69c1, 0xefbe4786],
       [0x0fc19dc6, 0x240ca1cc, 0x2de92c6f, 0x4a7484aa, 0x5cb0a9dc, 0x76f988da],
       [0x983e5152, 0xa831c66d, 0xb00327c8, 0xbf597fc7, 0xc6e00bf3, 0xd5a79147],
       [0x06ca6351, 0x14292967, 0x27b70a85, 0x2e1b2138, 0x4d2c6dfc, 0x53380d13],
       [0x650a7354, 0x766a0abb, 0x81c2c92e, 0x92722c85, 0xa2bfe8a1, 0xa81a664b],
       [0xc24b8b70, 0xc76c51a3, 0xd192e819, 0xd6990624, 0xf40e3585, 0x106aa070],
       [0x19a4c116, 0x1e376c08, 0x2748774c, 0x34b0bcb5, 0x391c0cb3, 0x4ed8aa4a],
       [0x5b9cca4f, 0x682e6ff3, 0x748f82ee, 0x78a5636f, 0x84c87814, 0x8cc70208],
       [0x90befffa, 0xa4506ceb, 0xbef9a3f7, 0xc67178f2]]"

definition rotr :: "u32 \<Rightarrow> nat \<Rightarrow> u32" where
  "rotr x n = drop_bit n x OR push_bit (32 - n) x"

text \<open>The first sixteen schedule words are big-endian loads; the others extend the list.\<close>

definition loadBlock :: "u8 list \<Rightarrow> u32 list" where
  "loadBlock block = map (\<lambda>i. loadU32BE (drop (i * 4) block)) [0..<16]"

definition scheduleStep :: "nat \<Rightarrow> u32 list \<Rightarrow> u32 list" where
  "scheduleStep i w =
     (let s0 = rotr (w ! (i - 15)) 7 XOR rotr (w ! (i - 15)) 18 XOR drop_bit 3 (w ! (i - 15));
          s1 = rotr (w ! (i - 2)) 17 XOR rotr (w ! (i - 2)) 19 XOR drop_bit 10 (w ! (i - 2))
      in w @ [w ! (i - 16) + s0 + w ! (i - 7) + s1])"

definition schedule :: "u8 list \<Rightarrow> u32 list" where
  "schedule block = fold scheduleStep [16..<64] (loadBlock block)"

type_synonym regs = "u32 \<times> u32 \<times> u32 \<times> u32 \<times> u32 \<times> u32 \<times> u32 \<times> u32"

definition roundStep :: "u32 list \<Rightarrow> nat \<Rightarrow> regs \<Rightarrow> regs" where
  "roundStep w i r =
     (case r of (a, b, c, d, e, f, g, h) \<Rightarrow>
        let S1 = rotr e 6 XOR rotr e 11 XOR rotr e 25;
            ch = (e AND f) XOR (NOT e AND g);
            temp1 = h + S1 + ch + kK ! i + w ! i;
            S0 = rotr a 2 XOR rotr a 13 XOR rotr a 22;
            maj = (a AND b) XOR (a AND c) XOR (b AND c);
            temp2 = S0 + maj
        in (temp1 + temp2, a, b, c, d + temp1, e, f, g))"

definition processBlock :: "u8 list \<Rightarrow> regs \<Rightarrow> regs" where
  "processBlock block s =
     (case (s, fold (roundStep (schedule block)) [0..<64] s) of
        ((s0, s1, s2, s3, s4, s5, s6, s7), (a, b, c, d, e, f, g, h)) \<Rightarrow>
          (s0 + a, s1 + b, s2 + c, s3 + d, s4 + e, s5 + f, s6 + g, s7 + h))"

section \<open>The object\<close>

record Sha256 =
  sh_state :: regs
  sh_buffer :: "u8 list"
  sh_bufferLen :: nat
  sh_totalBits :: u64
  sh_finalized :: bool

definition initial_state :: regs where
  "initial_state = (0x6a09e667, 0xbb67ae85, 0x3c6ef372, 0xa54ff53a,
                    0x510e527f, 0x9b05688c, 0x1f83d9ab, 0x5be0cd19)"

definition mkSha256 :: "u8 list \<Rightarrow> Sha256" where
  "mkSha256 memory =
     \<lparr>sh_state = initial_state, sh_buffer = memory, sh_bufferLen = 0,
      sh_totalBits = 0, sh_finalized = False\<rparr>"

text \<open>
  The loop of \<open>update\<close>.  It makes progress only while the buffer has room, so its
  result is an option; that it returns is part of what is proved.
\<close>

definition runBlock :: "Sha256 \<Rightarrow> Sha256" where
  "runBlock s = s\<lparr>sh_state := processBlock (sh_buffer s) (sh_state s), sh_bufferLen := 0\<rparr>"

definition takeBytes :: "u8 list \<Rightarrow> Sha256 \<Rightarrow> Sha256" where
  "takeBytes bs s =
     (let s1 = s\<lparr>sh_buffer := poke (sh_bufferLen s) bs (sh_buffer s),
                 sh_bufferLen := sh_bufferLen s + length bs\<rparr>
      in if sh_bufferLen s1 = 64 then runBlock s1 else s1)"

partial_function (option) updateLoop :: "u8 list \<Rightarrow> Sha256 \<Rightarrow> Sha256 option" where
  "updateLoop bytes s =
     (if bytes = [] then Some s
      else
        let n = min (64 - sh_bufferLen s) (length bytes)
        in updateLoop (drop n bytes) (takeBytes (take n bytes) s))"

declare updateLoop.simps [code]

definition sha_update :: "u8 list \<Rightarrow> Sha256 \<Rightarrow> Sha256 option" where
  "sha_update bytes s =
     (if sh_finalized s then Some s
      else updateLoop bytes
             (s\<lparr>sh_totalBits := sh_totalBits s + of_nat (length bytes) * 8\<rparr>))"

definition putByte :: "u8 \<Rightarrow> Sha256 \<Rightarrow> Sha256" where
  "putByte b s =
     s\<lparr>sh_buffer := poke (sh_bufferLen s) [b] (sh_buffer s), sh_bufferLen := sh_bufferLen s + 1\<rparr>"

text \<open>\<open>while (bufferLen_ < n) buffer_[bufferLen_++] = 0;\<close>\<close>

function zeroFill :: "nat \<Rightarrow> Sha256 \<Rightarrow> Sha256" where
  "zeroFill n s = (if sh_bufferLen s < n then zeroFill n (putByte 0 s) else s)"
  by pat_completeness auto
termination
  by (relation "measure (\<lambda>(n, s). n - sh_bufferLen s)") (auto simp: putByte_def)

declare zeroFill.simps [simp del]

definition sha_finalize :: "Sha256 \<Rightarrow> Sha256" where
  "sha_finalize s =
     (if sh_finalized s then s
      else
        let bitLen = sh_totalBits s;
            s1 = putByte 0x80 s;
            s2 = (if sh_bufferLen s1 > 56 then runBlock (zeroFill 64 s1) else s1);
            s3 = zeroFill 56 s2;
            s4 = fold (\<lambda>i. putByte (ucast ((drop_bit (i * 8) bitLen) AND 0xff))) (rev [0..<8]) s3
        in (runBlock s4)\<lparr>sh_finalized := True\<rparr>)"

text \<open>\<open>snprintf("%08x")\<close>.\<close>

definition hex_char :: "nat \<Rightarrow> char" where
  "hex_char n = (if n < 10 then char_of (48 + n) else char_of (87 + n))"

definition hex8 :: "u32 \<Rightarrow> string" where
  "hex8 w = map (\<lambda>i. hex_char (unat ((drop_bit (i * 4) w) AND 0xf))) (rev [0..<8])"

definition state_hex :: "regs \<Rightarrow> string" where
  "state_hex r =
     (case r of (a, b, c, d, e, f, g, h) \<Rightarrow> concat (map hex8 [a, b, c, d, e, f, g, h]))"

definition hexDigest :: "Sha256 \<Rightarrow> string \<times> Sha256" where
  "hexDigest s = (let s1 = sha_finalize s in (state_hex (sh_state s1), s1))"

text \<open>A string as the bytes of its characters.\<close>

definition str_bytes :: "string \<Rightarrow> u8 list" where
  "str_bytes = map of_char"

definition sha256Hex :: "u8 list \<Rightarrow> u8 list \<Rightarrow> string option" where
  "sha256Hex memory data = map_option (fst \<circ> hexDigest) (sha_update data (mkSha256 memory))"

definition sha256HexString :: "u8 list \<Rightarrow> string \<Rightarrow> string option" where
  "sha256HexString memory s = sha256Hex memory (str_bytes s)"

text \<open>
  What the file system and the stream answer while \<open>sha256File\<close> runs: the
  checks before opening, the bytes of each \<open>read\<close> (at most 8192), and the
  stream's final state.
\<close>

record FileRead =
  fr_regular :: bool
  fr_size :: "nat option"
  fr_open :: bool
  fr_chunks :: "u8 list list"
  fr_bad :: bool
  fr_eof :: bool

text \<open>The reading loop: the hasher and the number of bytes seen.\<close>

fun readChunks :: "u8 list list \<Rightarrow> Sha256 \<Rightarrow> nat \<Rightarrow> (Sha256 \<times> nat) option" where
  "readChunks [] h seen = Some (h, seen)"
| "readChunks (c # cs) h seen =
     (if length c > 0
      then Option.bind (sha_update c h) (\<lambda>h'. readChunks cs h' (seen + length c))
      else readChunks cs h seen)"

definition sha256File :: "u8 list \<Rightarrow> FileRead \<Rightarrow> string option" where
  "sha256File memory io =
     (if \<not> fr_regular io then Some []
      else
        case fr_size io of
          None \<Rightarrow> Some []
        | Some expected \<Rightarrow>
            if \<not> fr_open io then Some []
            else
              map_option
                (\<lambda>(h, seen). if fr_bad io \<or> \<not> fr_eof io \<or> seen \<noteq> expected then []
                               else fst (hexDigest h))
                (readChunks (fr_chunks io) (mkSha256 memory) 0))"

section \<open>The reference\<close>

text \<open>Whole blocks folded from the left; what is left over is the partial block.\<close>

function absorb :: "regs \<Rightarrow> u8 list \<Rightarrow> regs \<times> u8 list" where
  "absorb r bs =
     (if length bs < 64 then (r, bs) else absorb (processBlock (take 64 bs) r) (drop 64 bs))"
  by pat_completeness auto
termination by (relation "measure (\<lambda>(r, bs). length bs)") auto

declare absorb.simps [simp del]

definition be64 :: "u64 \<Rightarrow> u8 list" where
  "be64 v = rev (storeU64LE v)"

definition sha_pad :: "u8 list \<Rightarrow> u8 list" where
  "sha_pad msg =
     msg @ [0x80] @ replicate ((119 - length msg mod 64) mod 64) 0 @ be64 (of_nat (8 * length msg))"

definition sha256_ref :: "u8 list \<Rightarrow> string" where
  "sha256_ref msg = state_hex (fst (absorb initial_state (sha_pad msg)))"

section \<open>The buffer refines the message\<close>

definition sha_pending :: "Sha256 \<Rightarrow> u8 list" where
  "sha_pending s = take (sh_bufferLen s) (sh_buffer s)"

definition sha_ok :: "Sha256 \<Rightarrow> bool" where
  "sha_ok s \<longleftrightarrow> length (sh_buffer s) = 64 \<and> sh_bufferLen s < 64"

lemma sha_pending_bits [simp]: "sha_pending (s\<lparr>sh_totalBits := v\<rparr>) = sha_pending s"
  by (simp add: sha_pending_def)

text \<open>What \<open>s\<close> has hashed so far is the message \<open>m\<close>.\<close>

definition sha_holds :: "u8 list \<Rightarrow> Sha256 \<Rightarrow> bool" where
  "sha_holds m s \<longleftrightarrow>
     sha_ok s \<and> \<not> sh_finalized s \<and> sh_totalBits s = of_nat (8 * length m) \<and>
     absorb initial_state m = (sh_state s, sha_pending s)"

lemma absorb_short [simp]: "length bs < 64 \<Longrightarrow> absorb r bs = (r, bs)"
  by (simp add: absorb.simps)

lemma absorb_block: "length b = 64 \<Longrightarrow> absorb r (b @ bs) = absorb (processBlock b r) bs"
  by (subst absorb.simps) simp

lemma absorb_append: "absorb r (xs @ ys) = (case absorb r xs of (r', rest) \<Rightarrow> absorb r' (rest @ ys))"
proof (induction r xs rule: absorb.induct)
  case (1 r xs)
  show ?case
  proof (cases "length xs < 64")
    case False
    then have "absorb r (xs @ ys) = absorb (processBlock (take 64 xs) r) (drop 64 xs @ ys)"
      using absorb_block [of "take 64 xs" r "drop 64 xs @ ys"] by simp (metis append_assoc append_take_drop_id)
    with 1 False show ?thesis by (simp add: absorb.simps [of r xs])
  qed simp
qed

lemma absorb_rest_length: "length (snd (absorb r bs)) = length bs mod 64"
proof (induction r bs rule: absorb.induct)
  case (1 r bs)
  then show ?case by (cases "length bs < 64") (simp_all add: absorb.simps [of r bs] le_mod_geq not_less)
qed

lemma sha_pending_length [simp]: "sha_ok s \<Longrightarrow> length (sha_pending s) = sh_bufferLen s"
  by (simp add: sha_ok_def sha_pending_def)

lemma poke_pending:
  "length buf = 64 \<Longrightarrow> p + length bs \<le> 64 \<Longrightarrow> take (p + length bs) (poke p bs buf) = take p buf @ bs"
  by (simp add: poke_def)

lemma takeBytes_absorbs:
  assumes "sha_ok s" and "length bs \<le> 64 - sh_bufferLen s"
  shows "sha_ok (takeBytes bs s)"
    and "absorb (sh_state s) (sha_pending s @ bs) = (sh_state (takeBytes bs s), sha_pending (takeBytes bs s))"
    and "sh_totalBits (takeBytes bs s) = sh_totalBits s" "sh_finalized (takeBytes bs s) = sh_finalized s"
proof -
  let ?buf = "poke (sh_bufferLen s) bs (sh_buffer s)"
  have l: "length ?buf = 64" "sh_bufferLen s + length bs \<le> 64" "length (sh_buffer s) = 64"
    using assms by (auto simp: sha_ok_def byte_simps)
  have p: "take (sh_bufferLen s + length bs) ?buf = sha_pending s @ bs"
    using poke_pending [OF l(3,2)] by (simp add: sha_pending_def)
  show "sha_ok (takeBytes bs s)" "sh_totalBits (takeBytes bs s) = sh_totalBits s"
      "sh_finalized (takeBytes bs s) = sh_finalized s"
    using l assms by (auto simp: takeBytes_def runBlock_def sha_ok_def Let_def)
  show "absorb (sh_state s) (sha_pending s @ bs) = (sh_state (takeBytes bs s), sha_pending (takeBytes bs s))"
  proof (cases "sh_bufferLen s + length bs = 64")
    case True
    then have "sha_pending s @ bs = ?buf" using p l(1) by simp
    with True l absorb_block [of ?buf "sh_state s" "[]"] show ?thesis
      by (simp add: takeBytes_def runBlock_def Let_def sha_pending_def)
  next
    case False
    then have "length (sha_pending s @ bs) < 64" using l assms(1) by simp
    with False p show ?thesis by (simp add: takeBytes_def Let_def sha_pending_def)
  qed
qed

lemma updateLoop_absorbs:
  "sha_ok s \<Longrightarrow>
   \<exists>s'. updateLoop bytes s = Some s' \<and> sha_ok s' \<and>
     absorb (sh_state s) (sha_pending s @ bytes) = (sh_state s', sha_pending s') \<and>
     sh_totalBits s' = sh_totalBits s \<and> sh_finalized s' = sh_finalized s"
proof (induction "length bytes" arbitrary: bytes s rule: less_induct)
  case less
  show ?case
  proof (cases "bytes = []")
    case True
    have "length (sha_pending s) < 64" using less.prems sha_pending_length by (simp add: sha_ok_def)
    with True less.prems show ?thesis by (subst updateLoop.simps) simp
  next
    case False
    let ?n = "min (64 - sh_bufferLen s) (length bytes)"
    let ?t = "takeBytes (take ?n bytes) s"
    have n: "0 < ?n" using False less.prems by (simp add: sha_ok_def)
    then have d: "length (drop ?n bytes) < length bytes" using False by simp
    have t: "length (take ?n bytes) \<le> 64 - sh_bufferLen s" by simp
    note tb = takeBytes_absorbs [OF less.prems t]
    from less.hyps [OF d tb(1)] obtain s' where s':
      "updateLoop (drop ?n bytes) ?t = Some s'" "sha_ok s'"
      "absorb (sh_state ?t) (sha_pending ?t @ drop ?n bytes) = (sh_state s', sha_pending s')"
      "sh_totalBits s' = sh_totalBits ?t" "sh_finalized s' = sh_finalized ?t" by blast
    have "absorb (sh_state s) (sha_pending s @ bytes) =
        absorb (sh_state s) ((sha_pending s @ take ?n bytes) @ drop ?n bytes)" by simp
    also have "\<dots> = (sh_state s', sha_pending s')"
      using tb(2) s'(3) by (simp only: absorb_append [of _ "sha_pending s @ take ?n bytes"] split_conv)
    finally show ?thesis
      using s' tb False by (subst updateLoop.simps) (simp add: Let_def)
  qed
qed

lemma sha_holds_mk: "length memory = 64 \<Longrightarrow> sha_holds [] (mkSha256 memory)"
  by (simp add: sha_holds_def sha_ok_def mkSha256_def sha_pending_def)

lemma sha_holds_update:
  assumes "sha_holds m s"
  shows "\<exists>s'. sha_update bytes s = Some s' \<and> sha_holds (m @ bytes) s'"
proof -
  let ?s = "s\<lparr>sh_totalBits := sh_totalBits s + of_nat (length bytes) * 8\<rparr>"
  have ok: "sha_ok ?s" using assms by (simp add: sha_holds_def sha_ok_def)
  from updateLoop_absorbs [OF ok, of bytes] obtain s' where s':
    "updateLoop bytes ?s = Some s'" "sha_ok s'"
    "absorb (sh_state ?s) (sha_pending ?s @ bytes) = (sh_state s', sha_pending s')"
    "sh_totalBits s' = sh_totalBits ?s" "sh_finalized s' = sh_finalized ?s"
    by blast
  moreover have "absorb initial_state (m @ bytes) = (sh_state s', sha_pending s')"
    using assms s'(3) by (subst absorb_append) (simp add: sha_holds_def)
  moreover have "sh_totalBits s' = of_nat (8 * length (m @ bytes))"
    using assms s'(4) by (simp add: sha_holds_def distrib_left mult.commute)
  ultimately show ?thesis
    using assms by (intro exI [of _ s']) (simp add: sha_holds_def sha_update_def)
qed

section \<open>Padding\<close>

lemma putByte_pending:
  "length (sh_buffer s) = 64 \<Longrightarrow> sh_bufferLen s < 64 \<Longrightarrow>
   sha_pending (putByte b s) = sha_pending s @ [b] \<and> length (sh_buffer (putByte b s)) = 64"
  using poke_pending [of "sh_buffer s" "sh_bufferLen s" "[b]"]
  by (simp add: putByte_def sha_pending_def byte_simps)

lemma putByte_sel [simp]:
  "sh_bufferLen (putByte b s) = sh_bufferLen s + 1" "sh_state (putByte b s) = sh_state s"
  by (simp_all add: putByte_def)

lemma putBytes_pending:
  "length (sh_buffer s) = 64 \<Longrightarrow> sh_bufferLen s + length bs \<le> 64 \<Longrightarrow>
   sha_pending (fold putByte bs s) = sha_pending s @ bs \<and> length (sh_buffer (fold putByte bs s)) = 64 \<and>
   sh_bufferLen (fold putByte bs s) = sh_bufferLen s + length bs \<and>
   sh_state (fold putByte bs s) = sh_state s"
proof (induction bs arbitrary: s)
  case (Cons b bs)
  with putByte_pending [of s b] Cons.IH [of "putByte b s"] show ?case by simp
qed simp

lemma zeroFill_fold: "zeroFill n s = fold putByte (replicate (n - sh_bufferLen s) 0) s"
proof (induction n s rule: zeroFill.induct)
  case (1 n s)
  show ?case
  proof (cases "sh_bufferLen s < n")
    case True
    then have "n - sh_bufferLen s = Suc (n - sh_bufferLen (putByte 0 s))" by simp
    with 1 True show ?thesis by (subst zeroFill.simps) simp
  qed (subst zeroFill.simps, simp)
qed

lemma runBlock_full:
  "length (sh_buffer s) = 64 \<Longrightarrow> sh_bufferLen s = 64 \<Longrightarrow>
   sh_state (runBlock s) = processBlock (sha_pending s) (sh_state s) \<and> sha_pending (runBlock s) = [] \<and>
   length (sh_buffer (runBlock s)) = 64 \<and> sh_bufferLen (runBlock s) = 0"
  by (simp add: runBlock_def sha_pending_def)

lemma length_bytes_putBytes: "fold (\<lambda>i. putByte (ucast (drop_bit (i * 8) v AND 0xff))) (rev [0..<8]) s
    = fold putByte (be64 v) s"
proof -
  have m: "(0xff :: u64) = mask 8" by (simp add: mask_eq_exp_minus_1)
  have "ucast (w AND 0xff) = (ucast w :: u8)" for w :: u64
    unfolding m by (rule bit_word_eqI) (auto simp: bit_simps)
  then show ?thesis
    by (simp add: be64_def storeU64LE_def upt_8)
qed

lemma be64_length [simp]: "length (be64 v) = 8"
  by (simp add: be64_def)

lemma pad_count:
  fixes k n :: nat
  assumes "k = n mod 64"
  shows "k + 1 > 56 \<Longrightarrow> (119 - n mod 64) mod 64 = (63 - k) + 56"
    and "\<not> k + 1 > 56 \<Longrightarrow> (119 - n mod 64) mod 64 = 55 - k"
  using assms mod_less_divisor [of 64 n] by (auto simp: le_mod_geq)

lemma sha_finalize_state:
  assumes h: "sha_holds m s"
  shows "sh_state (sha_finalize s) = fst (absorb initial_state (sha_pad m))"
proof -
  let ?k = "sh_bufferLen s" and ?len = "be64 (of_nat (8 * length m))"
  have ok: "length (sh_buffer s) = 64" "?k < 64" and pl: "length (sha_pending s) = ?k"
    using h by (auto simp: sha_holds_def sha_ok_def sha_pending_def)
  have k: "?k = length m mod 64"
    using h absorb_rest_length [of initial_state m] pl by (simp add: sha_holds_def)
  let ?s1 = "putByte 0x80 s"
  have s1: "sha_pending ?s1 = sha_pending s @ [0x80]" "length (sh_buffer ?s1) = 64"
    using putByte_pending [OF ok] by auto
  let ?z = "replicate ((119 - length m mod 64) mod 64) (0 :: u8)"
  have ref: "absorb initial_state (sha_pad m) =
      absorb (sh_state s) (sha_pending s @ [0x80] @ ?z @ ?len)"
    using h unfolding sha_pad_def absorb_append [of _ m] by (simp add: sha_holds_def)
  have fin: "sh_state (sha_finalize s) = sh_state (runBlock (fold putByte ?len
      (zeroFill 56 (if ?k + 1 > 56 then runBlock (zeroFill 64 ?s1) else ?s1))))"
    using h by (simp add: sha_finalize_def sha_holds_def Let_def length_bytes_putBytes)
  have last_block: "sh_state (runBlock (fold putByte ?len (zeroFill 56 t))) =
      fst (absorb (sh_state t) (sha_pending t @ replicate (56 - sh_bufferLen t) 0 @ ?len))"
    if t: "length (sh_buffer t) = 64" "sh_bufferLen t \<le> 56" for t
  proof -
    let ?bs = "replicate (56 - sh_bufferLen t) 0 @ ?len"
    have p: "sha_pending (fold putByte ?bs t) = sha_pending t @ ?bs"
        "length (sh_buffer (fold putByte ?bs t)) = 64" "sh_bufferLen (fold putByte ?bs t) = 64"
        "sh_state (fold putByte ?bs t) = sh_state t"
      using putBytes_pending [OF t(1), of ?bs] t(2) by (simp_all del: fold_append)
    have "length (sha_pending t @ ?bs) = 64"
      using t by (simp add: sha_pending_def)
    then have "absorb (sh_state t) (sha_pending t @ ?bs) = (processBlock (sha_pending t @ ?bs) (sh_state t), [])"
      using absorb_block [of "sha_pending t @ ?bs" "sh_state t" "[]"] by simp
    moreover have "fold putByte ?len (zeroFill 56 t) = fold putByte ?bs t"
      by (simp add: zeroFill_fold)
    ultimately show ?thesis using runBlock_full [OF p(2,3)] p(1,4) by simp
  qed
  show ?thesis
  proof (cases "?k + 1 > 56")
    case True
    let ?t = "zeroFill 64 ?s1"
    have t: "sha_pending ?t = sha_pending s @ [0x80] @ replicate (63 - ?k) 0"
        "length (sh_buffer ?t) = 64" "sh_bufferLen ?t = 64" "sh_state ?t = sh_state s"
      using putBytes_pending [OF s1(2), of "replicate (63 - ?k) 0"] s1(1) ok by (auto simp: zeroFill_fold)
    have z: "?z = replicate (63 - ?k) 0 @ replicate 56 0"
      using pad_count(1) [OF k True] by (simp only: replicate_add)
    have "absorb (sh_state s) (sha_pending s @ [0x80] @ ?z @ ?len) =
        absorb (sh_state s) (sha_pending ?t @ replicate 56 0 @ ?len)"
      by (simp add: z t)
    also have "\<dots> = absorb (processBlock (sha_pending ?t) (sh_state s)) (replicate 56 0 @ ?len)"
      using t(1) pl ok by (intro absorb_block) simp
    finally show ?thesis
      using True fin ref last_block [of "runBlock ?t"] runBlock_full [OF t(2,3)] t(4) by simp
  next
    case False
    then show ?thesis
      using fin ref last_block [of ?s1] s1 pad_count(2) [OF k False] by simp
  qed
qed

section \<open>Streams of updates\<close>

text \<open>Feeding the hasher chunk by chunk.\<close>

fun sha_feed :: "u8 list list \<Rightarrow> Sha256 \<Rightarrow> Sha256 option" where
  "sha_feed [] s = Some s"
| "sha_feed (c # cs) s = Option.bind (sha_update c s) (sha_feed cs)"

lemma sha_holds_feed:
  "sha_holds m s \<Longrightarrow> \<exists>s'. sha_feed cs s = Some s' \<and> sha_holds (m @ concat cs) s'"
proof (induction cs arbitrary: m s)
  case (Cons c cs)
  from sha_holds_update [OF Cons.prems, of c] obtain s1 where
    s1: "sha_update c s = Some s1" "sha_holds (m @ c) s1" by blast
  with Cons.IH [OF s1(2)] show ?case by simp
qed simp

lemma hexDigest_holds: "sha_holds m s \<Longrightarrow> fst (hexDigest s) = sha256_ref m"
  by (simp add: hexDigest_def Let_def sha256_ref_def sha_finalize_state)

lemma sha_finalize_finalized [simp]: "sh_finalized (sha_finalize s)"
  by (simp add: sha_finalize_def Let_def)

lemma sha_finalize_again [simp]: "sha_finalize (sha_finalize s) = sha_finalize s"
  by (simp add: sha_finalize_def [of "sha_finalize s"])

lemma sha_update_finalized: "sh_finalized s \<Longrightarrow> sha_update bytes s = Some s"
  by (simp add: sha_update_def)

definition lower_hex :: "char \<Rightarrow> bool" where
  "lower_hex c \<longleftrightarrow> char_in 48 57 c \<or> char_in 97 102 c"

lemma lower_hex_hex_char: "n < 16 \<Longrightarrow> lower_hex (hex_char n)"
  by (simp add: lower_hex_def hex_char_def char_in_def)

lemma hex8_lower: "length (hex8 w) = 8 \<and> (\<forall>c \<in> set (hex8 w). lower_hex c)"
proof -
  have "unat (v AND 0xf) < 16" for v :: u32
    using word_and_le1 [of v 15] by (simp add: word_le_nat_alt)
  then show ?thesis by (auto simp: hex8_def lower_hex_hex_char)
qed

lemma state_hex_lower: "length (state_hex r) = 64 \<and> (\<forall>c \<in> set (state_hex r). lower_hex c)"
  using hex8_lower by (cases r) (auto simp: state_hex_def)

lemma readChunks_feed:
  "sha_holds m h \<Longrightarrow>
   \<exists>h'. readChunks cs h n = Some (h', n + length (concat cs)) \<and> sha_holds (m @ concat cs) h'"
proof (induction cs arbitrary: m h n)
  case (Cons c cs)
  show ?case
  proof (cases "c = []")
    case False
    from sha_holds_update [OF Cons.prems, of c] obtain h1 where
      h1: "sha_update c h = Some h1" "sha_holds (m @ c) h1" by blast
    with Cons.IH [OF h1(2), of "n + length c"] False show ?thesis by (simp add: add.assoc)
  qed (use Cons in simp)
qed simp

section \<open>Properties\<close>

text \<open>C16: the incremental hasher computes the hash of the whole message.  However a message
  is cut into updates, and whatever the uninitialised buffer held, every update returns
  and the digest is the reference hash of the concatenation, 64 lowercase hexadecimal
  digits; asking again, or updating after the digest, gives the same digest.\<close>

theorem sha256_streaming:
  assumes "length memory = 64"
  shows "\<exists>s. sha_feed chunks (mkSha256 memory) = Some s \<and>
    fst (hexDigest s) = sha256_ref (concat chunks) \<and>
    length (fst (hexDigest s)) = 64 \<and> (\<forall>c \<in> set (fst (hexDigest s)). lower_hex c) \<and>
    hexDigest (snd (hexDigest s)) = hexDigest s \<and>
    sha_update extra (snd (hexDigest s)) = Some (snd (hexDigest s))"
proof -
  from sha_holds_feed [OF sha_holds_mk [OF assms], of chunks] obtain s where
    s: "sha_feed chunks (mkSha256 memory) = Some s" "sha_holds (concat chunks) s" by auto
  show ?thesis
    using s(1) hexDigest_holds [OF s(2)] state_hex_lower [of "sh_state (sha_finalize s)"]
    by (intro exI [of _ s]) (simp add: hexDigest_def Let_def sha_update_finalized)
qed

lemma sha256_streaming_witness:
  "\<exists>s. sha_feed [[0x61], [], [0x62, 0x63]] (mkSha256 (replicate 64 0)) = Some s \<and>
     fst (hexDigest s) = sha256_ref [0x61, 0x62, 0x63]"
  using sha256_streaming [of "replicate 64 0" "[[0x61], [], [0x62, 0x63]]"] by auto

text \<open>\<open>sha256File\<close> never reports the digest of a truncated read.  Over whatever the file
  system answers it returns the empty string or the hash of exactly the bytes the stream
  delivered, the latter only when the file was regular and opened, the stream ended at
  end of file without an error, and as many bytes came as the file's size promised.\<close>

theorem sha256File_no_prefix:
  assumes "length memory = 64"
  shows "sha256File memory io =
    Some (if fr_regular io \<and> fr_open io \<and> \<not> fr_bad io \<and> fr_eof io \<and>
             fr_size io = Some (length (concat (fr_chunks io)))
          then sha256_ref (concat (fr_chunks io)) else [])"
proof -
  from readChunks_feed [OF sha_holds_mk [OF assms], of "fr_chunks io" 0] obtain h where
    h: "readChunks (fr_chunks io) (mkSha256 memory) 0 = Some (h, length (concat (fr_chunks io)))"
       "sha_holds (concat (fr_chunks io)) h" by auto
  show ?thesis
    using h(1) hexDigest_holds [OF h(2)] by (cases "fr_size io") (auto simp: sha256File_def)
qed

lemma sha256File_no_prefix_witness:
  "sha256File (replicate 64 0)
     \<lparr>fr_regular = True, fr_size = Some 3, fr_open = True, fr_chunks = [[1, 2], []],
      fr_bad = False, fr_eof = True\<rparr> = Some []"
  by (subst sha256File_no_prefix) simp_all

end
