(* ===== verification/BinaryFrame.thy ===== *)
theory BinaryFrame
  imports Bytes
begin

text \<open>
  The framed channel between the extracting adapter and the computing side:
  \<open>lib/Debug/Ipc/BinaryFrame.cpp\<close> (frames in memory), \<open>FrameReader.cpp\<close> (records
  from a byte source) and \<open>FrameWriter.cpp\<close> (records into a sink).  The JSON
  library is not part of the repository: its parser and printer are arguments.
\<close>

section \<open>Frames\<close>

datatype BinaryFrameType = VarBytes | LayoutDescriptor | ChunkContinuation

fun frameTypeByte :: "BinaryFrameType \<Rightarrow> u8" where
  "frameTypeByte VarBytes = 0x01"
| "frameTypeByte LayoutDescriptor = 0x02"
| "frameTypeByte ChunkContinuation = 0x03"

text \<open>\<open>static_cast<BinaryFrameType>\<close> after the range check.\<close>

definition frameTypeOf :: "u8 \<Rightarrow> BinaryFrameType" where
  "frameTypeOf b = (if b = 1 then VarBytes else if b = 2 then LayoutDescriptor else ChunkContinuation)"

datatype BinaryFrameFlag = Flag_None | Flag_ShmRef

fun frameFlagByte :: "BinaryFrameFlag \<Rightarrow> u8" where
  "frameFlagByte Flag_None = 0x00"
| "frameFlagByte Flag_ShmRef = 0x01"

record BinaryFrame =
  bf_type :: BinaryFrameType
  bf_flags :: u8
  bf_frameId :: u64
  bf_payload :: "u8 list"

definition hasFlag :: "BinaryFrame \<Rightarrow> BinaryFrameFlag \<Rightarrow> bool" where
  "hasFlag f flag \<longleftrightarrow> bf_flags f AND frameFlagByte flag \<noteq> 0"

definition kBinaryFrameMagic :: u32 where "kBinaryFrameMagic = 0x544F504F"
definition kBinaryFrameHeaderSize :: nat where "kBinaryFrameHeaderSize = 24"
definition kFirstHeaderByte :: u8 where "kFirstHeaderByte = 0x54"

definition frame_serialize :: "BinaryFrame \<Rightarrow> u8 list" where
  "frame_serialize f =
     (let out0 = replicate (kBinaryFrameHeaderSize + length (bf_payload f)) 0;
          out1 = poke 0 (storeU32BE kBinaryFrameMagic) out0;
          out2 = poke 4 [frameTypeByte (bf_type f)] out1;
          out3 = poke 5 [bf_flags f] out2;
          out4 = poke 6 [0] out3;
          out5 = poke 7 [0] out4;
          out6 = poke 8 (storeU64LE (bf_frameId f)) out5;
          out7 = poke 16 (storeU64LE (of_nat (length (bf_payload f)))) out6
      in if bf_payload f \<noteq> [] then poke kBinaryFrameHeaderSize (bf_payload f) out7 else out7)"

text \<open>
  What \<open>parse\<close> does: it rejects, it produces a frame, or it throws, which is what
  the vector's \<open>resize\<close> does with a length above the vector's maximum size.  The
  bounds check adds the header size and the length as 64-bit words.
\<close>

datatype 'a parse_outcome = Rejected | Parsed 'a | Throws

definition vector_max_size :: nat where
  "vector_max_size = 2 ^ 63 - 1"

definition typeByteOk :: "u8 \<Rightarrow> bool" where
  "typeByteOk b \<longleftrightarrow> \<not> (b = 0 \<or> b > frameTypeByte ChunkContinuation)"

definition frame_parse :: "u8 list \<Rightarrow> BinaryFrame parse_outcome" where
  "frame_parse data =
     (if length data < kBinaryFrameHeaderSize then Rejected
      else if loadU32BE data \<noteq> kBinaryFrameMagic then Rejected
      else if \<not> typeByteOk (data ! 4) then Rejected
      else if data ! 6 \<noteq> 0 \<or> data ! 7 \<noteq> 0 then Rejected
      else
        let payloadLen = loadU64LE (drop 16 data) in
        if (of_nat (length data) :: u64) < of_nat kBinaryFrameHeaderSize + payloadLen then Rejected
        else if unat payloadLen > vector_max_size then Throws
        else
          Parsed \<lparr>bf_type = frameTypeOf (data ! 4), bf_flags = data ! 5,
                  bf_frameId = loadU64LE (drop 8 data),
                  bf_payload = take (unat payloadLen) (drop kBinaryFrameHeaderSize data)\<rparr>)"

section \<open>References to shared memory\<close>

record ShmRef =
  shm_pathOffset :: u32
  shm_len :: u32
  shm_reserved0 :: u32
  shm_reserved1 :: u32

definition shm_serialize :: "ShmRef \<Rightarrow> u8 list" where
  "shm_serialize r =
     poke 12 (storeU32LE (shm_reserved1 r)) (poke 8 (storeU32LE (shm_reserved0 r))
       (poke 4 (storeU32LE (shm_len r)) (poke 0 (storeU32LE (shm_pathOffset r)) (replicate 16 0))))"

definition shm_parse :: "u8 list \<Rightarrow> ShmRef option" where
  "shm_parse body =
     (if length body < 16 then None
      else Some \<lparr>shm_pathOffset = loadU32LE body, shm_len = loadU32LE (drop 4 body),
                 shm_reserved0 = loadU32LE (drop 8 body), shm_reserved1 = loadU32LE (drop 12 body)\<rparr>)"

section \<open>Byte sources\<close>

text \<open>
  A source is a pair of functions on its state: \<open>readByte\<close> (nothing at the end)
  and \<open>readBulk n\<close>, the bytes delivered, empty at the end.  \<open>readBulk\<close> is optional.
\<close>

record 's ByteSource =
  readByte :: "'s \<Rightarrow> u8 option \<times> 's"
  readBulk :: "(nat \<Rightarrow> 's \<Rightarrow> u8 list \<times> 's) option"

text \<open>\<open>readExact\<close>: the bytes, or nothing on a premature end.\<close>

fun readExactBytes :: "('s \<Rightarrow> u8 option \<times> 's) \<Rightarrow> nat \<Rightarrow> 's \<Rightarrow> u8 list option \<times> 's" where
  "readExactBytes rd 0 s = (Some [], s)"
| "readExactBytes rd (Suc n) s =
     (case rd s of
        (None, s') \<Rightarrow> (None, s')
      | (Some b, s') \<Rightarrow>
          (case readExactBytes rd n s' of (r, s'') \<Rightarrow> (map_option ((#) b) r, s'')))"

function readExactBulk :: "(nat \<Rightarrow> 's \<Rightarrow> u8 list \<times> 's) \<Rightarrow> nat \<Rightarrow> 's \<Rightarrow> u8 list option \<times> 's" where
  "readExactBulk rd n s =
     (if n = 0 then (Some [], s)
      else
        case rd n s of
          (bs, s') \<Rightarrow>
            if bs = [] then (None, s')
            else (case readExactBulk rd (n - length bs) s' of
                    (r, s'') \<Rightarrow> (map_option ((@) bs) r, s'')))"
  by pat_completeness auto
termination
  by (relation "measure (\<lambda>(rd, n, s). n)") auto

declare readExactBulk.simps [simp del]

definition readExact :: "'s ByteSource \<Rightarrow> nat \<Rightarrow> 's \<Rightarrow> u8 list option \<times> 's" where
  "readExact src n s =
     (case readBulk src of
        Some rd \<Rightarrow> readExactBulk rd n s
      | None \<Rightarrow> readExactBytes (readByte src) n s)"

text \<open>The line after its first byte, without the line feed; a source that never ends never returns.\<close>

partial_function (option) jsonLineLoop ::
  "('s \<Rightarrow> u8 option \<times> 's) \<Rightarrow> u8 list \<Rightarrow> 's \<Rightarrow> (u8 list option \<times> 's) option" where
  "jsonLineLoop rd out s =
     (case rd s of
        (b, s') \<Rightarrow>
          (if b = None then Some (None, s')
           else if b = Some 10 then Some (Some out, s')
           else jsonLineLoop rd (out @ [the b]) s'))"

definition readJsonLine :: "'s ByteSource \<Rightarrow> u8 \<Rightarrow> 's \<Rightarrow> (u8 list option \<times> 's) option" where
  "readJsonLine src first s = jsonLineLoop (readByte src) [first] s"

section \<open>Reading a record\<close>

datatype ReadStatus =
    RS_Ok | RS_Eof | RS_Truncated | RS_BadMagic | RS_BadHeader | RS_BadJson
  | RS_ReservedNonZero | RS_PayloadTooBig

record 'j ReadResult =
  rr_status :: ReadStatus
  rr_json :: "'j option"
  rr_frame :: "BinaryFrame option"
  rr_error :: string

definition rr_fail :: "ReadStatus \<Rightarrow> string \<Rightarrow> 'j ReadResult" where
  "rr_fail st msg = \<lparr>rr_status = st, rr_json = None, rr_frame = None, rr_error = msg\<rparr>"

text \<open>The JSON parser answers with a value or with its exception's text.\<close>

type_synonym 'j json_parser = "u8 list \<Rightarrow> string + 'j"

definition json_record :: "'j json_parser \<Rightarrow> u8 list \<Rightarrow> 'j ReadResult" where
  "json_record parse line =
     (case parse line of
        Inr j \<Rightarrow> \<lparr>rr_status = RS_Ok, rr_json = Some j, rr_frame = None, rr_error = []\<rparr>
      | Inl what \<Rightarrow> rr_fail RS_BadJson (''JSON parse error: '' @ what))"

text \<open>The header checks, in the code's order.\<close>

definition header_error :: "nat \<Rightarrow> u8 list \<Rightarrow> (ReadStatus \<times> string) option" where
  "header_error maxPayload hdr =
     (if loadU32BE hdr \<noteq> kBinaryFrameMagic then Some (RS_BadHeader, ''bad magic'')
      else if \<not> typeByteOk (hdr ! 4) then Some (RS_BadHeader, ''unknown frame type'')
      else if hdr ! 6 \<noteq> 0 \<or> hdr ! 7 \<noteq> 0 then Some (RS_ReservedNonZero, ''reserved bytes non-zero'')
      else if unat (loadU64LE (drop 16 hdr)) > maxPayload then Some (RS_PayloadTooBig, ''payload exceeds max'')
      else None)"

definition readFrame :: "'s ByteSource \<Rightarrow> nat \<Rightarrow> u8 \<Rightarrow> 's \<Rightarrow> 'j ReadResult \<times> 's" where
  "readFrame src maxPayload fb s =
     (case readExact src (kBinaryFrameHeaderSize - 1) s of
        (None, s1) \<Rightarrow> (rr_fail RS_Truncated ''EOF mid-header'', s1)
      | (Some tl23, s1) \<Rightarrow>
          let hdr = fb # tl23 in
          (case header_error maxPayload hdr of
             Some (st, msg) \<Rightarrow> (rr_fail st msg, s1)
           | None \<Rightarrow>
               let n = unat (loadU64LE (drop 16 hdr)) in
               (case (if n > 0 then readExact src n s1 else (Some [], s1)) of
                  (None, s2) \<Rightarrow> (rr_fail RS_Truncated ''EOF mid-payload'', s2)
                | (Some payload, s2) \<Rightarrow>
                    (\<lparr>rr_status = RS_Ok, rr_json = None,
                      rr_frame = Some \<lparr>bf_type = frameTypeOf (hdr ! 4), bf_flags = hdr ! 5,
                                       bf_frameId = loadU64LE (drop 8 hdr), bf_payload = payload\<rparr>,
                      rr_error = []\<rparr>, s2))))"

definition readRecord ::
  "'j json_parser \<Rightarrow> 's ByteSource \<Rightarrow> nat \<Rightarrow> 's \<Rightarrow> ('j ReadResult \<times> 's) option" where
  "readRecord parse src maxPayload s =
     (case readByte src s of
        (None, s1) \<Rightarrow> Some (rr_fail RS_Eof [], s1)
      | (Some fb, s1) \<Rightarrow>
          if fb = 0x7B then
            map_option
              (\<lambda>(line, s2). case line of
                 None \<Rightarrow> (rr_fail RS_Truncated ''EOF in JSON line'', s2)
               | Some bs \<Rightarrow> (json_record parse bs, s2))
              (readJsonLine src fb s1)
          else if fb = kFirstHeaderByte then Some (readFrame src maxPayload fb s1)
          else Some (rr_fail RS_BadMagic
                       (''unexpected first byte (expected '' @ [CHR 0x27, CHR 0x7B, CHR 0x27] @
                        '' or 0x54)''), s1))"

text \<open>\<open>byteSourceFromString\<close>: the state is the cursor.\<close>

definition byteSourceFromString :: "u8 list \<Rightarrow> nat ByteSource" where
  "byteSourceFromString str =
     \<lparr>readByte = (\<lambda>cursor. if cursor \<ge> length str then (None, cursor)
                            else (Some (str ! cursor), cursor + 1)),
      readBulk = Some (\<lambda>n cursor.
        let avail = length str - cursor; k = (if avail < n then avail else n) in
        if k = 0 then ([], cursor) else (take k (drop cursor str), cursor + k))\<rparr>"

section \<open>Writing records\<close>

record 's ByteSink =
  sink_write :: "u8 list \<Rightarrow> 's \<Rightarrow> bool \<times> 's"
  sink_flush :: "('s \<Rightarrow> 's) option"

definition sink_put :: "'s ByteSink \<Rightarrow> u8 list \<Rightarrow> 's \<Rightarrow> bool \<times> 's" where
  "sink_put sink bytes s =
     (case sink_write sink bytes s of
        (ok, s1) \<Rightarrow>
          if \<not> ok then (False, s1)
          else (True, case sink_flush sink of Some fl \<Rightarrow> fl s1 | None \<Rightarrow> s1))"

definition writeJsonLine :: "('j \<Rightarrow> u8 list) \<Rightarrow> 's ByteSink \<Rightarrow> 'j \<Rightarrow> 's \<Rightarrow> bool \<times> 's" where
  "writeJsonLine dump sink j s = sink_put sink (dump j @ [10]) s"

definition writeBinaryFrame :: "'s ByteSink \<Rightarrow> BinaryFrame \<Rightarrow> 's \<Rightarrow> bool \<times> 's" where
  "writeBinaryFrame sink frame s = sink_put sink (frame_serialize frame) s"

definition byteSinkToString :: "u8 list ByteSink" where
  "byteSinkToString = \<lparr>sink_write = (\<lambda>data dest. (True, dest @ data)), sink_flush = None\<rparr>"

section \<open>Frames in memory\<close>

declare jsonLineLoop.simps [code]

lemmas frame_consts = kBinaryFrameMagic_def kBinaryFrameHeaderSize_def kFirstHeaderByte_def

definition frame_header :: "BinaryFrame \<Rightarrow> u8 list" where
  "frame_header f =
     storeU32BE kBinaryFrameMagic @ [frameTypeByte (bf_type f), bf_flags f, 0, 0] @
     storeU64LE (bf_frameId f) @ storeU64LE (of_nat (length (bf_payload f)))"

lemma frame_header_length [simp]: "length (frame_header f) = 24"
  by (simp add: frame_header_def)

lemma poke_append: "length xs = p \<Longrightarrow> length bs \<le> length ys \<Longrightarrow> poke p bs (xs @ ys) = xs @ bs @ drop (length bs) ys"
  by (simp add: poke_def)

lemma frame_serialize_eq: "frame_serialize f = frame_header f @ bf_payload f"
proof -
  let ?r = "\<lambda>n. replicate (n + length (bf_payload f)) (0 :: u8)"
  let ?m = "storeU32BE kBinaryFrameMagic" and ?t = "frameTypeByte (bf_type f)"
  let ?i = "storeU64LE (bf_frameId f)" and ?l = "storeU64LE (of_nat (length (bf_payload f)))"
  have "poke 0 ?m (?r 24) = ?m @ ?r 20" by (simp add: poke_def)
  moreover have "poke 4 [?t] (?m @ ?r 20) = ?m @ [?t] @ ?r 19" by (simp add: poke_append)
  moreover have "poke 5 [bf_flags f] (?m @ [?t] @ ?r 19) = (?m @ [?t, bf_flags f]) @ ?r 18"
    using poke_append [of "?m @ [?t]" 5 "[bf_flags f]" "?r 19"] by simp
  moreover have "poke 6 [0] ((?m @ [?t, bf_flags f]) @ ?r 18) = (?m @ [?t, bf_flags f, 0]) @ ?r 17"
    using poke_append [of "?m @ [?t, bf_flags f]" 6 "[0]" "?r 18"] by simp
  moreover have "poke 7 [0] ((?m @ [?t, bf_flags f, 0]) @ ?r 17) = (?m @ [?t, bf_flags f, 0, 0]) @ ?r 16"
    using poke_append [of "?m @ [?t, bf_flags f, 0]" 7 "[0]" "?r 17"] by simp
  moreover have "poke 8 ?i ((?m @ [?t, bf_flags f, 0, 0]) @ ?r 16) = (?m @ [?t, bf_flags f, 0, 0] @ ?i) @ ?r 8"
    using poke_append [of "?m @ [?t, bf_flags f, 0, 0]" 8 ?i "?r 16"] by simp
  moreover have "poke 16 ?l ((?m @ [?t, bf_flags f, 0, 0] @ ?i) @ ?r 8) = frame_header f @ ?r 0"
    using poke_append [of "?m @ [?t, bf_flags f, 0, 0] @ ?i" 16 ?l "?r 8"] by (simp add: frame_header_def)
  moreover have "poke 24 (bf_payload f) (frame_header f @ ?r 0) = frame_header f @ bf_payload f"
    by (simp add: poke_append)
  ultimately show ?thesis
    by (simp only: frame_serialize_def Let_def kBinaryFrameHeaderSize_def) simp
qed

lemma frameTypeOf_byte [simp]: "frameTypeOf (frameTypeByte t) = t"
  by (cases t) (simp_all add: frameTypeOf_def)

lemma typeByteOk_byte [simp]: "typeByteOk (frameTypeByte t)"
  by (cases t) (simp_all add: typeByteOk_def)

lemma frameTypeByte_of: "typeByteOk b \<Longrightarrow> frameTypeByte (frameTypeOf b) = b"
proof -
  assume "typeByteOk b"
  then have "unat b \<le> 3" "unat b \<noteq> 0" by (auto simp: typeByteOk_def word_le_nat_alt not_less unat_eq_0)
  then have "unat b = 1 \<or> unat b = 2 \<or> unat b = 3" by auto
  then have "b = 1 \<or> b = 2 \<or> b = 3"
    by (auto simp: word_unat_eq_iff)
  then show ?thesis by (auto simp: frameTypeOf_def)
qed

lemma header_parts:
  "loadU32BE (frame_header f @ xs) = kBinaryFrameMagic"
  "(frame_header f @ xs) ! 4 = frameTypeByte (bf_type f)"
  "(frame_header f @ xs) ! 5 = bf_flags f"
  "(frame_header f @ xs) ! 6 = 0" "(frame_header f @ xs) ! 7 = 0"
  "loadU64LE (drop 8 (frame_header f @ xs)) = bf_frameId f"
  "loadU64LE (drop 16 (frame_header f @ xs)) = of_nat (length (bf_payload f))"
  "drop 24 (frame_header f @ xs) = xs"
proof -
  show "loadU32BE (frame_header f @ xs) = kBinaryFrameMagic"
    by (simp add: frame_header_def)
  show "(frame_header f @ xs) ! 4 = frameTypeByte (bf_type f)"
    "(frame_header f @ xs) ! 5 = bf_flags f"
    "(frame_header f @ xs) ! 6 = 0" "(frame_header f @ xs) ! 7 = 0"
    by (simp_all add: frame_header_def nth_append)
  show "loadU64LE (drop 8 (frame_header f @ xs)) = bf_frameId f"
    by (simp add: frame_header_def)
  show "loadU64LE (drop 16 (frame_header f @ xs)) = of_nat (length (bf_payload f))"
    by (simp add: frame_header_def)
qed simp

text \<open>The header of any buffer with the right magic, type byte and reserved bytes.\<close>

lemma header_rebuild:
  assumes "24 \<le> length data" and "loadU32BE data = kBinaryFrameMagic" and "typeByteOk (data ! 4)"
    and "data ! 6 = 0" and "data ! 7 = 0"
  shows "take 24 data =
    storeU32BE kBinaryFrameMagic @ [frameTypeByte (frameTypeOf (data ! 4)), data ! 5, 0, 0] @
    storeU64LE (loadU64LE (drop 8 data)) @ storeU64LE (loadU64LE (drop 16 data))"
proof -
  have "take 24 data = take 4 data @ [data ! 4, data ! 5, data ! 6, data ! 7] @
      take 8 (drop 8 data) @ take 8 (drop 16 data)"
    using assms(1)
    by (auto intro!: nth_equalityI simp: nth_append nth_Cons' less_Suc_eq numeral_eq_Suc)
  moreover have "take 4 data = storeU32BE kBinaryFrameMagic"
    using store_load_U32BE [of "take 4 data" "drop 4 data"] assms(1,2) by simp
  moreover have "storeU64LE (loadU64LE (drop n data)) = take 8 (drop n data)" if "n + 8 \<le> length data" for n
    using store_load_U64LE [of "take 8 (drop n data)" "drop 8 (drop n data)"] that
    by (simp only: append_take_drop_id) simp
  ultimately show ?thesis
    using assms(1,3-5) by (simp add: frameTypeByte_of)
qed

section \<open>Parsing a frame\<close>

text \<open>The header checks of \<open>parse\<close>, and the frame a buffer spells.\<close>

definition header_ok :: "u8 list \<Rightarrow> bool" where
  "header_ok data \<longleftrightarrow>
     loadU32BE data = kBinaryFrameMagic \<and> typeByteOk (data ! 4) \<and> data ! 6 = 0 \<and> data ! 7 = 0"

definition frame_in :: "u8 list \<Rightarrow> BinaryFrame" where
  "frame_in data =
     \<lparr>bf_type = frameTypeOf (data ! 4), bf_flags = data ! 5, bf_frameId = loadU64LE (drop 8 data),
      bf_payload = take (unat (loadU64LE (drop 16 data))) (drop 24 data)\<rparr>"

lemma header_ok_header [simp]: "header_ok (frame_header f @ xs)"
  using header_parts [of f xs] by (simp add: header_ok_def)

lemma frame_in_serialize:
  "length (bf_payload f) < 2 ^ 64 \<Longrightarrow> frame_in (frame_header f @ bf_payload f @ xs) = f"
  using header_parts [of f "bf_payload f @ xs"]
  by (simp add: frame_in_def unat_of_nat)

lemma frame_in_rebuild:
  assumes "24 \<le> length data" and "header_ok data"
    and "24 + unat (loadU64LE (drop 16 data)) \<le> length data"
  shows "data = frame_serialize (frame_in data) @ drop (24 + unat (loadU64LE (drop 16 data))) data"
proof -
  let ?n = "unat (loadU64LE (drop 16 data))"
  have len: "length (bf_payload (frame_in data)) = ?n" using assms(3) by (simp add: frame_in_def)
  have "take 24 data = frame_header (frame_in data)"
    using header_rebuild [of data] assms(1,2) len
    by (simp add: header_ok_def frame_header_def frame_in_def)
  moreover have "drop 24 data = bf_payload (frame_in data) @ drop (24 + ?n) data"
    by (simp add: frame_in_def) (metis append_take_drop_id drop_drop add.commute)
  ultimately show ?thesis
    by (simp add: frame_serialize_eq) (metis append_take_drop_id)
qed

text \<open>
  The bounds check adds 24 to the length field modulo \<open>2 ^ 64\<close>: a length of at least
  \<open>2 ^ 64 - 24\<close> wraps to a small sum, passes the check, and the resize throws.
\<close>

lemma bounds_check:
  fixes L :: u64
  assumes "24 \<le> n" and "n < 2 ^ 63"
  shows "(of_nat n :: u64) < of_nat kBinaryFrameHeaderSize + L \<longleftrightarrow>
    n < 24 + unat L \<and> unat L < 2 ^ 64 - 24"
proof -
  have n: "unat (of_nat n :: u64) = n" using assms(2) by (simp add: unat_of_nat)
  have L: "unat L < 2 ^ 64" using unsigned_less [of L] by simp
  have "unat (24 + L) = (24 + unat L) mod 2 ^ 64" by (simp add: unat_word_ariths)
  also have "\<dots> = (if unat L < 2 ^ 64 - 24 then 24 + unat L else unat L - (2 ^ 64 - 24))"
    using L by (auto simp: le_mod_geq)
  finally have sum: "unat (24 + L) = (if unat L < 2 ^ 64 - 24 then 24 + unat L else unat L - (2 ^ 64 - 24))" .
  have "(of_nat n :: u64) < of_nat kBinaryFrameHeaderSize + L \<longleftrightarrow> n < unat (24 + L)"
    using n by (simp add: word_less_nat_alt kBinaryFrameHeaderSize_def)
  then show ?thesis using sum assms L by auto
qed

lemma frame_parse_cases:
  assumes "length data < 2 ^ 63"
  shows "frame_parse data =
    (if length data < 24 \<or> \<not> header_ok data then Rejected
     else if 2 ^ 64 - 24 \<le> unat (loadU64LE (drop 16 data)) then Throws
     else if length data < 24 + unat (loadU64LE (drop 16 data)) then Rejected
     else Parsed (frame_in data))"
proof (cases "length data < 24 \<or> \<not> header_ok data")
  case True
  then show ?thesis by (auto simp: frame_parse_def header_ok_def kBinaryFrameHeaderSize_def)
next
  case False
  then show ?thesis
    using bounds_check [of "length data" "loadU64LE (drop 16 data)"] assms
    by (auto simp: frame_parse_def header_ok_def Let_def vector_max_size_def frame_in_def
        kBinaryFrameHeaderSize_def)
qed

section \<open>Properties of frames in memory\<close>

text \<open>C19: the exact domain of \<open>BinaryFrame::parse\<close>, for any buffer that fits in memory.  It
  yields a frame exactly when the buffer starts with that frame's serialization (trailing
  bytes are ignored); it rejects every other buffer, except that a well-formed header whose
  length field is at least \<open>2 ^ 64 - 24\<close> slips through the bounds check, whose sum wraps
  around, and makes the parser throw instead of rejecting.\<close>

theorem frame_parse_exact:
  assumes "length data < 2 ^ 63"
  shows "(frame_parse data = Parsed f \<longleftrightarrow>
      length (bf_payload f) < 2 ^ 64 - 24 \<and> (\<exists>tail. data = frame_serialize f @ tail)) \<and>
    (frame_parse data = Throws \<longleftrightarrow>
      24 \<le> length data \<and> header_ok data \<and> 2 ^ 64 - 24 \<le> unat (loadU64LE (drop 16 data)))"
proof
  let ?n = "unat (loadU64LE (drop 16 data))"
  show "frame_parse data = Throws \<longleftrightarrow> 24 \<le> length data \<and> header_ok data \<and> 2 ^ 64 - 24 \<le> ?n"
    using frame_parse_cases [OF assms] by auto
  show "frame_parse data = Parsed f \<longleftrightarrow>
      length (bf_payload f) < 2 ^ 64 - 24 \<and> (\<exists>tail. data = frame_serialize f @ tail)"
  proof
    assume p: "frame_parse data = Parsed f"
    with frame_parse_cases [OF assms] have c: "24 \<le> length data" "header_ok data" "?n < 2 ^ 64 - 24"
        "24 + ?n \<le> length data" "f = frame_in data"
      by (auto split: if_splits)
    then have "length (bf_payload f) = ?n" by (simp add: frame_in_def)
    with c frame_in_rebuild [of data] show
      "length (bf_payload f) < 2 ^ 64 - 24 \<and> (\<exists>tail. data = frame_serialize f @ tail)"
      by auto
  next
    assume "length (bf_payload f) < 2 ^ 64 - 24 \<and> (\<exists>tail. data = frame_serialize f @ tail)"
    then obtain tail where d: "data = frame_header f @ bf_payload f @ tail"
        and l: "length (bf_payload f) < 2 ^ 64 - 24"
      by (auto simp: frame_serialize_eq)
    then have "?n = length (bf_payload f)"
      using header_parts(7) [of f "bf_payload f @ tail"] by (simp add: unat_of_nat)
    with d l show "frame_parse data = Parsed f"
      using frame_parse_cases [OF assms] frame_in_serialize [of f tail] by simp
  qed
qed

definition sample_frame :: BinaryFrame where
  "sample_frame = \<lparr>bf_type = LayoutDescriptor, bf_flags = 1, bf_frameId = 7, bf_payload = [1, 2]\<rparr>"

lemma frame_parse_exact_witness:
  "frame_parse (frame_serialize sample_frame @ [9]) = Parsed sample_frame"
  using frame_parse_exact [of "frame_serialize sample_frame @ [9]" sample_frame]
  by (simp add: frame_serialize_eq sample_frame_def)

text \<open>A shared-memory reference survives its 16-byte encoding, and the decoder accepts
  exactly the buffers that hold at least those 16 bytes.\<close>

theorem shm_roundtrip:
  "length (shm_serialize r) = 16 \<and> shm_parse (shm_serialize r @ tail) = Some r \<and>
   (shm_parse body = Some r \<longleftrightarrow> (\<exists>tail. body = shm_serialize r @ tail))"
proof -
  let ?enc = "\<lambda>r. storeU32LE (shm_pathOffset r) @ storeU32LE (shm_len r) @
      storeU32LE (shm_reserved0 r) @ storeU32LE (shm_reserved1 r)"
  have enc: "shm_serialize r = ?enc r" for r
    by (simp add: shm_serialize_def poke_def)
  have fwd: "shm_parse (shm_serialize r @ tail) = Some r" for r tail
    by (simp add: enc shm_parse_def)
  have "\<exists>tail. body = shm_serialize r @ tail" if p: "shm_parse body = Some r"
  proof -
    from p have l: "16 \<le> length body" by (simp add: shm_parse_def split: if_splits)
    have w: "storeU32LE (loadU32LE (drop n body)) = take 4 (drop n body)" if "n + 4 \<le> length body" for n
      using store_load_U32LE [of "take 4 (drop n body)" "drop 4 (drop n body)"] that
      by (simp only: append_take_drop_id) simp
    from p l have "shm_serialize r = take 4 (drop 0 body) @ take 4 (drop 4 body) @
        take 4 (drop 8 body) @ take 4 (drop 12 body)"
      using w [of 0] w [of 4] w [of 8] w [of 12] by (auto simp: enc shm_parse_def)
    also have "\<dots> = take 16 body"
      using take_add [of 4 4 body] take_add [of 8 4 body] take_add [of 12 4 body] by simp
    finally show ?thesis by (metis append_take_drop_id)
  qed
  with fwd show ?thesis by (auto simp: enc)
qed

lemma shm_roundtrip_witness:
  "shm_parse (shm_serialize \<lparr>shm_pathOffset = 1, shm_len = 2, shm_reserved0 = 3, shm_reserved1 = 4\<rparr>) =
     Some \<lparr>shm_pathOffset = 1, shm_len = 2, shm_reserved0 = 3, shm_reserved1 = 4\<rparr>"
  using shm_roundtrip [where tail = "[]"] by simp

end
