(* ===== verification/FrameStream.thy ===== *)
theory FrameStream
  imports BinaryFrame
begin

text \<open>
  The stream of interleaved JSON lines and binary frames.  The interface between
  the reader and whatever delivers bytes is the locale \<open>byte_source\<close>: a source
  holds some bytes, and both of its operations take them from the front.  The
  reader is then a function of those bytes alone, however the source cuts them.
\<close>

section \<open>The interface\<close>

locale byte_source =
  fixes src :: "'s ByteSource"
    and content :: "'s \<Rightarrow> u8 list"
  assumes byte_end: "content s = [] \<Longrightarrow> \<exists>s'. readByte src s = (None, s') \<and> content s' = []"
    and byte_next: "content s = b # bs \<Longrightarrow> \<exists>s'. readByte src s = (Some b, s') \<and> content s' = bs"
    and bulk_next: "readBulk src = Some rd \<Longrightarrow> 0 < n \<Longrightarrow>
      \<exists>bs s'. rd n s = (bs, s') \<and> content s = bs @ content s' \<and> length bs \<le> n \<and>
        (bs = [] \<longleftrightarrow> content s = [])"
begin

lemma readExactBytes_content:
  "\<exists>s'. readExactBytes (readByte src) n s =
      ((if n \<le> length (content s) then Some (take n (content s)) else None), s') \<and>
    content s' = drop n (content s)"
proof (induction n arbitrary: s)
  case (Suc n)
  show ?case
  proof (cases "content s")
    case Nil
    with byte_end [of s] show ?thesis by auto
  next
    case (Cons b bs)
    from byte_next [OF Cons] obtain s1 where s1: "readByte src s = (Some b, s1)" "content s1 = bs" by blast
    from Suc [of s1] s1 Cons show ?thesis by auto
  qed
qed simp

lemma readExactBulk_content:
  assumes "readBulk src = Some rd"
  shows "\<exists>s'. readExactBulk rd n s =
      ((if n \<le> length (content s) then Some (take n (content s)) else None), s') \<and>
    content s' = drop n (content s)"
proof (induction n arbitrary: s rule: less_induct)
  case (less n)
  show ?case
  proof (cases "n = 0")
    case True
    then show ?thesis by (subst readExactBulk.simps) simp
  next
    case False
    with bulk_next [OF assms, of n s] obtain bs s1 where
      r: "rd n s = (bs, s1)" "content s = bs @ content s1" "length bs \<le> n" "bs = [] \<longleftrightarrow> content s = []"
      by auto
    show ?thesis
    proof (cases "bs = []")
      case True
      with r False show ?thesis by (subst readExactBulk.simps) simp
    next
      case ne: False
      let ?m = "n - length bs"
      have "?m < n" using ne False by (cases bs) simp_all
      from less.IH [OF this, of s1] obtain s2 where
        s2: "readExactBulk rd ?m s1 =
           ((if ?m \<le> length (content s1) then Some (take ?m (content s1)) else None), s2)"
        "content s2 = drop ?m (content s1)" by blast
      have e: "readExactBulk rd n s =
          (map_option ((@) bs) (fst (readExactBulk rd ?m s1)), snd (readExactBulk rd ?m s1))"
        using False ne r(1) by (subst readExactBulk.simps) (simp split: prod.splits)
      have "n \<le> length (content s) \<longleftrightarrow> ?m \<le> length (content s1)"
        "take n (content s) = bs @ take ?m (content s1)" "drop n (content s) = drop ?m (content s1)"
        using r(2,3) by auto
      with e s2 show ?thesis by simp
    qed
  qed
qed

lemma readExact_content:
  "\<exists>s'. readExact src n s =
      ((if n \<le> length (content s) then Some (take n (content s)) else None), s') \<and>
    content s' = drop n (content s)"
proof (cases "readBulk src")
  case None
  with readExactBytes_content [of n s] show ?thesis by (simp add: readExact_def)
next
  case (Some rd)
  with readExactBulk_content [OF Some, of n s] show ?thesis by (simp add: readExact_def)
qed

lemma jsonLineLoop_content:
  "\<exists>s'. jsonLineLoop (readByte src) out s =
      Some ((if 10 \<in> set (content s) then Some (out @ takeWhile (\<lambda>b. b \<noteq> 10) (content s)) else None), s') \<and>
    content s' = tl (dropWhile (\<lambda>b. b \<noteq> 10) (content s))"
proof (induction "content s" arbitrary: out s)
  case Nil
  with byte_end [of s] show ?case by (subst jsonLineLoop.simps) auto
next
  case (Cons b bs)
  from byte_next [OF Cons(2) [symmetric]] obtain s1 where
    s1: "readByte src s = (Some b, s1)" "content s1 = bs" by blast
  show ?case
  proof (cases "b = 10")
    case True
    with s1 Cons(2) [symmetric] show ?thesis by (subst jsonLineLoop.simps) simp
  next
    case False
    with s1 Cons(1) [of s1 "out @ [b]"] Cons(2) [symmetric] show ?thesis
      by (subst jsonLineLoop.simps) auto
  qed
qed

end

section \<open>The reader as a function of the bytes\<close>

definition decodeFrame :: "nat \<Rightarrow> u8 \<Rightarrow> u8 list \<Rightarrow> 'j ReadResult \<times> u8 list" where
  "decodeFrame maxPayload fb bs =
     (if length bs < 23 then (rr_fail RS_Truncated ''EOF mid-header'', [])
      else
        let hdr = fb # take 23 bs; body = drop 23 bs; n = unat (loadU64LE (drop 16 hdr)) in
        (case header_error maxPayload hdr of
           Some (st, msg) \<Rightarrow> (rr_fail st msg, body)
         | None \<Rightarrow>
             if length body < n then (rr_fail RS_Truncated ''EOF mid-payload'', [])
             else (\<lparr>rr_status = RS_Ok, rr_json = None,
                    rr_frame = Some \<lparr>bf_type = frameTypeOf (hdr ! 4), bf_flags = hdr ! 5,
                                     bf_frameId = loadU64LE (drop 8 hdr), bf_payload = take n body\<rparr>,
                    rr_error = []\<rparr>, drop n body)))"

definition decodeRecord :: "'j json_parser \<Rightarrow> nat \<Rightarrow> u8 list \<Rightarrow> 'j ReadResult \<times> u8 list" where
  "decodeRecord parse maxPayload bs =
     (case bs of
        [] \<Rightarrow> (rr_fail RS_Eof [], [])
      | fb # bs' \<Rightarrow>
          if fb = 0x7B then
            (if 10 \<in> set bs' then json_record parse (fb # takeWhile (\<lambda>b. b \<noteq> 10) bs')
             else rr_fail RS_Truncated ''EOF in JSON line'',
             tl (dropWhile (\<lambda>b. b \<noteq> 10) bs'))
          else if fb = kFirstHeaderByte then decodeFrame maxPayload fb bs'
          else (rr_fail RS_BadMagic
                  (''unexpected first byte (expected '' @ [CHR 0x27, CHR 0x7B, CHR 0x27] @
                   '' or 0x54)''), bs'))"

context byte_source
begin

lemma readFrame_content:
  "\<exists>s'. readFrame src maxPayload fb s = (fst (decodeFrame maxPayload fb (content s)), s') \<and>
     content s' = snd (decodeFrame maxPayload fb (content s))"
proof -
  obtain s1 where s1: "readExact src 23 s =
      ((if 23 \<le> length (content s) then Some (take 23 (content s)) else None), s1)"
      "content s1 = drop 23 (content s)"
    using readExact_content [of 23 s] by blast
  show ?thesis
  proof (cases "length (content s) < 23")
    case True
    with s1 show ?thesis by (simp add: readFrame_def decodeFrame_def kBinaryFrameHeaderSize_def)
  next
    case False
    let ?hdr = "fb # take 23 (content s)"
    let ?n = "unat (loadU64LE (drop 16 ?hdr))"
    obtain s2 where s2: "readExact src ?n s1 =
        ((if ?n \<le> length (content s1) then Some (take ?n (content s1)) else None), s2)"
        "content s2 = drop ?n (content s1)"
      using readExact_content [of ?n s1] by blast
    show ?thesis
    proof (cases "header_error maxPayload ?hdr")
      case (Some e)
      with s1 False show ?thesis
        by (cases e) (simp add: readFrame_def decodeFrame_def kBinaryFrameHeaderSize_def Let_def)
    next
      case None
      show ?thesis
      proof (cases "?n = 0")
        case True
        with None s1 False show ?thesis
          by (simp add: readFrame_def decodeFrame_def kBinaryFrameHeaderSize_def Let_def)
      next
        case nz: False
        with None s1 s2 False show ?thesis
          by (auto simp: readFrame_def decodeFrame_def kBinaryFrameHeaderSize_def Let_def not_less)
      qed
    qed
  qed
qed

lemma readRecord_content:
  "\<exists>s'. readRecord parse src maxPayload s = Some (fst (decodeRecord parse maxPayload (content s)), s') \<and>
     content s' = snd (decodeRecord parse maxPayload (content s))"
proof (cases "content s")
  case Nil
  with byte_end [of s] show ?thesis by (auto simp: readRecord_def decodeRecord_def)
next
  case (Cons fb bs)
  from byte_next [OF Cons] obtain s1 where s1: "readByte src s = (Some fb, s1)" "content s1 = bs" by blast
  obtain s2 where "jsonLineLoop (readByte src) [fb] s1 =
      Some ((if 10 \<in> set bs then Some ([fb] @ takeWhile (\<lambda>b. b \<noteq> 10) bs) else None), s2)"
      "content s2 = tl (dropWhile (\<lambda>b. b \<noteq> 10) bs)"
    using jsonLineLoop_content [of "[fb]" s1] s1(2) by auto
  then show ?thesis
    using s1 Cons readFrame_content [of maxPayload fb s1]
    by (auto simp: readRecord_def decodeRecord_def readJsonLine_def)
qed

end

interpretation string_source: byte_source "byteSourceFromString str" "\<lambda>cursor. drop cursor str"
proof
  fix s :: nat
  show "drop s str = [] \<Longrightarrow>
      \<exists>s'. readByte (byteSourceFromString str) s = (None, s') \<and> drop s' str = []"
    by (simp add: byteSourceFromString_def)
  show "drop s str = b # bs \<Longrightarrow>
      \<exists>s'. readByte (byteSourceFromString str) s = (Some b, s') \<and> drop s' str = bs" for b bs
    by (cases "s < length str") (auto simp: byteSourceFromString_def Cons_nth_drop_Suc [symmetric])
  fix rd and n :: nat
  assume rd: "readBulk (byteSourceFromString str) = Some rd" and n: "0 < n"
  let ?k = "min (length str - s) n"
  have "rd n s = (take ?k (drop s str), s + ?k)"
    using rd by (auto simp: byteSourceFromString_def Let_def min_def)
  moreover have "drop s str = take ?k (drop s str) @ drop (s + ?k) str"
    by (metis append_take_drop_id drop_drop add.commute)
  moreover have "take ?k (drop s str) = [] \<longleftrightarrow> drop s str = []"
    using n by auto
  ultimately show "\<exists>bs s'. rd n s = (bs, s') \<and> drop s str = bs @ drop s' str \<and> length bs \<le> n \<and>
      (bs = [] \<longleftrightarrow> drop s str = [])"
    by auto
qed

section \<open>Writing and reading back\<close>

text \<open>What goes over the channel: a JSON value or a frame.\<close>

type_synonym 'j channel_record = "'j + BinaryFrame"

fun writeRecord :: "('j \<Rightarrow> u8 list) \<Rightarrow> 's ByteSink \<Rightarrow> 'j channel_record \<Rightarrow> 's \<Rightarrow> bool \<times> 's" where
  "writeRecord dump sink (Inl j) s = writeJsonLine dump sink j s"
| "writeRecord dump sink (Inr f) s = writeBinaryFrame sink f s"

fun writeRecords :: "('j \<Rightarrow> u8 list) \<Rightarrow> 's ByteSink \<Rightarrow> 'j channel_record list \<Rightarrow> 's \<Rightarrow> bool \<times> 's" where
  "writeRecords dump sink [] s = (True, s)"
| "writeRecords dump sink (r # rs) s =
     (case writeRecord dump sink r s of
        (ok, s1) \<Rightarrow> if ok then writeRecords dump sink rs s1 else (False, s1))"

fun readRecords ::
  "'j json_parser \<Rightarrow> 's ByteSource \<Rightarrow> nat \<Rightarrow> nat \<Rightarrow> 's \<Rightarrow> ('j ReadResult list \<times> 's) option" where
  "readRecords parse src maxPayload 0 s = Some ([], s)"
| "readRecords parse src maxPayload (Suc n) s =
     Option.bind (readRecord parse src maxPayload s) (\<lambda>(r, s1).
       Option.bind (readRecords parse src maxPayload n s1) (\<lambda>(rs, s2). Some (r # rs, s2)))"

fun record_bytes :: "('j \<Rightarrow> u8 list) \<Rightarrow> 'j channel_record \<Rightarrow> u8 list" where
  "record_bytes dump (Inl j) = dump j @ [10]"
| "record_bytes dump (Inr f) = frame_serialize f"

fun result_of :: "'j channel_record \<Rightarrow> 'j ReadResult" where
  "result_of (Inl j) = \<lparr>rr_status = RS_Ok, rr_json = Some j, rr_frame = None, rr_error = []\<rparr>"
| "result_of (Inr f) = \<lparr>rr_status = RS_Ok, rr_json = None, rr_frame = Some f, rr_error = []\<rparr>"

text \<open>
  What a sender must keep to: JSON values that are objects, printed on one line by a
  printer the parser undoes, and payloads within the reader's limit.
\<close>

fun sendable :: "('j \<Rightarrow> u8 list) \<Rightarrow> 'j json_parser \<Rightarrow> nat \<Rightarrow> 'j channel_record \<Rightarrow> bool" where
  "sendable dump parse maxPayload (Inl j) \<longleftrightarrow>
     (\<exists>bs. dump j = 0x7B # bs \<and> 10 \<notin> set bs) \<and> parse (dump j) = Inr j"
| "sendable dump parse maxPayload (Inr f) \<longleftrightarrow>
     length (bf_payload f) \<le> maxPayload \<and> length (bf_payload f) < 2 ^ 64"

lemma writeRecords_string:
  "writeRecords dump byteSinkToString rs dest = (True, dest @ concat (map (record_bytes dump) rs))"
proof (induction rs arbitrary: dest)
  case (Cons r rs)
  have "writeRecord dump byteSinkToString r dest = (True, dest @ record_bytes dump r)"
    by (cases r) (simp_all add: writeJsonLine_def writeBinaryFrame_def sink_put_def byteSinkToString_def)
  with Cons show ?case by simp
qed simp

lemma takeWhile_line: "x \<notin> set bs \<Longrightarrow> takeWhile (\<lambda>b. b \<noteq> x) (bs @ x # rest) = bs"
  "x \<notin> set bs \<Longrightarrow> dropWhile (\<lambda>b. b \<noteq> x) (bs @ x # rest) = x # rest"
  by (induction bs) auto

lemma frame_header_first: "frame_header f = kFirstHeaderByte # tl (frame_header f)"
  by (simp add: frame_header_def frame_consts storeU32BE_def)

lemma header_error_header:
  "header_error maxPayload (frame_header f) =
     (if length (bf_payload f) mod 2 ^ 64 > maxPayload then Some (RS_PayloadTooBig, ''payload exceeds max'')
      else None)"
  using header_parts [of f "[]"] by (simp add: header_error_def unat_of_nat)

lemma decodeFrame_header:
  assumes "length (bf_payload f) \<le> maxPayload" and "length (bf_payload f) < 2 ^ 64"
  shows "decodeFrame maxPayload kFirstHeaderByte (tl (frame_header f) @ body) =
    (if length body < length (bf_payload f) then (rr_fail RS_Truncated ''EOF mid-payload'', [])
     else (\<lparr>rr_status = RS_Ok, rr_json = None,
            rr_frame = Some (f\<lparr>bf_payload := take (length (bf_payload f)) body\<rparr>), rr_error = []\<rparr>,
           drop (length (bf_payload f)) body))"
proof -
  have t: "length (tl (frame_header f)) = 23" by simp
  then have "kFirstHeaderByte # take 23 (tl (frame_header f) @ body) = frame_header f"
    using frame_header_first [of f] by simp
  moreover have "drop 23 (tl (frame_header f) @ body) = body" using t by simp
  moreover have "\<not> length (tl (frame_header f) @ body) < 23" using t by simp
  moreover have "header_error maxPayload (frame_header f) = None"
    using assms by (simp add: header_error_header)
  moreover have "unat (loadU64LE (drop 16 (frame_header f))) = length (bf_payload f)"
    using header_parts(7) [of f "[]"] assms(2) by (simp add: unat_of_nat)
  ultimately show ?thesis
    using header_parts [of f "[]"] by (simp add: decodeFrame_def Let_def)
qed

lemma decodeRecord_frame:
  "decodeRecord parse maxPayload (frame_header f @ body) =
     decodeFrame maxPayload kFirstHeaderByte (tl (frame_header f) @ body)"
  by (subst frame_header_first) (simp add: decodeRecord_def kFirstHeaderByte_def)

lemma decodeRecord_record:
  assumes "sendable dump parse maxPayload r"
  shows "decodeRecord parse maxPayload (record_bytes dump r @ rest) = (result_of r, rest)"
proof (cases r)
  case (Inl j)
  with assms obtain bs where "dump j = 0x7B # bs" "10 \<notin> set bs" "parse (dump j) = Inr j" by auto
  with Inl show ?thesis
    by (simp add: decodeRecord_def json_record_def takeWhile_line)
next
  case (Inr f)
  with assms show ?thesis
    using decodeRecord_frame [of parse maxPayload f "bf_payload f @ rest"]
    by (simp add: frame_serialize_eq decodeFrame_header)
qed

lemma decodeRecord_prefix:
  assumes "sendable dump parse maxPayload r" and "record_bytes dump r = xs @ ys"
    and "xs \<noteq> []" and "ys \<noteq> []"
  shows "rr_status (fst (decodeRecord parse maxPayload xs)) = RS_Truncated"
proof (cases r)
  case (Inl j)
  with assms obtain bs where b: "dump j = 0x7B # bs" "10 \<notin> set bs" by auto
  with Inl assms(2-4) obtain us where "xs = 0x7B # us" "set us \<subseteq> set bs"
    by (cases xs; cases ys rule: rev_cases) auto
  with b show ?thesis by (auto simp: decodeRecord_def rr_fail_def)
next
  case (Inr f)
  with assms have l: "length (bf_payload f) \<le> maxPayload" "length (bf_payload f) < 2 ^ 64" by auto
  have e: "frame_header f @ bf_payload f = xs @ ys"
    using Inr assms(2) by (simp add: frame_serialize_eq)
  show ?thesis
  proof (cases "length xs < 24")
    case True
    with e have "xs = take (length xs) (frame_header f)"
      by (metis append_eq_conv_conj frame_header_length less_or_eq_imp_le take_append take_all_iff
          append_Nil2 diff_is_0_eq' take0)
    then have "hd xs = kFirstHeaderByte"
      using assms(3) frame_header_first [of f] by (metis hd_take length_greater_0_conv list.sel(1))
    then obtain us where "xs = kFirstHeaderByte # us" "length us < 23"
      using True assms(3) by (cases xs) auto
    then show ?thesis
      by (simp add: decodeRecord_def decodeFrame_def kFirstHeaderByte_def rr_fail_def)
  next
    case False
    have "xs = frame_header f @ drop 24 xs"
      using e False by (metis append_eq_conv_conj append_take_drop_id frame_header_length not_less
          take_append take_eq_Nil diff_is_0_eq append_Nil2)
    then obtain body where b: "xs = frame_header f @ body" by blast
    with e have "bf_payload f = body @ ys" by simp
    with assms(4) have "length body < length (bf_payload f)" by (cases ys) auto
    then show ?thesis
      by (simp add: b decodeRecord_frame decodeFrame_header [OF l] rr_fail_def)
  qed
qed

context byte_source
begin

lemma readRecords_content:
  "content s = concat (map (record_bytes dump) rs) @ rest \<Longrightarrow>
   (\<And>r. r \<in> set rs \<Longrightarrow> sendable dump parse maxPayload r) \<Longrightarrow>
   \<exists>s'. readRecords parse src maxPayload (length rs) s = Some (map result_of rs, s') \<and> content s' = rest"
proof (induction rs arbitrary: s)
  case (Cons r rs)
  have d: "decodeRecord parse maxPayload (content s) =
      (result_of r, concat (map (record_bytes dump) rs) @ rest)"
    using Cons.prems decodeRecord_record [of dump parse maxPayload r "concat (map (record_bytes dump) rs) @ rest"]
    by simp
  obtain s1 where "readRecord parse src maxPayload s = Some (result_of r, s1)"
      "content s1 = concat (map (record_bytes dump) rs) @ rest"
    using readRecord_content [of parse maxPayload s] d by auto
  with Cons.IH [of s1] Cons.prems(2) show ?case by auto
qed simp

end

section \<open>Properties\<close>

text \<open>C10: what is written to the channel is read back.  Any sequence of JSON lines and binary
  frames that a sender may send, written into a sink and read from any byte source that
  holds those bytes, however the source cuts its bulk reads, gives the same records in the
  same order, each with status Ok, and then a clean end of file.\<close>

theorem channel_roundtrip:
  assumes "byte_source src content"
    and "writeRecords dump byteSinkToString rs [] = (True, content s)"
    and "\<forall>r \<in> set rs. sendable dump parse maxPayload r"
  shows "\<exists>s' s''. readRecords parse src maxPayload (length rs) s = Some (map result_of rs, s') \<and>
    readRecord parse src maxPayload s' = Some (rr_fail RS_Eof [], s'')"
proof -
  have c: "content s = concat (map (record_bytes dump) rs) @ []"
    using assms(2) by (simp add: writeRecords_string)
  obtain s' where s': "readRecords parse src maxPayload (length rs) s = Some (map result_of rs, s')"
      "content s' = []"
    using byte_source.readRecords_content [OF assms(1) c] assms(3) by blast
  moreover from byte_source.readRecord_content [OF assms(1), of parse maxPayload s'] s'(2)
  have "\<exists>s''. readRecord parse src maxPayload s' = Some (rr_fail RS_Eof [], s'')"
    by (auto simp: decodeRecord_def)
  ultimately show ?thesis by blast
qed

definition echo_dump :: "u8 list \<Rightarrow> u8 list" where
  "echo_dump j = 0x7B # j"

definition echo_parse :: "u8 list json_parser" where
  "echo_parse line = (if line = [] then Inl ''empty'' else Inr (tl line))"

lemma channel_roundtrip_witness:
  "\<exists>s' s''. readRecords echo_parse
      (byteSourceFromString (snd (writeRecords echo_dump byteSinkToString [Inl [1], Inr sample_frame] [])))
      16 2 0 = Some (map result_of [Inl [1], Inr sample_frame], s') \<and>
    readRecord echo_parse
      (byteSourceFromString (snd (writeRecords echo_dump byteSinkToString [Inl [1], Inr sample_frame] [])))
      16 s' = Some (rr_fail RS_Eof [], s'')"
proof -
  let ?rs = "[Inl [1 :: u8], Inr sample_frame]"
  let ?str = "snd (writeRecords echo_dump byteSinkToString ?rs [])"
  have ok: "\<forall>r \<in> set ?rs. sendable echo_dump echo_parse 16 r"
    by (auto simp: echo_dump_def echo_parse_def sample_frame_def)
  have written: "writeRecords echo_dump byteSinkToString ?rs [] = (True, drop 0 ?str)"
    unfolding writeRecords_string by simp
  have "length ?rs = 2" by simp
  then show ?thesis
    using channel_roundtrip [OF string_source.byte_source_axioms [of ?str] written ok] by (simp only:)
qed

text \<open>C13: a stream cut anywhere inside a record is reported as truncated, never as a record
  and never as a clean end of file.\<close>

theorem channel_truncation:
  assumes "byte_source src content" and "sendable dump parse maxPayload r"
    and "record_bytes dump r = content s @ missing" and "content s \<noteq> []" and "missing \<noteq> []"
  shows "\<exists>res s'. readRecord parse src maxPayload s = Some (res, s') \<and> rr_status res = RS_Truncated"
  using byte_source.readRecord_content [OF assms(1), of parse maxPayload s]
    decodeRecord_prefix [OF assms(2-5)] by auto

lemma channel_truncation_witness:
  "\<exists>res s'. readRecord echo_parse (byteSourceFromString (take 25 (frame_serialize sample_frame))) 16 0 =
     Some (res, s') \<and> rr_status res = RS_Truncated"
  by (rule channel_truncation [OF string_source.byte_source_axioms,
        where dump = echo_dump and r = "Inr sample_frame" and missing = "drop 25 (frame_serialize sample_frame)"])
    (simp_all add: sample_frame_def frame_serialize_eq)

end
