(* ===== verification/Stdlib.thy ===== *)
theory Stdlib
  imports Bytes
begin

text \<open>
  The table of stdlib bridging types (\<open>include/topo/Stdlib/Types.h\<close>,
  \<open>lib/Stdlib/Types.cpp\<close>): keywords, arities and byte layouts, and the layouts of
  records and tagged unions on 32-bit arithmetic.  The laws say what a layout has
  to give: aligned fields that do not overlap, inside an aggregate that tiles.
\<close>

section \<open>The table\<close>

datatype TypeId =
    TId_None | TId_Bool | TId_I64 | TId_F64 | TId_String | TId_Optional | TId_Slice | TId_Bytes
  | TId_U8 | TId_I32 | TId_U32 | TId_U64 | TId_F32 | TId_I8 | TId_I16 | TId_U16
  | TId_TimeNs | TId_Uuid | TId_Decimal128 | TId_Record | TId_Array | TId_Union

record AbiLayout =
  al_size :: u32
  al_align :: u32

definition mkLayout :: "u32 \<Rightarrow> u32 \<Rightarrow> AbiLayout" where
  "mkLayout s a = \<lparr>al_size = s, al_align = a\<rparr>"

record StdEntry =
  se_id :: TypeId
  se_keyword :: string
  se_arity :: nat
  se_layout :: AbiLayout
  se_description :: string

definition mkEntry :: "TypeId \<Rightarrow> string \<Rightarrow> nat \<Rightarrow> AbiLayout \<Rightarrow> string \<Rightarrow> StdEntry" where
  "mkEntry i k n l d =
     \<lparr>se_id = i, se_keyword = k, se_arity = n, se_layout = l, se_description = d\<rparr>"

text \<open>The dash of the \<open>bytes\<close> description is a three-byte UTF-8 sequence in the source.\<close>

definition stdEntries :: "StdEntry list" where
  "stdEntries =
     [mkEntry TId_Bool ''bool'' 0 (mkLayout 1 1) ''boolean (u8 0/1)'',
      mkEntry TId_I64 ''i64'' 0 (mkLayout 8 8) ''signed 64-bit integer (LE)'',
      mkEntry TId_F64 ''f64'' 0 (mkLayout 8 8) ''IEEE-754 binary64 (LE)'',
      mkEntry TId_String ''string'' 0 (mkLayout 16 8) ''UTF-8 length-prefixed string (16B)'',
      mkEntry TId_Optional ''optional'' 1 (mkLayout 0 1) ''optional<T> (caller computes layout)'',
      mkEntry TId_Slice ''slice'' 1 (mkLayout 16 8) ''slice<T> non-owning (16B)'',
      mkEntry TId_Bytes ''bytes'' 0 (mkLayout 16 8)
        (''bytes '' @ [CHR 0xE2, CHR 0x80, CHR 0x94] @ '' slice<u8>-isomorphic byte view (16B)''),
      mkEntry TId_U8 ''u8'' 0 (mkLayout 1 1) ''unsigned 8-bit integer'',
      mkEntry TId_I32 ''i32'' 0 (mkLayout 4 4) ''signed 32-bit integer (LE)'',
      mkEntry TId_U32 ''u32'' 0 (mkLayout 4 4) ''unsigned 32-bit integer (LE)'',
      mkEntry TId_U64 ''u64'' 0 (mkLayout 8 8) ''unsigned 64-bit integer (LE)'',
      mkEntry TId_F32 ''f32'' 0 (mkLayout 4 4) ''IEEE-754 binary32 (LE)'',
      mkEntry TId_I8 ''i8'' 0 (mkLayout 1 1) ''signed 8-bit integer'',
      mkEntry TId_I16 ''i16'' 0 (mkLayout 2 2) ''signed 16-bit integer (LE)'',
      mkEntry TId_U16 ''u16'' 0 (mkLayout 2 2) ''unsigned 16-bit integer (LE)'',
      mkEntry TId_TimeNs ''time_ns'' 0 (mkLayout 8 8)
        ''signed 64-bit nanoseconds since the Unix epoch (i64-isomorphic ABI)'',
      mkEntry TId_Uuid ''uuid'' 0 (mkLayout 16 8) ''16-byte RFC 4122 value (raw byte order)'',
      mkEntry TId_Decimal128 ''decimal128'' 0 (mkLayout 16 16)
        ''16-byte IEEE 754-2008 decimal128 value (raw bytes; host interprets)'',
      mkEntry TId_Record ''record'' 0 (mkLayout 0 1)
        ''record<...> named-field aggregate (caller computes layout)'',
      mkEntry TId_Array ''array'' 0 (mkLayout 0 1)
        ''array<T,N> fixed inline buffer (caller computes layout)'',
      mkEntry TId_Union ''union'' 0 (mkLayout 0 1)
        ''union<...> tagged union (caller computes layout)'']"

definition findById :: "TypeId \<Rightarrow> StdEntry option" where
  "findById i = find (\<lambda>e. se_id e = i) stdEntries"

definition keywordOf :: "TypeId \<Rightarrow> string" where
  "keywordOf i = (case findById i of Some e \<Rightarrow> se_keyword e | None \<Rightarrow> [])"

definition fromKeyword :: "string \<Rightarrow> TypeId" where
  "fromKeyword name =
     (case find (\<lambda>e. name = se_keyword e) stdEntries of Some e \<Rightarrow> se_id e | None \<Rightarrow> TId_None)"

definition isStdlibKeyword :: "string \<Rightarrow> bool" where
  "isStdlibKeyword name \<longleftrightarrow> fromKeyword name \<noteq> TId_None"

definition typeParamArity :: "TypeId \<Rightarrow> nat" where
  "typeParamArity i = (case findById i of Some e \<Rightarrow> se_arity e | None \<Rightarrow> 0)"

definition layoutOf :: "TypeId \<Rightarrow> AbiLayout" where
  "layoutOf i = (case findById i of Some e \<Rightarrow> se_layout e | None \<Rightarrow> mkLayout 0 1)"

definition descriptionOf :: "TypeId \<Rightarrow> string" where
  "descriptionOf i = (case findById i of Some e \<Rightarrow> se_description e | None \<Rightarrow> [])"

section \<open>Aggregate layouts\<close>

definition alignUp :: "u32 \<Rightarrow> u32 \<Rightarrow> u32" where
  "alignUp offset align = (offset + align - 1) div align * align"

definition effAlign :: "AbiLayout \<Rightarrow> u32" where
  "effAlign l = (if al_align l < 1 then 1 else al_align l)"

fun recordLoop :: "AbiLayout list \<Rightarrow> u32 \<Rightarrow> u32 \<Rightarrow> u32 \<times> u32" where
  "recordLoop [] offset maxAlign = (offset, maxAlign)"
| "recordLoop (f # fs) offset maxAlign =
     (let a = effAlign f;
          offset' = alignUp offset a + al_size f
      in recordLoop fs offset' (if a > maxAlign then a else maxAlign))"

definition composeRecordLayout :: "AbiLayout list \<Rightarrow> AbiLayout" where
  "composeRecordLayout fs =
     (case recordLoop fs 0 1 of
        (offset, maxAlign) \<Rightarrow>
          let total = alignUp offset maxAlign in
          mkLayout (if total = 0 then 1 else total) maxAlign)"

fun variantLoop :: "AbiLayout list \<Rightarrow> u32 \<Rightarrow> u32 \<Rightarrow> u32 \<times> u32" where
  "variantLoop [] maxSize maxAlign = (maxSize, maxAlign)"
| "variantLoop (v # vs) maxSize maxAlign =
     variantLoop vs (if al_size v > maxSize then al_size v else maxSize)
       (if effAlign v > maxAlign then effAlign v else maxAlign)"

definition composeUnionLayout :: "AbiLayout \<Rightarrow> AbiLayout list \<Rightarrow> AbiLayout" where
  "composeUnionLayout tag variants =
     (let tagAlign = effAlign tag in
      case variantLoop variants 0 1 of
        (maxVariantSize, maxVariantAlign) \<Rightarrow>
          let variantOffset = alignUp (al_size tag) maxVariantAlign;
              aggAlign = (if tagAlign > maxVariantAlign then tagAlign else maxVariantAlign);
              total = alignUp (variantOffset + maxVariantSize) aggAlign
          in mkLayout (if total = 0 then 1 else total) aggAlign)"

section \<open>Rounding up\<close>

definition align_up :: "nat \<Rightarrow> nat \<Rightarrow> nat" where
  "align_up n a = (n + a - 1) div a * a"

lemma align_up_dvd [simp]: "a dvd align_up n a"
  by (simp add: align_up_def)

lemma align_up_bounds:
  assumes "0 < a"
  shows "n \<le> align_up n a" and "align_up n a < n + a"
proof -
  have e: "align_up n a + (n + a - 1) mod a = n + a - 1"
    by (simp add: align_up_def)
  have "(n + a - 1) mod a < a" using assms by simp
  with e assms show "n \<le> align_up n a" "align_up n a < n + a" by linarith+
qed

lemma align_up_0 [simp]: "0 < a \<Longrightarrow> align_up n a = 0 \<longleftrightarrow> n = 0"
  using align_up_bounds [of a n] by (auto simp: align_up_def)

lemma unat_alignUp:
  assumes "unat n + unat a < 2 ^ 32" and "0 < a"
  shows "unat (alignUp n a) = align_up (unat n) (unat a)"
proof -
  have a: "0 < unat a" using assms(2) by (simp add: word_less_nat_alt)
  have "unat (n + a) = unat n + unat a" using assms(1) by (simp add: unat_word_ariths)
  moreover have "1 \<le> n + a" using calculation a by (simp add: word_le_nat_alt)
  ultimately have s: "unat (n + a - 1) = unat n + unat a - 1" by (simp add: unat_sub)
  then have d: "unat ((n + a - 1) div a) = (unat n + unat a - 1) div unat a" by (simp add: unat_div_distrib)
  have "(unat n + unat a - 1) div unat a * unat a < 2 ^ 32"
    using align_up_bounds [OF a, of "unat n"] assms(1) by (simp add: align_up_def)
  with d show ?thesis by (simp add: alignUp_def align_up_def unat_word_ariths)
qed

section \<open>What a layout gives\<close>

text \<open>
  The alignment of an aggregate, an upper bound on the room its parts can take, and
  the tightest placement of fields in order: every field at the first multiple of
  its alignment after the one before it.
\<close>

definition align_of :: "AbiLayout list \<Rightarrow> nat" where
  "align_of fs = fold (\<lambda>f m. max (unat (effAlign f)) m) fs 1"

definition room_of :: "AbiLayout list \<Rightarrow> nat" where
  "room_of fs = sum_list (map (\<lambda>f. unat (al_size f) + unat (effAlign f)) fs)"

fun placed :: "AbiLayout list \<Rightarrow> nat list \<Rightarrow> nat \<Rightarrow> nat \<Rightarrow> bool" where
  "placed [] [] p e \<longleftrightarrow> p = e"
| "placed (f # fs) (q # qs) p e \<longleftrightarrow>
     unat (effAlign f) dvd q \<and> p \<le> q \<and> q < p + unat (effAlign f) \<and> placed fs qs (q + unat (al_size f)) e"
| "placed _ _ _ _ \<longleftrightarrow> False"

lemma effAlign_pos [simp]: "0 < effAlign l" "0 < unat (effAlign l)"
proof -
  show "0 < effAlign l" by (simp add: effAlign_def not_less word_gt_0)
  then show "0 < unat (effAlign l)" by (simp add: word_less_nat_alt)
qed

lemma unat_if_max: "unat (if a > b then a else b) = max (unat a) (unat (b :: u32))"
  by (auto simp: word_less_nat_alt)

lemma align_fold: "fold (\<lambda>f m. max (unat (effAlign f)) m) fs (max k m) =
    max k (fold (\<lambda>f m. max (unat (effAlign f)) m) fs m)"
  by (induction fs arbitrary: m) (simp_all add: max.left_commute)

lemma align_of_Cons: "align_of (f # fs) = max (unat (effAlign f)) (align_of fs)"
  using align_fold [of fs "unat (effAlign f)" 1] by (simp add: align_of_def)

lemma align_of_pos [simp]: "0 < align_of fs"
  by (induction fs) (simp_all add: align_of_Cons, simp add: align_of_def)

lemma align_of_ge: "f \<in> set fs \<Longrightarrow> unat (effAlign f) \<le> align_of fs"
  by (induction fs) (auto simp: align_of_Cons)

lemma recordLoop_places:
  "unat p + room_of fs < 2 ^ 32 \<Longrightarrow> 1 \<le> unat m \<Longrightarrow>
   \<exists>qs. placed fs qs (unat p) (unat (fst (recordLoop fs p m))) \<and>
     unat (snd (recordLoop fs p m)) = max (unat m) (align_of fs) \<and>
     unat (fst (recordLoop fs p m)) \<le> unat p + room_of fs"
proof (induction fs arbitrary: p m)
  case Nil
  then show ?case by (intro exI [of _ "[]"]) (auto simp: align_of_def room_of_def)
next
  case (Cons f fs)
  let ?a = "effAlign f"
  let ?q = "alignUp p ?a" let ?p' = "?q + al_size f"
  have r: "room_of (f # fs) = unat (al_size f) + unat ?a + room_of fs" by (simp add: room_of_def)
  have q: "unat ?q = align_up (unat p) (unat ?a)"
    using Cons.prems r by (intro unat_alignUp) auto
  have b: "unat p \<le> unat ?q" "unat ?q < unat p + unat ?a"
    using align_up_bounds [of "unat ?a" "unat p"] q by auto
  have p': "unat ?p' = unat ?q + unat (al_size f)"
    using b Cons.prems r by (simp add: unat_word_ariths)
  have "unat ?p' + room_of fs < 2 ^ 32" using p' b Cons.prems r by simp
  moreover have "1 \<le> unat (if ?a > m then ?a else m)"
    using Cons.prems(2) unfolding unat_if_max by simp
  ultimately have "\<exists>qs. placed fs qs (unat ?p') (unat (fst (recordLoop fs ?p' (if ?a > m then ?a else m)))) \<and>
      unat (snd (recordLoop fs ?p' (if ?a > m then ?a else m))) =
        max (unat (if ?a > m then ?a else m)) (align_of fs) \<and>
      unat (fst (recordLoop fs ?p' (if ?a > m then ?a else m))) \<le> unat ?p' + room_of fs"
    by (rule Cons.IH)
  then obtain qs where
    "placed fs qs (unat ?p') (unat (fst (recordLoop fs ?p' (if ?a > m then ?a else m))))"
    "unat (snd (recordLoop fs ?p' (if ?a > m then ?a else m))) =
       max (unat (if ?a > m then ?a else m)) (align_of fs)"
    "unat (fst (recordLoop fs ?p' (if ?a > m then ?a else m))) \<le> unat ?p' + room_of fs" by blast
  then show ?case
    using b p' q r
    by (intro exI [of _ "unat ?q # qs"])
      (simp add: Let_def unat_if_max align_of_Cons max.assoc max.left_commute)
qed

lemma variantLoop_max:
  "unat (fst (variantLoop vs sz al)) = fold (\<lambda>v m. max (unat (al_size v)) m) vs (unat sz) \<and>
   unat (snd (variantLoop vs sz al)) = fold (\<lambda>v m. max (unat (effAlign v)) m) vs (unat al)"
  by (induction vs sz al rule: variantLoop.induct) (simp_all add: unat_if_max)

lemma fold_max_ge: "v \<in> set vs \<Longrightarrow> g v \<le> fold (\<lambda>v m. max (g v) m) vs (k :: nat)"
  "k \<le> fold (\<lambda>v m. max (g v) m) vs k"
proof (induction vs arbitrary: k)
  case (Cons w vs)
  { case 1
    then show ?case using Cons(1) Cons(2) [of "max (g w) k"] by (auto intro: order_trans) }
  { case 2
    then show ?case using Cons(2) [of "max (g w) k"] by (auto intro: order_trans) }
qed simp_all

section \<open>Properties\<close>

text \<open>C39: a record's layout is the tightest natural-alignment layout of its fields in declaration
  order.  Unless 32-bit offsets overflow, there is a placement with every field at the first
  suitable multiple of its alignment, the aggregate's alignment is the largest field
  alignment, and its size is the end of the last field rounded up to that alignment; a
  record whose fields take no room at all still has size one.\<close>

theorem record_layout:
  assumes "room_of fs + align_of fs < 2 ^ 32"
  shows "\<exists>qs e. placed fs qs 0 e \<and> unat (al_align (composeRecordLayout fs)) = align_of fs \<and>
    unat (al_size (composeRecordLayout fs)) = (if e = 0 then 1 else align_up e (align_of fs))"
proof -
  obtain p m where l: "recordLoop fs 0 1 = (p, m)" by fastforce
  obtain qs where qs: "placed fs qs 0 (unat p)" "unat m = max 1 (align_of fs)" "unat p \<le> room_of fs"
    using recordLoop_places [of 0 fs 1] assms l by auto
  then have m: "unat m = align_of fs" using align_of_pos [of fs] by simp
  then have "0 < m" using align_of_pos [of fs] by (simp add: word_less_nat_alt)
  then have t: "unat (alignUp p m) = align_up (unat p) (align_of fs)"
    using unat_alignUp [of p m] qs(3) assms m by simp
  then have "unat (alignUp p m) = 0 \<longleftrightarrow> unat p = 0" by (simp only: align_up_0 [OF align_of_pos])
  then have "alignUp p m = 0 \<longleftrightarrow> unat p = 0" by (simp add: unat_eq_0)
  with qs(1) m t l show ?thesis
    by (intro exI [of _ qs] exI [of _ "unat p"])
      (simp add: composeRecordLayout_def mkLayout_def Let_def)
qed

lemma record_layout_witness:
  "\<exists>qs e. placed [mkLayout 1 1, mkLayout 8 8, mkLayout 2 2] qs 0 e \<and>
     unat (al_align (composeRecordLayout [mkLayout 1 1, mkLayout 8 8, mkLayout 2 2])) = 8 \<and>
     unat (al_size (composeRecordLayout [mkLayout 1 1, mkLayout 8 8, mkLayout 2 2])) =
       (if e = 0 then 1 else align_up e 8)"
proof -
  let ?fs = "[mkLayout 1 1, mkLayout 8 8, mkLayout 2 2]"
  have "align_of ?fs = 8" "room_of ?fs + 8 < 2 ^ 32"
    by (simp_all add: align_of_def room_of_def effAlign_def mkLayout_def)
  then show ?thesis using record_layout [of ?fs] by (simp only:)
qed

text \<open>C40: a tagged union keeps its tag and its variants apart and has room for each variant.
  Unless 32-bit offsets overflow, the variants share an offset that lies after the tag and is
  a multiple of the largest variant alignment, every variant fits between that offset and
  the union's end, and the union's alignment is the largest of all.\<close>

theorem union_layout:
  assumes "unat (al_size tag) + align_of vs + room_of vs + align_of (tag # vs) < 2 ^ 32"
  shows "\<exists>off. align_of vs dvd off \<and> unat (al_size tag) \<le> off \<and>
    off < unat (al_size tag) + align_of vs \<and>
    (\<forall>v \<in> set vs. off + unat (al_size v) \<le> unat (al_size (composeUnionLayout tag vs))) \<and>
    unat (al_align (composeUnionLayout tag vs)) = align_of (tag # vs) \<and>
    1 \<le> unat (al_size (composeUnionLayout tag vs))"
proof -
  obtain z a where l: "variantLoop vs 0 1 = (z, a)" by fastforce
  have a: "unat a = align_of vs" and z: "unat z = fold (\<lambda>v m. max (unat (al_size v)) m) vs 0"
    using variantLoop_max [of vs 0 1] l by (simp_all add: align_of_def)
  have zr: "fold (\<lambda>v m. max (unat (al_size v)) m) vs k \<le> k + room_of vs" for k
  proof (induction vs arbitrary: k)
    case (Cons v vs)
    from Cons [of "max (unat (al_size v)) k"] show ?case by (simp add: room_of_def)
  qed (simp add: room_of_def)
  let ?off = "alignUp (al_size tag) a"
  let ?g = "if effAlign tag > a then effAlign tag else a"
  have g: "unat ?g = align_of (tag # vs)" unfolding unat_if_max by (simp add: a align_of_Cons)
  have pos: "0 < a" "0 < ?g"
    using align_of_pos [of vs] align_of_pos [of "tag # vs"] a g by (simp_all add: word_less_nat_alt)
  have off: "unat ?off = align_up (unat (al_size tag)) (align_of vs)"
    using unat_alignUp [of "al_size tag" a] assms a pos by simp
  note ob = align_up_bounds [OF align_of_pos, of "unat (al_size tag)" vs, folded off]
  have sum: "unat (?off + z) = unat ?off + unat z"
    using ob z zr [of 0] assms by (simp add: unat_word_ariths)
  have tot: "unat (alignUp (?off + z) ?g) = align_up (unat ?off + unat z) (align_of (tag # vs))"
    using unat_alignUp [of "?off + z" ?g] sum ob z zr [of 0] assms g pos by simp
  have size: "unat (al_size (composeUnionLayout tag vs)) =
      (if alignUp (?off + z) ?g = 0 then 1 else unat (alignUp (?off + z) ?g))"
    and al: "al_align (composeUnionLayout tag vs) = ?g"
    by (simp_all add: composeUnionLayout_def l Let_def mkLayout_def)
  have ge: "unat ?off + unat z \<le> unat (al_size (composeUnionLayout tag vs))"
    using align_up_bounds(1) [OF align_of_pos, of "unat ?off + unat z" "tag # vs"] tot size
    by (auto simp: unat_eq_0 split: if_splits)
  have one: "1 \<le> unat (al_size (composeUnionLayout tag vs))"
    using size unat_eq_zero [of "alignUp (?off + z) ?g"] by (auto simp: Suc_le_eq neq0_conv [symmetric] simp del: neq0_conv)
  have fit: "unat ?off + unat (al_size v) \<le> unat (al_size (composeUnionLayout tag vs))"
    if "v \<in> set vs" for v
    using fold_max_ge(1) [OF that, of "\<lambda>v. unat (al_size v)" 0] z ge by simp
  show ?thesis
    using ob off fit one al g by (intro exI [of _ "unat ?off"]) auto
qed

lemma union_layout_witness:
  "\<exists>off. 8 dvd off \<and> (4 :: nat) \<le> off \<and> off < 12 \<and>
     unat (al_align (composeUnionLayout (mkLayout 4 4) [mkLayout 8 8, mkLayout 1 1])) = 8"
proof -
  let ?t = "mkLayout 4 4" and ?vs = "[mkLayout 8 8, mkLayout 1 1]"
  have "align_of ?vs = 8" "room_of ?vs = 18" "align_of (?t # ?vs) = 8" "unat (al_size ?t) = 4"
    by (simp_all add: align_of_def room_of_def effAlign_def mkLayout_def)
  with union_layout [of ?t ?vs] show ?thesis by auto
qed

text \<open>The table is consistent: every type but the none marker has a keyword of its own,
  looking the keyword up gives the type back, and a keyword that is not in the table is
  no stdlib type.\<close>

theorem stdlib_table:
  "(i \<noteq> TId_None \<longleftrightarrow> findById i \<noteq> None) \<and> (i \<noteq> TId_None \<longrightarrow> fromKeyword (keywordOf i) = i) \<and>
   (isStdlibKeyword w \<longleftrightarrow> (\<exists>j. j \<noteq> TId_None \<and> w = keywordOf j))"
proof -
  have all: "(j \<noteq> TId_None \<longleftrightarrow> findById j \<noteq> None) \<and> (j \<noteq> TId_None \<longrightarrow> fromKeyword (keywordOf j) = j)" for j
    by (cases j) (simp_all add: findById_def keywordOf_def fromKeyword_def stdEntries_def mkEntry_def)
  have "\<exists>j. j \<noteq> TId_None \<and> w = keywordOf j" if "isStdlibKeyword w"
  proof -
    from that obtain e where f: "find (\<lambda>e. w = se_keyword e) stdEntries = Some e" "se_id e \<noteq> TId_None"
      by (auto simp: isStdlibKeyword_def fromKeyword_def split: option.splits)
    then have "e \<in> set stdEntries" "w = se_keyword e"
      by (auto simp: find_Some_iff)
    moreover have "\<forall>e \<in> set stdEntries. keywordOf (se_id e) = se_keyword e"
      by (simp add: stdEntries_def keywordOf_def findById_def mkEntry_def)
    ultimately show ?thesis using f(2) by metis
  qed
  with all show ?thesis by (auto simp: isStdlibKeyword_def)
qed

lemma stdlib_table_witness:
  "fromKeyword (keywordOf TId_Decimal128) = TId_Decimal128"
  using stdlib_table [of TId_Decimal128] by simp

end
