(* ===== verification/AST.thy ===== *)
theory AST
  imports Tokens Stdlib
begin

text \<open>
  The syntax tree (\<open>include/topo/AST/ASTNode.h\<close>): types, parameters, modifiers,
  expressions and declarations.  A class hierarchy behind \<open>unique_ptr\<close> is a datatype
  with one constructor per node class; a pointer that may be null is an option.  A
  \<open>RecordField\<close> holds its type directly: the source boxes it in a vector of exactly one
  element only because the type is incomplete there.
\<close>

section \<open>Types\<close>

datatype OwnershipKind = Own_None | Own_Owned | Own_Shared | Own_Weak

fun ownershipKindName :: "OwnershipKind \<Rightarrow> string" where
  "ownershipKindName Own_None = ''none''"
| "ownershipKindName Own_Owned = ''owned''"
| "ownershipKindName Own_Shared = ''shared''"
| "ownershipKindName Own_Weak = ''weak''"

datatype TypeModifier = TM_None | TM_Ref | TM_Ptr

datatype TypeNode = TypeNode
  (ty_isConst: bool)
  (ty_ownership: OwnershipKind)
  (ty_nameParts: "string list")
  (ty_modifier: TypeModifier)
  (ty_location: SourceLocation)
  (ty_templateArgs: "TypeNode list")
  (ty_isTemplateParam: bool)
  (ty_isVariadic: bool)
  (ty_nonTypeValue: "int option")
  (ty_stdlibId: TypeId)
  (ty_recordFields: "RecordField list")
  (ty_assocBindings: "RecordField list")
  (ty_hrtbLifetimes: "string list")
and RecordField = RecordField
  (rf_name: string)
  (rf_location: SourceLocation)
  (rf_type: TypeNode)

text \<open>A default-constructed \<open>TypeNode\<close>, and one with a name only.\<close>

definition named_type :: "string list \<Rightarrow> TypeNode" where
  "named_type parts =
     TypeNode False Own_None parts TM_None default_loc [] False False None TId_None [] [] []"

definition empty_type :: TypeNode where
  "empty_type = named_type []"

definition ty_isStdlib :: "TypeNode \<Rightarrow> bool" where
  "ty_isStdlib t \<longleftrightarrow> ty_stdlibId t \<noteq> TId_None"

text \<open>The loop that puts a separator before every element but the first.\<close>

fun join :: "string \<Rightarrow> string list \<Rightarrow> string" where
  "join sep [] = []"
| "join sep [s] = s"
| "join sep (s # t # ts) = s @ sep @ join sep (t # ts)"

primrec ty_toString :: "TypeNode \<Rightarrow> string" and rf_toString :: "RecordField \<Rightarrow> string \<times> string" where
  "ty_toString (TypeNode c own parts md loc targs itp var ntv sid rfs asb hrtb) =
     (if c then ''const '' else []) @
     (if own \<noteq> Own_None then ownershipKindName own @ '' '' else []) @
     join ''::'' parts @
     (if rfs \<noteq> [] then
        ''<'' @ join '', '' (map (\<lambda>p. fst p @ '': '' @ snd p) (map rf_toString rfs)) @ ''>''
      else if targs \<noteq> [] \<or> asb \<noteq> [] then
        ''<'' @ join '', '' (map ty_toString targs @
                 map (\<lambda>p. fst p @ '' = '' @ snd p) (map rf_toString asb)) @ ''>''
      else []) @
     (case md of TM_Ref \<Rightarrow> ''&'' | TM_Ptr \<Rightarrow> ''*'' | TM_None \<Rightarrow> [])"
| "rf_toString (RecordField n l t) = (n, ty_toString t)"

record Parameter =
  pm_type :: TypeNode
  pm_name :: string

definition param_toString :: "Parameter \<Rightarrow> string" where
  "param_toString p = ty_toString (pm_type p) @ '' '' @ pm_name p"

record ReturnParam =
  rp_type :: TypeNode
  rp_name :: string
  rp_loc :: SourceLocation

definition returnParam_toString :: "ReturnParam \<Rightarrow> string" where
  "returnParam_toString p = ty_toString (rp_type p) @ '' '' @ rp_name p"

record ReturnTarget =
  rt_name :: string
  rt_isDiscard :: bool

record ReturnBinding =
  rb_isSingleValue :: bool
  rb_singleName :: string
  rb_targets :: "ReturnTarget list"
  rb_loc :: SourceLocation

record PipelineEdge =
  pe_source :: string
  pe_target :: string
  pe_terminalType :: string
  pe_isTerminal :: bool
  pe_loc :: SourceLocation

datatype TemplateParamKind = TP_TypeParam | TP_NonTypeParam | TP_TemplateTemplateParam | TP_LifetimeParam

datatype TemplateParamDecl = TemplateParamDecl
  (tp_kind: TemplateParamKind)
  (tp_name: string)
  (tp_constraintType: TypeNode)
  (tp_extraBounds: "TypeNode list")
  (tp_isVariadic: bool)
  (tp_innerParams: "TemplateParamDecl list")
  (tp_defaultType: "TypeNode option")
  (tp_defaultValue: "string option")
  (tp_location: SourceLocation)

section \<open>Modifiers, visibility and hints\<close>

datatype ModifierKind =
    MK_Stage | MK_Const | MK_Static | MK_Explicit | MK_Ownership
  | MK_Constraint | MK_Adapt | MK_Lifetime | MK_Priority | MK_Comptime | MK_External
  | MK_TypeFn | MK_Instantiate | MK_Handler | MK_Flow

record ModifierData =
  md_kind :: ModifierKind
  md_location :: SourceLocation
  md_args :: "string list"

definition hasModifier :: "ModifierKind \<Rightarrow> ModifierData list \<Rightarrow> bool" where
  "hasModifier k ms \<longleftrightarrow> (\<exists>m \<in> set ms. md_kind m = k)"

definition findModifier :: "ModifierKind \<Rightarrow> ModifierData list \<Rightarrow> ModifierData option" where
  "findModifier k ms = find (\<lambda>m. md_kind m = k) ms"

datatype Visibility = Vis_Public | Vis_Protected | Vis_Private | Vis_Internal | Vis_Ignore

fun visibilityName :: "Visibility \<Rightarrow> string" where
  "visibilityName Vis_Public = ''public''"
| "visibilityName Vis_Protected = ''protected''"
| "visibilityName Vis_Private = ''private''"
| "visibilityName Vis_Internal = ''internal''"
| "visibilityName Vis_Ignore = ''ignore''"

datatype PriorityLevel = Pri_Critical | Pri_High | Pri_Normal | Pri_Low | Pri_Background

fun priorityLevelName :: "PriorityLevel \<Rightarrow> string" where
  "priorityLevelName Pri_Critical = ''critical''"
| "priorityLevelName Pri_High = ''high''"
| "priorityLevelName Pri_Normal = ''normal''"
| "priorityLevelName Pri_Low = ''low''"
| "priorityLevelName Pri_Background = ''background''"

record CardinalityHint =
  ch_min :: int
  ch_max :: int

datatype AccessPattern = Acc_None | Acc_Streaming | Acc_Random | Acc_Tiled | Acc_GatherScatter

section \<open>Expressions\<close>

datatype Expr =
    BinaryExpr SourceLocation TokenKind Expr Expr
  | UnaryExpr SourceLocation TokenKind Expr
  | LiteralExpr SourceLocation string TokenKind
  | IdentifierExpr SourceLocation string
  | CallExpr SourceLocation string "Expr list"

datatype OverloadableOp =
    Op_Plus | Op_Minus | Op_Star | Op_Slash | Op_Percent | Op_EqEq | Op_NotEq | Op_Less | Op_Greater
  | Op_LessEq | Op_GreaterEq | Op_Amp | Op_Pipe | Op_Caret | Op_Tilde | Op_ShiftLeft | Op_ShiftRight
  | Op_AmpAmp | Op_PipePipe | Op_Bang | Op_Subscript | Op_Call | Op_FatArrow

fun overloadableOpName :: "OverloadableOp \<Rightarrow> string" where
  "overloadableOpName Op_Plus = ''+''"
| "overloadableOpName Op_Minus = ''-''"
| "overloadableOpName Op_Star = ''*''"
| "overloadableOpName Op_Slash = ''/''"
| "overloadableOpName Op_Percent = ''%''"
| "overloadableOpName Op_EqEq = ''==''"
| "overloadableOpName Op_NotEq = ''!=''"
| "overloadableOpName Op_Less = ''<''"
| "overloadableOpName Op_Greater = ''>''"
| "overloadableOpName Op_LessEq = ''<=''"
| "overloadableOpName Op_GreaterEq = ''>=''"
| "overloadableOpName Op_Amp = ''&''"
| "overloadableOpName Op_Pipe = ''|''"
| "overloadableOpName Op_Caret = ''^''"
| "overloadableOpName Op_Tilde = ''~''"
| "overloadableOpName Op_ShiftLeft = ''<<''"
| "overloadableOpName Op_ShiftRight = ''>>''"
| "overloadableOpName Op_AmpAmp = ''&&''"
| "overloadableOpName Op_PipePipe = ''||''"
| "overloadableOpName Op_Bang = ''!''"
| "overloadableOpName Op_Subscript = ''[]''"
| "overloadableOpName Op_Call = ''()''"
| "overloadableOpName Op_FatArrow = ''=>''"

section \<open>Declarations\<close>

record FnDecl =
  fd_returnType :: TypeNode
  fd_name :: string
  fd_params :: "Parameter list"
  fd_isConst :: bool
  fd_isStatic :: bool
  fd_isRustStyle :: bool
  fd_isMultiReturn :: bool
  fd_returnParams :: "ReturnParam list"
  fd_declaredUsedReturns :: "string list"
  fd_hasUsedReturnsClause :: bool
  fd_templateParams :: "TemplateParamDecl list"
  fd_bindingTarget :: "string option"
  fd_priority :: PriorityLevel
  fd_cardinality :: "CardinalityHint option"
  fd_accessPattern :: AccessPattern
  fd_tiledSize :: int
  fd_isConstructor :: bool
  fd_isDestructor :: bool
  fd_isExplicit :: bool
  fd_className :: string
  fd_operatorOp :: "OverloadableOp option"
  fd_comptimeBody :: "Expr option"

definition empty_fn :: FnDecl where
  "empty_fn =
     \<lparr>fd_returnType = empty_type, fd_name = [], fd_params = [], fd_isConst = False,
      fd_isStatic = False, fd_isRustStyle = False, fd_isMultiReturn = False, fd_returnParams = [],
      fd_declaredUsedReturns = [], fd_hasUsedReturnsClause = False, fd_templateParams = [],
      fd_bindingTarget = None, fd_priority = Pri_Normal, fd_cardinality = None,
      fd_accessPattern = Acc_None, fd_tiledSize = 0, fd_isConstructor = False,
      fd_isDestructor = False, fd_isExplicit = False, fd_className = [], fd_operatorOp = None,
      fd_comptimeBody = None\<rparr>"

definition fd_isOperator :: "FnDecl \<Rightarrow> bool" where
  "fd_isOperator d \<longleftrightarrow> fd_operatorOp d \<noteq> None"

definition fd_isComptime :: "FnDecl \<Rightarrow> bool" where
  "fd_isComptime d \<longleftrightarrow> fd_comptimeBody d \<noteq> None"

definition fd_signature :: "FnDecl \<Rightarrow> string" where
  "fd_signature d =
     (if fd_isConstructor d then (if fd_isExplicit d then ''explicit '' else []) @ fd_className d @ ''(''
      else if fd_isDestructor d then ''~'' @ fd_className d @ ''(''
      else
        (case fd_operatorOp d of
           Some op \<Rightarrow> ''fn operator'' @ overloadableOpName op @ ''(''
         | None \<Rightarrow>
             if fd_isRustStyle d then fd_name d @ ''(''
             else ty_toString (fd_returnType d) @ '' '' @ fd_name d @ ''('')) @
     join '', '' (map param_toString (fd_params d)) @ '')'' @
     (if fd_isConst d then '' const'' else []) @
     (if fd_isOperator d then '' -> '' @ ty_toString (fd_returnType d)
      else if fd_isRustStyle d \<and> \<not> fd_isConstructor d \<and> \<not> fd_isDestructor d then
        (if fd_isMultiReturn d
         then '' -> ('' @ join '', '' (map returnParam_toString (fd_returnParams d)) @ '')''
         else '' -> '' @ ty_toString (fd_returnType d))
      else [])"

record OperationDecl =
  od_stage :: int
  od_funcName :: string
  od_varName :: string
  od_expr :: "Expr option"
  od_returnBinding :: "ReturnBinding option"

definition od_isAssignment :: "OperationDecl \<Rightarrow> bool" where
  "od_isAssignment d \<longleftrightarrow> od_varName d \<noteq> []"

definition od_description :: "OperationDecl \<Rightarrow> string" where
  "od_description d =
     (if od_stage d \<ge> 0 then ''stage<'' @ int_to_string (od_stage d) @ ''> '' else []) @
     (if od_isAssignment d then od_varName d @ '' = <expr>''
      else
        [CHR 0x27] @ od_funcName d @ ''()'' @ [CHR 0x27] @
        (case od_returnBinding d of
           None \<Rightarrow> []
         | Some rb \<Rightarrow>
             '' -> '' @
             (if rb_isSingleValue rb then rb_singleName rb
              else ''('' @ join '', '' (map rt_name (rb_targets rb)) @ '')'')))"

record ConstraintMember =
  cm_type :: TypeNode
  cm_name :: string
  cm_params :: "Parameter list"
  cm_isFunction :: bool
  cm_location :: SourceLocation

record AdaptMapping =
  am_memberName :: string
  am_targetName :: string
  am_location :: SourceLocation

record TypeMatchArm =
  ma_pattern :: TypeNode
  ma_result :: TypeNode
  ma_location :: SourceLocation

record DataDecl =
  dd_name :: string
  dd_type :: TypeNode
  dd_importPath :: string
  dd_startFunc :: string
  dd_endFunc :: string
  dd_isOpenEnded :: bool
  dd_isSingleFunc :: bool

definition empty_data :: DataDecl where
  "empty_data =
     \<lparr>dd_name = [], dd_type = empty_type, dd_importPath = [], dd_startFunc = [], dd_endFunc = [],
      dd_isOpenEnded = False, dd_isSingleFunc = False\<rparr>"

datatype DebugInactiveMode = DIM_Default | DIM_Grayed | DIM_Hidden

fun debugInactiveModeName :: "DebugInactiveMode \<Rightarrow> string" where
  "debugInactiveModeName DIM_Default = ''default''"
| "debugInactiveModeName DIM_Grayed = ''grayed''"
| "debugInactiveModeName DIM_Hidden = ''hidden''"

record DebugSliceExpr =
  ds_container :: string
  ds_isSliced :: bool
  ds_start :: "int option"
  ds_end :: "int option"
  ds_location :: SourceLocation

definition ds_toString :: "DebugSliceExpr \<Rightarrow> string" where
  "ds_toString s =
     (if \<not> ds_isSliced s then ds_container s
      else
        let num = (\<lambda>v. case v of Some i \<Rightarrow> int_to_string i | None \<Rightarrow> ''?'') in
        ds_container s @ ''['' @ num (ds_start s) @ ''..'' @ num (ds_end s) @ '']'')"

record DebugViewEntry =
  dv_name :: string
  dv_slice :: DebugSliceExpr
  dv_location :: SourceLocation

record DebugInactiveEntry =
  di_region :: DebugSliceExpr
  di_mode :: DebugInactiveMode
  di_location :: SourceLocation

record DebugRenderRaw =
  dr_method :: string
  dr_rawBody :: string
  dr_location :: SourceLocation

record DebugDecl =
  dbg_target :: string
  dbg_views :: "DebugViewEntry list"
  dbg_summary :: "string option"
  dbg_inactive :: "DebugInactiveEntry list"
  dbg_render :: "DebugRenderRaw list"

text \<open>What a type declaration holds beside its visibility sections.\<close>

record TypeDeclData =
  td_name :: string
  td_templateParams :: "TemplateParamDecl list"
  td_baseClass :: "TypeNode option"
  td_isSpecialization :: bool
  td_isPartialSpecialization :: bool
  td_specializationArgs :: "TypeNode list"
  td_parentConstraint :: "string option"
  td_constraintMembers :: "ConstraintMember list"
  td_adaptConstraintName :: string
  td_adaptTargetType :: TypeNode
  td_adaptMappings :: "AdaptMapping list"
  td_matchTarget :: string
  td_matchArms :: "TypeMatchArm list"

definition empty_typedecl :: "string \<Rightarrow> TypeDeclData" where
  "empty_typedecl n =
     \<lparr>td_name = n, td_templateParams = [], td_baseClass = None, td_isSpecialization = False,
      td_isPartialSpecialization = False, td_specializationArgs = [], td_parentConstraint = None,
      td_constraintMembers = [], td_adaptConstraintName = [], td_adaptTargetType = empty_type,
      td_adaptMappings = [], td_matchTarget = [], td_matchArms = []\<rparr>"

section \<open>Nodes\<close>

text \<open>The base of every node: its location and its modifiers.\<close>

record NodeBase =
  nd_location :: SourceLocation
  nd_modifiers :: "ModifierData list"

definition node_at :: "SourceLocation \<Rightarrow> NodeBase" where
  "node_at l = \<lparr>nd_location = l, nd_modifiers = []\<rparr>"

datatype ASTNode =
    TopoFile NodeBase "ASTNode list"
  | ImportNode NodeBase string "string list"
  | DataDeclNode NodeBase DataDecl
  | NamespaceDecl NodeBase "string list" "ASTNode list" bool
  | VisibilitySection NodeBase Visibility "ASTNode list"
  | FnDeclNode NodeBase FnDecl
  | FnLogicBlock NodeBase string "ASTNode list" "PipelineEdge list" "TemplateParamDecl list"
  | OperationNode NodeBase OperationDecl
  | TypeDeclNode NodeBase TypeDeclData "ASTNode list"
  | IfDecl NodeBase "Expr option" "ASTNode list" "ASTNode list"
  | DebugDeclNode NodeBase DebugDecl
  | ExprNode Expr

definition pathString :: "string list \<Rightarrow> string" where
  "pathString path = join ''::'' path"

definition isStdImport :: "DataDecl \<Rightarrow> bool" where
  "isStdImport d \<longleftrightarrow> dd_importPath d \<noteq> []"

definition isLifetime :: "NodeBase \<Rightarrow> bool" where
  "isLifetime b \<longleftrightarrow> hasModifier MK_Lifetime (nd_modifiers b)"

definition isInstantiate :: "NodeBase \<Rightarrow> bool" where
  "isInstantiate b \<longleftrightarrow> hasModifier MK_Instantiate (nd_modifiers b)"

definition isStaticData :: "NodeBase \<Rightarrow> bool" where
  "isStaticData b \<longleftrightarrow> hasModifier MK_Static (nd_modifiers b)"

definition isTypeAlias :: "NodeBase \<Rightarrow> DataDecl \<Rightarrow> bool" where
  "isTypeAlias b d \<longleftrightarrow>
     dd_name d \<noteq> [] \<and> dd_importPath d = [] \<and> dd_startFunc d = [] \<and> \<not> isInstantiate b"

definition isMemberVar :: "NodeBase \<Rightarrow> DataDecl \<Rightarrow> bool" where
  "isMemberVar b d \<longleftrightarrow>
     dd_name d \<noteq> [] \<and> (dd_importPath d \<noteq> []) = False \<and> dd_startFunc d = [] \<and>
     \<not> isInstantiate b \<and> \<not> isTypeAlias b d"

text \<open>
  As the source writes it, no declaration is ever a member variable: the condition
  asks for everything a type alias has and for not being one.
\<close>

lemma isMemberVar_never: "\<not> isMemberVar b d"
  by (auto simp: isMemberVar_def isTypeAlias_def)

end
