(* ===== verification/ASTPrinter.thy ===== *)
theory ASTPrinter
  imports AST
begin

text \<open>
  \<open>lib/AST/ASTPrinter.cpp\<close>: the tree dump.  The printer writes to a stream; here each
  node's output is the string it writes.
\<close>

definition printIndent :: "nat \<Rightarrow> string" where
  "printIndent indent = concat (replicate indent ''  '')"

definition external_mark :: "NodeBase \<Rightarrow> bool" where
  "external_mark b \<longleftrightarrow> hasModifier MK_External (nd_modifiers b)"

definition dataDecl_line :: "NodeBase \<Rightarrow> DataDecl \<Rightarrow> string" where
  "dataDecl_line b d =
     (if isStdImport d then
        ''StdImportDecl '' @ [DQUOTE] @ dd_importPath d @ [DQUOTE] @
        (if dd_name d \<noteq> [] then '' -> '' @ dd_name d else [])
      else if isLifetime b then
        ''LifetimeDecl '' @ [DQUOTE] @ dd_name d @ [DQUOTE] @ '' = '' @ dd_startFunc d @
        (if dd_endFunc d \<noteq> [] then ''..'' @ dd_endFunc d
         else if dd_isOpenEnded d then ''..'' else [])
      else if isInstantiate b then ''InstantiateDecl '' @ ty_toString (dd_type d)
      else if ty_nameParts (dd_type d) \<noteq> [] \<and> dd_name d \<noteq> [] then
        ''DataDecl '' @ [CHR 0x27] @ dd_name d @ [CHR 0x27] @ '' = '' @ ty_toString (dd_type d)
      else if dd_name d \<noteq> [] then ''DataDecl '' @ [CHR 0x27] @ dd_name d @ [CHR 0x27]
      else ''DataDecl'')"

definition fnDecl_line :: "NodeBase \<Rightarrow> FnDecl \<Rightarrow> string" where
  "fnDecl_line b d =
     (if external_mark b then ''external '' else []) @
     (if fd_isConstructor d then ''ConstructorDecl '' @ [CHR 0x27] @ fd_signature d @ [CHR 0x27]
      else if fd_isDestructor d then ''DestructorDecl '' @ [CHR 0x27] @ fd_signature d @ [CHR 0x27]
      else if fd_isOperator d then ''OperatorDecl '' @ fd_signature d
      else if fd_isComptime d then
        ''ComptimeFn '' @ [DQUOTE] @ fd_name d @ [DQUOTE] @ '' -> '' @ ty_toString (fd_returnType d)
      else if hasModifier MK_Handler (nd_modifiers b) then
        ''HandlerDecl '' @ [CHR 0x27] @ fd_signature d @ [CHR 0x27]
      else ''FunctionDecl '' @ [CHR 0x27] @ fd_signature d @ [CHR 0x27])"

definition import_line :: "string \<Rightarrow> string list \<Rightarrow> string" where
  "import_line path syms =
     ''Import '' @ [CHR 0x27] @ path @ ''.topo'' @ [CHR 0x27] @
     (if syms \<noteq> [] then '' { '' @ join '', '' syms @ '' }'' else [])"

definition edge_line :: "PipelineEdge \<Rightarrow> string" where
  "edge_line e =
     ''Edge '' @ pe_source e @ '' -> '' @
     (if pe_isTerminal e then pe_terminalType e @ '' [terminal]'' else pe_target e)"

definition constraintMember_line :: "ConstraintMember \<Rightarrow> string" where
  "constraintMember_line m =
     (if cm_isFunction m then ''FunctionReq'' else ''MemberReq'') @ '' '' @
     ty_toString (cm_type m) @ '' '' @ cm_name m @
     (if cm_isFunction m then ''('' @ join '', '' (map param_toString (cm_params m)) @ '')'' else [])"

text \<open>The lines of a type declaration, each with its depth below the node's own.\<close>

definition typeDecl_lines :: "NodeBase \<Rightarrow> TypeDeclData \<Rightarrow> (nat \<times> string) list" where
  "typeDecl_lines b d =
     (if hasModifier MK_Constraint (nd_modifiers b) then
        (0, ''ConstraintDecl '' @ [DQUOTE] @ td_name d @ [DQUOTE] @
            (case td_parentConstraint d of Some p \<Rightarrow> '' : '' @ p | None \<Rightarrow> [])) #
        map (\<lambda>m. (1, constraintMember_line m)) (td_constraintMembers d)
      else if hasModifier MK_Adapt (nd_modifiers b) then
        (0, ''AdaptDecl '' @ [DQUOTE] @ td_adaptConstraintName d @ [DQUOTE] @ '' for '' @
            ty_toString (td_adaptTargetType d)) #
        map (\<lambda>m. (1, am_memberName m @ '' = '' @ am_targetName m)) (td_adaptMappings d)
      else if hasModifier MK_TypeFn (nd_modifiers b) then
        [(0, ''TypeFn '' @ [DQUOTE] @ td_name d @ [DQUOTE] @ '' match '' @ td_matchTarget d @ '' ('' @
             nat_to_string (length (td_matchArms d)) @ '' arms)'')]
      else
        [(0, ''TypeDecl '' @ [CHR 0x27] @ td_name d @ [CHR 0x27] @
             (if external_mark b then '' [external]'' else []) @
             (case td_baseClass d of Some t \<Rightarrow> '' : public '' @ ty_toString t | None \<Rightarrow> []))])"

definition prints_sections :: "NodeBase \<Rightarrow> bool" where
  "prints_sections b \<longleftrightarrow>
     \<not> hasModifier MK_Constraint (nd_modifiers b) \<and> \<not> hasModifier MK_Adapt (nd_modifiers b) \<and>
     \<not> hasModifier MK_TypeFn (nd_modifiers b)"

definition debugDecl_lines :: "DebugDecl \<Rightarrow> (nat \<times> string) list" where
  "debugDecl_lines d =
     (0, ''DebugDecl '' @ [CHR 0x27] @ dbg_target d @ [CHR 0x27]) #
     map (\<lambda>v. (1, ''view '' @ dv_name v @ '' = '' @ ds_toString (dv_slice v))) (dbg_views d) @
     (case dbg_summary d of Some s \<Rightarrow> [(1, ''summary '' @ [DQUOTE] @ s @ [DQUOTE])] | None \<Rightarrow> []) @
     map (\<lambda>r. (1, ''inactive_region '' @ ds_toString (di_region r) @ '' ['' @
                  debugInactiveModeName (di_mode r) @ '']'')) (dbg_inactive d) @
     map (\<lambda>r. (1, ''render method='' @ (if dr_method r = [] then ''?'' else dr_method r) @ '' ('' @
                  nat_to_string (length (dr_rawBody r)) @ '' bytes raw)'')) (dbg_render d)"

text \<open>One line of output at an indentation.\<close>

definition out_line :: "nat \<Rightarrow> string \<Rightarrow> string" where
  "out_line indent s = printIndent indent @ s @ [LF]"

definition out_lines :: "nat \<Rightarrow> (nat \<times> string) list \<Rightarrow> string" where
  "out_lines indent ls = concat (map (\<lambda>(d, s). out_line (indent + d) s) ls)"

fun printNode :: "ASTNode \<Rightarrow> nat \<Rightarrow> string" where
  "printNode (TopoFile b decls) indent =
     out_line indent ''TopoFile'' @ concat (map (\<lambda>n. printNode n (indent + 1)) decls)"
| "printNode (ImportNode b path syms) indent = out_line indent (import_line path syms)"
| "printNode (DataDeclNode b d) indent = out_line indent (dataDecl_line b d)"
| "printNode (NamespaceDecl b path sections internal) indent =
     out_line indent (''NamespaceDecl '' @ [CHR 0x27] @ pathString path @ [CHR 0x27] @
       (if internal then '' [internal]'' else [])) @
     concat (map (\<lambda>n. printNode n (indent + 1)) sections)"
| "printNode (VisibilitySection b v members) indent =
     out_line indent (''VisibilitySection '' @ [CHR 0x27] @ visibilityName v @ [CHR 0x27]) @
     concat (map (\<lambda>n. printNode n (indent + 1)) members)"
| "printNode (FnDeclNode b d) indent = out_line indent (fnDecl_line b d)"
| "printNode (FnLogicBlock b name ops edges tps) indent =
     (if edges \<noteq> [] then
        out_line indent ((if hasModifier MK_Flow (nd_modifiers b) then ''FlowBlock '' else ''PipelineBlock '') @
          [CHR 0x27] @ name @ [CHR 0x27]) @
        concat (map (\<lambda>e. out_line (indent + 1) (edge_line e)) edges)
      else
        out_line indent (''FunctionLogicBlock '' @ [CHR 0x27] @ name @ [CHR 0x27]) @
        concat (map (\<lambda>n. printNode n (indent + 1)) ops))"
| "printNode (OperationNode b d) indent = out_line indent (''OperationDecl '' @ od_description d)"
| "printNode (TypeDeclNode b d sections) indent =
     out_lines indent (typeDecl_lines b d) @
     (if prints_sections b then concat (map (\<lambda>n. printNode n (indent + 1)) sections) else [])"
| "printNode (IfDecl b c thenBody elseBody) indent =
     out_line indent (''IfDecl'' @ (if hasModifier MK_Comptime (nd_modifiers b) then '' [comptime]'' else [])) @
     out_line (indent + 1) (''Then: '' @ nat_to_string (length thenBody) @ '' members'') @
     (if elseBody \<noteq> []
      then out_line (indent + 1) (''Else: '' @ nat_to_string (length elseBody) @ '' members'') else [])"
| "printNode (DebugDeclNode b d) indent = out_lines indent (debugDecl_lines d)"
| "printNode (ExprNode e) indent = out_line indent ''Expr''"

definition printAST :: "ASTNode \<Rightarrow> string" where
  "printAST node = printNode node 0"

section \<open>The dump as an outline\<close>

text \<open>The lines of a node with their depths, independent of any indentation.\<close>

fun outline :: "ASTNode \<Rightarrow> (nat \<times> string) list" where
  "outline (TopoFile b decls) = (0, ''TopoFile'') # concat (map (\<lambda>n. map (apfst Suc) (outline n)) decls)"
| "outline (NamespaceDecl b path sections internal) =
     (0, ''NamespaceDecl '' @ [CHR 0x27] @ pathString path @ [CHR 0x27] @
         (if internal then '' [internal]'' else [])) #
     concat (map (\<lambda>n. map (apfst Suc) (outline n)) sections)"
| "outline (VisibilitySection b v members) =
     (0, ''VisibilitySection '' @ [CHR 0x27] @ visibilityName v @ [CHR 0x27]) #
     concat (map (\<lambda>n. map (apfst Suc) (outline n)) members)"
| "outline (FnLogicBlock b name ops edges tps) =
     (if edges \<noteq> [] then
        (0, (if hasModifier MK_Flow (nd_modifiers b) then ''FlowBlock '' else ''PipelineBlock '') @
            [CHR 0x27] @ name @ [CHR 0x27]) # map (\<lambda>e. (1, edge_line e)) edges
      else
        (0, ''FunctionLogicBlock '' @ [CHR 0x27] @ name @ [CHR 0x27]) #
        concat (map (\<lambda>n. map (apfst Suc) (outline n)) ops))"
| "outline (TypeDeclNode b d sections) =
     typeDecl_lines b d @
     (if prints_sections b then concat (map (\<lambda>n. map (apfst Suc) (outline n)) sections) else [])"
| "outline (ImportNode b path syms) = [(0, import_line path syms)]"
| "outline (DataDeclNode b d) = [(0, dataDecl_line b d)]"
| "outline (FnDeclNode b d) = [(0, fnDecl_line b d)]"
| "outline (OperationNode b d) = [(0, ''OperationDecl '' @ od_description d)]"
| "outline (IfDecl b c thenBody elseBody) =
     (0, ''IfDecl'' @ (if hasModifier MK_Comptime (nd_modifiers b) then '' [comptime]'' else [])) #
     (1, ''Then: '' @ nat_to_string (length thenBody) @ '' members'') #
     (if elseBody \<noteq> [] then [(1, ''Else: '' @ nat_to_string (length elseBody) @ '' members'')] else [])"
| "outline (DebugDeclNode b d) = debugDecl_lines d"
| "outline (ExprNode e) = [(0, ''Expr'')]"

lemma out_lines_Suc: "out_lines indent (map (apfst Suc) ls) = out_lines (Suc indent) ls"
  by (induction ls) (auto simp: out_lines_def)

lemma out_lines_append [simp]: "out_lines i (xs @ ys) = out_lines i xs @ out_lines i ys"
  by (simp add: out_lines_def)

lemma out_lines_Cons [simp]:
  "out_lines i ((d, s) # ls) = out_line (i + d) s @ out_lines i ls" "out_lines i [] = []"
  by (simp_all add: out_lines_def)

lemma out_lines_concat: "out_lines i (concat lss) = concat (map (out_lines i) lss)"
  by (induction lss) auto

lemma printNode_outline: "printNode n indent = out_lines indent (outline n)"
proof (induction n indent rule: printNode.induct)
  case (7 b name ops edges tps indent)
  have "out_lines indent (map (\<lambda>e. (1, edge_line e)) edges) =
      concat (map (\<lambda>e. out_line (indent + 1) (edge_line e)) edges)"
    by (simp add: out_lines_def comp_def)
  with 7 show ?case
    by (auto simp: out_lines_concat out_lines_Suc comp_def intro!: arg_cong [where f = concat])
qed (auto simp: out_lines_concat out_lines_Suc comp_def out_lines_def [of _ "typeDecl_lines _ _"]
      intro!: arg_cong [where f = concat])

end
