(* ===== verification/SymbolTable.thy ===== *)
theory SymbolTable
  imports AST
begin

text \<open>
  The symbol table (\<open>include/topo/Sema/SymbolTable.h\<close>, \<open>lib/Sema/SymbolTable.cpp\<close>):
  its symbols and entries, first-wins insertion, lookups, merging across files and the
  marking of external types.  Its unordered maps are association lists in iteration
  order, which C++ leaves open: insertion appends, and the properties hold for any order.
\<close>

section \<open>Symbols\<close>

datatype FunctionKind = FK_Function | FK_Constructor | FK_Destructor | FK_Operator

record FunctionSymbol =
  fs_qualifiedName :: string
  fs_simpleName :: string
  fs_visibility :: Visibility
  fs_location :: SourceLocation
  fs_returnType :: TypeNode
  fs_params :: "Parameter list"
  fs_isConst :: bool
  fs_isStatic :: bool
  fs_hasLogicBlock :: bool
  fs_isMultiReturn :: bool
  fs_returnParams :: "ReturnParam list"
  fs_usedReturns :: "string list"
  fs_hasUsedReturnsClause :: bool
  fs_templateParams :: "TemplateParamDecl list"
  fs_bindingTarget :: "string option"
  fs_priority :: PriorityLevel
  fs_cardinality :: "CardinalityHint option"
  fs_accessPattern :: AccessPattern
  fs_tiledSize :: int
  fs_isExternal :: bool
  fs_explicitlyExternal :: bool
  fs_owningType :: string
  fs_externalOwner :: string
  fs_kind :: FunctionKind
  fs_isComptime :: bool

record MemberVarSymbol =
  mv_name :: string
  mv_type :: TypeNode
  mv_isStatic :: bool
  mv_location :: SourceLocation
  mv_owningType :: string
  mv_isExternal :: bool
  mv_externalOwner :: string

record OperatorSymbol =
  op_op :: OverloadableOp
  op_params :: "Parameter list"
  op_returnType :: TypeNode
  op_bindingTarget :: "string option"
  op_location :: SourceLocation
  op_isExternal :: bool
  op_owningType :: string
  op_externalOwner :: string

record ClassSymbol =
  cl_qualifiedName :: string
  cl_simpleName :: string
  cl_visibility :: Visibility
  cl_location :: SourceLocation
  cl_baseClass :: "TypeNode option"
  cl_memberFunctions :: "string list"
  cl_constructors :: "string list"
  cl_destructor :: string
  cl_memberVars :: "MemberVarSymbol list"
  cl_templateParams :: "TemplateParamDecl list"
  cl_operatorOverloads :: "OperatorSymbol list"
  cl_isExternal :: bool
  cl_explicitlyExternal :: bool
  cl_externalOwner :: string
  cl_enclosingType :: string
  cl_isComptime :: bool

record ConstraintSymbol =
  cs_qualifiedName :: string
  cs_simpleName :: string
  cs_parentConstraint :: "string option"
  cs_members :: "ConstraintMember list"
  cs_location :: SourceLocation

record TypeAliasEntry =
  ta_name :: string
  ta_targetType :: TypeNode
  ta_location :: SourceLocation

record InstantiateEntry =
  in_type :: TypeNode
  in_qualifiedName :: string
  in_location :: SourceLocation

record AdaptEntry =
  ad_constraintName :: string
  ad_targetType :: TypeNode
  ad_mappings :: "AdaptMapping list"
  ad_location :: SourceLocation

record LifetimeGroupEntry =
  lg_name :: string
  lg_startFunc :: string
  lg_endFunc :: string
  lg_isOpenEnded :: bool
  lg_isSingleFunc :: bool
  lg_location :: SourceLocation
  lg_scopeFunctions :: "string list"

datatype CallStyle = CS_Arrow | CS_DotSelect | CS_SmartPass | CS_Full

record CallSiteInfo =
  ci_caller :: string
  ci_callee :: string
  ci_usedReturns :: "string list"
  ci_style :: CallStyle
  ci_loc :: SourceLocation

record PipelineAnalysisResult =
  pa_stages :: "(string \<times> int) list"
  pa_sourceNodes :: "string list"
  pa_terminalNode :: string
  pa_terminalType :: string
  pa_demand :: "(string \<times> string list) list"

record LogicBlockEntry =
  lb_qualifiedName :: string
  lb_simpleName :: string
  lb_location :: SourceLocation
  lb_calledFunctions :: "string list"
  lb_stages :: "int list"
  lb_isPipeline :: bool
  lb_isFlow :: bool
  lb_edges :: "PipelineEdge list"
  lb_pipelineAnalysis :: "PipelineAnalysisResult option"

record ImportEntry =
  ie_path :: string
  ie_typeName :: string
  ie_location :: SourceLocation

datatype DebugTargetKind = DTK_Type | DTK_Data

record DebugEntry =
  de_targetTypeName :: string
  de_targetQualifiedName :: string
  de_targetKind :: DebugTargetKind
  de_views :: "DebugViewEntry list"
  de_summaryTemplate :: "string option"
  de_inactiveRegions :: "DebugInactiveEntry list"
  de_renderDecls :: "DebugRenderRaw list"
  de_location :: SourceLocation

section \<open>The table\<close>

record SymbolTable =
  st_functions :: "FunctionSymbol umap"
  st_typeAliases :: "TypeAliasEntry umap"
  st_logicBlocks :: "LogicBlockEntry umap"
  st_classSymbols :: "ClassSymbol umap"
  st_constraintSymbols :: "ConstraintSymbol umap"
  st_imports :: "ImportEntry list"
  st_callSites :: "CallSiteInfo list"
  st_instantiates :: "InstantiateEntry list"
  st_adapts :: "AdaptEntry list"
  st_lifetimeGroups :: "LifetimeGroupEntry list"
  st_debugEntries :: "DebugEntry list"

definition empty_table :: SymbolTable where
  "empty_table =
     \<lparr>st_functions = [], st_typeAliases = [], st_logicBlocks = [], st_classSymbols = [],
      st_constraintSymbols = [], st_imports = [], st_callSites = [], st_instantiates = [],
      st_adapts = [], st_lifetimeGroups = [], st_debugEntries = []\<rparr>"

text \<open>The adding operations: the new table and whether the symbol was new.\<close>

definition addFunction :: "FunctionSymbol \<Rightarrow> SymbolTable \<Rightarrow> SymbolTable \<times> bool" where
  "addFunction sy t =
     (case umap_emplace (fs_qualifiedName sy) sy (st_functions t) of
        (m, inserted) \<Rightarrow> (t\<lparr>st_functions := m\<rparr>, inserted))"

definition addTypeAlias :: "TypeAliasEntry \<Rightarrow> SymbolTable \<Rightarrow> SymbolTable \<times> bool" where
  "addTypeAlias entry t =
     (case umap_emplace (ta_name entry) entry (st_typeAliases t) of
        (m, inserted) \<Rightarrow> (t\<lparr>st_typeAliases := m\<rparr>, inserted))"

definition addLogicBlock :: "LogicBlockEntry \<Rightarrow> SymbolTable \<Rightarrow> SymbolTable \<times> bool" where
  "addLogicBlock entry t =
     (case umap_emplace (lb_qualifiedName entry) entry (st_logicBlocks t) of
        (m, inserted) \<Rightarrow> (t\<lparr>st_logicBlocks := m\<rparr>, inserted))"

definition addClassSymbol :: "ClassSymbol \<Rightarrow> SymbolTable \<Rightarrow> SymbolTable \<times> bool" where
  "addClassSymbol sy t =
     (case umap_emplace (cl_qualifiedName sy) sy (st_classSymbols t) of
        (m, inserted) \<Rightarrow> (t\<lparr>st_classSymbols := m\<rparr>, inserted))"

definition addConstraintSymbol :: "ConstraintSymbol \<Rightarrow> SymbolTable \<Rightarrow> SymbolTable \<times> bool" where
  "addConstraintSymbol sy t =
     (case umap_emplace (cs_qualifiedName sy) sy (st_constraintSymbols t) of
        (m, inserted) \<Rightarrow> (t\<lparr>st_constraintSymbols := m\<rparr>, inserted))"

definition addImport :: "ImportEntry \<Rightarrow> SymbolTable \<Rightarrow> SymbolTable" where
  "addImport entry t = t\<lparr>st_imports := st_imports t @ [entry]\<rparr>"

definition addCallSite :: "CallSiteInfo \<Rightarrow> SymbolTable \<Rightarrow> SymbolTable" where
  "addCallSite i t = t\<lparr>st_callSites := st_callSites t @ [i]\<rparr>"

definition addInstantiate :: "InstantiateEntry \<Rightarrow> SymbolTable \<Rightarrow> SymbolTable" where
  "addInstantiate e t = t\<lparr>st_instantiates := st_instantiates t @ [e]\<rparr>"

definition addAdapt :: "AdaptEntry \<Rightarrow> SymbolTable \<Rightarrow> SymbolTable" where
  "addAdapt e t = t\<lparr>st_adapts := st_adapts t @ [e]\<rparr>"

definition addDebugEntry :: "DebugEntry \<Rightarrow> SymbolTable \<Rightarrow> SymbolTable" where
  "addDebugEntry e t = t\<lparr>st_debugEntries := st_debugEntries t @ [e]\<rparr>"

definition addLifetimeGroup :: "LifetimeGroupEntry \<Rightarrow> SymbolTable \<Rightarrow> SymbolTable" where
  "addLifetimeGroup e t = t\<lparr>st_lifetimeGroups := st_lifetimeGroups t @ [e]\<rparr>"

definition setLifetimeGroupScopeFunctions :: "nat \<Rightarrow> string list \<Rightarrow> SymbolTable \<Rightarrow> SymbolTable" where
  "setLifetimeGroupScopeFunctions i funcs t =
     (if i < length (st_lifetimeGroups t)
      then t\<lparr>st_lifetimeGroups :=
               (st_lifetimeGroups t)[i := (st_lifetimeGroups t ! i)\<lparr>lg_scopeFunctions := funcs\<rparr>]\<rparr>
      else t)"

section \<open>Lookups\<close>

definition findFunction :: "string \<Rightarrow> SymbolTable \<Rightarrow> FunctionSymbol option" where
  "findFunction q t = map_of (st_functions t) q"

definition findFunctionBySimpleName :: "string \<Rightarrow> SymbolTable \<Rightarrow> FunctionSymbol option" where
  "findFunctionBySimpleName s t = map_option snd (find (\<lambda>(q, fn). fs_simpleName fn = s) (st_functions t))"

definition findTypeAlias :: "string \<Rightarrow> SymbolTable \<Rightarrow> TypeAliasEntry option" where
  "findTypeAlias n t = map_of (st_typeAliases t) n"

definition findLogicBlock :: "string \<Rightarrow> SymbolTable \<Rightarrow> LogicBlockEntry option" where
  "findLogicBlock q t = map_of (st_logicBlocks t) q"

definition findClassSymbol :: "string \<Rightarrow> SymbolTable \<Rightarrow> ClassSymbol option" where
  "findClassSymbol q t = map_of (st_classSymbols t) q"

definition findClassBySimpleName :: "string \<Rightarrow> SymbolTable \<Rightarrow> ClassSymbol option" where
  "findClassBySimpleName s t = map_option snd (find (\<lambda>(q, c). cl_simpleName c = s) (st_classSymbols t))"

definition findConstraintSymbol :: "string \<Rightarrow> SymbolTable \<Rightarrow> ConstraintSymbol option" where
  "findConstraintSymbol n t =
     (case map_of (st_constraintSymbols t) n of
        Some cs \<Rightarrow> Some cs
      | None \<Rightarrow> map_option snd (find (\<lambda>(q, cs). cs_simpleName cs = n) (st_constraintSymbols t)))"

definition findLifetimeGroup :: "string \<Rightarrow> SymbolTable \<Rightarrow> LifetimeGroupEntry option" where
  "findLifetimeGroup n t = find (\<lambda>g. lg_name g = n) (st_lifetimeGroups t)"

definition findAdaptsForConstraint :: "string \<Rightarrow> SymbolTable \<Rightarrow> AdaptEntry list" where
  "findAdaptsForConstraint n t = filter (\<lambda>a. ad_constraintName a = n) (st_adapts t)"

definition isImportedType :: "string \<Rightarrow> SymbolTable \<Rightarrow> bool" where
  "isImportedType n t \<longleftrightarrow> (\<exists>i \<in> set (st_imports t). ie_typeName i = n)"

definition externalOwnerNamed :: "string \<Rightarrow> SymbolTable \<Rightarrow> ClassSymbol option" where
  "externalOwnerNamed q t =
     (case findClassSymbol q t of
        Some owner \<Rightarrow> if cl_isExternal owner then Some owner else None
      | None \<Rightarrow> None)"

definition externalTypeForMember :: "string \<Rightarrow> SymbolTable \<Rightarrow> ClassSymbol option" where
  "externalTypeForMember q t =
     (case findFunction q t of
        Some fn \<Rightarrow>
          if fs_owningType fn \<noteq> [] then externalOwnerNamed (fs_owningType fn) t
          else (case rfind_str ''::'' q of
                  None \<Rightarrow> None
                | Some p \<Rightarrow> externalOwnerNamed (substr q 0 p) t)
      | None \<Rightarrow>
          (case rfind_str ''::'' q of
             None \<Rightarrow> None
           | Some p \<Rightarrow> externalOwnerNamed (substr q 0 p) t))"

section \<open>Marking external types\<close>

text \<open>
  The owners: the type and everything lexically inside it.  One sweep of the loop
  walks the classes in iteration order, inserting as it goes; sweeps repeat until one
  inserts nothing.  The set is kept as a list without duplicates.
\<close>

fun ownerSweep :: "ClassSymbol umap \<Rightarrow> string list \<Rightarrow> string list \<times> bool" where
  "ownerSweep [] owners = (owners, False)"
| "ownerSweep ((name, cls) # cs) owners =
     (if cl_enclosingType cls \<in> set owners \<and> name \<notin> set owners
      then (case ownerSweep cs (owners @ [name]) of (os, changed) \<Rightarrow> (os, True))
      else ownerSweep cs owners)"

lemma ownerSweep_grows:
  "ownerSweep cs owners = (os, changed) \<Longrightarrow>
   set owners \<subseteq> set os \<and> set os \<subseteq> set owners \<union> fst ` set cs \<and>
   (changed \<longrightarrow> set owners \<subset> set os) \<and> (\<not> changed \<longrightarrow> os = owners)"
proof (induction cs owners arbitrary: os changed rule: ownerSweep.induct)
  case (2 name cls cs owners)
  show ?case
  proof (cases "cl_enclosingType cls \<in> set owners \<and> name \<notin> set owners")
    case True
    obtain os' ch where s: "ownerSweep cs (owners @ [name]) = (os', ch)" by fastforce
    with 2(1) [OF True s] True 2(3) show ?thesis by auto
  next
    case False
    with 2(2) [of os changed] 2(3) show ?thesis by auto
  qed
qed auto

function (sequential) ownerLoop :: "ClassSymbol umap \<Rightarrow> string list \<Rightarrow> string list" where
  "ownerLoop cs owners =
     (case ownerSweep cs owners of (os, changed) \<Rightarrow> if changed then ownerLoop cs os else os)"
  by pat_completeness auto
termination
proof (relation "measure (\<lambda>(cs, owners). card (fst ` set cs - set owners))", goal_cases)
  case (2 cs owners os changed)
  then have g: "set owners \<subset> set os" "set os \<subseteq> set owners \<union> fst ` set cs"
    using ownerSweep_grows [of cs owners os changed] by auto
  then have "fst ` set cs - set os \<subset> fst ` set cs - set owners" by blast
  then show ?case by (simp add: psubset_card_mono)
qed simp

declare ownerLoop.simps [simp del]

definition markClass :: "string \<Rightarrow> ClassSymbol \<Rightarrow> ClassSymbol" where
  "markClass q c =
     c\<lparr>cl_isExternal := True, cl_externalOwner := q,
       cl_memberVars := map (\<lambda>m. m\<lparr>mv_isExternal := True, mv_externalOwner := q\<rparr>) (cl_memberVars c),
       cl_operatorOverloads :=
         map (\<lambda>op. op\<lparr>op_isExternal := True, op_externalOwner := q\<rparr>) (cl_operatorOverloads c)\<rparr>"

definition markFunction :: "string \<Rightarrow> FunctionSymbol \<Rightarrow> FunctionSymbol" where
  "markFunction q fn = fn\<lparr>fs_isExternal := True, fs_externalOwner := q\<rparr>"

text \<open>The owner names come from the class map, so \<open>classSymbols_.at\<close> finds them.\<close>

definition markExternalType :: "string \<Rightarrow> SymbolTable \<Rightarrow> SymbolTable \<times> bool" where
  "markExternalType q t =
     (if findClassSymbol q t = None then (t, False)
      else
        let owners = ownerLoop (st_classSymbols t) [q] in
        if \<exists>n \<in> set owners. cl_isComptime (the (map_of (st_classSymbols t) n)) then (t, False)
        else if \<exists>(n, fn) \<in> set (st_functions t). fs_owningType fn \<in> set owners \<and> fs_isComptime fn
        then (t, False)
        else
          (t\<lparr>st_classSymbols :=
               map (\<lambda>(n, c). (n, if n \<in> set owners then markClass q c else c)) (st_classSymbols t),
             st_functions :=
               map (\<lambda>(n, fn). (n, if fs_owningType fn \<in> set owners then markFunction q fn else fn))
                 (st_functions t)\<rparr>,
           True))"

section \<open>Merging\<close>

definition mergeFunctions :: "(FunctionSymbol \<Rightarrow> bool) \<Rightarrow> FunctionSymbol umap \<Rightarrow> SymbolTable \<Rightarrow> SymbolTable" where
  "mergeFunctions keep m t = fold (\<lambda>(n, fn) t. if keep fn then fst (addFunction fn t) else t) m t"

definition mergeClasses :: "(ClassSymbol \<Rightarrow> bool) \<Rightarrow> ClassSymbol umap \<Rightarrow> SymbolTable \<Rightarrow> SymbolTable" where
  "mergeClasses keep m t = fold (\<lambda>(n, c) t. if keep c then fst (addClassSymbol c t) else t) m t"

definition mergeTypeAliases :: "TypeAliasEntry umap \<Rightarrow> SymbolTable \<Rightarrow> SymbolTable" where
  "mergeTypeAliases m t = fold (\<lambda>(n, ta) t. fst (addTypeAlias ta t)) m t"

definition mergeLogicBlocks :: "(LogicBlockEntry \<Rightarrow> bool) \<Rightarrow> LogicBlockEntry umap \<Rightarrow> SymbolTable \<Rightarrow> SymbolTable" where
  "mergeLogicBlocks keep m t = fold (\<lambda>(n, lb) t. if keep lb then fst (addLogicBlock lb t) else t) m t"

definition mergeConstraints ::
  "(ConstraintSymbol \<Rightarrow> bool) \<Rightarrow> ConstraintSymbol umap \<Rightarrow> SymbolTable \<Rightarrow> SymbolTable" where
  "mergeConstraints keep m t = fold (\<lambda>(n, cs) t. if keep cs then fst (addConstraintSymbol cs t) else t) m t"

definition mergeFrom :: "SymbolTable \<Rightarrow> bool \<Rightarrow> SymbolTable \<Rightarrow> SymbolTable" where
  "mergeFrom other filterInternal t =
     (let t1 = mergeTypeAliases (st_typeAliases other) t;
          t2 = fold addImport (st_imports other) t1;
          t3 = mergeFunctions (\<lambda>fn. \<not> (filterInternal \<and> fs_visibility fn = Vis_Internal)) (st_functions other) t2;
          t4 = mergeLogicBlocks (\<lambda>_. True) (st_logicBlocks other) t3;
          t5 = mergeClasses (\<lambda>c. \<not> (filterInternal \<and> cl_visibility c = Vis_Internal)) (st_classSymbols other) t4;
          t6 = mergeConstraints (\<lambda>_. True) (st_constraintSymbols other) t5;
          t7 = fold addInstantiate (st_instantiates other) t6;
          t8 = fold addAdapt (st_adapts other) t7;
          t9 = fold addCallSite (st_callSites other) t8;
          t10 = fold addLifetimeGroup (st_lifetimeGroups other) t9
      in fold addDebugEntry (st_debugEntries other) t10)"

text \<open>What importing an external class by name brings along: what is nested in it and its members.\<close>

definition mergeExternalClass :: "SymbolTable \<Rightarrow> ClassSymbol \<Rightarrow> SymbolTable \<Rightarrow> SymbolTable" where
  "mergeExternalClass src c t =
     (let prefix = cl_qualifiedName c @ ''::'';
          t1 = fold (\<lambda>(n, nested) t. if is_prefix prefix n then fst (addClassSymbol nested t) else t)
                 (st_classSymbols src) t
      in mergeFunctions
           (\<lambda>m. fs_owningType m = cl_qualifiedName c \<or> is_prefix prefix (fs_owningType m))
           (st_functions src) t1)"

definition selectFunctions :: "SymbolTable \<Rightarrow> string \<Rightarrow> bool \<Rightarrow> SymbolTable \<times> bool \<Rightarrow> SymbolTable \<times> bool" where
  "selectFunctions src sy filterInternal tf =
     fold (\<lambda>(n, fn) (t, found).
         if fs_simpleName fn = sy \<and> \<not> (filterInternal \<and> fs_visibility fn = Vis_Internal)
         then (fst (addFunction fn t), True) else (t, found))
       (st_functions src) tf"

definition selectClasses :: "SymbolTable \<Rightarrow> string \<Rightarrow> bool \<Rightarrow> SymbolTable \<times> bool \<Rightarrow> SymbolTable \<times> bool" where
  "selectClasses src sy filterInternal tf =
     fold (\<lambda>(n, c) (t, found).
         if cl_simpleName c = sy \<and> \<not> (filterInternal \<and> cl_visibility c = Vis_Internal)
         then let t1 = fst (addClassSymbol c t) in
              (if cl_isExternal c then mergeExternalClass src c t1 else t1, True)
         else (t, found))
       (st_classSymbols src) tf"

definition selectConstraints :: "SymbolTable \<Rightarrow> string \<Rightarrow> SymbolTable \<times> bool \<Rightarrow> SymbolTable \<times> bool" where
  "selectConstraints src sy tf =
     fold (\<lambda>(n, cs) (t, found).
         if cs_simpleName cs = sy then (fst (addConstraintSymbol cs t), True) else (t, found))
       (st_constraintSymbols src) tf"

definition selectLogicBlocks :: "SymbolTable \<Rightarrow> string \<Rightarrow> SymbolTable \<times> bool \<Rightarrow> SymbolTable \<times> bool" where
  "selectLogicBlocks src sy tf =
     fold (\<lambda>(n, lb) (t, found).
         if lb_simpleName lb = sy then (fst (addLogicBlock lb t), True) else (t, found))
       (st_logicBlocks src) tf"

definition selectSymbol :: "SymbolTable \<Rightarrow> bool \<Rightarrow> string \<Rightarrow> SymbolTable \<Rightarrow> SymbolTable \<times> bool" where
  "selectSymbol src filterInternal sy t =
     selectLogicBlocks src sy (selectConstraints src sy
       (selectClasses src sy filterInternal (selectFunctions src sy filterInternal (t, False))))"

fun selectLoop :: "SymbolTable \<Rightarrow> bool \<Rightarrow> string list \<Rightarrow> SymbolTable \<Rightarrow> SymbolTable \<times> string list" where
  "selectLoop src fi [] t = (t, [])"
| "selectLoop src fi (sy # sys) t =
     (case selectSymbol src fi sy t of
        (t1, found) \<Rightarrow>
          (case selectLoop src fi sys t1 of
             (t2, unresolved) \<Rightarrow> (t2, if found then unresolved else sy # unresolved)))"

definition mergeSelected ::
  "SymbolTable \<Rightarrow> string list \<Rightarrow> bool \<Rightarrow> SymbolTable \<Rightarrow> SymbolTable \<times> string list" where
  "mergeSelected src selected filterInternal t =
     (if selected = [] then (mergeFrom src filterInternal t, [])
      else
        let t1 = mergeTypeAliases (st_typeAliases src) t;
            t2 = fold addImport (st_imports src) t1
        in selectLoop src filterInternal selected t2)"

end
