(* ===== verification/Symbol_Laws.thy ===== *)
theory Symbol_Laws
  imports SymbolTable
begin

text \<open>
  The laws of the symbol table: every map stays keyed by its symbols' own names,
  merging is first-wins map union, a selective import reports exactly the names it
  cannot resolve, and marking a type external reaches exactly what is lexically
  inside it or changes nothing.
\<close>

section \<open>Keyed maps\<close>

text \<open>A map whose keys are distinct and are the names of its values.\<close>

definition keyed :: "('v \<Rightarrow> string) \<Rightarrow> 'v umap \<Rightarrow> bool" where
  "keyed name m \<longleftrightarrow> distinct (map fst m) \<and> (\<forall>(k, v) \<in> set m. name v = k)"

lemma keyed_Nil [simp]: "keyed name []"
  by (simp add: keyed_def)

lemma keyed_emplace: "keyed name m \<Longrightarrow> keyed name (fst (umap_emplace (name v) v m))"
  unfolding keyed_def by (auto simp: umap_simps split: if_splits)

lemma keyed_map_of: "keyed name m \<Longrightarrow> (k, v) \<in> set m \<longleftrightarrow> map_of m k = Some v"
  by (auto simp: keyed_def map_of_is_SomeI dest: map_of_SomeD)

lemma keyed_name: "keyed name m \<Longrightarrow> map_of m k = Some v \<Longrightarrow> name v = k"
  by (auto simp: keyed_def dest: map_of_SomeD)

definition emplace_all :: "('v \<Rightarrow> string) \<Rightarrow> ('v \<Rightarrow> bool) \<Rightarrow> 'v umap \<Rightarrow> 'v umap \<Rightarrow> 'v umap" where
  "emplace_all name keep other m =
     fold (\<lambda>(n, v) m. if keep v then fst (umap_emplace (name v) v m) else m) other m"

lemma emplace_all_simps [simp]:
  "emplace_all name keep [] m = m"
  "emplace_all name keep ((n, v) # other) m =
     emplace_all name keep other (if keep v then fst (umap_emplace (name v) v m) else m)"
  by (simp_all add: emplace_all_def)

lemma keyed_emplace_all: "keyed name m \<Longrightarrow> keyed name (emplace_all name keep other m)"
  by (induction other arbitrary: m) (auto simp: keyed_emplace)

text \<open>Merging is a union in which the receiver wins.\<close>

lemma emplace_all_map_of:
  "keyed name other \<Longrightarrow>
   map_of (emplace_all name keep other m) k =
     (case map_of m k of
        Some v \<Rightarrow> Some v
      | None \<Rightarrow> (case map_of other k of
                  Some v \<Rightarrow> if keep v then Some v else None
                | None \<Rightarrow> None))"
proof (induction other arbitrary: m)
  case Nil
  then show ?case by (simp split: option.splits)
next
  case (Cons p other)
  obtain n v where p: "p = (n, v)" by (cases p)
  with Cons.prems have n: "name v = n" "map_of other n = None" "keyed name other"
    by (auto simp: keyed_def map_of_eq_None_iff)
  show ?case
    using Cons.IH [OF n(3)] n(1,2) p by (auto simp: umap_simps split: option.splits)
qed

lemma emplace_all_keeps:
  "map_of m k = Some v \<Longrightarrow> map_of (emplace_all name keep other m) k = Some v"
proof (induction other arbitrary: m)
  case (Cons p other)
  then show ?case by (cases p) (auto simp: umap_simps intro!: Cons.IH)
qed simp

lemma emplace_all_from:
  "map_of (emplace_all name keep other m) k = Some v \<Longrightarrow>
   map_of m k = Some v \<or> (v \<in> snd ` set other \<and> keep v \<and> name v = k)"
proof (induction other arbitrary: m)
  case (Cons p other)
  obtain n w where p: "p = (n, w)" by (cases p)
  from Cons.IH [of "if keep w then fst (umap_emplace (name w) w m) else m"] Cons.prems p
  show ?case by (auto simp: umap_simps split: if_splits)
qed simp

section \<open>The table's invariant\<close>

definition table_ok :: "SymbolTable \<Rightarrow> bool" where
  "table_ok t \<longleftrightarrow>
     keyed fs_qualifiedName (st_functions t) \<and> keyed ta_name (st_typeAliases t) \<and>
     keyed lb_qualifiedName (st_logicBlocks t) \<and> keyed cl_qualifiedName (st_classSymbols t) \<and>
     keyed cs_qualifiedName (st_constraintSymbols t)"

lemma table_ok_empty [simp]: "table_ok empty_table"
  by (simp add: table_ok_def empty_table_def)

lemma add_tables:
  "fst (addFunction fn t) = t\<lparr>st_functions := fst (umap_emplace (fs_qualifiedName fn) fn (st_functions t))\<rparr>"
  "fst (addTypeAlias ta t) = t\<lparr>st_typeAliases := fst (umap_emplace (ta_name ta) ta (st_typeAliases t))\<rparr>"
  "fst (addLogicBlock lb t) = t\<lparr>st_logicBlocks := fst (umap_emplace (lb_qualifiedName lb) lb (st_logicBlocks t))\<rparr>"
  "fst (addClassSymbol c t) = t\<lparr>st_classSymbols := fst (umap_emplace (cl_qualifiedName c) c (st_classSymbols t))\<rparr>"
  "fst (addConstraintSymbol cs t) =
     t\<lparr>st_constraintSymbols := fst (umap_emplace (cs_qualifiedName cs) cs (st_constraintSymbols t))\<rparr>"
  by (simp_all add: addFunction_def addTypeAlias_def addLogicBlock_def addClassSymbol_def
      addConstraintSymbol_def split: prod.splits)

lemma table_ok_adds [simp]:
  "table_ok t \<Longrightarrow> table_ok (fst (addFunction fn t))" "table_ok t \<Longrightarrow> table_ok (fst (addTypeAlias ta t))"
  "table_ok t \<Longrightarrow> table_ok (fst (addLogicBlock lb t))" "table_ok t \<Longrightarrow> table_ok (fst (addClassSymbol c t))"
  "table_ok t \<Longrightarrow> table_ok (fst (addConstraintSymbol cs t))"
  by (simp_all add: add_tables table_ok_def keyed_emplace)

lemma merge_tables:
  "mergeFunctions keep m t = t\<lparr>st_functions := emplace_all fs_qualifiedName keep m (st_functions t)\<rparr>"
  "mergeClasses keepc mc t = t\<lparr>st_classSymbols := emplace_all cl_qualifiedName keepc mc (st_classSymbols t)\<rparr>"
  "mergeTypeAliases ma t = t\<lparr>st_typeAliases := emplace_all ta_name (\<lambda>_. True) ma (st_typeAliases t)\<rparr>"
  "mergeLogicBlocks keepl ml t = t\<lparr>st_logicBlocks := emplace_all lb_qualifiedName keepl ml (st_logicBlocks t)\<rparr>"
  "mergeConstraints keeps ms t =
     t\<lparr>st_constraintSymbols := emplace_all cs_qualifiedName keeps ms (st_constraintSymbols t)\<rparr>"
proof -
  show "mergeFunctions keep m t = t\<lparr>st_functions := emplace_all fs_qualifiedName keep m (st_functions t)\<rparr>"
    by (induction m arbitrary: t) (auto simp: mergeFunctions_def add_tables)
  show "mergeClasses keepc mc t = t\<lparr>st_classSymbols := emplace_all cl_qualifiedName keepc mc (st_classSymbols t)\<rparr>"
    by (induction mc arbitrary: t) (auto simp: mergeClasses_def add_tables)
  show "mergeTypeAliases ma t = t\<lparr>st_typeAliases := emplace_all ta_name (\<lambda>_. True) ma (st_typeAliases t)\<rparr>"
    by (induction ma arbitrary: t) (auto simp: mergeTypeAliases_def add_tables)
  show "mergeLogicBlocks keepl ml t = t\<lparr>st_logicBlocks := emplace_all lb_qualifiedName keepl ml (st_logicBlocks t)\<rparr>"
    by (induction ml arbitrary: t) (auto simp: mergeLogicBlocks_def add_tables)
  show "mergeConstraints keeps ms t =
     t\<lparr>st_constraintSymbols := emplace_all cs_qualifiedName keeps ms (st_constraintSymbols t)\<rparr>"
    by (induction ms arbitrary: t) (auto simp: mergeConstraints_def add_tables)
qed

lemma fold_adds:
  "fold addImport is t = t\<lparr>st_imports := st_imports t @ is\<rparr>"
  "fold addInstantiate ins t = t\<lparr>st_instantiates := st_instantiates t @ ins\<rparr>"
  "fold addAdapt ads t = t\<lparr>st_adapts := st_adapts t @ ads\<rparr>"
  "fold addCallSite cis t = t\<lparr>st_callSites := st_callSites t @ cis\<rparr>"
  "fold addLifetimeGroup lgs t = t\<lparr>st_lifetimeGroups := st_lifetimeGroups t @ lgs\<rparr>"
  "fold addDebugEntry des t = t\<lparr>st_debugEntries := st_debugEntries t @ des\<rparr>"
proof -
  show "fold addImport is t = t\<lparr>st_imports := st_imports t @ is\<rparr>"
    by (induction "is" arbitrary: t) (simp_all add: addImport_def)
  show "fold addInstantiate ins t = t\<lparr>st_instantiates := st_instantiates t @ ins\<rparr>"
    by (induction ins arbitrary: t) (simp_all add: addInstantiate_def)
  show "fold addAdapt ads t = t\<lparr>st_adapts := st_adapts t @ ads\<rparr>"
    by (induction ads arbitrary: t) (simp_all add: addAdapt_def)
  show "fold addCallSite cis t = t\<lparr>st_callSites := st_callSites t @ cis\<rparr>"
    by (induction cis arbitrary: t) (simp_all add: addCallSite_def)
  show "fold addLifetimeGroup lgs t = t\<lparr>st_lifetimeGroups := st_lifetimeGroups t @ lgs\<rparr>"
    by (induction lgs arbitrary: t) (simp_all add: addLifetimeGroup_def)
  show "fold addDebugEntry des t = t\<lparr>st_debugEntries := st_debugEntries t @ des\<rparr>"
    by (induction des arbitrary: t) (simp_all add: addDebugEntry_def)
qed

lemma mergeFrom_table:
  "mergeFrom other fi t =
     \<lparr>st_functions = emplace_all fs_qualifiedName (\<lambda>fn. \<not> (fi \<and> fs_visibility fn = Vis_Internal))
        (st_functions other) (st_functions t),
      st_typeAliases = emplace_all ta_name (\<lambda>_. True) (st_typeAliases other) (st_typeAliases t),
      st_logicBlocks = emplace_all lb_qualifiedName (\<lambda>_. True) (st_logicBlocks other) (st_logicBlocks t),
      st_classSymbols = emplace_all cl_qualifiedName (\<lambda>c. \<not> (fi \<and> cl_visibility c = Vis_Internal))
        (st_classSymbols other) (st_classSymbols t),
      st_constraintSymbols = emplace_all cs_qualifiedName (\<lambda>_. True)
        (st_constraintSymbols other) (st_constraintSymbols t),
      st_imports = st_imports t @ st_imports other, st_callSites = st_callSites t @ st_callSites other,
      st_instantiates = st_instantiates t @ st_instantiates other,
      st_adapts = st_adapts t @ st_adapts other,
      st_lifetimeGroups = st_lifetimeGroups t @ st_lifetimeGroups other,
      st_debugEntries = st_debugEntries t @ st_debugEntries other\<rparr>"
  by (simp add: mergeFrom_def Let_def merge_tables fold_adds)

lemma table_ok_mergeFrom: "table_ok t \<Longrightarrow> table_ok (mergeFrom other fi t)"
  by (simp add: mergeFrom_table table_ok_def keyed_emplace_all)

section \<open>Selective imports\<close>

text \<open>A selected name resolves when something of that simple name is visible in the source.\<close>

definition resolvable :: "SymbolTable \<Rightarrow> bool \<Rightarrow> string \<Rightarrow> bool" where
  "resolvable src fi s \<longleftrightarrow>
     (\<exists>(n, fn) \<in> set (st_functions src).
        fs_simpleName fn = s \<and> \<not> (fi \<and> fs_visibility fn = Vis_Internal)) \<or>
     (\<exists>(n, c) \<in> set (st_classSymbols src).
        cl_simpleName c = s \<and> \<not> (fi \<and> cl_visibility c = Vis_Internal)) \<or>
     (\<exists>(n, cs) \<in> set (st_constraintSymbols src). cs_simpleName cs = s) \<or>
     (\<exists>(n, lb) \<in> set (st_logicBlocks src). lb_simpleName lb = s)"

lemma fold_found:
  "snd (fold (\<lambda>(n, v) (t, found). if P v then (g v t, True) else (t, found)) m (t, b)) \<longleftrightarrow>
     b \<or> (\<exists>(n, v) \<in> set m. P v)"
proof (induction m arbitrary: t b)
  case (Cons p m)
  show ?case by (cases p; cases "P (snd p)") (simp_all add: Cons)
qed simp

lemma selectSymbol_found: "snd (selectSymbol src fi s t) \<longleftrightarrow> resolvable src fi s"
proof -
  have lb: "snd (selectLogicBlocks src s tf) \<longleftrightarrow> snd tf \<or> (\<exists>(n, lb) \<in> set (st_logicBlocks src). lb_simpleName lb = s)" for tf
    by (cases tf) (simp add: selectLogicBlocks_def fold_found)
  have cs: "snd (selectConstraints src s tf) \<longleftrightarrow>
      snd tf \<or> (\<exists>(n, cs) \<in> set (st_constraintSymbols src). cs_simpleName cs = s)" for tf
    by (cases tf) (simp add: selectConstraints_def fold_found)
  have cl: "snd (selectClasses src s fi tf) \<longleftrightarrow> snd tf \<or> (\<exists>(n, c) \<in> set (st_classSymbols src).
      cl_simpleName c = s \<and> \<not> (fi \<and> cl_visibility c = Vis_Internal))" for tf
    unfolding selectClasses_def Let_def by (cases tf) (simp only: fold_found snd_conv)
  have fn: "snd (selectFunctions src s fi tf) \<longleftrightarrow> snd tf \<or> (\<exists>(n, fn) \<in> set (st_functions src).
      fs_simpleName fn = s \<and> \<not> (fi \<and> fs_visibility fn = Vis_Internal))" for tf
    unfolding selectFunctions_def by (cases tf) (simp only: fold_found snd_conv)
  show ?thesis
    by (simp only: selectSymbol_def resolvable_def lb cs cl fn snd_conv) blast
qed

lemma selectLoop_unresolved: "snd (selectLoop src fi ss t) = filter (\<lambda>s. \<not> resolvable src fi s) ss"
proof (induction ss arbitrary: t)
  case (Cons s ss)
  obtain t1 found where s: "selectSymbol src fi s t = (t1, found)" by fastforce
  with selectSymbol_found [of src fi s t] Cons [of t1] show ?case by (auto split: prod.splits)
qed simp

text \<open>
  What a selective import does to a table: it only ever adds symbols that the source
  has, and never replaces one.
\<close>

definition imports_from :: "SymbolTable \<Rightarrow> SymbolTable \<Rightarrow> SymbolTable \<Rightarrow> bool" where
  "imports_from src t t' \<longleftrightarrow>
     (table_ok t \<longrightarrow> table_ok t') \<and>
     (\<forall>q f. findFunction q t = Some f \<longrightarrow> findFunction q t' = Some f) \<and>
     (\<forall>q f. findFunction q t' = Some f \<longrightarrow> findFunction q t = Some f \<or> f \<in> snd ` set (st_functions src)) \<and>
     (\<forall>q c. findClassSymbol q t = Some c \<longrightarrow> findClassSymbol q t' = Some c) \<and>
     (\<forall>q c. findClassSymbol q t' = Some c \<longrightarrow>
        findClassSymbol q t = Some c \<or> c \<in> snd ` set (st_classSymbols src))"

lemma imports_from_refl [simp]: "imports_from src t t"
  by (simp add: imports_from_def)

lemma imports_from_trans: "imports_from src t t' \<Longrightarrow> imports_from src t' t'' \<Longrightarrow> imports_from src t t''"
  unfolding imports_from_def by blast

lemma imports_from_adds:
  "(n, fn) \<in> set (st_functions src) \<Longrightarrow> imports_from src t (fst (addFunction fn t))"
  "(n, c) \<in> set (st_classSymbols src) \<Longrightarrow> imports_from src t (fst (addClassSymbol c t))"
  "imports_from src t (fst (addConstraintSymbol cs t))"
  "imports_from src t (fst (addLogicBlock lb t))"
  by (auto simp: imports_from_def findFunction_def findClassSymbol_def add_tables umap_simps
      table_ok_def keyed_emplace rev_image_eqI split: if_splits)

lemma imports_from_fold:
  assumes "\<And>p tf. p \<in> set m \<Longrightarrow> imports_from src (fst tf) (fst (g p tf))"
  shows "imports_from src (fst tf) (fst (fold g m tf))"
  using assms
proof (induction m arbitrary: tf)
  case (Cons p m)
  then have "imports_from src (fst tf) (fst (g p tf))"
    "imports_from src (fst (g p tf)) (fst (fold g m (g p tf)))" by simp_all
  then show ?case using imports_from_trans by simp
qed simp

lemma imports_from_fold1:
  assumes "\<And>p t. p \<in> set m \<Longrightarrow> imports_from src t (g p t)"
  shows "imports_from src t (fold g m t)"
  using assms
proof (induction m arbitrary: t)
  case (Cons p m)
  then show ?case using imports_from_trans [of src t "g p t" "fold g m (g p t)"] by simp
qed simp

lemma imports_from_external: "imports_from src t (mergeExternalClass src c t)"
proof -
  let ?p = "cl_qualifiedName c @ ''::''"
  let ?t1 = "fold (\<lambda>(n, nested) t. if is_prefix ?p n then fst (addClassSymbol nested t) else t)
      (st_classSymbols src) t"
  have "imports_from src t ?t1"
    by (rule imports_from_fold1) (auto intro!: imports_from_adds)
  moreover have "imports_from src ?t1 (mergeFunctions keep (st_functions src) ?t1)" for keep
    unfolding mergeFunctions_def by (rule imports_from_fold1) (auto intro!: imports_from_adds)
  ultimately show ?thesis
    unfolding mergeExternalClass_def Let_def by (rule imports_from_trans)
qed

lemma imports_from_selectSymbol: "imports_from src t (fst (selectSymbol src fi s t))"
proof -
  have fn: "imports_from src (fst tf) (fst (selectFunctions src s fi tf))" for tf
    unfolding selectFunctions_def
    by (rule imports_from_fold) (auto intro!: imports_from_adds split: prod.splits)
  have cl: "imports_from src (fst tf) (fst (selectClasses src s fi tf))" for tf
    unfolding selectClasses_def Let_def
  proof (rule imports_from_fold)
    fix p tf
    assume "p \<in> set (st_classSymbols src)"
    then obtain n c where p: "p = (n, c)" "(n, c) \<in> set (st_classSymbols src)" by (metis surj_pair)
    show "imports_from src (fst tf) (fst ((\<lambda>(n, c) (t, found).
        if cl_simpleName c = s \<and> \<not> (fi \<and> cl_visibility c = Vis_Internal)
        then (if cl_isExternal c then mergeExternalClass src c (fst (addClassSymbol c t))
              else fst (addClassSymbol c t), True)
        else (t, found)) p tf))"
      using imports_from_trans [OF imports_from_adds(2) [OF p(2)] imports_from_external]
        imports_from_adds(2) [OF p(2)] p(1) by (cases tf) simp
  qed
  have cs: "imports_from src (fst tf) (fst (selectConstraints src s tf))" for tf
    unfolding selectConstraints_def
    by (rule imports_from_fold) (auto intro!: imports_from_adds split: prod.splits)
  have lb: "imports_from src (fst tf) (fst (selectLogicBlocks src s tf))" for tf
    unfolding selectLogicBlocks_def
    by (rule imports_from_fold) (auto intro!: imports_from_adds split: prod.splits)
  show ?thesis
    unfolding selectSymbol_def
    using imports_from_trans [OF imports_from_trans [OF imports_from_trans [OF fn cl] cs] lb]
    by (metis fst_conv)
qed

lemma imports_from_selectLoop: "imports_from src t (fst (selectLoop src fi ss t))"
proof (induction ss arbitrary: t)
  case (Cons s ss)
  obtain t1 found where s: "selectSymbol src fi s t = (t1, found)" by fastforce
  with imports_from_selectSymbol [of src t fi s] Cons [of t1] show ?case
    by (auto split: prod.splits intro: imports_from_trans)
qed simp

lemma imports_from_mergeFrom: "imports_from src t (mergeFrom src fi t)"
  unfolding imports_from_def
proof (intro conjI impI)
  show "table_ok t \<Longrightarrow> table_ok (mergeFrom src fi t)" by (rule table_ok_mergeFrom)
qed (auto simp: findFunction_def findClassSymbol_def mergeFrom_table
    intro!: emplace_all_keeps dest: emplace_all_from)

lemma imports_from_mergeSelected: "imports_from src t (fst (mergeSelected src sel fi t))"
proof (cases "sel = []")
  case True
  then show ?thesis by (simp add: mergeSelected_def imports_from_mergeFrom)
next
  case False
  let ?t = "fold addImport (st_imports src) (mergeTypeAliases (st_typeAliases src) t)"
  have "imports_from src t ?t"
    by (simp add: imports_from_def fold_adds merge_tables findFunction_def findClassSymbol_def
        table_ok_def keyed_emplace_all)
  with False imports_from_selectLoop [of src ?t fi sel] show ?thesis
    by (auto simp: mergeSelected_def Let_def intro: imports_from_trans)
qed

section \<open>External types\<close>

text \<open>Lexically inside a type: the type itself, and whatever a type inside it encloses.\<close>

inductive inside :: "ClassSymbol umap \<Rightarrow> string \<Rightarrow> string \<Rightarrow> bool" for cs q where
  inside_self: "inside cs q q"
| inside_nested: "(n, c) \<in> set cs \<Longrightarrow> inside cs q (cl_enclosingType c) \<Longrightarrow> inside cs q n"

lemma ownerSweep_inside:
  "ownerSweep cs owners = (os, ch) \<Longrightarrow> set cs \<subseteq> set all \<Longrightarrow> (\<forall>n \<in> set owners. inside all q n) \<Longrightarrow>
   \<forall>n \<in> set os. inside all q n"
proof (induction cs owners arbitrary: os ch rule: ownerSweep.induct)
  case (2 name cls cs owners)
  show ?case
  proof (cases "cl_enclosingType cls \<in> set owners \<and> name \<notin> set owners")
    case True
    obtain os' ch' where s: "ownerSweep cs (owners @ [name]) = (os', ch')" by fastforce
    have "inside all q name"
      using True 2(4,5) by (auto intro: inside_nested)
    with 2(1) [OF True s] True 2(3-5) s show ?thesis by auto
  next
    case False
    with 2(2) [OF False, of os ch] 2(3-5) show ?thesis by auto
  qed
qed auto

lemma ownerSweep_closed:
  "ownerSweep cs owners = (os, False) \<Longrightarrow> (n, c) \<in> set cs \<Longrightarrow> cl_enclosingType c \<in> set owners \<Longrightarrow>
   n \<in> set owners"
  by (induction cs owners arbitrary: os rule: ownerSweep.induct) (auto split: if_splits prod.splits)

lemma ownerLoop_inside:
  "\<forall>n \<in> set owners. inside cs q n \<Longrightarrow> \<forall>n \<in> set (ownerLoop cs owners). inside cs q n"
proof (induction cs owners rule: ownerLoop.induct)
  case (1 cs owners)
  obtain os ch where s: "ownerSweep cs owners = (os, ch)" by fastforce
  have "\<forall>n \<in> set os. inside cs q n"
    using ownerSweep_inside [OF s subset_refl 1(2)] .
  with 1(1) [OF s [symmetric]] s show ?case by (subst ownerLoop.simps) simp
qed

lemma ownerLoop_closed:
  "set owners \<subseteq> set (ownerLoop cs owners) \<and>
   ((n, c) \<in> set cs \<longrightarrow> cl_enclosingType c \<in> set (ownerLoop cs owners) \<longrightarrow> n \<in> set (ownerLoop cs owners))"
proof (induction cs owners rule: ownerLoop.induct)
  case (1 cs owners)
  obtain os ch where s: "ownerSweep cs owners = (os, ch)" by fastforce
  note g = ownerSweep_grows [OF s]
  show ?case
  proof (cases ch)
    case True
    with 1 [OF s [symmetric]] s g show ?thesis by (subst (1 2 3) ownerLoop.simps) auto
  next
    case False
    with s g ownerSweep_closed [of cs owners os n c] show ?thesis by (subst (1 2 3) ownerLoop.simps) auto
  qed
qed

lemma ownerLoop_set: "set (ownerLoop cs [q]) = {n. inside cs q n}"
proof
  show "set (ownerLoop cs [q]) \<subseteq> {n. inside cs q n}"
    using ownerLoop_inside [of "[q]" cs q] inside_self by auto
  have "n \<in> set (ownerLoop cs [q])" if "inside cs q n" for n
    using that by induction (use ownerLoop_closed [of "[q]" cs] in auto)
  then show "{n. inside cs q n} \<subseteq> set (ownerLoop cs [q])" by blast
qed

lemma inside_declared: "inside cs q n \<Longrightarrow> map_of cs q \<noteq> None \<Longrightarrow> map_of cs n \<noteq> None"
  by (induction rule: inside.induct) (auto simp: map_of_eq_None_iff intro: rev_image_eqI)

text \<open>What forbids the marking: something compile-time inside the type.\<close>

definition comptime_inside :: "SymbolTable \<Rightarrow> string \<Rightarrow> bool" where
  "comptime_inside t q \<longleftrightarrow>
     (\<exists>n c. findClassSymbol n t = Some c \<and> inside (st_classSymbols t) q n \<and> cl_isComptime c) \<or>
     (\<exists>n fn. findFunction n t = Some fn \<and> inside (st_classSymbols t) q (fs_owningType fn) \<and> fs_isComptime fn)"

lemma map_of_map_snd: "map_of (map (\<lambda>(k, v). (k, f k v)) m) k = map_option (f k) (map_of m k)"
  by (induction m) auto

definition after_mark :: "string \<Rightarrow> SymbolTable \<Rightarrow> SymbolTable \<Rightarrow> bool" where
  "after_mark q t t' \<longleftrightarrow>
     (\<forall>n. findClassSymbol n t' =
        map_option (\<lambda>c. if inside (st_classSymbols t) q n then markClass q c else c) (findClassSymbol n t)) \<and>
     (\<forall>n. findFunction n t' =
        map_option (\<lambda>fn. if inside (st_classSymbols t) q (fs_owningType fn) then markFunction q fn else fn)
          (findFunction n t))"

lemma markExternalType_cases:
  assumes ok: "table_ok t"
  shows "snd (markExternalType q t) \<longleftrightarrow> findClassSymbol q t \<noteq> None \<and> \<not> comptime_inside t q"
    and "\<not> snd (markExternalType q t) \<Longrightarrow> fst (markExternalType q t) = t"
    and "snd (markExternalType q t) \<Longrightarrow> after_mark q t (fst (markExternalType q t))"
proof -
  let ?cs = "st_classSymbols t" let ?os = "ownerLoop ?cs [q]"
  have os: "n \<in> set ?os \<longleftrightarrow> inside ?cs q n" for n by (simp add: ownerLoop_set)
  have c1: "(\<exists>n \<in> set ?os. cl_isComptime (the (map_of ?cs n))) \<longleftrightarrow>
      (\<exists>n c. map_of ?cs n = Some c \<and> inside ?cs q n \<and> cl_isComptime c)" if "map_of ?cs q \<noteq> None"
    unfolding Bex_def os using inside_declared [OF _ that] by (metis not_None_eq option.sel)
  have c2: "(\<exists>(n, fn) \<in> set (st_functions t). fs_owningType fn \<in> set ?os \<and> fs_isComptime fn) \<longleftrightarrow>
      (\<exists>n fn. map_of (st_functions t) n = Some fn \<and> inside ?cs q (fs_owningType fn) \<and> fs_isComptime fn)"
    using ok keyed_map_of [of fs_qualifiedName "st_functions t"] by (auto simp: os table_ok_def)
  show "snd (markExternalType q t) \<longleftrightarrow> findClassSymbol q t \<noteq> None \<and> \<not> comptime_inside t q"
    using c1 c2 unfolding markExternalType_def comptime_inside_def Let_def findClassSymbol_def findFunction_def
    by (cases "map_of ?cs q") auto
  show "\<not> snd (markExternalType q t) \<Longrightarrow> fst (markExternalType q t) = t"
    by (auto simp: markExternalType_def Let_def split: if_splits)
  show "snd (markExternalType q t) \<Longrightarrow> after_mark q t (fst (markExternalType q t))"
    by (auto simp: markExternalType_def Let_def after_mark_def findClassSymbol_def findFunction_def
        map_of_map_snd os split: if_splits)
qed

lemma table_ok_mark: "table_ok t \<Longrightarrow> table_ok (fst (markExternalType q t))"
proof -
  have k: "keyed name (map (\<lambda>(n, v). (n, f n v)) m)"
    if "keyed name m" "\<And>n v. name (f n v) = name v" for name m and f :: "string \<Rightarrow> 'v \<Rightarrow> 'v"
    using that by (auto simp: keyed_def comp_def case_prod_beta')
  show "table_ok t \<Longrightarrow> table_ok (fst (markExternalType q t))"
    unfolding markExternalType_def Let_def table_ok_def
    by (auto intro!: k simp: markClass_def markFunction_def)
qed

section \<open>A small table\<close>

definition sample_function :: "string \<Rightarrow> string \<Rightarrow> Visibility \<Rightarrow> string \<Rightarrow> FunctionSymbol" where
  "sample_function q s v owner =
     \<lparr>fs_qualifiedName = q, fs_simpleName = s, fs_visibility = v, fs_location = default_loc,
      fs_returnType = empty_type, fs_params = [], fs_isConst = False, fs_isStatic = False,
      fs_hasLogicBlock = False, fs_isMultiReturn = False, fs_returnParams = [], fs_usedReturns = [],
      fs_hasUsedReturnsClause = False, fs_templateParams = [], fs_bindingTarget = None,
      fs_priority = Pri_Normal, fs_cardinality = None, fs_accessPattern = Acc_None, fs_tiledSize = 0,
      fs_isExternal = False, fs_explicitlyExternal = False, fs_owningType = owner,
      fs_externalOwner = [], fs_kind = FK_Function, fs_isComptime = False\<rparr>"

definition sample_class :: "string \<Rightarrow> string \<Rightarrow> string \<Rightarrow> ClassSymbol" where
  "sample_class q s enclosing =
     \<lparr>cl_qualifiedName = q, cl_simpleName = s, cl_visibility = Vis_Public, cl_location = default_loc,
      cl_baseClass = None, cl_memberFunctions = [], cl_constructors = [], cl_destructor = [],
      cl_memberVars = [], cl_templateParams = [], cl_operatorOverloads = [], cl_isExternal = False,
      cl_explicitlyExternal = False, cl_externalOwner = [], cl_enclosingType = enclosing,
      cl_isComptime = False\<rparr>"

definition sample_table :: SymbolTable where
  "sample_table = empty_table
     \<lparr>st_functions := [(''a::f'', sample_function ''a::f'' ''f'' Vis_Internal []),
                       (''a::B::g'', sample_function ''a::B::g'' ''g'' Vis_Public ''a::B'')],
      st_classSymbols := [(''a::B::C'', sample_class ''a::B::C'' ''C'' ''a::B''),
                          (''a::B'', sample_class ''a::B'' ''B'' [])]\<rparr>"

lemma sample_table_ok: "table_ok sample_table"
  by (simp add: table_ok_def keyed_def sample_table_def empty_table_def sample_function_def sample_class_def)

section \<open>Properties\<close>

text \<open>C27: the table's maps stay keyed by the names of their symbols, with no name twice, under
  every operation that changes them: insertions, merges, selective merges and external marking.\<close>

theorem table_invariant:
  "table_ok empty_table \<and>
   (table_ok t \<longrightarrow>
      table_ok (fst (addFunction fn t)) \<and> table_ok (fst (addTypeAlias ta t)) \<and>
      table_ok (fst (addLogicBlock lb t)) \<and> table_ok (fst (addClassSymbol c t)) \<and>
      table_ok (fst (addConstraintSymbol cs t)) \<and> table_ok (mergeFrom src fi t) \<and>
      table_ok (fst (mergeSelected src sel fi t)) \<and> table_ok (fst (markExternalType q t)))"
  using imports_from_mergeSelected [of src t sel fi]
  by (simp add: table_ok_mergeFrom table_ok_mark imports_from_def)

lemma table_invariant_witness: "table_ok (mergeFrom sample_table True sample_table)"
  using table_invariant [of sample_table] sample_table_ok by simp

text \<open>C28: merging a table is a first-wins union.  After the merge a function is found exactly when
  it was there before, unchanged, or when the other table has it and it is not an internal
  function that the filter holds back; classes alike; nothing else gets in.\<close>

theorem merge_first_wins:
  assumes "table_ok other"
  shows "findFunction q (mergeFrom other fi t) =
      (case findFunction q t of Some f \<Rightarrow> Some f
       | None \<Rightarrow> (case findFunction q other of
                   Some f \<Rightarrow> if fi \<and> fs_visibility f = Vis_Internal then None else Some f
                 | None \<Rightarrow> None)) \<and>
    findClassSymbol q (mergeFrom other fi t) =
      (case findClassSymbol q t of Some c \<Rightarrow> Some c
       | None \<Rightarrow> (case findClassSymbol q other of
                   Some c \<Rightarrow> if fi \<and> cl_visibility c = Vis_Internal then None else Some c
                 | None \<Rightarrow> None))"
  using assms
  by (simp add: mergeFrom_table findFunction_def findClassSymbol_def table_ok_def emplace_all_map_of
      cong: option.case_cong split: option.splits)

lemma merge_first_wins_witness:
  "findFunction ''a::f'' (mergeFrom sample_table True empty_table) = None \<and>
   findFunction ''a::B::g'' (mergeFrom sample_table True empty_table) =
     Some (sample_function ''a::B::g'' ''g'' Vis_Public ''a::B'')"
proof -
  have "findFunction q empty_table = None" for q by (simp add: findFunction_def empty_table_def)
  moreover have "findFunction ''a::f'' sample_table = Some (sample_function ''a::f'' ''f'' Vis_Internal [])"
    "findFunction ''a::B::g'' sample_table = Some (sample_function ''a::B::g'' ''g'' Vis_Public ''a::B'')"
    by (simp_all add: findFunction_def sample_table_def empty_table_def)
  ultimately show ?thesis
    using merge_first_wins [OF sample_table_ok, of "''a::f''" True empty_table]
      merge_first_wins [OF sample_table_ok, of "''a::B::g''" True empty_table]
    by (simp add: sample_function_def)
qed



text \<open>C25: marking a type external is all or nothing.  It succeeds exactly when the type is declared
  and nothing compile-time lies lexically inside it; then exactly the types inside it, at any
  depth, and the functions they own become external with this type as their owner, and every
  other symbol is as before; when it fails the table is unchanged.\<close>

theorem mark_external_atomic:
  assumes "table_ok t"
  shows "(snd (markExternalType q t) \<longleftrightarrow> findClassSymbol q t \<noteq> None \<and> \<not> comptime_inside t q) \<and>
    (if snd (markExternalType q t) then after_mark q t (fst (markExternalType q t))
     else fst (markExternalType q t) = t)"
  using markExternalType_cases [OF assms] by simp

lemma mark_external_atomic_witness:
  "snd (markExternalType ''a::B'' sample_table) \<and>
   after_mark ''a::B'' sample_table (fst (markExternalType ''a::B'' sample_table))"
proof -
  have "findClassSymbol ''a::B'' sample_table \<noteq> None"
    by (simp add: findClassSymbol_def sample_table_def empty_table_def)
  moreover have "\<not> comptime_inside sample_table ''a::B''"
    by (auto simp: comptime_inside_def findClassSymbol_def findFunction_def sample_table_def
        empty_table_def sample_function_def sample_class_def split: if_splits)
  ultimately show ?thesis
    using mark_external_atomic [OF sample_table_ok, of "''a::B''"] by simp
qed

end
