(* ===== verification/Matcher.thy ===== *)
theory Matcher
  imports SymbolTable
begin

text \<open>
  The matcher that feeds a pipeline stage (\<open>lib/Sema/SmartStructMatcher.cpp\<close>):
  which return value of the producers goes to which parameter of the consumer.  The two
  \<open>std::set<size_t>\<close> of unmatched indices are sets.
\<close>

section \<open>The matcher\<close>

record MatchResult =
  mr_matches :: "(nat \<times> nat) list"
  mr_unmatchedSource :: "nat set"
  mr_unmatchedTarget :: "nat set"
  mr_warnings :: "string list"
  mr_errors :: "string list"
  mr_success :: bool

text \<open>The three bytes of the dash in the messages.\<close>

definition em_dash :: string where
  "em_dash = [CHR 0xE2, CHR 0x80, CHR 0x94]"

definition sourceByType :: "ReturnParam list \<Rightarrow> string \<Rightarrow> nat list" where
  "sourceByType src ty = filter (\<lambda>i. ty_toString (rp_type (src ! i)) = ty) [0..<length src]"

definition matchBind :: "nat \<Rightarrow> nat \<Rightarrow> MatchResult \<Rightarrow> MatchResult" where
  "matchBind si ti r =
     r\<lparr>mr_matches := mr_matches r @ [(si, ti)],
       mr_unmatchedSource := mr_unmatchedSource r - {si},
       mr_unmatchedTarget := mr_unmatchedTarget r - {ti}\<rparr>"

definition matchError :: "string \<Rightarrow> MatchResult \<Rightarrow> MatchResult" where
  "matchError msg r = r\<lparr>mr_errors := mr_errors r @ [msg], mr_success := False\<rparr>"

definition matchWarning :: "string \<Rightarrow> MatchResult \<Rightarrow> MatchResult" where
  "matchWarning msg r = r\<lparr>mr_warnings := mr_warnings r @ [msg]\<rparr>"

text \<open>One round of the loop over the target parameters.\<close>

definition matchTarget :: "ReturnParam list \<Rightarrow> Parameter list \<Rightarrow> nat \<Rightarrow> MatchResult \<Rightarrow> MatchResult" where
  "matchTarget src tgt ti r =
     (if ti \<notin> mr_unmatchedTarget r then r
      else
        let targetType = ty_toString (pm_type (tgt ! ti));
            targetName = pm_name (tgt ! ti);
            what = ''target parameter '' @ quoted targetName
        in
        if sourceByType src targetType = [] then
          matchError (what @ '' (type '' @ targetType @ '') has no matching source field'') r
        else
          (case filter (\<lambda>si. si \<in> mr_unmatchedSource r) (sourceByType src targetType) of
             [] \<Rightarrow>
               matchError (what @ '' (type '' @ targetType @ '') '' @ em_dash @
                 '' all matching source fields already consumed'') r
           | [si] \<Rightarrow> matchBind si ti r
           | available \<Rightarrow>
               (case find (\<lambda>si. rp_name (src ! si) = targetName) available of
                  Some si \<Rightarrow>
                    matchWarning (what @ '' matched by name (multiple type candidates)'')
                      (matchBind si ti r)
                | None \<Rightarrow>
                    matchError (what @ '' (type '' @ targetType @
                      '') has multiple source candidates but none match by name'') r)))"

definition matchInit :: "ReturnParam list \<Rightarrow> Parameter list \<Rightarrow> MatchResult" where
  "matchInit src tgt =
     \<lparr>mr_matches = [], mr_unmatchedSource = {0..<length src},
      mr_unmatchedTarget = {0..<length tgt}, mr_warnings = [], mr_errors = [], mr_success = True\<rparr>"

definition smartMatch :: "ReturnParam list \<Rightarrow> Parameter list \<Rightarrow> MatchResult" where
  "smartMatch src tgt = fold (matchTarget src tgt) [0..<length tgt] (matchInit src tgt)"

section \<open>What a match promises\<close>

text \<open>
  The loop's invariant after the parameters below \<open>n\<close>: the pairs join equal types
  and use each index once, the unmatched sets are the rest, and every parameter seen is
  either matched or has one error.
\<close>

definition match_inv :: "ReturnParam list \<Rightarrow> Parameter list \<Rightarrow> nat \<Rightarrow> MatchResult \<Rightarrow> bool" where
  "match_inv src tgt n r \<longleftrightarrow>
     (\<forall>(si, ti) \<in> set (mr_matches r).
        si < length src \<and> ti < n \<and>
        ty_toString (rp_type (src ! si)) = ty_toString (pm_type (tgt ! ti))) \<and>
     distinct (map fst (mr_matches r)) \<and> distinct (map snd (mr_matches r)) \<and>
     mr_unmatchedSource r = {0..<length src} - fst ` set (mr_matches r) \<and>
     mr_unmatchedTarget r = {0..<length tgt} - snd ` set (mr_matches r) \<and>
     length (mr_matches r) + length (mr_errors r) = n \<and>
     (mr_success r \<longleftrightarrow> mr_errors r = [])"

lemma find_Some_set: "find P xs = Some x \<Longrightarrow> x \<in> set xs"
  by (induction xs) (auto split: if_splits)

lemma match_inv_error:
  "match_inv src tgt n r \<Longrightarrow> match_inv src tgt (Suc n) (matchError msg r)"
  by (auto simp: match_inv_def matchError_def less_Suc_eq)

lemma match_inv_bind:
  assumes inv: "match_inv src tgt n r" and n: "n < length tgt"
    and c: "si \<in> set (sourceByType src (ty_toString (pm_type (tgt ! n))))"
    and u: "si \<in> mr_unmatchedSource r"
  shows "match_inv src tgt (Suc n) (matchBind si n r)"
proof -
  let ?m = "mr_matches r"
  have pairs: "\<forall>(i, j) \<in> set ?m. i < length src \<and> j < n \<and>
      ty_toString (rp_type (src ! i)) = ty_toString (pm_type (tgt ! j))"
    and us: "mr_unmatchedSource r = {0..<length src} - fst ` set ?m"
    and rest: "distinct (map fst ?m)" "distinct (map snd ?m)"
      "mr_unmatchedTarget r = {0..<length tgt} - snd ` set ?m"
      "length ?m + length (mr_errors r) = n" "mr_success r \<longleftrightarrow> mr_errors r = []"
    using inv by (simp_all add: match_inv_def)
  have ty: "si < length src" "ty_toString (rp_type (src ! si)) = ty_toString (pm_type (tgt ! n))"
    using c by (auto simp: sourceByType_def)
  have "si \<notin> fst ` set ?m" using u us by blast
  moreover have "n \<notin> snd ` set ?m" using pairs by auto
  moreover have "\<forall>(i, j) \<in> set (?m @ [(si, n)]). i < length src \<and> j < Suc n \<and>
      ty_toString (rp_type (src ! i)) = ty_toString (pm_type (tgt ! j))"
    using pairs ty by (auto simp: less_Suc_eq)
  moreover have "X - fst ` set ?m - {si} = X - fst ` set (?m @ [(si, n)])"
    "Y - snd ` set ?m - {n} = Y - snd ` set (?m @ [(si, n)])" for X Y
    by auto
  ultimately show ?thesis
    using rest us by (simp only: match_inv_def matchBind_def MatchResult.select_convs
        MatchResult.update_convs) simp
qed

lemma match_inv_warning [simp]:
  "match_inv src tgt n (matchWarning msg r) = match_inv src tgt n r"
  by (simp add: match_inv_def matchWarning_def)

lemma match_inv_step:
  assumes inv: "match_inv src tgt n r" and n: "n < length tgt"
  shows "match_inv src tgt (Suc n) (matchTarget src tgt n r)"
proof -
  let ?c = "sourceByType src (ty_toString (pm_type (tgt ! n)))"
  let ?a = "filter (\<lambda>si. si \<in> mr_unmatchedSource r) ?c"
  have "n \<notin> snd ` set (mr_matches r)"
    using inv by (fastforce simp: match_inv_def)
  with inv n have t: "n \<in> mr_unmatchedTarget r" by (simp add: match_inv_def)
  have bind: "match_inv src tgt (Suc n) (matchBind si n r)" if "si \<in> set ?a" for si
    using match_inv_bind [OF inv n] that by simp
  show ?thesis
  proof (cases ?a)
    case Nil
    with t show ?thesis
      by (simp add: matchTarget_def Let_def match_inv_error [OF inv])
  next
    case (Cons si rest)
    then have ne: "?c \<noteq> []" and si: "si \<in> set ?a" by auto
    show ?thesis
    proof (cases rest)
      case Nil
      with Cons t ne bind [OF si] show ?thesis by (simp add: matchTarget_def Let_def)
    next
      case (Cons sj rest')
      with \<open>?a = si # rest\<close> have a: "?a = si # sj # rest'" by simp
      show ?thesis
      proof (cases "find (\<lambda>si. rp_name (src ! si) = pm_name (tgt ! n)) (si # sj # rest')")
        case None
        with a t ne show ?thesis
          by (simp add: matchTarget_def Let_def match_inv_error [OF inv] del: find.simps)
      next
        case (Some k)
        with a have "k \<in> set ?a" by (metis find_Some_set)
        from bind [OF this] a t ne Some show ?thesis
          by (simp add: matchTarget_def Let_def del: find.simps)
      qed
    qed
  qed
qed

lemma match_inv_fold:
  "n \<le> length tgt \<Longrightarrow> match_inv src tgt n (fold (matchTarget src tgt) [0..<n] (matchInit src tgt))"
proof (induction n)
  case 0
  then show ?case by (simp add: match_inv_def matchInit_def)
next
  case (Suc n)
  then show ?case by (simp add: match_inv_step)
qed

lemma smartMatch_inv: "match_inv src tgt (length tgt) (smartMatch src tgt)"
  unfolding smartMatch_def by (rule match_inv_fold) simp

lemma smartMatch_indices:
  "(si, ti) \<in> set (mr_matches (smartMatch src tgt)) \<Longrightarrow>
   si < length src \<and> ti < length tgt \<and>
   ty_toString (rp_type (src ! si)) = ty_toString (pm_type (tgt ! ti))"
  using smartMatch_inv [of src tgt] by (fastforce simp: match_inv_def)

lemma smartMatch_success:
  "mr_success (smartMatch src tgt) \<longleftrightarrow> snd ` set (mr_matches (smartMatch src tgt)) = {0..<length tgt}"
proof -
  let ?r = "smartMatch src tgt" and ?n = "length tgt"
  have inv: "match_inv src tgt ?n ?r" by (rule smartMatch_inv)
  then have d: "distinct (map snd (mr_matches ?r))" and sub: "snd ` set (mr_matches ?r) \<subseteq> {0..<?n}"
    by (auto simp: match_inv_def)
  have "card (snd ` set (mr_matches ?r)) = length (mr_matches ?r)"
    using distinct_card [OF d] by simp
  moreover have "mr_success ?r \<longleftrightarrow> length (mr_matches ?r) = ?n"
    using inv by (auto simp: match_inv_def)
  moreover have "snd ` set (mr_matches ?r) = {0..<?n} \<longleftrightarrow> card (snd ` set (mr_matches ?r)) = ?n"
    using card_subset_eq [OF _ sub] by auto
  ultimately show ?thesis by simp
qed

text \<open>
  When the parameters have different types and each has exactly one source of its type,
  every parameter finds its source, without a warning.
\<close>

definition unambiguous :: "ReturnParam list \<Rightarrow> Parameter list \<Rightarrow> bool" where
  "unambiguous src tgt \<longleftrightarrow>
     distinct (map (\<lambda>p. ty_toString (pm_type p)) tgt) \<and>
     (\<forall>p \<in> set tgt. length (sourceByType src (ty_toString (pm_type p))) = 1)"

lemma unambiguous_step:
  assumes inv: "match_inv src tgt n r" and n: "n < length tgt" and amb: "unambiguous src tgt"
    and clean: "mr_warnings r = [] \<and> mr_errors r = []"
  shows "mr_warnings (matchTarget src tgt n r) = [] \<and> mr_errors (matchTarget src tgt n r) = []"
proof -
  let ?ty = "\<lambda>i. ty_toString (pm_type (tgt ! i))"
  have "length (sourceByType src (?ty n)) = 1"
    using amb n by (simp add: unambiguous_def)
  then obtain si where si: "sourceByType src (?ty n) = [si]"
    by (metis One_nat_def length_0_conv length_Suc_conv)
  then have "si \<in> set (sourceByType src (?ty n))" by simp
  then have src: "si < length src" "ty_toString (rp_type (src ! si)) = ?ty n"
    by (auto simp: sourceByType_def)
  have pairs: "\<forall>(i, j) \<in> set (mr_matches r). j < n \<and> ty_toString (rp_type (src ! i)) = ?ty j"
    and us: "mr_unmatchedSource r = {0..<length src} - fst ` set (mr_matches r)"
    and ut: "mr_unmatchedTarget r = {0..<length tgt} - snd ` set (mr_matches r)"
    using inv by (auto simp: match_inv_def)
  have "j \<ge> n" if "(si, j) \<in> set (mr_matches r)" for j
  proof (rule ccontr)
    assume "\<not> j \<ge> n"
    with pairs that src have "?ty j = ?ty n" "j < n" by auto
    with amb n show False
      by (auto simp: unambiguous_def distinct_conv_nth)
  qed
  with pairs have "si \<notin> fst ` set (mr_matches r)" by fastforce
  with us src(1) have avail: "si \<in> mr_unmatchedSource r" by simp
  from pairs ut n have "n \<in> mr_unmatchedTarget r" by auto
  with si avail clean show ?thesis
    by (simp add: matchTarget_def Let_def matchBind_def)
qed

lemma smartMatch_unambiguous:
  assumes "unambiguous src tgt"
  shows "mr_warnings (smartMatch src tgt) = [] \<and> mr_errors (smartMatch src tgt) = []"
proof -
  have "mr_warnings (fold (matchTarget src tgt) [0..<n] (matchInit src tgt)) = [] \<and>
        mr_errors (fold (matchTarget src tgt) [0..<n] (matchInit src tgt)) = []"
    if "n \<le> length tgt" for n
    using that
  proof (induction n)
    case (Suc n)
    then show ?case
      using unambiguous_step [OF match_inv_fold _ assms, of n] by simp
  qed (simp add: matchInit_def)
  then show ?thesis by (simp add: smartMatch_def)
qed

section \<open>Properties\<close>

text \<open>C22: matching the producers' return values against a stage's parameters joins values
  and parameters of the same type only and uses each at most once; the sets of unmatched
  indices are exactly the rest; every parameter is matched or has one error, so a match
  succeeds iff all parameters are fed; and where each parameter's type is unique among the
  parameters and the values the match succeeds without a warning.\<close>

theorem smart_match:
  "let r = smartMatch src tgt in
   (\<forall>(si, ti) \<in> set (mr_matches r). si < length src \<and> ti < length tgt \<and>
      ty_toString (rp_type (src ! si)) = ty_toString (pm_type (tgt ! ti))) \<and>
   distinct (map fst (mr_matches r)) \<and> distinct (map snd (mr_matches r)) \<and>
   mr_unmatchedSource r = {0..<length src} - fst ` set (mr_matches r) \<and>
   mr_unmatchedTarget r = {0..<length tgt} - snd ` set (mr_matches r) \<and>
   length (mr_matches r) + length (mr_errors r) = length tgt \<and>
   (mr_success r \<longleftrightarrow> mr_unmatchedTarget r = {}) \<and>
   (unambiguous src tgt \<longrightarrow> mr_success r \<and> mr_warnings r = [])"
proof -
  define r where "r = smartMatch src tgt"
  have "match_inv src tgt (length tgt) r" unfolding r_def by (rule smartMatch_inv)
  moreover have "mr_success r \<longleftrightarrow> mr_unmatchedTarget r = {}"
    using calculation smartMatch_success [of src tgt] by (auto simp: match_inv_def r_def)
  moreover have "unambiguous src tgt \<longrightarrow> mr_success r \<and> mr_warnings r = []"
    using calculation(1) smartMatch_unambiguous [of src tgt] by (simp add: match_inv_def r_def)
  ultimately show ?thesis by (simp add: match_inv_def r_def Let_def)
qed

text \<open>Two values, two parameters in the other order.\<close>

theorem smart_match_witness:
  "let src = [\<lparr>rp_type = named_type [''int''], rp_name = ''n'', rp_loc = default_loc\<rparr>,
              \<lparr>rp_type = named_type [''bool''], rp_name = ''ok'', rp_loc = default_loc\<rparr>];
       tgt = [\<lparr>pm_type = named_type [''bool''], pm_name = ''flag''\<rparr>,
              \<lparr>pm_type = named_type [''int''], pm_name = ''count''\<rparr>]
   in unambiguous src tgt \<and> mr_success (smartMatch src tgt) \<and>
      mr_matches (smartMatch src tgt) = [(1, 0), (0, 1)]"
proof -
  let ?src = "[\<lparr>rp_type = named_type [''int''], rp_name = ''n'', rp_loc = default_loc\<rparr>,
              \<lparr>rp_type = named_type [''bool''], rp_name = ''ok'', rp_loc = default_loc\<rparr>]"
  let ?tgt = "[\<lparr>pm_type = named_type [''bool''], pm_name = ''flag''\<rparr>,
              \<lparr>pm_type = named_type [''int''], pm_name = ''count''\<rparr>]"
  have a: "unambiguous ?src ?tgt"
    by (simp add: unambiguous_def sourceByType_def named_type_def upt_rec)
  have "mr_matches (smartMatch ?src ?tgt) = [(1, 0), (0, 1)]"
    by (simp add: smartMatch_def matchInit_def matchTarget_def matchBind_def sourceByType_def
        named_type_def upt_rec Let_def)
  with a smart_match [of ?src ?tgt] show ?thesis by (simp only: Let_def) blast
qed

end
