(* ===== verification/Pipeline.thy ===== *)
theory Pipeline
  imports Matcher
begin

text \<open>
  Pipelines and their names in the semantic analyzer
  (\<open>lib/Sema/SemanticAnalyzer.cpp\<close>): \<open>normalizeName\<close>, \<open>resolveCallee\<close> and
  \<open>validatePipeline\<close> in the order of the code: terminal edges, the graph, the node
  check, Kahn's algorithm with its stages, the type check of every node, the demand
  analysis and the call sites.  \<open>std::map\<close> and \<open>std::set\<close> are sorted lists; the
  working copy of the in-degrees is an association list that nothing iterates over.
\<close>

section \<open>Names\<close>

fun doubleColons :: "string \<Rightarrow> string" where
  "doubleColons [] = []"
| "doubleColons [c] = (if c = CHR '':'' then ''::'' else [c])"
| "doubleColons (c # d # cs) =
     (if c = CHR '':'' \<and> d = CHR '':'' then ''::'' @ doubleColons cs
      else if c = CHR '':'' then ''::'' @ doubleColons (d # cs)
      else c # doubleColons (d # cs))"

definition normalizeName :: "string \<Rightarrow> string" where
  "normalizeName dottedName =
     doubleColons (map (\<lambda>c. if c = CHR ''.'' then CHR '':'' else c) dottedName)"

text \<open>The namespace prefix of a qualified name, with its trailing \<open>::\<close>.\<close>

definition nsPrefixOf :: "string \<Rightarrow> string" where
  "nsPrefixOf blockName =
     (case rfind_str ''::'' blockName of
        Some lastSep \<Rightarrow> substr blockName 0 (lastSep + 2)
      | None \<Rightarrow> [])"

definition declaredFn :: "SymbolTable \<Rightarrow> string \<Rightarrow> bool" where
  "declaredFn t q \<longleftrightarrow> findFunction q t \<noteq> None"

definition stripTrailing :: "string \<Rightarrow> string" where
  "stripTrailing p = (if is_suffix ''::'' p then substr p 0 (length p - 2) else p)"

text \<open>
  The walk over the parent namespaces.  The counter of the source starts at 100 and is
  decremented before each test, so that the body runs at most 99 times; at the top
  level the second walk tries the bare name.
\<close>

fun parentWalk :: "SymbolTable \<Rightarrow> bool \<Rightarrow> string \<Rightarrow> nat \<Rightarrow> string \<Rightarrow> string option" where
  "parentWalk t atTop callee 0 pre = None"
| "parentWalk t atTop callee (Suc k) pre =
     (if pre = [] then None
      else
        let p = stripTrailing pre in
        (case rfind_str ''::'' p of
           Some sep \<Rightarrow>
             let p' = substr p 0 (sep + 2) in
             if declaredFn t (p' @ callee) then Some (p' @ callee)
             else parentWalk t atTop callee k p'
         | None \<Rightarrow> if atTop \<and> declaredFn t callee then Some callee else None))"

definition resolveCallee :: "SymbolTable \<Rightarrow> string \<Rightarrow> string \<Rightarrow> string" where
  "resolveCallee t callee nsPrefix =
     (if nsPrefix \<noteq> [] \<and> declaredFn t (nsPrefix @ callee) then nsPrefix @ callee
      else
        let qualified = (find_str ''::'' callee \<noteq> None) in
        if qualified \<and> declaredFn t callee then callee
        else
          (case parentWalk t (\<not> qualified) callee 99 nsPrefix of
             Some q \<Rightarrow> q
           | None \<Rightarrow> []))"

section \<open>The graph\<close>

definition smap_get :: "'v \<Rightarrow> ('k \<times> 'v) list \<Rightarrow> 'k \<Rightarrow> 'v" where
  "smap_get d m k = (case map_of m k of Some v \<Rightarrow> v | None \<Rightarrow> d)"

definition isTypeTarget :: "SymbolTable \<Rightarrow> string \<Rightarrow> bool" where
  "isTypeTarget t name \<longleftrightarrow>
     findTypeAlias name t \<noteq> None \<or> isImportedType name t \<or>
     (\<exists>(n, ta) \<in> set (st_typeAliases t). ty_toString (ta_targetType ta) = name)"

definition resolveTerminal :: "SymbolTable \<Rightarrow> PipelineEdge \<Rightarrow> PipelineEdge" where
  "resolveTerminal t e =
     (if \<not> pe_isTerminal e \<and> pe_target e \<noteq> [] \<and> isTypeTarget t (pe_target e)
      then e\<lparr>pe_isTerminal := True, pe_terminalType := pe_target e, pe_target := []\<rparr>
      else e)"

record PipelineGraph =
  pg_nodes :: "string list"
  pg_adj :: "(string \<times> string list) list"
  pg_inDegree :: "(string \<times> int) list"
  pg_terminalCount :: int
  pg_terminalNode :: string
  pg_terminalType :: string

definition empty_graph :: PipelineGraph where
  "empty_graph =
     \<lparr>pg_nodes = [], pg_adj = [], pg_inDegree = [], pg_terminalCount = 0,
      pg_terminalNode = [], pg_terminalType = []\<rparr>"

definition ensureEntry :: "string \<Rightarrow> 'v \<Rightarrow> (string \<times> 'v) list \<Rightarrow> (string \<times> 'v) list" where
  "ensureEntry k v m = (if map_of m k = None then smap_put k v m else m)"

definition addEdge :: "PipelineEdge \<Rightarrow> PipelineGraph \<Rightarrow> PipelineGraph" where
  "addEdge e g =
     (let src = pe_source e; tgt = pe_target e;
          g1 = g\<lparr>pg_nodes := insort_insert src (pg_nodes g),
                 pg_adj := ensureEntry src [] (pg_adj g)\<rparr>
      in
      if pe_isTerminal e then
        g1\<lparr>pg_terminalCount := pg_terminalCount g1 + 1, pg_terminalNode := src,
           pg_terminalType := pe_terminalType e\<rparr>
      else
        g1\<lparr>pg_nodes := insort_insert tgt (pg_nodes g1),
           pg_adj := smap_put src (smap_get [] (pg_adj g1) src @ [tgt]) (pg_adj g1),
           pg_inDegree :=
             ensureEntry src 0
               (smap_put tgt (smap_get 0 (pg_inDegree g1) tgt + 1) (pg_inDegree g1))\<rparr>)"

definition buildGraph :: "PipelineEdge list \<Rightarrow> PipelineGraph" where
  "buildGraph edges =
     (let g = fold addEdge edges empty_graph in
      g\<lparr>pg_inDegree := fold (\<lambda>node. ensureEntry node 0) (pg_nodes g) (pg_inDegree g)\<rparr>)"

section \<open>Kahn's algorithm\<close>

record KahnState =
  ks_queue :: "string list"
  ks_topoOrder :: "string list"
  ks_stageMap :: "(string \<times> int) list"
  ks_inDeg :: "(string \<times> int) list"

definition relax :: "string \<Rightarrow> string \<Rightarrow> KahnState \<Rightarrow> KahnState" where
  "relax node nxt s =
     (let candidateStage = smap_get 0 (ks_stageMap s) node + 1;
          stageMap =
            (if map_of (ks_stageMap s) nxt = None \<or> candidateStage > smap_get 0 (ks_stageMap s) nxt
             then smap_put nxt candidateStage (ks_stageMap s) else ks_stageMap s);
          d = smap_get 0 (ks_inDeg s) nxt - 1
      in s\<lparr>ks_stageMap := stageMap,
           ks_inDeg := AList.update nxt d (ks_inDeg s),
           ks_queue := (if d = 0 then ks_queue s @ [nxt] else ks_queue s)\<rparr>)"

definition popNode :: "(string \<times> string list) list \<Rightarrow> string \<Rightarrow> string list \<Rightarrow> KahnState \<Rightarrow> KahnState" where
  "popNode adj node q s =
     fold (relax node) (smap_get [] adj node)
       (s\<lparr>ks_queue := q, ks_topoOrder := ks_topoOrder s @ [node]\<rparr>)"

text \<open>What bounds the loop: the queue and the positive in-degrees.\<close>

definition positives :: "(string \<times> int) list \<Rightarrow> nat" where
  "positives m = length (filter (\<lambda>(k, v). v > 0) m)"

lemma positives_update:
  "positives (AList.update k v m) \<le> positives m + (if v > 0 then 1 else 0)"
  by (induction m) (auto simp: positives_def)

lemma positives_decrement:
  "smap_get 0 m k > 0 \<Longrightarrow>
   positives (AList.update k (smap_get 0 m k - 1) m) + (if smap_get 0 m k = 1 then 1 else 0) = positives m"
  by (induction m) (auto simp: positives_def smap_get_def)

lemma positives_nonpositive:
  "smap_get 0 m k \<le> 0 \<Longrightarrow> positives (AList.update k (smap_get 0 m k - 1) m) \<le> positives m"
  by (induction m) (auto simp: positives_def smap_get_def)

lemma relax_measure:
  "length (ks_queue (relax node nxt s)) + positives (ks_inDeg (relax node nxt s))
     \<le> length (ks_queue s) + positives (ks_inDeg s)"
proof (cases "smap_get 0 (ks_inDeg s) nxt > 0")
  case True
  from positives_decrement [OF this] show ?thesis
    by (auto simp: relax_def Let_def split: if_splits)
next
  case False
  with positives_nonpositive [of "ks_inDeg s" nxt] show ?thesis
    by (auto simp: relax_def Let_def)
qed

lemma relax_fold_measure:
  "length (ks_queue (fold (relax node) ns s)) + positives (ks_inDeg (fold (relax node) ns s))
     \<le> length (ks_queue s) + positives (ks_inDeg s)"
proof (induction ns arbitrary: s)
  case (Cons n ns)
  from Cons.IH [of "relax node n s"] relax_measure [of node n s] show ?case by simp
qed simp

function (sequential) kahnLoop :: "(string \<times> string list) list \<Rightarrow> KahnState \<Rightarrow> KahnState" where
  "kahnLoop adj s =
     (case ks_queue s of
        [] \<Rightarrow> s
      | node # q \<Rightarrow> kahnLoop adj (popNode adj node q s))"
  by pat_completeness auto
termination
proof (relation "measure (\<lambda>(adj, s). length (ks_queue s) + positives (ks_inDeg s))", goal_cases)
  case (2 adj s node q)
  have "length (ks_queue (popNode adj node q s)) + positives (ks_inDeg (popNode adj node q s))
      \<le> length q + positives (ks_inDeg s)"
    unfolding popNode_def
    by (rule order_trans [OF relax_fold_measure]) simp
  with 2 show ?case by simp
qed simp

declare kahnLoop.simps [simp del]

definition kahnInit :: "PipelineGraph \<Rightarrow> KahnState" where
  "kahnInit g =
     (let queue = map fst (filter (\<lambda>(node, deg). deg = 0) (pg_inDegree g)) in
      \<lparr>ks_queue = queue, ks_topoOrder = [],
       ks_stageMap = fold (\<lambda>node. smap_put node 0) queue [],
       ks_inDeg = pg_inDegree g\<rparr>)"

definition kahn :: "PipelineGraph \<Rightarrow> KahnState" where
  "kahn g = kahnLoop (pg_adj g) (kahnInit g)"

section \<open>Types along the edges\<close>

definition resolveNodes :: "SymbolTable \<Rightarrow> string \<Rightarrow> string list \<Rightarrow> string umap" where
  "resolveNodes t nsPrefix nodes =
     concat (map (\<lambda>node.
       let q = resolveCallee t node nsPrefix in if q \<noteq> [] then [(node, q)] else []) nodes)"

definition qualifyNode :: "string umap \<Rightarrow> string \<Rightarrow> string" where
  "qualifyNode resolved node = (case map_of resolved node of Some q \<Rightarrow> q | None \<Rightarrow> node)"

definition reverseAdj :: "PipelineEdge list \<Rightarrow> (string \<times> string list) list" where
  "reverseAdj edges =
     fold (\<lambda>e m. if pe_isTerminal e then m
                else smap_put (pe_target e) (smap_get [] m (pe_target e) @ [pe_source e]) m)
       edges []"

text \<open>What the predecessors of one node produce.\<close>

record PredInfo =
  pi_returns :: "ReturnParam list"
  pi_names :: string
  pi_anyMultiReturn :: bool
  pi_singleReturn :: "FunctionSymbol option"
  pi_count :: int

definition addPred :: "SymbolTable \<Rightarrow> (string \<Rightarrow> string) \<Rightarrow> string \<Rightarrow> PredInfo \<Rightarrow> PredInfo" where
  "addPred t qualify pred info =
     (case findFunction (qualify pred) t of
        None \<Rightarrow> info
      | Some srcFunc \<Rightarrow>
          let info1 = info\<lparr>pi_names :=
                  (if pi_names info \<noteq> [] then pi_names info @ '', '' else []) @ pred,
                pi_count := pi_count info + 1\<rparr>
          in if fs_isMultiReturn srcFunc
             then info1\<lparr>pi_anyMultiReturn := True,
                        pi_returns := pi_returns info1 @ fs_returnParams srcFunc\<rparr>
             else info1\<lparr>pi_singleReturn := Some srcFunc\<rparr>)"

definition predInfo :: "SymbolTable \<Rightarrow> (string \<Rightarrow> string) \<Rightarrow> string list \<Rightarrow> PredInfo" where
  "predInfo t qualify preds =
     fold (addPred t qualify) preds
       \<lparr>pi_returns = [], pi_names = [], pi_anyMultiReturn = False, pi_singleReturn = None,
        pi_count = 0\<rparr>"

text \<open>
  A node none of whose producers returns several values: inside a \<open>flow\<close> a lone
  producer's return type must be the consumer's only parameter type.
\<close>

definition checkFlowNode ::
  "LogicBlockEntry \<Rightarrow> string \<Rightarrow> PredInfo \<Rightarrow> FunctionSymbol \<Rightarrow> DiagnosticEngine \<Rightarrow> DiagnosticEngine" where
  "checkFlowNode block targetNode info tgtFunc diag =
     (case pi_singleReturn info of
        None \<Rightarrow> diag
      | Some producer \<Rightarrow>
          if lb_isFlow block \<and> pi_count info = 1 \<and> \<not> pi_anyMultiReturn info \<and>
             length (fs_params tgtFunc) = 1
          then
            let produced = ty_toString (fs_returnType producer);
                expected = ty_toString (pm_type (fs_params tgtFunc ! 0))
            in if produced \<noteq> expected
               then diag_error (lb_location block)
                      (''pipeline node '' @ quoted targetNode @ '' (from ['' @ pi_names info @
                       '']): input type '' @ quoted expected @
                       '' does not match producer return type '' @ quoted produced) [] diag
               else diag
          else diag)"

definition checkNode ::
  "SymbolTable \<Rightarrow> (string \<Rightarrow> string) \<Rightarrow> LogicBlockEntry \<Rightarrow> string \<times> string list \<Rightarrow>
   DiagnosticEngine \<Rightarrow> DiagnosticEngine" where
  "checkNode t qualify block tp diag =
     (case tp of (targetNode, preds) \<Rightarrow>
       (case findFunction (qualify targetNode) t of
          None \<Rightarrow> diag
        | Some tgtFunc \<Rightarrow>
            let info = predInfo t qualify preds;
                context = ''pipeline node '' @ quoted targetNode @ '' (from ['' @ pi_names info @ '']): ''
            in
            if pi_returns info = [] then checkFlowNode block targetNode info tgtFunc diag
            else
              let m = smartMatch (pi_returns info) (fs_params tgtFunc);
                  diag1 = (if mr_success m then diag
                           else fold (\<lambda>err. diag_error (lb_location block) (context @ err) [])
                                  (mr_errors m) diag)
              in fold (\<lambda>w. diag_warning (lb_location block) (context @ w) []) (mr_warnings m) diag1))"

section \<open>Demand\<close>

type_synonym demand = "(string \<times> string list) list"

definition demandName :: "string \<Rightarrow> string \<Rightarrow> demand \<Rightarrow> demand" where
  "demandName node name d = smap_put node (insort_insert name (smap_get [] d node)) d"

definition terminalDemand :: "SymbolTable \<Rightarrow> (string \<Rightarrow> string) \<Rightarrow> string \<Rightarrow> demand" where
  "terminalDemand t qualify terminalNode =
     (case findFunction (qualify terminalNode) t of
        Some f \<Rightarrow>
          if fs_isMultiReturn f
          then fold (\<lambda>rp. demandName terminalNode (rp_name rp)) (fs_returnParams f) []
          else []
      | None \<Rightarrow> [])"

text \<open>The returns of the multi-return predecessors, each with its node.\<close>

definition taggedReturns ::
  "SymbolTable \<Rightarrow> (string \<Rightarrow> string) \<Rightarrow> string list \<Rightarrow> (ReturnParam \<times> string) list" where
  "taggedReturns t qualify preds =
     concat (map (\<lambda>pred.
       (case findFunction (qualify pred) t of
          Some f \<Rightarrow> if fs_isMultiReturn f then map (\<lambda>rp. (rp, pred)) (fs_returnParams f) else []
        | None \<Rightarrow> [])) preds)"

definition demandStep ::
  "SymbolTable \<Rightarrow> (string \<Rightarrow> string) \<Rightarrow> (string \<times> string list) list \<Rightarrow> string \<Rightarrow> demand \<Rightarrow> demand" where
  "demandStep t qualify radj node d =
     (case map_of radj node of
        None \<Rightarrow> d
      | Some preds \<Rightarrow>
          (case findFunction (qualify node) t of
             None \<Rightarrow> d
           | Some tgtFunc \<Rightarrow>
               let tagged = taggedReturns t qualify preds;
                   m = smartMatch (map fst tagged) (fs_params tgtFunc)
               in if mr_success m
                  then fold (\<lambda>(si, ti). demandName (snd (tagged ! si)) (rp_name (fst (tagged ! si))))
                         (mr_matches m) d
                  else d))"

definition demandAnalysis ::
  "SymbolTable \<Rightarrow> (string \<Rightarrow> string) \<Rightarrow> (string \<times> string list) list \<Rightarrow> string \<Rightarrow> string list \<Rightarrow> demand" where
  "demandAnalysis t qualify radj terminalNode topoOrder =
     fold (demandStep t qualify radj) (rev topoOrder) (terminalDemand t qualify terminalNode)"

section \<open>Call sites\<close>

definition nodeCallSite ::
  "SymbolTable \<Rightarrow> (string \<Rightarrow> string) \<Rightarrow> string \<Rightarrow> SourceLocation \<Rightarrow> demand \<Rightarrow> string \<Rightarrow> CallSiteInfo" where
  "nodeCallSite t qualify blockName loc demand node =
     (let base = \<lparr>ci_caller = blockName, ci_callee = qualify node, ci_usedReturns = [],
                   ci_style = CS_Full, ci_loc = loc\<rparr>;
          info = (case map_of demand node of
                    Some names \<Rightarrow> base\<lparr>ci_usedReturns := names, ci_style := CS_SmartPass\<rparr>
                  | None \<Rightarrow> base)
      in
      (case findFunction (qualify node) t of
         Some f \<Rightarrow>
           if fs_hasUsedReturnsClause f then
             if ci_style info = CS_Full
             then info\<lparr>ci_usedReturns := fs_usedReturns f, ci_style := CS_SmartPass\<rparr>
             else info\<lparr>ci_usedReturns :=
                         filter (\<lambda>n. n \<in> set (fs_usedReturns f)) (ci_usedReturns info)\<rparr>
           else info
       | None \<Rightarrow> info))"

section \<open>The pass\<close>

record PipelineOutcome =
  po_table :: SymbolTable
  po_block :: LogicBlockEntry
  po_diag :: DiagnosticEngine

definition kMaxPipelineNodes :: nat where
  "kMaxPipelineNodes = 10000"

definition pipelineMessage :: "string \<Rightarrow> string \<Rightarrow> string" where
  "pipelineMessage blockName rest = ''pipeline '' @ quoted blockName @ rest"

definition checkNodesDeclared ::
  "string \<Rightarrow> LogicBlockEntry \<Rightarrow> string umap \<Rightarrow> string list \<Rightarrow> DiagnosticEngine \<Rightarrow> DiagnosticEngine" where
  "checkNodesDeclared blockName block resolved nodes diag =
     fold (\<lambda>node diag.
         if map_of resolved node = None
         then diag_error (lb_location block)
                (pipelineMessage blockName ('' references undeclared function '' @ quoted node))
                ''unknown-function'' diag
         else diag)
       nodes diag"

text \<open>What follows a successful sort: types, demand, call sites and the stored analysis.\<close>

definition finishPipeline ::
  "string \<Rightarrow> SymbolTable \<Rightarrow> LogicBlockEntry \<Rightarrow> string umap \<Rightarrow> PipelineGraph \<Rightarrow> KahnState \<Rightarrow>
   DiagnosticEngine \<Rightarrow> PipelineOutcome" where
  "finishPipeline blockName t block resolved g ks diag =
     (let qualify = qualifyNode resolved;
          radj = reverseAdj (lb_edges block);
          diag1 = fold (checkNode t qualify block) radj diag;
          demand = demandAnalysis t qualify radj (pg_terminalNode g) (ks_topoOrder ks);
          t1 = fold (\<lambda>node. addCallSite (nodeCallSite t qualify blockName (lb_location block) demand node))
                 (pg_nodes g) t;
          block1 = block\<lparr>
            lb_calledFunctions := lb_calledFunctions block @ map qualify (ks_topoOrder ks),
            lb_stages := lb_stages block @ map (smap_get 0 (ks_stageMap ks)) (ks_topoOrder ks),
            lb_pipelineAnalysis :=
              Some \<lparr>pa_stages = ks_stageMap ks, pa_sourceNodes = ks_queue (kahnInit g),
                    pa_terminalNode = pg_terminalNode g, pa_terminalType = pg_terminalType g,
                    pa_demand = demand\<rparr>\<rparr>
      in \<lparr>po_table = t1, po_block = block1, po_diag = diag1\<rparr>)"

definition validatePipeline ::
  "string \<Rightarrow> LogicBlockEntry \<Rightarrow> SymbolTable \<Rightarrow> DiagnosticEngine \<Rightarrow> PipelineOutcome" where
  "validatePipeline blockName block0 t diag =
     (let block = block0\<lparr>lb_edges := map (resolveTerminal t) (lb_edges block0)\<rparr>;
          g = buildGraph (lb_edges block);
          nsPrefix = nsPrefixOf blockName;
          stop = (\<lambda>diag. \<lparr>po_table = t, po_block = block, po_diag = diag\<rparr>)
      in
      if pg_terminalCount g = 0 then
        stop (diag_error (lb_location block)
          (pipelineMessage blockName
             ('' has no terminal edge (need exactly one '' @ quoted ''node -> Type;'' @ '')'')) [] diag)
      else if pg_terminalCount g > 1 then
        stop (diag_error (lb_location block)
          (pipelineMessage blockName
             ('' has '' @ int_to_string (pg_terminalCount g) @ '' terminal edges (need exactly one)'')) [] diag)
      else
        let resolved = resolveNodes t nsPrefix (pg_nodes g);
            diag1 = checkNodesDeclared blockName block resolved (pg_nodes g) diag
        in
        if length (pg_nodes g) > kMaxPipelineNodes then
          stop (diag_error (lb_location block)
            (pipelineMessage blockName '' exceeds maximum node count (10000)'') [] diag1)
        else
          let ks = kahn g in
          if length (ks_topoOrder ks) \<noteq> length (pg_nodes g) then
            stop (diag_error (lb_location block)
              (pipelineMessage blockName '' contains a cycle'') [] diag1)
          else finishPipeline blockName t block resolved g ks diag1)"

end
