(* ===== verification/Pipeline_Laws.thy ===== *)
theory Pipeline_Laws
  imports Pipeline "HOL-Library.Multiset"
begin

text \<open>
  The laws of pipeline validation: the graph the code builds is the one the edges
  describe, Kahn's loop yields a topological order with longest-path stages exactly for
  acyclic graphs, and the demand analysis keeps every value that a stage consumes.
\<close>

section \<open>Lookups in the sorted maps\<close>

named_theorems smap_rules \<open>lookups in sorted maps\<close>

lemma smap_get_Nil [simp, smap_rules]: "smap_get d [] k = d"
  by (simp add: smap_get_def)

lemma smap_get_put [simp, smap_rules]:
  "smap_get d (smap_put k v m) j = (if j = k then v else smap_get d m j)"
  by (simp add: smap_get_def smap_put_map_of)

lemma smap_get_update [simp, smap_rules]:
  "smap_get d (AList.update k v m) j = (if j = k then v else smap_get d m j)"
  by (simp add: smap_get_def update_conv')

lemma smap_get_ensure [simp, smap_rules]: "smap_get d (ensureEntry k d m) j = smap_get d m j"
  by (simp add: ensureEntry_def smap_get_def smap_put_map_of)

lemma map_of_ensure [simp, smap_rules]:
  "map_of (ensureEntry k v m) j = (if j = k \<and> map_of m k = None then Some v else map_of m j)"
  by (simp add: ensureEntry_def smap_put_map_of)

lemma ensure_sorted:
  "sorted_wrt (<) (map fst m) \<Longrightarrow> sorted_wrt (<) (map fst (ensureEntry k v m))"
  by (simp add: ensureEntry_def smap_put_sorted)

lemma fold_ensure_get: "smap_get d (fold (\<lambda>k. ensureEntry k d) ks m) j = smap_get d m j"
  by (induction ks arbitrary: m) simp_all

lemma fold_ensure_dom:
  "map_of (fold (\<lambda>k. ensureEntry k d) ks m) j \<noteq> None \<longleftrightarrow> map_of m j \<noteq> None \<or> j \<in> set ks"
  by (induction ks arbitrary: m) auto

lemma fold_ensure_sorted:
  "sorted_wrt (<) (map fst m) \<Longrightarrow> sorted_wrt (<) (map fst (fold (\<lambda>k. ensureEntry k d) ks m))"
  by (induction ks arbitrary: m) (simp_all add: ensure_sorted)

section \<open>The graph\<close>

text \<open>The edges between nodes, and the nodes, as the block writes them.\<close>

definition flowEdges :: "PipelineEdge list \<Rightarrow> (string \<times> string) list" where
  "flowEdges edges = map (\<lambda>e. (pe_source e, pe_target e)) (filter (\<lambda>e. \<not> pe_isTerminal e) edges)"

definition flowNodes :: "PipelineEdge list \<Rightarrow> string set" where
  "flowNodes edges = pe_source ` set edges \<union> snd ` set (flowEdges edges)"

definition succs :: "(string \<times> string) list \<Rightarrow> string \<Rightarrow> string list" where
  "succs E n = map snd (filter (\<lambda>p. fst p = n) E)"

definition indeg :: "(string \<times> string) list \<Rightarrow> string \<Rightarrow> nat" where
  "indeg E n = length (filter (\<lambda>p. snd p = n) E)"

definition graph_ok :: "PipelineEdge list \<Rightarrow> PipelineGraph \<Rightarrow> bool" where
  "graph_ok edges g \<longleftrightarrow>
     set (pg_nodes g) = flowNodes edges \<and> sorted (pg_nodes g) \<and> distinct (pg_nodes g) \<and>
     (\<forall>n. smap_get [] (pg_adj g) n = succs (flowEdges edges) n) \<and>
     (\<forall>n. smap_get 0 (pg_inDegree g) n = int (indeg (flowEdges edges) n)) \<and>
     (\<forall>n. map_of (pg_inDegree g) n \<noteq> None \<longrightarrow> n \<in> flowNodes edges) \<and>
     sorted_wrt (<) (map fst (pg_inDegree g)) \<and>
     pg_terminalCount g = int (length (filter pe_isTerminal edges)) \<and>
     (pg_terminalCount g \<noteq> 0 \<longrightarrow>
        pg_terminalNode g = pe_source (last (filter pe_isTerminal edges)) \<and>
        pg_terminalType g = pe_terminalType (last (filter pe_isTerminal edges)))"

lemma graph_ok_add: "graph_ok edges g \<Longrightarrow> graph_ok (edges @ [e]) (addEdge e g)"
  by (cases "pe_isTerminal e")
    (auto simp: graph_ok_def addEdge_def Let_def flowEdges_def flowNodes_def succs_def indeg_def
      set_insort_insert sorted_insort_insert distinct_insort_insert smap_put_map_of
      intro!: ensure_sorted smap_put_sorted)

lemma graph_ok_fold: "graph_ok edges (fold addEdge edges empty_graph)"
proof (induction edges rule: rev_induct)
  case Nil
  then show ?case
    by (simp add: graph_ok_def empty_graph_def flowEdges_def flowNodes_def succs_def indeg_def)
next
  case (snoc e edges)
  then show ?case by (simp add: graph_ok_add)
qed

lemma buildGraph_ok:
  "graph_ok edges (buildGraph edges)"
  "map_of (pg_inDegree (buildGraph edges)) n \<noteq> None \<longleftrightarrow> n \<in> flowNodes edges"
proof -
  let ?g = "fold addEdge edges empty_graph"
  have g: "graph_ok edges ?g" by (rule graph_ok_fold)
  have dom: "map_of (fold (\<lambda>n. ensureEntry n 0) (pg_nodes ?g) (pg_inDegree ?g)) k \<noteq> None \<longleftrightarrow>
      k \<in> flowNodes edges" for k
    unfolding fold_ensure_dom using g by (auto simp: graph_ok_def)
  from g dom show "graph_ok edges (buildGraph edges)"
    by (simp add: graph_ok_def buildGraph_def Let_def fold_ensure_get fold_ensure_sorted)
  from dom show "map_of (pg_inDegree (buildGraph edges)) n \<noteq> None \<longleftrightarrow> n \<in> flowNodes edges"
    by (simp add: buildGraph_def Let_def)
qed

lemma flowEdges_nodes: "(a, b) \<in> set (flowEdges edges) \<Longrightarrow> a \<in> flowNodes edges \<and> b \<in> flowNodes edges"
  by (force simp: flowNodes_def flowEdges_def)

section \<open>Kahn's loop\<close>

text \<open>
  An order of which every prefix is closed under predecessors, and stages that are the
  lengths of longest paths with respect to the relaxed edges \<open>rel\<close>.
\<close>

definition ordered :: "(string \<times> string) list \<Rightarrow> string list \<Rightarrow> bool" where
  "ordered E xs \<longleftrightarrow> (\<forall>i < length xs. \<forall>a. (a, xs ! i) \<in> set E \<longrightarrow> a \<in> set (take i xs))"

definition staged ::
  "(string \<times> string) list \<Rightarrow> (string \<times> string) set \<Rightarrow> string set \<Rightarrow> (string \<times> int) list \<Rightarrow> bool" where
  "staged E rel V m \<longleftrightarrow>
     (\<forall>n \<in> V. map_of m n = None \<longleftrightarrow> indeg E n \<noteq> 0 \<and> n \<notin> snd ` rel) \<and>
     (\<forall>(a, b) \<in> rel. smap_get 0 m a + 1 \<le> smap_get 0 m b) \<and>
     (\<forall>n k. map_of m n = Some k \<longrightarrow>
        n \<in> V \<and> (k = 0 \<and> indeg E n = 0 \<or> (\<exists>a. (a, n) \<in> rel \<and> k = smap_get 0 m a + 1)))"

text \<open>The loop's invariant: \<open>rel\<close> are the edges relaxed so far, \<open>todo\<close> the others.\<close>

definition kahn_inv ::
  "(string \<times> string) list \<Rightarrow> string set \<Rightarrow> KahnState \<Rightarrow> (string \<times> string) multiset \<Rightarrow>
   (string \<times> string) multiset \<Rightarrow> bool" where
  "kahn_inv E V s rel todo \<longleftrightarrow>
     mset E = rel + todo \<and>
     distinct (ks_topoOrder s @ ks_queue s) \<and> set (ks_topoOrder s @ ks_queue s) \<subseteq> V \<and>
     (\<forall>n. smap_get 0 (ks_inDeg s) n = int (count (image_mset snd todo) n)) \<and>
     (\<forall>n \<in> V. n \<in> set (ks_topoOrder s @ ks_queue s) \<longleftrightarrow> n \<notin># image_mset snd todo) \<and>
     fst ` set_mset rel \<subseteq> set (ks_topoOrder s) \<and>
     ordered E (ks_topoOrder s) \<and>
     staged E (set_mset rel) V (ks_stageMap s)"

lemma relax_sel [simp]:
  "ks_topoOrder (relax x t s) = ks_topoOrder s"
  "ks_inDeg (relax x t s) = AList.update t (smap_get 0 (ks_inDeg s) t - 1) (ks_inDeg s)"
  by (simp_all add: relax_def Let_def)

lemma relax_queue:
  "ks_queue (relax x t s) = ks_queue s @ (if smap_get 0 (ks_inDeg s) t = 1 then [t] else [])"
  by (simp add: relax_def Let_def)

lemma relax_stage:
  "ks_stageMap (relax x t s) =
     (if map_of (ks_stageMap s) t = None \<or> smap_get 0 (ks_stageMap s) t < smap_get 0 (ks_stageMap s) x + 1
      then smap_put t (smap_get 0 (ks_stageMap s) x + 1) (ks_stageMap s) else ks_stageMap s)"
  by (simp add: relax_def Let_def)

lemma staged_relax:
  assumes st: "staged E rel V m" and t: "t \<in> V" and new: "t \<notin> fst ` rel" and x: "x \<noteq> t"
    and m': "m' = (if map_of m t = None \<or> smap_get 0 m t < smap_get 0 m x + 1
                   then smap_put t (smap_get 0 m x + 1) m else m)"
  shows "staged E (insert (x, t) rel) V m'"
proof -
  have same: "smap_get 0 m' a = smap_get 0 m a" if "a \<noteq> t" for a
    using that m' by simp
  have same': "map_of m' n = map_of m n" if "n \<noteq> t" for n
    using that m' by (simp add: smap_put_map_of)
  have up: "smap_get 0 m t \<le> smap_get 0 m' t \<or> map_of m t = None" "smap_get 0 m x + 1 \<le> smap_get 0 m' t"
    using m' by auto
  have ct: "map_of m' t = Some (smap_get 0 m' t)"
    using m' by (auto simp: smap_put_map_of smap_get_def split: option.splits)
  have none: "(\<forall>n \<in> V. map_of m n = None \<longleftrightarrow> indeg E n \<noteq> 0 \<and> n \<notin> snd ` rel)"
    and le: "\<And>a b. (a, b) \<in> rel \<Longrightarrow> smap_get 0 m a + 1 \<le> smap_get 0 m b"
    and att: "\<And>n k. map_of m n = Some k \<Longrightarrow>
      n \<in> V \<and> (k = 0 \<and> indeg E n = 0 \<or> (\<exists>a. (a, n) \<in> rel \<and> k = smap_get 0 m a + 1))"
    using st by (auto simp: staged_def)
  have norel: "a \<noteq> t" if "(a, b) \<in> rel" for a b
    using that new by force
  have "map_of m' n = None \<longleftrightarrow> indeg E n \<noteq> 0 \<and> n \<notin> snd ` insert (x, t) rel" if "n \<in> V" for n
    using that none ct same' by (cases "n = t") auto
  moreover have "smap_get 0 m' a + 1 \<le> smap_get 0 m' b" if ab: "(a, b) \<in> insert (x, t) rel" for a b
  proof (cases "(a, b) = (x, t)")
    case True
    with up(2) x same show ?thesis by simp
  next
    case False
    with ab have ab': "(a, b) \<in> rel" by blast
    with norel same have "smap_get 0 m' a = smap_get 0 m a" by blast
    moreover have "smap_get 0 m b \<le> smap_get 0 m' b"
    proof (cases "b = t")
      case True
      with ab' none t have "map_of m t \<noteq> None" by (force simp: image_iff)
      with True up(1) show ?thesis by simp
    qed (simp add: same)
    ultimately show ?thesis using le [OF ab'] by simp
  qed
  moreover have "n \<in> V \<and> (k = 0 \<and> indeg E n = 0 \<or>
      (\<exists>a. (a, n) \<in> insert (x, t) rel \<and> k = smap_get 0 m' a + 1))" if nk: "map_of m' n = Some k" for n k
  proof (cases "map_of m n = Some k")
    case True
    from att [OF True] norel same show ?thesis by (metis insertI2)
  next
    case False
    with nk same' have n: "n = t" by metis
    with False nk ct m' have "k = smap_get 0 m x + 1" by (auto split: if_splits)
    with n t x same show ?thesis by auto
  qed
  ultimately show ?thesis by (auto simp: staged_def)
qed

lemma kahn_inv_relax:
  assumes inv: "kahn_inv E V s rel (add_mset (x, t) todo)"
    and x: "x \<in> set (ks_topoOrder s)" and t: "t \<in> V"
  shows "kahn_inv E V (relax x t s) (add_mset (x, t) rel) todo"
proof -
  let ?s = "relax x t s"
  have deg: "smap_get 0 (ks_inDeg s) n = int (count (image_mset snd todo) n) + (if n = t then 1 else 0)" for n
    using inv by (simp add: kahn_inv_def)
  have mem: "n \<in> set (ks_topoOrder s @ ks_queue s) \<longleftrightarrow> n \<notin># image_mset snd todo \<and> n \<noteq> t" if "n \<in> V" for n
    using inv that by (auto simp: kahn_inv_def)
  have out: "t \<notin> set (ks_topoOrder s @ ks_queue s)" using mem [OF t] by simp
  have last: "smap_get 0 (ks_inDeg s) t = 1 \<longleftrightarrow> t \<notin># image_mset snd todo"
    by (simp add: deg count_eq_zero_iff del: set_image_mset)
  have q: "distinct (ks_topoOrder ?s @ ks_queue ?s)" "set (ks_topoOrder ?s @ ks_queue ?s) \<subseteq> V"
    using inv out t by (auto simp: kahn_inv_def relax_queue)
  have mem': "\<forall>n \<in> V. n \<in> set (ks_topoOrder ?s @ ks_queue ?s) \<longleftrightarrow> n \<notin># image_mset snd todo"
    using mem last by (auto simp: relax_queue simp del: set_image_mset)
  have deg': "\<forall>n. smap_get 0 (ks_inDeg ?s) n = int (count (image_mset snd todo) n)"
    using deg by simp
  have rel: "fst ` set_mset rel \<subseteq> set (ks_topoOrder s)" and st: "staged E (set_mset rel) V (ks_stageMap s)"
    using inv by (auto simp: kahn_inv_def)
  have "t \<notin> fst ` set_mset rel" "x \<noteq> t" using rel out x by auto
  from staged_relax [OF st t this relax_stage]
  have st': "staged E (set_mset (add_mset (x, t) rel)) V (ks_stageMap ?s)" by simp
  have "mset E = add_mset (x, t) rel + todo" "ordered E (ks_topoOrder ?s)"
    using inv by (simp_all add: kahn_inv_def)
  moreover have "fst ` set_mset (add_mset (x, t) rel) \<subseteq> set (ks_topoOrder ?s)"
    using rel x by simp
  ultimately show ?thesis
    using q mem' deg' st' unfolding kahn_inv_def by blast
qed

lemma kahn_inv_relax_fold:
  "kahn_inv E V s rel (mset (map (Pair x) ts) + todo) \<Longrightarrow> x \<in> set (ks_topoOrder s) \<Longrightarrow> set ts \<subseteq> V \<Longrightarrow>
   kahn_inv E V (fold (relax x) ts s) (mset (map (Pair x) ts) + rel) todo"
proof (induction ts arbitrary: s rel)
  case (Cons t ts)
  then have "kahn_inv E V (relax x t s) (add_mset (x, t) rel) (mset (map (Pair x) ts) + todo)"
    by (intro kahn_inv_relax) simp_all
  from Cons.IH [OF this] Cons.prems show ?case by simp
qed simp

lemma fold_relax_topo [simp]: "ks_topoOrder (fold (relax x) ts s) = ks_topoOrder s"
  by (induction ts arbitrary: s) simp_all

text \<open>The edges whose source has not been sorted yet.\<close>

definition pending :: "(string \<times> string) list \<Rightarrow> string list \<Rightarrow> (string \<times> string) multiset" where
  "pending E xs = filter_mset (\<lambda>p. fst p \<notin> set xs) (mset E)"

lemma pending_snoc:
  "x \<notin> set xs \<Longrightarrow> pending E xs = mset (map (Pair x) (succs E x)) + pending E (xs @ [x])"
  by (induction E) (auto simp: pending_def succs_def)

lemma ordered_snoc:
  "ordered E xs \<Longrightarrow> (\<And>a. (a, x) \<in> set E \<Longrightarrow> a \<in> set xs) \<Longrightarrow> ordered E (xs @ [x])"
  by (auto simp: ordered_def nth_append less_Suc_eq)

lemma kahn_inv_pop:
  assumes inv: "kahn_inv E V s rel (pending E (ks_topoOrder s))"
    and q: "ks_queue s = x # q" and EV: "set E \<subseteq> V \<times> V"
    and adj: "smap_get [] adj x = succs E x"
  shows "kahn_inv E V (popNode adj x q s) (mset (map (Pair x) (succs E x)) + rel)
           (pending E (ks_topoOrder (popNode adj x q s)))"
proof -
  let ?s = "s\<lparr>ks_queue := q, ks_topoOrder := ks_topoOrder s @ [x]\<rparr>"
  have x: "x \<in> V" "x \<notin> set (ks_topoOrder s)" "x \<notin># image_mset snd (pending E (ks_topoOrder s))"
    using inv q by (auto simp: kahn_inv_def)
  have all: "mset E = rel + pending E (ks_topoOrder s)" and rel: "fst ` set_mset rel \<subseteq> set (ks_topoOrder s)"
    and ord: "ordered E (ks_topoOrder s)"
    using inv by (auto simp: kahn_inv_def)
  have "a \<in> set (ks_topoOrder s)" if "(a, x) \<in> set E" for a
  proof -
    have "(a, x) \<in># rel + pending E (ks_topoOrder s)"
      using that by (simp flip: all)
    with x(3) rel show ?thesis by force
  qed
  with ord have "ordered E (ks_topoOrder ?s)" by (simp add: ordered_snoc)
  then have "kahn_inv E V ?s rel (pending E (ks_topoOrder s))"
    using inv q by (auto simp: kahn_inv_def)
  then have "kahn_inv E V ?s rel (mset (map (Pair x) (succs E x)) + pending E (ks_topoOrder ?s))"
    using pending_snoc [OF x(2), of E] by simp
  moreover have "set (succs E x) \<subseteq> V" using EV by (auto simp: succs_def)
  ultimately have "kahn_inv E V (fold (relax x) (succs E x) ?s) (mset (map (Pair x) (succs E x)) + rel)
      (pending E (ks_topoOrder ?s))"
    by (intro kahn_inv_relax_fold) simp_all
  then show ?thesis by (simp add: popNode_def adj)
qed

lemma kahnLoop_inv:
  assumes "\<forall>n. smap_get [] adj n = succs E n" and "set E \<subseteq> V \<times> V"
    and "kahn_inv E V s rel (pending E (ks_topoOrder s))"
  shows "\<exists>rel'. kahn_inv E V (kahnLoop adj s) rel' (pending E (ks_topoOrder (kahnLoop adj s))) \<and>
    ks_queue (kahnLoop adj s) = []"
  using assms
proof (induction adj s arbitrary: rel rule: kahnLoop.induct)
  case (1 adj s)
  show ?case
  proof (cases "ks_queue s")
    case Nil
    with "1.prems" show ?thesis by (subst (1 2 3) kahnLoop.simps) auto
  next
    case (Cons x q)
    from kahn_inv_pop [OF "1.prems"(3) Cons "1.prems"(2)] "1.prems"(1)
    have "kahn_inv E V (popNode adj x q s) (mset (map (Pair x) (succs E x)) + rel)
        (pending E (ks_topoOrder (popNode adj x q s)))" by blast
    from "1.IH" [OF Cons "1.prems"(1,2) this] Cons show ?thesis
      by (subst (1 2 3) kahnLoop.simps) simp
  qed
qed

lemma smap_put_fold_zero:
  "map_of (fold (\<lambda>n. smap_put n (0 :: int)) ns m) k = (if k \<in> set ns then Some 0 else map_of m k)"
  by (induction ns arbitrary: m) (auto simp: smap_put_map_of)

lemma indeg_count: "indeg E n = count (image_mset snd (mset E)) n"
  by (induction E) (auto simp: indeg_def)

lemma kahnInit_queue:
  assumes g: "graph_ok edges g" and dom: "\<forall>n. map_of (pg_inDegree g) n \<noteq> None \<longleftrightarrow> n \<in> flowNodes edges"
  shows "set (ks_queue (kahnInit g)) = {n \<in> flowNodes edges. indeg (flowEdges edges) n = 0}"
    and "distinct (ks_queue (kahnInit g))" and "sorted (ks_queue (kahnInit g))"
proof -
  have srt: "sorted_wrt (<) (map fst (pg_inDegree g))" using g by (simp add: graph_ok_def)
  then have d: "distinct (map fst (pg_inDegree g))" by (simp add: strict_sorted_iff)
  have "(n, 0) \<in> set (pg_inDegree g) \<longleftrightarrow> n \<in> flowNodes edges \<and> indeg (flowEdges edges) n = 0" for n
  proof -
    have "smap_get 0 (pg_inDegree g) n = int (indeg (flowEdges edges) n)"
      using g by (simp add: graph_ok_def)
    moreover have "(n, 0) \<in> set (pg_inDegree g) \<longleftrightarrow> map_of (pg_inDegree g) n = Some 0"
      using d by (auto intro: map_of_is_SomeI dest: map_of_SomeD)
    ultimately show ?thesis
      using dom [rule_format, of n] by (auto simp: smap_get_def split: option.splits)
  qed
  moreover have "set (ks_queue (kahnInit g)) = {n. (n, 0) \<in> set (pg_inDegree g)}"
    by (force simp: kahnInit_def Let_def)
  ultimately show "set (ks_queue (kahnInit g)) = {n \<in> flowNodes edges. indeg (flowEdges edges) n = 0}"
    by simp
  show "distinct (ks_queue (kahnInit g))"
    using d by (simp add: kahnInit_def Let_def distinct_map_filter)
  have "sorted_wrt (<) (ks_queue (kahnInit g))"
    using srt by (simp add: kahnInit_def Let_def sorted_wrt_map sorted_wrt_filter)
  then show "sorted (ks_queue (kahnInit g))" by (simp add: strict_sorted_iff)
qed

lemma kahnInit_inv:
  assumes g: "graph_ok edges g" and dom: "\<forall>n. map_of (pg_inDegree g) n \<noteq> None \<longleftrightarrow> n \<in> flowNodes edges"
  shows "kahn_inv (flowEdges edges) (flowNodes edges) (kahnInit g) {#}
           (pending (flowEdges edges) (ks_topoOrder (kahnInit g)))"
proof -
  let ?E = "flowEdges edges"
  have q: "set (ks_queue (kahnInit g)) = {n \<in> flowNodes edges. indeg ?E n = 0}"
    "distinct (ks_queue (kahnInit g))"
    using kahnInit_queue [OF assms] by auto
  have sel: "ks_topoOrder (kahnInit g) = []" "ks_inDeg (kahnInit g) = pg_inDegree g"
    "ks_stageMap (kahnInit g) = fold (\<lambda>n. smap_put n 0) (ks_queue (kahnInit g)) []"
    by (simp_all add: kahnInit_def Let_def)
  have "pending ?E [] = mset ?E" by (simp add: pending_def)
  moreover have "smap_get 0 (pg_inDegree g) n = int (count (image_mset snd (mset ?E)) n)" for n
    using g by (simp add: graph_ok_def indeg_count)
  moreover have "staged ?E {} (flowNodes edges) (ks_stageMap (kahnInit g))"
    using q(1) by (auto simp: staged_def sel smap_put_fold_zero split: if_splits)
  moreover have "n \<in> set (ks_queue (kahnInit g)) \<longleftrightarrow> n \<notin># image_mset snd (mset ?E)" if "n \<in> flowNodes edges" for n
    using q(1) that by (simp add: indeg_count count_eq_zero_iff del: set_image_mset)
  ultimately show ?thesis
    using q by (simp add: kahn_inv_def sel ordered_def del: set_image_mset)
qed

text \<open>An order closed under predecessors leaves no room for a cycle.\<close>

lemma ordered_edge:
  assumes "ordered E xs" and "(a, xs ! j) \<in> set E" and "j < length xs"
  shows "\<exists>i < j. xs ! i = a"
proof -
  have "a \<in> set (take j xs)" using assms by (simp add: ordered_def)
  then show ?thesis using assms(3) by (auto simp: in_set_conv_nth)
qed

lemma ordered_acyclic:
  assumes ord: "ordered E xs" and d: "distinct xs" and all: "\<forall>(a, b) \<in> set E. b \<in> set xs"
  shows "acyclic (set E)"
proof -
  define pos where "pos n = (THE i. i < length xs \<and> xs ! i = n)" for n
  have pos: "pos (xs ! i) = i" if "i < length xs" for i
    unfolding pos_def using that d by (intro the_equality) (auto simp: nth_eq_iff_index_eq)
  have "pos a < pos b" if "(a, b) \<in> set E" for a b
  proof -
    from all that obtain j where j: "j < length xs" "xs ! j = b" by (fastforce simp: in_set_conv_nth)
    with ordered_edge [OF ord, of a j] that obtain i where "i < j" "xs ! i = a" by blast
    with j pos show ?thesis by (metis less_trans)
  qed
  then have "set E \<subseteq> measure pos" by auto
  then show ?thesis by (metis acyclic_subset wf_acyclic wf_measure)
qed

lemma unsorted_cycle:
  assumes inv: "kahn_inv E V s rel (pending E (ks_topoOrder s))" and q: "ks_queue s = []"
    and EV: "set E \<subseteq> V \<times> V" and fin: "finite V" and ac: "acyclic (set E)"
  shows "set (ks_topoOrder s) = V"
proof (rule ccontr)
  let ?R = "V - set (ks_topoOrder s)"
  assume "set (ks_topoOrder s) \<noteq> V"
  moreover have "set (ks_topoOrder s) \<subseteq> V" using inv q by (simp add: kahn_inv_def)
  ultimately obtain v where v: "v \<in> ?R" by blast
  have "wf (set E)" using ac by (simp add: finite_acyclic_wf)
  with v obtain n where n: "n \<in> ?R" and least: "\<And>a. (a, n) \<in> set E \<Longrightarrow> a \<notin> ?R"
    by (metis wfE_min)
  from n inv q have "n \<in># image_mset snd (pending E (ks_topoOrder s))"
    by (auto simp: kahn_inv_def simp del: set_image_mset)
  then obtain a where "(a, n) \<in> set E" "a \<notin> set (ks_topoOrder s)"
    by (auto simp: pending_def)
  with least EV show False by blast
qed

definition scheduled ::
  "(string \<times> string) list \<Rightarrow> string set \<Rightarrow> string list \<Rightarrow> (string \<Rightarrow> int) \<Rightarrow> bool" where
  "scheduled E V order stage \<longleftrightarrow>
     distinct order \<and> set order = V \<and>
     (\<forall>j < length order. \<forall>a. (a, order ! j) \<in> set E \<longrightarrow> (\<exists>i < j. order ! i = a)) \<and>
     (\<forall>(a, b) \<in> set E. stage a < stage b) \<and>
     (\<forall>n \<in> V. (stage n = 0 \<and> (\<forall>a. (a, n) \<notin> set E)) \<or> (\<exists>a. (a, n) \<in> set E \<and> stage n = stage a + 1))"

lemma kahn_correct:
  assumes g: "graph_ok edges g" and dom: "\<forall>n. map_of (pg_inDegree g) n \<noteq> None \<longleftrightarrow> n \<in> flowNodes edges"
  shows "length (ks_topoOrder (kahn g)) = length (pg_nodes g) \<longleftrightarrow> acyclic (set (flowEdges edges))"
    and "length (ks_topoOrder (kahn g)) = length (pg_nodes g) \<Longrightarrow>
         scheduled (flowEdges edges) (flowNodes edges) (ks_topoOrder (kahn g)) (smap_get 0 (ks_stageMap (kahn g)))"
    and "length (ks_topoOrder (kahn g)) = length (pg_nodes g) \<Longrightarrow>
         fst ` set (ks_stageMap (kahn g)) = flowNodes edges"
proof -
  let ?E = "flowEdges edges" and ?V = "flowNodes edges"
  define s where "s = kahn g"
  have EV: "set ?E \<subseteq> ?V \<times> ?V" using flowEdges_nodes by auto
  have fin: "finite ?V" by (simp add: flowNodes_def)
  have "\<forall>n. smap_get [] (pg_adj g) n = succs ?E n" using g by (simp add: graph_ok_def)
  from kahnLoop_inv [OF this EV kahnInit_inv [OF assms]]
  obtain rel where inv: "kahn_inv ?E ?V s rel (pending ?E (ks_topoOrder s))" and q: "ks_queue s = []"
    by (auto simp: kahn_def s_def)
  have d: "distinct (ks_topoOrder s)" and sub: "set (ks_topoOrder s) \<subseteq> ?V" and ord: "ordered ?E (ks_topoOrder s)"
    and st: "staged ?E (set_mset rel) ?V (ks_stageMap s)"
    and all: "mset ?E = rel + pending ?E (ks_topoOrder s)"
    using inv q by (auto simp: kahn_inv_def)
  have len: "length (ks_topoOrder s) = length (pg_nodes g) \<longleftrightarrow> set (ks_topoOrder s) = ?V"
  proof -
    have "length (pg_nodes g) = card ?V" using g distinct_card by (fastforce simp: graph_ok_def)
    moreover have "length (ks_topoOrder s) = card (set (ks_topoOrder s))" using distinct_card [OF d] by simp
    ultimately show ?thesis using card_subset_eq [OF fin sub] by auto
  qed
  have "set (ks_topoOrder s) = ?V \<longleftrightarrow> acyclic (set ?E)"
  proof
    assume eq: "set (ks_topoOrder s) = ?V"
    show "acyclic (set ?E)"
      using ordered_acyclic [OF ord d] EV eq by blast
  next
    assume "acyclic (set ?E)"
    with unsorted_cycle [OF inv q EV fin] show "set (ks_topoOrder s) = ?V" by simp
  qed
  with len show "length (ks_topoOrder (kahn g)) = length (pg_nodes g) \<longleftrightarrow> acyclic (set (flowEdges edges))"
    by (simp add: s_def)
  {
    assume "length (ks_topoOrder (kahn g)) = length (pg_nodes g)"
    with len have V: "set (ks_topoOrder s) = ?V" by (simp add: s_def)
    have "pending ?E (ks_topoOrder s) = {#}" using V EV by (auto simp: pending_def filter_mset_eq_conv)
    with all have rel: "set_mset rel = set ?E" by (metis add.right_neutral set_mset_mset)
    have src: "(\<forall>a. (a, n) \<notin> set ?E) \<longleftrightarrow> indeg ?E n = 0" for n
      by (force simp: indeg_def filter_empty_conv)
    have "indeg ?E n = 0 \<or> n \<in> snd ` set ?E" for n
      using src [of n] by (metis image_eqI snd_conv)
    then have some: "map_of (ks_stageMap s) n \<noteq> None" if "n \<in> ?V" for n
      using st that by (simp add: staged_def rel)
    have att: "n \<in> ?V \<and> (k = 0 \<and> indeg ?E n = 0 \<or> (\<exists>a. (a, n) \<in> set ?E \<and> k = smap_get 0 (ks_stageMap s) a + 1))"
      if "map_of (ks_stageMap s) n = Some k" for n k
      using st that by (simp add: staged_def rel)
    have "\<exists>i < j. ks_topoOrder s ! i = a" if "j < length (ks_topoOrder s)" "(a, ks_topoOrder s ! j) \<in> set ?E" for a j
      using ordered_edge [OF ord that(2,1)] by blast
    moreover have "smap_get 0 (ks_stageMap s) a < smap_get 0 (ks_stageMap s) b" if "(a, b) \<in> set ?E" for a b
      using st that by (force simp: staged_def rel)
    moreover have "(smap_get 0 (ks_stageMap s) n = 0 \<and> (\<forall>a. (a, n) \<notin> set ?E)) \<or>
        (\<exists>a. (a, n) \<in> set ?E \<and> smap_get 0 (ks_stageMap s) n = smap_get 0 (ks_stageMap s) a + 1)" if n: "n \<in> ?V" for n
    proof -
      from some [OF n] obtain k where k: "map_of (ks_stageMap s) n = Some k" by blast
      then have "smap_get 0 (ks_stageMap s) n = k" by (simp add: smap_get_def)
      with att [OF k] src show ?thesis by blast
    qed
    ultimately have "scheduled ?E ?V (ks_topoOrder s) (smap_get 0 (ks_stageMap s))"
      using d V by (simp add: scheduled_def) blast
    then show "scheduled ?E ?V (ks_topoOrder (kahn g)) (smap_get 0 (ks_stageMap (kahn g)))"
      by (simp add: s_def)
    have "n \<in> fst ` set (ks_stageMap s) \<longleftrightarrow> n \<in> ?V" for n
      using some att by (metis map_of_eq_None_iff option.exhaust)
    then show "fst ` set (ks_stageMap (kahn g)) = ?V" by (auto simp: s_def)
  }
qed

section \<open>Schedules\<close>

lemma graph_nodes:
  assumes "graph_ok edges g"
  shows "pg_nodes g = sorted_list_of_set (flowNodes edges)" and "length (pg_nodes g) = card (flowNodes edges)"
proof -
  have s: "set (pg_nodes g) = flowNodes edges" "sorted (pg_nodes g)" "distinct (pg_nodes g)"
    using assms by (auto simp: graph_ok_def)
  then show "pg_nodes g = sorted_list_of_set (flowNodes edges)"
    by (metis sorted_list_of_set.idem_if_sorted_distinct)
  show "length (pg_nodes g) = card (flowNodes edges)" using s distinct_card by metis
qed

lemma diag_error_hasErrors: "engine_ok e \<Longrightarrow> hasErrors (diag_error loc msg code e)"
  by (auto simp: hasErrors_def diag_error_def report_def Let_def kMaxErrors_def engine_ok_def)

lemma engine_ok_checkNodesDeclared:
  "engine_ok diag \<Longrightarrow> engine_ok (checkNodesDeclared name blk resolved nodes diag)"
  unfolding checkNodesDeclared_def
  by (induction nodes arbitrary: diag) auto

text \<open>When a pipeline is accepted.\<close>

definition schedulable :: "PipelineEdge list \<Rightarrow> bool" where
  "schedulable edges \<longleftrightarrow>
     length (filter pe_isTerminal edges) = 1 \<and> card (flowNodes edges) \<le> kMaxPipelineNodes \<and>
     acyclic (set (flowEdges edges))"

lemma validatePipeline_cases:
  fixes name blk t
  defines "edges \<equiv> map (resolveTerminal t) (lb_edges blk)"
  defines "resolved \<equiv> resolveNodes t (nsPrefixOf name) (sorted_list_of_set (flowNodes edges))"
  shows "schedulable edges \<Longrightarrow>
      validatePipeline name blk t diag =
        finishPipeline name t (blk\<lparr>lb_edges := edges\<rparr>) resolved (buildGraph edges) (kahn (buildGraph edges))
          (checkNodesDeclared name (blk\<lparr>lb_edges := edges\<rparr>) resolved (sorted_list_of_set (flowNodes edges)) diag)"
    and "\<not> schedulable edges \<Longrightarrow> engine_ok diag \<Longrightarrow>
      po_block (validatePipeline name blk t diag) = blk\<lparr>lb_edges := edges\<rparr> \<and>
      po_table (validatePipeline name blk t diag) = t \<and> hasErrors (po_diag (validatePipeline name blk t diag))"
proof -
  let ?g = "buildGraph edges"
  have g: "graph_ok edges ?g" and dom: "\<forall>n. map_of (pg_inDegree ?g) n \<noteq> None \<longleftrightarrow> n \<in> flowNodes edges"
    using buildGraph_ok by blast+
  have term_count: "pg_terminalCount ?g = int (length (filter pe_isTerminal edges))"
    using g by (simp add: graph_ok_def)
  have one: "length xs = 1 \<longleftrightarrow> xs \<noteq> [] \<and> \<not> Suc 0 < length xs" for xs :: "PipelineEdge list"
    by (cases xs) auto
  note nodes = graph_nodes [OF g] and sorted_iff = kahn_correct(1) [OF g dom]
  show "schedulable edges \<Longrightarrow>
      validatePipeline name blk t diag =
        finishPipeline name t (blk\<lparr>lb_edges := edges\<rparr>) resolved (buildGraph edges) (kahn (buildGraph edges))
          (checkNodesDeclared name (blk\<lparr>lb_edges := edges\<rparr>) resolved (sorted_list_of_set (flowNodes edges)) diag)"
    using sorted_iff nodes
    by (simp add: validatePipeline_def Let_def term_count schedulable_def resolved_def flip: edges_def)
  show "\<not> schedulable edges \<Longrightarrow> engine_ok diag \<Longrightarrow>
      po_block (validatePipeline name blk t diag) = blk\<lparr>lb_edges := edges\<rparr> \<and>
      po_table (validatePipeline name blk t diag) = t \<and> hasErrors (po_diag (validatePipeline name blk t diag))"
    using sorted_iff nodes
    unfolding schedulable_def one
    by (auto simp: validatePipeline_def Let_def term_count diag_error_hasErrors
        engine_ok_checkNodesDeclared simp flip: edges_def)
qed

lemma finishPipeline_sel [simp]:
  "po_block (finishPipeline name t blk resolved g ks diag) =
     blk\<lparr>lb_calledFunctions := lb_calledFunctions blk @ map (qualifyNode resolved) (ks_topoOrder ks),
         lb_stages := lb_stages blk @ map (smap_get 0 (ks_stageMap ks)) (ks_topoOrder ks),
         lb_pipelineAnalysis :=
           Some \<lparr>pa_stages = ks_stageMap ks, pa_sourceNodes = ks_queue (kahnInit g),
                 pa_terminalNode = pg_terminalNode g, pa_terminalType = pg_terminalType g,
                 pa_demand = demandAnalysis t (qualifyNode resolved) (reverseAdj (lb_edges blk))
                               (pg_terminalNode g) (ks_topoOrder ks)\<rparr>\<rparr>"
  by (simp add: finishPipeline_def Let_def)

lemma if_then_of: "(if P then A else B) \<Longrightarrow> \<not> B \<Longrightarrow> A"
  by (simp split: if_splits)

text \<open>C2: a pipeline is scheduled iff it has exactly one terminal edge, at most 10000 nodes
  and no cycle.  Then its callees are listed in an order in which every node follows all
  its predecessors, with stages that are the lengths of the longest paths to them: zero for
  the source nodes, strictly greater than every predecessor's and one more than some
  predecessor's otherwise.  A pipeline that is not scheduled is reported and leaves the
  block (but for its resolved edges) and the symbol table as they were.\<close>

theorem pipeline_schedule:
  assumes "engine_ok diag"
  shows
  "let out = validatePipeline name blk t diag;
       edges = map (resolveTerminal t) (lb_edges blk);
       E = flowEdges edges; V = flowNodes edges;
       qualify = qualifyNode (resolveNodes t (nsPrefixOf name) (sorted_list_of_set V))
   in if length (filter pe_isTerminal edges) = 1 \<and> card V \<le> 10000 \<and> acyclic (set E)
      then \<exists>order pa.
        lb_pipelineAnalysis (po_block out) = Some pa \<and>
        scheduled E V order (smap_get 0 (pa_stages pa)) \<and>
        lb_calledFunctions (po_block out) = lb_calledFunctions blk @ map qualify order \<and>
        lb_stages (po_block out) = lb_stages blk @ map (smap_get 0 (pa_stages pa)) order \<and>
        pa_sourceNodes pa = filter (\<lambda>n. \<forall>a. (a, n) \<notin> set E) (sorted_list_of_set V) \<and>
        (\<exists>e \<in> set edges. pe_isTerminal e \<and> pa_terminalNode pa = pe_source e \<and>
           pa_terminalType pa = pe_terminalType e)
      else po_block out = blk\<lparr>lb_edges := edges\<rparr> \<and> po_table out = t \<and> hasErrors (po_diag out)"
proof -
  define edges where "edges = map (resolveTerminal t) (lb_edges blk)"
  let ?g = "buildGraph edges" and ?V = "flowNodes edges" and ?E = "flowEdges edges"
  have g: "graph_ok edges ?g" and dom: "\<forall>n. map_of (pg_inDegree ?g) n \<noteq> None \<longleftrightarrow> n \<in> flowNodes edges"
    using buildGraph_ok by blast+
  have iff: "schedulable edges \<longleftrightarrow>
      length (filter pe_isTerminal edges) = 1 \<and> card ?V \<le> 10000 \<and> acyclic (set ?E)"
    by (simp add: schedulable_def kMaxPipelineNodes_def)
  show ?thesis
  proof (cases "schedulable edges")
    case False
    show ?thesis
      unfolding Let_def edges_def [symmetric] iff [symmetric] if_not_P [OF False]
      using validatePipeline_cases(2) [where t = t and blk = blk and name = name, folded edges_def,
          OF False assms]
      by simp
  next
    case True
    note out = validatePipeline_cases(1) [where t = t and blk = blk and name = name and diag = diag,
        folded edges_def, OF True]
    have sorted: "length (ks_topoOrder (kahn ?g)) = length (pg_nodes ?g)"
      using True kahn_correct(1) [OF g dom] by (simp add: schedulable_def)
    have sources: "ks_queue (kahnInit ?g) = filter (\<lambda>n. \<forall>a. (a, n) \<notin> set ?E) (sorted_list_of_set ?V)"
    proof (rule sorted_distinct_set_unique)
      have "(\<forall>a. (a, n) \<notin> set ?E) \<longleftrightarrow> indeg ?E n = 0" for n
        by (force simp: indeg_def filter_empty_conv)
      moreover have "finite ?V" by (simp add: flowNodes_def)
      ultimately show "set (ks_queue (kahnInit ?g)) =
          set (filter (\<lambda>n. \<forall>a. (a, n) \<notin> set ?E) (sorted_list_of_set ?V))"
        using kahnInit_queue(1) [OF g dom] by simp
    qed (use kahnInit_queue(2,3) [OF g dom] in \<open>simp_all add: sorted_wrt_filter\<close>)
    have terminal: "\<exists>e \<in> set edges. pe_isTerminal e \<and> pg_terminalNode ?g = pe_source e \<and>
        pg_terminalType ?g = pe_terminalType e"
    proof
      have ne: "filter pe_isTerminal edges \<noteq> []" using True by (auto simp: schedulable_def)
      with g show "pe_isTerminal (last (filter pe_isTerminal edges)) \<and>
          pg_terminalNode ?g = pe_source (last (filter pe_isTerminal edges)) \<and>
          pg_terminalType ?g = pe_terminalType (last (filter pe_isTerminal edges))"
        using last_in_set [OF ne] by (auto simp: graph_ok_def)
      show "last (filter pe_isTerminal edges) \<in> set edges"
        using last_in_set [OF ne] by simp
    qed
    show ?thesis
      unfolding Let_def edges_def [symmetric] out iff [symmetric] if_P [OF True]
      using kahn_correct(2) [OF g dom sorted] sources terminal
      by (intro exI [of _ "ks_topoOrder (kahn ?g)"]) simp
  qed
qed

text \<open>The pipeline \<open>parse -> run; load -> parse; run -> int;\<close> in a namespace \<open>app\<close>.\<close>

definition demo_edge :: "string \<Rightarrow> string \<Rightarrow> PipelineEdge" where
  "demo_edge a b =
     \<lparr>pe_source = a, pe_target = b, pe_terminalType = [], pe_isTerminal = False, pe_loc = default_loc\<rparr>"

definition demo_block :: LogicBlockEntry where
  "demo_block =
     \<lparr>lb_qualifiedName = ''app::main'', lb_simpleName = ''main'', lb_location = default_loc,
      lb_calledFunctions = [], lb_stages = [], lb_isPipeline = True, lb_isFlow = False,
      lb_edges = [demo_edge ''parse'' ''run'', demo_edge ''load'' ''parse'', demo_edge ''run'' ''int''],
      lb_pipelineAnalysis = None\<rparr>"

definition demo_table :: SymbolTable where
  "demo_table = empty_table\<lparr>st_imports :=
     [\<lparr>ie_path = ''cstdint'', ie_typeName = ''int'', ie_location = default_loc\<rparr>]\<rparr>"

lemma demo_run:
  "lb_stages (po_block (validatePipeline ''app::main'' demo_block demo_table empty_engine)) = [0, 1, 2] \<and>
   lb_calledFunctions (po_block (validatePipeline ''app::main'' demo_block demo_table empty_engine)) =
     [''load'', ''parse'', ''run'']"
  by code_simp

theorem pipeline_schedule_witness:
  "engine_ok empty_engine \<and>
   (\<exists>order (pa :: PipelineAnalysisResult). scheduled [(''parse'', ''run''), (''load'', ''parse'')] {''parse'', ''run'', ''load''} order
      (smap_get 0 (pa_stages pa)) \<and> map (smap_get 0 (pa_stages pa)) order = [0, 1, 2])"
proof -
  let ?out = "validatePipeline ''app::main'' demo_block demo_table empty_engine"
  let ?edges = "map (resolveTerminal demo_table) (lb_edges demo_block)"
  have E: "flowEdges ?edges = [(''parse'', ''run''), (''load'', ''parse'')]"
    "flowNodes ?edges = {''parse'', ''run'', ''load''}"
    by code_simp+
  have "lb_stages (po_block ?out) \<noteq> lb_stages (demo_block\<lparr>lb_edges := ?edges\<rparr>)"
    using demo_run by (simp add: demo_block_def)
  then have "\<not> (po_block ?out = demo_block\<lparr>lb_edges := ?edges\<rparr> \<and> po_table ?out = demo_table \<and>
      hasErrors (po_diag ?out))" by metis
  from if_then_of [OF pipeline_schedule [OF engine_ok_empty, of "''app::main''" demo_block demo_table,
      unfolded Let_def E] this]
  obtain order and pa :: PipelineAnalysisResult
    where "scheduled [(''parse'', ''run''), (''load'', ''parse'')] {''parse'', ''run'', ''load''}
      order (smap_get 0 (pa_stages pa))"
    "lb_stages (po_block ?out) = lb_stages demo_block @ map (smap_get 0 (pa_stages pa)) order"
    by blast
  with demo_run show ?thesis by (auto simp: demo_block_def)
qed

section \<open>Demand\<close>

definition preds :: "(string \<times> string) list \<Rightarrow> string \<Rightarrow> string list" where
  "preds E n = map fst (filter (\<lambda>p. snd p = n) E)"

lemma reverseAdj_snoc:
  "reverseAdj (edges @ [e]) =
     (if pe_isTerminal e then reverseAdj edges
      else smap_put (pe_target e) (smap_get [] (reverseAdj edges) (pe_target e) @ [pe_source e]) (reverseAdj edges))"
  by (simp add: reverseAdj_def)

lemma reverseAdj_preds:
  "smap_get [] (reverseAdj edges) n = preds (flowEdges edges) n \<and>
   (map_of (reverseAdj edges) n = None \<longleftrightarrow> preds (flowEdges edges) n = [])"
proof (induction edges arbitrary: n rule: rev_induct)
  case Nil
  then show ?case by (simp add: reverseAdj_def preds_def flowEdges_def)
next
  case (snoc e edges)
  then show ?case
    by (auto simp: reverseAdj_snoc preds_def flowEdges_def smap_put_map_of)
qed

text \<open>
  The pairs of a node and the name of one of its returns that a demand map holds, and
  the pairs a node consumes: its match takes that return of that predecessor.
\<close>

definition dpairs :: "demand \<Rightarrow> (string \<times> string) set" where
  "dpairs d = {(n, r). r \<in> set (smap_get [] d n)}"

definition no_empty :: "demand \<Rightarrow> bool" where
  "no_empty d \<longleftrightarrow> (\<forall>n xs. map_of d n = Some xs \<longrightarrow> xs \<noteq> [])"

definition consumed ::
  "SymbolTable \<Rightarrow> (string \<Rightarrow> string) \<Rightarrow> (string \<times> string) list \<Rightarrow> string \<Rightarrow> (string \<times> string) set" where
  "consumed t qualify E n =
     (case findFunction (qualify n) t of
        None \<Rightarrow> {}
      | Some f \<Rightarrow>
          let tagged = taggedReturns t qualify (preds E n);
              m = smartMatch (map fst tagged) (fs_params f)
          in if mr_success m
             then (\<lambda>(si, ti). (snd (tagged ! si), rp_name (fst (tagged ! si)))) ` set (mr_matches m)
             else {})"

definition terminalReturns :: "SymbolTable \<Rightarrow> (string \<Rightarrow> string) \<Rightarrow> string \<Rightarrow> (string \<times> string) set" where
  "terminalReturns t qualify n =
     (case findFunction (qualify n) t of
        Some f \<Rightarrow> if fs_isMultiReturn f then (\<lambda>rp. (n, rp_name rp)) ` set (fs_returnParams f) else {}
      | None \<Rightarrow> {})"

lemma dpairs_demandName [simp]: "dpairs (demandName n r d) = insert (n, r) (dpairs d)"
  by (auto simp: dpairs_def demandName_def set_insort_insert split: if_splits)

lemma no_empty_demandName [simp]: "no_empty d \<Longrightarrow> no_empty (demandName n r d)"
proof -
  have "insort_insert r xs \<noteq> []" for xs :: "string list"
    using set_insort_insert [of r xs] by fastforce
  then show "no_empty d \<Longrightarrow> no_empty (demandName n r d)"
    by (simp add: no_empty_def demandName_def smap_put_map_of)
qed

lemma fold_demandName:
  "dpairs (fold (\<lambda>x. demandName (f x) (g x)) xs d) = dpairs d \<union> (\<lambda>x. (f x, g x)) ` set xs \<and>
   (no_empty d \<longrightarrow> no_empty (fold (\<lambda>x. demandName (f x) (g x)) xs d))"
  by (induction xs arbitrary: d) auto

lemma dpairs_Nil [simp]: "dpairs [] = {}" "no_empty []"
  by (simp_all add: dpairs_def no_empty_def)

lemma terminalDemand_pairs:
  "dpairs (terminalDemand t qualify n) = terminalReturns t qualify n \<and> no_empty (terminalDemand t qualify n)"
  using fold_demandName [of "\<lambda>_. n" rp_name _ "[]"]
  by (auto simp: terminalDemand_def terminalReturns_def split: option.splits)

lemma smartMatch_no_source: "mr_matches (smartMatch [] tgt) = []"
  using smartMatch_indices [of _ _ "[]" tgt] by (metis ex_in_conv less_nat_zero_code list.size(3) set_empty surj_pair)

lemma demandStep_pairs:
  "dpairs (demandStep t qualify (reverseAdj edges) n d) = dpairs d \<union> consumed t qualify (flowEdges edges) n \<and>
   (no_empty d \<longrightarrow> no_empty (demandStep t qualify (reverseAdj edges) n d))"
proof (cases "map_of (reverseAdj edges) n")
  case None
  then have "preds (flowEdges edges) n = []" by (simp add: reverseAdj_preds)
  with None show ?thesis
    by (auto simp: demandStep_def consumed_def taggedReturns_def smartMatch_no_source Let_def split: option.splits)
next
  case (Some ps)
  then have ps: "ps = preds (flowEdges edges) n"
    using reverseAdj_preds [of edges n] by (simp add: smap_get_def)
  show ?thesis
    using fold_demandName [of "\<lambda>p :: nat \<times> nat. snd (taggedReturns t qualify ps ! fst p)"
        "\<lambda>p. rp_name (fst (taggedReturns t qualify ps ! fst p))"] Some ps
    by (simp add: demandStep_def consumed_def Let_def case_prod_beta' split: option.splits)
qed

lemma demandAnalysis_pairs:
  "dpairs (demandAnalysis t qualify (reverseAdj edges) term order) =
     terminalReturns t qualify term \<union> (\<Union>n \<in> set order. consumed t qualify (flowEdges edges) n) \<and>
   no_empty (demandAnalysis t qualify (reverseAdj edges) term order)"
proof -
  have "dpairs (fold (demandStep t qualify (reverseAdj edges)) ns d) =
      dpairs d \<union> (\<Union>n \<in> set ns. consumed t qualify (flowEdges edges) n) \<and>
      (no_empty d \<longrightarrow> no_empty (fold (demandStep t qualify (reverseAdj edges)) ns d))" for ns d
    by (induction ns arbitrary: d) (auto simp: demandStep_pairs)
  from this [of "rev order" "terminalDemand t qualify term"] show ?thesis
    by (simp add: demandAnalysis_def terminalDemand_pairs)
qed

text \<open>The used returns and the style of a call site, from the demanded names \<open>D\<close>.\<close>

definition site_spec :: "FunctionSymbol option \<Rightarrow> string set \<Rightarrow> CallSiteInfo \<Rightarrow> bool" where
  "site_spec fn D ci \<longleftrightarrow>
     (case fn of
        Some f \<Rightarrow>
          if fs_hasUsedReturnsClause f
          then ci_style ci = CS_SmartPass \<and>
               set (ci_usedReturns ci) = (if D = {} then set (fs_usedReturns f) else D \<inter> set (fs_usedReturns f))
          else set (ci_usedReturns ci) = D \<and> ci_style ci = (if D = {} then CS_Full else CS_SmartPass)
      | None \<Rightarrow> set (ci_usedReturns ci) = D \<and> ci_style ci = (if D = {} then CS_Full else CS_SmartPass))"

lemma nodeCallSite_spec:
  assumes "no_empty d"
  shows "site_spec (findFunction (qualify n) t) {r. (n, r) \<in> dpairs d} (nodeCallSite t qualify name loc d n)"
proof (cases "map_of d n")
  case None
  then have "{r. (n, r) \<in> dpairs d} = {}" by (simp add: dpairs_def smap_get_def)
  with None show ?thesis
    by (auto simp: site_spec_def nodeCallSite_def Let_def split: option.splits)
next
  case (Some xs)
  with assms have "{r. (n, r) \<in> dpairs d} = set xs" "xs \<noteq> []"
    by (simp_all add: dpairs_def smap_get_def no_empty_def)
  with Some show ?thesis
    by (auto simp: site_spec_def nodeCallSite_def Let_def split: option.splits)
qed

lemma nodeCallSite_ends [simp]:
  "ci_caller (nodeCallSite t qualify name loc d n) = name"
  "ci_callee (nodeCallSite t qualify name loc d n) = qualify n"
  by (simp_all add: nodeCallSite_def Let_def split: option.splits)

lemma fold_addCallSite:
  "fold (\<lambda>n. addCallSite (f n)) ns t = t\<lparr>st_callSites := st_callSites t @ map f ns\<rparr>"
  by (induction ns arbitrary: t) (simp_all add: addCallSite_def)

text \<open>C5: the call sites of a scheduled pipeline: one per node, in the order of the names.
  The returns it marks as used are exactly those the analysis demands - every return of the
  terminal node and every return that a successful match of some node takes from it -
  intersected with the ceiling of the callee's \<open>with returns\<close> clause; without any demand a
  clause is itself the demand, and without a clause all returns are kept.  So no return that
  a stage consumes is dropped unless its declaration drops it.\<close>

theorem pipeline_call_sites:
  assumes "schedulable (map (resolveTerminal t) (lb_edges blk))"
  shows
  "let out = validatePipeline name blk t diag;
       edges = map (resolveTerminal t) (lb_edges blk);
       E = flowEdges edges; V = flowNodes edges;
       qualify = qualifyNode (resolveNodes t (nsPrefixOf name) (sorted_list_of_set V));
       demanded = terminalReturns t qualify (pe_source (last (filter pe_isTerminal edges))) \<union>
                  (\<Union>n \<in> V. consumed t qualify E n)
   in \<exists>sites. po_table out = t\<lparr>st_callSites := st_callSites t @ sites\<rparr> \<and>
        map ci_callee sites = map qualify (sorted_list_of_set V) \<and>
        (\<forall>i < card V. ci_caller (sites ! i) = name \<and>
           site_spec (findFunction (ci_callee (sites ! i)) t)
             {r. (sorted_list_of_set V ! i, r) \<in> demanded} (sites ! i))"
proof -
  define edges where "edges = map (resolveTerminal t) (lb_edges blk)"
  let ?g = "buildGraph edges" and ?V = "flowNodes edges" and ?E = "flowEdges edges"
  define qualify where "qualify = qualifyNode (resolveNodes t (nsPrefixOf name) (sorted_list_of_set ?V))"
  define d where "d = demandAnalysis t qualify (reverseAdj edges) (pg_terminalNode ?g) (ks_topoOrder (kahn ?g))"
  define site where "site = nodeCallSite t qualify name (lb_location blk) d"
  have g: "graph_ok edges ?g" and dom: "\<forall>n. map_of (pg_inDegree ?g) n \<noteq> None \<longleftrightarrow> n \<in> flowNodes edges"
    using buildGraph_ok by blast+
  have ok: "schedulable edges" using assms by (simp add: edges_def)
  then have len: "length (ks_topoOrder (kahn ?g)) = length (pg_nodes ?g)"
    using kahn_correct(1) [OF g dom] by (simp add: schedulable_def)
  have V: "set (ks_topoOrder (kahn ?g)) = ?V"
    using kahn_correct(2) [OF g dom len] by (simp add: scheduled_def)
  have "pg_terminalNode ?g = pe_source (last (filter pe_isTerminal edges))"
    using g ok by (auto simp: graph_ok_def schedulable_def)
  then have d: "dpairs d = terminalReturns t qualify (pe_source (last (filter pe_isTerminal edges))) \<union>
      (\<Union>n \<in> ?V. consumed t qualify ?E n)" "no_empty d"
    using demandAnalysis_pairs V by (simp_all add: d_def)
  have table: "po_table (validatePipeline name blk t diag) =
      t\<lparr>st_callSites := st_callSites t @ map site (sorted_list_of_set ?V)\<rparr>"
    using validatePipeline_cases(1) [where t = t and blk = blk and name = name and diag = diag,
        folded edges_def, OF ok]
    by (simp add: finishPipeline_def Let_def fold_addCallSite graph_nodes(1) [OF g] site_def d_def
        flip: qualify_def)
  have "site_spec (findFunction (qualify n) t) {r. (n, r) \<in> dpairs d} (site n)" for n
    unfolding site_def by (rule nodeCallSite_spec [OF d(2)])
  then show ?thesis
    unfolding Let_def edges_def [symmetric] qualify_def [symmetric] table d(1)
    by (intro exI [of _ "map site (sorted_list_of_set ?V)"]) (simp add: site_def flip: d(1))
qed

text \<open>\<open>load\<close> returns an \<open>int n\<close> and a \<open>bool ok\<close>; \<open>parse\<close> takes only the \<open>int\<close>.\<close>

definition demo_fn :: "string \<Rightarrow> Parameter list \<Rightarrow> ReturnParam list \<Rightarrow> FunctionSymbol" where
  "demo_fn name ps rps =
     \<lparr>fs_qualifiedName = ''app::'' @ name, fs_simpleName = name, fs_visibility = Vis_Public,
      fs_location = default_loc, fs_returnType = empty_type, fs_params = ps, fs_isConst = False,
      fs_isStatic = False, fs_hasLogicBlock = False, fs_isMultiReturn = (rps \<noteq> []), fs_returnParams = rps,
      fs_usedReturns = [], fs_hasUsedReturnsClause = False, fs_templateParams = [],
      fs_bindingTarget = None, fs_priority = Pri_Normal, fs_cardinality = None,
      fs_accessPattern = Acc_None, fs_tiledSize = 0, fs_isExternal = False,
      fs_explicitlyExternal = False, fs_owningType = [], fs_externalOwner = [],
      fs_kind = FK_Function, fs_isComptime = False\<rparr>"

definition demo_functions :: "FunctionSymbol umap" where
  "demo_functions =
     [(''app::load'', demo_fn ''load'' []
        [\<lparr>rp_type = named_type [''int''], rp_name = ''n'', rp_loc = default_loc\<rparr>,
         \<lparr>rp_type = named_type [''bool''], rp_name = ''ok'', rp_loc = default_loc\<rparr>]),
      (''app::parse'', demo_fn ''parse'' [\<lparr>pm_type = named_type [''int''], pm_name = ''count''\<rparr>] []),
      (''app::run'', demo_fn ''run'' [] [])]"

definition demo_table2 :: SymbolTable where
  "demo_table2 = demo_table\<lparr>st_functions := demo_functions\<rparr>"

lemma demo_calls:
  "map (\<lambda>c. (ci_callee c, ci_usedReturns c))
     (st_callSites (po_table (validatePipeline ''app::main'' demo_block demo_table2 empty_engine))) =
   [(''app::load'', [''n'']), (''app::parse'', []), (''app::run'', [])]"
  by code_simp

theorem pipeline_call_sites_witness:
  "schedulable (map (resolveTerminal demo_table2) (lb_edges demo_block)) \<and>
   (\<exists>sites. po_table (validatePipeline ''app::main'' demo_block demo_table2 empty_engine) =
      demo_table2\<lparr>st_callSites := sites\<rparr> \<and>
      map (\<lambda>c. (ci_callee c, ci_usedReturns c)) sites =
        [(''app::load'', [''n'']), (''app::parse'', []), (''app::run'', [])])"
proof -
  let ?edges = "map (resolveTerminal demo_table2) (lb_edges demo_block)"
  have E: "flowEdges ?edges = [(''parse'', ''run''), (''load'', ''parse'')]"
    "card (flowNodes ?edges) = 3" "length (filter pe_isTerminal ?edges) = 1"
    by code_simp+
  then have ok: "schedulable ?edges"
    by (simp add: schedulable_def kMaxPipelineNodes_def rtrancl_insert wf_acyclic)
  have "st_callSites demo_table2 = []"
    by (simp add: demo_table2_def demo_table_def empty_table_def)
  with ok demo_calls pipeline_call_sites [OF ok, of "''app::main''" empty_engine]
  show ?thesis unfolding Let_def by auto
qed

end
