(* ===== verification/TypeRegistry.thy ===== *)
theory TypeRegistry
  imports SymbolTable
begin

text \<open>
  The type vocabulary of the semantic passes: the registry of the concrete types
  of each backend (\<open>lib/Sema/TypeRegistry.cpp\<close>), the binder from abstract names to host
  types (\<open>lib/Sema/TypeBinder.cpp\<close>) and the resolver that decides whether a type is valid
  (\<open>lib/Sema/TypeResolver.cpp\<close>).
\<close>

section \<open>Registry\<close>

datatype LogicalTypeKind =
  LK_Integer | LK_UnsignedInteger | LK_Floating | LK_Boolean | LK_Text | LK_Sequence | LK_Mapping
| LK_Void | LK_Opaque

type_synonym TypeRegistry = "LogicalTypeKind umap umap"

definition registerBackend :: "string \<Rightarrow> (string \<times> LogicalTypeKind) list \<Rightarrow> TypeRegistry \<Rightarrow> TypeRegistry" where
  "registerBackend nsPrefix bindings reg =
     (let m = (case map_of reg nsPrefix of Some m \<Rightarrow> m | None \<Rightarrow> [])
      in AList.update nsPrefix (fold (\<lambda>(n, k). AList.update n k) bindings m) reg)"

definition isKnownType :: "string \<Rightarrow> string \<Rightarrow> TypeRegistry \<Rightarrow> bool" where
  "isKnownType nsPrefix name reg =
     (case map_of reg nsPrefix of
        None \<Rightarrow> False
      | Some types \<Rightarrow> map_of types name \<noteq> None)"

definition classify :: "string \<Rightarrow> TypeRegistry \<Rightarrow> LogicalTypeKind option" where
  "classify q reg =
     (if \<not> is_prefix ''std::'' q then None
      else
        (case find_str ''::'' (substr_from q 5) of
           None \<Rightarrow> None
         | Some p \<Rightarrow>
             (case map_of reg (substr q 5 p) of
                None \<Rightarrow> None
              | Some types \<Rightarrow> map_of types (substr_from q (5 + p + 2)))))"

definition primitiveKind :: "LogicalTypeKind \<Rightarrow> bool" where
  "primitiveKind k \<longleftrightarrow> k \<in> {LK_Integer, LK_UnsignedInteger, LK_Floating, LK_Boolean}"

definition isPrimitive :: "string \<Rightarrow> TypeRegistry \<Rightarrow> bool" where
  "isPrimitive name reg \<longleftrightarrow>
     name = ''void'' \<or>
     (\<exists>(ns, types) \<in> set reg. case map_of types name of Some k \<Rightarrow> primitiveKind k | None \<Rightarrow> False)"

definition classifyAbstractName :: "string \<Rightarrow> LogicalTypeKind option" where
  "classifyAbstractName name =
     (if name = ''integer'' then Some LK_Integer
      else if name = ''unsigned'' then Some LK_UnsignedInteger
      else if name = ''floating'' then Some LK_Floating
      else if name = ''boolean'' then Some LK_Boolean
      else if name = ''text'' then Some LK_Text
      else None)"

definition cpp17Types :: "(string \<times> LogicalTypeKind) list" where
  "cpp17Types =
     [(''int8_t'', LK_Integer), (''int16_t'', LK_Integer), (''int32_t'', LK_Integer),
      (''int64_t'', LK_Integer), (''uint8_t'', LK_UnsignedInteger),
      (''uint16_t'', LK_UnsignedInteger), (''uint32_t'', LK_UnsignedInteger),
      (''uint64_t'', LK_UnsignedInteger), (''size_t'', LK_UnsignedInteger),
      (''intptr_t'', LK_Integer), (''uintptr_t'', LK_UnsignedInteger), (''ptrdiff_t'', LK_Integer),
      (''char'', LK_Text), (''char16_t'', LK_Text), (''char32_t'', LK_Text), (''wchar_t'', LK_Text),
      (''float'', LK_Floating), (''double'', LK_Floating), (''long_double'', LK_Floating),
      (''int'', LK_Integer), (''bool'', LK_Boolean), (''string'', LK_Text), (''wstring'', LK_Text),
      (''vector'', LK_Sequence), (''deque'', LK_Sequence), (''list'', LK_Sequence),
      (''array'', LK_Sequence), (''span'', LK_Sequence), (''map'', LK_Mapping),
      (''unordered_map'', LK_Mapping), (''set'', LK_Sequence), (''unordered_set'', LK_Sequence),
      (''optional'', LK_Opaque), (''unique_ptr'', LK_Opaque), (''shared_ptr'', LK_Opaque),
      (''weak_ptr'', LK_Opaque)]"

definition rustTypes :: "(string \<times> LogicalTypeKind) list" where
  "rustTypes =
     [(''i8'', LK_Integer), (''i16'', LK_Integer), (''i32'', LK_Integer), (''i64'', LK_Integer),
      (''i128'', LK_Integer), (''isize'', LK_Integer), (''u8'', LK_UnsignedInteger),
      (''u16'', LK_UnsignedInteger), (''u32'', LK_UnsignedInteger), (''u64'', LK_UnsignedInteger),
      (''u128'', LK_UnsignedInteger), (''usize'', LK_UnsignedInteger), (''f32'', LK_Floating),
      (''f64'', LK_Floating), (''bool'', LK_Boolean), (''char'', LK_Text), (''str'', LK_Text),
      (''String'', LK_Text), (''Vec'', LK_Sequence), (''VecDeque'', LK_Sequence),
      (''LinkedList'', LK_Sequence), (''Slice'', LK_Sequence), (''HashMap'', LK_Mapping),
      (''BTreeMap'', LK_Mapping), (''HashSet'', LK_Sequence), (''BTreeSet'', LK_Sequence),
      (''Option'', LK_Opaque), (''Result'', LK_Opaque), (''Box'', LK_Opaque), (''Rc'', LK_Opaque),
      (''Arc'', LK_Opaque), (''Weak'', LK_Opaque)]"

definition javaTypes :: "(string \<times> LogicalTypeKind) list" where
  "javaTypes =
     [(''byte'', LK_Integer), (''short'', LK_Integer), (''int'', LK_Integer), (''long'', LK_Integer),
      (''float'', LK_Floating), (''double'', LK_Floating), (''boolean'', LK_Boolean),
      (''char'', LK_Text), (''String'', LK_Text), (''ArrayList'', LK_Sequence),
      (''LinkedList'', LK_Sequence), (''ArrayDeque'', LK_Sequence), (''HashMap'', LK_Mapping),
      (''TreeMap'', LK_Mapping), (''HashSet'', LK_Sequence), (''TreeSet'', LK_Sequence),
      (''Optional'', LK_Opaque), (''WeakReference'', LK_Opaque)]"

definition defaultRegistry :: TypeRegistry where
  "defaultRegistry =
     registerBackend ''java'' javaTypes
       (registerBackend ''rust'' rustTypes (registerBackend ''cpp17'' cpp17Types []))"

section \<open>Binder\<close>

type_synonym TypeBinder = "(LogicalTypeKind \<times> string) list"

definition resolveBinding :: "string \<Rightarrow> TypeBinder \<Rightarrow> string option" where
  "resolveBinding abstractName b =
     (case classifyAbstractName abstractName of None \<Rightarrow> None | Some kind \<Rightarrow> map_of b kind)"

definition addBinding :: "LogicalTypeKind \<Rightarrow> string \<Rightarrow> TypeBinder \<Rightarrow> TypeBinder" where
  "addBinding kind concrete b = AList.update kind concrete b"

definition addBindingByName :: "string \<Rightarrow> string \<Rightarrow> TypeBinder \<Rightarrow> TypeBinder \<times> bool" where
  "addBindingByName abstractName concrete b =
     (case classifyAbstractName abstractName of
        None \<Rightarrow> (b, False)
      | Some kind \<Rightarrow> (addBinding kind concrete b, True))"

definition bindAll :: "string \<Rightarrow> string \<Rightarrow> string \<Rightarrow> string \<Rightarrow> string \<Rightarrow> TypeBinder" where
  "bindAll i u f b t =
     addBinding LK_Text t (addBinding LK_Boolean b (addBinding LK_Floating f
       (addBinding LK_UnsignedInteger u (addBinding LK_Integer i []))))"

fun defaultBinder :: "HostLanguage \<Rightarrow> TypeBinder" where
  "defaultBinder Cpp = bindAll ''int32_t'' ''uint32_t'' ''double'' ''bool'' ''std::string''"
| "defaultBinder Rust = bindAll ''i32'' ''u32'' ''f64'' ''bool'' ''String''"
| "defaultBinder Java = bindAll ''int'' ''int'' ''double'' ''boolean'' ''String''"
| "defaultBinder TypeScript = bindAll ''number'' ''number'' ''number'' ''boolean'' ''string''"
| "defaultBinder _ = bindAll ''int'' ''int'' ''float'' ''bool'' ''str''"

section \<open>Resolver\<close>

record TypeResolver =
  tr_symbols :: SymbolTable
  tr_registry :: TypeRegistry
  tr_templateParamNames :: "string list"

definition mkResolver :: "SymbolTable \<Rightarrow> TypeResolver" where
  "mkResolver t = \<lparr>tr_symbols = t, tr_registry = defaultRegistry, tr_templateParamNames = []\<rparr>"

definition addTemplateParamNames :: "TemplateParamDecl list \<Rightarrow> TypeResolver \<Rightarrow> TypeResolver" where
  "addTemplateParamNames ps r =
     fold (\<lambda>p r. if tp_kind p = TP_TypeParam \<or> tp_kind p = TP_TemplateTemplateParam
                then r\<lparr>tr_templateParamNames := List.insert (tp_name p) (tr_templateParamNames r)\<rparr>
                else r) ps r"

definition clearTemplateParamNames :: "TypeResolver \<Rightarrow> TypeResolver" where
  "clearTemplateParamNames r = r\<lparr>tr_templateParamNames := []\<rparr>"

definition isIntegerScalarTag :: "TypeId \<Rightarrow> bool" where
  "isIntegerScalarTag i \<longleftrightarrow>
     i \<in> {TId_Bool, TId_U8, TId_I8, TId_I16, TId_U16, TId_I32, TId_U32, TId_U64, TId_I64}"

text \<open>A name that is not a stdlib keyword: template parameters, aliases, imports, classes,
  constraints, abstract names and \<open>lifetime\<close>.\<close>

definition knownName :: "TypeResolver \<Rightarrow> string \<Rightarrow> bool" where
  "knownName r name \<longleftrightarrow>
     name \<in> set (tr_templateParamNames r) \<or>
     findTypeAlias name (tr_symbols r) \<noteq> None \<or>
     isImportedType name (tr_symbols r) \<or>
     (\<exists>(q, c) \<in> set (st_classSymbols (tr_symbols r)). cl_simpleName c = name) \<or>
     (\<exists>(q, c) \<in> set (st_constraintSymbols (tr_symbols r)). cs_simpleName c = name) \<or>
     classifyAbstractName name \<noteq> None \<or>
     name = ''lifetime''"

text \<open>The stdlib type a single-part name stands for: the parser's mark, else the keyword.\<close>

definition stdIdOf :: "TypeId \<Rightarrow> string \<Rightarrow> TypeId" where
  "stdIdOf sid name = (if sid \<noteq> TId_None then sid else fromKeyword name)"

text \<open>The reason a type is invalid, \<^const>\<open>None\<close> for a valid one.\<close>

fun isValidType :: "TypeResolver \<Rightarrow> TypeNode \<Rightarrow> string option"
  and validFields :: "TypeResolver \<Rightarrow> string \<Rightarrow> string list \<Rightarrow> RecordField list \<Rightarrow> string option"
  and validArgs :: "TypeResolver \<Rightarrow> string \<Rightarrow> TypeNode list \<Rightarrow> string option" where
  "isValidType r (TypeNode c own parts md loc targs itp var ntv sid rfs asb hrtb) =
     (case parts of
        [] \<Rightarrow> Some ''empty type''
      | [name] \<Rightarrow>
          if name = ''void'' then None
          else
            let stdId = stdIdOf sid name in
            if stdId = TId_Record then
              (if rfs = [] then Some ''record<...> must declare at least one field''
               else validFields r ''record'' [] rfs)
            else if stdId = TId_Array then
              (case targs of
                 [elem, count] \<Rightarrow>
                   if ty_nonTypeValue elem \<noteq> None
                   then Some ''array<T, N>: first argument must be a type, not an integer''
                   else
                     (case isValidType r elem of
                        Some sub \<Rightarrow> Some (''invalid element type of array<T, N>: '' @ sub)
                      | None \<Rightarrow>
                          (case ty_nonTypeValue count of
                             None \<Rightarrow> Some ''array<T, N>: N must be an integer literal''
                           | Some n \<Rightarrow>
                               if n < 1 then Some (''array<T, N>: N must be >= 1, got '' @ int_to_string n)
                               else None))
               | _ \<Rightarrow> Some (''stdlib type '' @ [CHR 0x27] @ ''array'' @ [CHR 0x27] @
                        '' takes 2 arguments (array<T, N>), got '' @ nat_to_string (length targs)))
            else if stdId = TId_Union then
              (case rfs of
                 tag # _ # _ \<Rightarrow>
                   if \<not> isIntegerScalarTag (ty_stdlibId (rf_type tag))
                   then Some (''union<...> tag field '' @ [CHR 0x27] @ rf_name tag @ [CHR 0x27] @
                          '' must be an integer scalar type'')
                   else validFields r ''union'' [] rfs
               | _ \<Rightarrow> Some ''union<...> must declare a tag field and at least one variant'')
            else if stdId \<noteq> TId_None then
              (if typeParamArity stdId \<noteq> length targs
               then Some (''stdlib type '' @ [CHR 0x27] @ name @ [CHR 0x27] @ '' takes '' @
                      nat_to_string (typeParamArity stdId) @ '' type parameter(s), got '' @
                      nat_to_string (length targs))
               else validArgs r name targs)
            else if knownName r name then None
            else Some (''unknown type '' @ [CHR 0x27] @ name @ [CHR 0x27])
      | [ns, backend, tname] \<Rightarrow>
          if ns = ''std''
          then if isKnownType backend tname (tr_registry r) then None
               else Some (''unknown std::'' @ backend @ '' type '' @ [CHR 0x27] @ tname @ [CHR 0x27])
          else None
      | _ \<Rightarrow> None)"
| "validFields r what seen [] = None"
| "validFields r what seen (RecordField n l t # fs) =
     (if n \<in> set seen
      then Some (''duplicate field name '' @ [CHR 0x27] @ n @ [CHR 0x27] @ '' in '' @ what @ ''<...>'')
      else
        (case isValidType r t of
           Some sub \<Rightarrow> Some (''invalid type of '' @ what @ '' field '' @ [CHR 0x27] @ n @ [CHR 0x27] @ '': '' @ sub)
         | None \<Rightarrow> validFields r what (n # seen) fs))"
| "validArgs r name [] = None"
| "validArgs r name (t # ts) =
     (case isValidType r t of
        Some sub \<Rightarrow> Some (''invalid type parameter of '' @ [CHR 0x27] @ name @ [CHR 0x27] @ '': '' @ sub)
      | None \<Rightarrow> validArgs r name ts)"

end
