(* ===== verification/Type_Laws.thy ===== *)
theory Type_Laws
  imports TypeRegistry Symbol_Laws
begin

text \<open>
  The laws of type validity: the resolver decides a declarative set of rules, and what it
  accepts stays accepted when symbols are merged in or template parameters come into scope.
\<close>

section \<open>The rules of type validity\<close>

inductive valid_type :: "TypeResolver \<Rightarrow> TypeNode \<Rightarrow> bool" for r where
  v_void: "valid_type r (TypeNode c own [''void''] md loc targs itp var ntv sid rfs asb hrtb)"
| v_record: "name \<noteq> ''void'' \<Longrightarrow> stdIdOf sid name = TId_Record \<Longrightarrow> rfs \<noteq> [] \<Longrightarrow> distinct (map rf_name rfs) \<Longrightarrow>
     \<forall>f \<in> set rfs. valid_type r (rf_type f) \<Longrightarrow>
     valid_type r (TypeNode c own [name] md loc targs itp var ntv sid rfs asb hrtb)"
| v_array: "name \<noteq> ''void'' \<Longrightarrow> stdIdOf sid name = TId_Array \<Longrightarrow> ty_nonTypeValue elem = None \<Longrightarrow>
     valid_type r elem \<Longrightarrow> ty_nonTypeValue count = Some n \<Longrightarrow> 1 \<le> n \<Longrightarrow>
     valid_type r (TypeNode c own [name] md loc [elem, count] itp var ntv sid rfs asb hrtb)"
| v_union: "name \<noteq> ''void'' \<Longrightarrow> stdIdOf sid name = TId_Union \<Longrightarrow> 2 \<le> length rfs \<Longrightarrow>
     isIntegerScalarTag (ty_stdlibId (rf_type (hd rfs))) \<Longrightarrow> distinct (map rf_name rfs) \<Longrightarrow>
     \<forall>f \<in> set rfs. valid_type r (rf_type f) \<Longrightarrow>
     valid_type r (TypeNode c own [name] md loc targs itp var ntv sid rfs asb hrtb)"
| v_stdlib: "name \<noteq> ''void'' \<Longrightarrow> stdIdOf sid name \<notin> {TId_Record, TId_Array, TId_Union, TId_None} \<Longrightarrow>
     length targs = typeParamArity (stdIdOf sid name) \<Longrightarrow> \<forall>t \<in> set targs. valid_type r t \<Longrightarrow>
     valid_type r (TypeNode c own [name] md loc targs itp var ntv sid rfs asb hrtb)"
| v_named: "name \<noteq> ''void'' \<Longrightarrow> stdIdOf sid name = TId_None \<Longrightarrow> knownName r name \<Longrightarrow>
     valid_type r (TypeNode c own [name] md loc targs itp var ntv sid rfs asb hrtb)"
| v_backend: "isKnownType b n (tr_registry r) \<Longrightarrow>
     valid_type r (TypeNode c own [''std'', b, n] md loc targs itp var ntv sid rfs asb hrtb)"
| v_qualified: "2 \<le> length parts \<Longrightarrow> \<not> (length parts = 3 \<and> hd parts = ''std'') \<Longrightarrow>
     valid_type r (TypeNode c own parts md loc targs itp var ntv sid rfs asb hrtb)"

inductive_cases valid_type_emptyE: "valid_type r (TypeNode c own [] md loc targs itp var ntv sid rfs asb hrtb)"
inductive_simps valid_type_simp:
  "valid_type r (TypeNode c own parts md loc targs itp var ntv sid rfs asb hrtb)"

lemma validity:
  "isValidType r t = None \<longleftrightarrow> valid_type r t"
  "validFields r what seen fs = None \<longleftrightarrow>
     distinct (map rf_name fs) \<and> set (map rf_name fs) \<inter> set seen = {} \<and> (\<forall>f \<in> set fs. valid_type r (rf_type f))"
  "validArgs r name ts = None \<longleftrightarrow> (\<forall>t \<in> set ts. valid_type r t)"
proof (induction r t and r what seen fs and r name ts rule: isValidType_validFields_validArgs.induct)
  case (1 r c own parts md loc targs itp var ntv sid rfs asb hrtb)
  show ?case
  proof (cases parts)
    case Nil
    then show ?thesis by (auto elim: valid_type_emptyE)
  next
    case (Cons name rest)
    show ?thesis
    proof (cases rest)
      case Nil
      with Cons have p: "parts = [name]" by simp
      let ?id = "stdIdOf sid name"
      consider (c_void) "name = ''void''" | (c_record) "name \<noteq> ''void''" "?id = TId_Record"
        | (c_array) "name \<noteq> ''void''" "?id = TId_Array" | (c_union) "name \<noteq> ''void''" "?id = TId_Union"
        | (c_stdlib) "name \<noteq> ''void''" "?id \<notin> {TId_Record, TId_Array, TId_Union, TId_None}"
        | (c_named) "name \<noteq> ''void''" "?id = TId_None"
        by blast
      then show ?thesis
      proof cases
        case c_void
        then show ?thesis by (simp add: p valid_type_simp)
      next
        case c_record
        with 1(1) p show ?thesis by (auto simp: p valid_type_simp)
      next
        case c_array
        show ?thesis
        proof (cases "\<exists>elem count. targs = [elem, count]")
          case True
          then obtain elem count where ta: "targs = [elem, count]" by blast
          have "ty_nonTypeValue elem = None \<Longrightarrow> isValidType r elem = None \<longleftrightarrow> valid_type r elem"
            using c_array 1(2) p ta by simp
          with c_array show ?thesis
            by (auto simp: p ta valid_type_simp split: option.splits)
        next
          case False
          with c_array show ?thesis
            by (auto simp: p valid_type_simp split: list.splits)
        qed
      next
        case c_union
        then show ?thesis
        proof (cases "\<exists>tag f2 fs. rfs = tag # f2 # fs")
          case True
          then obtain tag f2 fs where fs: "rfs = tag # f2 # fs" by blast
          have "isIntegerScalarTag (ty_stdlibId (rf_type tag)) \<Longrightarrow> validFields r ''union'' [] rfs = None \<longleftrightarrow>
              distinct (map rf_name rfs) \<and> (\<forall>f \<in> set rfs. valid_type r (rf_type f))"
            using c_union 1(3) p fs by simp
          with c_union show ?thesis
            by (auto simp: p fs valid_type_simp)
        next
          case False
          then have "length rfs < 2" by (cases rfs; cases "tl rfs") auto
          with c_union show ?thesis
            by (auto simp: p valid_type_simp split: list.splits)
        qed
      next
        case c_stdlib
        with 1(4) p show ?thesis by (auto simp: p valid_type_simp Let_def split: if_splits)
      next
        case c_named
        then show ?thesis by (simp add: p valid_type_simp)
      qed
    next
      case (Cons n2 rest2)
      with \<open>parts = name # rest\<close> show ?thesis
        by (auto simp: valid_type_simp split: list.splits)
    qed
  qed
qed (auto split: option.splits)

section \<open>Merging keeps types valid\<close>

definition resolver_le :: "TypeResolver \<Rightarrow> TypeResolver \<Rightarrow> bool" where
  "resolver_le r r' \<longleftrightarrow>
     (\<forall>n. knownName r n \<longrightarrow> knownName r' n) \<and>
     (\<forall>b n. isKnownType b n (tr_registry r) \<longrightarrow> isKnownType b n (tr_registry r'))"

lemma valid_type_mono: "valid_type r t \<Longrightarrow> resolver_le r r' \<Longrightarrow> valid_type r' t"
  by (induction rule: valid_type.induct) (auto intro: valid_type.intros simp: resolver_le_def)

lemma emplace_all_sub: "set m \<subseteq> set (emplace_all name keep other m)"
proof (induction other arbitrary: m)
  case (Cons p other)
  obtain n v where p: "p = (n, v)" by (cases p)
  have "set m \<subseteq> set (if keep v then fst (umap_emplace (name v) v m) else m)"
    by (auto simp: umap_simps)
  with Cons.IH [of "if keep v then fst (umap_emplace (name v) v m) else m"] show ?case
    unfolding p emplace_all_simps by blast
qed simp

lemma knownName_merge:
  assumes "knownName r n"
  shows "knownName (r\<lparr>tr_symbols := mergeFrom other fi (tr_symbols r),
    tr_templateParamNames := tr_templateParamNames r @ ps\<rparr>) n"
proof -
  have a: "findTypeAlias n t \<noteq> None \<Longrightarrow> findTypeAlias n (mergeFrom other fi t) \<noteq> None" for t
    using emplace_all_keeps [of "st_typeAliases t" n _ ta_name "\<lambda>_. True" "st_typeAliases other"]
    by (auto simp: findTypeAlias_def mergeFrom_table)
  have i: "isImportedType n t \<Longrightarrow> isImportedType n (mergeFrom other fi t)" for t
    by (auto simp: isImportedType_def mergeFrom_table)
  have "set (st_classSymbols t) \<subseteq> set (st_classSymbols (mergeFrom other fi t))"
    "set (st_constraintSymbols t) \<subseteq> set (st_constraintSymbols (mergeFrom other fi t))" for t
    by (simp_all add: mergeFrom_table emplace_all_sub)
  with assms a i show ?thesis unfolding knownName_def by simp blast
qed

section \<open>Properties\<close>

text \<open>C21: the resolver accepts exactly the types the rules describe: \<open>void\<close>; records with
  distinct field names and valid fields; arrays of a valid element type with a positive length;
  unions with an integer tag; stdlib types of the right arity over valid arguments; names in
  scope; known backend types; and every other qualified name.  A type it accepts is still
  accepted after other symbols are merged in and template parameters come into scope.\<close>

theorem type_validity:
  "(isValidType r t = None \<longleftrightarrow> valid_type r t) \<and>
   (isValidType r t = None \<longrightarrow>
    isValidType (r\<lparr>tr_symbols := mergeFrom other fi (tr_symbols r),
      tr_templateParamNames := tr_templateParamNames r @ ps\<rparr>) t = None)"
proof -
  have "resolver_le r (r\<lparr>tr_symbols := mergeFrom other fi (tr_symbols r),
      tr_templateParamNames := tr_templateParamNames r @ ps\<rparr>)"
    using knownName_merge by (simp add: resolver_le_def)
  then show ?thesis using valid_type_mono validity(1) by blast
qed

text \<open>A record with one \<open>i32\<close> field, in an empty scope.\<close>

definition sample_record :: TypeNode where
  "sample_record =
     TypeNode False Own_None [''record''] TM_None default_loc [] False False None TId_Record
       [RecordField ''x'' default_loc
          (TypeNode False Own_None [''i32''] TM_None default_loc [] False False None TId_I32 [] [] [])]
       [] []"

theorem type_validity_witness:
  "isValidType (mkResolver empty_table) sample_record = None \<and>
   isValidType ((mkResolver empty_table)\<lparr>tr_symbols := mergeFrom empty_table True empty_table,
     tr_templateParamNames := [''T'']\<rparr>) sample_record = None"
proof -
  have v: "isValidType (mkResolver empty_table) sample_record = None" by code_simp
  from conjunct2 [OF type_validity [where r = "mkResolver empty_table" and t = sample_record and
      other = empty_table and fi = True and ps = "[''T'']"]] v
  show ?thesis by (simp add: mkResolver_def)
qed

end
