(* ===== verification/DiagPasses.thy ===== *)
theory DiagPasses
  imports Basics
begin

text \<open>
  Passes that only report: a pass checks a condition when it leaves the engine well formed
  and an engine without errors stays without errors exactly under the condition.  Conditions
  compose with the passes, so that each validator below is characterised by a predicate on
  what it validates.
\<close>

type_synonym diag_pass = "DiagnosticEngine \<Rightarrow> DiagnosticEngine"

definition checks :: "bool \<Rightarrow> diag_pass \<Rightarrow> bool" where
  "checks P f \<longleftrightarrow>
     (\<forall>d. engine_ok d \<longrightarrow> engine_ok (f d) \<and> (hasErrors (f d) \<longleftrightarrow> hasErrors d \<or> \<not> P))"

named_theorems pass_checks \<open>what the reporting passes check\<close>

lemma diag_error_is_error: "engine_ok e \<Longrightarrow> hasErrors (diag_error loc msg code e)"
  by (auto simp: hasErrors_def diag_error_def report_def Let_def kMaxErrors_def engine_ok_def)

lemma diag_warning_errors: "hasErrors (diag_warning loc msg code e) \<longleftrightarrow> hasErrors e"
  by (simp add: hasErrors_def diag_warning_def report_def Let_def)

lemma checksD:
  "checks P f \<Longrightarrow> engine_ok d \<Longrightarrow> engine_ok (f d)"
  "checks P f \<Longrightarrow> engine_ok d \<Longrightarrow> hasErrors (f d) \<longleftrightarrow> hasErrors d \<or> \<not> P"
  by (auto simp: checks_def)

lemma checks_id [pass_checks, simp]: "checks True (\<lambda>d. d)"
  by (simp add: checks_def)

lemma checks_error [pass_checks]: "checks False (diag_error loc msg code)"
  by (simp add: checks_def diag_error_is_error)

lemma checks_warning [pass_checks]: "checks True (diag_warning loc msg code)"
  by (simp add: checks_def diag_warning_errors)

lemma checks_if [pass_checks]:
  "(c \<Longrightarrow> checks P f) \<Longrightarrow> (\<not> c \<Longrightarrow> checks Q g) \<Longrightarrow>
   checks (if c then P else Q) (\<lambda>d. if c then f d else g d)"
  by (simp add: checks_def)

lemma checks_seq:
  "checks P f \<Longrightarrow> checks Q g \<Longrightarrow> checks (P \<and> Q) (\<lambda>d. g (f d))"
  by (auto simp: checks_def)

lemma checks_fold:
  "(\<And>x. x \<in> set xs \<Longrightarrow> checks (P x) (f x)) \<Longrightarrow> checks (\<forall>x \<in> set xs. P x) (fold f xs)"
proof (induction xs)
  case (Cons x xs)
  have "checks (P x) (f x)" "checks (\<forall>x \<in> set xs. P x) (fold f xs)"
    using Cons by simp_all
  from checks_seq [OF this] show ?case by (simp add: comp_def)
qed (simp add: checks_def)

lemma checks_cong: "checks P f \<Longrightarrow> P = Q \<Longrightarrow> checks Q f"
  by simp

text \<open>The two common shapes: report when a test fails, and report the reason a test gives.\<close>

lemma checks_require:
  "checks P (\<lambda>d. if P then d else diag_error loc msg code d)"
  "checks (\<not> P) (\<lambda>d. if P then diag_error loc msg code d else d)"
  by (auto simp: checks_def diag_error_is_error)

lemma checks_reason:
  "checks (r = None) (\<lambda>d. case r of Some reason \<Rightarrow> diag_error loc (msg reason) code d | None \<Rightarrow> d)"
  by (cases r) (auto simp: checks_def diag_error_is_error)

end
