(* ===== verification/Ownership.thy ===== *)
theory Ownership
  imports Pipeline_Laws TypeRegistry
begin

text \<open>
  The ownership rules of the semantic analyzer: \<open>validateOwnershipRules\<close> on one
  type, and \<open>validateOwnershipGraph\<close>, the depth-first search for cycles of \<open>shared\<close>
  members.  The recursion of the search is bounded by the source at depth 500; the number
  that counts down here is the number of levels left.
\<close>

section \<open>One type\<close>

definition validateOwnershipRules ::
  "TypeNode \<Rightarrow> string \<Rightarrow> SourceLocation \<Rightarrow> DiagnosticEngine \<Rightarrow> DiagnosticEngine" where
  "validateOwnershipRules type context loc diag =
     (if ty_ownership type = Own_None then diag
      else
        let diag1 =
              (if ty_modifier type \<noteq> TM_None
               then diag_error loc
                      (context @ '': ownership qualifier '' @ quoted (ownershipKindName (ty_ownership type)) @
                       '' is mutually exclusive with modifier '' @
                       quoted (if ty_modifier type = TM_Ref then ''&'' else ''*'') @ '' '' @ em_dash @
                       '' ownership implies indirection (S-OWN-001)'') [] diag
               else diag)
        in
        (case ty_nameParts type of
           [baseName] \<Rightarrow>
             if baseName = ''void'' \<or> isPrimitive baseName defaultRegistry
             then diag_error loc
                    (context @ '': ownership qualifier '' @ quoted (ownershipKindName (ty_ownership type)) @
                     '' is meaningless on primitive type '' @ quoted baseName @ '' (S-OWN-005)'') [] diag1
             else diag1
         | _ \<Rightarrow> diag1))"

section \<open>The graph of shared members\<close>

type_synonym shared_graph = "(string \<times> string list) list"

definition sharedTargets :: "ClassSymbol \<Rightarrow> string list" where
  "sharedTargets cls =
     map (\<lambda>mv. last (ty_nameParts (mv_type mv)))
       (filter (\<lambda>mv. ty_ownership (mv_type mv) = Own_Shared \<and> ty_nameParts (mv_type mv) \<noteq> [])
         (cl_memberVars cls))"

definition sharedGraph :: "SymbolTable \<Rightarrow> shared_graph" where
  "sharedGraph t =
     fold (\<lambda>(q, cls) g.
         fold (\<lambda>target g. smap_put (cl_simpleName cls) (smap_get [] g (cl_simpleName cls) @ [target]) g)
           (sharedTargets cls) g)
       (st_classSymbols t) []"

definition classLocations :: "SymbolTable \<Rightarrow> (string \<times> SourceLocation) list" where
  "classLocations t = fold (\<lambda>(q, cls) m. smap_put (cl_simpleName cls) (cl_location cls) m) (st_classSymbols t) []"

section \<open>The search\<close>

definition kMaxDfsDepth :: nat where
  "kMaxDfsDepth = 500"

record DfsState =
  df_visited :: "string list"
  df_path :: "string list"
  df_diag :: DiagnosticEngine

definition startLocation :: "(string \<times> SourceLocation) list \<Rightarrow> string \<Rightarrow> SourceLocation" where
  "startLocation locs start = (case map_of locs start of Some l \<Rightarrow> l | None \<Rightarrow> default_loc)"

definition depthError :: "(string \<times> SourceLocation) list \<Rightarrow> string \<Rightarrow> DfsState \<Rightarrow> DfsState" where
  "depthError locs start s =
     s\<lparr>df_diag := diag_error (startLocation locs start)
         (''ownership graph analysis exceeded maximum depth ('' @ nat_to_string kMaxDfsDepth @
          '') starting from class '' @ quoted start) [] (df_diag s)\<rparr>"

text \<open>The cycle is the path from the first occurrence of the node.\<close>

definition cycleText :: "string list \<Rightarrow> string \<Rightarrow> string" where
  "cycleText path node =
     foldl (\<lambda>cycle p. (if cycle \<noteq> [] then cycle @ '' -> '' else []) @ p) []
       (dropWhile (\<lambda>n. n \<noteq> node) path) @ '' -> '' @ node"

definition cycleError :: "(string \<times> SourceLocation) list \<Rightarrow> string \<Rightarrow> string \<Rightarrow> DfsState \<Rightarrow> DfsState" where
  "cycleError locs start node s =
     s\<lparr>df_diag := diag_error (startLocation locs start)
         (''shared ownership cycle detected: '' @
          cycleText (df_path s) node @ '' '' @ em_dash @
          '' use '' @ quoted ''weak'' @ '' to break the cycle (S-OWN-004)'') [] (df_diag s)\<rparr>"

fun dfs :: "shared_graph \<Rightarrow> (string \<times> SourceLocation) list \<Rightarrow> string \<Rightarrow> nat \<Rightarrow> string \<Rightarrow> DfsState \<Rightarrow> bool \<times> DfsState"
  and dfsTargets :: "shared_graph \<Rightarrow> (string \<times> SourceLocation) list \<Rightarrow> string \<Rightarrow> nat \<Rightarrow> string list \<Rightarrow> DfsState \<Rightarrow> bool \<times> DfsState" where
  "dfs g locs start 0 node s = (True, depthError locs start s)"
| "dfs g locs start (Suc levels) node s =
     (if node \<in> set (df_visited s) then
        (if node \<in> set (df_path s) then (True, cycleError locs start node s) else (False, s))
      else
        (case dfsTargets g locs start levels (smap_get [] g node)
                (s\<lparr>df_visited := node # df_visited s, df_path := df_path s @ [node]\<rparr>) of
           (True, s1) \<Rightarrow> (True, s1)
         | (False, s1) \<Rightarrow> (False, s1\<lparr>df_path := butlast (df_path s1)\<rparr>)))"
| "dfsTargets g locs start levels [] s = (False, s)"
| "dfsTargets g locs start levels (target # targets) s =
     (case dfs g locs start levels target s of
        (True, s1) \<Rightarrow> (True, s1)
      | (False, s1) \<Rightarrow> dfsTargets g locs start levels targets s1)"

definition searchFrom ::
  "shared_graph \<Rightarrow> (string \<times> SourceLocation) list \<Rightarrow> string \<Rightarrow> DiagnosticEngine \<Rightarrow> DiagnosticEngine" where
  "searchFrom g locs start diag =
     df_diag (snd (dfs g locs start (Suc kMaxDfsDepth) start
       \<lparr>df_visited = [], df_path = [], df_diag = diag\<rparr>))"

definition validateOwnershipGraph :: "SymbolTable \<Rightarrow> DiagnosticEngine \<Rightarrow> DiagnosticEngine" where
  "validateOwnershipGraph t diag =
     (let g = sharedGraph t; locs = classLocations t
      in fold (\<lambda>(start, targets). searchFrom g locs start) g diag)"

section \<open>What the search finds\<close>

definition succ_rel :: "shared_graph \<Rightarrow> (string \<times> string) set" where
  "succ_rel g = {(a, b). b \<in> set (smap_get [] g a)}"

text \<open>
  The nodes done with: visited and off the path.  They are closed under successors and
  no cycle passes through them; the path is a path of the graph, without repetition.
\<close>

definition finished :: "DfsState \<Rightarrow> string set" where
  "finished s = set (df_visited s) - set (df_path s)"

definition dfs_inv :: "shared_graph \<Rightarrow> DfsState \<Rightarrow> bool" where
  "dfs_inv g s \<longleftrightarrow>
     set (df_path s) \<subseteq> set (df_visited s) \<and> distinct (df_path s) \<and>
     (\<forall>i. Suc i < length (df_path s) \<longrightarrow> (df_path s ! i, df_path s ! Suc i) \<in> succ_rel g) \<and>
     succ_rel g `` finished s \<subseteq> finished s \<and>
     (\<forall>x \<in> finished s. (x, x) \<notin> (succ_rel g)\<^sup>+)"

lemma path_reaches:
  "dfs_inv g s \<Longrightarrow> i \<le> j \<Longrightarrow> j < length (df_path s) \<Longrightarrow> (df_path s ! i, df_path s ! j) \<in> (succ_rel g)\<^sup>*"
proof (induction j)
  case (Suc j)
  show ?case
  proof (cases "i = Suc j")
    case False
    with Suc have "(df_path s ! i, df_path s ! j) \<in> (succ_rel g)\<^sup>*" by simp
    moreover have "(df_path s ! j, df_path s ! Suc j) \<in> succ_rel g"
      using Suc.prems by (simp add: dfs_inv_def)
    ultimately show ?thesis by (rule rtrancl_into_rtrancl)
  qed simp
qed simp

lemma closed_trancl: "r `` B \<subseteq> B \<Longrightarrow> x \<in> B \<Longrightarrow> (x, y) \<in> r\<^sup>* \<Longrightarrow> y \<in> B"
  by (erule rtrancl_induct) auto

text \<open>A node all of whose successors are done with can be closed itself.\<close>

lemma finish_node:
  assumes "r `` B \<subseteq> B" and "\<forall>x \<in> B. (x, x) \<notin> r\<^sup>+" and "r `` {n} \<subseteq> B" and "n \<notin> B"
  shows "r `` insert n B \<subseteq> insert n B" and "\<forall>x \<in> insert n B. (x, x) \<notin> r\<^sup>+"
proof -
  show "r `` insert n B \<subseteq> insert n B" using assms by blast
  have "(n, n) \<notin> r\<^sup>+"
  proof
    assume "(n, n) \<in> r\<^sup>+"
    then obtain y where "(n, y) \<in> r" "(y, n) \<in> r\<^sup>*" by (meson tranclD)
    with assms closed_trancl [OF assms(1)] show False by blast
  qed
  with assms(2) show "\<forall>x \<in> insert n B. (x, x) \<notin> r\<^sup>+" by simp
qed

text \<open>What a search without an error leaves behind.\<close>

definition explored :: "shared_graph \<Rightarrow> DfsState \<Rightarrow> DfsState \<Rightarrow> string set \<Rightarrow> bool" where
  "explored g s s' N \<longleftrightarrow>
     dfs_inv g s' \<and> df_path s' = df_path s \<and> df_diag s' = df_diag s \<and>
     finished s \<subseteq> finished s' \<and> N \<subseteq> finished s'"

definition fails :: "shared_graph \<Rightarrow> DfsState \<Rightarrow> DfsState \<Rightarrow> bool" where
  "fails g s s' \<longleftrightarrow> (\<exists>loc msg. df_diag s' = diag_error loc msg [] (df_diag s)) \<and> \<not> acyclic (succ_rel g)"

text \<open>The nodes of the graph, few enough for the depth bound never to be reached.\<close>

definition shallow :: "shared_graph \<Rightarrow> string set \<Rightarrow> bool" where
  "shallow g V \<longleftrightarrow> finite V \<and> card V \<le> kMaxDfsDepth \<and> succ_rel g \<subseteq> V \<times> V"

lemma path_length:
  assumes "shallow g V" and "dfs_inv g s" and "set (df_path s) \<subseteq> V"
  shows "length (df_path s) \<le> kMaxDfsDepth"
proof -
  have "length (df_path s) = card (set (df_path s))"
    using assms(2) by (simp add: dfs_inv_def distinct_card)
  also have "\<dots> \<le> card V" using assms by (simp add: card_mono shallow_def)
  finally show ?thesis using assms(1) by (simp add: shallow_def)
qed

definition on_path :: "shared_graph \<Rightarrow> string list \<Rightarrow> string \<Rightarrow> bool" where
  "on_path g path node \<longleftrightarrow> path = [] \<or> (last path, node) \<in> succ_rel g"

lemma dfs_inv_enter:
  assumes "dfs_inv g s" and "node \<notin> set (df_visited s)" and "on_path g (df_path s) node"
  shows "dfs_inv g (s\<lparr>df_visited := node # df_visited s, df_path := df_path s @ [node]\<rparr>)"
    and "finished (s\<lparr>df_visited := node # df_visited s, df_path := df_path s @ [node]\<rparr>) = finished s"
proof -
  show f: "finished (s\<lparr>df_visited := node # df_visited s, df_path := df_path s @ [node]\<rparr>) = finished s"
    using assms(2) by (auto simp: finished_def)
  have "(df_path s ! i, (df_path s @ [node]) ! Suc i) \<in> succ_rel g" if "i < length (df_path s)" for i
  proof (cases "Suc i < length (df_path s)")
    case True
    with assms(1) show ?thesis by (simp add: dfs_inv_def nth_append)
  next
    case False
    with that have "i = length (df_path s) - 1" "df_path s \<noteq> []" by auto
    with assms(3) show ?thesis by (simp add: on_path_def last_conv_nth nth_append)
  qed
  then show "dfs_inv g (s\<lparr>df_visited := node # df_visited s, df_path := df_path s @ [node]\<rparr>)"
    using assms f by (auto simp: dfs_inv_def nth_append)
qed

lemma back_edge:
  assumes inv: "dfs_inv g s" and node: "node \<in> set (df_path s)" and edge: "on_path g (df_path s) node"
  shows "\<not> acyclic (succ_rel g)"
proof -
  from node obtain i where i: "i < length (df_path s)" "df_path s ! i = node"
    by (auto simp: in_set_conv_nth)
  then have "(node, last (df_path s)) \<in> (succ_rel g)\<^sup>*"
    using path_reaches [OF inv, of i "length (df_path s) - 1"] by (cases "df_path s = []") (auto simp: last_conv_nth)
  moreover have "(last (df_path s), node) \<in> succ_rel g" using edge node by (auto simp: on_path_def)
  ultimately show ?thesis by (auto simp: acyclic_def intro: rtrancl_into_trancl1)
qed

lemma dfs_spec:
  "dfs g locs start levels node s = (res, s') \<Longrightarrow> shallow g V \<Longrightarrow> dfs_inv g s \<Longrightarrow> node \<in> V \<Longrightarrow> set (df_path s) \<subseteq> V \<Longrightarrow>
      on_path g (df_path s) node \<Longrightarrow> length (df_path s) + levels = Suc kMaxDfsDepth \<Longrightarrow>
      (if res then fails g s s' else explored g s s' {node})"
  "dfsTargets g locs start levels targets s = (res, s') \<Longrightarrow> shallow g V \<Longrightarrow> dfs_inv g s \<Longrightarrow> set targets \<subseteq> V \<Longrightarrow>
      set (df_path s) \<subseteq> V \<Longrightarrow> df_path s \<noteq> [] \<Longrightarrow> set targets \<subseteq> succ_rel g `` {last (df_path s)} \<Longrightarrow>
      length (df_path s) + levels = Suc kMaxDfsDepth \<Longrightarrow>
      (if res then fails g s s' else explored g s s' (set targets))"
proof (induction g locs start levels node s and g locs start levels targets s
    arbitrary: res s' and res s' rule: dfs_dfsTargets.induct)
  case (1 g locs start node s)
  have "length (df_path s) \<le> kMaxDfsDepth" by (rule path_length [OF "1.prems"(2,3,5)])
  with "1.prems"(7) show ?case by simp
next
  case (2 g locs start levels node s)
  let ?s0 = "s\<lparr>df_visited := node # df_visited s, df_path := df_path s @ [node]\<rparr>"
  show ?case
  proof (cases "node \<in> set (df_visited s)")
    case seen: True
    show ?thesis
    proof (cases "node \<in> set (df_path s)")
      case True
      with seen "2.prems"(1) have "res" "s' = cycleError locs start node s" by simp_all
      with back_edge [OF "2.prems"(3) True "2.prems"(6)] show ?thesis
        by (auto simp: fails_def cycleError_def)
    next
      case False
      with seen 2 show ?thesis by (auto simp: explored_def finished_def)
    qed
  next
    case False
    note enter = dfs_inv_enter [OF "2.prems"(3) False "2.prems"(6)]
    obtain r s1 where r: "dfsTargets g locs start levels (smap_get [] g node) ?s0 = (r, s1)" by fastforce
    have targets: "set (smap_get [] g node) \<subseteq> V" "set (smap_get [] g node) \<subseteq> succ_rel g `` {node}"
      using "2.prems"(2) by (auto simp: shallow_def succ_rel_def)
    have post: "if r then fails g ?s0 s1 else explored g ?s0 s1 (set (smap_get [] g node))"
      using "2.prems" targets by (intro "2.IH" [OF False r "2.prems"(2) enter(1)]) simp_all
    show ?thesis
    proof (cases r)
      case True
      with post r False "2.prems"(1) show ?thesis by (simp add: fails_def)
    next
      case noerr: False
      with post have ex: "explored g ?s0 s1 (set (smap_get [] g node))" by simp
      from noerr r False "2.prems"(1)
      have s': "res = False" "s' = s1\<lparr>df_path := butlast (df_path s1)\<rparr>" by simp_all
      from ex have inv1: "dfs_inv g s1" and path1: "df_path s1 = df_path s @ [node]" by (simp_all add: explored_def)
      have "node \<notin> set (df_path s)" using False "2.prems"(3) by (auto simp: dfs_inv_def)
      then have fin: "finished s' = insert node (finished s1)"
        using inv1 path1 by (auto simp: finished_def s' dfs_inv_def)
      have out: "node \<notin> finished s1" using path1 by (simp add: finished_def)
      have "succ_rel g `` {node} \<subseteq> finished s1"
        using ex by (auto simp: explored_def succ_rel_def)
      note closed = finish_node [OF _ _ this out]
      have "dfs_inv g s'"
        unfolding dfs_inv_def fin
      proof (intro conjI closed)
        show "set (df_path s') \<subseteq> set (df_visited s')" "distinct (df_path s')"
          using inv1 path1 by (auto simp: dfs_inv_def s')
        show "\<forall>i. Suc i < length (df_path s') \<longrightarrow> (df_path s' ! i, df_path s' ! Suc i) \<in> succ_rel g"
          using "2.prems"(3) path1 by (simp add: dfs_inv_def s')
      qed (use inv1 in \<open>auto simp: dfs_inv_def\<close>)
      with ex enter(2) path1 fin show ?thesis by (auto simp: explored_def s')
    qed
  qed
next
  case (3 g locs start levels s)
  then show ?case by (simp add: explored_def)
next
  case (4 g locs start levels target targets s)
  obtain r s1 where r: "dfs g locs start levels target s = (r, s1)" by fastforce
  have "on_path g (df_path s) target" using "4.prems" by (auto simp: on_path_def)
  with "4.prems" have post: "if r then fails g s s1 else explored g s s1 {target}"
    by (intro "4.IH"(1) [OF r]) simp_all
  show ?case
  proof (cases r)
    case True
    with r post "4.prems"(1) show ?thesis by simp
  next
    case False
    with post have ex: "explored g s s1 {target}" by simp
    from False r "4.prems"(1) have rest: "dfsTargets g locs start levels targets s1 = (res, s')" by simp
    have "if res then fails g s1 s' else explored g s1 s' (set targets)"
      using "4.prems" ex by (intro "4.IH"(2) [OF r [symmetric] _ rest]) (simp_all add: explored_def False)
    with ex show ?thesis by (cases res) (auto simp: explored_def fails_def)
  qed
qed

section \<open>The graph the table describes\<close>

definition sharedEdges :: "SymbolTable \<Rightarrow> (string \<times> string) set" where
  "sharedEdges t =
     {(a, b). \<exists>(q, cls) \<in> set (st_classSymbols t). cl_simpleName cls = a \<and> b \<in> set (sharedTargets cls)}"

definition sharedNodes :: "SymbolTable \<Rightarrow> string set" where
  "sharedNodes t = fst ` sharedEdges t \<union> snd ` sharedEdges t"

lemma sharedGraph_get:
  "set (smap_get [] (sharedGraph t) a) = {b. (a, b) \<in> sharedEdges t}"
proof -
  have inner: "smap_get [] (fold (\<lambda>target g. smap_put n (smap_get [] g n @ [target]) g) ts g) a =
      smap_get [] g a @ (if a = n then ts else [])" for n ts g
    by (induction ts arbitrary: g) auto
  have outer: "smap_get [] (fold (\<lambda>(q, cls) g. fold (\<lambda>target g. smap_put (cl_simpleName cls)
        (smap_get [] g (cl_simpleName cls) @ [target]) g) (sharedTargets cls) g) m g) a =
      smap_get [] g a @ concat (map (\<lambda>(q, cls). if a = cl_simpleName cls then sharedTargets cls else []) m)" for m g
    by (induction m arbitrary: g) (auto simp: inner)
  have "smap_get [] (sharedGraph t) a =
      concat (map (\<lambda>(q, cls). if a = cl_simpleName cls then sharedTargets cls else []) (st_classSymbols t))"
    unfolding sharedGraph_def outer by simp
  then show ?thesis by (auto simp: sharedEdges_def split: if_splits)
qed

lemma sharedGraph_keys: "fst ` set (sharedGraph t) \<subseteq> fst ` sharedEdges t"
proof -
  have inner: "fst ` set (fold (\<lambda>target g. smap_put n (smap_get [] g n @ [target]) g) ts g) =
      fst ` set g \<union> (if ts = [] then {} else {n})" for n ts and g :: shared_graph
    by (induction ts arbitrary: g) (auto simp: smap_put_keys)
  have outer: "fst ` set (fold (\<lambda>(q, cls) g. fold (\<lambda>target g. smap_put (cl_simpleName cls)
        (smap_get [] g (cl_simpleName cls) @ [target]) g) (sharedTargets cls) g) m g) =
      fst ` set g \<union> set (map (\<lambda>p. cl_simpleName (snd p)) (filter (\<lambda>p. sharedTargets (snd p) \<noteq> []) m))"
    for m and g :: shared_graph
  proof (induction m arbitrary: g)
    case (Cons p m)
    obtain q cls where p: "p = (q, cls)" by fastforce
    show ?case unfolding p by (simp add: Cons.IH inner)
  qed simp
  have keys: "fst ` set (sharedGraph t) =
      set (map (\<lambda>p. cl_simpleName (snd p)) (filter (\<lambda>p. sharedTargets (snd p) \<noteq> []) (st_classSymbols t)))"
    unfolding sharedGraph_def outer by simp
  have "n \<in> fst ` sharedEdges t"
    if "(q, cls) \<in> set (st_classSymbols t)" "cl_simpleName cls = n" "sharedTargets cls \<noteq> []" for n q cls
  proof -
    from that(3) obtain b where "b \<in> set (sharedTargets cls)" by (meson list.set_sel(1))
    with that have "(n, b) \<in> sharedEdges t" by (force simp: sharedEdges_def)
    then show ?thesis by force
  qed
  then show ?thesis unfolding keys by fastforce
qed

lemma sharedGraph_rel: "succ_rel (sharedGraph t) = sharedEdges t"
  by (auto simp: succ_rel_def sharedGraph_get)

lemma finite_sharedEdges: "finite (sharedEdges t)"
proof -
  have "sharedEdges t = (\<Union>(q, cls) \<in> set (st_classSymbols t). {cl_simpleName cls} \<times> set (sharedTargets cls))"
    by (force simp: sharedEdges_def)
  then show ?thesis by auto
qed

lemma sharedGraph_shallow: "card (sharedNodes t) \<le> kMaxDfsDepth \<Longrightarrow> shallow (sharedGraph t) (sharedNodes t)"
  by (force simp: shallow_def sharedGraph_rel sharedNodes_def finite_sharedEdges)

lemma searchFrom_spec:
  assumes sh: "shallow g V" and n: "n \<in> V"
  shows "acyclic (succ_rel g) \<Longrightarrow> searchFrom g locs n diag = diag"
    and "(n, n) \<in> (succ_rel g)\<^sup>+ \<Longrightarrow> \<exists>loc msg. searchFrom g locs n diag = diag_error loc msg [] diag"
    and "searchFrom g locs n diag = diag \<or> (\<exists>loc msg. searchFrom g locs n diag = diag_error loc msg [] diag)"
proof -
  let ?s = "\<lparr>df_visited = [], df_path = [], df_diag = diag\<rparr>"
  obtain res s' where r: "dfs g locs n (Suc kMaxDfsDepth) n ?s = (res, s')" by fastforce
  have out: "searchFrom g locs n diag = df_diag s'" unfolding searchFrom_def r by simp
  have "if res then fails g ?s s' else explored g ?s s' {n}"
    using n by (intro dfs_spec(1) [OF r sh]) (simp_all add: dfs_inv_def finished_def on_path_def)
  then consider (bad) "fails g ?s s'" | (good) "explored g ?s s' {n}" by (cases res) auto
  note cases = this
  show "acyclic (succ_rel g) \<Longrightarrow> searchFrom g locs n diag = diag"
    using cases by cases (auto simp: fails_def explored_def out)
  show "(n, n) \<in> (succ_rel g)\<^sup>+ \<Longrightarrow> \<exists>loc msg. searchFrom g locs n diag = diag_error loc msg [] diag"
    using cases by cases (auto simp: fails_def explored_def dfs_inv_def out)
  show "searchFrom g locs n diag = diag \<or> (\<exists>loc msg. searchFrom g locs n diag = diag_error loc msg [] diag)"
    using cases by cases (auto simp: fails_def explored_def out)
qed

lemma diag_error_errs: "engine_ok e \<Longrightarrow> hasErrors (diag_error loc msg code e)"
  by (auto simp: hasErrors_def diag_error_def report_def Let_def kMaxErrors_def engine_ok_def)

lemma hasErrors_mono: "engine_ok e \<Longrightarrow> hasErrors e \<Longrightarrow> hasErrors (diag_error loc msg code e)"
  using diag_error_count [of e loc msg code] by (simp add: hasErrors_def)

lemma search_all:
  assumes sh: "shallow g V" and "\<forall>n \<in> set ns. n \<in> V" and "engine_ok diag"
  shows "acyclic (succ_rel g) \<Longrightarrow> fold (searchFrom g locs) ns diag = diag"
    and "hasErrors diag \<or> (\<exists>n \<in> set ns. (n, n) \<in> (succ_rel g)\<^sup>+) \<Longrightarrow> hasErrors (fold (searchFrom g locs) ns diag)"
  using assms(2,3)
proof (induction ns arbitrary: diag)
  case (Cons n ns)
  {
    case 1
    then show ?case using Cons.IH(1) searchFrom_spec(1) [OF sh] by simp
  next
    case 2
    have ok: "engine_ok (searchFrom g locs n diag)"
      using searchFrom_spec(3) [OF sh, of n locs diag] 2 by auto
    have "hasErrors (searchFrom g locs n diag) \<or> (\<exists>n \<in> set ns. (n, n) \<in> (succ_rel g)\<^sup>+)"
      using searchFrom_spec(2,3) [OF sh, of n] 2 hasErrors_mono [of diag] diag_error_errs [of diag]
      by (metis list.set_intros(1) set_ConsD)
    with Cons.IH(2) ok 2 show ?case by simp
  }
qed auto

lemma search_all_ok:
  "shallow g V \<Longrightarrow> \<forall>n \<in> set ns. n \<in> V \<Longrightarrow> engine_ok diag \<Longrightarrow> engine_ok (fold (searchFrom g locs) ns diag)"
proof (induction ns arbitrary: diag)
  case (Cons n ns)
  have "engine_ok (searchFrom g locs n diag)"
    using searchFrom_spec(3) [OF Cons.prems(1), of n locs diag] Cons.prems by auto
  with Cons show ?case by simp
qed simp

lemma ownership_run:
  "validateOwnershipGraph t diag =
     fold (searchFrom (sharedGraph t) (classLocations t)) (map fst (sharedGraph t)) diag"
  by (simp add: validateOwnershipGraph_def Let_def fold_map comp_def case_prod_beta')

lemma ownership_starts: "\<forall>n \<in> set (map fst (sharedGraph t)). n \<in> sharedNodes t"
  using sharedGraph_keys [of t] by (auto simp: sharedNodes_def)

section \<open>Properties\<close>

lemma ownership_graph:
  assumes "engine_ok diag" and "card (sharedNodes t) \<le> 500"
  shows "if acyclic (sharedEdges t) then validateOwnershipGraph t diag = diag
         else hasErrors (validateOwnershipGraph t diag)"
proof -
  let ?g = "sharedGraph t"
  have sh: "shallow ?g (sharedNodes t)" using assms(2) by (simp add: sharedGraph_shallow kMaxDfsDepth_def)
  note run = ownership_run [of t diag] and keys = ownership_starts [of t]
  show ?thesis
  proof (cases "acyclic (sharedEdges t)")
    case True
    then show ?thesis using search_all(1) [OF sh _ assms(1)] keys by (simp add: run sharedGraph_rel)
  next
    case False
    then obtain x where x: "(x, x) \<in> (sharedEdges t)\<^sup>+" by (auto simp: acyclic_def)
    then obtain y where "(x, y) \<in> sharedEdges t" by (meson tranclD)
    then have "smap_get [] ?g x \<noteq> []" using sharedGraph_get [of t x] by auto
    then have "x \<in> set (map fst ?g)" by (force simp: smap_get_def dest: map_of_SomeD split: option.splits)
    with x have "\<exists>n \<in> set (map fst ?g). (n, n) \<in> (succ_rel ?g)\<^sup>+"
      unfolding sharedGraph_rel by blast
    with search_all(2) [OF sh keys assms(1)] have "hasErrors (validateOwnershipGraph t diag)"
      unfolding run by blast
    with False show ?thesis by simp
  qed
qed

lemma ownership_graph_ok:
  "engine_ok diag \<Longrightarrow> card (sharedNodes t) \<le> 500 \<Longrightarrow> engine_ok (validateOwnershipGraph t diag)"
  unfolding ownership_run
  by (rule search_all_ok [OF sharedGraph_shallow ownership_starts]) (simp_all add: kMaxDfsDepth_def)

text \<open>C14: among at most 500 class names, the analyzer reports a cycle of shared ownership iff
  there is one: when no class owns itself through shared members the diagnostics are left as
  they were, and otherwise an error is reported.  The bound is the recursion limit of the
  search, which a longer chain without any cycle could exceed.\<close>

theorem shared_cycle_reported:
  assumes "engine_ok diag" and "card (sharedNodes t) \<le> 500"
  shows "if acyclic (sharedEdges t) then validateOwnershipGraph t diag = diag
         else hasErrors (validateOwnershipGraph t diag)"
  by (rule ownership_graph [OF assms])

text \<open>\<open>A\<close> shares a \<open>B\<close> and \<open>B\<close> shares an \<open>A\<close>.\<close>

definition sharing_class :: "string \<Rightarrow> string \<Rightarrow> string \<times> ClassSymbol" where
  "sharing_class name target =
     (''m::'' @ name,
      \<lparr>cl_qualifiedName = ''m::'' @ name, cl_simpleName = name, cl_visibility = Vis_Public,
       cl_location = default_loc, cl_baseClass = None, cl_memberFunctions = [], cl_constructors = [],
       cl_destructor = [],
       cl_memberVars =
         [\<lparr>mv_name = ''link'',
           mv_type = TypeNode False Own_Shared [''m'', target] TM_None default_loc [] False False None TId_None [] [] [],
           mv_isStatic = False, mv_location = default_loc, mv_owningType = name, mv_isExternal = False,
           mv_externalOwner = []\<rparr>],
       cl_templateParams = [], cl_operatorOverloads = [], cl_isExternal = False,
       cl_explicitlyExternal = False, cl_externalOwner = [], cl_enclosingType = [], cl_isComptime = False\<rparr>)"

theorem shared_cycle_reported_witness:
  "let t = empty_table\<lparr>st_classSymbols := [sharing_class ''A'' ''B'', sharing_class ''B'' ''A'']\<rparr>
   in engine_ok empty_engine \<and> card (sharedNodes t) \<le> 500 \<and> hasErrors (validateOwnershipGraph t empty_engine)"
proof -
  let ?t = "empty_table\<lparr>st_classSymbols := [sharing_class ''A'' ''B'', sharing_class ''B'' ''A'']\<rparr>"
  have E: "sharedEdges ?t = {(''A'', ''B''), (''B'', ''A'')}"
  proof -
    have "cl_simpleName (snd (sharing_class a b)) = a" "sharedTargets (snd (sharing_class a b)) = [b]" for a b
      by (simp_all add: sharing_class_def sharedTargets_def)
    then show ?thesis by (auto simp: sharedEdges_def case_prod_beta' simp del: split_paired_Ex)
  qed
  have "(''A'', ''A'') \<in> (sharedEdges ?t)\<^sup>+"
    unfolding E by (meson insertI1 insertI2 r_into_trancl trancl_into_trancl)
  then have "\<not> acyclic (sharedEdges ?t)" by (auto simp: acyclic_def)
  moreover have "card (sharedNodes ?t) \<le> 500" by (simp add: sharedNodes_def E card_insert_if)
  ultimately show ?thesis
    using shared_cycle_reported [OF engine_ok_empty, of ?t] by (simp add: Let_def)
qed

end
