(* ===== verification/TypeCheck.thy ===== *)
theory TypeCheck
  imports DiagPasses Ownership
begin

text \<open>
  The second pass of the semantic analyzer (\<open>validateTypes\<close> and
  \<open>validateTemplateArgs\<close> of \<open>lib/Sema/SemanticAnalyzer.cpp\<close>): the types, ownership
  qualifiers, cardinality and tiling hints of functions, the bases and members of classes, and the
  constraints.
\<close>

section \<open>Template arguments\<close>

definition typeLoc :: "TypeNode \<Rightarrow> SourceLocation \<Rightarrow> SourceLocation" where
  "typeLoc type fallback = (if loc_endLine (ty_location type) > 0 then ty_location type else fallback)"

definition targetClass :: "SymbolTable \<Rightarrow> string list \<Rightarrow> ClassSymbol option" where
  "targetClass t parts = (case parts of [n] \<Rightarrow> findClassBySimpleName n t | _ \<Rightarrow> None)"

definition checkArgCount :: "SymbolTable \<Rightarrow> string list \<Rightarrow> nat \<Rightarrow> SourceLocation \<Rightarrow> diag_pass" where
  "checkArgCount t parts actual loc diag =
     (case targetClass t parts of
        None \<Rightarrow> diag
      | Some cls \<Rightarrow>
          if cl_templateParams cls \<noteq> [] \<and> actual \<noteq> length (cl_templateParams cls)
          then diag_error loc
                 (''template argument count mismatch for '' @ quoted (hd parts) @ '': expected '' @
                  nat_to_string (length (cl_templateParams cls)) @ '', got '' @ nat_to_string actual @ '' (T002)'') [] diag
          else diag)"

fun validateTemplateArgs :: "SymbolTable \<Rightarrow> TypeNode \<Rightarrow> diag_pass"
  and validateTemplateArgList :: "SymbolTable \<Rightarrow> TypeNode list \<Rightarrow> diag_pass" where
  "validateTemplateArgs t (TypeNode c own parts md loc targs itp var ntv sid rfs asb hrtb) diag =
     (if targs = [] then diag
      else validateTemplateArgList t targs (checkArgCount t parts (length targs) loc diag))"
| "validateTemplateArgList t [] diag = diag"
| "validateTemplateArgList t (a # as) diag = validateTemplateArgList t as (validateTemplateArgs t a diag)"

section \<open>Functions\<close>

text \<open>The first class template whose name, followed by a colon, begins the name of the function.\<close>

definition memberOfTemplate :: "string \<Rightarrow> string \<times> ClassSymbol \<Rightarrow> bool" where
  "memberOfTemplate name c \<longleftrightarrow>
     cl_templateParams (snd c) \<noteq> [] \<and> is_prefix (fst c) name \<and>
     length (fst c) < length name \<and> name ! length (fst c) = CHR '':''"

definition functionScope :: "SymbolTable \<Rightarrow> string \<Rightarrow> FunctionSymbol \<Rightarrow> TypeResolver" where
  "functionScope t name f =
     (let r = mkResolver t;
          r1 = (case find (memberOfTemplate name) (st_classSymbols t) of
                  Some (q, cls) \<Rightarrow> addTemplateParamNames (cl_templateParams cls) r
                | None \<Rightarrow> r)
      in if fs_templateParams f \<noteq> [] then addTemplateParamNames (fs_templateParams f) r1 else r1)"

definition unknownType :: "string" where
  "unknownType = ''unknown-type''"

definition checkType :: "TypeResolver \<Rightarrow> TypeNode \<Rightarrow> SourceLocation \<Rightarrow> string \<Rightarrow> diag_pass" where
  "checkType r type loc what diag =
     (case isValidType r type of
        Some reason \<Rightarrow> diag_error (typeLoc type loc) (what @ '': '' @ reason) unknownType diag
      | None \<Rightarrow> diag)"

fun checkTemplateParamNames :: "string list \<Rightarrow> TemplateParamDecl list \<Rightarrow> diag_pass" where
  "checkTemplateParamNames seen [] diag = diag"
| "checkTemplateParamNames seen (p # ps) diag =
     checkTemplateParamNames (tp_name p # seen) ps
       (if tp_name p \<in> set seen
        then diag_error (tp_location p) (''duplicate template parameter name '' @ quoted (tp_name p) @ '' (T003)'') [] diag
        else diag)"

fun checkReturnParams :: "TypeResolver \<Rightarrow> string \<Rightarrow> string list \<Rightarrow> ReturnParam list \<Rightarrow> diag_pass" where
  "checkReturnParams r name seen [] diag = diag"
| "checkReturnParams r name seen (p # ps) diag =
     checkReturnParams r name (rp_name p # seen) ps
       (checkType r (rp_type p) (rp_loc p)
          (''invalid return parameter type for '' @ quoted (rp_name p) @ '' in '' @ quoted name)
          (if rp_name p \<in> set seen
           then diag_error (rp_loc p) (''duplicate return parameter name '' @ quoted (rp_name p) @
                  '' in function '' @ quoted name) [] diag
           else diag))"

definition checkUsedReturns :: "string \<Rightarrow> FunctionSymbol \<Rightarrow> diag_pass" where
  "checkUsedReturns name f diag =
     fold (\<lambda>n diag.
         if n \<in> set (map rp_name (fs_returnParams f)) then diag
         else diag_error (fs_location f)
                (quoted ''with returns(...)'' @ '' in '' @ quoted name @ '' names unknown return parameter '' @
                 quoted n @ '' '' @ em_dash @ '' must match a declared return name'') [] diag)
       (fs_usedReturns f) diag"

definition checkReturns :: "SymbolTable \<Rightarrow> TypeResolver \<Rightarrow> string \<Rightarrow> FunctionSymbol \<Rightarrow> diag_pass" where
  "checkReturns t r name f diag =
     (if fs_isMultiReturn f then
        let d1 = (if length (fs_returnParams f) < 2
                  then diag_error (fs_location f)
                         (''multi-return function '' @ quoted name @ '' requires at least 2 return parameters'') [] diag
                  else diag);
            d2 = checkReturnParams r name [] (fs_returnParams f) d1
        in if fs_hasUsedReturnsClause f then checkUsedReturns name f d2 else d2
      else
        validateTemplateArgs t (fs_returnType f)
          (checkType r (fs_returnType f) (fs_location f) (''invalid return type for '' @ quoted name) diag))"

definition checkParam :: "SymbolTable \<Rightarrow> TypeResolver \<Rightarrow> string \<Rightarrow> SourceLocation \<Rightarrow> Parameter \<Rightarrow> diag_pass" where
  "checkParam t r name loc p diag =
     validateOwnershipRules (pm_type p) (''parameter '' @ quoted (pm_name p) @ '' in '' @ quoted name)
       (typeLoc (pm_type p) loc)
       (validateTemplateArgs t (pm_type p)
          (checkType r (pm_type p) loc
             (''invalid parameter type for '' @ quoted (pm_name p) @ '' in '' @ quoted name) diag))"

definition checkWeakReturns :: "string \<Rightarrow> FunctionSymbol \<Rightarrow> diag_pass" where
  "checkWeakReturns name f diag =
     (if fs_isMultiReturn f then
        fold (\<lambda>p diag.
            if ty_ownership (rp_type p) = Own_Weak
            then diag_error (rp_loc p)
                   (''return parameter '' @ quoted (rp_name p) @ '' in '' @ quoted name @ '' cannot have '' @
                    quoted ''weak'' @ '' qualifier '' @ em_dash @ '' caller cannot guarantee lifetime (S-OWN-003)'') [] diag
            else diag)
          (fs_returnParams f) diag
      else if ty_ownership (fs_returnType f) = Own_Weak then
        diag_error (typeLoc (fs_returnType f) (fs_location f))
          (''return type of '' @ quoted name @ '' cannot have '' @ quoted ''weak'' @ '' qualifier '' @ em_dash @
           '' caller cannot guarantee lifetime (S-OWN-003)'') [] diag
      else diag)"

definition checkCardinality :: "string \<Rightarrow> FunctionSymbol \<Rightarrow> diag_pass" where
  "checkCardinality name f diag =
     (case fs_cardinality f of
        None \<Rightarrow> diag
      | Some hint \<Rightarrow>
          let d1 = (if ch_min hint < 0 \<and> ch_max hint < 0
                    then diag_error (fs_location f)
                           (''cardinality hint for '' @ quoted name @ '' must specify at least min value'') [] diag
                    else diag)
          in if ch_min hint \<ge> 0 \<and> ch_max hint \<ge> 0 \<and> ch_min hint > ch_max hint
             then diag_error (fs_location f)
                    (''cardinality hint for '' @ quoted name @ '' has min ('' @ int_to_string (ch_min hint) @
                     '') > max ('' @ int_to_string (ch_max hint) @ '')'') [] d1
             else d1)"

definition checkTiling :: "string \<Rightarrow> FunctionSymbol \<Rightarrow> diag_pass" where
  "checkTiling name f diag =
     (if fs_accessPattern f = Acc_Tiled \<and> fs_tiledSize f \<le> 0
      then diag_error (fs_location f)
             (''access(tiled) for '' @ quoted name @ '' requires a positive tile size'') [] diag
      else diag)"

definition validateFunction :: "SymbolTable \<Rightarrow> string \<times> FunctionSymbol \<Rightarrow> diag_pass" where
  "validateFunction t nf diag =
     (case nf of (name, f) \<Rightarrow>
      let r = functionScope t name f;
          d1 = (if fs_templateParams f \<noteq> [] then checkTemplateParamNames [] (fs_templateParams f) diag else diag);
          d2 = checkReturns t r name f d1;
          d3 = fold (checkParam t r name (fs_location f)) (fs_params f) d2;
          d4 = checkWeakReturns name f d3;
          d5 = checkCardinality name f d4
      in checkTiling name f d5)"

section \<open>Classes\<close>

definition checkMember :: "SymbolTable \<Rightarrow> TypeResolver \<Rightarrow> string \<Rightarrow> MemberVarSymbol \<Rightarrow> diag_pass" where
  "checkMember t r name mv diag =
     validateOwnershipRules (mv_type mv) (''member '' @ quoted (mv_name mv) @ '' in class '' @ quoted name)
       (typeLoc (mv_type mv) (mv_location mv))
       (validateTemplateArgs t (mv_type mv)
          (checkType r (mv_type mv) (mv_location mv)
             (''invalid member variable type for '' @ quoted (mv_name mv) @ '' in '' @ quoted name) diag))"

definition classScope :: "SymbolTable \<Rightarrow> ClassSymbol \<Rightarrow> TypeResolver" where
  "classScope t cls =
     (if cl_templateParams cls \<noteq> [] then addTemplateParamNames (cl_templateParams cls) (mkResolver t) else mkResolver t)"

definition validateClass :: "SymbolTable \<Rightarrow> string \<times> ClassSymbol \<Rightarrow> diag_pass" where
  "validateClass t nc diag =
     (case nc of (name, cls) \<Rightarrow>
      let r = classScope t cls;
          d1 = (case cl_baseClass cls of
                  Some base \<Rightarrow>
                    validateTemplateArgs t base
                      (checkType r base (cl_location cls) (''invalid base class type for '' @ quoted name) diag)
                | None \<Rightarrow> diag)
      in fold (checkMember t r name) (cl_memberVars cls) d1)"

section \<open>Constraints\<close>

text \<open>
  The walk up the chain of parents: the name it meets twice, if any.  It ends because
  every step adds a name to the visited ones, and all but the first are names of parents.
\<close>

definition parentOf :: "SymbolTable \<Rightarrow> string \<Rightarrow> string option" where
  "parentOf t n = (case findConstraintSymbol n t of Some cs \<Rightarrow> cs_parentConstraint cs | None \<Rightarrow> None)"

definition parentNames :: "SymbolTable \<Rightarrow> string set" where
  "parentNames t = {p. \<exists>(q, cs) \<in> set (st_constraintSymbols t). cs_parentConstraint cs = Some p}"

lemma finite_parentNames: "finite (parentNames t)"
proof -
  have "parentNames t \<subseteq> (\<lambda>(q, cs). the (cs_parentConstraint cs)) ` set (st_constraintSymbols t)"
    by (force simp: parentNames_def)
  then show ?thesis by (rule finite_subset) simp
qed

lemma parentOf_names: "parentOf t n = Some p \<Longrightarrow> p \<in> parentNames t"
  by (auto simp: parentOf_def parentNames_def findConstraintSymbol_def find_Some_iff
      dest!: map_of_SomeD split: option.splits) (force dest: nth_mem)+

function parentWalkUp :: "SymbolTable \<Rightarrow> string \<Rightarrow> string list \<Rightarrow> string option" where
  "parentWalkUp t current visited =
     (if current = [] then None
      else if current \<in> set visited then Some current
      else
        (case parentOf t current of
           None \<Rightarrow> None
         | Some p \<Rightarrow> parentWalkUp t p (current # visited)))"
  by pat_completeness auto

termination
proof (relation "measure (\<lambda>(t, current, visited). card (insert current (parentNames t) - set visited))")
  fix t and current p :: string and visited :: "string list"
  assume a: "current \<notin> set visited" "parentOf t current = Some p"
  have "insert p (parentNames t) - set (current # visited) \<subset> insert current (parentNames t) - set visited"
    using a parentOf_names [OF a(2)] by auto
  then show "((t, p, current # visited), (t, current, visited))
      \<in> measure (\<lambda>(t, current, visited). card (insert current (parentNames t) - set visited))"
    by (simp add: psubset_card_mono finite_parentNames)
qed simp

declare parentWalkUp.simps [simp del]

definition validateConstraint :: "SymbolTable \<Rightarrow> string \<times> ConstraintSymbol \<Rightarrow> diag_pass" where
  "validateConstraint t nc diag =
     (case nc of (name, cs) \<Rightarrow>
      (case cs_parentConstraint cs of
         None \<Rightarrow> diag
       | Some parent \<Rightarrow>
           if findConstraintSymbol parent t = None then
             diag_error (cs_location cs)
               (''parent constraint '' @ quoted parent @ '' not found for constraint '' @ quoted name) [] diag
           else
             (case parentWalkUp t parent [name] of
                Some current \<Rightarrow>
                  diag_error (cs_location cs)
                    (''circular constraint inheritance: '' @ quoted name @ '' forms a cycle through '' @
                     quoted current) [] diag
              | None \<Rightarrow> diag)))"

definition unknownConstraint :: "SymbolTable \<Rightarrow> TemplateParamDecl \<Rightarrow> bool" where
  "unknownConstraint t p \<longleftrightarrow>
     tp_kind p = TP_TypeParam \<and> ty_nameParts (tp_constraintType p) \<noteq> [] \<and>
     findConstraintSymbol (hd (ty_nameParts (tp_constraintType p))) t = None"

definition checkConstraintRef :: "SymbolTable \<Rightarrow> TemplateParamDecl \<Rightarrow> diag_pass" where
  "checkConstraintRef t p diag =
     (if unknownConstraint t p
      then diag_error (tp_location p)
             (''unknown constraint '' @ quoted (hd (ty_nameParts (tp_constraintType p))) @
              '' on template parameter '' @ quoted (tp_name p) @ '' (T001)'') [] diag
      else diag)"

section \<open>The pass\<close>

definition validateTypes :: "SymbolTable \<Rightarrow> diag_pass" where
  "validateTypes t diag =
     (let d1 = fold (validateFunction t) (st_functions t) diag;
          d2 = fold (validateClass t) (st_classSymbols t) d1;
          d3 = validateOwnershipGraph t d2;
          d4 = fold (validateConstraint t) (st_constraintSymbols t) d3;
          d5 = fold (\<lambda>(n, f). fold (checkConstraintRef t) (fs_templateParams f)) (st_functions t) d4
      in fold (\<lambda>(n, c). fold (checkConstraintRef t) (cl_templateParams c)) (st_classSymbols t) d5)"

end
