(* ===== verification/Collector.thy ===== *)
theory Collector
  imports Pipeline_Laws TypeRegistry
begin

text \<open>
  The first pass of the semantic analyzer (\<open>lib/Sema/SemanticAnalyzer.cpp\<close>): walking
  the syntax tree and filling the symbol table, in the order of the code.  The state of the
  pass is the table and the diagnostics.
\<close>

section \<open>State\<close>

type_synonym cstate = "SymbolTable \<times> DiagnosticEngine"

definition c_error :: "SourceLocation \<Rightarrow> string \<Rightarrow> cstate \<Rightarrow> cstate" where
  "c_error loc msg st = (fst st, diag_error loc msg [] (snd st))"

definition c_table :: "(SymbolTable \<Rightarrow> SymbolTable) \<Rightarrow> cstate \<Rightarrow> cstate" where
  "c_table f st = (f (fst st), snd st)"

text \<open>An insertion that reports the symbol as a duplicate when it was not new.\<close>

definition c_add :: "(SymbolTable \<Rightarrow> SymbolTable \<times> bool) \<Rightarrow> SourceLocation \<Rightarrow> string \<Rightarrow> cstate \<Rightarrow> cstate" where
  "c_add add loc msg st =
     (case add (fst st) of (t, inserted) \<Rightarrow>
       if inserted then (t, snd st) else (t, diag_error loc msg [] (snd st)))"

section \<open>Symbols from declarations\<close>

text \<open>A \<open>std::set\<close> of names, kept sorted.\<close>

definition nameSet :: "string list \<Rightarrow> string list" where
  "nameSet ns = fold insort_insert ns []"

definition functionSymbol :: "string \<Rightarrow> Visibility \<Rightarrow> NodeBase \<Rightarrow> FnDecl \<Rightarrow> bool \<Rightarrow> FunctionSymbol" where
  "functionSymbol qualified vis b f ext =
     \<lparr>fs_qualifiedName = qualified, fs_simpleName = fd_name f, fs_visibility = vis,
      fs_location = nd_location b, fs_returnType = fd_returnType f, fs_params = fd_params f,
      fs_isConst = fd_isConst f, fs_isStatic = fd_isStatic f, fs_hasLogicBlock = False,
      fs_isMultiReturn = fd_isMultiReturn f, fs_returnParams = fd_returnParams f,
      fs_usedReturns = nameSet (fd_declaredUsedReturns f),
      fs_hasUsedReturnsClause = fd_hasUsedReturnsClause f,
      fs_templateParams = fd_templateParams f, fs_bindingTarget = fd_bindingTarget f,
      fs_priority = fd_priority f, fs_cardinality = fd_cardinality f,
      fs_accessPattern = fd_accessPattern f, fs_tiledSize = fd_tiledSize f, fs_isExternal = ext,
      fs_explicitlyExternal = ext, fs_owningType = [], fs_externalOwner = [],
      fs_kind = FK_Function, fs_isComptime = False\<rparr>"

definition specialFn :: "FnDecl \<Rightarrow> bool" where
  "specialFn f \<longleftrightarrow> fd_isConstructor f \<or> fd_isDestructor f \<or> fd_isOperator f"

definition collectFn :: "string \<Rightarrow> Visibility \<Rightarrow> NodeBase \<Rightarrow> FnDecl \<Rightarrow> cstate \<Rightarrow> cstate" where
  "collectFn nsPath vis b f st =
     (let external = hasModifier MK_External (nd_modifiers b) in
      if specialFn f then
        (if external
         then c_error (nd_location b)
                (quoted ''external'' @ '' cannot be applied to '' @
                 (if fd_isConstructor f then ''constructors''
                  else if fd_isDestructor f then ''destructors'' else ''operators'')) st
         else st)
      else if external \<and> hasModifier MK_Comptime (nd_modifiers b) then
        c_error (nd_location b)
          (quoted ''external'' @ '' and '' @ quoted ''comptime'' @ '' are mutually exclusive'') st
      else if fd_isComptime f then st
      else
        let qualified = nsPath @ ''::'' @ normalizeName (fd_name f) in
        c_add (addFunction (functionSymbol qualified vis b f external)) (nd_location b)
          (''duplicate function declaration '' @ quoted qualified) st)"

fun operationCall :: "ASTNode \<Rightarrow> (string \<times> int) option" where
  "operationCall (OperationNode b d) =
     Some (if od_isAssignment d then ''<assign:'' @ od_varName d @ ''>'' else od_funcName d, od_stage d)"
| "operationCall _ = None"

definition collectLogicBlock ::
  "string \<Rightarrow> NodeBase \<Rightarrow> string \<Rightarrow> ASTNode list \<Rightarrow> PipelineEdge list \<Rightarrow> cstate \<Rightarrow> cstate" where
  "collectLogicBlock nsPath b name operations edges st =
     (let st1 = (if hasModifier MK_External (nd_modifiers b)
                 then c_error (nd_location b) (quoted ''external'' @ '' cannot be applied to fn blocks'') st
                 else st);
          qualified = nsPath @ ''::'' @ normalizeName name;
          calls = List.map_filter operationCall operations;
          entry =
            \<lparr>lb_qualifiedName = qualified, lb_simpleName = name, lb_location = nd_location b,
             lb_calledFunctions = map fst calls, lb_stages = map snd calls,
             lb_isPipeline = (edges \<noteq> []), lb_isFlow = hasModifier MK_Flow (nd_modifiers b),
             lb_edges = edges, lb_pipelineAnalysis = None\<rparr>
      in c_add (addLogicBlock entry) (nd_location b) (''duplicate fn block '' @ quoted qualified) st1)"

definition collectInstantiate :: "NodeBase \<Rightarrow> DataDecl \<Rightarrow> string \<Rightarrow> cstate \<Rightarrow> cstate" where
  "collectInstantiate b d nsPath st =
     (let typeName = ty_toString (dd_type d);
          qualified = (if nsPath \<noteq> [] \<and> ty_nameParts (dd_type d) \<noteq> []
                       then nsPath @ ''::'' @ typeName else typeName)
      in c_table (addInstantiate \<lparr>in_type = dd_type d, in_qualifiedName = qualified, in_location = nd_location b\<rparr>) st)"

definition addAlias :: "NodeBase \<Rightarrow> DataDecl \<Rightarrow> SymbolTable \<Rightarrow> SymbolTable \<times> bool" where
  "addAlias b d = addTypeAlias \<lparr>ta_name = dd_name d, ta_targetType = dd_type d, ta_location = nd_location b\<rparr>"

definition importEntry :: "NodeBase \<Rightarrow> DataDecl \<Rightarrow> ImportEntry" where
  "importEntry b d = \<lparr>ie_path = dd_importPath d, ie_typeName = dd_name d, ie_location = nd_location b\<rparr>"

definition duplicateAlias :: "DataDecl \<Rightarrow> string" where
  "duplicateAlias d = ''duplicate type alias '' @ quoted (dd_name d)"

definition collectData :: "string \<Rightarrow> NodeBase \<Rightarrow> DataDecl \<Rightarrow> cstate \<Rightarrow> cstate" where
  "collectData nsPath b d st0 =
     (let st = (if hasModifier MK_External (nd_modifiers b)
                then c_error (nd_location b) (quoted ''external'' @ '' can only modify function declarations'') st0
                else st0)
      in
      if isStdImport d then c_table (addImport (importEntry b d)) st
      else if isLifetime b then
        c_table (addLifetimeGroup
          \<lparr>lg_name = dd_name d, lg_startFunc = dd_startFunc d, lg_endFunc = dd_endFunc d,
           lg_isOpenEnded = dd_isOpenEnded d, lg_isSingleFunc = dd_isSingleFunc d,
           lg_location = nd_location b, lg_scopeFunctions = []\<rparr>) st
      else if isInstantiate b then collectInstantiate b d nsPath st
      else if dd_name d \<noteq> [] \<and> ty_nameParts (dd_type d) \<noteq> [] then
        c_add (addAlias b d) (nd_location b) (duplicateAlias d) st
      else if dd_name d \<noteq> [] then c_table (\<lambda>t. fst (addAlias b d t)) st
      else st)"

definition collectConstraint :: "string \<Rightarrow> NodeBase \<Rightarrow> TypeDeclData \<Rightarrow> cstate \<Rightarrow> cstate" where
  "collectConstraint nsPath b td st =
     (let qualified = nsPath @ ''::'' @ td_name td in
      c_add (addConstraintSymbol
          \<lparr>cs_qualifiedName = qualified, cs_simpleName = td_name td,
           cs_parentConstraint = td_parentConstraint td, cs_members = td_constraintMembers td,
           cs_location = nd_location b\<rparr>)
        (nd_location b) (''duplicate constraint declaration '' @ quoted qualified) st)"

definition adaptEntry :: "NodeBase \<Rightarrow> TypeDeclData \<Rightarrow> AdaptEntry" where
  "adaptEntry b td =
     \<lparr>ad_constraintName = td_adaptConstraintName td, ad_targetType = td_adaptTargetType td,
      ad_mappings = td_adaptMappings td, ad_location = nd_location b\<rparr>"

definition mapsMember :: "TypeDeclData \<Rightarrow> string \<Rightarrow> bool" where
  "mapsMember td m \<longleftrightarrow> (\<exists>a \<in> set (td_adaptMappings td). am_memberName a = m)"

definition collectAdapt :: "NodeBase \<Rightarrow> TypeDeclData \<Rightarrow> cstate \<Rightarrow> cstate" where
  "collectAdapt b td st =
     (let name = td_adaptConstraintName td;
          missing = (\<lambda>m st. if mapsMember td m then st
                       else c_error (nd_location b)
                              (''type adapter for '' @ quoted name @ '' is missing '' @ quoted m @ '' mapping'') st);
          st1 =
            (if classifyAbstractName name \<noteq> None then missing ''to'' (missing ''from'' st)
             else
               (case findConstraintSymbol name (fst st) of
                  None \<Rightarrow> st
                | Some cs \<Rightarrow>
                    fold (\<lambda>cm st. if mapsMember td (cm_name cm) then st
                           else c_error (nd_location b)
                                  (''adapt for '' @ quoted name @ '' is missing mapping for member '' @
                                   quoted (cm_name cm)) st)
                      (cs_members cs) st))
      in c_table (addAdapt (adaptEntry b td)) st1)"

section \<open>Members of types\<close>

definition specializedName :: "string \<Rightarrow> TypeDeclData \<Rightarrow> string" where
  "specializedName nsPath td =
     nsPath @ ''::'' @ td_name td @
     (if td_specializationArgs td \<noteq> []
      then ''<'' @ join '', '' (map ty_toString (td_specializationArgs td)) @ ''>'' else [])"

definition initialClass ::
  "string \<Rightarrow> Visibility \<Rightarrow> string \<Rightarrow> string \<Rightarrow> NodeBase \<Rightarrow> TypeDeclData \<Rightarrow> ClassSymbol" where
  "initialClass qualified vis inherited enclosing b td =
     (let explicit = hasModifier MK_External (nd_modifiers b) in
      \<lparr>cl_qualifiedName = qualified, cl_simpleName = td_name td, cl_visibility = vis,
       cl_location = nd_location b, cl_baseClass = td_baseClass td, cl_memberFunctions = [],
       cl_constructors = [], cl_destructor = [], cl_memberVars = [],
       cl_templateParams = td_templateParams td, cl_operatorOverloads = [],
       cl_isExternal = (explicit \<or> inherited \<noteq> []), cl_explicitlyExternal = explicit,
       cl_externalOwner = (if explicit then qualified else inherited),
       cl_enclosingType = enclosing, cl_isComptime = hasModifier MK_Comptime (nd_modifiers b)\<rparr>)"

definition voidReturn :: "TypeNode \<Rightarrow> TypeNode" where
  "voidReturn t =
     (case t of TypeNode c own parts md loc targs itp var ntv sid rfs asb hrtb \<Rightarrow>
        TypeNode c own [''void''] md loc targs itp var ntv sid rfs asb hrtb)"

text \<open>Which kind of member a function is, and what it adds to the class symbol.\<close>

definition memberFnSymbol :: "ClassSymbol \<Rightarrow> Visibility \<Rightarrow> NodeBase \<Rightarrow> FnDecl \<Rightarrow> FunctionSymbol" where
  "memberFnSymbol cls vis b f =
     (let explicit = hasModifier MK_External (nd_modifiers b);
          base = functionSymbol (cl_qualifiedName cls @ ''::'' @ normalizeName (fd_name f)) vis b f explicit;
          sy = base\<lparr>fs_isExternal := explicit \<or> cl_isExternal cls,
                    fs_isComptime := hasModifier MK_Comptime (nd_modifiers b) \<or> fd_isComptime f,
                    fs_owningType := cl_qualifiedName cls, fs_externalOwner := cl_externalOwner cls\<rparr>
      in
      if fd_isConstructor f then
        sy\<lparr>fs_kind := FK_Constructor,
           fs_qualifiedName := fs_qualifiedName sy @ ''/'' @ nat_to_string (length (fd_params f)),
           fs_returnType := voidReturn (fs_returnType sy)\<rparr>
      else if fd_isDestructor f then sy\<lparr>fs_kind := FK_Destructor, fs_returnType := voidReturn (fs_returnType sy)\<rparr>
      else if fd_isOperator f then sy\<lparr>fs_kind := FK_Operator\<rparr>
      else sy)"

definition addMemberFn :: "NodeBase \<Rightarrow> FnDecl \<Rightarrow> FunctionSymbol \<Rightarrow> ClassSymbol \<Rightarrow> ClassSymbol" where
  "addMemberFn b f sy cls =
     (if fd_isConstructor f then cls\<lparr>cl_constructors := cl_constructors cls @ [fs_qualifiedName sy]\<rparr>
      else if fd_isDestructor f then cls\<lparr>cl_destructor := fs_qualifiedName sy\<rparr>
      else
        (case fd_operatorOp f of
           Some op \<Rightarrow>
             cls\<lparr>cl_operatorOverloads := cl_operatorOverloads cls @
               [\<lparr>op_op = op, op_params = fd_params f, op_returnType = fd_returnType f,
                 op_bindingTarget = fd_bindingTarget f, op_location = nd_location b,
                 op_isExternal = fs_isExternal sy, op_owningType = cl_qualifiedName cls,
                 op_externalOwner = cl_externalOwner cls\<rparr>]\<rparr>
         | None \<Rightarrow> cls\<lparr>cl_memberFunctions := cl_memberFunctions cls @ [fs_qualifiedName sy]\<rparr>))"

definition collectMemberFn ::
  "Visibility \<Rightarrow> NodeBase \<Rightarrow> FnDecl \<Rightarrow> cstate \<times> ClassSymbol \<Rightarrow> cstate \<times> ClassSymbol" where
  "collectMemberFn vis b f sc =
     (case sc of (st, cls) \<Rightarrow>
      let explicit = hasModifier MK_External (nd_modifiers b) in
      if (explicit \<or> cl_isExternal cls) \<and> hasModifier MK_Comptime (nd_modifiers b) then
        (c_error (nd_location b)
           (quoted ''external'' @ '' and '' @ quoted ''comptime'' @ '' are mutually exclusive'') st, cls)
      else if explicit \<and> \<not> cl_isExternal cls \<and> specialFn f then
        (c_error (nd_location b)
           (''explicit '' @ quoted ''external'' @
            '' on constructors, destructors or operators requires an external type'') st, cls)
      else
        let sy = memberFnSymbol cls vis b f;
            st1 = (if \<not> fd_isConstructor f \<and> fd_isDestructor f \<and> cl_destructor cls \<noteq> []
                   then c_error (nd_location b)
                          (''duplicate destructor in type '' @ quoted (cl_qualifiedName cls)) st
                   else st);
            st2 = (if fs_kind sy = FK_Function \<or> cl_isExternal cls
                   then c_add (addFunction sy) (nd_location b)
                          (''duplicate member function declaration '' @ quoted (fs_qualifiedName sy)) st1
                   else st1)
        in (st2, addMemberFn b f sy cls))"

definition collectMemberData ::
  "NodeBase \<Rightarrow> DataDecl \<Rightarrow> cstate \<times> ClassSymbol \<Rightarrow> cstate \<times> ClassSymbol" where
  "collectMemberData b d sc =
     (case sc of (st, cls) \<Rightarrow>
      if \<not> isStdImport d \<and> \<not> isLifetime b \<and> \<not> isInstantiate b \<and> ty_nameParts (dd_type d) \<noteq> [] \<and> dd_name d \<noteq> []
      then (st, cls\<lparr>cl_memberVars := cl_memberVars cls @
              [\<lparr>mv_name = dd_name d, mv_type = dd_type d, mv_isStatic = isStaticData b,
                mv_location = nd_location b, mv_owningType = cl_qualifiedName cls,
                mv_isExternal = cl_isExternal cls, mv_externalOwner = cl_externalOwner cls\<rparr>]\<rparr>)
      else (st, cls))"

section \<open>Operators\<close>

definition operatorName :: "OperatorSymbol \<Rightarrow> string" where
  "operatorName op = quoted (overloadableOpName (op_op op))"

definition isUnaryOp :: "OverloadableOp \<Rightarrow> bool" where
  "isUnaryOp op \<longleftrightarrow> op = Op_Tilde \<or> op = Op_Bang"

definition validateOperator :: "string \<Rightarrow> string \<Rightarrow> OperatorSymbol list \<Rightarrow> OperatorSymbol \<Rightarrow> cstate \<Rightarrow> cstate" where
  "validateOperator qualified name earlier op st =
     (let arity = length (op_params op);
          st1 =
            (if isUnaryOp (op_op op) \<and> arity \<noteq> 1 then
               c_error (op_location op)
                 (''unary operator '' @ operatorName op @ '' requires exactly 1 parameter, got '' @ nat_to_string arity) st
             else if \<not> isUnaryOp (op_op op) \<and> arity \<noteq> 2 then
               c_error (op_location op)
                 (''binary operator '' @ operatorName op @ '' requires exactly 2 parameters, got '' @ nat_to_string arity) st
             else st);
          st2 =
            (if \<exists>p \<in> set (op_params op). ty_nameParts (pm_type p) \<noteq> [] \<and> last (ty_nameParts (pm_type p)) = name
             then st1
             else c_error (op_location op)
                    (''operator '' @ operatorName op @ '' must have at least one parameter of type '' @ quoted name) st1)
      in if \<exists>e \<in> set earlier. op_op e = op_op op
         then c_error (op_location op)
                (''duplicate operator '' @ operatorName op @ '' in type '' @ quoted qualified) st2
         else st2)"

fun validateOperators ::
  "string \<Rightarrow> string \<Rightarrow> OperatorSymbol list \<Rightarrow> OperatorSymbol list \<Rightarrow> cstate \<Rightarrow> cstate" where
  "validateOperators qualified name earlier [] st = st"
| "validateOperators qualified name earlier (op # ops) st =
     validateOperators qualified name (earlier @ [op]) ops (validateOperator qualified name earlier op st)"

section \<open>The walk\<close>

text \<open>
  A member of a namespace, the sections of a namespace, a type declaration and the
  sections and members of a type.  An \<open>IfDecl\<close> visits both of its branches.  The members of
  an internal namespace are internal, but the members of a type keep the visibility of
  their section.
\<close>

definition childPath :: "string \<Rightarrow> string list \<Rightarrow> string" where
  "childPath parent path = foldl (\<lambda>p s. (if p \<noteq> [] then p @ ''::'' else p) @ s) parent path"

definition isTypeRule :: "NodeBase \<Rightarrow> bool" where
  "isTypeRule b \<longleftrightarrow> hasModifier MK_Constraint (nd_modifiers b) \<or>
     hasModifier MK_Adapt (nd_modifiers b) \<or> hasModifier MK_TypeFn (nd_modifiers b)"

definition collectTypeRule :: "string \<Rightarrow> NodeBase \<Rightarrow> TypeDeclData \<Rightarrow> cstate \<Rightarrow> cstate" where
  "collectTypeRule nsPath b td st =
     (if hasModifier MK_External (nd_modifiers b) then
        c_error (nd_location b) (quoted ''external'' @ '' requires a function or ordinary type declaration'') st
      else if hasModifier MK_Constraint (nd_modifiers b) then collectConstraint nsPath b td st
      else if hasModifier MK_Adapt (nd_modifiers b) then collectAdapt b td st
      else st)"

definition beginType :: "NodeBase \<Rightarrow> ClassSymbol \<Rightarrow> cstate \<Rightarrow> cstate" where
  "beginType b cls st =
     (if cl_isExternal cls \<and> hasModifier MK_Comptime (nd_modifiers b)
      then c_error (nd_location b)
             (quoted ''external'' @ '' and '' @ quoted ''comptime'' @ '' are mutually exclusive'') st
      else st)"

definition endType :: "NodeBase \<Rightarrow> TypeDeclData \<Rightarrow> cstate \<times> ClassSymbol \<Rightarrow> cstate" where
  "endType b td sc =
     (case sc of (st, cls) \<Rightarrow>
      c_add (addClassSymbol cls) (nd_location b)
        (''duplicate type declaration '' @ quoted (cl_qualifiedName cls))
        (validateOperators (cl_qualifiedName cls) (td_name td) [] (cl_operatorOverloads cls) st))"

function (sequential) visitMember :: "string \<Rightarrow> Visibility \<Rightarrow> ASTNode \<Rightarrow> cstate \<Rightarrow> cstate"
  and visitMembers :: "string \<Rightarrow> Visibility \<Rightarrow> ASTNode list \<Rightarrow> cstate \<Rightarrow> cstate"
  and visitSections :: "string \<Rightarrow> bool \<Rightarrow> ASTNode list \<Rightarrow> cstate \<Rightarrow> cstate"
  and visitTypeDecl :: "string \<Rightarrow> Visibility \<Rightarrow> string \<Rightarrow> string \<Rightarrow> NodeBase \<Rightarrow> TypeDeclData \<Rightarrow> ASTNode list \<Rightarrow> cstate \<Rightarrow> cstate"
  and typeSections :: "ASTNode list \<Rightarrow> cstate \<times> ClassSymbol \<Rightarrow> cstate \<times> ClassSymbol"
  and typeMembers :: "Visibility \<Rightarrow> ASTNode list \<Rightarrow> cstate \<times> ClassSymbol \<Rightarrow> cstate \<times> ClassSymbol" where
  "visitMember nsPath vis member st =
     (case member of
        FnDeclNode b f \<Rightarrow> collectFn nsPath vis b f st
      | FnLogicBlock b name operations edges _ \<Rightarrow> collectLogicBlock nsPath b name operations edges st
      | DataDeclNode b d \<Rightarrow> collectData nsPath b d st
      | TypeDeclNode b td sections \<Rightarrow>
          if isTypeRule b then collectTypeRule nsPath b td st
          else visitTypeDecl nsPath vis [] [] b td sections st
      | IfDecl _ _ thenBody elseBody \<Rightarrow>
          visitMembers nsPath vis elseBody (visitMembers nsPath vis thenBody st)
      | NamespaceDecl _ path sections internal \<Rightarrow>
          visitSections (childPath nsPath path) internal sections st
      | _ \<Rightarrow> st)"
| "visitMembers nsPath vis [] st = st"
| "visitMembers nsPath vis (m # ms) st = visitMembers nsPath vis ms (visitMember nsPath vis m st)"
| "visitSections nsPath internal [] st = st"
| "visitSections nsPath internal (s # ss) st =
     visitSections nsPath internal ss
       (case s of
          VisibilitySection _ v members \<Rightarrow>
            visitMembers nsPath (if internal then Vis_Internal else v) members st
        | _ \<Rightarrow> st)"
| "visitTypeDecl nsPath vis inherited enclosing b td sections st =
     (let cls = initialClass (specializedName nsPath td) vis inherited enclosing b td
      in endType b td (typeSections sections (beginType b cls st, cls)))"
| "typeSections [] sc = sc"
| "typeSections (s # ss) sc =
     typeSections ss
       (case s of
          VisibilitySection _ v members \<Rightarrow> typeMembers v members sc
        | _ \<Rightarrow> sc)"
| "typeMembers v [] sc = sc"
| "typeMembers v (m # ms) sc =
     typeMembers v ms
       (case m of
          FnDeclNode b f \<Rightarrow> collectMemberFn v b f sc
        | DataDeclNode b d \<Rightarrow> collectMemberData b d sc
        | TypeDeclNode b td sections \<Rightarrow>
            (case sc of (st, cls) \<Rightarrow>
              if isTypeRule b then
                (if cl_isExternal cls \<or> hasModifier MK_External (nd_modifiers b)
                 then (c_error (nd_location b) ''external type members require ordinary nested types'' st, cls)
                 else (collectTypeRule (cl_qualifiedName cls) b td st, cls))
              else
                (visitTypeDecl (cl_qualifiedName cls) v (cl_externalOwner cls) (cl_qualifiedName cls)
                   b td sections st, cls))
        | _ \<Rightarrow> sc)"
  by pat_completeness auto

termination
  by size_change

section \<open>Debug declarations\<close>

definition debugTarget :: "DebugDecl \<Rightarrow> SymbolTable \<Rightarrow> (DebugTargetKind \<times> string) option" where
  "debugTarget d t =
     (case findClassBySimpleName (dbg_target d) t of
        Some cls \<Rightarrow> Some (DTK_Type, cl_qualifiedName cls)
      | None \<Rightarrow>
          (case findTypeAlias (dbg_target d) t of
             Some al \<Rightarrow> Some (DTK_Data, ta_name al)
           | None \<Rightarrow> None))"

text \<open>A slice is rejected when its container is empty or it ends before it starts.\<close>

definition sliceInverted :: "DebugSliceExpr \<Rightarrow> (int \<times> int) option" where
  "sliceInverted s =
     (case (ds_isSliced s, ds_start s, ds_end s) of
        (True, Some a, Some e) \<Rightarrow> if e < a then Some (a, e) else None
      | _ \<Rightarrow> None)"

definition checkSlice :: "string \<Rightarrow> string \<Rightarrow> SourceLocation \<Rightarrow> DebugSliceExpr \<Rightarrow> cstate \<Rightarrow> cstate" where
  "checkSlice unnamed what loc s st =
     (if ds_container s = [] then c_error loc unnamed st
      else
        (case sliceInverted s of
           Some (a, e) \<Rightarrow>
             c_error (ds_location s)
               (what @ '' slice end ('' @ int_to_string e @ '') must be >= start ('' @ int_to_string a @ '')'') st
         | None \<Rightarrow> st))"

definition collectDebug :: "NodeBase \<Rightarrow> DebugDecl \<Rightarrow> cstate \<Rightarrow> cstate" where
  "collectDebug b d st =
     (case debugTarget d (fst st) of
        None \<Rightarrow>
          c_error (nd_location b)
            (''unknown debug target '' @ quoted (dbg_target d) @
             '' (must name an existing type or data declaration)'') st
      | Some (kind, qualified) \<Rightarrow>
          let st1 = fold (\<lambda>v. checkSlice ''view expression must be a named slice'' ''view''
                            (dv_location v) (dv_slice v)) (dbg_views d) st;
              st2 = fold (\<lambda>r. checkSlice ''inactive_region expression must be a named slice'' ''inactive_region''
                            (di_location r) (di_region r)) (dbg_inactive d) st1;
              st3 = fold (\<lambda>r. c_error (dr_location r)
                            (''render block: rendering not implemented '' @
                             ''(the `render` block is parsed but no web-rendering '' @
                             ''behavior is generated; remove it until rendering is '' @
                             ''supported)'')) (dbg_render d) st2
          in c_table (addDebugEntry
               \<lparr>de_targetTypeName = dbg_target d, de_targetQualifiedName = qualified, de_targetKind = kind,
                de_views = dbg_views d, de_summaryTemplate = dbg_summary d,
                de_inactiveRegions = dbg_inactive d, de_renderDecls = [], de_location = nd_location b\<rparr>) st3)"

section \<open>A file\<close>

fun collectTopLevel :: "ASTNode \<Rightarrow> cstate \<Rightarrow> cstate" where
  "collectTopLevel (DataDeclNode b d) st =
     (if isStdImport d then c_table (addImport (importEntry b d)) st
      else c_add (addAlias b d) (nd_location b) (duplicateAlias d) st)"
| "collectTopLevel (NamespaceDecl b path sections internal) st =
     visitSections (childPath [] path) internal sections st"
| "collectTopLevel _ st = st"

fun collectTopDebug :: "ASTNode \<Rightarrow> cstate \<Rightarrow> cstate" where
  "collectTopDebug (DebugDeclNode b d) st = collectDebug b d st"
| "collectTopDebug _ st = st"

definition collectDeclarations :: "ASTNode list \<Rightarrow> cstate \<Rightarrow> cstate" where
  "collectDeclarations decls st = fold collectTopDebug decls (fold collectTopLevel decls st)"

end
