(* ===== verification/LogicBlocks.thy ===== *)
theory LogicBlocks
  imports TypeCheck Collector
begin

text \<open>
  The third pass of the semantic analyzer, \<open>validateLogicBlocks\<close>, and the two
  \<open>analyze\<close> entry points (\<open>lib/Sema/SemanticAnalyzer.cpp\<close>).  The pass changes the table it
  iterates over: it marks functions that have a block, assigns stages and, for pipelines,
  stores the analysis and the call sites.  Stages are the \<open>int\<close>s of the source, unbounded
  here; the property of the assignment bounds what is added to the largest stage.
\<close>

section \<open>One block\<close>

definition isAssignEntry :: "string \<Rightarrow> bool" where
  "isAssignEntry callee \<longleftrightarrow> length callee > 8 \<and> take 8 callee = ''<assign:''"

definition markBlock :: "string \<Rightarrow> SymbolTable \<Rightarrow> SymbolTable" where
  "markBlock name t =
     t\<lparr>st_functions := map (\<lambda>(n, f). (n, if n = name then f\<lparr>fs_hasLogicBlock := True\<rparr> else f)) (st_functions t)\<rparr>"

definition checkBlockHead :: "SymbolTable \<Rightarrow> string \<Rightarrow> LogicBlockEntry \<Rightarrow> diag_pass" where
  "checkBlockHead t name blk diag =
     (let d1 = (if findFunction name t = None \<and> \<not> lb_isFlow blk
                then diag_error (lb_location blk)
                       (''fn block '' @ quoted name @ '' has no matching function declaration'') [] diag
                else diag)
      in
      (case findFunction name t of
         None \<Rightarrow> d1
       | Some f \<Rightarrow>
           (case fs_bindingTarget f of
              None \<Rightarrow> d1
            | Some target \<Rightarrow>
                diag_error (lb_location blk)
                  (''fn block '' @ quoted name @ '' conflicts with binding target '' @ quoted target) [] d1)))"

definition calleeResolves :: "SymbolTable \<Rightarrow> string \<Rightarrow> string \<Rightarrow> bool" where
  "calleeResolves t nsPrefix callee \<longleftrightarrow>
     isAssignEntry callee \<or> resolveCallee t (normalizeName callee) nsPrefix \<noteq> []"

definition checkCallees :: "SymbolTable \<Rightarrow> string \<Rightarrow> LogicBlockEntry \<Rightarrow> diag_pass" where
  "checkCallees t name blk diag =
     fold (\<lambda>callee diag.
         if calleeResolves t (nsPrefixOf name) callee then diag
         else diag_error (lb_location blk)
                (''fn block '' @ quoted name @ '' references undeclared function '' @ quoted callee)
                ''unknown-function'' diag)
       (lb_calledFunctions blk) diag"

fun checkMonotone :: "string \<Rightarrow> SourceLocation \<Rightarrow> int \<Rightarrow> int list \<Rightarrow> diag_pass" where
  "checkMonotone name loc lastExplicitStage [] diag = diag"
| "checkMonotone name loc lastExplicitStage (stage # ss) diag =
     (if stage \<ge> 0 then
        checkMonotone name loc stage ss
          (if stage < lastExplicitStage
           then diag_error loc
                  (''fn block '' @ quoted name @ '': stage<'' @ int_to_string stage @
                   ''> is less than previous stage<'' @ int_to_string lastExplicitStage @ ''>'') [] diag
           else diag)
      else checkMonotone name loc lastExplicitStage ss diag)"

definition maxStage :: "int list \<Rightarrow> int" where
  "maxStage ss = fold (\<lambda>s m. if s > m then s else m) ss 0"

fun autoStages :: "int \<Rightarrow> int list \<Rightarrow> int list" where
  "autoStages nextAutoStage [] = []"
| "autoStages nextAutoStage (s # ss) =
     (if s = -1 then nextAutoStage # autoStages (nextAutoStage + 1) ss
      else s # autoStages nextAutoStage ss)"

definition assignStages :: "int list \<Rightarrow> int list" where
  "assignStages ss = autoStages (maxStage ss + 1) ss"

text \<open>Operations that share a stage, by stage, and the owned parameter types among them.\<close>

definition stageToOps :: "int list \<Rightarrow> (int \<times> nat list) list" where
  "stageToOps ss =
     fold (\<lambda>(i, s) m. if s \<ge> 0 then smap_put s (smap_get [] m s @ [i]) m else m) (zip [0..<length ss] ss) []"

definition ownedTypesOf :: "SymbolTable \<Rightarrow> string \<Rightarrow> string \<Rightarrow> string list" where
  "ownedTypesOf t nsPrefix callee =
     (if isAssignEntry callee then []
      else
        (case findFunction (resolveCallee t (normalizeName callee) nsPrefix) t of
           None \<Rightarrow> []
         | Some f \<Rightarrow>
             map (\<lambda>p. ty_toString (pm_type p))
               (filter (\<lambda>p. ty_ownership (pm_type p) = Own_Owned) (fs_params f))))"

definition ownedTypeToFuncs ::
  "SymbolTable \<Rightarrow> string \<Rightarrow> LogicBlockEntry \<Rightarrow> nat list \<Rightarrow> (string \<times> string list) list" where
  "ownedTypeToFuncs t nsPrefix blk ops =
     fold (\<lambda>idx m.
         if idx \<ge> length (lb_calledFunctions blk) then m
         else
           let callee = lb_calledFunctions blk ! idx in
           fold (\<lambda>ty m. smap_put ty (smap_get [] m ty @ [callee]) m) (ownedTypesOf t nsPrefix callee) m)
       ops []"

definition checkConcurrent :: "SymbolTable \<Rightarrow> string \<Rightarrow> LogicBlockEntry \<Rightarrow> diag_pass" where
  "checkConcurrent t name blk diag =
     fold (\<lambda>(stageNum, ops) diag.
         if length ops < 2 then diag
         else
           fold (\<lambda>(ty, funcs) diag.
               if length funcs \<ge> 2
               then diag_warning (lb_location blk)
                      (''fn block '' @ quoted name @ '': owned parameter type '' @ quoted ty @ '' appears in '' @
                       nat_to_string (length funcs) @ '' concurrent functions in stage<'' @
                       int_to_string stageNum @ ''> '' @ em_dash @ '' potential ownership conflict (S-OWN-002)'') [] diag
               else diag)
             (ownedTypeToFuncs t (nsPrefixOf name) blk ops) diag)
       (stageToOps (lb_stages blk)) diag"

definition putBlock :: "string \<Rightarrow> LogicBlockEntry \<Rightarrow> SymbolTable \<Rightarrow> SymbolTable" where
  "putBlock name blk t = t\<lparr>st_logicBlocks := AList.update name blk (st_logicBlocks t)\<rparr>"

definition validatePlainBlock :: "string \<Rightarrow> LogicBlockEntry \<Rightarrow> cstate \<Rightarrow> cstate" where
  "validatePlainBlock name blk st =
     (case st of (t, diag) \<Rightarrow>
      let d1 = checkCallees t name blk diag;
          d2 = checkMonotone name (lb_location blk) 0 (lb_stages blk) d1;
          blk1 = blk\<lparr>lb_stages := assignStages (lb_stages blk)\<rparr>
      in (putBlock name blk1 t, checkConcurrent t name blk1 d2))"

definition validateBlock :: "string \<Rightarrow> cstate \<Rightarrow> cstate" where
  "validateBlock name st =
     (case st of (t, diag) \<Rightarrow>
      (case findLogicBlock name t of
         None \<Rightarrow> st
       | Some blk \<Rightarrow>
           let d1 = checkBlockHead t name blk diag; t1 = markBlock name t in
           if lb_isPipeline blk then
             let out = validatePipeline name blk t1 d1
             in (putBlock name (po_block out) (po_table out), po_diag out)
           else validatePlainBlock name blk (t1, d1)))"

definition validateLogicBlocks :: "cstate \<Rightarrow> cstate" where
  "validateLogicBlocks st = fold validateBlock (map fst (st_logicBlocks (fst st))) st"

section \<open>The entry points\<close>

definition validateAll :: "cstate \<Rightarrow> cstate" where
  "validateAll st =
     (let st1 = (if hasErrors (snd st) then st else (fst st, validateTypes (fst st) (snd st)))
      in if hasErrors (snd st1) then st1 else validateLogicBlocks st1)"

definition analyze :: "ASTNode list \<Rightarrow> DiagnosticEngine \<Rightarrow> cstate" where
  "analyze decls diag = validateAll (collectDeclarations decls (empty_table, diag))"

text \<open>What another file contributes: aliases, imports, visible classes, constraints and functions.\<close>

definition importSymbols :: "SymbolTable \<Rightarrow> SymbolTable \<Rightarrow> SymbolTable" where
  "importSymbols imported t =
     (let t1 = fold (\<lambda>(n, ta) t. fst (addTypeAlias ta t)) (st_typeAliases imported) t;
          t2 = fold addImport (st_imports imported) t1;
          t3 = fold (\<lambda>(n, c) t. if cl_visibility c \<noteq> Vis_Internal then fst (addClassSymbol c t) else t)
                 (st_classSymbols imported) t2;
          t4 = fold (\<lambda>(n, c) t. fst (addConstraintSymbol c t)) (st_constraintSymbols imported) t3
      in fold (\<lambda>(n, f) t. if fs_visibility f \<noteq> Vis_Internal then fst (addFunction f t) else t)
           (st_functions imported) t4)"

definition checkInternalCallee :: "SymbolTable \<Rightarrow> string \<Rightarrow> LogicBlockEntry \<Rightarrow> string \<Rightarrow> diag_pass" where
  "checkInternalCallee imported name blk callee diag =
     (if isAssignEntry callee then diag
      else
        (case findFunction (nsPrefixOf name @ normalizeName callee) imported of
           Some f \<Rightarrow>
             if fs_visibility f = Vis_Internal
             then diag_error (lb_location blk)
                    (''function '' @ quoted callee @ '' is declared internal in '' @
                     quoted (loc_file (fs_location f)) @ '' and cannot be accessed from other files'') [] diag
             else diag
         | None \<Rightarrow> diag))"

definition checkInternalUses :: "SymbolTable \<Rightarrow> SymbolTable \<Rightarrow> diag_pass" where
  "checkInternalUses imported t diag =
     fold (\<lambda>(name, blk). fold (checkInternalCallee imported name blk) (lb_calledFunctions blk))
       (st_logicBlocks t) diag"

definition analyzeWith :: "SymbolTable \<Rightarrow> ASTNode list \<Rightarrow> DiagnosticEngine \<Rightarrow> cstate" where
  "analyzeWith imported decls diag =
     (let st = collectDeclarations decls (empty_table, diag);
          t = importSymbols imported (fst st)
      in validateAll (t, checkInternalUses imported t (snd st)))"

end
