(* ===== verification/TypeCheck_Laws.thy ===== *)
theory TypeCheck_Laws
  imports TypeCheck Type_Laws
begin

text \<open>
  What the second pass accepts: \<open>well_typed\<close> states the typing rules of a symbol table
  without reference to the order of the checks, and the pass reports an error exactly when a rule
  is broken.
\<close>

section \<open>The rules\<close>

fun arg_types :: "TypeNode \<Rightarrow> TypeNode list" where
  "arg_types (TypeNode c own parts md loc targs itp var ntv sid rfs asb hrtb) =
     TypeNode c own parts md loc targs itp var ntv sid rfs asb hrtb # concat (map arg_types targs)"

definition arg_count_ok :: "SymbolTable \<Rightarrow> TypeNode \<Rightarrow> bool" where
  "arg_count_ok t u \<longleftrightarrow>
     ty_templateArgs u = [] \<or>
     (case targetClass t (ty_nameParts u) of
        None \<Rightarrow> True
      | Some cls \<Rightarrow> cl_templateParams cls = [] \<or> length (ty_templateArgs u) = length (cl_templateParams cls))"

definition args_ok :: "SymbolTable \<Rightarrow> TypeNode \<Rightarrow> bool" where
  "args_ok t u \<longleftrightarrow> (\<forall>v \<in> set (arg_types u). arg_count_ok t v)"

definition primitive_name :: "string \<Rightarrow> bool" where
  "primitive_name n \<longleftrightarrow> n = ''void'' \<or> isPrimitive n defaultRegistry"

definition ownership_ok :: "TypeNode \<Rightarrow> bool" where
  "ownership_ok u \<longleftrightarrow>
     ty_ownership u = Own_None \<or>
     (ty_modifier u = TM_None \<and> (\<forall>n. ty_nameParts u = [n] \<longrightarrow> \<not> primitive_name n))"

definition use_ok :: "SymbolTable \<Rightarrow> TypeResolver \<Rightarrow> TypeNode \<Rightarrow> bool" where
  "use_ok t r u \<longleftrightarrow> valid_type r u \<and> args_ok t u \<and> ownership_ok u"

definition returns_ok :: "SymbolTable \<Rightarrow> TypeResolver \<Rightarrow> FunctionSymbol \<Rightarrow> bool" where
  "returns_ok t r f \<longleftrightarrow>
     (if fs_isMultiReturn f then
        2 \<le> length (fs_returnParams f) \<and> distinct (map rp_name (fs_returnParams f)) \<and>
        (\<forall>p \<in> set (fs_returnParams f). valid_type r (rp_type p) \<and> ty_ownership (rp_type p) \<noteq> Own_Weak) \<and>
        (fs_hasUsedReturnsClause f \<longrightarrow> set (fs_usedReturns f) \<subseteq> rp_name ` set (fs_returnParams f))
      else
        valid_type r (fs_returnType f) \<and> args_ok t (fs_returnType f) \<and>
        ty_ownership (fs_returnType f) \<noteq> Own_Weak)"

definition hints_ok :: "FunctionSymbol \<Rightarrow> bool" where
  "hints_ok f \<longleftrightarrow>
     (case fs_cardinality f of
        None \<Rightarrow> True
      | Some h \<Rightarrow> (0 \<le> ch_min h \<or> 0 \<le> ch_max h) \<and> (0 \<le> ch_min h \<and> 0 \<le> ch_max h \<longrightarrow> ch_min h \<le> ch_max h)) \<and>
     (fs_accessPattern f = Acc_Tiled \<longrightarrow> 0 < fs_tiledSize f)"

definition function_ok :: "SymbolTable \<Rightarrow> string \<times> FunctionSymbol \<Rightarrow> bool" where
  "function_ok t nf \<longleftrightarrow>
     (case nf of (name, f) \<Rightarrow>
      distinct (map tp_name (fs_templateParams f)) \<and>
      returns_ok t (functionScope t name f) f \<and>
      (\<forall>p \<in> set (fs_params f). use_ok t (functionScope t name f) (pm_type p)) \<and>
      hints_ok f)"

definition class_ok :: "SymbolTable \<Rightarrow> string \<times> ClassSymbol \<Rightarrow> bool" where
  "class_ok t nc \<longleftrightarrow>
     (case nc of (name, cls) \<Rightarrow>
      (case cl_baseClass cls of
         None \<Rightarrow> True
       | Some base \<Rightarrow> valid_type (classScope t cls) base \<and> args_ok t base) \<and>
      (\<forall>mv \<in> set (cl_memberVars cls). use_ok t (classScope t cls) (mv_type mv)))"

text \<open>The parents of a constraint, and what lies above it.\<close>

definition inherits :: "SymbolTable \<Rightarrow> (string \<times> string) set" where
  "inherits t = {(a, b). a \<noteq> [] \<and> parentOf t a = Some b}"

definition above :: "SymbolTable \<Rightarrow> string \<Rightarrow> string set" where
  "above t a = (inherits t)\<^sup>* `` {a}"

definition constraint_ok :: "SymbolTable \<Rightarrow> string \<times> ConstraintSymbol \<Rightarrow> bool" where
  "constraint_ok t nc \<longleftrightarrow>
     (case nc of (name, cs) \<Rightarrow>
      (case cs_parentConstraint cs of
         None \<Rightarrow> True
       | Some parent \<Rightarrow>
           findConstraintSymbol parent t \<noteq> None \<and>
           name \<notin> above t parent \<and> (\<forall>x \<in> above t parent. (x, x) \<notin> (inherits t)\<^sup>+)))"

definition well_typed :: "SymbolTable \<Rightarrow> bool" where
  "well_typed t \<longleftrightarrow>
     (\<forall>nf \<in> set (st_functions t). function_ok t nf) \<and>
     (\<forall>nc \<in> set (st_classSymbols t). class_ok t nc) \<and>
     acyclic (sharedEdges t) \<and>
     (\<forall>nc \<in> set (st_constraintSymbols t). constraint_ok t nc) \<and>
     (\<forall>(n, f) \<in> set (st_functions t). \<forall>p \<in> set (fs_templateParams f). \<not> unknownConstraint t p) \<and>
     (\<forall>(n, c) \<in> set (st_classSymbols t). \<forall>p \<in> set (cl_templateParams c). \<not> unknownConstraint t p)"

section \<open>The checks\<close>

lemma checkArgCount_checks:
  "ty_templateArgs u \<noteq> [] \<Longrightarrow>
   checks (arg_count_ok t u) (checkArgCount t (ty_nameParts u) (length (ty_templateArgs u)) loc)"
  by (auto simp: checks_def checkArgCount_def arg_count_ok_def diag_error_is_error split: option.split)

lemma validateTemplateArgs_run:
  "engine_ok d \<Longrightarrow> engine_ok (validateTemplateArgs t u d) \<and>
     (hasErrors (validateTemplateArgs t u d) \<longleftrightarrow> hasErrors d \<or> \<not> args_ok t u)"
  "engine_ok d \<Longrightarrow> engine_ok (validateTemplateArgList t us d) \<and>
     (hasErrors (validateTemplateArgList t us d) \<longleftrightarrow> hasErrors d \<or> \<not> (\<forall>u \<in> set us. args_ok t u))"
proof (induction t u d and t us d rule: validateTemplateArgs_validateTemplateArgList.induct)
  case (1 t c own parts md loc targs itp var ntv sid rfs asb hrtb d)
  let ?u = "TypeNode c own parts md loc targs itp var ntv sid rfs asb hrtb"
  show ?case
  proof (cases "targs = []")
    case True
    then show ?thesis using 1(2) by (simp add: args_ok_def arg_count_ok_def)
  next
    case False
    note c = checksD [OF checkArgCount_checks [of ?u t loc] 1(2), unfolded TypeNode.sel, OF False]
    have "args_ok t ?u \<longleftrightarrow> arg_count_ok t ?u \<and> (\<forall>u \<in> set targs. args_ok t u)"
      by (auto simp: args_ok_def)
    then show ?thesis using 1(1) [OF False c(1)] c(2) False by auto
  qed
qed auto

lemma validateTemplateArgs_checks [pass_checks]: "checks (args_ok t u) (validateTemplateArgs t u)"
  using validateTemplateArgs_run(1) by (simp add: checks_def)

lemma checkType_checks [pass_checks]: "checks (valid_type r u) (checkType r u loc what)"
  using validity(1) [of r u]
  by (auto simp: checks_def checkType_def diag_error_is_error split: option.split)

lemma validateOwnershipRules_checks [pass_checks]: "checks (ownership_ok u) (validateOwnershipRules u ctx loc)"
  by (auto simp: checks_def validateOwnershipRules_def ownership_ok_def primitive_name_def Let_def
      diag_error_is_error split: list.split)

lemma checkTemplateParamNames_checks:
  "checks (distinct (map tp_name ps) \<and> set (map tp_name ps) \<inter> set seen = {}) (checkTemplateParamNames seen ps)"
proof (induction ps arbitrary: seen)
  case Nil
  show ?case by (simp add: checks_def)
next
  case (Cons p ps)
  have eq: "checkTemplateParamNames seen (p # ps) =
      (\<lambda>d. checkTemplateParamNames (tp_name p # seen) ps
         (if tp_name p \<in> set seen
          then diag_error (tp_location p) (''duplicate template parameter name '' @ quoted (tp_name p) @ '' (T003)'') [] d
          else d))"
    by (rule ext) simp
  show ?case
    unfolding eq by (rule checks_cong [OF checks_seq [OF checks_require(2) Cons]]) auto
qed

lemma checkReturnParams_checks:
  "checks (distinct (map rp_name ps) \<and> set (map rp_name ps) \<inter> set seen = {} \<and>
     (\<forall>p \<in> set ps. valid_type r (rp_type p))) (checkReturnParams r name seen ps)"
proof (induction ps arbitrary: seen)
  case Nil
  show ?case by (simp add: checks_def)
next
  case (Cons p ps)
  have eq: "checkReturnParams r name seen (p # ps) =
      (\<lambda>d. checkReturnParams r name (rp_name p # seen) ps
         (checkType r (rp_type p) (rp_loc p)
            (''invalid return parameter type for '' @ quoted (rp_name p) @ '' in '' @ quoted name)
            (if rp_name p \<in> set seen
             then diag_error (rp_loc p) (''duplicate return parameter name '' @ quoted (rp_name p) @
                    '' in function '' @ quoted name) [] d
             else d)))"
    by (rule ext) simp
  show ?case
    unfolding eq
    by (rule checks_cong [OF checks_seq [OF checks_seq [OF checks_require(2) checkType_checks] Cons]]) auto
qed

definition declared_returns_ok :: "SymbolTable \<Rightarrow> TypeResolver \<Rightarrow> FunctionSymbol \<Rightarrow> bool" where
  "declared_returns_ok t r f \<longleftrightarrow>
     (if fs_isMultiReturn f then
        2 \<le> length (fs_returnParams f) \<and> distinct (map rp_name (fs_returnParams f)) \<and>
        (\<forall>p \<in> set (fs_returnParams f). valid_type r (rp_type p)) \<and>
        (fs_hasUsedReturnsClause f \<longrightarrow> set (fs_usedReturns f) \<subseteq> rp_name ` set (fs_returnParams f))
      else valid_type r (fs_returnType f) \<and> args_ok t (fs_returnType f))"

definition no_weak_return :: "FunctionSymbol \<Rightarrow> bool" where
  "no_weak_return f \<longleftrightarrow>
     (if fs_isMultiReturn f then \<forall>p \<in> set (fs_returnParams f). ty_ownership (rp_type p) \<noteq> Own_Weak
      else ty_ownership (fs_returnType f) \<noteq> Own_Weak)"

lemma returns_ok_split: "returns_ok t r f \<longleftrightarrow> declared_returns_ok t r f \<and> no_weak_return f"
  by (auto simp: returns_ok_def declared_returns_ok_def no_weak_return_def)

lemma checkUsedReturns_checks:
  "checks (set (fs_usedReturns f) \<subseteq> rp_name ` set (fs_returnParams f)) (checkUsedReturns name f)"
proof -
  have "checks (\<forall>n \<in> set (fs_usedReturns f). n \<in> set (map rp_name (fs_returnParams f))) (checkUsedReturns name f)"
    unfolding checkUsedReturns_def [abs_def] by (intro checks_fold checks_require(1))
  then show ?thesis by (rule checks_cong) auto
qed

lemma checkReturns_checks: "checks (declared_returns_ok t r f) (checkReturns t r name f)"
proof (cases "fs_isMultiReturn f")
  case True
  note two = checks_require(2) [of "length (fs_returnParams f) < 2" "fs_location f"]
  note params = checkReturnParams_checks [where ps = "fs_returnParams f" and seen = "[]" and r = r and name = name]
  show ?thesis
  proof (cases "fs_hasUsedReturnsClause f")
    case clause: True
    show ?thesis
      unfolding checkReturns_def [abs_def] Let_def if_P [OF True] if_P [OF clause]
      by (rule checks_cong [OF checks_seq [OF checks_seq [OF two params] checkUsedReturns_checks [of f]]])
         (auto simp: declared_returns_ok_def True clause)
  next
    case no: False
    show ?thesis
      unfolding checkReturns_def [abs_def] Let_def if_P [OF True] if_not_P [OF no]
      by (rule checks_cong [OF checks_seq [OF two params]]) (auto simp: declared_returns_ok_def True no)
  qed
next
  case False
  show ?thesis
    unfolding checkReturns_def [abs_def] if_not_P [OF False]
    by (rule checks_cong [OF checks_seq [OF checkType_checks validateTemplateArgs_checks]])
       (simp add: declared_returns_ok_def False)
qed

lemma checkWeakReturns_checks: "checks (no_weak_return f) (checkWeakReturns name f)"
proof (cases "fs_isMultiReturn f")
  case True
  show ?thesis
    unfolding checkWeakReturns_def [abs_def] if_P [OF True] no_weak_return_def
    by (intro checks_fold checks_require(2))
next
  case False
  show ?thesis
    unfolding checkWeakReturns_def [abs_def] if_not_P [OF False] no_weak_return_def by (rule checks_require(2))
qed

lemma checkParam_checks: "checks (use_ok t r (pm_type p)) (checkParam t r name loc p)"
  unfolding checkParam_def [abs_def] use_ok_def
  by (rule checks_cong [OF checks_seq [OF checks_seq [OF checkType_checks validateTemplateArgs_checks]
        validateOwnershipRules_checks]]) simp

lemma checkMember_checks: "checks (use_ok t r (mv_type mv)) (checkMember t r name mv)"
  unfolding checkMember_def [abs_def] use_ok_def
  by (rule checks_cong [OF checks_seq [OF checks_seq [OF checkType_checks validateTemplateArgs_checks]
        validateOwnershipRules_checks]]) simp

lemma checkHints_checks: "checks (hints_ok f) (\<lambda>d. checkTiling name f (checkCardinality name f d))"
proof (cases "fs_cardinality f")
  case None
  then show ?thesis
    unfolding checkTiling_def checkCardinality_def hints_ok_def
    by (auto simp: checks_def diag_error_is_error)
next
  case (Some h)
  have "checks (((\<not> (ch_min h < 0 \<and> ch_max h < 0)) \<and> \<not> (ch_min h \<ge> 0 \<and> ch_max h \<ge> 0 \<and> ch_min h > ch_max h)) \<and>
      \<not> (fs_accessPattern f = Acc_Tiled \<and> fs_tiledSize f \<le> 0)) (\<lambda>d. checkTiling name f (checkCardinality name f d))"
    unfolding checkTiling_def checkCardinality_def Some option.case Let_def
    by (intro checks_seq checks_require(2))
  then show ?thesis by (rule checks_cong) (auto simp: hints_ok_def Some)
qed

lemma checkConstraintRef_checks: "checks (\<not> unknownConstraint t p) (checkConstraintRef t p)"
  unfolding checkConstraintRef_def [abs_def] by (rule checks_require(2))

lemma validateFunction_checks: "checks (function_ok t nf) (validateFunction t nf)"
proof (cases nf)
  case (Pair name f)
  let ?r = "functionScope t name f"
  have names: "checks (distinct (map tp_name (fs_templateParams f)))
      (\<lambda>d. if fs_templateParams f \<noteq> [] then checkTemplateParamNames [] (fs_templateParams f) d else d)"
    by (rule checks_cong [OF checks_if [OF checkTemplateParamNames_checks checks_id]]) simp
  have params: "checks (\<forall>p \<in> set (fs_params f). use_ok t ?r (pm_type p))
      (fold (checkParam t ?r name (fs_location f)) (fs_params f))"
    by (rule checks_fold) (rule checkParam_checks)
  show ?thesis
    unfolding validateFunction_def [abs_def] Pair prod.case Let_def
    by (rule checks_cong [OF checks_seq [OF checks_seq [OF checks_seq [OF checks_seq [OF names checkReturns_checks]
          params] checkWeakReturns_checks] checkHints_checks]])
       (auto simp: function_ok_def returns_ok_split)
qed

lemma validateClass_checks: "checks (class_ok t nc) (validateClass t nc)"
proof (cases nc)
  case (Pair name cls)
  have members: "checks (\<forall>mv \<in> set (cl_memberVars cls). use_ok t (classScope t cls) (mv_type mv))
      (fold (checkMember t (classScope t cls) name) (cl_memberVars cls))"
    by (rule checks_fold) (rule checkMember_checks)
  show ?thesis
  proof (cases "cl_baseClass cls")
    case None
    show ?thesis
      unfolding validateClass_def [abs_def] Pair prod.case Let_def None option.case
      by (rule checks_cong [OF members]) (simp add: class_ok_def None)
  next
    case (Some base)
    show ?thesis
      unfolding validateClass_def [abs_def] Pair prod.case Let_def Some option.case
      by (rule checks_cong [OF checks_seq [OF checks_seq [OF checkType_checks validateTemplateArgs_checks] members]])
         (simp add: class_ok_def Some)
  qed
qed

section \<open>Circular constraints\<close>

lemma inherits_fun: "(a, b) \<in> inherits t \<Longrightarrow> (a, c) \<in> inherits t \<Longrightarrow> b = c"
  by (simp add: inherits_def)

lemma above_step: "(a, b) \<in> inherits t \<Longrightarrow> above t a = insert a (above t b)"
proof -
  assume ab: "(a, b) \<in> inherits t"
  have "x = a \<or> x \<in> above t b" if "(a, x) \<in> (inherits t)\<^sup>*" for x
    using that inherits_fun [OF ab] by (auto simp: above_def elim: converse_rtranclE)
  with ab show ?thesis by (auto simp: above_def intro: converse_rtrancl_into_rtrancl)
qed

lemma above_top: "parentOf t a = None \<or> a = [] \<Longrightarrow> above t a = {a} \<and> (a, a) \<notin> (inherits t)\<^sup>+"
  by (auto simp: above_def inherits_def elim: converse_rtranclE dest!: tranclD)

lemma cycle_above: "(a, b) \<in> inherits t \<Longrightarrow> (a, a) \<in> (inherits t)\<^sup>+ \<longleftrightarrow> a \<in> above t b"
  by (auto simp: above_def dest: tranclD inherits_fun intro: rtrancl_into_trancl2)

lemma parentWalkUp_finds:
  "[] \<notin> set visited \<Longrightarrow>
   parentWalkUp t current visited = None \<longleftrightarrow>
     (\<forall>x \<in> above t current. x \<notin> set visited \<and> (x, x) \<notin> (inherits t)\<^sup>+)"
proof (induction t current visited rule: parentWalkUp.induct)
  case (1 t current visited)
  show ?case
  proof (cases "current = [] \<or> parentOf t current = None")
    case True
    then have "above t current = {current}" "(current, current) \<notin> (inherits t)\<^sup>+"
      using above_top by blast+
    moreover have "parentWalkUp t current visited = None \<longleftrightarrow> current \<notin> set visited"
      using True 1(2) by (subst parentWalkUp.simps) auto
    ultimately show ?thesis by simp
  next
    case False
    then obtain p where p: "parentOf t current = Some p" "current \<noteq> []" by auto
    then have edge: "(current, p) \<in> inherits t" by (simp add: inherits_def)
    show ?thesis
    proof (cases "current \<in> set visited")
      case True
      then show ?thesis using p above_step [OF edge] by (subst parentWalkUp.simps) simp
    next
      case new: False
      have "parentWalkUp t p (current # visited) = None \<longleftrightarrow>
          (\<forall>x \<in> above t p. x \<notin> set (current # visited) \<and> (x, x) \<notin> (inherits t)\<^sup>+)"
        using 1 p new by simp
      then show ?thesis
        using p new above_step [OF edge] cycle_above [OF edge] by (subst parentWalkUp.simps) auto
    qed
  qed
qed

lemma validateConstraint_checks:
  assumes "fst nc \<noteq> []"
  shows "checks (constraint_ok t nc) (validateConstraint t nc)"
proof (cases nc)
  case (Pair name cs)
  show ?thesis
  proof (cases "cs_parentConstraint cs")
    case None
    show ?thesis
      unfolding validateConstraint_def [abs_def] Pair prod.case None option.case
      by (rule checks_cong [OF checks_id]) (simp add: constraint_ok_def None)
  next
    case (Some parent)
    have "parentWalkUp t parent [name] = None \<longleftrightarrow>
        name \<notin> above t parent \<and> (\<forall>x \<in> above t parent. (x, x) \<notin> (inherits t)\<^sup>+)"
      using parentWalkUp_finds [of "[name]" t parent] assms Pair by auto
    then show ?thesis
      by (auto simp: checks_def validateConstraint_def Pair Some constraint_ok_def diag_error_is_error
          split: option.split)
  qed
qed

section \<open>The pass\<close>

lemma ownershipGraph_checks:
  assumes "card (sharedNodes t) \<le> 500"
  shows "checks (acyclic (sharedEdges t)) (validateOwnershipGraph t)"
proof -
  have "hasErrors (validateOwnershipGraph t d) \<longleftrightarrow> hasErrors d \<or> \<not> acyclic (sharedEdges t)" if "engine_ok d" for d
    using ownership_graph [OF that assms] by (auto split: if_splits)
  with ownership_graph_ok [OF _ assms] show ?thesis by (simp add: checks_def)
qed

lemma validateTypes_checks:
  assumes "card (sharedNodes t) \<le> 500" and "\<forall>(n, cs) \<in> set (st_constraintSymbols t). n \<noteq> []"
  shows "checks (well_typed t) (validateTypes t)"
proof -
  have constraints: "checks (\<forall>nc \<in> set (st_constraintSymbols t). constraint_ok t nc)
      (fold (validateConstraint t) (st_constraintSymbols t))"
    by (rule checks_fold) (use assms(2) validateConstraint_checks in fastforce)
  have refs: "checks (\<forall>x \<in> set xs. case x of (n, f) \<Rightarrow> \<forall>p \<in> set (g f). \<not> unknownConstraint t p)
      (fold (\<lambda>(n, f). fold (checkConstraintRef t) (g f)) xs)" for xs :: "(string \<times> 'x) list" and g
    by (rule checks_fold) (auto intro!: checks_fold checkConstraintRef_checks)
  show ?thesis
    unfolding validateTypes_def [abs_def] Let_def
    by (rule checks_cong [OF checks_seq [OF checks_seq [OF checks_seq [OF checks_seq [OF checks_seq
          [OF checks_fold [OF validateFunction_checks] checks_fold [OF validateClass_checks]]
          ownershipGraph_checks [OF assms(1)]] constraints] refs] refs]])
       (auto simp: well_typed_def)
qed

text \<open>C8: type validation is sound and complete: over a table with named constraints and at most
  500 classes in the graph of shared members, the second pass leaves an engine without errors
  exactly when the table is well typed: every type in a signature, a base class and a member is
  valid with the right number of template arguments, ownership qualifiers are legal and free of
  shared cycles, returns and hints are consistent, and every constraint exists and has no
  circular ancestry.\<close>

theorem types_accepted:
  assumes "engine_ok diag" and "card (sharedNodes t) \<le> 500"
    and "\<forall>(n, cs) \<in> set (st_constraintSymbols t). n \<noteq> []"
  shows "\<not> hasErrors (validateTypes t diag) \<longleftrightarrow> \<not> hasErrors diag \<and> well_typed t"
  using checksD(2) [OF validateTypes_checks [OF assms(2,3)] assms(1)] by auto

definition typed_sample :: "OwnershipKind \<Rightarrow> SymbolTable" where
  "typed_sample own =
     empty_table\<lparr>st_functions :=
       [(''app::run'', (sample_function ''app::run'' ''run'' Vis_Public [])
           \<lparr>fs_returnType := TypeNode False own [''app'', ''T''] TM_None default_loc [] False False None TId_None [] [] []\<rparr>)]\<rparr>"

lemma typed_sample_runs:
  "\<not> hasErrors (validateTypes (typed_sample Own_Shared) empty_engine)"
  "hasErrors (validateTypes (typed_sample Own_Weak) empty_engine)"
  by code_simp+

lemma typed_sample_small: "card (sharedNodes (typed_sample own)) \<le> 500"
  by (simp add: sharedNodes_def sharedEdges_def typed_sample_def empty_table_def)

theorem types_accepted_witness:
  "well_typed (typed_sample Own_Shared) \<and> \<not> well_typed (typed_sample Own_Weak)"
  using types_accepted [OF engine_ok_empty typed_sample_small] typed_sample_runs
  by (auto simp: typed_sample_def empty_table_def empty_engine_def hasErrors_def)

end
