(* ===== verification/Collect_Laws.thy ===== *)
theory Collect_Laws
  imports Collector Ownership Symbol_Laws
begin

text \<open>
  What a file declares, as a list of symbols in source order, and the theorem
  that the collecting pass fills the table with exactly that list, or reports an error.
\<close>

section \<open>The declared symbols of a tree\<close>

datatype Item =
  ItFunction FunctionSymbol | ItBlock LogicBlockEntry | ItType ClassSymbol | ItConstraint ConstraintSymbol
| ItDebug DebugEntry

fun itemFunction :: "Item \<Rightarrow> (string \<times> FunctionSymbol) option" where
  "itemFunction (ItFunction f) = Some (fs_qualifiedName f, f)"
| "itemFunction _ = None"

fun itemBlock :: "Item \<Rightarrow> (string \<times> LogicBlockEntry) option" where
  "itemBlock (ItBlock b) = Some (lb_qualifiedName b, b)"
| "itemBlock _ = None"

fun itemType :: "Item \<Rightarrow> (string \<times> ClassSymbol) option" where
  "itemType (ItType c) = Some (cl_qualifiedName c, c)"
| "itemType _ = None"

fun itemConstraint :: "Item \<Rightarrow> (string \<times> ConstraintSymbol) option" where
  "itemConstraint (ItConstraint c) = Some (cs_qualifiedName c, c)"
| "itemConstraint _ = None"

fun itemDebug :: "Item \<Rightarrow> DebugEntry option" where
  "itemDebug (ItDebug e) = Some e"
| "itemDebug _ = None"

definition blockEntry :: "string \<Rightarrow> NodeBase \<Rightarrow> string \<Rightarrow> ASTNode list \<Rightarrow> PipelineEdge list \<Rightarrow> LogicBlockEntry" where
  "blockEntry nsPath b name operations edges =
     \<lparr>lb_qualifiedName = nsPath @ ''::'' @ normalizeName name, lb_simpleName = name,
      lb_location = nd_location b,
      lb_calledFunctions = map fst (List.map_filter operationCall operations),
      lb_stages = map snd (List.map_filter operationCall operations),
      lb_isPipeline = (edges \<noteq> []), lb_isFlow = hasModifier MK_Flow (nd_modifiers b),
      lb_edges = edges, lb_pipelineAnalysis = None\<rparr>"

definition constraintOf :: "string \<Rightarrow> NodeBase \<Rightarrow> TypeDeclData \<Rightarrow> ConstraintSymbol" where
  "constraintOf nsPath b td =
     \<lparr>cs_qualifiedName = nsPath @ ''::'' @ td_name td, cs_simpleName = td_name td,
      cs_parentConstraint = td_parentConstraint td, cs_members = td_constraintMembers td,
      cs_location = nd_location b\<rparr>"

definition ruleItems :: "string \<Rightarrow> NodeBase \<Rightarrow> TypeDeclData \<Rightarrow> Item list" where
  "ruleItems nsPath b td =
     (if hasModifier MK_Constraint (nd_modifiers b) then [ItConstraint (constraintOf nsPath b td)] else [])"

definition memberFnItems :: "Visibility \<Rightarrow> NodeBase \<Rightarrow> FnDecl \<Rightarrow> ClassSymbol \<Rightarrow> Item list" where
  "memberFnItems v b f cls =
     (if \<not> specialFn f \<or> cl_isExternal cls then [ItFunction (memberFnSymbol cls v b f)] else [])"

definition withMember :: "Visibility \<Rightarrow> NodeBase \<Rightarrow> FnDecl \<Rightarrow> ClassSymbol \<Rightarrow> ClassSymbol" where
  "withMember v b f cls = addMemberFn b f (memberFnSymbol cls v b f) cls"

definition withData :: "NodeBase \<Rightarrow> DataDecl \<Rightarrow> ClassSymbol \<Rightarrow> ClassSymbol" where
  "withData b d cls =
     (if \<not> isStdImport d \<and> \<not> isLifetime b \<and> \<not> isInstantiate b \<and> ty_nameParts (dd_type d) \<noteq> [] \<and> dd_name d \<noteq> []
      then cls\<lparr>cl_memberVars := cl_memberVars cls @
              [\<lparr>mv_name = dd_name d, mv_type = dd_type d, mv_isStatic = isStaticData b,
                mv_location = nd_location b, mv_owningType = cl_qualifiedName cls,
                mv_isExternal = cl_isExternal cls, mv_externalOwner = cl_externalOwner cls\<rparr>]\<rparr>
      else cls)"

fun classWith :: "Visibility \<Rightarrow> ASTNode \<Rightarrow> ClassSymbol \<Rightarrow> ClassSymbol" where
  "classWith v (FnDeclNode b f) cls = withMember v b f cls"
| "classWith v (DataDeclNode b d) cls = withData b d cls"
| "classWith v _ cls = cls"

fun classWithSection :: "ASTNode \<Rightarrow> ClassSymbol \<Rightarrow> ClassSymbol" where
  "classWithSection (VisibilitySection _ v members) cls = fold (classWith v) members cls"
| "classWithSection _ cls = cls"

text \<open>
  The names and the externality of a class do not change while its members are read, so
  the symbols of the members are functions of the class as it begins.
\<close>

function (sequential) declared :: "string \<Rightarrow> Visibility \<Rightarrow> ASTNode \<Rightarrow> Item list"
  and declaredGroup :: "string \<Rightarrow> bool \<Rightarrow> ASTNode \<Rightarrow> Item list"
  and declaredType :: "string \<Rightarrow> Visibility \<Rightarrow> string \<Rightarrow> string \<Rightarrow> NodeBase \<Rightarrow> TypeDeclData \<Rightarrow> ASTNode list \<Rightarrow> Item list"
  and declaredSection :: "ClassSymbol \<Rightarrow> ASTNode \<Rightarrow> Item list"
  and declaredMember :: "ClassSymbol \<Rightarrow> Visibility \<Rightarrow> ASTNode \<Rightarrow> Item list" where
  "declared nsPath vis member =
     (case member of
        FnDeclNode b f \<Rightarrow>
          if specialFn f \<or> fd_isComptime f then [] else
            [ItFunction (functionSymbol (nsPath @ ''::'' @ normalizeName (fd_name f)) vis b f
               (hasModifier MK_External (nd_modifiers b)))]
      | FnLogicBlock b name operations edges _ \<Rightarrow> [ItBlock (blockEntry nsPath b name operations edges)]
      | TypeDeclNode b td sections \<Rightarrow>
          if isTypeRule b then ruleItems nsPath b td else declaredType nsPath vis [] [] b td sections
      | IfDecl _ _ thenBody elseBody \<Rightarrow>
          concat (map (declared nsPath vis) thenBody) @ concat (map (declared nsPath vis) elseBody)
      | NamespaceDecl _ path sections internal \<Rightarrow>
          concat (map (declaredGroup (childPath nsPath path) internal) sections)
      | _ \<Rightarrow> [])"
| "declaredGroup nsPath internal s =
     (case s of
        VisibilitySection _ v members \<Rightarrow>
          concat (map (declared nsPath (if internal then Vis_Internal else v)) members)
      | _ \<Rightarrow> [])"
| "declaredType nsPath vis inherited enclosing b td sections =
     (let cls = initialClass (specializedName nsPath td) vis inherited enclosing b td
      in concat (map (declaredSection cls) sections) @ [ItType (fold classWithSection sections cls)])"
| "declaredSection cls s =
     (case s of
        VisibilitySection _ v members \<Rightarrow> concat (map (declaredMember cls v) members)
      | _ \<Rightarrow> [])"
| "declaredMember cls v m =
     (case m of
        FnDeclNode b f \<Rightarrow> memberFnItems v b f cls
      | TypeDeclNode b td sections \<Rightarrow>
          if isTypeRule b then ruleItems (cl_qualifiedName cls) b td
          else declaredType (cl_qualifiedName cls) v (cl_externalOwner cls) (cl_qualifiedName cls) b td sections
      | _ \<Rightarrow> [])"
  by pat_completeness auto

termination
  by size_change

lemmas [simp del] = declared.simps declaredGroup.simps declaredType.simps declaredSection.simps declaredMember.simps
  visitMember.simps visitTypeDecl.simps

lemmas declared_node [simp] =
  declared.simps [of ns vis "TopoFile b xs", unfolded ASTNode.case]
  declared.simps [of ns vis "ImportNode b x y", unfolded ASTNode.case]
  declared.simps [of ns vis "DataDeclNode b d", unfolded ASTNode.case]
  declared.simps [of ns vis "NamespaceDecl b p ss i", unfolded ASTNode.case]
  declared.simps [of ns vis "VisibilitySection b w ms", unfolded ASTNode.case]
  declared.simps [of ns vis "FnDeclNode b f", unfolded ASTNode.case]
  declared.simps [of ns vis "FnLogicBlock b n ops es tps", unfolded ASTNode.case]
  declared.simps [of ns vis "OperationNode b od", unfolded ASTNode.case]
  declared.simps [of ns vis "TypeDeclNode b td ss", unfolded ASTNode.case]
  declared.simps [of ns vis "IfDecl b c th el", unfolded ASTNode.case]
  declared.simps [of ns vis "DebugDeclNode b dd", unfolded ASTNode.case]
  declared.simps [of ns vis "ExprNode e", unfolded ASTNode.case]
  for ns vis b xs x y d p ss i w ms f n ops es tps od td c th el dd e

lemmas declaredMember_node [simp] =
  declaredMember.simps [of cls v "TopoFile b xs", unfolded ASTNode.case]
  declaredMember.simps [of cls v "ImportNode b x y", unfolded ASTNode.case]
  declaredMember.simps [of cls v "DataDeclNode b d", unfolded ASTNode.case]
  declaredMember.simps [of cls v "NamespaceDecl b p ss i", unfolded ASTNode.case]
  declaredMember.simps [of cls v "VisibilitySection b w ms", unfolded ASTNode.case]
  declaredMember.simps [of cls v "FnDeclNode b f", unfolded ASTNode.case]
  declaredMember.simps [of cls v "FnLogicBlock b n ops es tps", unfolded ASTNode.case]
  declaredMember.simps [of cls v "OperationNode b od", unfolded ASTNode.case]
  declaredMember.simps [of cls v "TypeDeclNode b td ss", unfolded ASTNode.case]
  declaredMember.simps [of cls v "IfDecl b c th el", unfolded ASTNode.case]
  declaredMember.simps [of cls v "DebugDeclNode b dd", unfolded ASTNode.case]
  declaredMember.simps [of cls v "ExprNode e", unfolded ASTNode.case]
  for cls v b xs x y d p ss i w ms f n ops es tps od td c th el dd e

lemmas visitMember_node [simp] =
  visitMember.simps [of ns vis "TopoFile b xs" st, unfolded ASTNode.case]
  visitMember.simps [of ns vis "ImportNode b x y" st, unfolded ASTNode.case]
  visitMember.simps [of ns vis "DataDeclNode b d" st, unfolded ASTNode.case]
  visitMember.simps [of ns vis "NamespaceDecl b p ss i" st, unfolded ASTNode.case]
  visitMember.simps [of ns vis "VisibilitySection b w ms" st, unfolded ASTNode.case]
  visitMember.simps [of ns vis "FnDeclNode b f" st, unfolded ASTNode.case]
  visitMember.simps [of ns vis "FnLogicBlock b n ops es tps" st, unfolded ASTNode.case]
  visitMember.simps [of ns vis "OperationNode b od" st, unfolded ASTNode.case]
  visitMember.simps [of ns vis "TypeDeclNode b td ss" st, unfolded ASTNode.case]
  visitMember.simps [of ns vis "IfDecl b c th el" st, unfolded ASTNode.case]
  visitMember.simps [of ns vis "DebugDeclNode b dd" st, unfolded ASTNode.case]
  visitMember.simps [of ns vis "ExprNode e" st, unfolded ASTNode.case]
  for ns vis b xs x y d p ss i w ms f n ops es tps od td c th el dd e st

lemmas declaredSection_node [simp] =
  declaredSection.simps [of cls "TopoFile b xs", unfolded ASTNode.case]
  declaredSection.simps [of cls "ImportNode b x y", unfolded ASTNode.case]
  declaredSection.simps [of cls "DataDeclNode b d", unfolded ASTNode.case]
  declaredSection.simps [of cls "NamespaceDecl b p ss i", unfolded ASTNode.case]
  declaredSection.simps [of cls "VisibilitySection b w ms", unfolded ASTNode.case]
  declaredSection.simps [of cls "FnDeclNode b f", unfolded ASTNode.case]
  declaredSection.simps [of cls "FnLogicBlock b n ops es tps", unfolded ASTNode.case]
  declaredSection.simps [of cls "OperationNode b od", unfolded ASTNode.case]
  declaredSection.simps [of cls "TypeDeclNode b td ss", unfolded ASTNode.case]
  declaredSection.simps [of cls "IfDecl b c th el", unfolded ASTNode.case]
  declaredSection.simps [of cls "DebugDeclNode b dd", unfolded ASTNode.case]
  declaredSection.simps [of cls "ExprNode e", unfolded ASTNode.case]
  for cls b xs x y d p ss i w ms f n ops es tps od td c th el dd e

lemmas declaredGroup_node [simp] =
  declaredGroup.simps [of ns i "TopoFile b xs", unfolded ASTNode.case]
  declaredGroup.simps [of ns i "ImportNode b x y", unfolded ASTNode.case]
  declaredGroup.simps [of ns i "DataDeclNode b d", unfolded ASTNode.case]
  declaredGroup.simps [of ns i "NamespaceDecl b p ss j", unfolded ASTNode.case]
  declaredGroup.simps [of ns i "VisibilitySection b w ms", unfolded ASTNode.case]
  declaredGroup.simps [of ns i "FnDeclNode b f", unfolded ASTNode.case]
  declaredGroup.simps [of ns i "FnLogicBlock b n ops es tps", unfolded ASTNode.case]
  declaredGroup.simps [of ns i "OperationNode b od", unfolded ASTNode.case]
  declaredGroup.simps [of ns i "TypeDeclNode b td ss", unfolded ASTNode.case]
  declaredGroup.simps [of ns i "IfDecl b c th el", unfolded ASTNode.case]
  declaredGroup.simps [of ns i "DebugDeclNode b dd", unfolded ASTNode.case]
  declaredGroup.simps [of ns i "ExprNode e", unfolded ASTNode.case]
  for ns i b xs x y d p ss j w ms f n ops es tps od td c th el dd e

definition declaredTop :: "ASTNode \<Rightarrow> Item list" where
  "declaredTop n = (case n of NamespaceDecl _ _ _ _ \<Rightarrow> declared [] Vis_Private n | _ \<Rightarrow> [])"

section \<open>Composing collections\<close>

definition extends :: "Item list \<Rightarrow> SymbolTable \<Rightarrow> SymbolTable \<Rightarrow> bool" where
  "extends is t t' \<longleftrightarrow>
     st_functions t' = st_functions t @ List.map_filter itemFunction is \<and>
     st_logicBlocks t' = st_logicBlocks t @ List.map_filter itemBlock is \<and>
     st_classSymbols t' = st_classSymbols t @ List.map_filter itemType is \<and>
     st_constraintSymbols t' = st_constraintSymbols t @ List.map_filter itemConstraint is \<and>
     st_debugEntries t' = st_debugEntries t @ List.map_filter itemDebug is \<and>
     (table_ok t \<longrightarrow> table_ok t')"

definition collects :: "Item list \<Rightarrow> cstate \<Rightarrow> cstate \<Rightarrow> bool" where
  "collects is st st' \<longleftrightarrow>
     (engine_ok (snd st) \<longrightarrow>
        engine_ok (snd st') \<and>
        (\<not> hasErrors (snd st') \<longrightarrow> \<not> hasErrors (snd st) \<and> extends is (fst st) (fst st')))"

lemma map_filter_append [simp]: "List.map_filter f (xs @ ys) = List.map_filter f xs @ List.map_filter f ys"
  by (simp add: List.map_filter_def)

lemma extends_refl [simp]: "extends [] t t"
  by (simp add: extends_def)

lemma extends_trans: "extends is t t' \<Longrightarrow> extends js t' t'' \<Longrightarrow> extends (is @ js) t t''"
  by (auto simp: extends_def)

lemma collects_refl [simp, intro]: "collects [] st st"
  by (simp add: collects_def)

lemma collects_trans: "collects is st st' \<Longrightarrow> collects js st' st'' \<Longrightarrow> collects (is @ js) st st''"
  using extends_trans by (auto simp: collects_def)

lemma collects_ok: "collects is st st' \<Longrightarrow> engine_ok (snd st) \<Longrightarrow> engine_ok (snd st')"
  by (simp add: collects_def)

lemma collects_clean:
  "collects is st st' \<Longrightarrow> engine_ok (snd st) \<Longrightarrow> \<not> hasErrors (snd st') \<Longrightarrow> \<not> hasErrors (snd st)"
  by (simp add: collects_def)

lemma collects_error [simp, intro]: "collects [] st st' \<Longrightarrow> collects is st (c_error loc msg st')"
  by (auto simp: collects_def c_error_def diag_error_errs)

lemma collects_after_error: "collects [] (c_error loc msg st) st' \<Longrightarrow> collects is st st'"
  by (auto simp: collects_def c_error_def diag_error_errs)

lemma collects_table:
  "collects [] st st' \<Longrightarrow> (\<And>t. extends is t (f t)) \<Longrightarrow> collects is st (c_table f st')"
  using extends_trans [of "[]"] by (fastforce simp: collects_def c_table_def)

lemma collects_add:
  assumes "collects [] st st'" and "\<And>t. snd (add t) \<Longrightarrow> extends is t (fst (add t))"
  shows "collects is st (c_add add loc msg st')"
  using assms(1) assms(2) [of "fst st'"] extends_trans [of "[]" "fst st" "fst st'"] diag_error_errs [of "snd st'"]
  by (fastforce simp: collects_def c_add_def split: prod.splits)

lemma extends_adds:
  "snd (addFunction f t) \<Longrightarrow> extends [ItFunction f] t (fst (addFunction f t))"
  "snd (addLogicBlock bl t) \<Longrightarrow> extends [ItBlock bl] t (fst (addLogicBlock bl t))"
  "snd (addClassSymbol c t) \<Longrightarrow> extends [ItType c] t (fst (addClassSymbol c t))"
  "snd (addConstraintSymbol cs t) \<Longrightarrow> extends [ItConstraint cs] t (fst (addConstraintSymbol cs t))"
  "extends [] t (fst (addTypeAlias ta t))"
  "extends [] t (addImport ie t)" "extends [] t (addLifetimeGroup lg t)"
  "extends [] t (addInstantiate i t)" "extends [] t (addAdapt ad t)" "extends [ItDebug de] t (addDebugEntry de t)"
  by (auto simp: extends_def addFunction_def addLogicBlock_def addClassSymbol_def addConstraintSymbol_def
      addTypeAlias_def addImport_def addLifetimeGroup_def addInstantiate_def addAdapt_def addDebugEntry_def
      table_ok_def keyed_emplace umap_emplace_def map_filter_simps keyed_def map_of_eq_None_iff
      split: prod.splits if_splits)

lemma collects_fold:
  "collects [] st st' \<Longrightarrow> (\<And>x st'. x \<in> set xs \<Longrightarrow> collects [] st st' \<Longrightarrow> collects [] st (f x st')) \<Longrightarrow>
   collects [] st (fold f xs st')"
  by (induction xs arbitrary: st') auto

lemma collects_then: "collects [] st st' \<Longrightarrow> collects is st' st'' \<Longrightarrow> collects is st st''"
  using collects_trans [of "[]"] by simp

lemma collects_before: "collects is st st' \<Longrightarrow> collects [] st' st'' \<Longrightarrow> collects is st st''"
  using collects_trans [of "is" _ _ "[]"] by simp

section \<open>The handlers\<close>

lemma collectFn_collects:
  "collects (if specialFn f \<or> fd_isComptime f then [] else
       [ItFunction (functionSymbol (ns @ ''::'' @ normalizeName (fd_name f)) vis b f
          (hasModifier MK_External (nd_modifiers b)))]) st (collectFn ns vis b f st)"
  by (simp add: collectFn_def Let_def collects_add extends_adds)

lemma collectLogicBlock_collects:
  "collects [ItBlock (blockEntry ns b name ops edges)] st (collectLogicBlock ns b name ops edges st)"
  unfolding collectLogicBlock_def Let_def blockEntry_def
  by (cases "hasModifier MK_External (nd_modifiers b)")
     (simp_all add: collects_add extends_adds)

lemma collectInstantiate_collects: "collects [] st st' \<Longrightarrow> collects [] st (collectInstantiate b d ns st')"
  by (simp add: collectInstantiate_def collects_table extends_adds Let_def)

lemma collectData_collects: "collects [] st (collectData ns b d st)"
  unfolding collectData_def Let_def
  by (cases "hasModifier MK_External (nd_modifiers b)")
     (simp_all add: collects_add collects_table extends_adds addAlias_def collectInstantiate_collects)

lemma collectConstraint_collects: "collects [ItConstraint (constraintOf ns b td)] st (collectConstraint ns b td st)"
  by (simp add: collectConstraint_def Let_def constraintOf_def collects_add extends_adds)

lemma collectAdapt_collects: "collects [] st (collectAdapt b td st)"
  unfolding collectAdapt_def Let_def
  by (rule collects_table) (auto simp: extends_adds intro!: collects_fold split: option.split)

lemma collectTypeRule_collects:
  "isTypeRule b \<Longrightarrow> collects (ruleItems ns b td) st (collectTypeRule ns b td st)"
  by (auto simp: collectTypeRule_def ruleItems_def isTypeRule_def collectConstraint_collects collectAdapt_collects)

lemma beginType_collects: "collects [] st (beginType b cls st)"
  by (simp add: beginType_def)

lemma validateOperator_collects:
  "collects [] st st' \<Longrightarrow> collects [] st (validateOperator q name earlier op st')"
  by (simp add: validateOperator_def Let_def)

lemma validateOperators_collects:
  "collects [] st st' \<Longrightarrow> collects [] st (validateOperators q name earlier ops st')"
  by (induction ops arbitrary: earlier st') (simp_all add: validateOperator_collects)

lemma endType_collects: "collects [ItType cls] st (endType b td (st, cls))"
  unfolding endType_def by (simp add: collects_add extends_adds validateOperators_collects)

section \<open>The walk\<close>

definition same_head :: "ClassSymbol \<Rightarrow> ClassSymbol \<Rightarrow> bool" where
  "same_head c c' \<longleftrightarrow>
     cl_qualifiedName c' = cl_qualifiedName c \<and> cl_isExternal c' = cl_isExternal c \<and>
     cl_externalOwner c' = cl_externalOwner c"

lemma same_head_refl [simp]: "same_head c c"
  by (simp add: same_head_def)

lemma same_head_with: "same_head c c' \<Longrightarrow> same_head c (classWith v m c')"
  by (cases m) (auto simp: same_head_def withMember_def addMemberFn_def withData_def collectMemberData_def
      split: option.splits)

lemma memberFnSymbol_head: "same_head c c' \<Longrightarrow> memberFnSymbol c' v b f = memberFnSymbol c v b f"
  by (simp add: memberFnSymbol_def same_head_def Let_def)

text \<open>A step over members or sections of a class: its symbols, and the class it leaves.\<close>

definition classStep :: "ClassSymbol \<Rightarrow> Item list \<Rightarrow> (ClassSymbol \<Rightarrow> ClassSymbol) \<Rightarrow>
    cstate \<times> ClassSymbol \<Rightarrow> cstate \<times> ClassSymbol \<Rightarrow> bool" where
  "classStep c is upd sc sc' \<longleftrightarrow>
     (same_head c (snd sc) \<longrightarrow>
        collects is (fst sc) (fst sc') \<and> same_head c (snd sc') \<and>
        (engine_ok (snd (fst sc)) \<longrightarrow> \<not> hasErrors (snd (fst sc')) \<longrightarrow> snd sc' = upd (snd sc)))"

lemma classStep_refl [simp]: "classStep c [] (\<lambda>x. x) sc sc" "classStep c [] id sc sc"
  by (simp_all add: classStep_def)

lemma classStep_trans:
  "classStep c is f sc sc' \<Longrightarrow> classStep c js g sc' sc'' \<Longrightarrow> classStep c (is @ js) (\<lambda>x. g (f x)) sc sc''"
  unfolding classStep_def
  by (metis collects_clean collects_ok collects_trans)

lemma collectMemberFn_cases:
  obtains msg where "collectMemberFn v b f (st, c) = (c_error (nd_location b) msg st, c)"
  | msg st1 where "collects [] st st1"
      "collectMemberFn v b f (st, c) =
         (if \<not> specialFn f \<or> cl_isExternal c
          then c_add (addFunction (memberFnSymbol c v b f)) (nd_location b) msg st1 else st1,
          withMember v b f c)"
proof -
  have kind: "fs_kind (memberFnSymbol c v b f) = FK_Function \<longleftrightarrow> \<not> specialFn f"
    by (simp add: memberFnSymbol_def specialFn_def functionSymbol_def Let_def)
  consider (comptime) "(hasModifier MK_External (nd_modifiers b) \<or> cl_isExternal c) \<and> hasModifier MK_Comptime (nd_modifiers b)"
    | (special) "\<not> ((hasModifier MK_External (nd_modifiers b) \<or> cl_isExternal c) \<and> hasModifier MK_Comptime (nd_modifiers b))"
        "hasModifier MK_External (nd_modifiers b) \<and> \<not> cl_isExternal c \<and> specialFn f"
    | (symbol) "\<not> ((hasModifier MK_External (nd_modifiers b) \<or> cl_isExternal c) \<and> hasModifier MK_Comptime (nd_modifiers b))"
        "\<not> (hasModifier MK_External (nd_modifiers b) \<and> \<not> cl_isExternal c \<and> specialFn f)"
    by blast
  then show thesis
  proof cases
    case comptime
    show thesis
      by (rule that(1), unfold collectMemberFn_def Let_def prod.case if_P [OF comptime], rule refl)
  next
    case special
    show thesis
      by (rule that(1), unfold collectMemberFn_def Let_def prod.case if_not_P [OF special(1)] if_P [OF special(2)], rule refl)
  next
    case symbol
    show thesis
      by (rule that(2) [rotated])
         (unfold collectMemberFn_def Let_def prod.case if_not_P [OF symbol(1)] if_not_P [OF symbol(2)] kind
           withMember_def, rule refl, simp)
  qed
qed

lemma collectMemberFn_step:
  "classStep c (memberFnItems v b f c) (withMember v b f) (st, c') (collectMemberFn v b f (st, c'))"
proof (cases rule: collectMemberFn_cases [of v b f st c'])
  case (1 msg)
  then show ?thesis by (auto simp: classStep_def c_error_def diag_error_errs collects_def)
next
  case (2 msg st1)
  show ?thesis
    using 2(1) same_head_with [of c c' v "FnDeclNode b f"] memberFnSymbol_head [of c c' v b f]
    by (simp add: classStep_def 2(2) memberFnItems_def collects_add extends_adds same_head_def)
qed

lemma collectMemberData_step: "classStep c [] (withData b d) (st, c') (collectMemberData b d (st, c'))"
proof -
  have "collectMemberData b d (st, c') = (st, withData b d c')"
    unfolding collectMemberData_def withData_def prod.case by (rule if_distrib [of "Pair st", symmetric])
  then show ?thesis using same_head_with [of c c' _ "DataDeclNode b d"] by (simp add: classStep_def)
qed

lemma collects_cong:
  "collects is st st' \<Longrightarrow> (engine_ok (snd st) \<Longrightarrow> \<not> hasErrors (snd st') \<Longrightarrow> is = js) \<Longrightarrow> collects js st st'"
  by (auto simp: collects_def)

lemma walk_collects:
  "collects (declared ns vis m) st (visitMember ns vis m st)"
  "collects (concat (map (declared ns vis) ms)) st (visitMembers ns vis ms st)"
  "collects (concat (map (declaredGroup ns internal) ss)) st (visitSections ns internal ss st)"
  "collects (declaredType ns vis inherited enclosing b td secs) st
     (visitTypeDecl ns vis inherited enclosing b td secs st)"
  "\<And>c. classStep c (concat (map (declaredSection c) tss)) (fold classWithSection tss) sc (typeSections tss sc)"
  "\<And>c. classStep c (concat (map (declaredMember c v) tms)) (fold (classWith v) tms) sc (typeMembers v tms sc)"
proof (induction ns vis m st and ns vis ms st and ns internal ss st and ns vis inherited enclosing b td secs st
    and tss sc and v tms sc
    rule: visitMember_visitMembers_visitSections_visitTypeDecl_typeSections_typeMembers.induct)
  case (1 ns vis m st)
  show ?case
  proof (cases m)
    case (FnDeclNode b f)
    then show ?thesis using collectFn_collects by simp
  next
    case (FnLogicBlock b name ops edges tps)
    then show ?thesis using collectLogicBlock_collects by simp
  next
    case (DataDeclNode b d)
    then show ?thesis using collectData_collects by simp
  next
    case (TypeDeclNode b td sections)
    then show ?thesis using 1 collectTypeRule_collects by simp
  next
    case (IfDecl b c thenBody elseBody)
    then show ?thesis using 1 collects_trans by simp
  next
    case (NamespaceDecl b path sections internal)
    then show ?thesis using 1 by simp
  qed simp_all
next
  case (3 ns vis m ms st)
  then show ?case by (auto intro: collects_trans)
next
  case (5 ns internal s ss st)
  show ?case
  proof (cases s)
    case (VisibilitySection b v members)
    then show ?thesis using 5 collects_trans by simp
  qed (use 5 in simp_all)
next
  case (6 ns vis inherited enclosing b td sections st)
  let ?c = "initialClass (specializedName ns td) vis inherited enclosing b td"
  obtain st1 c1 where r: "typeSections sections (beginType b ?c st, ?c) = (st1, c1)" by fastforce
  with 6 [OF refl, of ?c, unfolded classStep_def] have walked: "collects (concat (map (declaredSection ?c) sections)) (beginType b ?c st) st1"
    and c1: "engine_ok (snd (beginType b ?c st)) \<Longrightarrow> \<not> hasErrors (snd st1) \<Longrightarrow> c1 = fold classWithSection sections ?c"
    by auto
  have "collects (concat (map (declaredSection ?c) sections) @ [ItType c1]) st (endType b td (st1, c1))"
    using collects_trans [OF collects_then [OF beginType_collects walked] endType_collects] .
  moreover have "engine_ok (snd st) \<Longrightarrow> \<not> hasErrors (snd (endType b td (st1, c1))) \<Longrightarrow>
      c1 = fold classWithSection sections ?c"
    using c1 beginType_collects [of st b ?c] walked endType_collects [of c1 st1 b td] by (simp add: collects_def)
  ultimately show ?case using r by (auto simp: Let_def visitTypeDecl.simps declaredType.simps intro: collects_cong)
next
  case (8 s ss sc)
  show ?case
  proof (cases s)
    case (VisibilitySection b v members)
    then show ?thesis using classStep_trans [OF 8(1) [OF VisibilitySection] 8(2) [unfolded VisibilitySection ASTNode.case]] by simp
  qed (use 8 in simp_all)
next
  case (10 v m ms sc)
  obtain st c' where sc: "sc = (st, c')" by (cases sc)
  show ?case
  proof (cases m)
    case (FnDeclNode b f)
    then show ?thesis
      using classStep_trans [OF collectMemberFn_step 10(2) [unfolded FnDeclNode ASTNode.case sc]] sc by simp
  next
    case (DataDeclNode b d)
    then show ?thesis
      using classStep_trans [OF collectMemberData_step 10(2) [unfolded DataDeclNode ASTNode.case sc]] sc by simp
  next
    case (TypeDeclNode b td sections)
    have "classStep c (declaredMember c v m) (\<lambda>x. x) (st, c')
        (if isTypeRule b then
           (if cl_isExternal c' \<or> hasModifier MK_External (nd_modifiers b)
            then (c_error (nd_location b) ''external type members require ordinary nested types'' st, c')
            else (collectTypeRule (cl_qualifiedName c') b td st, c'))
         else (visitTypeDecl (cl_qualifiedName c') v (cl_externalOwner c') (cl_qualifiedName c') b td sections st, c'))"
      using 10(1) [OF TypeDeclNode sc [symmetric]] collectTypeRule_collects [of b "cl_qualifiedName c'" td st] TypeDeclNode
      by (auto simp: classStep_def same_head_def c_error_def diag_error_errs collects_def)
    from classStep_trans [OF this 10(2) [unfolded TypeDeclNode ASTNode.case sc prod.case]]
    show ?thesis using sc TypeDeclNode by simp
  qed (use 10 in simp_all)
qed simp_all

section \<open>Debug declarations and files\<close>

definition debugEntry :: "NodeBase \<Rightarrow> DebugDecl \<Rightarrow> DebugTargetKind \<times> string \<Rightarrow> DebugEntry" where
  "debugEntry b d target =
     \<lparr>de_targetTypeName = dbg_target d, de_targetQualifiedName = snd target, de_targetKind = fst target,
      de_views = dbg_views d, de_summaryTemplate = dbg_summary d,
      de_inactiveRegions = dbg_inactive d, de_renderDecls = [], de_location = nd_location b\<rparr>"

fun debugItems :: "SymbolTable \<Rightarrow> ASTNode \<Rightarrow> Item list" where
  "debugItems t (DebugDeclNode b d) =
     (case debugTarget d t of None \<Rightarrow> [] | Some target \<Rightarrow> [ItDebug (debugEntry b d target)])"
| "debugItems t _ = []"

text \<open>A debug declaration is well formed in a table when its target exists, its slices are
  not inverted and it asks for no rendering.\<close>

definition goodSlice :: "DebugSliceExpr \<Rightarrow> bool" where
  "goodSlice s \<longleftrightarrow> ds_container s \<noteq> [] \<and> sliceInverted s = None"

fun goodDebug :: "SymbolTable \<Rightarrow> ASTNode \<Rightarrow> bool" where
  "goodDebug t (DebugDeclNode b d) \<longleftrightarrow>
     debugTarget d t \<noteq> None \<and> (\<forall>v \<in> set (dbg_views d). goodSlice (dv_slice v)) \<and>
     (\<forall>r \<in> set (dbg_inactive d). goodSlice (di_region r)) \<and> dbg_render d = []"
| "goodDebug t _ \<longleftrightarrow> True"

lemma fold_clean:
  assumes "\<And>x st. x \<in> set xs \<Longrightarrow> collects [] st (f x st)"
    and "\<And>x st. x \<in> set xs \<Longrightarrow> engine_ok (snd st) \<Longrightarrow> \<not> hasErrors (snd (f x st)) \<Longrightarrow> P x"
    and "engine_ok (snd st)" and "\<not> hasErrors (snd (fold f xs st))"
  shows "\<forall>x \<in> set xs. P x"
  using assms
proof (induction xs arbitrary: st)
  case (Cons x xs)
  have one: "collects [] st (f x st)" by (rule Cons.prems(1)) simp
  have rest: "collects [] (f x st) (fold f xs (f x st))"
    by (rule collects_fold [OF collects_refl]) (use Cons.prems(1) collects_before in auto)
  have ok: "engine_ok (snd (f x st))" using collects_ok [OF one Cons.prems(3)] .
  have "\<not> hasErrors (snd (f x st))" using collects_clean [OF rest ok] Cons.prems(4) by simp
  with Cons.prems(2) [of x st] Cons.prems(3) have "P x" by simp
  moreover have "\<forall>y \<in> set xs. P y"
    by (rule Cons.IH [of "f x st"]) (use Cons.prems ok in auto)
  ultimately show ?case by simp
qed simp

lemma checkSlice_collects: "collects [] st st' \<Longrightarrow> collects [] st (checkSlice unnamed what loc s st')"
  by (auto simp: checkSlice_def split: option.split)

lemma c_error_errors: "engine_ok (snd st) \<Longrightarrow> hasErrors (snd (c_error loc msg st))"
  by (simp add: c_error_def diag_error_errs)

lemma checkSlice_good:
  "engine_ok (snd st) \<Longrightarrow> \<not> hasErrors (snd (checkSlice unnamed what loc s st)) \<Longrightarrow> goodSlice s"
  by (auto simp: checkSlice_def goodSlice_def c_error_errors split: if_splits option.splits)

lemma debug_checks_collect:
  "collects [] st st' \<Longrightarrow> collects [] st (fold (\<lambda>v. checkSlice u w (dv_location v) (dv_slice v)) vs st')"
  "collects [] st st' \<Longrightarrow> collects [] st (fold (\<lambda>r. checkSlice u w (di_location r) (di_region r)) rs st')"
  "collects [] st st' \<Longrightarrow> collects [] st (fold (\<lambda>r. c_error (dr_location r) msg) ds st')"
  by (auto intro!: collects_fold checkSlice_collects)

lemma collectDebug_collects: "collects (debugItems (fst st) (DebugDeclNode b d)) st (collectDebug b d st)"
  by (auto simp: collectDebug_def Let_def debugEntry_def debug_checks_collect extends_adds intro!: collects_table
      split: option.split)

lemma collectDebug_good:
  assumes "engine_ok (snd st)" and "\<not> hasErrors (snd (collectDebug b d st))"
  shows "goodDebug (fst st) (DebugDeclNode b d)"
proof (cases "debugTarget d (fst st)")
  case None
  with assms show ?thesis by (simp add: collectDebug_def c_error_errors)
next
  case (Some target)
  let ?views = "\<lambda>st. fold (\<lambda>v. checkSlice ''view expression must be a named slice'' ''view''
                     (dv_location v) (dv_slice v)) (dbg_views d) st"
  let ?regions = "\<lambda>st. fold (\<lambda>r. checkSlice ''inactive_region expression must be a named slice'' ''inactive_region''
                     (di_location r) (di_region r)) (dbg_inactive d) st"
  let ?render = "\<lambda>st. fold (\<lambda>r. c_error (dr_location r)
                            (''render block: rendering not implemented '' @
                             ''(the `render` block is parsed but no web-rendering '' @
                             ''behavior is generated; remove it until rendering is '' @
                             ''supported)'')) (dbg_render d) st"
  have clean: "\<not> hasErrors (snd (?render (?regions (?views st))))"
    using assms(2) Some by (auto simp: collectDebug_def Let_def c_table_def split: prod.splits)
  note c1 = debug_checks_collect(1) [OF collects_refl [of st]]
  note ok1 = collects_ok [OF c1 assms(1)]
  note c2 = debug_checks_collect(2) [OF collects_refl [of "?views st"]]
  note ok2 = collects_ok [OF c2 ok1]
  note c3 = debug_checks_collect(3) [OF collects_refl [of "?regions (?views st)"]]
  have regions: "\<not> hasErrors (snd (?regions (?views st)))" using collects_clean [OF c3 ok2 clean] .
  have views: "\<not> hasErrors (snd (?views st))" using collects_clean [OF c2 ok1 regions] .
  have "\<forall>v \<in> set (dbg_views d). goodSlice (dv_slice v)"
    by (rule fold_clean [OF _ _ assms(1) views]) (auto intro: checkSlice_collects dest: checkSlice_good)
  moreover have "\<forall>r \<in> set (dbg_inactive d). goodSlice (di_region r)"
    by (rule fold_clean [OF _ _ ok1 regions]) (auto intro: checkSlice_collects dest: checkSlice_good)
  moreover have "\<forall>r \<in> set (dbg_render d). False"
    by (rule fold_clean [OF _ _ ok2 clean]) (simp_all add: c_error_errors)
  ultimately show ?thesis using Some by auto
qed

text \<open>What the target of a debug declaration depends on is not changed by collecting one.\<close>

lemma collectDebug_targets:
  "st_classSymbols (fst (collectDebug b d st)) = st_classSymbols (fst st)"
  "st_typeAliases (fst (collectDebug b d st)) = st_typeAliases (fst st)"
proof -
  have slice: "fst (checkSlice u w l s st) = fst st" for u w l s and st :: cstate
    by (simp add: checkSlice_def c_error_def split: option.split)
  have table: "fst (fold f xs st) = fst st" if "\<And>x st. fst (f x st) = fst st" for f :: "'x \<Rightarrow> cstate \<Rightarrow> cstate" and xs st
    using that by (induction xs arbitrary: st) simp_all
  have folds: "fst (fold (\<lambda>v. checkSlice u w (dv_location v) (dv_slice v)) vs st) = fst st"
    "fst (fold (\<lambda>r. checkSlice u w (di_location r) (di_region r)) rs st) = fst st"
    "fst (fold (\<lambda>r. c_error (dr_location r) msg) ds st) = fst st"
    for u w vs rs msg ds and st :: cstate
    by (rule table, simp add: slice c_error_def)+
  show "st_classSymbols (fst (collectDebug b d st)) = st_classSymbols (fst st)"
    "st_typeAliases (fst (collectDebug b d st)) = st_typeAliases (fst st)"
    by (simp_all add: collectDebug_def Let_def c_table_def c_error_def addDebugEntry_def folds split: option.split prod.split)
qed

definition sameTargets :: "SymbolTable \<Rightarrow> SymbolTable \<Rightarrow> bool" where
  "sameTargets t t' \<longleftrightarrow> st_classSymbols t' = st_classSymbols t \<and> st_typeAliases t' = st_typeAliases t"

lemma sameTargets_debug:
  assumes "sameTargets t t'"
  shows "debugTarget d t' = debugTarget d t" "debugItems t' n = debugItems t n" "goodDebug t' n = goodDebug t n"
proof -
  show target: "debugTarget d t' = debugTarget d t" for d
  proof -
    have "findTypeAlias n t' = findTypeAlias n t" "findClassBySimpleName n t' = findClassBySimpleName n t" for n
      using assms by (simp_all add: findClassBySimpleName_def findTypeAlias_def sameTargets_def)
    then show ?thesis by (auto simp: debugTarget_def split: option.splits)
  qed
  show "debugItems t' n = debugItems t n" "goodDebug t' n = goodDebug t n"
    by (cases n; simp add: target)+
qed

lemma collectTopDebug_step:
  "collects (debugItems (fst st) n) st (collectTopDebug n st)" "sameTargets (fst st) (fst (collectTopDebug n st))"
  "engine_ok (snd st) \<Longrightarrow> \<not> hasErrors (snd (collectTopDebug n st)) \<Longrightarrow> goodDebug (fst st) n"
  using collectDebug_collects collectDebug_good collectDebug_targets
  by (cases n; simp add: sameTargets_def)+

lemma collectTopDebug_fold:
  "collects (concat (map (debugItems (fst st)) ns)) st (fold collectTopDebug ns st) \<and>
   sameTargets (fst st) (fst (fold collectTopDebug ns st)) \<and>
   (engine_ok (snd st) \<longrightarrow> \<not> hasErrors (snd (fold collectTopDebug ns st)) \<longrightarrow> (\<forall>n \<in> set ns. goodDebug (fst st) n))"
proof (induction ns arbitrary: st)
  case Nil
  show ?case by (simp add: sameTargets_def)
next
  case (Cons n ns)
  let ?st = "collectTopDebug n st"
  note step = collectTopDebug_step [where n = n and st = st]
  note same = sameTargets_debug [OF step(2)]
  from Cons [of ?st] have rest: "collects (concat (map (debugItems (fst st)) ns)) ?st (fold collectTopDebug ns ?st)"
    and "sameTargets (fst ?st) (fst (fold collectTopDebug ns ?st))"
    and good: "engine_ok (snd ?st) \<Longrightarrow> \<not> hasErrors (snd (fold collectTopDebug ns ?st)) \<Longrightarrow> (\<forall>m \<in> set ns. goodDebug (fst st) m)"
    by (simp_all add: same cong: map_cong)
  then show ?case
    using collects_trans [OF step(1) rest] step collects_ok [OF step(1)] collects_clean [OF rest]
    by (auto simp: sameTargets_def)
qed

lemma collectTopLevel_collects: "collects (declaredTop n) st (collectTopLevel n st)"
proof (cases n)
  case (NamespaceDecl b path sections internal)
  then show ?thesis using walk_collects(3) by (simp add: declaredTop_def)
next
  case (DataDeclNode b d)
  then show ?thesis by (simp add: declaredTop_def collects_add collects_table extends_adds addAlias_def)
qed (simp_all add: declaredTop_def)

lemma collectTopLevel_fold: "collects (concat (map declaredTop ns)) st (fold collectTopLevel ns st)"
proof (induction ns arbitrary: st)
  case (Cons n ns)
  then show ?case using collects_trans [OF collectTopLevel_collects Cons] by simp
qed simp

lemma collected_exactly:
  assumes "engine_ok diag"
    and "\<not> hasErrors (snd (collectDeclarations decls (empty_table, diag)))"
  shows "let t = fst (collectDeclarations decls (empty_table, diag)); is = concat (map declaredTop decls) @ concat (map (debugItems t) decls) in
    table_ok t \<and>
    st_functions t = List.map_filter itemFunction is \<and>
    st_logicBlocks t = List.map_filter itemBlock is \<and>
    st_classSymbols t = List.map_filter itemType is \<and>
    st_constraintSymbols t = List.map_filter itemConstraint is \<and>
    st_debugEntries t = List.map_filter itemDebug is \<and>
    (\<forall>n \<in> set decls. goodDebug t n)"
proof -
  define st1 where "st1 = fold collectTopLevel decls (empty_table, diag)"
  define st2 where "st2 = fold collectTopDebug decls st1"
  have st2: "collectDeclarations decls (empty_table, diag) = st2"
    by (simp add: collectDeclarations_def st1_def st2_def)
  have c1: "collects (concat (map declaredTop decls)) (empty_table, diag) st1"
    unfolding st1_def by (rule collectTopLevel_fold)
  note d = collectTopDebug_fold [of st1 decls, folded st2_def]
  have clean: "\<not> hasErrors (snd st2)" using assms(2) st2 by simp
  have ok: "engine_ok (snd st1)" using collects_ok [OF c1] assms(1) by simp
  have "\<not> hasErrors (snd st1)" using collects_clean [of _ st1 st2] d ok clean by blast
  then have "extends (concat (map declaredTop decls)) empty_table (fst st1)"
    using c1 assms(1) by (simp add: collects_def)
  moreover have "extends (concat (map (debugItems (fst st1)) decls)) (fst st1) (fst st2)"
    using d ok clean by (simp add: collects_def)
  moreover have same: "sameTargets (fst st1) (fst st2)" using d by simp
  moreover have "\<forall>n \<in> set decls. goodDebug (fst st1) n" using d ok clean by simp
  moreover have items: "debugItems (fst st2) = debugItems (fst st1)"
    by (rule ext) (rule sameTargets_debug(2) [OF same])
  ultimately have "extends (concat (map declaredTop decls) @ concat (map (debugItems (fst st2)) decls)) empty_table (fst st2)"
    "\<forall>n \<in> set decls. goodDebug (fst st2) n"
    using extends_trans [of _ empty_table "fst st1"] sameTargets_debug(3) [OF same]
      items by auto
  then show ?thesis
    unfolding st2 Let_def by (auto simp: extends_def table_ok_empty) (simp_all add: empty_table_def)
qed

lemma collectDeclarations_ok:
  "engine_ok diag \<Longrightarrow> engine_ok (snd (collectDeclarations decls (t, diag)))"
  unfolding collectDeclarations_def
  using collects_ok [OF collectTopLevel_fold [of decls "(t, diag)"]] collectTopDebug_fold [of "fold collectTopLevel decls (t, diag)" decls]
    collects_ok by (metis snd_conv)

text \<open>C17: a file that is collected without an error leaves exactly its declarations in the
  table, in source order: its functions and members, its logic blocks, its types with
  their members, its constraints and its debug declarations, each under its qualified name, no
  name twice; and every debug declaration is well formed and has a target.\<close>

theorem collect_exact:
  assumes "engine_ok diag"
    and "\<not> hasErrors (snd (collectDeclarations decls (empty_table, diag)))"
  shows "let t = fst (collectDeclarations decls (empty_table, diag)); is = concat (map declaredTop decls) @ concat (map (debugItems t) decls) in
    table_ok t \<and>
    st_functions t = List.map_filter itemFunction is \<and>
    st_logicBlocks t = List.map_filter itemBlock is \<and>
    st_classSymbols t = List.map_filter itemType is \<and>
    st_constraintSymbols t = List.map_filter itemConstraint is \<and>
    st_debugEntries t = List.map_filter itemDebug is \<and>
    (\<forall>n \<in> set decls. goodDebug t n)"
  by (rule collected_exactly [OF assms])

definition demo_members :: "ASTNode list" where
  "demo_members =
     [FnDeclNode (node_at default_loc) (empty_fn\<lparr>fd_name := ''get''\<rparr>),
      DataDeclNode (node_at default_loc) (empty_data\<lparr>dd_name := ''x'', dd_type := named_type [''i32'']\<rparr>)]"

definition demo_file :: "ASTNode list" where
  "demo_file =
     [NamespaceDecl (node_at default_loc) [''app''] [VisibilitySection (node_at default_loc) Vis_Public
        [FnDeclNode (node_at default_loc) (empty_fn\<lparr>fd_name := ''run''\<rparr>),
         TypeDeclNode (node_at default_loc) (empty_typedecl ''T'')
           [VisibilitySection (node_at default_loc) Vis_Private demo_members]]] False,
      DebugDeclNode (node_at default_loc)
        \<lparr>dbg_target = ''T'', dbg_views = [], dbg_summary = None, dbg_inactive = [], dbg_render = []\<rparr>]"

definition demo_result :: cstate where
  "demo_result = collectDeclarations demo_file (empty_table, empty_engine)"

lemma demo_result_clean: "\<not> hasErrors (snd demo_result)"
  by code_simp

lemma demo_result_names:
  "map fst (st_functions (fst demo_result)) = [''app::run'', ''app::T::get'']"
  "map fst (st_classSymbols (fst demo_result)) = [''app::T'']"
  by code_simp+

theorem collect_exact_witness:
  "\<not> hasErrors (snd demo_result) \<and> table_ok (fst demo_result) \<and>
   map fst (st_functions (fst demo_result)) = [''app::run'', ''app::T::get''] \<and>
   list_all (goodDebug (fst demo_result)) demo_file"
  using collect_exact [OF engine_ok_empty, of demo_file] demo_result_clean demo_result_names
  by (simp add: Let_def list_all_iff flip: demo_result_def)

end
