(* ===== verification/Block_Laws.thy ===== *)
theory Block_Laws
  imports LogicBlocks TypeCheck_Laws Collect_Laws
begin

text \<open>
  The stages that are assigned to logic blocks, what an accepted table of blocks satisfies, and
  the whole analysis of a file.
\<close>

section \<open>Stages\<close>

lemma length_autoStages [simp]: "length (autoStages n ss) = length ss"
  by (induction n ss rule: autoStages.induct) auto

definition automatic :: "int list \<Rightarrow> nat" where
  "automatic ss = length (filter (\<lambda>s. s = -1) ss)"

lemma autoStages_nth:
  "i < length ss \<Longrightarrow>
   autoStages n ss ! i = (if ss ! i = -1 then n + int (automatic (take i ss)) else ss ! i)"
proof (induction n ss arbitrary: i rule: autoStages.induct)
  case (2 n s ss)
  then show ?case by (cases i) (auto simp: automatic_def)
qed simp

lemma maxStage_bounds:
  "0 \<le> maxStage ss" "s \<in> set ss \<Longrightarrow> s \<le> maxStage ss" "maxStage ss = 0 \<or> maxStage ss \<in> set ss"
proof -
  have "m \<le> fold (\<lambda>s m. if s > m then s else m) ss m \<and>
      (\<forall>s \<in> set ss. s \<le> fold (\<lambda>s m. if s > m then s else m) ss m) \<and>
      (fold (\<lambda>s m. if s > m then s else m) ss m = m \<or> fold (\<lambda>s m. if s > m then s else m) ss m \<in> set ss)" for m :: int
  proof (induction ss arbitrary: m)
    case (Cons s ss)
    show ?case using Cons [of "if s > m then s else m"] by (auto split: if_splits)
  qed simp
  from this [of 0] show "0 \<le> maxStage ss" "s \<in> set ss \<Longrightarrow> s \<le> maxStage ss" "maxStage ss = 0 \<or> maxStage ss \<in> set ss"
    by (auto simp: maxStage_def)
qed

lemma automatic_take: "i < j \<Longrightarrow> j \<le> length ss \<Longrightarrow> ss ! i = -1 \<Longrightarrow> automatic (take i ss) < automatic (take j ss)"
proof -
  assume a: "i < j" "j \<le> length ss" "ss ! i = -1"
  have "take j ss = take (Suc i) ss @ take (j - Suc i) (drop (Suc i) ss)"
    using a by (metis Suc_leI le_add_diff_inverse take_add)
  with a show ?thesis by (simp add: automatic_def take_Suc_conv_app_nth)
qed

lemma automatic_le: "automatic (take i ss) \<le> automatic ss"
  unfolding automatic_def by (metis append_take_drop_id filter_append length_append le_add1)

section \<open>What the checks of a block mean\<close>

definition head_ok :: "SymbolTable \<Rightarrow> string \<Rightarrow> LogicBlockEntry \<Rightarrow> bool" where
  "head_ok t name blk \<longleftrightarrow>
     (case findFunction name t of None \<Rightarrow> lb_isFlow blk | Some f \<Rightarrow> fs_bindingTarget f = None)"

definition callees_ok :: "SymbolTable \<Rightarrow> string \<Rightarrow> LogicBlockEntry \<Rightarrow> bool" where
  "callees_ok t name blk \<longleftrightarrow> (\<forall>c \<in> set (lb_calledFunctions blk). calleeResolves t (nsPrefixOf name) c)"

definition explicitStages :: "int list \<Rightarrow> int list" where
  "explicitStages ss = filter (\<lambda>s. 0 \<le> s) ss"

lemma checkBlockHead_checks: "checks (head_ok t name blk) (checkBlockHead t name blk)"
  by (auto simp: checks_def checkBlockHead_def head_ok_def Let_def diag_error_is_error split: option.split)

lemma checkCallees_checks: "checks (callees_ok t name blk) (checkCallees t name blk)"
  unfolding callees_ok_def checkCallees_def [abs_def] by (intro checks_fold checks_require(1))

lemma checkMonotone_checks:
  "checks (sorted (previous # explicitStages ss)) (checkMonotone name loc previous ss)"
proof (induction ss arbitrary: previous)
  case Nil
  show ?case by (simp add: checks_def explicitStages_def)
next
  case (Cons s ss)
  show ?case
  proof (cases "s \<ge> 0")
    case True
    have eq: "checkMonotone name loc previous (s # ss) = (\<lambda>d. checkMonotone name loc s ss
        (if s < previous
         then diag_error loc
                (''fn block '' @ quoted name @ '': stage<'' @ int_to_string s @
                 ''> is less than previous stage<'' @ int_to_string previous @ ''>'') [] d
         else d))"
      using True by (intro ext) simp
    show ?thesis
      unfolding eq
      by (rule checks_cong [OF checks_seq [OF checks_require(2) Cons]]) (use True in \<open>auto simp: explicitStages_def\<close>)
  next
    case False
    then have eq: "checkMonotone name loc previous (s # ss) = checkMonotone name loc previous ss"
      by (intro ext) simp
    show ?thesis
      unfolding eq by (rule checks_cong [OF Cons]) (use False in \<open>auto simp: explicitStages_def\<close>)
  qed
qed

lemma checks_silent_fold: "(\<And>x. checks True (f x)) \<Longrightarrow> checks True (fold f xs)"
  by (rule checks_cong [OF checks_fold [where P = "\<lambda>_. True"]]) auto

lemma checks_silent_if: "checks True f \<Longrightarrow> checks True g \<Longrightarrow> checks True (\<lambda>d. if c then f d else g d)"
  by (cases c) simp_all

lemma checkConcurrent_checks: "checks True (checkConcurrent t name blk)"
  unfolding checkConcurrent_def [abs_def]
proof (intro checks_silent_fold, goal_cases)
  case (1 x)
  show ?case
    by (cases x, simp only: prod.case, intro checks_silent_if checks_id checks_silent_fold, simp only: split_beta,
        intro checks_silent_if checks_id checks_warning)
qed

text \<open>A pass that checks some condition checks that it is silent on an empty engine.\<close>

lemma checks_silent: "checks P f \<Longrightarrow> checks (\<not> hasErrors (f empty_engine)) f"
  using engine_ok_empty by (auto simp: checks_def hasErrors_def empty_engine_def)

definition reports :: "diag_pass \<Rightarrow> bool" where
  "reports f \<longleftrightarrow> (\<exists>P. checks P f)"

lemma reportsI: "checks P f \<Longrightarrow> reports f"
  by (auto simp: reports_def)

lemma reports_seq: "reports f \<Longrightarrow> reports g \<Longrightarrow> reports (\<lambda>d. g (f d))"
  unfolding reports_def using checks_seq by blast

lemma reports_fold: "(\<And>x. reports (f x)) \<Longrightarrow> reports (fold f xs)"
  unfolding reports_def using checks_fold [of xs _ f] by metis

lemma reports_if: "reports f \<Longrightarrow> reports g \<Longrightarrow> reports (\<lambda>d. if c then f d else g d)"
  by (cases c) simp_all

lemma reports_basic [simp]: "reports (\<lambda>d. d)" "reports (diag_error loc msg code)" "reports (diag_warning loc msg code)"
  using checks_id checks_error checks_warning by (blast intro: reportsI)+

lemma checkNode_reports: "reports (checkNode t qualify blk x)"
proof (cases x)
  case (Pair target preds)
  show ?thesis
  proof (cases "findFunction (qualify target) t")
    case None
    show ?thesis unfolding checkNode_def [abs_def] Pair prod.case None option.case by simp
  next
    case (Some f)
    have flow: "reports (checkFlowNode blk target info f)" for info
      unfolding checkFlowNode_def [abs_def]
      by (cases "pi_singleReturn info", simp, simp only: option.case Let_def, intro reports_if reports_basic)
    show ?thesis
      unfolding checkNode_def [abs_def] Pair prod.case Some option.case Let_def
      by (rule reports_if [OF flow reports_seq [OF reports_if [OF reports_basic(1) reports_fold [OF reports_basic(2)]]
            reports_fold [OF reports_basic(3)]]])
  qed
qed

lemma validatePipeline_reports: "reports (\<lambda>d. po_diag (validatePipeline name blk t d))"
proof -
  have declared: "reports (checkNodesDeclared name b resolved nodes)" for b resolved nodes
    unfolding checkNodesDeclared_def [abs_def] by (intro reports_fold reports_if reports_basic)
  have finish: "reports (\<lambda>d. po_diag (finishPipeline name t b resolved g ks d))" for b resolved g ks
    unfolding finishPipeline_def Let_def PipelineOutcome.simps by (intro reports_fold checkNode_reports)
  show ?thesis
    unfolding validatePipeline_def Let_def if_distrib [of po_diag] PipelineOutcome.simps
    by (intro reports_if reports_basic reports_seq [OF declared] finish)
qed

lemma validatePipeline_frame:
  "st_functions (po_table (validatePipeline name blk t d)) = st_functions t"
  "st_logicBlocks (po_table (validatePipeline name blk t d)) = st_logicBlocks t"
proof -
  have sites: "st_functions (fold (\<lambda>n. addCallSite (g n)) ns t) = st_functions t \<and>
      st_logicBlocks (fold (\<lambda>n. addCallSite (g n)) ns t) = st_logicBlocks t" for g and ns :: "string list" and t
    by (induction ns arbitrary: t) (simp_all add: addCallSite_def)
  show "st_functions (po_table (validatePipeline name blk t d)) = st_functions t"
    "st_logicBlocks (po_table (validatePipeline name blk t d)) = st_logicBlocks t"
    by (simp_all add: validatePipeline_def finishPipeline_def Let_def sites)
qed

section \<open>What validating the blocks leaves unchanged\<close>

definition unmarked :: "FunctionSymbol \<Rightarrow> FunctionSymbol" where
  "unmarked f = f\<lparr>fs_hasLogicBlock := False\<rparr>"

definition same_functions :: "SymbolTable \<Rightarrow> SymbolTable \<Rightarrow> bool" where
  "same_functions t t' \<longleftrightarrow> map (map_prod id unmarked) (st_functions t') = map (map_prod id unmarked) (st_functions t)"

lemma same_functions_refl [simp]: "same_functions t t"
  by (simp add: same_functions_def)

lemma same_functions_trans: "same_functions t t' \<Longrightarrow> same_functions t' t'' \<Longrightarrow> same_functions t t''"
  by (simp add: same_functions_def)

lemma map_of_unmarked: "map_of (map (map_prod id unmarked) m) k = map_option unmarked (map_of m k)"
  by (induction m) auto

lemma same_functions_find:
  "same_functions t t' \<Longrightarrow> map_option unmarked (findFunction q t') = map_option unmarked (findFunction q t)"
  by (metis findFunction_def map_of_unmarked same_functions_def)

lemma same_functions_mark: "same_functions t (markBlock name t)"
  by (auto simp: same_functions_def markBlock_def unmarked_def comp_def map_prod_def split: prod.split)

lemma same_declared: "same_functions t t' \<Longrightarrow> declaredFn t' = declaredFn t"
proof
  fix q
  assume "same_functions t t'"
  from same_functions_find [OF this, of q] show "declaredFn t' q = declaredFn t q"
    by (cases "findFunction q t"; cases "findFunction q t'") (simp_all add: declaredFn_def)
qed

lemma parentWalk_cong: "declaredFn t' = declaredFn t \<Longrightarrow> parentWalk t' b c k p = parentWalk t b c k p"
proof (induction k arbitrary: b p)
  case (Suc k)
  then show ?case by (auto simp: Let_def split: option.split)
qed simp

lemma resolveCallee_cong:
  assumes "declaredFn t' = declaredFn t"
  shows "resolveCallee t' c p = resolveCallee t c p"
  by (simp only: resolveCallee_def Let_def parentWalk_cong [OF assms] assms)

lemma block_checks_cong:
  assumes "same_functions t t'"
  shows "head_ok t' name blk = head_ok t name blk" and "callees_ok t' name blk = callees_ok t name blk"
proof -
  have "fs_bindingTarget (unmarked f) = fs_bindingTarget f" for f by (simp add: unmarked_def)
  then have "map_option fs_bindingTarget (findFunction name t') = map_option fs_bindingTarget (findFunction name t)"
    using arg_cong [OF same_functions_find [OF assms, of name], of "map_option fs_bindingTarget"]
    by (simp add: option.map_comp comp_def)
  then show "head_ok t' name blk = head_ok t name blk"
    by (cases "findFunction name t"; cases "findFunction name t'") (simp_all add: head_ok_def)
  show "callees_ok t' name blk = callees_ok t name blk"
    using resolveCallee_cong [OF same_declared [OF assms]] by (simp add: callees_ok_def calleeResolves_def)
qed

section \<open>One block after the other\<close>

definition block_accepted :: "SymbolTable \<Rightarrow> string \<Rightarrow> LogicBlockEntry \<Rightarrow> LogicBlockEntry \<Rightarrow> bool" where
  "block_accepted t name blk out \<longleftrightarrow>
     head_ok t name blk \<and>
     (if lb_isPipeline blk then lb_pipelineAnalysis out \<noteq> None
      else callees_ok t name blk \<and> sorted (explicitStages (lb_stages blk)) \<and>
        out = blk\<lparr>lb_stages := assignStages (lb_stages blk)\<rparr>)"

lemma pipeline_accepted:
  assumes "engine_ok d" and "\<not> hasErrors (po_diag (validatePipeline name blk t d))"
  shows "lb_pipelineAnalysis (po_block (validatePipeline name blk t d)) \<noteq> None"
  using validatePipeline_cases [where t = t and blk = blk and name = name and diag = d] assms
  by (cases "schedulable (map (resolveTerminal t) (lb_edges blk))") auto

lemma validateBlock_step:
  assumes "findLogicBlock name t = Some blk" and "engine_ok d"
  obtains t' d' out where "validateBlock name (t, d) = (t', d')"
    and "same_functions t t'" and "st_functions t' = st_functions (markBlock name t)"
    and "\<And>m. findLogicBlock m t' = (if m = name then Some out else findLogicBlock m t)"
    and "engine_ok d'" and "\<not> hasErrors d' \<Longrightarrow> \<not> hasErrors d \<and> block_accepted t name blk out"
proof -
  let ?d1 = "checkBlockHead t name blk d" and ?t1 = "markBlock name t"
  note head = checksD [OF checkBlockHead_checks assms(2), of t name blk]
  have blocks: "st_logicBlocks ?t1 = st_logicBlocks t" by (simp add: markBlock_def)
  show thesis
  proof (cases "lb_isPipeline blk")
    case True
    let ?out = "validatePipeline name blk ?t1 ?d1"
    obtain P where P: "checks P (\<lambda>d. po_diag (validatePipeline name blk ?t1 d))"
      using validatePipeline_reports [unfolded reports_def] by blast
    note pipe = checksD [OF P head(1)]
    show thesis
    proof (rule that)
      show "validateBlock name (t, d) = (putBlock name (po_block ?out) (po_table ?out), po_diag ?out)"
        by (simp add: validateBlock_def assms(1) True Let_def)
      show funs: "st_functions (putBlock name (po_block ?out) (po_table ?out)) = st_functions ?t1"
        by (simp add: putBlock_def validatePipeline_frame)
      then show "same_functions t (putBlock name (po_block ?out) (po_table ?out))"
        using same_functions_mark [of t name] by (simp add: same_functions_def)
      show "findLogicBlock m (putBlock name (po_block ?out) (po_table ?out)) =
          (if m = name then Some (po_block ?out) else findLogicBlock m t)" for m
        by (simp add: putBlock_def findLogicBlock_def validatePipeline_frame blocks update_conv)
      show "engine_ok (po_diag ?out)" by (rule pipe(1))
      show "\<not> hasErrors (po_diag ?out) \<Longrightarrow> \<not> hasErrors d \<and> block_accepted t name blk (po_block ?out)"
        using pipe(2) head(2) pipeline_accepted [OF head(1)] True by (auto simp: block_accepted_def)
    qed
  next
    case False
    let ?blk = "blk\<lparr>lb_stages := assignStages (lb_stages blk)\<rparr>"
    let ?d2 = "checkMonotone name (lb_location blk) 0 (lb_stages blk) (checkCallees ?t1 name blk ?d1)"
    note callees = checksD [OF checkCallees_checks head(1), of ?t1 name blk]
    note stages = checksD [OF checkMonotone_checks [where previous = 0 and ss = "lb_stages blk" and name = name and
        loc = "lb_location blk"] callees(1)]
    note warn = checksD [OF checkConcurrent_checks stages(1), of ?t1 name ?blk]
    show thesis
    proof (rule that)
      show "validateBlock name (t, d) = (putBlock name ?blk ?t1, checkConcurrent ?t1 name ?blk ?d2)"
        by (simp add: validateBlock_def assms(1) False Let_def validatePlainBlock_def)
      show "st_functions (putBlock name ?blk ?t1) = st_functions ?t1" by (simp add: putBlock_def)
      then show "same_functions t (putBlock name ?blk ?t1)"
        using same_functions_mark [of t name] by (simp add: same_functions_def)
      show "findLogicBlock m (putBlock name ?blk ?t1) = (if m = name then Some ?blk else findLogicBlock m t)" for m
        by (simp add: putBlock_def findLogicBlock_def blocks update_conv)
      show "engine_ok (checkConcurrent ?t1 name ?blk ?d2)" by (rule warn(1))
      show "\<not> hasErrors (checkConcurrent ?t1 name ?blk ?d2) \<Longrightarrow> \<not> hasErrors d \<and> block_accepted t name blk ?blk"
        using warn(2) stages(2) callees(2) head(2) False block_checks_cong(2) [OF same_functions_mark]
        by (simp add: block_accepted_def)
    qed
  qed
qed

lemma block_accepted_cong: "same_functions t t' \<Longrightarrow> block_accepted t' name blk out = block_accepted t name blk out"
  by (simp add: block_accepted_def block_checks_cong)

lemma markBlock_functions:
  "st_functions (markBlock name t) = map (\<lambda>(n, f). (n, if n = name then f\<lparr>fs_hasLogicBlock := True\<rparr> else f)) (st_functions t)"
  by (simp add: markBlock_def)

definition marked :: "string set \<Rightarrow> string \<times> FunctionSymbol \<Rightarrow> string \<times> FunctionSymbol" where
  "marked names nf = (fst nf, if fst nf \<in> names then (snd nf)\<lparr>fs_hasLogicBlock := True\<rparr> else snd nf)"

lemma validateBlocks_run:
  assumes "distinct names" and "engine_ok d" and "\<forall>n \<in> set names. findLogicBlock n t \<noteq> None"
    and "fold validateBlock names (t, d) = (t', d')"
  shows "engine_ok d' \<and> same_functions t t' \<and> st_functions t' = map (marked (set names)) (st_functions t) \<and>
     (\<forall>m. m \<notin> set names \<longrightarrow> findLogicBlock m t' = findLogicBlock m t) \<and>
     (\<not> hasErrors d' \<longrightarrow> \<not> hasErrors d \<and>
        (\<forall>n \<in> set names. \<exists>out. findLogicBlock n t' = Some out \<and> block_accepted t n (the (findLogicBlock n t)) out))"
  using assms
proof (induction names arbitrary: t d)
  case Nil
  then show ?case by (simp add: marked_def)
next
  case (Cons n names)
  from Cons.prems(3) obtain blk where blk: "findLogicBlock n t = Some blk" by auto
  from validateBlock_step [OF blk Cons.prems(2)] obtain t1 d1 out where one: "validateBlock n (t, d) = (t1, d1)"
    and same: "same_functions t t1" and funs: "st_functions t1 = st_functions (markBlock n t)"
    and blocks: "\<And>m. findLogicBlock m t1 = (if m = n then Some out else findLogicBlock m t)"
    and ok: "engine_ok d1" and clean: "\<not> hasErrors d1 \<Longrightarrow> \<not> hasErrors d \<and> block_accepted t n blk out"
    by blast
  have "fold validateBlock names (t1, d1) = (t', d')" using Cons.prems(4) one by simp
  from Cons.IH [OF _ ok _ this] Cons.prems(1,3) blocks
  have rest: "engine_ok d'" "same_functions t1 t'" "st_functions t' = map (marked (set names)) (st_functions t1)"
    "\<forall>m. m \<notin> set names \<longrightarrow> findLogicBlock m t' = findLogicBlock m t1"
    "\<not> hasErrors d' \<Longrightarrow> \<not> hasErrors d1 \<and>
        (\<forall>m \<in> set names. \<exists>out. findLogicBlock m t' = Some out \<and> block_accepted t1 m (the (findLogicBlock m t1)) out)"
    by auto
  have "st_functions t' = map (marked (set (n # names))) (st_functions t)"
    using rest(3) funs by (auto simp: markBlock_functions marked_def)
  moreover have "\<forall>m. m \<notin> set (n # names) \<longrightarrow> findLogicBlock m t' = findLogicBlock m t"
    using rest(4) blocks by simp
  moreover have "\<forall>m \<in> set (n # names). \<exists>out. findLogicBlock m t' = Some out \<and> block_accepted t m (the (findLogicBlock m t)) out"
    if "\<not> hasErrors d'"
  proof
    fix m assume "m \<in> set (n # names)"
    then consider "m = n" | "m \<in> set names" "m \<noteq> n" using Cons.prems(1) by auto
    then show "\<exists>out. findLogicBlock m t' = Some out \<and> block_accepted t m (the (findLogicBlock m t)) out"
    proof cases
      case 1
      then show ?thesis using rest(4,5) blocks [of n] clean that blk Cons.prems(1) by auto
    next
      case 2
      then show ?thesis using rest(5) [OF that] blocks [of m] block_accepted_cong [OF same] by auto
    qed
  qed
  ultimately show ?case using rest clean same_functions_trans [OF same] by auto
qed

section \<open>Properties\<close>



lemma blocks_accepted:
  assumes "engine_ok diag" and "table_ok t"
    and "\<not> hasErrors (snd (validateLogicBlocks (t, diag)))"
  shows "\<not> hasErrors diag \<and>
    (\<forall>(n, blk) \<in> set (st_logicBlocks t).
       \<exists>out. findLogicBlock n (fst (validateLogicBlocks (t, diag))) = Some out \<and> block_accepted t n blk out) \<and>
    st_functions (fst (validateLogicBlocks (t, diag))) = map (marked (fst ` set (st_logicBlocks t))) (st_functions t)"
proof -
  obtain t' d' where r: "validateLogicBlocks (t, diag) = (t', d')" by fastforce
  have keys: "distinct (map fst (st_logicBlocks t))" using assms(2) by (simp add: table_ok_def keyed_def)
  then have found: "(n, blk) \<in> set (st_logicBlocks t) \<Longrightarrow> findLogicBlock n t = Some blk" for n blk
    by (simp add: findLogicBlock_def)
  then have "\<forall>n \<in> set (map fst (st_logicBlocks t)). findLogicBlock n t \<noteq> None" by fastforce
  from validateBlocks_run [OF keys assms(1) this] r
  have run: "st_functions t' = map (marked (set (map fst (st_logicBlocks t)))) (st_functions t)"
    "\<not> hasErrors d' \<Longrightarrow> \<not> hasErrors diag \<and> (\<forall>n \<in> set (map fst (st_logicBlocks t)).
       \<exists>out. findLogicBlock n t' = Some out \<and> block_accepted t n (the (findLogicBlock n t)) out)"
    by (simp_all add: validateLogicBlocks_def)
  have clean: "\<not> hasErrors d'" using assms(3) r by simp
  have "\<exists>out. findLogicBlock n t' = Some out \<and> block_accepted t n blk out" if "(n, blk) \<in> set (st_logicBlocks t)" for n blk
    using run(2) [OF clean] found [OF that] that by force
  then show ?thesis using run(1) run(2) [OF clean] r by auto
qed

text \<open>C20: when the logic blocks of a table validate without an error, every block has a function
  without a binding target or is a flow; every callee of a plain block resolves to a declared
  function, its explicit stages never decrease and the missing ones have been assigned; every
  pipeline carries its analysis.  Exactly the functions with a block are marked, and nothing
  else about a function changes.\<close>

theorem logic_blocks_accepted:
  assumes "engine_ok diag" and "table_ok t"
    and "\<not> hasErrors (snd (validateLogicBlocks (t, diag)))"
  shows "\<not> hasErrors diag \<and>
    (\<forall>(n, blk) \<in> set (st_logicBlocks t).
       \<exists>out. findLogicBlock n (fst (validateLogicBlocks (t, diag))) = Some out \<and> block_accepted t n blk out) \<and>
    st_functions (fst (validateLogicBlocks (t, diag))) = map (marked (fst ` set (st_logicBlocks t))) (st_functions t)"
  by (rule blocks_accepted [OF assms])

lemma map_filter_mem: "x \<in> set (List.map_filter f xs) \<Longrightarrow> \<exists>i \<in> set xs. f i = Some x"
  by (force simp: List.map_filter_def)

lemma declared_constraint_names:
  "ItConstraint c \<in> set (declared ns vis m) \<Longrightarrow> cs_qualifiedName c \<noteq> []"
  "ItConstraint c \<in> set (declaredGroup ns internal m) \<Longrightarrow> cs_qualifiedName c \<noteq> []"
  "ItConstraint c \<in> set (declaredType ns vis inh enc b td secs) \<Longrightarrow> cs_qualifiedName c \<noteq> []"
  "ItConstraint c \<in> set (declaredSection cls m) \<Longrightarrow> cs_qualifiedName c \<noteq> []"
  "ItConstraint c \<in> set (declaredMember cls vis m) \<Longrightarrow> cs_qualifiedName c \<noteq> []"
proof (induction ns vis m and ns internal m and ns vis inh enc b td secs and cls m and cls vis m
    rule: declared_declaredGroup_declaredType_declaredSection_declaredMember.induct)
  case (1 ns vis m)
  then show ?case by (cases m) (auto simp: ruleItems_def constraintOf_def split: if_splits)
next
  case (2 ns internal s)
  then show ?case by (cases s) auto
next
  case (3 ns vis inh enc b td secs)
  then show ?case by (auto simp: declaredType.simps Let_def)
next
  case (4 cls s)
  then show ?case by (cases s) auto
next
  case (5 cls v m)
  then show ?case by (cases m) (auto simp: ruleItems_def constraintOf_def memberFnItems_def split: if_splits)
qed


section \<open>Witnesses\<close>

definition call_op :: "string \<Rightarrow> int \<Rightarrow> ASTNode" where
  "call_op f s = OperationNode (node_at default_loc)
     \<lparr>od_stage = s, od_funcName = f, od_varName = [], od_expr = None, od_returnBinding = None\<rparr>"

definition void_fn :: "string \<Rightarrow> ASTNode" where
  "void_fn n = FnDeclNode (node_at default_loc) (empty_fn\<lparr>fd_name := n, fd_returnType := named_type [''void'']\<rparr>)"

definition block_file :: "ASTNode list" where
  "block_file =
     [NamespaceDecl (node_at default_loc) [''app''] [VisibilitySection (node_at default_loc) Vis_Public
        [void_fn ''run'', void_fn ''load'', void_fn ''save'',
         FnLogicBlock (node_at default_loc) ''run'' [call_op ''load'' (-1), call_op ''save'' 2] [] []]] False]"

lemma block_file_runs:
  "\<not> hasErrors (snd (analyze block_file empty_engine))"
  "map (\<lambda>(n, b). lb_stages b) (st_logicBlocks (fst (analyze block_file empty_engine))) = [[3, 2]]"
  "st_classSymbols (fst (collectDeclarations block_file (empty_table, empty_engine))) = []"
  by code_simp+

lemma block_file_small: "card (sharedNodes (fst (collectDeclarations block_file (empty_table, empty_engine)))) \<le> 500"
  using block_file_runs(3) by (simp add: sharedNodes_def sharedEdges_def)


lemma block_demo:
  "\<not> hasErrors (snd (validateLogicBlocks (fst (collectDeclarations block_file (empty_table, empty_engine)), empty_engine)))"
  "map fst (st_logicBlocks (fst (collectDeclarations block_file (empty_table, empty_engine)))) = [''app::run'']"
  "\<not> hasErrors (snd (collectDeclarations block_file (empty_table, empty_engine)))"
  by code_simp+

theorem logic_blocks_accepted_witness:
  "\<exists>out. findLogicBlock ''app::run''
       (fst (validateLogicBlocks (fst (collectDeclarations block_file (empty_table, empty_engine)), empty_engine))) = Some out"
proof -
  let ?t = "fst (collectDeclarations block_file (empty_table, empty_engine))"
  have "table_ok ?t"
    using collected_exactly [OF engine_ok_empty block_demo(3)] by (simp add: Let_def)
  from logic_blocks_accepted [OF engine_ok_empty this block_demo(1)] block_demo(2)
  show ?thesis by (cases "st_logicBlocks ?t") fastforce+
qed

end
