(* ===== verification/Visibility_Entries.thy ===== *)
theory Visibility_Entries
  imports Collector
begin

text \<open>
  The visibility entries of a file (\<open>lib/Sema/VisibilityCollector.cpp\<close>) and the policy that
  backends derive from them (\<open>lib/Analysis/VisibilityPolicy.cpp\<close>).  The collector's list of
  entries is its state; every function of the walk appends to it.
\<close>

section \<open>Entries\<close>

record ParamConstInfo =
  pc_isConst :: bool
  pc_modifier :: TypeModifier
  pc_ownership :: OwnershipKind

record VisibilityEntry =
  ve_qualifiedName :: string
  ve_visibility :: Visibility
  ve_isConst :: bool
  ve_paramConsts :: "ParamConstInfo list"
  ve_bindingTarget :: "string option"
  ve_priority :: PriorityLevel

definition extractParamConsts :: "FnDecl \<Rightarrow> ParamConstInfo list" where
  "extractParamConsts func =
     map (\<lambda>p. \<lparr>pc_isConst = ty_isConst (pm_type p), pc_modifier = ty_modifier (pm_type p),
               pc_ownership = ty_ownership (pm_type p)\<rparr>) (fd_params func)"

definition entryOf :: "string \<Rightarrow> Visibility \<Rightarrow> FnDecl \<Rightarrow> VisibilityEntry" where
  "entryOf qualified vis func =
     \<lparr>ve_qualifiedName = qualified, ve_visibility = vis, ve_isConst = fd_isConst func,
      ve_paramConsts = extractParamConsts func, ve_bindingTarget = fd_bindingTarget func,
      ve_priority = fd_priority func\<rparr>"

section \<open>The walk\<close>

text \<open>The entry of a namespace function: the dotted name is spelled with \<open>::\<close>.\<close>

definition visitFn :: "string \<Rightarrow> Visibility \<Rightarrow> FnDecl \<Rightarrow> VisibilityEntry list \<Rightarrow> VisibilityEntry list" where
  "visitFn nsPath vis func entries =
     (if specialFn func \<or> fd_isComptime func then entries
      else entries @ [entryOf (nsPath @ ''::'' @ normalizeName (fd_name func)) vis func])"

text \<open>The members of a type: their names are taken as they are.\<close>

fun visitClassMember :: "string \<Rightarrow> Visibility \<Rightarrow> ASTNode \<Rightarrow> VisibilityEntry list \<Rightarrow> VisibilityEntry list" where
  "visitClassMember classPath vis (FnDeclNode b func) entries =
     (if specialFn func then entries
      else entries @ [entryOf (classPath @ ''::'' @ fd_name func) vis func])"
| "visitClassMember classPath vis _ entries = entries"

fun visitClassSection :: "string \<Rightarrow> bool \<Rightarrow> ASTNode \<Rightarrow> VisibilityEntry list \<Rightarrow> VisibilityEntry list" where
  "visitClassSection classPath forceInternal (VisibilitySection b v members) entries =
     fold (visitClassMember classPath (if forceInternal then Vis_Internal else v)) members entries"
| "visitClassSection classPath forceInternal _ entries = entries"

function (sequential) veMember :: "string \<Rightarrow> Visibility \<Rightarrow> bool \<Rightarrow> ASTNode \<Rightarrow> VisibilityEntry list \<Rightarrow> VisibilityEntry list"
  and veMembers :: "string \<Rightarrow> Visibility \<Rightarrow> bool \<Rightarrow> ASTNode list \<Rightarrow> VisibilityEntry list \<Rightarrow> VisibilityEntry list"
  and veSections :: "string \<Rightarrow> bool \<Rightarrow> ASTNode list \<Rightarrow> VisibilityEntry list \<Rightarrow> VisibilityEntry list" where
  "veMember nsPath vis forceInternal member entries =
     (case member of
        FnDeclNode _ func \<Rightarrow> visitFn nsPath vis func entries
      | NamespaceDecl _ path sections internal \<Rightarrow> veSections (childPath nsPath path) internal sections entries
      | TypeDeclNode b td sections \<Rightarrow>
          if isTypeRule b then entries
          else fold (visitClassSection (nsPath @ ''::'' @ td_name td) forceInternal) sections entries
      | IfDecl _ _ thenBody elseBody \<Rightarrow>
          veMembers nsPath vis forceInternal elseBody (veMembers nsPath vis forceInternal thenBody entries)
      | _ \<Rightarrow> entries)"
| "veMembers nsPath vis forceInternal [] entries = entries"
| "veMembers nsPath vis forceInternal (m # ms) entries =
     veMembers nsPath vis forceInternal ms (veMember nsPath vis forceInternal m entries)"
| "veSections nsPath internal [] entries = entries"
| "veSections nsPath internal (s # ss) entries =
     veSections nsPath internal ss
       (case s of
          VisibilitySection _ v members \<Rightarrow>
            veMembers nsPath (if internal then Vis_Internal else v) internal members entries
        | _ \<Rightarrow> entries)"
  by pat_completeness auto
termination
  by size_change

fun visitTopLevel :: "ASTNode \<Rightarrow> VisibilityEntry list \<Rightarrow> VisibilityEntry list" where
  "visitTopLevel (NamespaceDecl b path sections internal) entries =
     veSections (childPath [] path) internal sections entries"
| "visitTopLevel _ entries = entries"

definition collectVisibility :: "ASTNode list \<Rightarrow> VisibilityEntry list" where
  "collectVisibility declarations = fold visitTopLevel declarations []"

section \<open>The policy\<close>

record VisibilityAction =
  va_internalLinkage :: bool
  va_inlineHint :: bool
  va_alwaysInline :: bool
  va_stripDebug :: bool
  va_isExport :: bool
  va_dsoLocal :: bool
  va_isConst :: bool
  va_paramConsts :: "ParamConstInfo list"

datatype TargetPlatform = ELF | COFF | MachO

datatype PolicyOutputType = POT_Executable | POT_SharedLibrary | POT_StaticLibrary

definition computeVisibilityAction ::
  "VisibilityEntry \<Rightarrow> PolicyOutputType \<Rightarrow> TargetPlatform \<Rightarrow> bool \<Rightarrow> VisibilityAction" where
  "computeVisibilityAction entry outputType platform debugInternal =
     (let action = \<lparr>va_internalLinkage = False, va_inlineHint = False, va_alwaysInline = False,
                    va_stripDebug = False, va_isExport = False, va_dsoLocal = False,
                    va_isConst = ve_isConst entry, va_paramConsts = ve_paramConsts entry\<rparr>;
          isShared = (outputType = POT_SharedLibrary)
      in
      case ve_visibility entry of
        Vis_Public \<Rightarrow> if isShared then action\<lparr>va_isExport := True\<rparr> else action
      | Vis_Protected \<Rightarrow> action\<lparr>va_internalLinkage := True, va_inlineHint := True\<rparr>
      | Vis_Private \<Rightarrow> action\<lparr>va_internalLinkage := True, va_inlineHint := True\<rparr>
      | Vis_Internal \<Rightarrow>
          action\<lparr>va_internalLinkage := True, va_alwaysInline := True,
                 va_stripDebug := \<not> debugInternal\<rparr>
      | Vis_Ignore \<Rightarrow> action)"

definition computeVisibilityActions ::
  "VisibilityEntry list \<Rightarrow> PolicyOutputType \<Rightarrow> TargetPlatform \<Rightarrow> bool \<Rightarrow> VisibilityAction list" where
  "computeVisibilityActions entries outputType platform debugInternal =
     map (\<lambda>e. computeVisibilityAction e outputType platform debugInternal) entries"

end
