(* ===== verification/Analysis.thy ===== *)
theory Analysis
  imports Visibility_Entries
begin

text \<open>
  The analyses over the symbol table (\<open>lib/Analysis\<close>): stages, pipelines, lifetimes and the
  propagation of priorities along calls.  Sets of names are lists without repetitions.
\<close>

section \<open>Names\<close>

definition isAssignCall :: "string \<Rightarrow> bool" where
  "isAssignCall callee \<longleftrightarrow> length callee > 8 \<and> is_prefix ''<assign:'' callee"

definition afterLastSep :: "string \<Rightarrow> string" where
  "afterLastSep name =
     (case rfind_str ''::'' name of Some p \<Rightarrow> substr_from name (p + 2) | None \<Rightarrow> name)"

section \<open>Stages\<close>

record StageAnalysisResult =
  sr_calleeStageMap :: "int umap"
  sr_logicBlockFunctions :: "string list"

text \<open>The analyzer fills one stage per callee; the code indexes without a test.\<close>

definition analyzeStages :: "SymbolTable \<Rightarrow> StageAnalysisResult" where
  "analyzeStages symbols =
     fold (\<lambda>(blockName, block) result.
       let nsPrefix = nsPrefixOf blockName;
           result1 = result\<lparr>sr_logicBlockFunctions := List.insert blockName (sr_logicBlockFunctions result)\<rparr>
       in fold (\<lambda>i r.
            let callee = lb_calledFunctions block ! i in
            if isAssignCall callee then r
            else r\<lparr>sr_calleeStageMap := AList.update (nsPrefix @ callee) (lb_stages block ! i) (sr_calleeStageMap r)\<rparr>)
          [0..<length (lb_calledFunctions block)] result1)
       (st_logicBlocks symbols) \<lparr>sr_calleeStageMap = [], sr_logicBlockFunctions = []\<rparr>"

section \<open>Pipelines\<close>

definition groupNodesByStage :: "PipelineAnalysisResult \<Rightarrow> (int \<times> string list) list" where
  "groupNodesByStage analysis =
     fold (\<lambda>(node, stage) m. smap_put stage (smap_get [] m stage @ [node]) m) (pa_stages analysis) []"

definition findUpstreamNodes :: "string \<Rightarrow> PipelineEdge list \<Rightarrow> string list" where
  "findUpstreamNodes nodeName edges = map pe_source (filter (\<lambda>e. pe_target e = nodeName) edges)"

definition isSourceNode :: "string \<Rightarrow> string list \<Rightarrow> bool" where
  "isSourceNode nodeName sourceNodes \<longleftrightarrow> nodeName \<in> set sourceNodes"

definition nodeMatches :: "string \<Rightarrow> string \<Rightarrow> bool" where
  "nodeMatches nodeName calledFunc \<longleftrightarrow>
     calledFunc = nodeName \<or> afterLastSep calledFunc = nodeName \<or>
     (length calledFunc > length (''::'' @ nodeName) \<and> is_suffix (''::'' @ nodeName) calledFunc)"

definition resolveNodeCallee :: "string \<Rightarrow> string list \<Rightarrow> string" where
  "resolveNodeCallee nodeName calledFunctions =
     (case find (nodeMatches nodeName) calledFunctions of Some f \<Rightarrow> f | None \<Rightarrow> [])"

section \<open>Lifetimes\<close>

record LifetimeScope =
  ls_name :: string
  ls_coveredFunctions :: "string list"

record LifetimeAnalysisResult =
  lr_scopes :: "LifetimeScope umap"
  lr_annotatedFunctions :: "string list"

text \<open>The functions of a block by stage; a callee with a separator is taken as qualified.\<close>

definition stageFuncsOf :: "string \<Rightarrow> LogicBlockEntry \<Rightarrow> (int \<times> string list) list" where
  "stageFuncsOf blockName block =
     (let nsPrefix = nsPrefixOf blockName in
      fold (\<lambda>i m.
        let funcName = lb_calledFunctions block ! i in
        if substr funcName 0 8 = ''<assign:'' then m
        else
          let stage = (if i < length (lb_stages block) then lb_stages block ! i else -1);
              qualified = (if nsPrefix \<noteq> [] \<and> find_str ''::'' funcName = None
                           then nsPrefix @ funcName else funcName)
          in smap_put stage (smap_get [] m stage @ [qualified]) m)
        [0..<length (lb_calledFunctions block)] [])"

text \<open>The stage of the last function with the simple name; later stages win.\<close>

definition stageNamed :: "string \<Rightarrow> (int \<times> string list) list \<Rightarrow> int" where
  "stageNamed name stageFuncs =
     fold (\<lambda>(stage, funcs) found.
       fold (\<lambda>f s. if afterLastSep f = name then stage else s) funcs found) stageFuncs (-1)"

definition rangeEnd :: "LifetimeGroupEntry \<Rightarrow> int \<Rightarrow> (int \<times> string list) list \<Rightarrow> int" where
  "rangeEnd grp startStage stageFuncs =
     (let endStage = (if lg_endFunc grp \<noteq> [] then stageNamed (lg_endFunc grp) stageFuncs else -1) in
      if lg_isSingleFunc grp then startStage
      else if lg_isOpenEnded grp then (if stageFuncs \<noteq> [] then fst (last stageFuncs) else endStage)
      else endStage)"

definition coverBlock :: "LifetimeGroupEntry \<Rightarrow> string \<times> LogicBlockEntry \<Rightarrow> string list \<Rightarrow> string list" where
  "coverBlock grp nb covered =
     (let stageFuncs = stageFuncsOf (fst nb) (snd nb);
          startStage = stageNamed (lg_startFunc grp) stageFuncs
      in
      if startStage < 0 then covered
      else
        let endStage = rangeEnd grp startStage stageFuncs in
        fold (\<lambda>(stage, funcs) c.
            if stage \<ge> startStage \<and> (endStage < 0 \<or> stage \<le> endStage) then fold List.insert funcs c else c)
          stageFuncs covered)"

definition scopeOf :: "SymbolTable \<Rightarrow> LifetimeGroupEntry \<Rightarrow> LifetimeScope" where
  "scopeOf symbols grp =
     \<lparr>ls_name = lg_name grp, ls_coveredFunctions = fold (coverBlock grp) (st_logicBlocks symbols) []\<rparr>"

definition lifetimeType :: "TypeNode \<Rightarrow> bool" where
  "lifetimeType t \<longleftrightarrow> ty_nameParts t \<noteq> [] \<and> hd (ty_nameParts t) = ''lifetime''"

definition lifetimeAnnotated :: "FunctionSymbol \<Rightarrow> bool" where
  "lifetimeAnnotated func \<longleftrightarrow>
     lifetimeType (fs_returnType func) \<or> (\<exists>p \<in> set (fs_params func). lifetimeType (pm_type p))"

definition analyzeLifetimes :: "SymbolTable \<Rightarrow> LifetimeAnalysisResult" where
  "analyzeLifetimes symbols =
     \<lparr>lr_scopes = fold (\<lambda>g m. AList.update (lg_name g) (scopeOf symbols g) m) (st_lifetimeGroups symbols) [],
      lr_annotatedFunctions =
        fold (\<lambda>(name, func) l. if lifetimeAnnotated func then List.insert name l else l) (st_functions symbols) []\<rparr>"

section \<open>Priorities\<close>

fun priorityRank :: "PriorityLevel \<Rightarrow> nat" where
  "priorityRank Pri_Critical = 4"
| "priorityRank Pri_High = 3"
| "priorityRank Pri_Normal = 2"
| "priorityRank Pri_Low = 1"
| "priorityRank Pri_Background = 0"

type_synonym priorities = "PriorityLevel umap"

definition declaredPriorities :: "SymbolTable \<Rightarrow> priorities" where
  "declaredPriorities symbols =
     fold (\<lambda>(name, fn). AList.update name (fs_priority fn)) (st_functions symbols) []"

definition explicitlyAnnotated :: "SymbolTable \<Rightarrow> string list" where
  "explicitlyAnnotated symbols =
     fold (\<lambda>(name, fn) l. if fs_priority fn \<noteq> Pri_Normal then List.insert name l else l)
       (st_functions symbols) []"

text \<open>Calls by caller, the callee always under the prefix of its block.\<close>

definition addCall :: "string \<Rightarrow> string \<Rightarrow> string list umap \<Rightarrow> string list umap" where
  "addCall caller callee g =
     (case map_of g caller of
        Some cs \<Rightarrow> AList.update caller (cs @ [callee]) g
      | None \<Rightarrow> g @ [(caller, [callee])])"

definition callGraph :: "SymbolTable \<Rightarrow> string list umap" where
  "callGraph symbols =
     fold (\<lambda>(blockName, block) g.
       fold (\<lambda>callee g. if isAssignCall callee then g else addCall blockName (nsPrefixOf blockName @ callee) g)
         (lb_calledFunctions block) g)
       (st_logicBlocks symbols) []"

text \<open>\<open>m[k]\<close>: a missing key is inserted with the first enumerator.\<close>

definition priorityAt :: "string \<Rightarrow> priorities \<Rightarrow> PriorityLevel \<times> priorities" where
  "priorityAt k m =
     (case map_of m k of Some p \<Rightarrow> (p, m) | None \<Rightarrow> (Pri_Critical, m @ [(k, Pri_Critical)]))"

text \<open>One callee: the queue and the priorities.\<close>

definition inheritPriority ::
  "string list \<Rightarrow> PriorityLevel \<Rightarrow> string \<Rightarrow> string list \<times> priorities \<Rightarrow> string list \<times> priorities" where
  "inheritPriority explicit callerPri callee wm =
     (case wm of (worklist, m) \<Rightarrow>
      if callee \<in> set explicit then (worklist, m)
      else
        let currentPri = (case map_of m callee of Some p \<Rightarrow> p | None \<Rightarrow> Pri_Normal) in
        if priorityRank callerPri > priorityRank currentPri
        then (worklist @ [callee], AList.update callee callerPri m)
        else (worklist, m))"

definition propagateStep ::
  "string list \<Rightarrow> string list umap \<Rightarrow> string \<Rightarrow> string list \<Rightarrow> priorities \<Rightarrow> string list \<times> priorities" where
  "propagateStep explicit graph caller rest m =
     (case map_of graph caller of
        None \<Rightarrow> (rest, m)
      | Some callees \<Rightarrow>
          (case priorityAt caller m of (callerPri, m') \<Rightarrow>
             fold (inheritPriority explicit callerPri) callees (rest, m')))"

text \<open>
  What is left to raise among the callees, for the termination of the loop: a pop that raises
  nothing shortens the queue, any other lowers the sum.
\<close>

definition rankIn :: "priorities \<Rightarrow> string \<Rightarrow> nat" where
  "rankIn m x = priorityRank (case map_of m x of Some p \<Rightarrow> p | None \<Rightarrow> Pri_Normal)"

definition calleesOf :: "string list umap \<Rightarrow> string set" where
  "calleesOf graph = \<Union> (set ` snd ` set graph)"

definition potential :: "string list umap \<Rightarrow> priorities \<Rightarrow> nat" where
  "potential graph m = (\<Sum>x \<in> calleesOf graph. 4 - rankIn m x)"

lemma priorityRank_le [simp]: "priorityRank p \<le> 4"
  by (cases p) auto

lemma rankIn_le [simp]: "rankIn m x \<le> 4"
  by (simp add: rankIn_def)

lemma finite_callees [simp]: "finite (calleesOf graph)"
  by (auto simp: calleesOf_def)

lemma rankIn_update: "rankIn (AList.update k p m) x = (if x = k then priorityRank p else rankIn m x)"
  by (simp add: rankIn_def update_conv')

lemma inherit_potential:
  assumes "inheritPriority explicit p c (w, m) = (w', m')" and "c \<in> calleesOf graph"
  shows "potential graph m' < potential graph m \<or> w' = w \<and> m' = m"
proof (cases "c \<notin> set explicit \<and> rankIn m c < priorityRank p")
  case True
  then have m': "m' = AList.update c p m"
    using assms(1) by (simp add: inheritPriority_def rankIn_def Let_def)
  have "potential graph m' < potential graph m"
    unfolding potential_def
  proof (rule sum_strict_mono_ex1)
    show "\<forall>x \<in> calleesOf graph. 4 - rankIn m' x \<le> 4 - rankIn m x"
      using True by (auto simp: m' rankIn_update)
    have "4 - rankIn m' c < 4 - rankIn m c"
      using True priorityRank_le [of p] by (simp add: m' rankIn_update diff_less_mono2 del: priorityRank_le)
    with assms(2) show "\<exists>x \<in> calleesOf graph. 4 - rankIn m' x < 4 - rankIn m x" by blast
  qed simp
  then show ?thesis by simp
next
  case False
  with assms(1) show ?thesis by (auto simp: inheritPriority_def rankIn_def Let_def split: if_splits)
qed

lemma inherits_potential:
  "fold (inheritPriority explicit p) cs (w, m) = (w', m') \<Longrightarrow> set cs \<subseteq> calleesOf graph \<Longrightarrow>
   potential graph m' < potential graph m \<or> w' = w \<and> m' = m"
proof (induction cs arbitrary: w m)
  case (Cons c cs)
  obtain w1 m1 where 1: "inheritPriority explicit p c (w, m) = (w1, m1)" by fastforce
  with Cons inherit_potential [OF 1] show ?case by fastforce
qed simp

lemma priorityAt_potential: "potential graph (snd (priorityAt k m)) \<le> potential graph m"
  unfolding potential_def
  by (rule sum_mono) (auto simp: priorityAt_def rankIn_def map_of_append map_add_def split: option.splits)

lemma propagateStep_measure:
  assumes "propagateStep explicit graph caller rest m = (w', m')"
  shows "potential graph m' < potential graph m \<or> potential graph m' = potential graph m \<and> w' = rest"
proof (cases "map_of graph caller")
  case (Some callees)
  obtain p m1 where 1: "priorityAt caller m = (p, m1)" by fastforce
  have "callees \<in> snd ` set graph" using map_of_SomeD [OF Some] by force
  then have "set callees \<subseteq> calleesOf graph" by (auto simp: calleesOf_def)
  with assms Some 1 have "potential graph m' < potential graph m1 \<or> w' = rest \<and> m' = m1"
    by (intro inherits_potential [where explicit = explicit and p = p and cs = callees]) (auto simp: propagateStep_def)
  with 1 priorityAt_potential [of graph caller m] show ?thesis by auto
qed (use assms in \<open>simp add: propagateStep_def\<close>)

function (sequential) propagate :: "string list \<Rightarrow> string list umap \<Rightarrow> string list \<Rightarrow> priorities \<Rightarrow> priorities" where
  "propagate explicit graph [] m = m"
| "propagate explicit graph (caller # rest) m =
     (case propagateStep explicit graph caller rest m of (w, m') \<Rightarrow> propagate explicit graph w m')"
  by pat_completeness auto
termination
proof (relation "(\<lambda>(e, g, w, m). potential g m) <*mlex*> measure (\<lambda>(e, g, w, m). length w)", goal_cases)
  case (2 explicit graph caller rest m w m')
  then have "propagateStep explicit graph caller rest m = (w, m')" by simp
  with propagateStep_measure [OF this] show ?case by (auto simp: mlex_prod_def)
qed (simp add: wf_mlex)

definition analyzePriority :: "SymbolTable \<Rightarrow> priorities" where
  "analyzePriority symbols =
     (let m = declaredPriorities symbols;
          seeds = map fst (filter (\<lambda>(name, p). priorityRank p > priorityRank Pri_Normal) m)
      in propagate (explicitlyAnnotated symbols) (callGraph symbols) seeds m)"

end
