(* ===== verification/Priority_Laws.thy ===== *)
theory Priority_Laws
  imports Analysis
begin

text \<open>
  What the propagation of priorities computes: every unannotated function ends with the highest
  elevated priority that reaches it along calls through unannotated functions.
\<close>

inductive heir :: "string set \<Rightarrow> string list umap \<Rightarrow> string \<Rightarrow> string \<Rightarrow> bool" for explicit graph c where
  heir_self: "heir explicit graph c c"
| heir_call: "heir explicit graph c caller \<Longrightarrow> map_of graph caller = Some callees \<Longrightarrow>
    n \<in> set callees \<Longrightarrow> n \<notin> explicit \<Longrightarrow> heir explicit graph c n"

text \<open>The invariant of the worklist, with the caller whose calls are being visited left out.\<close>

definition settled :: "string list \<Rightarrow> string list umap \<Rightarrow> priorities \<Rightarrow> string \<Rightarrow> bool" where
  "settled explicit graph m a \<longleftrightarrow>
     (\<forall>callees n. map_of graph a = Some callees \<and> n \<in> set callees \<and> n \<notin> set explicit \<longrightarrow> rankIn m a \<le> rankIn m n)"

definition inherited :: "(string \<Rightarrow> nat) \<Rightarrow> string list \<Rightarrow> string list umap \<Rightarrow> priorities \<Rightarrow> string \<Rightarrow> bool" where
  "inherited d explicit graph m n \<longleftrightarrow>
     (\<exists>c. 2 < d c \<and> heir (set explicit) graph c n \<and> rankIn m n = d c)"

definition spreading ::
  "(string \<Rightarrow> nat) \<Rightarrow> string list \<Rightarrow> string list umap \<Rightarrow> string set \<Rightarrow> string list \<Rightarrow> priorities \<Rightarrow> bool" where
  "spreading d explicit graph busy w m \<longleftrightarrow>
     (\<forall>n \<in> set explicit. rankIn m n = d n) \<and>
     (\<forall>n. n \<notin> set explicit \<longrightarrow> rankIn m n = 2 \<or> inherited d explicit graph m n) \<and>
     (\<forall>a. 2 < rankIn m a \<longrightarrow> a \<in> set w \<union> busy \<or> settled explicit graph m a) \<and>
     (\<forall>a \<in> set w. map_of m a \<noteq> None \<and> 2 < rankIn m a)"

lemma inherit_cases:
  assumes "inheritPriority explicit p n (w, m) = (w', m')"
  shows "n \<notin> set explicit \<and> rankIn m n < priorityRank p \<and> w' = w @ [n] \<and> m' = AList.update n p m \<or>
    (n \<in> set explicit \<or> priorityRank p \<le> rankIn m n) \<and> w' = w \<and> m' = m"
  using assms by (auto simp: inheritPriority_def rankIn_def Let_def split: if_splits)

lemma inherit_spreading:
  assumes I: "spreading d explicit graph busy w m" and run: "inheritPriority explicit p n (w, m) = (w', m')"
    and c: "2 < d c" "heir (set explicit) graph c caller" "priorityRank p = d c"
    and call: "map_of graph caller = Some callees" "n \<in> set callees"
  shows "spreading d explicit graph busy w' m' \<and> (n \<notin> set explicit \<longrightarrow> priorityRank p \<le> rankIn m' n) \<and>
    (\<forall>a. rankIn m a \<le> rankIn m' a) \<and> (rankIn m b = priorityRank p \<longrightarrow> rankIn m' b = priorityRank p)"
  using inherit_cases [OF run]
proof
  assume raise: "n \<notin> set explicit \<and> rankIn m n < priorityRank p \<and> w' = w @ [n] \<and> m' = AList.update n p m"
  have up: "rankIn m' x = (if x = n then priorityRank p else rankIn m x)" for x
    using raise by (simp add: rankIn_update)
  have "settled explicit graph m' x" if "settled explicit graph m x" "x \<noteq> n" for x
    unfolding settled_def
  proof (intro allI impI)
    fix callees' y
    assume "map_of graph x = Some callees' \<and> y \<in> set callees' \<and> y \<notin> set explicit"
    with that(1) have "rankIn m x \<le> rankIn m y" unfolding settled_def by blast
    with that(2) raise show "rankIn m' x \<le> rankIn m' y" by (auto simp: rankIn_update)
  qed
  moreover have "inherited d explicit graph m' x" if "inherited d explicit graph m x \<or> x = n" for x
  proof (cases "x = n")
    case True
    have "heir (set explicit) graph c n" using heir_call [OF c(2) call] raise by simp
    with True c(1,3) up show ?thesis by (auto simp: inherited_def)
  next
    case False
    with that up show ?thesis by (auto simp: inherited_def)
  qed
  ultimately show ?thesis
    using I raise up c(1,3) unfolding spreading_def by (auto simp: update_conv')
qed (use I in auto)

lemma inherits_spreading:
  assumes c: "2 < d c" "heir (set explicit) graph c caller" "priorityRank p = d c" and call: "map_of graph caller = Some callees"
  shows "fold (inheritPriority explicit p) ns (w, m) = (w', m') \<Longrightarrow> set ns \<subseteq> set callees \<Longrightarrow>
    spreading d explicit graph busy w m \<Longrightarrow> rankIn m caller = priorityRank p \<Longrightarrow>
    spreading d explicit graph busy w' m' \<and> (\<forall>n \<in> set ns. n \<notin> set explicit \<longrightarrow> priorityRank p \<le> rankIn m' n) \<and>
    (\<forall>a. rankIn m a \<le> rankIn m' a) \<and> rankIn m' caller = priorityRank p"
proof (induction ns arbitrary: w m)
  case (Cons n ns)
  obtain w1 m1 where 1: "inheritPriority explicit p n (w, m) = (w1, m1)" by fastforce
  have "n \<in> set callees" using Cons.prems by simp
  from inherit_spreading [OF Cons.prems(3) 1 c call this, of caller] Cons.prems(4)
  have s: "spreading d explicit graph busy w1 m1" "n \<notin> set explicit \<longrightarrow> priorityRank p \<le> rankIn m1 n"
    "\<forall>a. rankIn m a \<le> rankIn m1 a" "rankIn m1 caller = priorityRank p" by auto
  from Cons.IH [OF _ _ s(1,4)] Cons.prems 1 have
    "spreading d explicit graph busy w' m'" "\<forall>n \<in> set ns. n \<notin> set explicit \<longrightarrow> priorityRank p \<le> rankIn m' n"
    "\<forall>a. rankIn m1 a \<le> rankIn m' a" "rankIn m' caller = priorityRank p" by auto
  with s show ?case by (auto intro: le_trans)
qed simp

lemma step_spreading:
  assumes I: "spreading d explicit graph {} (caller # rest) m"
    and run: "propagateStep explicit graph caller rest m = (w', m')"
  shows "spreading d explicit graph {} w' m'"
proof (cases "map_of graph caller")
  case None
  then have "settled explicit graph m caller" by (simp add: settled_def)
  with I run None show ?thesis by (auto simp: propagateStep_def spreading_def)
next
  case (Some callees)
  from I have up: "2 < rankIn m caller" by (simp add: spreading_def)
  from I obtain p where p: "map_of m caller = Some p" by (auto simp: spreading_def)
  then have pr: "rankIn m caller = priorityRank p" "priorityAt caller m = (p, m)"
    by (simp_all add: rankIn_def priorityAt_def)
  obtain c where c: "2 < d c" "heir (set explicit) graph c caller" "priorityRank p = d c"
  proof (cases "caller \<in> set explicit")
    case True
    with I up pr(1) show ?thesis by (intro that [of caller]) (simp_all add: spreading_def heir_self)
  next
    case False
    with I up have "inherited d explicit graph m caller" unfolding spreading_def by fastforce
    with pr(1) that show ?thesis by (auto simp: inherited_def)
  qed
  have "spreading d explicit graph {caller} rest m" using I by (auto simp: spreading_def)
  moreover have "fold (inheritPriority explicit p) callees (rest, m) = (w', m')"
    using run Some pr(2) by (simp add: propagateStep_def)
  ultimately have s: "spreading d explicit graph {caller} w' m'"
    "\<forall>n \<in> set callees. n \<notin> set explicit \<longrightarrow> priorityRank p \<le> rankIn m' n"
    "\<forall>a. rankIn m a \<le> rankIn m' a" "rankIn m' caller = priorityRank p"
    using inherits_spreading [where d = d and c = c and ns = callees and w = rest and m = m and busy = "{caller}", OF c Some] pr(1)
    by auto
  have "settled explicit graph m' caller" using s(2,4) Some by (auto simp: settled_def)
  with s(1) show ?thesis by (auto simp: spreading_def)
qed

lemma propagate_spreading:
  "spreading d explicit graph {} w m \<Longrightarrow> spreading d explicit graph {} [] (propagate explicit graph w m)"
proof (induction explicit graph w m rule: propagate.induct)
  case (2 explicit graph caller rest m)
  obtain w' m' where run: "propagateStep explicit graph caller rest m = (w', m')" by fastforce
  from 2(1) [OF run [symmetric]] step_spreading [OF 2(2) run] run show ?case by simp
qed simp

section \<open>The result\<close>

definition declaredPriority :: "SymbolTable \<Rightarrow> string \<Rightarrow> PriorityLevel" where
  "declaredPriority symbols n =
     (case findFunction n symbols of Some fn \<Rightarrow> fs_priority fn | None \<Rightarrow> Pri_Normal)"

lemma declared_map:
  "distinct (map fst fs) \<Longrightarrow>
   map_of (fold (\<lambda>(name, fn). AList.update name (fs_priority fn)) fs m) n =
     (case map_of fs n of Some fn \<Rightarrow> Some (fs_priority fn) | None \<Rightarrow> map_of m n)"
  by (induction fs arbitrary: m) (force simp: update_conv' split: option.splits)+

lemma declared_distinct:
  "distinct (map fst m) \<Longrightarrow> distinct (map fst (fold (\<lambda>(name, fn). AList.update name (fs_priority fn)) fs m))"
  by (induction fs arbitrary: m) (auto simp: distinct_update)

lemma explicit_set:
  "set (fold (\<lambda>(name, fn) l. if fs_priority fn \<noteq> Pri_Normal then List.insert name l else l) fs l) =
   set l \<union> {n. \<exists>fn. (n, fn) \<in> set fs \<and> fs_priority fn \<noteq> Pri_Normal}"
  by (induction fs arbitrary: l) (auto split: if_splits)

lemma rank_normal: "priorityRank p = 2 \<longleftrightarrow> p = Pri_Normal"
  by (cases p) auto

text \<open>C26: the effective priority of a function that carries a priority of its own is that priority.
  Every other function has the highest of normal and the elevated priorities declared by the
  functions it is reached from through calls whose callees carry no priority; so the result
  does not depend on the order in which the unordered maps are walked.\<close>

theorem priority_propagation:
  assumes "distinct (map fst (st_functions symbols))"
  defines "declaredRank \<equiv> \<lambda>f. priorityRank (declaredPriority symbols f)"
    and "explicit \<equiv> {f. declaredPriority symbols f \<noteq> Pri_Normal}"
  shows "rankIn (analyzePriority symbols) f =
    (if f \<in> explicit then declaredRank f
     else Max (insert 2 {declaredRank c |c. 2 < declaredRank c \<and> heir explicit (callGraph symbols) c f}))"
proof -
  let ?m = "declaredPriorities symbols"
  let ?E = "explicitlyAnnotated symbols" and ?g = "callGraph symbols"
  let ?r = "analyzePriority symbols"
  have m: "map_of ?m n = map_option fs_priority (map_of (st_functions symbols) n)" for n
    using declared_map [OF assms(1), of "[]" n] by (simp add: declaredPriorities_def split: option.splits)
  have d: "rankIn ?m n = declaredRank n" for n
    by (simp add: m rankIn_def declaredRank_def declaredPriority_def findFunction_def split: option.splits)
  have E: "set ?E = explicit"
    using map_of_is_SomeI [OF assms(1)]
    by (auto simp: explicitlyAnnotated_def explicit_set explicit_def declaredPriority_def findFunction_def
        dest: map_of_SomeD split: option.splits)
  define seeds where "seeds = map fst (filter (\<lambda>(name, p). priorityRank p > priorityRank Pri_Normal) ?m)"
  have dm: "distinct (map fst ?m)" by (simp add: declaredPriorities_def declared_distinct)
  have "a \<in> set seeds \<longleftrightarrow> 2 < rankIn ?m a" for a
  proof -
    have "a \<in> set seeds \<longleftrightarrow> (\<exists>p. (a, p) \<in> set ?m \<and> 2 < priorityRank p)" by (force simp: seeds_def)
    moreover have "(a, p) \<in> set ?m \<longleftrightarrow> map_of ?m a = Some p" for p
      using dm by (simp add: map_of_eq_Some_iff)
    ultimately show ?thesis by (cases "map_of ?m a") (auto simp: rankIn_def)
  qed
  then have "spreading declaredRank ?E ?g {} seeds ?m"
    unfolding spreading_def E
  proof (intro conjI allI ballI impI)
    show "rankIn ?m n = 2 \<or> inherited declaredRank ?E ?g ?m n" if "n \<notin> explicit" for n
      using that by (simp add: d declaredRank_def explicit_def)
    show "map_of ?m a \<noteq> None" if "a \<in> set seeds" for a
      using that \<open>\<And>a. a \<in> set seeds \<longleftrightarrow> 2 < rankIn ?m a\<close> [of a]
      by (cases "map_of ?m a") (simp_all add: rankIn_def)
  qed (use \<open>\<And>a. a \<in> set seeds \<longleftrightarrow> 2 < rankIn ?m a\<close> in \<open>simp_all add: d\<close>)
  then have fin: "spreading declaredRank ?E ?g {} [] ?r"
    using propagate_spreading by (simp add: analyzePriority_def seeds_def Let_def)
  show ?thesis
  proof (cases "f \<in> explicit")
    case True
    with fin E show ?thesis by (auto simp: spreading_def)
  next
    case False
    let ?R = "{declaredRank c |c. 2 < declaredRank c \<and> heir explicit ?g c f}"
    have low: "declaredRank c \<le> rankIn ?r n" if "heir explicit ?g c n" "2 < declaredRank c" for c n
      using that(1)
    proof (induction rule: heir.induct)
      case heir_self
      have "c \<in> explicit" using that(2) by (auto simp: declaredRank_def explicit_def)
      with fin E show ?case by (simp add: spreading_def)
    next
      case (heir_call caller callees n)
      with that(2) fin have "settled ?E ?g ?r caller" by (auto simp: spreading_def)
      with heir_call E have "rankIn ?r caller \<le> rankIn ?r n" by (auto simp: settled_def)
      with heir_call show ?case by simp
    qed
    have "rankIn ?r f = 2 \<or> rankIn ?r f \<in> ?R"
      using fin False E by (fastforce simp: spreading_def inherited_def)
    moreover have "2 \<le> rankIn ?r f"
      using calculation by auto
    moreover have "finite ?R" by (rule finite_subset [of _ "{..4}"]) (auto simp: declaredRank_def)
    ultimately have "Max (insert 2 ?R) = rankIn ?r f"
      using low by (intro Max_eqI) auto
    with False show ?thesis by simp
  qed
qed


text \<open>A critical entry point hands its priority to the function its block calls.\<close>

abbreviation entryTable :: SymbolTable where
  "entryTable \<equiv>
     (let fn = \<lambda>n p. (n, functionSymbol n Vis_Public (node_at default_loc) (empty_fn\<lparr>fd_priority := p\<rparr>) False);
          block = \<lparr>lb_qualifiedName = ''a::main'', lb_simpleName = ''main'', lb_location = default_loc,
             lb_calledFunctions = [''step''], lb_stages = [0], lb_isPipeline = False, lb_isFlow = False,
             lb_edges = [], lb_pipelineAnalysis = None\<rparr>
      in empty_table\<lparr>st_functions := [fn ''a::main'' Pri_Critical, fn ''a::step'' Pri_Normal],
           st_logicBlocks := [(''a::main'', block)]\<rparr>)"

theorem priority_propagation_witness:
  "rankIn (analyzePriority entryTable) ''a::main'' = 4 \<and> rankIn (analyzePriority entryTable) ''a::step'' = 4"
proof -
  have d: "distinct (map fst (st_functions entryTable))" by code_simp
  have p: "declaredPriority entryTable ''a::main'' = Pri_Critical" "declaredPriority entryTable ''a::step'' = Pri_Normal"
    "map_of (callGraph entryTable) ''a::main'' = Some [''a::step'']" by code_simp+
  let ?E = "{f. declaredPriority entryTable f \<noteq> Pri_Normal}"
  have "heir ?E (callGraph entryTable) ''a::main'' ''a::step''"
    by (rule heir_call [OF heir_self p(3)]) (use p(2) in simp_all)
  then have m: "4 \<in> {priorityRank (declaredPriority entryTable c) |c.
      2 < priorityRank (declaredPriority entryTable c) \<and> heir ?E (callGraph entryTable) c ''a::step''}"
    using p(1) by force
  have "Max (insert 2 {priorityRank (declaredPriority entryTable c) |c.
      2 < priorityRank (declaredPriority entryTable c) \<and> heir ?E (callGraph entryTable) c ''a::step''}) = 4"
    by (rule Max_eqI) (use m in \<open>auto intro: finite_subset [of _ "{..4}"]\<close>)
  with priority_propagation [OF d, of "''a::main''"] priority_propagation [OF d, of "''a::step''"] p
  show ?thesis by simp
qed

end
