(* ===== verification/ParserCore.thy ===== *)
theory ParserCore
  imports TokenStream AST "HOL-Library.State_Monad"
begin

text \<open>
  The machinery of the recursive descent parser (\<open>lib/Parser/Parser.cpp\<close> and
  \<open>include/topo/Parser/Parser.h\<close>): the parser's state, its token window, error reports, error
  recovery, the loops, and the small parsers that the grammar functions share.

  A member function of the parser is a value of the state monad.  The parser and its lexer
  report to one engine (every caller constructs both with the same one), so the engine is the
  lexer's.  Recursion and loops run on fuel that is taken from what is left to read; a parser
  that ran out of it would raise \<open>ps_stuck\<close>, and \<open>ParserProgress\<close> shows that none does.
\<close>

section \<open>State\<close>

record ParserState =
  ps_lexer :: Lexer
  ps_current :: Token
  ps_lookahead :: "Token option"
  ps_recursionDepth :: nat
  ps_pending :: "Token list"
  ps_stuck :: bool

type_synonym 'a parser = "(ParserState, 'a) state"

abbreviation return :: "'a \<Rightarrow> 'a parser" where
  "return \<equiv> State_Monad.return"

definition reads :: "(ParserState \<Rightarrow> 'a) \<Rightarrow> 'a parser" where
  "reads f = State (\<lambda>s. (f s, s))"

definition modify :: "(ParserState \<Rightarrow> ParserState) \<Rightarrow> unit parser" where
  "modify f = State (\<lambda>s. ((), f s))"

definition ps_diag :: "ParserState \<Rightarrow> DiagnosticEngine" where
  "ps_diag s = lx_diag (ps_lexer s)"

definition kMaxRecursionDepth :: nat where
  "kMaxRecursionDepth = 256"

text \<open>The constructor reads the first token.\<close>

definition parser_init :: "Lexer \<Rightarrow> ParserState" where
  "parser_init lexer =
     (case nextToken lexer of (t, lexer') \<Rightarrow>
       \<lparr>ps_lexer = lexer', ps_current = t, ps_lookahead = None, ps_recursionDepth = 0,
        ps_pending = [], ps_stuck = False\<rparr>)"

section \<open>Tokens\<close>

definition peek_token :: "Token parser" where
  "peek_token = reads ps_current"

definition kind :: "TokenKind parser" where
  "kind = reads (\<lambda>s. tk_kind (ps_current s))"

definition location :: "SourceLocation parser" where
  "location = reads (\<lambda>s. tk_location (ps_current s))"

text \<open>
  The next token: from the replay buffer, whose head here is the back of the code's vector,
  or from the lexer.
\<close>

definition fetch :: "ParserState \<Rightarrow> Token \<times> ParserState" where
  "fetch s =
     (case ps_pending s of
        t # ts \<Rightarrow> (t, s\<lparr>ps_pending := ts\<rparr>)
      | [] \<Rightarrow> (case nextToken (ps_lexer s) of (t, lexer') \<Rightarrow> (t, s\<lparr>ps_lexer := lexer'\<rparr>)))"

definition peekNext_token :: "Token parser" where
  "peekNext_token = State (\<lambda>s.
     (case ps_lookahead s of
        Some t \<Rightarrow> (t, s)
      | None \<Rightarrow> (case fetch s of (t, s') \<Rightarrow> (t, s'\<lparr>ps_lookahead := Some t\<rparr>))))"

definition advance_token :: "Token parser" where
  "advance_token = State (\<lambda>s.
     (ps_current s,
      case ps_lookahead s of
        Some t \<Rightarrow> s\<lparr>ps_current := t, ps_lookahead := None\<rparr>
      | None \<Rightarrow> (case fetch s of (t, s') \<Rightarrow> s'\<lparr>ps_current := t\<rparr>)))"

definition check :: "TokenKind \<Rightarrow> bool parser" where
  "check k = reads (\<lambda>s. tk_kind (ps_current s) = k)"

definition match :: "TokenKind \<Rightarrow> bool parser" where
  "match k = do { b \<leftarrow> check k; if b then do { advance_token; return True } else return False }"

definition error :: "SourceLocation \<Rightarrow> string \<Rightarrow> unit parser" where
  "error loc msg =
     modify (\<lambda>s. s\<lparr>ps_lexer := (ps_lexer s)\<lparr>lx_diag := diag_error loc msg [] (ps_diag s)\<rparr>\<rparr>)"

definition warning :: "SourceLocation \<Rightarrow> string \<Rightarrow> unit parser" where
  "warning loc msg =
     modify (\<lambda>s. s\<lparr>ps_lexer := (ps_lexer s)\<lparr>lx_diag := diag_warning loc msg [] (ps_diag s)\<rparr>\<rparr>)"

definition errorHere :: "string \<Rightarrow> unit parser" where
  "errorHere msg = do { loc \<leftarrow> location; error loc msg }"

definition expect :: "TokenKind \<Rightarrow> string \<Rightarrow> Token parser" where
  "expect k msg =
     do { b \<leftarrow> check k; if b then advance_token else do { errorHere msg; peek_token } }"

text \<open>Conjunctions of tests, the second test only when the first holds; tests on the text.\<close>

definition both :: "bool parser \<Rightarrow> bool parser \<Rightarrow> bool parser" where
  "both p q = do { b \<leftarrow> p; if b then q else return False }"

definition checkText :: "string \<Rightarrow> bool parser" where
  "checkText txt = reads (\<lambda>s. tk_kind (ps_current s) = Identifier \<and> tk_text (ps_current s) = txt)"

definition nextIs :: "TokenKind \<Rightarrow> bool parser" where
  "nextIs k = do { t \<leftarrow> peekNext_token; return (tk_kind t = k) }"

definition checkNext :: "TokenKind \<Rightarrow> TokenKind \<Rightarrow> bool parser" where
  "checkNext k k' = both (check k) (nextIs k')"

text \<open>Token kinds run as their values, so that the parser runs.\<close>

definition kindOfValue :: "nat \<Rightarrow> TokenKind" where
  "kindOfValue n = tokenKinds ! n"

lemma kindOfValue_value [code abstype]: "kindOfValue (tokenKindValue k) = k"
  by (simp add: kindOfValue_def tokenKinds_nth)

lemmas kind_code [code abstract] = tokenKindValue.simps

section \<open>Loops\<close>

text \<open>
  What is left to do: the tokens in the window and the characters in the lexer, a \<open>>>\<close>
  counting as the two tokens it can be split into, and the error reports the engine still takes.
\<close>

definition tokenWeight :: "Token \<Rightarrow> nat" where
  "tokenWeight t = (if tk_kind t = Eof then 0 else if tk_kind t = ShiftRight then 2 else 1)"

definition tokensLeft :: "ParserState \<Rightarrow> nat" where
  "tokensLeft s =
     tokenWeight (ps_current s) +
     (case ps_lookahead s of None \<Rightarrow> 0 | Some t \<Rightarrow> tokenWeight t) +
     sum_list (map tokenWeight (ps_pending s)) +
     2 * lexer_remaining (ps_lexer s)"

definition budget :: "ParserState \<Rightarrow> nat" where
  "budget s = tokensLeft s + nat (kMaxErrors - errorCount (ps_diag s))"

definition outOfFuel :: "'a \<Rightarrow> 'a parser" where
  "outOfFuel x = do { modify (\<lambda>s. s\<lparr>ps_stuck := True\<rparr>); return x }"

text \<open>One round of a loop goes on or leaves.\<close>

datatype 'a round = Continue 'a | Break 'a

fun rounds :: "nat \<Rightarrow> ('a \<Rightarrow> 'a round parser) \<Rightarrow> 'a \<Rightarrow> 'a parser" where
  "rounds 0 body x = outOfFuel x"
| "rounds (Suc n) body x =
     do { r \<leftarrow> body x; case r of Continue y \<Rightarrow> rounds n body y | Break y \<Rightarrow> return y }"

definition loop :: "('a \<Rightarrow> 'a round parser) \<Rightarrow> 'a \<Rightarrow> 'a parser" where
  "loop body x = do { n \<leftarrow> reads budget; rounds (Suc n) body x }"

text \<open>\<open>if (current_.location == loopLoc) advance();\<close>\<close>

definition unstall :: "SourceLocation \<Rightarrow> unit parser" where
  "unstall loc =
     do { loc' \<leftarrow> location;
          if loc_equal loc' loc then do { advance_token; return () } else return () }"

text \<open>
  \<open>while (!check(stop) && !check(Eof) && !diag_.reachedLimit())\<close>, with and without the test
  that a round has moved.
\<close>

definition going :: "(TokenKind \<Rightarrow> bool) \<Rightarrow> bool parser" where
  "going stops =
     reads (\<lambda>s. \<not> stops (tk_kind (ps_current s)) \<and> tk_kind (ps_current s) \<noteq> Eof \<and>
       \<not> reachedLimit (ps_diag s))"

definition untilRound :: "(TokenKind \<Rightarrow> bool) \<Rightarrow> ('a \<Rightarrow> 'a parser) \<Rightarrow> 'a \<Rightarrow> 'a parser" where
  "untilRound stops body =
     loop (\<lambda>x. do { b \<leftarrow> going stops;
                    if b then do { y \<leftarrow> body x; return (Continue y) } else return (Break x) })"

definition moving :: "'a parser \<Rightarrow> 'a parser" where
  "moving p = do { loopLoc \<leftarrow> location; x \<leftarrow> p; unstall loopLoc; return x }"

definition untilKind :: "(TokenKind \<Rightarrow> bool) \<Rightarrow> ('a \<Rightarrow> 'a parser) \<Rightarrow> 'a \<Rightarrow> 'a parser" where
  "untilKind stops body =
     untilRound stops (\<lambda>x. moving (body x))"

text \<open>\<open>do { ... } while (match(k));\<close> and \<open>while (match(k)) { ... }\<close>\<close>

definition sepBy :: "TokenKind \<Rightarrow> ('a \<Rightarrow> 'a parser) \<Rightarrow> 'a \<Rightarrow> 'a parser" where
  "sepBy k body =
     loop (\<lambda>x. do { y \<leftarrow> body x; b \<leftarrow> match k; return (if b then Continue y else Break y) })"

definition whileMatch :: "TokenKind \<Rightarrow> ('a \<Rightarrow> 'a parser) \<Rightarrow> 'a \<Rightarrow> 'a parser" where
  "whileMatch k body =
     loop (\<lambda>x. do { b \<leftarrow> match k;
                    if b then do { y \<leftarrow> body x; return (Continue y) } else return (Break x) })"

text \<open>A round that adds an element to a list.\<close>

definition adding :: "'a parser \<Rightarrow> 'a list \<Rightarrow> 'a list parser" where
  "adding p xs = do { x \<leftarrow> p; return (xs @ [x]) }"

definition addingOpt :: "'a option parser \<Rightarrow> 'a list \<Rightarrow> 'a list parser" where
  "addingOpt p xs =
     do { x \<leftarrow> p; return (case x of Some y \<Rightarrow> xs @ [y] | None \<Rightarrow> xs) }"

text \<open>\<open>RecursionGuard\<close>: the depth counts one more inside, unless that exceeds the limit.\<close>

definition guarded :: "'a parser \<Rightarrow> 'a parser \<Rightarrow> 'a parser" where
  "guarded exceeded body =
     do {
       depth \<leftarrow> reads ps_recursionDepth;
       if Suc depth > kMaxRecursionDepth then
         do { errorHere ''maximum recursion depth exceeded''; exceeded }
       else
         do {
           modify (\<lambda>s. s\<lparr>ps_recursionDepth := ps_recursionDepth s + 1\<rparr>);
           x \<leftarrow> body;
           modify (\<lambda>s. s\<lparr>ps_recursionDepth := ps_recursionDepth s - 1\<rparr>);
           return x } }"

section \<open>Error recovery\<close>

definition isVisibilityKeyword :: "TokenKind \<Rightarrow> bool" where
  "isVisibilityKeyword k \<longleftrightarrow>
     k = KW_public \<or> k = KW_protected \<or> k = KW_private \<or> k = KW_internal \<or> k = KW_ignore"

definition synchronizesAt :: "TokenKind \<Rightarrow> bool" where
  "synchronizesAt k \<longleftrightarrow>
     isVisibilityKeyword k \<or>
     k \<in> {KW_fn, KW_handler, KW_flow, KW_namespace, KW_using, KW_import, KW_class, KW_type,
          KW_constraint, KW_adapt, KW_instantiate, KW_priority}"

text \<open>
  The tail of the source, which forces progress when the loop has not moved and is not at the
  end of the file, is out of reach: the loop is left by returning or at the end of the file.
\<close>

definition synchronize :: "unit parser" where
  "synchronize =
     loop (\<lambda>_. do {
       k \<leftarrow> kind;
       if k = Eof then return (Break ())
       else if k = Semicolon then do { advance_token; return (Break ()) }
       else if k = RCurly \<or> synchronizesAt k then return (Break ())
       else do { advance_token; return (Continue ()) } }) ()"

end
