(* ===== verification/ParseParts.thy ===== *)
theory ParseParts
  imports ParserCore
begin

text \<open>
  The parsers that do not recurse (\<open>lib/Parser/Parser.cpp\<close>): numbers, modifiers, names,
  priorities, hints, return clauses, pipeline edges.
\<close>

section \<open>Numbers\<close>

text \<open>\<open>std::from_chars\<close> on a whole text: an optional minus, digits, and a value in range.\<close>

definition fromChars :: "int \<Rightarrow> int \<Rightarrow> string \<Rightarrow> int option" where
  "fromChars lo hi text =
     (let digits = (if text \<noteq> [] \<and> hd text = CHR ''-'' then tl text else text);
          value = (if digits = text then int (digits_value 0 digits) else - int (digits_value 0 digits))
      in if digits \<noteq> [] \<and> list_all isdigit digits \<and> lo \<le> value \<and> value \<le> hi
         then Some value else None)"

definition tryParseNonNegativeInt :: "string \<Rightarrow> int option" where
  "tryParseNonNegativeInt text =
     (case fromChars (- (2 ^ 31)) (2 ^ 31 - 1) text of
        Some v \<Rightarrow> if v < 0 then None else Some v
      | None \<Rightarrow> None)"

definition tryParseInt64 :: "string \<Rightarrow> int option" where
  "tryParseInt64 text = fromChars (- (2 ^ 63)) (2 ^ 63 - 1) text"

section \<open>Modifiers\<close>

definition modifierOf :: "TokenKind \<Rightarrow> ModifierKind option" where
  "modifierOf k =
     (if k = KW_static then Some MK_Static
      else if k = KW_explicit then Some MK_Explicit
      else if k = KW_comptime then Some MK_Comptime
      else if k = KW_external then Some MK_External
      else None)"

definition mkModifier :: "ModifierKind \<Rightarrow> SourceLocation \<Rightarrow> string list \<Rightarrow> ModifierData" where
  "mkModifier k loc as = \<lparr>md_kind = k, md_location = loc, md_args = as\<rparr>"

definition collectModifiers :: "ModifierData list parser" where
  "collectModifiers =
     loop (\<lambda>mods. do {
       limit \<leftarrow> reads (\<lambda>s. reachedLimit (ps_diag s));
       if limit then return (Break mods)
       else do {
         t \<leftarrow> peek_token;
         case modifierOf (tk_kind t) of
           None \<Rightarrow> return (Break mods)
         | Some m \<Rightarrow>
             do { advance_token; return (Continue (mods @ [mkModifier m (tk_location t) []])) } } }) []"

section \<open>Names\<close>

definition stdlibTokenTypeId :: "TokenKind \<Rightarrow> TypeId" where
  "stdlibTokenTypeId k =
     (case map_of
        [(KW_bool, TId_Bool), (KW_i64, TId_I64), (KW_f64, TId_F64), (KW_string, TId_String),
         (KW_optional, TId_Optional), (KW_slice, TId_Slice), (KW_bytes, TId_Bytes),
         (KW_u8, TId_U8), (KW_i32, TId_I32), (KW_u32, TId_U32), (KW_u64, TId_U64),
         (KW_f32, TId_F32), (KW_i8, TId_I8), (KW_i16, TId_I16), (KW_u16, TId_U16),
         (KW_time_ns, TId_TimeNs), (KW_uuid, TId_Uuid), (KW_decimal128, TId_Decimal128),
         (KW_record, TId_Record), (KW_array, TId_Array), (KW_union, TId_Union)] k of
        Some i \<Rightarrow> i | None \<Rightarrow> TId_None)"

definition isStdlibTypeToken :: "TokenKind \<Rightarrow> bool" where
  "isStdlibTypeToken k \<longleftrightarrow> stdlibTokenTypeId k \<noteq> TId_None"

definition isTypeStart :: "TokenKind \<Rightarrow> bool" where
  "isTypeStart k \<longleftrightarrow>
     k \<in> {KW_void, KW_const, KW_owned, KW_shared, KW_weak, Identifier, KW_typename,
          KW_bool, KW_i64, KW_f64, KW_string, KW_optional, KW_slice, KW_bytes,
          KW_u8, KW_i32, KW_u32, KW_u64, KW_f32, KW_i8, KW_i16, KW_u16, KW_time_ns,
          KW_uuid, KW_decimal128, KW_record, KW_array, KW_union}"

definition isNamespaceIdentifier :: "TokenKind \<Rightarrow> bool" where
  "isNamespaceIdentifier k \<longleftrightarrow> k = Identifier \<or> k = KW_internal"

definition expectNamespaceIdentifier :: "string \<Rightarrow> Token parser" where
  "expectNamespaceIdentifier msg =
     do { k \<leftarrow> kind;
          if isNamespaceIdentifier k then advance_token else do { errorHere msg; peek_token } }"

text \<open>The keywords that may stand inside a qualified name.\<close>

definition isNamePart :: "TokenKind \<Rightarrow> bool" where
  "isNamePart k \<longleftrightarrow> k = Identifier \<or> k = KW_void \<or> k = KW_import \<or> isStdlibTypeToken k"

definition parseQualifiedName :: "string list parser" where
  "parseQualifiedName =
     do {
       first \<leftarrow> advance_token;
       whileMatch ColonColon (\<lambda>parts. do {
         k \<leftarrow> kind;
         part \<leftarrow> if isNamePart k then advance_token
                 else expect Identifier (''expected identifier after '' @ quoted ''::'');
         return (parts @ [tk_text part]) }) [tk_text first] }"

definition parseQualifiedNameString :: "string parser" where
  "parseQualifiedNameString = do { parts \<leftarrow> parseQualifiedName; return (join ''::'' parts) }"

text \<open>
  \<open>while (check(sep) && peekNext().is(Identifier)) { advance(); name += sep; name += advance().text; }\<close>
\<close>

definition nameTail :: "TokenKind \<Rightarrow> string \<Rightarrow> string \<Rightarrow> string parser" where
  "nameTail sep sepText =
     loop (\<lambda>name. do {
       more_parts \<leftarrow> checkNext sep Identifier;
       if more_parts then do {
         advance_token;
         part \<leftarrow> advance_token;
         return (Continue (name @ sepText @ tk_text part)) }
       else return (Break name) })"

definition parseFuncName :: "string parser" where
  "parseFuncName =
     do { first \<leftarrow> expect Identifier ''expected function name'';
          nameTail Dot ''.'' (tk_text first) }"

definition parseQualifiedFuncRef :: "string parser" where
  "parseQualifiedFuncRef =
     do { first \<leftarrow> expect Identifier ''expected function name'';
          nameTail ColonColon ''::'' (tk_text first) }"

section \<open>Priorities and hints\<close>

definition priorityLevelOf :: "string \<Rightarrow> PriorityLevel option" where
  "priorityLevelOf text =
     (if text = ''critical'' then Some Pri_Critical
      else if text = ''high'' then Some Pri_High
      else if text = ''normal'' then Some Pri_Normal
      else if text = ''low'' then Some Pri_Low
      else if text = ''background'' then Some Pri_Background
      else None)"

definition parsePriorityLevel :: "PriorityLevel parser" where
  "parsePriorityLevel =
     do {
       advance_token;
       expect LParen (''expected '(' after '' @ quoted ''priority'');
       levelTok \<leftarrow> expect Identifier ''expected priority level name'';
       level \<leftarrow> (case priorityLevelOf (tk_text levelTok) of
           Some l \<Rightarrow> return l
         | None \<Rightarrow>
             do { error (tk_location levelTok)
                    (''unknown priority level '' @ quoted (tk_text levelTok) @
                     ''; expected critical, high, normal, low, or background'');
                  return Pri_Normal });
       expect RParen ''expected ')' after priority level'';
       expect Colon ''expected ':' after priority section header'';
       return level }"

text \<open>A product of two 64-bit integers as the machine wraps it.\<close>

definition wrap64 :: "int \<Rightarrow> int" where
  "wrap64 v = (v + 2 ^ 63) mod 2 ^ 64 - 2 ^ 63"

definition parseCardinalityValue :: "int parser" where
  "parseCardinalityValue =
     do {
       tok \<leftarrow> expect IntegerLiteral ''expected cardinality value'';
       v \<leftarrow> (case tryParseInt64 (tk_text tok) of
           Some v \<Rightarrow> return v
         | None \<Rightarrow>
             do { error (tk_location tok)
                    (''invalid cardinality integer literal '' @ quoted (tk_text tok));
                  return 0 });
       suffix \<leftarrow> peek_token;
       if tk_kind suffix = Identifier \<and> tk_text suffix \<in> {''k'', ''K''} then
         do { advance_token; return (wrap64 (v * 1000)) }
       else if tk_kind suffix = Identifier \<and> tk_text suffix \<in> {''M'', ''m''} then
         do { advance_token; return (wrap64 (v * 1000000)) }
       else return v }"

definition accessPatternOf :: "string \<Rightarrow> AccessPattern option" where
  "accessPatternOf text =
     (if text = ''streaming'' then Some Acc_Streaming
      else if text = ''random'' then Some Acc_Random
      else if text = ''tiled'' then Some Acc_Tiled
      else if text = ''gather_scatter'' then Some Acc_GatherScatter
      else None)"

definition parseTileSize :: "int parser" where
  "parseTileSize =
     do {
       sizeTok \<leftarrow> expect IntegerLiteral (''expected tile size after '' @ quoted ''tiled,'');
       case tryParseNonNegativeInt (tk_text sizeTok) of
         Some v \<Rightarrow>
           if v > 0 then return v
           else do { error (tk_location sizeTok)
                       (''tile size must be a positive integer (got '' @ quoted (tk_text sizeTok) @ '')'');
                     return 0 }
       | None \<Rightarrow>
           do { error (tk_location sizeTok)
                  (''tile size must be a positive integer (got '' @ quoted (tk_text sizeTok) @ '')'');
                return 0 } }"

definition parseAccessPattern :: "(AccessPattern \<times> int) parser" where
  "parseAccessPattern =
     do {
       modeTok \<leftarrow> expect Identifier ''expected access pattern name'';
       pattern \<leftarrow> (case accessPatternOf (tk_text modeTok) of
           Some p \<Rightarrow> return p
         | None \<Rightarrow>
             do { error (tk_location modeTok)
                    (''unknown access pattern '' @ quoted (tk_text modeTok) @
                     ''; expected streaming, random, tiled, or gather_scatter'');
                  return Acc_None });
       tiled \<leftarrow> both (return (pattern = Acc_Tiled)) (match Comma);
       tiledSize \<leftarrow> if tiled then parseTileSize else return 0;
       return (pattern, tiledSize) }"

definition isHintName :: "string \<Rightarrow> bool" where
  "isHintName text \<longleftrightarrow> text = ''cardinality'' \<or> text = ''access''"

definition hintNext :: "TokenKind \<Rightarrow> bool parser" where
  "hintNext k =
     both (check k) (do { t \<leftarrow> peekNext_token; return (tk_kind t = Identifier \<and> isHintName (tk_text t)) })"

definition parseCardinalityHint :: "CardinalityHint parser" where
  "parseCardinalityHint =
     do {
       expect LParen (''expected '(' after '' @ quoted ''cardinality'');
       lo \<leftarrow> parseCardinalityValue;
       dots \<leftarrow> match DotDot;
       hi \<leftarrow> if dots then
               do { b \<leftarrow> check IntegerLiteral; if b then parseCardinalityValue else return (- 1) }
             else return lo;
       expect RParen ''expected ')' after cardinality'';
       return \<lparr>ch_min = lo, ch_max = hi\<rparr> }"

definition parseHints :: "FnDecl \<Rightarrow> FnDecl parser" where
  "parseHints =
     loop (\<lambda>decl. do {
       t \<leftarrow> peek_token;
       limit \<leftarrow> reads (\<lambda>s. reachedLimit (ps_diag s));
       if tk_kind t = Identifier \<and> isHintName (tk_text t) \<and> \<not> limit then
         do {
           hintTok \<leftarrow> advance_token;
           decl' \<leftarrow>
             (if tk_text hintTok = ''cardinality'' then
                do { hint \<leftarrow> parseCardinalityHint; return (decl\<lparr>fd_cardinality := Some hint\<rparr>) }
              else
                do {
                  expect LParen (''expected '(' after '' @ quoted ''access'');
                  p \<leftarrow> parseAccessPattern;
                  expect RParen ''expected ')' after access pattern'';
                  return (decl\<lparr>fd_accessPattern := fst p, fd_tiledSize := snd p\<rparr>) });
           follows \<leftarrow> hintNext Comma;
           if follows then do { advance_token; return (Continue decl') } else return (Break decl') }
       else return (Break decl) })"

section \<open>Returns and pipeline edges\<close>

text \<open>
  The state of the loop of \<open>parseUsedReturnsClause\<close>: the names in order, which are also the
  ones seen, and the number of items.
\<close>

definition parseUsedReturnsClause :: "(string list \<times> nat) parser" where
  "parseUsedReturnsClause =
     do {
       withLoc \<leftarrow> location;
       advance_token;
       isReturns \<leftarrow> checkText ''returns'';
       if \<not> isReturns then do { errorHere (''expected 'returns' after '' @ quoted ''with''); return ([], 0) }
       else do {
         advance_token;
         expect LParen (''expected '(' after '' @ quoted ''with returns'');
         closed \<leftarrow> check RParen;
         r \<leftarrow> if closed then return ([], 0)
              else loop (\<lambda>(names, count). do {
                b \<leftarrow> check Identifier;
                if \<not> b then
                  do { errorHere (''expected return parameter name or '_' in '' @ quoted ''with returns(...)'');
                       return (Break (names, count)) }
                else do {
                  tok \<leftarrow> advance_token;
                  names' \<leftarrow>
                    (if tk_text tok = ''_'' then return names
                     else do {
                       (if tk_text tok \<in> set names
                        then error (tk_location tok)
                          (quoted ''with returns(...)'' @ '' lists '' @ quoted (tk_text tok) @ '' more than once'')
                        else return ());
                       return (names @ [tk_text tok]) });
                  again \<leftarrow> match Comma;
                  return (if again then Continue (names', count + 1) else Break (names', count + 1)) } })
              ([], 0);
         expect RParen (''expected ')' after '' @ quoted ''with returns(...)'');
         (if snd r = 0
          then error withLoc (quoted ''with returns()'' @ '' must name at least one return parameter '' @
                 ''or '_'; omit the clause entirely if all fields are observable'')
          else return ());
         return r } }"

definition parseReturnTarget :: "ReturnTarget parser" where
  "parseReturnTarget =
     do {
       tok \<leftarrow> expect Identifier ''expected identifier in return binding'';
       return \<lparr>rt_name = tk_text tok, rt_isDiscard = (tk_text tok = ''_'')\<rparr> }"

definition parseReturnBinding :: "ReturnBinding parser" where
  "parseReturnBinding =
     do {
       loc \<leftarrow> location;
       paren \<leftarrow> check LParen;
       if paren then
         do {
           advance_token;
           closed \<leftarrow> check RParen;
           targets \<leftarrow> if closed then return [] else sepBy Comma (adding parseReturnTarget) [];
           expect RParen ''expected ')' after return binding'';
           return \<lparr>rb_isSingleValue = False, rb_singleName = [], rb_targets = targets, rb_loc = loc\<rparr> }
       else
         do {
           tok \<leftarrow> expect Identifier ''expected identifier after '->' in return binding'';
           return \<lparr>rb_isSingleValue = True, rb_singleName = tk_text tok, rb_targets = [], rb_loc = loc\<rparr> } }"

definition mkEdge :: "SourceLocation \<Rightarrow> string \<Rightarrow> string \<Rightarrow> string option \<Rightarrow> PipelineEdge" where
  "mkEdge loc src target terminal =
     \<lparr>pe_source = src, pe_target = target,
      pe_terminalType = (case terminal of Some ty \<Rightarrow> ty | None \<Rightarrow> []),
      pe_isTerminal = (terminal \<noteq> None), pe_loc = loc\<rparr>"

text \<open>
  One edge, \<open>None\<close> where the source reports, resynchronizes and goes on with the loop.
\<close>

definition parsePipelineEdge :: "PipelineEdge option parser" where
  "parsePipelineEdge =
     do {
       loc \<leftarrow> location;
       stage \<leftarrow> check KW_stage;
       if stage then
         do {
           errorHere (''explicit stage<N> is incompatible with pipeline mode; '' @
                      ''stages are inferred from the DAG topology'');
           synchronize;
           return None }
       else
         do {
           sourceTok \<leftarrow> expect Identifier ''expected function name in pipeline edge'';
           src \<leftarrow> nameTail ColonColon ''::'' (tk_text sourceTok);
           expect Arrow ''expected '->' in pipeline edge'';
           t \<leftarrow> peek_token;
           if tk_kind t = KW_void then
             do {
               advance_token;
               expect Semicolon ''expected ';' after pipeline edge'';
               return (Some (mkEdge loc src [] (Some (tk_text t)))) }
           else if tk_kind t = Identifier then
             do {
               targetTok \<leftarrow> advance_token;
               target \<leftarrow> nameTail ColonColon ''::'' (tk_text targetTok);
               expect Semicolon ''expected ';' after pipeline edge'';
               return (Some (mkEdge loc src target None)) }
           else
             do {
               errorHere ''expected function name or type after '->' in pipeline edge'';
               synchronize;
               return None } } }"

definition parsePipelineEdges :: "PipelineEdge list parser" where
  "parsePipelineEdges =
     untilRound (\<lambda>k. k = RCurly)
       (\<lambda>edges. do {
          edgeLoc \<leftarrow> location;
          e \<leftarrow> parsePipelineEdge;
          case e of
            None \<Rightarrow> return edges
          | Some edge \<Rightarrow> do { unstall edgeLoc; return (edges @ [edge]) } }) []"

end
