(* ===== verification/ParseTypes.thy ===== *)
theory ParseTypes
  imports ParseParts
begin

text \<open>
  Types and expressions (\<open>lib/Parser/Parser.cpp\<close>: \<open>parseType\<close> and its helpers, the
  precedence climber).  A function that calls itself takes the recursive parser as an argument;
  the knot is tied with fuel for one level more than there is left to read.
\<close>

section \<open>Types\<close>

definition consumeCloseAngle :: "string \<Rightarrow> bool parser" where
  "consumeCloseAngle msg =
     do {
       t \<leftarrow> peek_token;
       if tk_kind t = RAngle then do { advance_token; return True }
       else if tk_kind t = ShiftRight then
         do {
           modify (\<lambda>s. s\<lparr>ps_current :=
             t\<lparr>tk_kind := RAngle, tk_text := ''>'',
               tk_location := (tk_location t)\<lparr>loc_column := loc_column (tk_location t) + 1\<rparr>\<rparr>\<rparr>);
           return True }
       else do { error (tk_location t) msg; return False } }"

definition parseRecordField :: "TypeNode parser \<Rightarrow> RecordField parser" where
  "parseRecordField type =
     do {
       loc \<leftarrow> location;
       nameTok \<leftarrow> expect Identifier ''expected field name in named-field list'';
       expect Colon ''expected ':' after field name'';
       t \<leftarrow> type;
       return (RecordField (tk_text nameTok) loc t) }"

definition parseRecordFields :: "TypeNode parser \<Rightarrow> RecordField list parser" where
  "parseRecordFields type =
     do {
       open_tok \<leftarrow> expect LAngle ''expected '<' after composite stdlib type'';
       if tk_kind open_tok \<noteq> LAngle then return []
       else do {
         closed \<leftarrow> match RAngle;
         if closed then return []
         else do {
           rfs \<leftarrow> sepBy Comma (adding (parseRecordField type)) [];
           consumeCloseAngle ''expected '>' to close named-field list'';
           return rfs } } }"

definition parseOwnership :: "OwnershipKind parser" where
  "parseOwnership =
     do {
       k \<leftarrow> kind;
       if k = KW_owned then do { advance_token; return Own_Owned }
       else if k = KW_shared then do { advance_token; return Own_Shared }
       else if k = KW_weak then do { advance_token; return Own_Weak }
       else return Own_None }"

definition parseTypeSuffix :: "(TypeModifier \<times> bool) parser" where
  "parseTypeSuffix =
     do {
       amp \<leftarrow> match Amp;
       md \<leftarrow> if amp then return TM_Ref
            else do { star \<leftarrow> match Star; return (if star then TM_Ptr else TM_None) };
       variadic \<leftarrow> match Ellipsis;
       return (md, variadic) }"

fun ty_withNameParts :: "string list \<Rightarrow> TypeNode \<Rightarrow> TypeNode" where
  "ty_withNameParts ps (TypeNode c own parts md loc targs itp var ntv sid rfs asb hrtb) =
     TypeNode c own ps md loc targs itp var ntv sid rfs asb hrtb"

definition parseTemplateArg :: "TypeNode parser \<Rightarrow> TypeNode parser" where
  "parseTemplateArg type =
     do {
       b \<leftarrow> check IntegerLiteral;
       if b then
         do {
           lit \<leftarrow> advance_token;
           v \<leftarrow> (case tryParseNonNegativeInt (tk_text lit) of
               Some v \<Rightarrow> return v
             | None \<Rightarrow>
                 do { error (tk_location lit)
                        (''invalid non-type template argument '' @ quoted (tk_text lit));
                      return 0 });
           return (TypeNode False Own_None [tk_text lit] TM_None (tk_location lit) [] False False
                     (Some v) TId_None [] [] []) }
       else
         do {
           arg \<leftarrow> type;
           dots \<leftarrow> check DotDot;
           if dots \<and> ty_nameParts arg \<noteq> [] then
             do {
               advance_token;
               ident \<leftarrow> check Identifier;
               upper \<leftarrow> if ident then do { t \<leftarrow> advance_token; return (tk_text t) } else return [];
               return (ty_withNameParts
                 (butlast (ty_nameParts arg) @ [List.last (ty_nameParts arg) @ ''..'' @ upper]) arg) }
           else return arg } }"

definition isBuiltinKeyword :: "string \<Rightarrow> bool" where
  "isBuiltinKeyword n \<longleftrightarrow>
     n \<in> {''void'', ''int'', ''bool'', ''i64'', ''f64'', ''string''}"

definition parseTemplateArgs :: "TypeNode parser \<Rightarrow> string list \<Rightarrow> TypeNode list parser" where
  "parseTemplateArgs type parts =
     do {
       angle \<leftarrow> check LAngle;
       if angle \<and> parts \<noteq> [] \<and> \<not> isBuiltinKeyword (hd parts) then
         do {
           advance_token;
           closed \<leftarrow> check RAngle;
           targs \<leftarrow> if closed then return []
                   else sepBy Comma (adding (parseTemplateArg type)) [];
           consumeCloseAngle ''expected '>' after template arguments'';
           return targs }
       else return [] }"

definition parseTypeBody :: "TypeNode parser \<Rightarrow> TypeNode parser" where
  "parseTypeBody type =
     do {
       loc \<leftarrow> location;
       isConst \<leftarrow> match KW_const;
       own \<leftarrow> parseOwnership;
       k \<leftarrow> kind;
       if k = KW_record \<or> k = KW_union then
         do {
           t \<leftarrow> advance_token;
           rfs \<leftarrow> parseRecordFields type;
           suffix \<leftarrow> parseTypeSuffix;
           return (TypeNode isConst own [tk_text t] (fst suffix) loc [] False (snd suffix) None
                     (stdlibTokenTypeId k) rfs [] []) }
       else if k = KW_void \<or> isStdlibTypeToken k \<or> k = Identifier \<or> k = KW_typename then
         do {
           parts \<leftarrow> if k = KW_void \<or> isStdlibTypeToken k
                    then do { t \<leftarrow> advance_token; return [tk_text t] } else parseQualifiedName;
           targs \<leftarrow> parseTemplateArgs type parts;
           suffix \<leftarrow> parseTypeSuffix;
           return (TypeNode isConst own parts (fst suffix) loc targs False (snd suffix) None
                     (stdlibTokenTypeId k) [] [] []) }
       else
         do {
           errorHere ''expected type name'';
           return (TypeNode isConst own [] TM_None loc [] False False None TId_None [] [] []) } }"

definition typeTooDeep :: "TypeNode parser" where
  "typeTooDeep =
     do { loc \<leftarrow> location;
          return (TypeNode False Own_None [''error''] TM_None loc [] False False None TId_None [] [] []) }"

fun parseTypeN :: "nat \<Rightarrow> TypeNode parser" where
  "parseTypeN 0 = outOfFuel empty_type"
| "parseTypeN (Suc n) = guarded typeTooDeep (parseTypeBody (parseTypeN n))"

definition parseType :: "TypeNode parser" where
  "parseType = do { n \<leftarrow> reads budget; parseTypeN (Suc n) }"

section \<open>Expressions\<close>

definition getOperatorPrecedence :: "TokenKind \<Rightarrow> int" where
  "getOperatorPrecedence k =
     (if k = PipePipe then 1
      else if k = AmpAmp then 2
      else if k = EqEq \<or> k = NotEq then 3
      else if k = LAngle \<or> k = RAngle \<or> k = LessEq \<or> k = GreaterEq then 4
      else if k = Plus \<or> k = Minus then 5
      else if k = Star \<or> k = Slash then 6
      else -1)"

definition isBinaryOperator :: "TokenKind \<Rightarrow> bool" where
  "isBinaryOperator k \<longleftrightarrow> getOperatorPrecedence k > 0"

definition parseCallArgs :: "Expr parser \<Rightarrow> Expr list parser" where
  "parseCallArgs expr =
     do {
       advance_token;
       closed \<leftarrow> check RParen;
       as \<leftarrow> if closed then return []
            else do { a \<leftarrow> expr; whileMatch Comma (adding expr) [a] };
       expect RParen ''expected ')' after arguments'';
       return as }"

definition parsePrimaryExpr :: "Expr parser \<Rightarrow> Expr parser" where
  "parsePrimaryExpr expr =
     do {
       t \<leftarrow> peek_token;
       let loc = tk_location t;
       if tk_kind t = LParen then
         do { advance_token; e \<leftarrow> expr; expect RParen (''expected '' @ quoted '')''); return e }
       else if tk_kind t = IntegerLiteral then
         do { advance_token; return (LiteralExpr loc (tk_text t) IntegerLiteral) }
       else if tk_kind t = KW_true then
         do { advance_token; return (LiteralExpr loc ''true'' KW_true) }
       else if tk_kind t = KW_false then
         do { advance_token; return (LiteralExpr loc ''false'' KW_false) }
       else if tk_kind t = StringLiteral then
         do { advance_token; return (LiteralExpr loc (tk_text t) StringLiteral) }
       else if tk_kind t = Identifier then
         do {
           name \<leftarrow> parseFuncName;
           call \<leftarrow> check LParen;
           if call then do { as \<leftarrow> parseCallArgs expr; return (CallExpr loc name as) }
           else return (IdentifierExpr loc name) }
       else
         do { error loc ''expected expression''; return (LiteralExpr loc ''0'' IntegerLiteral) } }"

fun parseUnaryN :: "nat \<Rightarrow> Expr parser \<Rightarrow> Expr parser" where
  "parseUnaryN 0 expr = outOfFuel (LiteralExpr default_loc [] Eof)"
| "parseUnaryN (Suc n) expr =
     do {
       t \<leftarrow> peek_token;
       if tk_kind t = Bang \<or> tk_kind t = Minus then
         do {
           advance_token;
           operand \<leftarrow> parseUnaryN n expr;
           return (UnaryExpr (tk_location t) (tk_kind t) operand) }
       else parsePrimaryExpr expr }"

definition parseUnaryExpr :: "Expr parser \<Rightarrow> Expr parser" where
  "parseUnaryExpr expr = do { n \<leftarrow> reads budget; parseUnaryN (Suc n) expr }"

text \<open>The body of \<open>parseBinaryExpr\<close>; \<open>binary\<close> is the function itself.\<close>

definition parseBinaryBody :: "(int \<Rightarrow> Expr parser) \<Rightarrow> int \<Rightarrow> Expr parser" where
  "parseBinaryBody binary minPrec =
     do {
       lhs \<leftarrow> parseUnaryExpr (binary 1);
       loop (\<lambda>lhs. do {
         t \<leftarrow> peek_token;
         let prec = getOperatorPrecedence (tk_kind t);
         if isBinaryOperator (tk_kind t) \<and> prec \<ge> minPrec then
           do {
             advance_token;
             rhs \<leftarrow> binary (prec + 1);
             return (Continue (BinaryExpr (tk_location t) (tk_kind t) lhs rhs)) }
         else return (Break lhs) }) lhs }"

definition exprTooDeep :: "Expr parser" where
  "exprTooDeep = do { loc \<leftarrow> location; return (LiteralExpr loc ''0'' IntegerLiteral) }"

fun parseBinaryN :: "nat \<Rightarrow> int \<Rightarrow> Expr parser" where
  "parseBinaryN 0 minPrec = outOfFuel (LiteralExpr default_loc [] Eof)"
| "parseBinaryN (Suc n) minPrec = guarded exprTooDeep (parseBinaryBody (parseBinaryN n) minPrec)"

definition parseBinaryExpr :: "int \<Rightarrow> Expr parser" where
  "parseBinaryExpr minPrec = do { n \<leftarrow> reads budget; parseBinaryN (Suc n) minPrec }"

definition parseExpression :: "Expr parser" where
  "parseExpression = parseBinaryExpr 1"

end
