(* ===== verification/ParseDecls.thy ===== *)
theory ParseDecls
  imports ParseTypes
begin

text \<open>
  The declarations that do not nest other declarations (\<open>lib/Parser/Parser.cpp\<close>): imports,
  aliases, function declarations of every form, logic blocks, operations, constraints,
  adaptations, instantiations, type functions and debug declarations.
\<close>

section \<open>Shared pieces\<close>

definition mkParam :: "TypeNode \<Rightarrow> string \<Rightarrow> Parameter" where
  "mkParam ty name = \<lparr>pm_type = ty, pm_name = name\<rparr>"

definition parseParameter :: "string \<Rightarrow> Parameter parser" where
  "parseParameter msg =
     do { ty \<leftarrow> parseType; nameTok \<leftarrow> expect Identifier msg; return (mkParam ty (tk_text nameTok)) }"

text \<open>\<open>if (!check(RParen)) { do { ... } while (match(Comma)); }\<close>\<close>

definition parseParameters :: "string \<Rightarrow> Parameter list parser" where
  "parseParameters msg =
     do { closed \<leftarrow> check RParen;
          if closed then return [] else sepBy Comma (adding (parseParameter msg)) [] }"

text \<open>The loop over a list that ends at a closing token, with its own separator report.\<close>

definition listUntil :: "TokenKind \<Rightarrow> string \<Rightarrow> 'a parser \<Rightarrow> 'a list parser" where
  "listUntil close msg element =
     untilKind (\<lambda>k. k = close) (\<lambda>xs. do {
       x \<leftarrow> element;
       closed \<leftarrow> check close;
       (if closed then return () else do { expect Comma msg; return () });
       return (xs @ [x]) }) []"

definition parseBindingTarget :: "FnDecl \<Rightarrow> FnDecl parser" where
  "parseBindingTarget decl =
     do {
       assign \<leftarrow> match Assign;
       if assign then
         do { name \<leftarrow> parseQualifiedNameString; return (decl\<lparr>fd_bindingTarget := Some name\<rparr>) }
       else return decl }"

definition openedAt :: "string \<Rightarrow> SourceLocation \<Rightarrow> string" where
  "openedAt what loc =
     ''expected '}' to close '' @ what @ '' (opened at '' @ int_to_string (loc_line loc) @ '':'' @
     int_to_string (loc_column loc) @ '')''"

definition closeBlock :: "string \<Rightarrow> SourceLocation \<Rightarrow> unit parser" where
  "closeBlock what loc =
     do { closed \<leftarrow> match RCurly; if closed then return () else errorHere (openedAt what loc) }"

text \<open>Changing the modifiers of a node behind its pointer.\<close>

fun mapModifiers :: "(ModifierData list \<Rightarrow> ModifierData list) \<Rightarrow> ASTNode \<Rightarrow> ASTNode" where
  "mapModifiers f (TopoFile b ds) = TopoFile (b\<lparr>nd_modifiers := f (nd_modifiers b)\<rparr>) ds"
| "mapModifiers f (ImportNode b p ss) = ImportNode (b\<lparr>nd_modifiers := f (nd_modifiers b)\<rparr>) p ss"
| "mapModifiers f (DataDeclNode b d) = DataDeclNode (b\<lparr>nd_modifiers := f (nd_modifiers b)\<rparr>) d"
| "mapModifiers f (NamespaceDecl b p ss i) =
     NamespaceDecl (b\<lparr>nd_modifiers := f (nd_modifiers b)\<rparr>) p ss i"
| "mapModifiers f (VisibilitySection b v ms) =
     VisibilitySection (b\<lparr>nd_modifiers := f (nd_modifiers b)\<rparr>) v ms"
| "mapModifiers f (FnDeclNode b d) = FnDeclNode (b\<lparr>nd_modifiers := f (nd_modifiers b)\<rparr>) d"
| "mapModifiers f (FnLogicBlock b n os es ps) =
     FnLogicBlock (b\<lparr>nd_modifiers := f (nd_modifiers b)\<rparr>) n os es ps"
| "mapModifiers f (OperationNode b d) = OperationNode (b\<lparr>nd_modifiers := f (nd_modifiers b)\<rparr>) d"
| "mapModifiers f (TypeDeclNode b d ss) =
     TypeDeclNode (b\<lparr>nd_modifiers := f (nd_modifiers b)\<rparr>) d ss"
| "mapModifiers f (IfDecl b c ts es) = IfDecl (b\<lparr>nd_modifiers := f (nd_modifiers b)\<rparr>) c ts es"
| "mapModifiers f (DebugDeclNode b d) = DebugDeclNode (b\<lparr>nd_modifiers := f (nd_modifiers b)\<rparr>) d"
| "mapModifiers f (ExprNode e) = ExprNode e"

fun mapFn :: "(FnDecl \<Rightarrow> FnDecl) \<Rightarrow> ASTNode \<Rightarrow> ASTNode" where
  "mapFn f (FnDeclNode b d) = FnDeclNode b (f d)"
| "mapFn f n = n"

definition node_with :: "SourceLocation \<Rightarrow> ModifierData list \<Rightarrow> NodeBase" where
  "node_with loc mods = \<lparr>nd_location = loc, nd_modifiers = mods\<rparr>"

section \<open>Imports and aliases\<close>

definition parseImport :: "ASTNode parser" where
  "parseImport =
     do {
       loc \<leftarrow> location;
       expect KW_import (''expected '' @ quoted ''import'');
       first \<leftarrow> expect Identifier (''expected module name after '' @ quoted ''import'');
       path \<leftarrow> whileMatch Slash (\<lambda>path. do {
         segment \<leftarrow> expect Identifier ''expected identifier after '/' in import path'';
         return (path @ ''/'' @ tk_text segment) }) (tk_text first);
       selective \<leftarrow> match LCurly;
       selected \<leftarrow>
         (if selective then
            do {
              names \<leftarrow> sepBy Comma (adding (do {
                name \<leftarrow> expect Identifier ''expected symbol name in import selection'';
                return (tk_text name) })) [];
              expect RCurly ''expected '}' after import symbol list'';
              return names }
          else return []);
       expect Semicolon ''expected ';' after import statement'';
       return (ImportNode (node_at loc) path selected) }"

definition parseTypeAliasAsDataDecl :: "ASTNode parser" where
  "parseTypeAliasAsDataDecl =
     do {
       loc \<leftarrow> location;
       expect KW_using (''expected '' @ quoted ''using'');
       k \<leftarrow> kind;
       name \<leftarrow> if k = Identifier \<or> isStdlibTypeToken k then advance_token
               else expect Identifier (''expected name after '' @ quoted ''using'');
       expect Assign ''expected '=' after name'';
       ty \<leftarrow> parseType;
       expect Semicolon ''expected ';' after type alias declaration'';
       return (DataDeclNode (node_at loc) (empty_data\<lparr>dd_name := tk_text name, dd_type := ty\<rparr>)) }"

definition parseStdImportAsDataDecl :: "ASTNode parser" where
  "parseStdImportAsDataDecl =
     do {
       loc \<leftarrow> location;
       expect Identifier (''expected '' @ quoted ''std'');
       expect ColonColon (''expected '' @ quoted ''::'');
       expect KW_import (''expected '' @ quoted ''import'');
       expect LParen (''expected '(' after '' @ quoted ''std::import'');
       pathTok \<leftarrow> expect StringLiteral ''expected string literal for import path'';
       comma \<leftarrow> match Comma;
       typeName \<leftarrow> if comma then parseQualifiedNameString else return [];
       expect RParen (''expected '' @ quoted '')'');
       expect Semicolon ''expected ';' after std::import'';
       return (DataDeclNode (node_at loc)
                 (empty_data\<lparr>dd_importPath := tk_text pathTok, dd_name := typeName\<rparr>)) }"

definition parseLifetimeAsDataDecl :: "ASTNode parser" where
  "parseLifetimeAsDataDecl =
     do {
       loc \<leftarrow> location;
       advance_token;
       nameTok \<leftarrow> peek_token;
       expect Identifier ''expected lifetime name'';
       expect Assign ''expected '=' after lifetime name'';
       startFunc \<leftarrow> parseFuncName;
       dots \<leftarrow> match DotDot;
       d \<leftarrow>
         (if dots then
            do {
              ident \<leftarrow> check Identifier;
              if ident then do { endFunc \<leftarrow> parseFuncName; return (empty_data\<lparr>dd_endFunc := endFunc\<rparr>) }
              else return (empty_data\<lparr>dd_isOpenEnded := True\<rparr>) }
          else return (empty_data\<lparr>dd_isSingleFunc := True\<rparr>));
       expect Semicolon ''expected ';' after lifetime declaration'';
       return (DataDeclNode (node_with loc [mkModifier MK_Lifetime loc []])
                 (d\<lparr>dd_name := tk_text nameTok, dd_startFunc := startFunc\<rparr>)) }"

definition parseInstantiateAsDataDecl :: "ASTNode parser" where
  "parseInstantiateAsDataDecl =
     do {
       loc \<leftarrow> location;
       expect KW_instantiate (''expected '' @ quoted ''instantiate'');
       ty \<leftarrow> parseType;
       expect Semicolon ''expected ';' after instantiate declaration'';
       return (DataDeclNode (node_with loc [mkModifier MK_Instantiate loc []])
                 (empty_data\<lparr>dd_type := ty\<rparr>)) }"

section \<open>Function declarations\<close>

definition parseReturnParam :: "ReturnParam parser" where
  "parseReturnParam =
     do {
       loc \<leftarrow> location;
       ty \<leftarrow> parseType;
       nameTok \<leftarrow> expect Identifier ''expected return parameter name'';
       return \<lparr>rp_type = ty, rp_name = tk_text nameTok, rp_loc = loc\<rparr> }"

definition parseMultiReturnParams :: "ReturnParam list parser" where
  "parseMultiReturnParams =
     do {
       expect LParen ''expected '(' for multi-return parameters'';
       closed \<leftarrow> check RParen;
       params \<leftarrow> if closed then return [] else sepBy Comma (adding parseReturnParam) [];
       expect RParen ''expected ')' after multi-return parameters'';
       return params }"

definition parseConstSuffix :: "FnDecl \<Rightarrow> FnDecl parser" where
  "parseConstSuffix decl =
     do { c \<leftarrow> match KW_const; return (if c then decl\<lparr>fd_isConst := True\<rparr> else decl) }"

definition parseHintsAfter :: "TokenKind \<Rightarrow> FnDecl \<Rightarrow> FnDecl parser" where
  "parseHintsAfter k decl =
     do { h \<leftarrow> hintNext k; if h then do { advance_token; parseHints decl } else return decl }"

definition parseFnDeclCppStyle :: "ASTNode parser" where
  "parseFnDeclCppStyle =
     do {
       loc \<leftarrow> location;
       ty \<leftarrow> parseType;
       name \<leftarrow> parseFuncName;
       expect LParen ''expected '(' in function declaration'';
       params \<leftarrow> parseParameters ''expected parameter name'';
       expect RParen ''expected ')' in function declaration'';
       decl \<leftarrow> parseConstSuffix (empty_fn\<lparr>fd_returnType := ty, fd_name := name, fd_params := params\<rparr>);
       decl \<leftarrow> parseBindingTarget decl;
       decl \<leftarrow> parseHintsAfter Arrow decl;
       expect Semicolon ''expected ';' after function declaration'';
       return (FnDeclNode (node_at loc) decl) }"

definition parseRustReturn :: "FnDecl \<Rightarrow> FnDecl parser" where
  "parseRustReturn decl =
     do {
       t \<leftarrow> peek_token;
       if tk_kind t = Identifier \<and> isHintName (tk_text t) then parseHints decl
       else if tk_kind t = LParen then
         do { rps \<leftarrow> parseMultiReturnParams;
              return (decl\<lparr>fd_isMultiReturn := True, fd_returnParams := rps\<rparr>) }
       else do { ty \<leftarrow> parseType; return (decl\<lparr>fd_returnType := ty\<rparr>) } }"

definition parseWithClause :: "FnDecl \<Rightarrow> FnDecl parser" where
  "parseWithClause decl =
     do {
       clause \<leftarrow> check KW_with;
       if clause then
         do {
           (if fd_isMultiReturn decl then return ()
            else errorHere (quoted ''with returns(...)'' @ '' clause is only valid on multi-return functions''));
           clauseLoc \<leftarrow> location;
           used \<leftarrow> parseUsedReturnsClause;
           (if fd_isMultiReturn decl \<and> snd used > length (fd_returnParams decl)
            then error clauseLoc
              (quoted ''with returns(...)'' @ '' lists '' @ nat_to_string (snd used) @
               '' items but function declares only '' @
               nat_to_string (length (fd_returnParams decl)) @ '' return parameters'')
            else return ());
           return (decl\<lparr>fd_declaredUsedReturns := fst used, fd_hasUsedReturnsClause := True\<rparr>) }
       else return decl }"

definition parseFnDeclRustStyle :: "ASTNode parser" where
  "parseFnDeclRustStyle =
     do {
       loc \<leftarrow> location;
       name \<leftarrow> parseFuncName;
       expect LParen ''expected '(' in function declaration'';
       params \<leftarrow> parseParameters ''expected parameter name'';
       expect RParen ''expected ')' in function declaration'';
       decl \<leftarrow> parseConstSuffix (empty_fn\<lparr>fd_isRustStyle := True, fd_name := name, fd_params := params\<rparr>);
       expect Arrow ''expected '->' for return type'';
       decl \<leftarrow> parseRustReturn decl;
       decl \<leftarrow> parseHintsAfter Comma decl;
       decl \<leftarrow> parseWithClause decl;
       decl \<leftarrow> parseBindingTarget decl;
       expect Semicolon ''expected ';' after function declaration'';
       return (FnDeclNode (node_at loc) decl) }"

definition parseHandlerDecl :: "ASTNode parser" where
  "parseHandlerDecl =
     do {
       loc \<leftarrow> location;
       expect KW_handler (''expected '' @ quoted ''handler'');
       name \<leftarrow> parseFuncName;
       expect LParen ''expected '(' after handler name'';
       params \<leftarrow> parseParameters ''expected input name in handler'';
       expect RParen ''expected ')' after handler input'';
       (if length params > 1
        then error loc (''a handler takes a single input value (the Functor's In); '' @
               ''aggregate multiple inputs into one record<...>'')
        else return ());
       expect Arrow ''expected '->' before handler output type'';
       ty \<leftarrow> parseType;
       expect Semicolon ''expected ';' after handler declaration'';
       return (FnDeclNode (node_with loc [mkModifier MK_Handler loc []])
                 (empty_fn\<lparr>fd_isRustStyle := True, fd_name := name, fd_params := params,
                          fd_returnType := ty\<rparr>)) }"

definition overloadableOpOf :: "TokenKind \<Rightarrow> OverloadableOp option" where
  "overloadableOpOf k =
     map_of
       [(Plus, Op_Plus), (Minus, Op_Minus), (Star, Op_Star), (Slash, Op_Slash),
        (Percent, Op_Percent), (EqEq, Op_EqEq), (NotEq, Op_NotEq), (LAngle, Op_Less),
        (RAngle, Op_Greater), (LessEq, Op_LessEq), (GreaterEq, Op_GreaterEq), (Amp, Op_Amp),
        (Pipe, Op_Pipe), (Caret, Op_Caret), (Tilde, Op_Tilde), (ShiftLeft, Op_ShiftLeft),
        (ShiftRight, Op_ShiftRight), (AmpAmp, Op_AmpAmp), (PipePipe, Op_PipePipe),
        (Bang, Op_Bang), (FatArrow, Op_FatArrow)] k"

definition parseOperatorDecl :: "ASTNode parser" where
  "parseOperatorDecl =
     do {
       loc \<leftarrow> location;
       expect KW_fn (''expected '' @ quoted ''fn'');
       expect KW_operator (''expected '' @ quoted ''operator'');
       k \<leftarrow> kind;
       op \<leftarrow> (case overloadableOpOf k of
           Some op \<Rightarrow> do { advance_token; return op }
         | None \<Rightarrow>
             do { errorHere (''expected overloadable operator after '' @ quoted ''operator'');
                  return Op_Plus });
       expect LParen ''expected '(' in operator declaration'';
       params \<leftarrow> parseParameters ''expected parameter name'';
       expect RParen ''expected ')' in operator declaration'';
       expect Arrow ''expected '->' for return type'';
       ty \<leftarrow> parseType;
       decl \<leftarrow> parseBindingTarget
         (empty_fn\<lparr>fd_operatorOp := Some op, fd_name := ''operator'' @ overloadableOpName op,
                   fd_isRustStyle := True, fd_params := params, fd_returnType := ty\<rparr>);
       expect Semicolon ''expected ';' after operator declaration'';
       return (FnDeclNode (node_at loc) decl) }"

section \<open>Logic blocks\<close>

text \<open>\<open>while (check(ColonColon)) { ... }\<close>: the tokens of a qualified name, to be put back.\<close>

definition bufferName :: "Token list parser" where
  "bufferName =
     do {
       first \<leftarrow> advance_token;
       loop (\<lambda>buffered. do {
         colons \<leftarrow> check ColonColon;
         if colons then
           do {
             sep \<leftarrow> advance_token;
             ident \<leftarrow> check Identifier;
             if ident then do { part \<leftarrow> advance_token; return (Continue (buffered @ [sep, part])) }
             else return (Break (buffered @ [sep])) }
         else return (Break buffered) }) [first] }"

definition replay :: "Token list \<Rightarrow> unit parser" where
  "replay buffered =
     modify (\<lambda>s. (fold (\<lambda>t s. s\<lparr>ps_pending := ps_current s # ps_pending s, ps_current := t\<rparr>)
                   (rev buffered) s)\<lparr>ps_lookahead := None\<rparr>)"

definition detectPipelineMode :: "bool parser" where
  "detectPipelineMode =
     do {
       ident \<leftarrow> check Identifier;
       if \<not> ident then return False
       else do {
         nxt \<leftarrow> peekNext_token;
         if tk_kind nxt = Arrow then return True
         else if tk_kind nxt = ColonColon then
           do {
             buffered \<leftarrow> bufferName;
             arrow \<leftarrow> check Arrow;
             replay buffered;
             return arrow }
         else return False } }"

definition parseStage :: "int parser" where
  "parseStage =
     do {
       stage \<leftarrow> match KW_stage;
       if \<not> stage then return (- 1)
       else do {
         expect LAngle (''expected '<' after '' @ quoted ''stage'');
         minus \<leftarrow> check Minus;
         n \<leftarrow>
           (if minus then
              do {
                errorHere ''stage number must be non-negative (S008)'';
                advance_token;
                match IntegerLiteral;
                return (- 1) }
            else do {
              num \<leftarrow> expect IntegerLiteral (''expected integer after '' @ quoted ''stage<'');
              case tryParseNonNegativeInt (tk_text num) of
                Some v \<Rightarrow> return v
              | None \<Rightarrow>
                  do {
                    (if tk_kind num = IntegerLiteral
                     then error (tk_location num)
                       (''stage number '' @ quoted (tk_text num) @ '' is not a valid non-negative integer'')
                     else return ());
                    return (- 1) } });
         expect RAngle ''expected '>' after stage number'';
         return n } }"

text \<open>\<open>while (!check(RParen) && !check(Semicolon) && !check(Eof)) advance();\<close>\<close>

definition skipArguments :: "unit parser" where
  "skipArguments =
     loop (\<lambda>_. do {
       k \<leftarrow> kind;
       if k \<noteq> RParen \<and> k \<noteq> Semicolon \<and> k \<noteq> Eof then do { advance_token; return (Continue ()) }
       else return (Break ()) }) ()"

definition parseOperationDecl :: "ASTNode parser" where
  "parseOperationDecl =
     do {
       loc \<leftarrow> location;
       stage \<leftarrow> parseStage;
       assign \<leftarrow> checkNext Identifier Assign;
       if assign then
         do {
           varTok \<leftarrow> advance_token;
           advance_token;
           e \<leftarrow> parseExpression;
           expect Semicolon ''expected ';' after assignment'';
           return (OperationNode (node_at loc)
             \<lparr>od_stage = stage, od_funcName = [], od_varName = tk_text varTok, od_expr = Some e,
              od_returnBinding = None\<rparr>) }
       else
         do {
           func \<leftarrow> parseQualifiedFuncRef;
           expect LParen ''expected '(' in operation'';
           skipArguments;
           expect RParen ''expected ')' in operation'';
           arrow \<leftarrow> match Arrow;
           rb \<leftarrow> if arrow then do { b \<leftarrow> parseReturnBinding; return (Some b) } else return None;
           expect Semicolon ''expected ';' after operation'';
           return (OperationNode (node_at loc)
             \<lparr>od_stage = stage, od_funcName = func, od_varName = [], od_expr = None,
              od_returnBinding = rb\<rparr>) } }"

definition parseFnLogicBlock :: "ASTNode parser" where
  "parseFnLogicBlock =
     do {
       loc \<leftarrow> location;
       expect KW_fn (''expected '' @ quoted ''fn'');
       name \<leftarrow> parseFuncName;
       lbraceLoc \<leftarrow> location;
       expect LCurly ''expected '{' after fn name'';
       pipeline \<leftarrow> detectPipelineMode;
       block \<leftarrow>
         (if pipeline then do { edges \<leftarrow> parsePipelineEdges; return ([], edges) }
          else do {
            ops \<leftarrow> untilKind (\<lambda>k. k = RCurly) (adding parseOperationDecl) [];
            return (ops, []) });
       closeBlock ''fn block'' lbraceLoc;
       return (FnLogicBlock (node_at loc) name (fst block) (snd block) []) }"

definition parseFlowDecl :: "ASTNode parser" where
  "parseFlowDecl =
     do {
       loc \<leftarrow> location;
       expect KW_flow (''expected '' @ quoted ''flow'');
       name \<leftarrow> parseFuncName;
       lbraceLoc \<leftarrow> location;
       expect LCurly ''expected '{' after flow name'';
       edges \<leftarrow> parsePipelineEdges;
       closeBlock ''flow'' lbraceLoc;
       return (FnLogicBlock (node_with loc [mkModifier MK_Flow loc []]) name [] edges []) }"

end
