(* ===== verification/ParseNested.thy ===== *)
theory ParseNested
  imports ParseDecls
begin

text \<open>
  The remaining declarations (\<open>lib/Parser/Parser.cpp\<close>): those with a body of their own kind,
  the declarations that nest others (templates, types, namespaces, sections, \<open>comptime if\<close>),
  and the file.
\<close>

section \<open>Constraints, adaptations and type functions\<close>

definition parseConstraintMember :: "ConstraintMember parser" where
  "parseConstraintMember =
     do {
       loc \<leftarrow> location;
       ty \<leftarrow> parseType;
       memberName \<leftarrow> expect Identifier ''expected member name in constraint'';
       paren \<leftarrow> match LParen;
       params \<leftarrow>
         (if paren then
            do {
              ps \<leftarrow> listUntil RParen ''expected ',' or ')' in parameter list''
                     (parseParameter ''expected parameter name'');
              expect RParen ''expected ')' after parameter list'';
              return ps }
          else return []);
       expect Semicolon ''expected ';' after constraint member'';
       return \<lparr>cm_type = ty, cm_name = tk_text memberName, cm_params = params,
               cm_isFunction = paren, cm_location = loc\<rparr> }"

definition parseConstraintAsTypeDecl :: "ASTNode parser" where
  "parseConstraintAsTypeDecl =
     do {
       loc \<leftarrow> location;
       expect KW_constraint (''expected '' @ quoted ''constraint'');
       nameTok \<leftarrow> expect Identifier ''expected constraint name'';
       colon \<leftarrow> match Colon;
       parent \<leftarrow>
         (if colon then
            do { t \<leftarrow> expect Identifier ''expected parent constraint name''; return (Some (tk_text t)) }
          else return None);
       expect LCurly ''expected '{' after constraint declaration'';
       members \<leftarrow> untilKind (\<lambda>k. k = RCurly) (adding parseConstraintMember) [];
       expect RCurly ''expected '}' after constraint body'';
       return (TypeDeclNode (node_with loc [mkModifier MK_Constraint loc []])
         ((empty_typedecl (tk_text nameTok))\<lparr>td_parentConstraint := parent,
            td_constraintMembers := members\<rparr>) []) }"

definition parseAdaptMapping :: "AdaptMapping parser" where
  "parseAdaptMapping =
     do {
       loc \<leftarrow> location;
       memberTok \<leftarrow> expect Identifier ''expected member name in adapt mapping'';
       expect Assign ''expected '=' in adapt mapping'';
       targetTok \<leftarrow> expect Identifier ''expected target name in adapt mapping'';
       expect Semicolon ''expected ';' after adapt mapping'';
       return \<lparr>am_memberName = tk_text memberTok, am_targetName = tk_text targetTok,
               am_location = loc\<rparr> }"

definition parseAdaptAsTypeDecl :: "ASTNode parser" where
  "parseAdaptAsTypeDecl =
     do {
       loc \<leftarrow> location;
       expect KW_adapt (''expected '' @ quoted ''adapt'');
       constraintTok \<leftarrow> expect Identifier (''expected constraint name after '' @ quoted ''adapt'');
       expect KW_for ''expected 'for' after constraint name in adapt'';
       targetType \<leftarrow> parseType;
       expect LCurly ''expected '{' after adapt declaration'';
       mappings \<leftarrow> untilKind (\<lambda>k. k = RCurly) (adding parseAdaptMapping) [];
       expect RCurly ''expected '}' after adapt body'';
       return (TypeDeclNode (node_with loc [mkModifier MK_Adapt loc [tk_text constraintTok]])
         ((empty_typedecl (tk_text constraintTok))\<lparr>td_adaptConstraintName := tk_text constraintTok,
            td_adaptTargetType := targetType, td_adaptMappings := mappings\<rparr>) []) }"

definition type_param :: "string \<Rightarrow> SourceLocation \<Rightarrow> TemplateParamDecl" where
  "type_param name loc =
     TemplateParamDecl TP_TypeParam name empty_type [] False [] None None loc"

definition parseTypeFnParam :: "TemplateParamDecl parser" where
  "parseTypeFnParam =
     do {
       loc \<leftarrow> location;
       typename \<leftarrow> match KW_typename;
       name \<leftarrow>
         (if typename then
            do { t \<leftarrow> expect Identifier ''expected parameter name''; return (tk_text t) }
          else return []);
       return (type_param name loc) }"

definition parseMatchArm :: "TypeMatchArm parser" where
  "parseMatchArm =
     do {
       loc \<leftarrow> location;
       wildcard \<leftarrow> checkText ''_'';
       pattern \<leftarrow> if wildcard then do { advance_token; return empty_type } else parseType;
       expect FatArrow ''expected '=>' in match arm'';
       result \<leftarrow> parseType;
       match Comma;
       return \<lparr>ma_pattern = pattern, ma_result = result, ma_location = loc\<rparr> }"

definition parseTypeFnAsTypeDecl :: "ASTNode parser" where
  "parseTypeFnAsTypeDecl =
     do {
       loc \<leftarrow> location;
       expect KW_typefn (''expected '' @ quoted ''typefn'');
       nameTok \<leftarrow> expect Identifier ''expected typefn name'';
       expect LParen ''expected '(' after typefn name'';
       params \<leftarrow> listUntil RParen ''expected ',' or ')' in typefn parameter list'' parseTypeFnParam;
       expect RParen ''expected ')' after typefn parameters'';
       expect Arrow ''expected '->' after typefn parameters'';
       expect KW_typename ''expected 'typename' as typefn return'';
       expect LCurly ''expected '{' after typefn return type'';
       expect KW_match ''expected 'match' in typefn body'';
       matchTarget \<leftarrow> expect Identifier ''expected parameter name to match on'';
       expect LCurly ''expected '{' after match target'';
       arms \<leftarrow> untilKind (\<lambda>k. k = RCurly) (adding parseMatchArm) [];
       expect RCurly ''expected '}' to close match block'';
       expect RCurly ''expected '}' to close typefn body'';
       return (TypeDeclNode (node_with loc [mkModifier MK_TypeFn loc []])
         ((empty_typedecl (tk_text nameTok))\<lparr>td_templateParams := params,
            td_matchTarget := tk_text matchTarget, td_matchArms := arms\<rparr>) []) }"

section \<open>Debug declarations\<close>

definition isDebugDeclStart :: "bool parser" where
  "isDebugDeclStart = both (checkText ''debug'') (nextIs Identifier)"

text \<open>A bound of a slice, which is \<open>start\<close> or \<open>end\<close>.\<close>

definition parseSliceBound :: "string \<Rightarrow> string \<Rightarrow> int option parser" where
  "parseSliceBound contextLabel which =
     do {
       b \<leftarrow> check IntegerLiteral;
       if b then
         do {
           tok \<leftarrow> advance_token;
           case tryParseNonNegativeInt (tk_text tok) of
             Some v \<Rightarrow> return (Some v)
           | None \<Rightarrow>
               do { error (tk_location tok)
                      (contextLabel @ '': slice '' @ which @ '' must be a non-negative integer'');
                    return None } }
       else
         do { errorHere (contextLabel @ '': expected integer literal for slice '' @ which);
              return None } }"

definition parseDebugSliceExpr :: "string \<Rightarrow> DebugSliceExpr parser" where
  "parseDebugSliceExpr contextLabel =
     do {
       loc \<leftarrow> location;
       containerTok \<leftarrow> expect Identifier (''expected identifier in '' @ contextLabel);
       sliced \<leftarrow> match LBracket;
       if \<not> sliced then
         return \<lparr>ds_container = tk_text containerTok, ds_isSliced = False, ds_start = None,
                 ds_end = None, ds_location = loc\<rparr>
       else do {
         lo \<leftarrow> parseSliceBound contextLabel ''start'';
         expect DotDot (''expected '..' between slice bounds in '' @ contextLabel);
         hi \<leftarrow> parseSliceBound contextLabel ''end'';
         expect RBracket (''expected ']' after slice end in '' @ contextLabel);
         return \<lparr>ds_container = tk_text containerTok, ds_isSliced = True, ds_start = lo,
                 ds_end = hi, ds_location = loc\<rparr> } }"

definition parseView :: "SourceLocation \<Rightarrow> DebugDecl \<Rightarrow> DebugDecl parser" where
  "parseView kwLoc node =
     do {
       advance_token;
       nameTok \<leftarrow> expect Identifier (''expected view name after '' @ quoted ''view'');
       hasFrom \<leftarrow> checkText ''from'';
       (if hasFrom then do { advance_token; return () }
        else errorHere ''expected 'from' between view name and expression'');
       slice \<leftarrow> parseDebugSliceExpr ''view expression'';
       expect Semicolon ''expected ';' after view declaration'';
       return (node\<lparr>dbg_views := dbg_views node @
         [\<lparr>dv_name = tk_text nameTok, dv_slice = slice, dv_location = kwLoc\<rparr>]\<rparr>) }"

definition parseSummary :: "DebugDecl \<Rightarrow> DebugDecl parser" where
  "parseSummary node =
     do {
       advance_token;
       strTok \<leftarrow> expect StringLiteral (''expected string literal after '' @ quoted ''summary'');
       expect Semicolon ''expected ';' after summary declaration'';
       return (node\<lparr>dbg_summary := Some (tk_text strTok)\<rparr>) }"

definition parseInactiveMode :: "DebugInactiveMode parser" where
  "parseInactiveMode =
     do {
       t \<leftarrow> peek_token;
       if tk_kind t = Identifier \<and> tk_text t = ''grayed'' then do { advance_token; return DIM_Grayed }
       else if tk_kind t = Identifier \<and> tk_text t = ''hidden'' then do { advance_token; return DIM_Hidden }
       else return DIM_Default }"

definition parseInactiveRegion :: "SourceLocation \<Rightarrow> DebugDecl \<Rightarrow> DebugDecl parser" where
  "parseInactiveRegion kwLoc node =
     do {
       advance_token;
       region \<leftarrow> parseDebugSliceExpr ''inactive_region expression'';
       mode \<leftarrow> parseInactiveMode;
       expect Semicolon ''expected ';' after inactive_region declaration'';
       return (node\<lparr>dbg_inactive := dbg_inactive node @
         [\<lparr>di_region = region, di_mode = mode, di_location = kwLoc\<rparr>]\<rparr>) }"

text \<open>The tokens of a render body, up to the brace that closes it.\<close>

definition appendText :: "string \<Rightarrow> string \<Rightarrow> string" where
  "appendText rawBody txt =
     (if rawBody \<noteq> [] \<and> List.last rawBody \<noteq> CHR ''{'' \<and> List.last rawBody \<noteq> SPACE
      then rawBody @ [SPACE] else rawBody) @ txt"

definition parseRawBody :: "(string \<times> int) parser" where
  "parseRawBody =
     loop (\<lambda>(rawBody, depth). do {
       t \<leftarrow> peek_token;
       if tk_kind t = Eof then
         do { errorHere ''unterminated render body''; return (Break (rawBody, depth)) }
       else do {
         advance_token;
         let st = (if tk_kind t = LCurly then (rawBody @ ''{'', depth + 1)
                   else if tk_kind t = RCurly then (rawBody @ ''}'', depth - 1)
                   else (appendText rawBody (tk_text t), depth));
         eof \<leftarrow> check Eof;
         return (if snd st > 0 \<and> \<not> eof then Continue st else Break st) } }) ([], 0)"

text \<open>
  Without a body the source reports and goes on with the next item; the test that the round
  has moved is the loop's in both cases.
\<close>

definition parseRender :: "SourceLocation \<Rightarrow> DebugDecl \<Rightarrow> DebugDecl parser" where
  "parseRender kwLoc node =
     do {
       advance_token;
       hasMethod \<leftarrow> checkText ''method'';
       meth \<leftarrow>
         (if hasMethod then
            do {
              advance_token;
              expect Assign (''expected '=' after '' @ quoted ''method'');
              mTok \<leftarrow> expect Identifier (''expected render method name after '' @ quoted ''='');
              return (tk_text mTok) }
          else return []);
       body \<leftarrow> check LCurly;
       if \<not> body then do { errorHere ''expected '{' to open render body''; return node }
       else do {
         raw \<leftarrow> parseRawBody;
         return (node\<lparr>dbg_render := dbg_render node @
           [\<lparr>dr_method = meth, dr_rawBody = fst raw, dr_location = kwLoc\<rparr>]\<rparr>) } }"

definition parseDebugItem :: "DebugDecl \<Rightarrow> DebugDecl parser" where
  "parseDebugItem node =
     do {
       t \<leftarrow> peek_token;
       if tk_kind t \<noteq> Identifier then
         do {
           errorHere ''expected 'view', 'summary', 'inactive_region', or 'render' in debug body'';
           advance_token;
           return node }
       else if tk_text t = ''view'' then parseView (tk_location t) node
       else if tk_text t = ''summary'' then parseSummary node
       else if tk_text t = ''inactive_region'' then parseInactiveRegion (tk_location t) node
       else if tk_text t = ''render'' then parseRender (tk_location t) node
       else
         do {
           errorHere (''unexpected '' @ quoted (tk_text t) @
             '' in debug body; expected 'view', 'summary', 'inactive_region', or '' @ quoted ''render'');
           advance_token;
           return node } }"

definition parseDebugDecl :: "ASTNode parser" where
  "parseDebugDecl =
     do {
       loc \<leftarrow> location;
       advance_token;
       targetTok \<leftarrow> expect Identifier (''expected target type name after '' @ quoted ''debug'');
       expect LCurly ''expected '{' to open debug body'';
       node \<leftarrow> untilKind (\<lambda>k. k = RCurly) parseDebugItem
         \<lparr>dbg_target = tk_text targetTok, dbg_views = [], dbg_summary = None, dbg_inactive = [],
          dbg_render = []\<rparr>;
       expect RCurly ''expected '}' to close debug body'';
       return (DebugDeclNode (node_at loc) node) }"

section \<open>Templates\<close>

definition parseInnerParam :: "TemplateParamDecl parser" where
  "parseInnerParam =
     do {
       loc \<leftarrow> location;
       typename \<leftarrow> match KW_typename;
       ident \<leftarrow> both (return typename) (check Identifier);
       name \<leftarrow> if ident then do { t \<leftarrow> advance_token; return (tk_text t) } else return [];
       return (type_param name loc) }"

definition parseTypeParam :: "SourceLocation \<Rightarrow> TemplateParamDecl parser" where
  "parseTypeParam loc =
     do {
       advance_token;
       variadic \<leftarrow> match Ellipsis;
       nameTok \<leftarrow> expect Identifier ''expected template parameter name'';
       colon \<leftarrow> match Colon;
       bound \<leftarrow> if colon then parseType else return empty_type;
       assign \<leftarrow> match Assign;
       dflt \<leftarrow> if assign then do { t \<leftarrow> parseType; return (Some t) } else return None;
       return (TemplateParamDecl TP_TypeParam (tk_text nameTok) bound [] variadic [] dflt None loc) }"

definition parseNonTypeDefault :: "TypeNode parser" where
  "parseNonTypeDefault =
     do {
       defVal \<leftarrow> expect IntegerLiteral ''expected default value for non-type template parameter'';
       v \<leftarrow> (case tryParseNonNegativeInt (tk_text defVal) of
           Some v \<Rightarrow> return v
         | None \<Rightarrow>
             do { error (tk_location defVal)
                    (''invalid non-type template parameter default '' @ quoted (tk_text defVal));
                  return 0 });
       return (TypeNode False Own_None [tk_text defVal] TM_None default_loc [] False False (Some v)
                 TId_None [] [] []) }"

definition parseNonTypeParam :: "SourceLocation \<Rightarrow> TemplateParamDecl parser" where
  "parseNonTypeParam loc =
     do {
       ty \<leftarrow> parseType;
       nameTok \<leftarrow> expect Identifier ''expected non-type template parameter name'';
       assign \<leftarrow> match Assign;
       dflt \<leftarrow> if assign then do { t \<leftarrow> parseNonTypeDefault; return (Some t) } else return None;
       return (TemplateParamDecl TP_NonTypeParam (tk_text nameTok) ty [] False [] dflt None loc) }"

definition parseTemplateTemplateParam :: "SourceLocation \<Rightarrow> TemplateParamDecl parser" where
  "parseTemplateTemplateParam loc =
     do {
       advance_token;
       expect LAngle ''expected '<' in template template parameter'';
       inner \<leftarrow> sepBy Comma (adding parseInnerParam) [];
       expect RAngle ''expected '>' in template template parameter'';
       expect KW_class ''expected 'class' after template template parameter list'';
       nameTok \<leftarrow> expect Identifier ''expected template template parameter name'';
       return (TemplateParamDecl TP_TemplateTemplateParam (tk_text nameTok) empty_type [] False
                 inner None None loc) }"

text \<open>One parameter, \<open>None\<close> where the source reports, resynchronizes and leaves the loop.\<close>

definition parseTemplateParam :: "TemplateParamDecl option parser" where
  "parseTemplateParam =
     do {
       t \<leftarrow> peek_token;
       let k = tk_kind t;
       let loc = tk_location t;
       if k = KW_typename then do { p \<leftarrow> parseTypeParam loc; return (Some p) }
       else if isTypeStart k then do { p \<leftarrow> parseNonTypeParam loc; return (Some p) }
       else if k = KW_template then do { p \<leftarrow> parseTemplateTemplateParam loc; return (Some p) }
       else
         do {
           errorHere ''expected 'typename', type, or 'template' in template parameter list'';
           synchronize;
           return None } }"

definition parseTemplateParamList :: "TemplateParamDecl list parser" where
  "parseTemplateParamList =
     do {
       expect LAngle (''expected '<' after '' @ quoted ''template'');
       closed \<leftarrow> match RAngle;
       if closed then return []
       else do {
         params \<leftarrow> loop (\<lambda>ps. do {
           p \<leftarrow> parseTemplateParam;
           case p of
             None \<Rightarrow> return (Break ps)
           | Some q \<Rightarrow>
               do { again \<leftarrow> match Comma;
                    return (if again then Continue (ps @ [q]) else Break (ps @ [q])) } }) [];
         expect RAngle ''expected '>' to close template parameter list'';
         return params } }"

section \<open>Types\<close>

text \<open>Brace-balanced skipping of a body that is not allowed; its opening brace comes next.\<close>

definition skipBody :: "unit parser" where
  "skipBody =
     do {
       advance_token;
       loop (\<lambda>depth. do {
         k \<leftarrow> kind;
         if k = Eof \<or> depth = 0 then return (Break depth)
         else do {
           advance_token;
           return (Continue (if k = LCurly then depth + 1 else if k = RCurly then depth - 1 else depth)) } })
         (1 :: nat);
       return () }"

definition endMemberFn :: "string \<Rightarrow> unit parser" where
  "endMemberFn msg =
     do {
       body \<leftarrow> check LCurly;
       if body then
         do { errorHere ''member function bodies are prohibited in Topo (C001)''; skipBody }
       else do { expect Semicolon msg; return () } }"

definition constructor_fn :: "string \<Rightarrow> bool \<Rightarrow> Parameter list \<Rightarrow> FnDecl" where
  "constructor_fn typeName isExplicit params =
     empty_fn\<lparr>fd_isConstructor := True, fd_isExplicit := isExplicit, fd_className := typeName,
              fd_name := typeName, fd_params := params\<rparr>"

definition parseConstructorRest :: "SourceLocation \<Rightarrow> string \<Rightarrow> bool \<Rightarrow> ASTNode parser" where
  "parseConstructorRest loc typeName isExplicit =
     do {
       expect LParen ''expected '(' in constructor declaration'';
       params \<leftarrow> parseParameters ''expected parameter name'';
       expect RParen ''expected ')' in constructor declaration'';
       endMemberFn ''expected ';' after constructor declaration'';
       return (FnDeclNode (node_at loc) (constructor_fn typeName isExplicit params)) }"

definition parseDestructor :: "SourceLocation \<Rightarrow> string \<Rightarrow> ASTNode parser" where
  "parseDestructor loc typeName =
     do {
       advance_token;
       dtorName \<leftarrow> expect Identifier (''expected type name after '' @ quoted ''~'');
       (if tk_text dtorName \<noteq> typeName
        then error (tk_location dtorName)
          (''destructor name '' @ quoted (''~'' @ tk_text dtorName) @ '' does not match type name '' @
           quoted typeName)
        else return ());
       expect LParen ''expected '(' after destructor name'';
       expect RParen ''expected ')' in destructor declaration'';
       expect Semicolon ''expected ';' after destructor declaration'';
       return (FnDeclNode (node_at loc)
         (empty_fn\<lparr>fd_isDestructor := True, fd_className := typeName,
                   fd_name := ''~'' @ typeName\<rparr>)) }"

definition parseExplicitConstructor :: "SourceLocation \<Rightarrow> string \<Rightarrow> ASTNode parser" where
  "parseExplicitConstructor loc typeName =
     do {
       advance_token;
       ctorName \<leftarrow> expect Identifier (''expected constructor name after '' @ quoted ''explicit'');
       (if tk_text ctorName \<noteq> typeName
        then error (tk_location ctorName)
          (''explicit constructor name '' @ quoted (tk_text ctorName) @ '' does not match type name '' @
           quoted typeName)
        else return ());
       parseConstructorRest loc typeName True }"

definition memberVariable :: "SourceLocation \<Rightarrow> bool \<Rightarrow> TypeNode \<Rightarrow> string \<Rightarrow> ASTNode" where
  "memberVariable loc isStatic ty name =
     DataDeclNode (node_with loc (if isStatic then [mkModifier MK_Static loc []] else []))
       (empty_data\<lparr>dd_type := ty, dd_name := name\<rparr>)"

text \<open>What follows \<open>Type name\<close>: a member function or a member variable.\<close>

definition parseMemberRest :: "SourceLocation \<Rightarrow> bool \<Rightarrow> TypeNode \<Rightarrow> string \<Rightarrow> ASTNode parser" where
  "parseMemberRest loc isStatic ty name =
     do {
       k \<leftarrow> kind;
       if k = LParen then
         do {
           advance_token;
           params \<leftarrow> parseParameters ''expected parameter name'';
           expect RParen ''expected ')' in member function declaration'';
           decl \<leftarrow> parseConstSuffix
             (empty_fn\<lparr>fd_returnType := ty, fd_name := name, fd_isStatic := isStatic, fd_params := params\<rparr>);
           endMemberFn ''expected ';' after member function declaration'';
           return (FnDeclNode (node_at loc) decl) }
       else if k = Assign then
         do {
           errorHere ''member variable initializers are prohibited in Topo (C004)'';
           synchronize;
           return (memberVariable loc isStatic ty name) }
       else
         do {
           expect Semicolon ''expected ';' after member variable declaration'';
           return (memberVariable loc isStatic ty name) } }"

definition parsePlainMember :: "SourceLocation \<Rightarrow> bool \<Rightarrow> ASTNode option parser" where
  "parsePlainMember loc isStatic =
     do {
       k \<leftarrow> kind;
       if \<not> isTypeStart k then
         do { errorHere ''expected type member declaration''; synchronize; return None }
       else do {
         ty \<leftarrow> parseType;
         ident \<leftarrow> check Identifier;
         if \<not> ident then
           do { errorHere ''expected member name after type''; synchronize; return None }
         else do {
           memberName \<leftarrow> advance_token;
           n \<leftarrow> parseMemberRest loc isStatic ty (tk_text memberName);
           return (Some n) } } }"

text \<open>The members after an optional \<open>static\<close>.\<close>

definition parseStaticMember :: "SourceLocation \<Rightarrow> string \<Rightarrow> bool \<Rightarrow> ASTNode option parser" where
  "parseStaticMember loc typeName isStatic =
     do {
       isOp \<leftarrow> checkNext KW_fn KW_operator;
       if isOp then
         do { n \<leftarrow> parseOperatorDecl;
              return (Some (if isStatic then mapFn (\<lambda>d. d\<lparr>fd_isStatic := True\<rparr>) n else n)) }
       else do {
         isCtor \<leftarrow> both (checkText typeName) (nextIs LParen);
         if isCtor then
           do {
             (if isStatic then error loc ''constructors cannot be declared static'' else return ());
             advance_token;
             n \<leftarrow> parseConstructorRest loc typeName False;
             return (Some n) }
         else do {
           using \<leftarrow> check KW_using;
           if using then do { n \<leftarrow> parseTypeAliasAsDataDecl; return (Some n) }
           else parsePlainMember loc isStatic } } }"

definition prependModifiers :: "ModifierData list \<Rightarrow> ASTNode option \<Rightarrow> ASTNode option" where
  "prependModifiers mods = map_option (mapModifiers (\<lambda>ms. mods @ ms))"

fun parseTypeMemberN :: "nat \<Rightarrow> ASTNode option parser \<Rightarrow> string \<Rightarrow> ASTNode option parser" where
  "parseTypeMemberN 0 memberDecl typeName = outOfFuel None"
| "parseTypeMemberN (Suc n) memberDecl typeName =
     do {
       t \<leftarrow> peek_token;
       let k = tk_kind t;
       let loc = tk_location t;
       if k = KW_external \<or> k = KW_comptime then
         do {
           modifier \<leftarrow> advance_token;
           m \<leftarrow> parseTypeMemberN n memberDecl typeName;
           return (prependModifiers
             [mkModifier (if tk_kind modifier = KW_external then MK_External else MK_Comptime)
                (tk_location modifier) []] m) }
       else if k = KW_type \<or> k = KW_class \<or> k = KW_template then memberDecl
       else if k = KW_virtual then
         do { error loc (quoted ''virtual'' @ '' is prohibited in Topo (C002)''); synchronize; return None }
       else if k = Tilde then do { n \<leftarrow> parseDestructor loc typeName; return (Some n) }
       else if k = KW_explicit then do { n \<leftarrow> parseExplicitConstructor loc typeName; return (Some n) }
       else do { isStatic \<leftarrow> match KW_static; parseStaticMember loc typeName isStatic } }"

definition parseTypeMember :: "ASTNode option parser \<Rightarrow> string \<Rightarrow> ASTNode option parser" where
  "parseTypeMember memberDecl typeName =
     do { n \<leftarrow> reads budget; parseTypeMemberN (Suc n) memberDecl typeName }"

text \<open>The loop of a visibility section: its members and the priority in force.\<close>

definition prioritized :: "PriorityLevel \<Rightarrow> ASTNode \<Rightarrow> ASTNode" where
  "prioritized p = mapFn (\<lambda>d. d\<lparr>fd_priority := p\<rparr>)"

definition sectionMembers :: "ASTNode option parser \<Rightarrow> ASTNode list parser" where
  "sectionMembers memberDecl =
     do {
       r \<leftarrow> untilRound (\<lambda>k. k = RCurly \<or> isVisibilityKeyword k)
         (\<lambda>(members, p). do {
            priority \<leftarrow> check KW_priority;
            if priority then do { p' \<leftarrow> parsePriorityLevel; return (members, p') }
            else do {
              m \<leftarrow> moving memberDecl;
              return (case m of
                Some n \<Rightarrow> (members @ [prioritized p n], p)
              | None \<Rightarrow> (members, p)) } }) ([], Pri_Normal);
       return (fst r) }"

text \<open>The visibility of a section; a type body has no ignored sections.\<close>

definition sectionVisibility :: "bool \<Rightarrow> TokenKind \<Rightarrow> Visibility" where
  "sectionVisibility inType k =
     (if k = KW_public then Vis_Public
      else if k = KW_protected then Vis_Protected
      else if k = KW_internal then Vis_Internal
      else if k = KW_ignore \<and> \<not> inType then Vis_Ignore
      else Vis_Private)"

definition parseSection :: "bool \<Rightarrow> ASTNode option parser \<Rightarrow> ASTNode parser" where
  "parseSection inType memberDecl =
     do {
       t \<leftarrow> advance_token;
       expect Colon ''expected ':' after visibility specifier'';
       ms \<leftarrow> sectionMembers memberDecl;
       return (VisibilitySection (node_at (tk_location t)) (sectionVisibility inType (tk_kind t)) ms) }"

definition parseTypeSections :: "ASTNode option parser \<Rightarrow> string \<Rightarrow> ASTNode list parser" where
  "parseTypeSections memberDecl typeName =
     untilKind (\<lambda>k. k = RCurly) (\<lambda>secs. do {
       k \<leftarrow> kind;
       if isVisibilityKeyword k then
         do { sec \<leftarrow> parseSection True (parseTypeMember memberDecl typeName); return (secs @ [sec]) }
       else
         do {
           errorHere ''expected visibility specifier (public, protected, private) in type body'';
           synchronize;
           return secs } }) []"

text \<open>\<open>None\<close> as a base after a colon is the early return of the source.\<close>

definition parseBaseClass :: "TypeNode option option parser" where
  "parseBaseClass =
     do {
       colon \<leftarrow> match Colon;
       if \<not> colon then return (Some None)
       else do {
         public \<leftarrow> match KW_public;
         if public then do { t \<leftarrow> parseType; return (Some (Some t)) }
         else do {
           errorHere ''expected 'public' in inheritance declaration'';
           synchronize;
           return None } } }"

definition parseSpecializationArgs :: "TypeNode list parser" where
  "parseSpecializationArgs =
     do {
       angle \<leftarrow> match LAngle;
       if angle then
         do {
           ts \<leftarrow> listUntil RAngle ''expected ',' or '>' in specialization argument list'' parseType;
           expect RAngle ''expected '>' after specialization arguments'';
           return ts }
       else return [] }"

definition parseTypeDecl :: "ASTNode option parser \<Rightarrow> ASTNode option parser" where
  "parseTypeDecl memberDecl =
     do {
       loc \<leftarrow> location;
       k \<leftarrow> kind;
       if k \<noteq> KW_type \<and> k \<noteq> KW_class then
         do { errorHere (''expected 'type' or '' @ quoted ''class''); synchronize; return None }
       else do {
         advance_token;
         nameTok \<leftarrow> expect Identifier ''expected type name'';
         spec \<leftarrow> parseSpecializationArgs;
         base \<leftarrow> parseBaseClass;
         let d = (empty_typedecl (tk_text nameTok))\<lparr>td_specializationArgs := spec\<rparr>;
         case base of
           None \<Rightarrow> return (Some (TypeDeclNode (node_at loc) d []))
         | Some b \<Rightarrow>
             do {
               expect LCurly ''expected '{' after type declaration'';
               secs \<leftarrow> parseTypeSections memberDecl (tk_text nameTok);
               expect RCurly ''expected '}' to close type'';
               return (Some (TypeDeclNode (node_at loc) (d\<lparr>td_baseClass := b\<rparr>) secs)) } } }"

section \<open>Nested declarations\<close>

fun templated :: "TemplateParamDecl list \<Rightarrow> ASTNode \<Rightarrow> ASTNode" where
  "templated ps (TypeDeclNode b d secs) =
     TypeDeclNode b
       (d\<lparr>td_templateParams := ps,
          td_isSpecialization := td_isSpecialization d \<or> (td_specializationArgs d \<noteq> [] \<and> ps = []),
          td_isPartialSpecialization :=
            td_isPartialSpecialization d \<or> (td_specializationArgs d \<noteq> [] \<and> ps \<noteq> [])\<rparr>) secs"
| "templated ps (FnLogicBlock b n ops edges _) = FnLogicBlock b n ops edges ps"
| "templated ps (FnDeclNode b d) = FnDeclNode b (d\<lparr>fd_templateParams := ps\<rparr>)"
| "templated ps n = n"

definition classDeprecated :: "unit parser" where
  "classDeprecated =
     do { loc \<leftarrow> location;
          warning loc (quoted ''class'' @ '' is deprecated, use 'type' instead'') }"

text \<open>A declaration that starts with an identifier: by the token after it.\<close>

definition parseFnByNext :: "ASTNode parser" where
  "parseFnByNext =
     do {
       nxt \<leftarrow> peekNext_token;
       if tk_kind nxt = LParen \<or> tk_kind nxt = Dot then parseFnDeclRustStyle
       else parseFnDeclCppStyle }"

definition parseTemplateDecl :: "ASTNode option parser \<Rightarrow> ASTNode option parser" where
  "parseTemplateDecl memberDecl =
     do {
       expect KW_template (''expected '' @ quoted ''template'');
       ps \<leftarrow> parseTemplateParamList;
       k \<leftarrow> kind;
       if k = KW_type \<or> k = KW_class then
         do {
           (if k = KW_class then classDeprecated else return ());
           n \<leftarrow> parseTypeDecl memberDecl;
           return (map_option (templated ps) n) }
       else if k = KW_fn then do { n \<leftarrow> parseFnLogicBlock; return (Some (templated ps n)) }
       else if k = KW_void \<or> k = KW_const then
         do { n \<leftarrow> parseFnDeclCppStyle; return (Some (templated ps n)) }
       else if k = Identifier then do { n \<leftarrow> parseFnByNext; return (Some (templated ps n)) }
       else
         do {
           errorHere ''expected function or type declaration after template<...>'';
           synchronize;
           return None } }"

definition parseNamespacePath :: "string list parser" where
  "parseNamespacePath =
     do {
       first \<leftarrow> expectNamespaceIdentifier ''expected namespace name'';
       whileMatch ColonColon (\<lambda>path. do {
         part \<leftarrow> expectNamespaceIdentifier (''expected identifier after '' @ quoted ''::'');
         return (path @ [tk_text part]) }) [tk_text first] }"

text \<open>A declaration at namespace level, in a protected section of its own.\<close>

fun nodeLocation :: "ASTNode \<Rightarrow> SourceLocation" where
  "nodeLocation (DataDeclNode b d) = nd_location b"
| "nodeLocation (FnDeclNode b d) = nd_location b"
| "nodeLocation (FnLogicBlock b n os es ps) = nd_location b"
| "nodeLocation n = default_loc"

definition protectedSection :: "ASTNode \<Rightarrow> ASTNode" where
  "protectedSection n = VisibilitySection (node_at (nodeLocation n)) Vis_Protected [n]"

definition lifetimeNext :: "bool parser" where
  "lifetimeNext = both (checkText ''lifetime'') (nextIs Identifier)"

definition parseNamespaceItem :: "ASTNode option parser \<Rightarrow> ASTNode option parser" where
  "parseNamespaceItem memberDecl =
     do {
       lifetime \<leftarrow> lifetimeNext;
       if lifetime then do { n \<leftarrow> parseLifetimeAsDataDecl; return (Some (protectedSection n)) }
       else do {
         k \<leftarrow> kind;
         if k = KW_handler then do { n \<leftarrow> parseHandlerDecl; return (Some (protectedSection n)) }
         else if k = KW_flow then do { n \<leftarrow> parseFlowDecl; return (Some (protectedSection n)) }
         else if k = KW_fn then do { n \<leftarrow> parseFnLogicBlock; return (Some (protectedSection n)) }
         else if isVisibilityKeyword k then
           do { n \<leftarrow> parseSection False memberDecl; return (Some n) }
         else
           do {
             errorHere ''expected visibility specifier (public, protected, private, or internal)'';
             advance_token;
             synchronize;
             return None } } }"

definition parseNamespaceDecl :: "bool \<Rightarrow> ASTNode option parser \<Rightarrow> ASTNode parser" where
  "parseNamespaceDecl isInternal memberDecl =
     do {
       loc \<leftarrow> location;
       expect KW_namespace (''expected '' @ quoted ''namespace'');
       path \<leftarrow> parseNamespacePath;
       expect LCurly ''expected '{' after namespace path'';
       secs \<leftarrow> untilKind (\<lambda>k. k = RCurly) (addingOpt (parseNamespaceItem memberDecl)) [];
       expect RCurly ''expected '}' to close namespace'';
       return (NamespaceDecl (node_at loc) path secs isInternal) }"

definition memberBlock :: "ASTNode option parser \<Rightarrow> ASTNode list parser" where
  "memberBlock memberDecl = untilKind (\<lambda>k. k = RCurly) (addingOpt memberDecl) []"

definition parseComptimeIf :: "ModifierData list \<Rightarrow> ASTNode option parser \<Rightarrow> ASTNode parser" where
  "parseComptimeIf mods memberDecl =
     do {
       advance_token;
       expect LParen (''expected '(' after '' @ quoted ''comptime if'');
       condition \<leftarrow> parseExpression;
       expect RParen ''expected ')' after condition'';
       expect LCurly ''expected '{' after comptime if condition'';
       thenBody \<leftarrow> memberBlock memberDecl;
       expect RCurly ''expected '}' after comptime if body'';
       alt \<leftarrow> match KW_else;
       elseBody \<leftarrow>
         (if alt then
            do {
              expect LCurly (''expected '{' after '' @ quoted ''else'');
              b \<leftarrow> memberBlock memberDecl;
              expect RCurly ''expected '}' after else body'';
              return b }
          else return []);
       return (IfDecl (node_with (md_location (hd mods)) mods) (Some condition) thenBody elseBody) }"

definition parseComptimeFn :: "ModifierData list \<Rightarrow> ASTNode parser" where
  "parseComptimeFn mods =
     do {
       advance_token;
       nameTok \<leftarrow> expect Identifier (''expected function name after '' @ quoted ''comptime fn'');
       expect LParen ''expected '(' after comptime fn name'';
       params \<leftarrow> listUntil RParen ''expected ',' or ')' in parameter list''
                   (parseParameter ''expected parameter name'');
       expect RParen ''expected ')' after parameter list'';
       expect Arrow ''expected '->' after comptime fn parameters'';
       ty \<leftarrow> parseType;
       expect LCurly ''expected '{' after return type'';
       body \<leftarrow> parseExpression;
       expect RCurly ''expected '}' after comptime fn body'';
       return (FnDeclNode (node_with (md_location (hd mods)) mods)
         (empty_fn\<lparr>fd_name := tk_text nameTok, fd_isRustStyle := True, fd_params := params,
                   fd_returnType := ty, fd_comptimeBody := Some body\<rparr>)) }"

text \<open>No caller is left for this entry to the same two forms.\<close>

definition parseComptimeDecl :: "ASTNode option parser \<Rightarrow> ASTNode option parser" where
  "parseComptimeDecl memberDecl =
     do {
       loc \<leftarrow> location;
       expect KW_comptime (''expected '' @ quoted ''comptime'');
       k \<leftarrow> kind;
       let mods = [mkModifier MK_Comptime loc []];
       if k = KW_if then do { n \<leftarrow> parseComptimeIf mods memberDecl; return (Some n) }
       else if k = KW_fn then do { n \<leftarrow> parseComptimeFn mods; return (Some n) }
       else
         do { errorHere (''expected 'if' or 'fn' after '' @ quoted ''comptime''); synchronize; return None } }"

text \<open>A function declaration takes the modifiers, \<open>static\<close> also as a flag.\<close>

definition withStatic :: "ModifierData list \<Rightarrow> ASTNode \<Rightarrow> ASTNode" where
  "withStatic mods n =
     mapModifiers (\<lambda>_. mods)
       (if hasModifier MK_Static mods then mapFn (\<lambda>d. d\<lparr>fd_isStatic := True\<rparr>) n else n)"

definition opensCppMember :: "TokenKind \<Rightarrow> bool" where
  "opensCppMember k \<longleftrightarrow>
     k = KW_void \<or> k = KW_const \<or> k = KW_owned \<or> k = KW_shared \<or> k = KW_weak \<or> isStdlibTypeToken k"

text \<open>The members that start with an identifier, the contextual ones first.\<close>

definition parseIdentifierMember :: "ModifierData list \<Rightarrow> ASTNode parser" where
  "parseIdentifierMember mods =
     do {
       std \<leftarrow> both (checkText ''std'') (nextIs ColonColon);
       if std then
         do { n \<leftarrow> parseStdImportAsDataDecl; return (mapModifiers (\<lambda>_. mods) n) }
       else do {
         lifetime \<leftarrow> lifetimeNext;
         if lifetime then
           do { n \<leftarrow> parseLifetimeAsDataDecl; return (mapModifiers (\<lambda>ms. mods @ ms) n) }
         else do { n \<leftarrow> parseFnByNext; return (withStatic mods n) } } }"

definition parseMemberBody :: "ASTNode option parser \<Rightarrow> ASTNode option parser" where
  "parseMemberBody memberDecl =
     do {
       mods \<leftarrow> collectModifiers;
       k \<leftarrow> kind;
       let replacing = (\<lambda>n. Some (mapModifiers (\<lambda>_. mods) n));
       let prepending = (\<lambda>n. Some (mapModifiers (\<lambda>ms. mods @ ms) n));
       let appending = (\<lambda>n. Some (mapModifiers (\<lambda>ms. ms @ mods) n));
       let hasComptime = hasModifier MK_Comptime mods;
       if hasComptime \<and> k = KW_if then do { n \<leftarrow> parseComptimeIf mods memberDecl; return (Some n) }
       else if hasComptime \<and> k = KW_fn then do { n \<leftarrow> parseComptimeFn mods; return (Some n) }
       else if k = KW_fn then
         do {
           isOp \<leftarrow> nextIs KW_operator;
           n \<leftarrow> if isOp then parseOperatorDecl else parseFnLogicBlock;
           return (replacing n) }
       else if k = KW_handler then do { n \<leftarrow> parseHandlerDecl; return (appending n) }
       else if k = KW_flow then do { n \<leftarrow> parseFlowDecl; return (appending n) }
       else if k = Identifier then do { n \<leftarrow> parseIdentifierMember mods; return (Some n) }
       else if k = KW_using then do { n \<leftarrow> parseTypeAliasAsDataDecl; return (replacing n) }
       else if k = KW_internal then
         do {
           ns \<leftarrow> nextIs KW_namespace;
           if ns then
             do { advance_token; n \<leftarrow> parseNamespaceDecl True memberDecl; return (Some n) }
           else
             do { errorHere ''expected member declaration''; synchronize; return None } }
       else if k = KW_namespace then
         do { n \<leftarrow> parseNamespaceDecl False memberDecl; return (Some n) }
       else if k = KW_template then
         do { n \<leftarrow> parseTemplateDecl memberDecl; return (prependModifiers mods n) }
       else if k = KW_type then
         do { n \<leftarrow> parseTypeDecl memberDecl; return (map_option (mapModifiers (\<lambda>_. mods)) n) }
       else if k = KW_class then
         do { classDeprecated; n \<leftarrow> parseTypeDecl memberDecl;
              return (map_option (mapModifiers (\<lambda>_. mods)) n) }
       else if k = KW_constraint then do { n \<leftarrow> parseConstraintAsTypeDecl; return (prepending n) }
       else if k = KW_adapt then do { n \<leftarrow> parseAdaptAsTypeDecl; return (prepending n) }
       else if k = KW_instantiate then
         do { n \<leftarrow> parseInstantiateAsDataDecl; return (prepending n) }
       else if k = KW_typefn then do { n \<leftarrow> parseTypeFnAsTypeDecl; return (prepending n) }
       else if k = KW_virtual then
         do { errorHere (quoted ''virtual'' @ '' is prohibited in Topo (C002)''); synchronize; return None }
       else if opensCppMember k then
         do { n \<leftarrow> parseFnDeclCppStyle; return (Some (withStatic mods n)) }
       else
         do { errorHere ''expected member declaration''; synchronize; return None } }"

fun parseMemberN :: "nat \<Rightarrow> ASTNode option parser" where
  "parseMemberN 0 = outOfFuel None"
| "parseMemberN (Suc n) = parseMemberBody (parseMemberN n)"

definition parseMemberDecl :: "ASTNode option parser" where
  "parseMemberDecl = do { n \<leftarrow> reads budget; parseMemberN (Suc n) }"

section \<open>Files\<close>

definition parseTopLevelDecl :: "ASTNode option parser" where
  "parseTopLevelDecl =
     do {
       k \<leftarrow> kind;
       if k = KW_import then do { n \<leftarrow> parseImport; return (Some n) }
       else do {
         std \<leftarrow> both (checkText ''std'') (nextIs ColonColon);
         if std then do { n \<leftarrow> parseStdImportAsDataDecl; return (Some n) }
         else if k = KW_using then do { n \<leftarrow> parseTypeAliasAsDataDecl; return (Some n) }
         else do {
           internal \<leftarrow> checkNext KW_internal KW_namespace;
           if internal then
             do { advance_token; n \<leftarrow> parseNamespaceDecl True parseMemberDecl; return (Some n) }
           else if k = KW_namespace then
             do { n \<leftarrow> parseNamespaceDecl False parseMemberDecl; return (Some n) }
           else do {
             dbg \<leftarrow> isDebugDeclStart;
             if dbg then do { n \<leftarrow> parseDebugDecl; return (Some n) }
             else do {
               errorHere ''expected top-level declaration (import, using, namespace, or debug)'';
               advance_token;
               synchronize;
               return None } } } } }"

definition parseTopoFile :: "ASTNode parser" where
  "parseTopoFile =
     do {
       loc \<leftarrow> location;
       decls \<leftarrow> untilKind (\<lambda>_. False) (addingOpt parseTopLevelDecl) [];
       return (TopoFile (node_at loc) decls) }"

text \<open>Constructing a parser on a lexer and parsing the file: the tree, and the engine.\<close>

definition parseFile :: "Lexer \<Rightarrow> ASTNode \<times> ParserState" where
  "parseFile lexer = run_state parseTopoFile (parser_init lexer)"

end
