(* ===== verification/ParserProgress.thy ===== *)
theory ParserProgress
  imports ParseNested
begin

text \<open>
  An algebra for the parser's progress.  \<open>sound K n Q p\<close>: started with a token of a kind in
  \<open>K\<close> and at most \<open>n\<close> left to do, \<open>p\<close> does not run out of fuel, adds nothing to what is left, keeps
  the recursion depth, moves when it reads, and leaves a result and a budget that satisfy \<open>Q\<close>.
  The rules follow the program text; a loop owes that a round that goes on has used something up.
\<close>

named_theorems run_special \<open>rules for the primitive parsers in front of a continuation\<close>
named_theorems not_Eof \<open>kinds that are not the end of the file\<close>
named_theorems run_facts \<open>what is known of whole parsers\<close>

section \<open>Steps\<close>

definition ready :: "ParserState \<Rightarrow> bool" where
  "ready s \<longleftrightarrow> lexer_ready (ps_lexer s) \<and> \<not> ps_stuck s"

abbreviation curKind :: "ParserState \<Rightarrow> TokenKind" where
  "curKind s \<equiv> tk_kind (ps_current s)"

abbreviation errorsOf :: "ParserState \<Rightarrow> int" where
  "errorsOf s \<equiv> errorCount (ps_diag s)"

definition steps :: "ParserState \<Rightarrow> ParserState \<Rightarrow> bool" where
  "steps s s' \<longleftrightarrow>
     ready s' \<and> tokensLeft s' \<le> tokensLeft s \<and> errorsOf s \<le> errorsOf s' \<and>
     ps_recursionDepth s' = ps_recursionDepth s \<and>
     (tokensLeft s' = tokensLeft s \<longrightarrow> curKind s \<noteq> Eof \<longrightarrow> ps_current s' = ps_current s)"

lemma steps_refl: "ready s \<Longrightarrow> steps s s"
  by (simp add: steps_def)

lemma steps_trans [trans]: "steps s s1 \<Longrightarrow> steps s1 s2 \<Longrightarrow> steps s s2"
  by (auto simp: steps_def)

lemma steps_budget: "steps s s' \<Longrightarrow> budget s' \<le> budget s"
  by (auto simp: steps_def budget_def)

lemma steps_ready: "steps s s' \<Longrightarrow> ready s'"
  by (simp add: steps_def)

lemma steps_strict: "steps s s' \<Longrightarrow> tokensLeft s' < tokensLeft s \<Longrightarrow> budget s' < budget s"
  by (auto simp: steps_def budget_def)

section \<open>The primitive parsers\<close>

lemma run_reads [simp]: "run_state (reads f) s = (f s, s)"
  by (simp add: reads_def)

lemma run_modify [simp]: "run_state (modify f) s = ((), f s)"
  by (simp add: modify_def)

lemma nextToken_uses:
  assumes "lexer_ready l" and "nextToken l = (t, l')"
  shows "lexer_ready l'" "tokenWeight t + 2 * lexer_remaining l' \<le> 2 * lexer_remaining l"
    "errorCount (lx_diag l) \<le> errorCount (lx_diag l')"
proof -
  show "lexer_ready l'"
    using lexer.ready_next [OF assms(1)] assms(2) by simp
  show "tokenWeight t + 2 * lexer_remaining l' \<le> 2 * lexer_remaining l"
    using lexer.next_uses [OF assms(1)] lexer.next_keeps [OF assms(1)] assms(2)
    by (auto simp: tokenWeight_def)
  show "errorCount (lx_diag l) \<le> errorCount (lx_diag l')"
  proof (cases "tokenBuffer l = []")
    case True
    from nextToken_scans [OF True] assms(2) show ?thesis by (simp add: scans_def)
  next
    case False
    from nextToken_buffered [OF False] assms(2) show ?thesis by (auto split: if_splits)
  qed
qed

lemma fetch_uses:
  assumes "ready s" and "fetch s = (t, s')"
  shows "ready s'" "tokenWeight t + (tokensLeft s' - tokenWeight (ps_current s)) \<le> tokensLeft s - tokenWeight (ps_current s)"
    "ps_current s' = ps_current s" "ps_lookahead s' = ps_lookahead s"
    "ps_recursionDepth s' = ps_recursionDepth s" "errorsOf s \<le> errorsOf s'"
proof -
  have "ready s' \<and> tokenWeight t + (tokensLeft s' - tokenWeight (ps_current s)) \<le> tokensLeft s - tokenWeight (ps_current s) \<and>
     ps_current s' = ps_current s \<and> ps_lookahead s' = ps_lookahead s \<and>
     ps_recursionDepth s' = ps_recursionDepth s \<and> errorsOf s \<le> errorsOf s'"
  proof (cases "ps_pending s")
    case Nil
    obtain l' where n: "nextToken (ps_lexer s) = (t, l')" and s': "s' = s\<lparr>ps_lexer := l'\<rparr>"
      using assms(2) Nil by (auto simp: fetch_def split: prod.splits)
    from assms(1) have "lexer_ready (ps_lexer s)" by (simp add: ready_def)
    from nextToken_uses [OF this n] s' assms(1) Nil show ?thesis
      by (auto simp: ready_def tokensLeft_def ps_diag_def)
  next
    case (Cons u us)
    with assms show ?thesis
      by (auto simp: fetch_def ready_def tokensLeft_def ps_diag_def)
  qed
  then show "ready s'" "tokenWeight t + (tokensLeft s' - tokenWeight (ps_current s)) \<le> tokensLeft s - tokenWeight (ps_current s)"
    "ps_current s' = ps_current s" "ps_lookahead s' = ps_lookahead s"
    "ps_recursionDepth s' = ps_recursionDepth s" "errorsOf s \<le> errorsOf s'"
    by blast+
qed

lemma tokensLeft_current: "tokenWeight (ps_current s) \<le> tokensLeft s"
  by (simp add: tokensLeft_def)

lemma peekNext_steps:
  assumes "ready s"
  shows "steps s (snd (run_state peekNext_token s)) \<and>
    ps_current (snd (run_state peekNext_token s)) = ps_current s"
proof (cases "ps_lookahead s")
  case None
  obtain t s' where f: "fetch s = (t, s')" by fastforce
  from fetch_uses [OF assms f] None tokensLeft_current [of s] tokensLeft_current [of s'] f show ?thesis
    by (auto simp: peekNext_token_def steps_def ready_def tokensLeft_def ps_diag_def)
next
  case (Some t)
  with assms show ?thesis by (simp add: peekNext_token_def steps_refl)
qed

lemma advance_steps:
  assumes "ready s"
  shows "steps s (snd (run_state advance_token s))"
    and "curKind s \<noteq> Eof \<Longrightarrow> tokensLeft (snd (run_state advance_token s)) < tokensLeft s"
    and "fst (run_state advance_token s) = ps_current s"
    and "ps_lookahead (snd (run_state advance_token s)) = None"
    and "tokenWeight (ps_current s) + tokensLeft (snd (run_state advance_token s)) \<le> tokensLeft s"
proof -
  have "ready (snd (run_state advance_token s)) \<and>
     tokensLeft (snd (run_state advance_token s)) + tokenWeight (ps_current s) \<le> tokensLeft s \<and>
     ps_recursionDepth (snd (run_state advance_token s)) = ps_recursionDepth s \<and>
     errorsOf s \<le> errorsOf (snd (run_state advance_token s)) \<and>
     ps_lookahead (snd (run_state advance_token s)) = None"
  proof (cases "ps_lookahead s")
    case None
    obtain t s' where f: "fetch s = (t, s')" by fastforce
    from fetch_uses [OF assms f] None tokensLeft_current [of s] tokensLeft_current [of s'] f show ?thesis
      by (auto simp: advance_token_def steps_def ready_def tokensLeft_def ps_diag_def)
  next
    case (Some t)
    with assms show ?thesis
      by (simp add: advance_token_def ready_def tokensLeft_def ps_diag_def)
  qed
  moreover have "curKind s \<noteq> Eof \<Longrightarrow> 0 < tokenWeight (ps_current s)"
    by (simp add: tokenWeight_def)
  ultimately show "steps s (snd (run_state advance_token s))"
    "curKind s \<noteq> Eof \<Longrightarrow> tokensLeft (snd (run_state advance_token s)) < tokensLeft s"
    "ps_lookahead (snd (run_state advance_token s)) = None"
    "tokenWeight (ps_current s) + tokensLeft (snd (run_state advance_token s)) \<le> tokensLeft s"
    by (auto simp: steps_def)
  show "fst (run_state advance_token s) = ps_current s"
    by (simp add: advance_token_def)
qed

lemma report_counts:
  "errorCount d \<le> errorCount (report lv loc msg code d)"
  "\<not> reachedLimit d \<Longrightarrow> errorCount d < errorCount (diag_error loc msg code d)"
  by (simp_all add: report_def diag_error_def reachedLimit_def Let_def)

lemma error_steps:
  "ready s \<Longrightarrow> steps s (snd (run_state (error loc msg) s))"
  "ready s \<Longrightarrow> steps s (snd (run_state (warning loc msg) s))"
  using report_counts(1) [of "ps_diag s"]
  by (simp_all add: error_def warning_def steps_def ready_def tokensLeft_def ps_diag_def
      lexer_ready_def lexer_remaining_def lex_wf_def diag_error_def diag_warning_def engine_ok_report)

lemma error_uses:
  "ready s \<Longrightarrow> \<not> reachedLimit (ps_diag s) \<Longrightarrow> budget (snd (run_state (error loc msg) s)) < budget s"
  using report_counts(2) [of "ps_diag s" loc msg "[]"]
  by (simp add: error_def budget_def tokensLeft_def ps_diag_def lexer_remaining_def reachedLimit_def)

section \<open>The judgement\<close>

definition sound :: "TokenKind set \<Rightarrow> nat \<Rightarrow> ('a \<Rightarrow> nat \<Rightarrow> bool) \<Rightarrow> 'a parser \<Rightarrow> bool" where
  "sound K n Q p \<longleftrightarrow>
     (\<forall>s. ready s \<and> budget s \<le> n \<and> curKind s \<in> K \<longrightarrow>
       steps s (snd (run_state p s)) \<and>
       Q (fst (run_state p s)) (budget (snd (run_state p s))))"

abbreviation runs :: "TokenKind set \<Rightarrow> nat \<Rightarrow> 'a parser \<Rightarrow> bool" where
  "runs K n p \<equiv> sound K n (\<lambda>_ _. True) p"

text \<open>What a recursive call may rely on: the parser runs on every smaller budget.\<close>

definition below :: "nat \<Rightarrow> 'a parser \<Rightarrow> bool" where
  "below n p \<longleftrightarrow> (\<forall>m < n. runs UNIV m p)"

lemma soundD:
  "sound K n Q p \<Longrightarrow> ready s \<Longrightarrow> budget s \<le> n \<Longrightarrow> curKind s \<in> K \<Longrightarrow> run_state p s = (x, s') \<Longrightarrow>
   steps s s' \<and> Q x (budget s')"
  unfolding sound_def by force

lemma sound_mono:
  "sound K n Q p \<Longrightarrow> K' \<subseteq> K \<Longrightarrow> n' \<le> n \<Longrightarrow> (\<And>x b. Q x b \<Longrightarrow> Q' x b) \<Longrightarrow> sound K' n' Q' p"
  unfolding sound_def by force

lemma below_runs: "below n p \<Longrightarrow> m < n \<Longrightarrow> runs K m p"
  by (auto simp: below_def intro: sound_mono)

lemma below_mono: "below n p \<Longrightarrow> m \<le> n \<Longrightarrow> below m p"
  by (auto simp: below_def)

lemma sound_return [run_special]:
  "(\<And>b. b \<le> n \<Longrightarrow> Q x b) \<Longrightarrow> sound K n Q (State_Monad.return x)"
  by (simp add: sound_def steps_refl)

lemma sound_bind:
  assumes "sound K n P p" and "\<And>x m. m \<le> n \<Longrightarrow> P x m \<Longrightarrow> sound UNIV m Q (f x)"
  shows "sound K n Q (State_Monad.bind p f)"
  unfolding sound_def
proof (intro allI impI)
  fix s assume s: "ready s \<and> budget s \<le> n \<and> curKind s \<in> K"
  obtain x s1 where r: "run_state p s = (x, s1)" by fastforce
  with soundD [OF assms(1)] s have 1: "steps s s1" "P x (budget s1)" by auto
  with steps_budget s have "budget s1 \<le> n" by fastforce
  from assms(2) [OF this 1(2)] 1 r steps_trans [OF 1(1)]
  show "steps s (snd (run_state (State_Monad.bind p f) s)) \<and>
      Q (fst (run_state (State_Monad.bind p f) s)) (budget (snd (run_state (State_Monad.bind p f) s)))"
    by (auto simp: sound_def steps_ready split: prod.split)
qed

text \<open>Tests look at the current token and leave it.\<close>

lemma sound_look:
  "(\<And>s. snd (run_state p s) = s) \<Longrightarrow>
   (\<And>k s. k \<in> K \<Longrightarrow> curKind s = k \<Longrightarrow> sound {k} n Q (f (fst (run_state p s)))) \<Longrightarrow>
   sound K n Q (State_Monad.bind p f)"
  unfolding sound_def by (auto split: prod.split simp: prod_eq_iff)

lemma sound_kind [run_special]:
  "(\<And>k. k \<in> K \<Longrightarrow> sound {k} n Q (f k)) \<Longrightarrow> sound K n Q (State_Monad.bind kind f)"
  by (rule sound_look) (auto simp: kind_def)

lemma sound_peek [run_special]:
  "(\<And>t. tk_kind t \<in> K \<Longrightarrow> sound {tk_kind t} n Q (f t)) \<Longrightarrow>
   sound K n Q (State_Monad.bind peek_token f)"
  by (rule sound_look) (auto simp: peek_token_def)

lemma sound_check [run_special]:
  "(\<And>k'. k' \<in> K \<Longrightarrow> sound {k'} n Q (f (k' = k))) \<Longrightarrow> sound K n Q (State_Monad.bind (check k) f)"
  by (rule sound_look) (auto simp: check_def)

lemma sound_checkText [run_special]:
  "(\<And>k' b. k' \<in> K \<Longrightarrow> (b \<Longrightarrow> k' = Identifier) \<Longrightarrow> sound {k'} n Q (f b)) \<Longrightarrow>
   sound K n Q (State_Monad.bind (checkText txt) f)"
  by (rule sound_look) (auto simp: checkText_def)

lemma sound_location [run_special]:
  "(\<And>l. sound K n Q (f l)) \<Longrightarrow> sound K n Q (State_Monad.bind location f)"
  by (simp add: sound_def location_def)

lemma sound_reads [run_special]:
  "(\<And>x. sound K n Q (f x)) \<Longrightarrow> sound K n Q (State_Monad.bind (reads g) f)"
  by (simp add: sound_def)

lemma sound_peekNext [run_special]:
  assumes "\<And>t. sound K n Q (f t)"
  shows "sound K n Q (State_Monad.bind peekNext_token f)"
  unfolding sound_def
proof (intro allI impI)
  fix s assume s: "ready s \<and> budget s \<le> n \<and> curKind s \<in> K"
  obtain t s1 where r: "run_state peekNext_token s = (t, s1)" by fastforce
  with peekNext_steps [of s] s have 1: "steps s s1" "ps_current s1 = ps_current s" by auto
  with assms [of t] steps_budget [OF 1(1)] s steps_trans [OF 1(1)] r
  show "steps s (snd (run_state (State_Monad.bind peekNext_token f) s)) \<and>
      Q (fst (run_state (State_Monad.bind peekNext_token f) s))
        (budget (snd (run_state (State_Monad.bind peekNext_token f) s)))"
    by (auto simp: sound_def steps_ready split: prod.split)
qed

text \<open>Reading a token uses the budget up, except at the end of the file.\<close>

lemma sound_advance [run_special]:
  assumes "\<And>t m. m \<le> n \<Longrightarrow> (Eof \<notin> K \<Longrightarrow> m < n) \<Longrightarrow> tk_kind t \<in> K \<Longrightarrow> sound UNIV m Q (f t)"
  shows "sound K n Q (State_Monad.bind advance_token f)"
  unfolding sound_def
proof (intro allI impI)
  fix s assume s: "ready s \<and> budget s \<le> n \<and> curKind s \<in> K"
  obtain t s1 where r: "run_state advance_token s = (t, s1)" by fastforce
  with advance_steps(1-3) [of s] s
  have 1: "steps s s1" "Eof \<notin> K \<Longrightarrow> tokensLeft s1 < tokensLeft s" "t = ps_current s"
    by (cases "curKind s = Eof"; force)+
  with steps_strict [OF 1(1)] steps_budget [OF 1(1)] s
  have "budget s1 \<le> n" "Eof \<notin> K \<Longrightarrow> budget s1 < n" by fastforce+
  from assms [OF this] 1 s r steps_trans [OF 1(1)]
  show "steps s (snd (run_state (State_Monad.bind advance_token f) s)) \<and>
      Q (fst (run_state (State_Monad.bind advance_token f) s))
        (budget (snd (run_state (State_Monad.bind advance_token f) s)))"
    by (auto simp: sound_def steps_ready split: prod.split)
qed

lemma sound_error [run_special]:
  assumes "\<And>m. m \<le> n \<Longrightarrow> sound K m Q (f ())"
  shows "sound K n Q (State_Monad.bind (error loc msg) f)"
    "sound K n Q (State_Monad.bind (warning loc msg) f)"
proof -
  have "sound K n Q (State_Monad.bind p f)"
    if p: "\<And>s. ready s \<Longrightarrow> steps s (snd (run_state p s))"
      "\<And>s. ps_current (snd (run_state p s)) = ps_current s" for p :: "unit parser"
    unfolding sound_def
  proof (intro allI impI)
    fix s assume s: "ready s \<and> budget s \<le> n \<and> curKind s \<in> K"
    obtain s1 where r: "run_state p s = ((), s1)" by (cases "run_state p s") simp
    with p [of s] s have 1: "steps s s1" "ps_current s1 = ps_current s" by auto
    with steps_budget [OF 1(1)] s assms [of "budget s1"] r steps_trans [OF 1(1)]
    show "steps s (snd (run_state (State_Monad.bind p f) s)) \<and>
        Q (fst (run_state (State_Monad.bind p f) s)) (budget (snd (run_state (State_Monad.bind p f) s)))"
      by (auto simp: sound_def steps_ready split: prod.split)
  qed
  from this [of "error loc msg"] this [of "warning loc msg"] error_steps
  show "sound K n Q (State_Monad.bind (error loc msg) f)"
    "sound K n Q (State_Monad.bind (warning loc msg) f)"
    by (simp_all add: error_def warning_def)
qed

lemma sound_errorHere [run_special]:
  "(\<And>m. m \<le> n \<Longrightarrow> sound K m Q (f ())) \<Longrightarrow> sound K n Q (State_Monad.bind (errorHere msg) f)"
  unfolding errorHere_def bind_assoc by (intro sound_location sound_error)

text \<open>A report or a warning, and other primitives, at the end of a parser.\<close>

lemma sound_last: "sound K n Q (State_Monad.bind p return) \<Longrightarrow> sound K n Q p"
  by simp

lemma runs_last [run_facts]:
  "runs K n advance_token" "runs K n peekNext_token" "runs K n peek_token"
  "runs K n (error loc msg)" "runs K n (warning loc msg)" "runs K n (errorHere msg)"
  by (rule sound_last, (rule run_special)+, simp)+

lemma sound_expect [run_special]:
  assumes "\<And>t m. m \<le> n \<Longrightarrow> (K \<subseteq> {k} \<or> tk_kind t = k \<Longrightarrow> k \<noteq> Eof \<Longrightarrow> m < n) \<Longrightarrow> sound UNIV m Q (f t)"
  shows "sound K n Q (State_Monad.bind (expect k msg) f)"
  unfolding expect_def bind_assoc
proof (rule sound_check)
  fix k' assume k': "k' \<in> K"
  have *: "sound UNIV m Q (f t)" if "m \<le> n" "Eof \<notin> {k} \<Longrightarrow> m < n" for t m
    using assms that by simp
  show "sound {k'} n Q (State_Monad.bind (if k' = k then advance_token
      else State_Monad.bind (errorHere msg) (\<lambda>_. peek_token)) f)"
  proof (cases "k' = k")
    case True
    then show ?thesis by (simp) (rule sound_advance, rule *, auto)
  next
    case False
    have "sound {k'} m Q (f t)" if "m \<le> n" "tk_kind t \<in> {k'}" for t m
      using that False k' by (intro sound_mono [OF assms [of m t]]) auto
    with False show ?thesis
      by (simp) (rule sound_errorHere, rule sound_peek, simp)
  qed
qed

lemma sound_match [run_special]:
  assumes "\<And>b m. m \<le> n \<Longrightarrow> (b \<Longrightarrow> k \<noteq> Eof \<Longrightarrow> m < n) \<Longrightarrow> sound UNIV m Q (f b)"
  shows "sound K n Q (State_Monad.bind (match k) f)"
  unfolding match_def bind_assoc
proof (rule sound_check)
  fix k' assume "k' \<in> K"
  show "sound {k'} n Q (State_Monad.bind (if k' = k then State_Monad.bind advance_token (\<lambda>_. return True)
      else return False) f)"
  proof (cases "k' = k")
    case True
    then show ?thesis by simp (rule sound_advance, rule assms, auto)
  next
    case False
    then show ?thesis using assms [of n False] by (auto intro: sound_mono)
  qed
qed

lemma sound_if [run_special]:
  "(b \<Longrightarrow> sound K n Q p) \<Longrightarrow> (\<not> b \<Longrightarrow> sound K n Q q) \<Longrightarrow> sound K n Q (if b then p else q)"
  by simp

lemma sound_option [run_special]:
  "(x = None \<Longrightarrow> sound K n Q p) \<Longrightarrow> (\<And>y. x = Some y \<Longrightarrow> sound K n Q (q y)) \<Longrightarrow>
   sound K n Q (case x of None \<Rightarrow> p | Some y \<Rightarrow> q y)"
  by (cases x) simp_all

lemma sound_prod [run_special]:
  "(\<And>a b. x = (a, b) \<Longrightarrow> sound K n Q (f a b)) \<Longrightarrow> sound K n Q (case x of (a, b) \<Rightarrow> f a b)"
  by (cases x) simp

lemma sound_let [run_special]:
  "(\<And>y. y = x \<Longrightarrow> sound K n Q (f y)) \<Longrightarrow> sound K n Q (let y = x in f y)"
  by simp

lemma sound_bind_if:
  "(b \<Longrightarrow> sound K n Q (State_Monad.bind p f)) \<Longrightarrow> (\<not> b \<Longrightarrow> sound K n Q (State_Monad.bind q f)) \<Longrightarrow>
   sound K n Q (State_Monad.bind (if b then p else q) f)"
  by simp

lemma sound_bind_option:
  "(x = None \<Longrightarrow> sound K n Q (State_Monad.bind p f)) \<Longrightarrow>
   (\<And>y. x = Some y \<Longrightarrow> sound K n Q (State_Monad.bind (q y) f)) \<Longrightarrow>
   sound K n Q (State_Monad.bind (case x of None \<Rightarrow> p | Some y \<Rightarrow> q y) f)"
  by (cases x) simp_all

lemma sound_bind_prod:
  "(\<And>a b. x = (a, b) \<Longrightarrow> sound K n Q (State_Monad.bind (g a b) f)) \<Longrightarrow>
   sound K n Q (State_Monad.bind (case x of (a, b) \<Rightarrow> g a b) f)"
  by (cases x) simp

lemma sound_then:
  "runs K n p \<Longrightarrow> (\<And>x m. m \<le> n \<Longrightarrow> sound UNIV m Q (f x)) \<Longrightarrow> sound K n Q (State_Monad.bind p f)"
  by (rule sound_bind)

section \<open>Loops\<close>

lemma rounds_sound:
  assumes "\<And>x m. m \<le> n \<Longrightarrow> sound UNIV m (\<lambda>r b. \<forall>y. r = Continue y \<longrightarrow> b < m) (body x)"
    and "n < fuel"
  shows "runs UNIV n (rounds fuel body x)"
  using assms
proof (induction fuel arbitrary: x n)
  case (Suc fuel)
  have "sound UNIV n (\<lambda>_ _. True)
      (case r of Continue y \<Rightarrow> rounds fuel body y | Break y \<Rightarrow> return y)" if "\<forall>y. r \<noteq> Continue y" for r
    using that by (cases r) (simp_all add: sound_def steps_refl)
  moreover have "runs UNIV m (case r of Continue y \<Rightarrow> rounds fuel body y | Break y \<Rightarrow> return y)"
    if "m \<le> n" "\<forall>y. r = Continue y \<longrightarrow> m < n" for r m
  proof (cases r)
    case (Continue y)
    have "runs UNIV m (rounds fuel body y)"
      by (rule Suc.IH) (use Suc.prems that Continue in auto)
    with Continue show ?thesis by simp
  qed (simp add: sound_def steps_refl)
  ultimately show ?case
    unfolding rounds.simps by (intro sound_bind [OF Suc.prems(1)]) auto
qed simp

lemma loop_sound [run_facts]:
  assumes "\<And>x m. m \<le> n \<Longrightarrow> sound UNIV m (\<lambda>r b. \<forall>y. r = Continue y \<longrightarrow> b < m) (body x)"
  shows "runs K n (loop body x)"
proof -
  have "steps s (snd (run_state (rounds (Suc (budget s)) body x) s))"
    if "ready s" "budget s \<le> n" for s
    using rounds_sound [of "budget s" body "Suc (budget s)" x] assms that by (auto simp: sound_def)
  then show ?thesis by (simp add: sound_def loop_def)
qed

lemma reads_going: "fst (run_state (going stops) s) \<longleftrightarrow>
    \<not> stops (curKind s) \<and> curKind s \<noteq> Eof \<and> \<not> reachedLimit (ps_diag s)"
  by (simp add: going_def)

text \<open>A parser that uses the budget up while the engine takes reports.\<close>

definition uses :: "(TokenKind \<Rightarrow> bool) \<Rightarrow> nat \<Rightarrow> 'a parser \<Rightarrow> bool" where
  "uses stops n p \<longleftrightarrow>
     (\<forall>s. ready s \<and> budget s \<le> n \<and> \<not> stops (curKind s) \<and> curKind s \<noteq> Eof \<and> \<not> reachedLimit (ps_diag s) \<longrightarrow>
       steps s (snd (run_state p s)) \<and> budget (snd (run_state p s)) < budget s)"

lemma untilRound_sound:
  assumes "\<And>x m. m \<le> n \<Longrightarrow> uses stops m (body x)"
  shows "runs K n (untilRound stops body x)"
  unfolding untilRound_def
proof (rule loop_sound)
  fix x m assume m: "m \<le> n"
  show "sound UNIV m (\<lambda>r b. \<forall>y. r = Continue y \<longrightarrow> b < m)
     (State_Monad.bind (going stops) (\<lambda>b. if b then State_Monad.bind (body x) (\<lambda>y. return (Continue y)) else return (Break x)))"
    using assms [OF m, of x] unfolding sound_def uses_def
    by (auto simp: going_def steps_refl split: prod.split)
qed

lemma unstall_sound: "runs K n (unstall l)"
  unfolding unstall_def by ((rule run_special run_facts | rule sound_then | (simp; fail))+)

lemma unstall_moves:
  assumes "steps s s1" and "curKind s \<noteq> Eof"
  shows "steps s (snd (run_state (unstall (tk_location (ps_current s))) s1))"
    and "budget (snd (run_state (unstall (tk_location (ps_current s))) s1)) < budget s"
proof -
  let ?s2 = "snd (run_state (unstall (tk_location (ps_current s))) s1)"
  have 2: "steps s1 ?s2"
    using soundD [OF unstall_sound [of UNIV "budget s1"]] steps_ready [OF assms(1)]
    by (metis UNIV_I order_refl prod.collapse)
  with assms(1) show "steps s ?s2" by (rule steps_trans)
  show "budget ?s2 < budget s"
  proof (cases "tokensLeft s1 = tokensLeft s")
    case True
    with assms have c: "ps_current s1 = ps_current s" by (simp add: steps_def)
    have "?s2 = snd (run_state advance_token s1)"
      by (simp add: unstall_def location_def c loc_equal_def split: prod.split)
    with advance_steps(2) [of s1] steps_ready [OF assms(1)] c assms(2)
    have "tokensLeft ?s2 < tokensLeft s1" by simp
    with steps_strict [OF 2] steps_budget [OF assms(1)] show ?thesis by simp
  next
    case False
    with assms(1) have "tokensLeft s1 < tokensLeft s" by (simp add: steps_def)
    with steps_strict [OF assms(1)] steps_budget [OF 2] show ?thesis by simp
  qed
qed

lemma moving_uses:
  assumes "runs {k. \<not> stops k \<and> k \<noteq> Eof} n p"
  shows "uses stops n (moving p)"
  unfolding uses_def
proof (intro allI impI)
  fix s assume s: "ready s \<and> budget s \<le> n \<and> \<not> stops (curKind s) \<and> curKind s \<noteq> Eof \<and> \<not> reachedLimit (ps_diag s)"
  obtain x s1 where r: "run_state p s = (x, s1)" by fastforce
  from soundD [OF assms _ _ _ r] s have 1: "steps s s1" by auto
  have "run_state (moving p) s = (x, snd (run_state (unstall (tk_location (ps_current s))) s1))"
    by (simp add: moving_def location_def r split: prod.split)
  with unstall_moves [OF 1] s
  show "steps s (snd (run_state (moving p) s)) \<and> budget (snd (run_state (moving p) s)) < budget s"
    by simp
qed

lemma untilKind_sound [run_facts]:
  "(\<And>x m. m \<le> n \<Longrightarrow> runs {k. \<not> stops k \<and> k \<noteq> Eof} m (body x)) \<Longrightarrow> runs K n (untilKind stops body x)"
  unfolding untilKind_def by (intro untilRound_sound moving_uses)

lemma sepBy_sound [run_facts]:
  assumes "\<And>x m. m \<le> n \<Longrightarrow> runs UNIV m (body x)" and "k \<noteq> Eof"
  shows "runs K n (sepBy k body x)"
  unfolding sepBy_def
  by (rule loop_sound, rule sound_then, rule assms(1), simp, rule sound_match, rule sound_return)
    (use assms(2) in force)

lemma whileMatch_sound [run_facts]:
  assumes "\<And>x m. m \<le> n \<Longrightarrow> runs UNIV m (body x)" and "k \<noteq> Eof"
  shows "runs K n (whileMatch k body x)"
  unfolding whileMatch_def
  by (rule loop_sound, rule sound_match, rule sound_if, rule sound_then, rule assms(1), simp,
      rule sound_return, use assms(2) in force, rule sound_return, simp)

lemma adding_sound [run_facts]: "runs K n p \<Longrightarrow> runs K n (adding p xs)"
  "runs K n q \<Longrightarrow> runs K n (addingOpt q xs)"
  unfolding adding_def addingOpt_def
  by (rule sound_then, assumption, rule sound_return, simp)+

lemma guarded_sound:
  assumes "\<And>m. m \<le> n \<Longrightarrow> runs UNIV m p" and "runs K n q"
  shows "runs K n (guarded p q)"
  unfolding guarded_def
proof (rule sound_reads, rule sound_if)
  show "runs K n (State_Monad.bind (errorHere ''maximum recursion depth exceeded'') (\<lambda>_. p))"
    by (rule sound_then, rule run_facts, rule assms(1))
next
  let ?in = "\<lambda>s. s\<lparr>ps_recursionDepth := ps_recursionDepth s + 1\<rparr>"
  let ?out = "\<lambda>s. s\<lparr>ps_recursionDepth := ps_recursionDepth s - 1\<rparr>"
  have "steps s (?out (snd (run_state q (?in s))))" if s: "ready s" "budget s \<le> n" "curKind s \<in> K" for s
  proof -
    have "ready (?in s)" "budget (?in s) \<le> n" "curKind (?in s) \<in> K"
      using s by (simp_all add: ready_def budget_def tokensLeft_def ps_diag_def)
    with assms(2) have "steps (?in s) (snd (run_state q (?in s)))" by (simp add: sound_def)
    then show ?thesis by (simp add: steps_def ready_def tokensLeft_def ps_diag_def)
  qed
  then show "runs K n (State_Monad.bind (modify ?in) (\<lambda>_. State_Monad.bind q (\<lambda>x. State_Monad.bind (modify ?out) (\<lambda>_. return x))))"
    by (simp add: sound_def split: prod.split) (metis snd_conv)
qed

text \<open>Tying a knot with fuel for one level more than is left to do.\<close>

lemma fuelled_sound:
  assumes "\<And>m. m \<le> n \<Longrightarrow> runs UNIV m (p (Suc m))"
  shows "runs K n (State_Monad.bind (reads budget) (\<lambda>m. p (Suc m)))"
  using assms by (simp add: sound_def)

section \<open>The parsers that do not recurse\<close>

lemma nextIs_special [run_special]:
  "(\<And>b. sound K n Q (f b)) \<Longrightarrow> sound K n Q (State_Monad.bind (nextIs k) f)"
  unfolding nextIs_def bind_assoc bind_left_identity by (rule sound_peekNext)

lemma checkNext_special [run_special]:
  assumes "\<And>k' b. k' \<in> K \<Longrightarrow> (b \<Longrightarrow> k' = k) \<Longrightarrow> sound {k'} n Q (f b)"
  shows "sound K n Q (State_Monad.bind (checkNext k l) f)"
  unfolding checkNext_def both_def bind_assoc
  by (rule sound_check, rule sound_bind_if, rule nextIs_special, rule assms, simp_all)
    (rule assms, simp_all)

lemma textNext_special [run_special]:
  assumes "\<And>k' b. k' \<in> K \<Longrightarrow> (b \<Longrightarrow> k' = Identifier) \<Longrightarrow> sound {k'} n Q (f b)"
  shows "sound K n Q (State_Monad.bind (both (checkText txt) (nextIs l)) f)"
  unfolding both_def bind_assoc
  by (rule sound_checkText, rule sound_bind_if, rule nextIs_special, rule assms, simp_all)
    (rule assms, simp_all)

lemma hintNext_special [run_special]:
  assumes "\<And>k' b. k' \<in> K \<Longrightarrow> (b \<Longrightarrow> k' = k) \<Longrightarrow> sound {k'} n Q (f b)"
  shows "sound K n Q (State_Monad.bind (hintNext k) f)"
  unfolding hintNext_def both_def bind_assoc
  by (rule sound_check, rule sound_bind_if, unfold bind_assoc bind_left_identity, rule sound_peekNext, rule assms, simp_all)
    (rule assms, simp_all)

lemma both_runs [run_facts]:
  "runs K n p \<Longrightarrow> (\<And>m. m \<le> n \<Longrightarrow> runs UNIV m q) \<Longrightarrow> runs K n (both p q)"
  unfolding both_def by (rule sound_then, assumption, rule sound_if) (auto intro: sound_return)

lemma runs_tests [run_facts]:
  "runs K n (check k)" "runs K n (checkText txt)" "runs K n (nextIs k)" "runs K n kind" "runs K n location"
  by (rule sound_last, (rule run_special)+, simp)+

lemma runs_primitive [run_facts]:
  "runs K n (expect k msg)" "runs K n (match k)"
  by (rule sound_last, (rule run_special)+, simp)+

lemma synchronize_runs [run_facts]: "runs K n synchronize"
  unfolding synchronize_def
  by (rule loop_sound) ((rule run_special run_facts | rule sound_then | (simp; fail) | (auto; fail))+)

lemma modifierOf_Some [not_Eof]: "modifierOf k = Some m \<Longrightarrow> k \<noteq> Eof"
  by (auto simp: modifierOf_def)

lemma collectModifiers_runs [run_facts]: "runs K n collectModifiers"
  unfolding collectModifiers_def
  by (rule loop_sound) ((rule run_special run_facts | rule sound_then | (simp; fail) | (auto dest: not_Eof; fail))+)

lemma nameTail_runs [run_facts]: "k \<noteq> Eof \<Longrightarrow> runs K n (nameTail k txt name)"
  unfolding nameTail_def
  by (rule loop_sound) ((rule run_special run_facts | rule sound_then | (simp; fail) | (auto; fail))+)

lemma expectNamespaceIdentifier_runs [run_facts]: "runs K n (expectNamespaceIdentifier msg)"
  unfolding expectNamespaceIdentifier_def
  by ((rule run_special run_facts | rule sound_then | (simp; fail) | (auto; fail))+)

lemma parseQualifiedName_runs [run_facts]: "runs K n parseQualifiedName"
  unfolding parseQualifiedName_def
  by ((rule run_special run_facts | rule sound_then | (simp; fail) | (auto; fail))+)

lemma parseQualifiedNameString_runs [run_facts]: "runs K n parseQualifiedNameString"
  unfolding parseQualifiedNameString_def
  by ((rule run_special run_facts | rule sound_then | (simp; fail) | (auto; fail))+)

lemma parseFuncName_runs [run_facts]: "runs K n parseFuncName"
  unfolding parseFuncName_def
  by ((rule run_special run_facts | rule sound_then | (simp; fail) | (auto; fail))+)

lemma parseQualifiedFuncRef_runs [run_facts]: "runs K n parseQualifiedFuncRef"
  unfolding parseQualifiedFuncRef_def
  by ((rule run_special run_facts | rule sound_then | (simp; fail) | (auto; fail))+)

lemma parsePriorityLevel_runs [run_facts]: "runs K n parsePriorityLevel"
  unfolding parsePriorityLevel_def
  by ((rule run_special run_facts | rule sound_then | (simp; fail) | (auto; fail))+)

lemma parseCardinalityValue_runs [run_facts]: "runs K n parseCardinalityValue"
  unfolding parseCardinalityValue_def
  by ((rule run_special run_facts | rule sound_then | (simp; fail) | (auto; fail))+)

lemma parseTileSize_runs [run_facts]: "runs K n parseTileSize"
  unfolding parseTileSize_def
  by ((rule run_special run_facts | rule sound_then | (simp; fail) | (auto; fail))+)

lemma parseAccessPattern_runs [run_facts]: "runs K n parseAccessPattern"
  unfolding parseAccessPattern_def
  by ((rule run_special run_facts | rule sound_then | (simp; fail) | (auto; fail))+)

lemma parseCardinalityHint_runs [run_facts]: "runs K n parseCardinalityHint"
  unfolding parseCardinalityHint_def
  by ((rule run_special run_facts | rule sound_then | (simp; fail) | (auto; fail))+)

lemma parseHints_runs [run_facts]: "runs K n (parseHints decl)"
  unfolding parseHints_def
  by (rule loop_sound) ((rule run_special run_facts | rule sound_then | (simp; fail) | (auto; fail))+)

lemma parseReturnTarget_runs [run_facts]: "runs K n parseReturnTarget"
  unfolding parseReturnTarget_def
  by ((rule run_special run_facts | rule sound_then | (simp; fail) | (auto; fail))+)

lemma parseReturnBinding_runs [run_facts]: "runs K n parseReturnBinding"
  unfolding parseReturnBinding_def
  by ((rule run_special run_facts | rule sound_then | (simp; fail) | (auto; fail))+)

lemma parseUsedReturnsClause_runs [run_facts]: "runs K n parseUsedReturnsClause"
  unfolding parseUsedReturnsClause_def
  by ((rule run_special run_facts | rule sound_then | (simp; fail) | (auto; fail))+)

text \<open>
  An edge that is not one resynchronizes, which may stop where it is: only the report, of which
  the engine takes a hundred, keeps the loop from going on for ever.
\<close>

section \<open>Types and expressions\<close>

lemma parseOwnership_runs [run_facts]: "runs K n parseOwnership"
  unfolding parseOwnership_def
  by ((rule run_special run_facts | rule sound_then | (simp; fail) | (auto; fail))+)

lemma parseTypeSuffix_runs [run_facts]: "runs K n parseTypeSuffix"
  unfolding parseTypeSuffix_def
  by ((rule run_special run_facts | rule sound_then | (simp; fail) | (auto; fail))+)

lemma consumeCloseAngle_runs [run_facts]: "runs K n (consumeCloseAngle msg)"
proof -
  have "steps s (snd (run_state (consumeCloseAngle msg) s))" if s: "ready s" for s
  proof (cases "curKind s = ShiftRight")
    case True
    with s show ?thesis
      by (simp add: consumeCloseAngle_def peek_token_def steps_def ready_def tokensLeft_def
          tokenWeight_def ps_diag_def)
  next
    case False
    with advance_steps(1) [OF s] error_steps(1) [OF s] show ?thesis
      by (simp add: consumeCloseAngle_def peek_token_def split: prod.split) (metis snd_conv)
  qed
  then show ?thesis by (simp add: sound_def)
qed

lemma parseRecordField_runs [run_facts]:
  assumes "below (Suc n) type"
  shows "runs K n (parseRecordField type)"
  unfolding parseRecordField_def
  by ((rule run_special run_facts | rule sound_then | rule below_runs [OF assms] below_mono [OF assms] | (simp; fail) | (auto; fail))+)

lemma parseRecordFields_runs [run_facts]:
  assumes "below n type"
  shows "runs K n (parseRecordFields type)"
  unfolding parseRecordFields_def
  by ((rule run_special run_facts | rule sound_then | rule below_runs [OF assms] below_mono [OF assms] | (simp; fail) | (auto; fail))+)

lemma parseTemplateArg_runs [run_facts]:
  assumes "below (Suc n) type"
  shows "runs K n (parseTemplateArg type)"
  unfolding parseTemplateArg_def
  by ((rule run_special run_facts | rule sound_then | rule below_runs [OF assms] below_mono [OF assms] | (simp; fail) | (auto; fail))+)

lemma parseTemplateArgs_runs [run_facts]:
  assumes "below n type"
  shows "runs K n (parseTemplateArgs type parts)"
  unfolding parseTemplateArgs_def
  by ((rule run_special run_facts | rule sound_then | rule below_runs [OF assms] below_mono [OF assms] | (simp; fail) | (auto; fail))+)

lemma parseTypeBody_runs [run_facts]:
  assumes "below n type"
  shows "runs K n (parseTypeBody type)"
  unfolding parseTypeBody_def
  by ((rule run_special run_facts | rule sound_then | rule below_runs [OF assms] below_mono [OF assms] | (simp; fail) | (auto; fail))+)

lemma typeTooDeep_runs [run_facts]: "runs K n typeTooDeep"
  unfolding typeTooDeep_def by (rule sound_location, rule sound_return, simp)

lemma parseTypeN_runs: "m < n \<Longrightarrow> runs K m (parseTypeN n)"
proof (induction n arbitrary: m K)
  case (Suc n)
  then have "below m (parseTypeN n)" by (simp add: below_def)
  then show ?case by (auto intro!: guarded_sound run_facts)
qed simp

lemma parseType_runs [run_facts]: "runs K n parseType"
  unfolding parseType_def by (rule fuelled_sound) (simp del: parseTypeN.simps add: parseTypeN_runs)

lemma parseCallArgs_runs [run_facts]:
  assumes "below n expr" and "Eof \<notin> K"
  shows "runs K n (parseCallArgs expr)"
  unfolding parseCallArgs_def
  by (insert assms(2), ((rule run_special run_facts | rule sound_then | rule below_runs [OF assms(1)] below_mono [OF assms(1)] | (simp; fail) | (auto dest: not_Eof; fail))+))

lemma parsePrimaryExpr_runs [run_facts]:
  assumes "below n expr"
  shows "runs K n (parsePrimaryExpr expr)"
  unfolding parsePrimaryExpr_def
  by ((rule run_special run_facts | rule sound_then | rule below_runs [OF assms] below_mono [OF assms] | (simp; fail) | (auto dest: not_Eof; fail))+)

lemma parseUnaryN_runs:
  assumes "below n expr"
  shows "m < fuel \<Longrightarrow> m \<le> n \<Longrightarrow> runs K m (parseUnaryN fuel expr)"
proof (induction fuel arbitrary: m K)
  case (Suc fuel)
  have rec: "runs K j (parseUnaryN fuel expr)" if "j < m" for j K
    using Suc that by simp
  have "below m expr" using below_mono [OF assms Suc.prems(2)] .
  then show ?case unfolding parseUnaryN.simps
    by (intro sound_peek sound_if sound_advance sound_then [OF rec] parsePrimaryExpr_runs) (auto intro: sound_return)
qed simp

lemma parseUnaryExpr_runs [run_facts]:
  assumes "below n expr"
  shows "runs K n (parseUnaryExpr expr)"
  unfolding parseUnaryExpr_def
  by (rule fuelled_sound) (simp del: parseUnaryN.simps add: parseUnaryN_runs [OF assms])

lemma isBinaryOperator_kind [not_Eof]: "isBinaryOperator k \<Longrightarrow> k \<noteq> Eof"
  by (auto simp: isBinaryOperator_def getOperatorPrecedence_def)

lemma parseBinaryBody_runs:
  assumes "\<And>p. below n (binary p)"
  shows "runs K n (parseBinaryBody binary minPrec)"
  unfolding parseBinaryBody_def
  by ((rule run_special run_facts | rule sound_then | rule below_runs [OF assms] below_mono [OF assms] | (simp; fail) | (auto dest: not_Eof; fail))+)

lemma exprTooDeep_runs [run_facts]: "runs K n exprTooDeep"
  unfolding exprTooDeep_def by (rule sound_location, rule sound_return, simp)

lemma parseBinaryN_runs: "m < n \<Longrightarrow> runs K m (parseBinaryN n p)"
proof (induction n arbitrary: m K p)
  case (Suc n)
  then have "below m (parseBinaryN n q)" for q by (simp add: below_def)
  then show ?case by (auto intro!: guarded_sound parseBinaryBody_runs exprTooDeep_runs)
qed simp

lemma parseExpression_runs [run_facts]: "runs K n parseExpression"
  unfolding parseExpression_def parseBinaryExpr_def
  by (rule fuelled_sound) (simp del: parseBinaryN.simps add: parseBinaryN_runs)

section \<open>Declarations\<close>

lemma parseParameter_runs [run_facts]: "runs K n (parseParameter msg)"
  unfolding parseParameter_def
  by ((rule run_special run_facts | rule sound_then | (simp; fail) | (auto dest: not_Eof; fail))+)

lemma parseParameters_runs [run_facts]: "runs K n (parseParameters msg)"
  unfolding parseParameters_def
  by ((rule run_special run_facts | rule sound_then | (simp; fail) | (auto dest: not_Eof; fail))+)

lemma listUntil_runs [run_facts]:
  assumes "\<And>m K. m \<le> n \<Longrightarrow> runs K m el"
  shows "runs K n (listUntil close msg el)"
  unfolding listUntil_def
  by ((rule run_special run_facts assms | rule sound_then | (simp; fail) | (auto dest: not_Eof; fail))+)

lemma parseBindingTarget_runs [run_facts]: "runs K n (parseBindingTarget decl)"
  unfolding parseBindingTarget_def
  by ((rule run_special run_facts | rule sound_then | (simp; fail) | (auto dest: not_Eof; fail))+)

lemma closeBlock_runs [run_facts]: "runs K n (closeBlock what loc)"
  unfolding closeBlock_def
  by ((rule run_special run_facts | rule sound_then | (simp; fail) | (auto dest: not_Eof; fail))+)

lemma parseImport_runs [run_facts]: "runs K n parseImport"
  unfolding parseImport_def
  by ((rule run_special run_facts | rule sound_then | (simp; fail) | (auto dest: not_Eof; fail))+)

lemma parseTypeAliasAsDataDecl_runs [run_facts]: "runs K n parseTypeAliasAsDataDecl"
  unfolding parseTypeAliasAsDataDecl_def
  by ((rule run_special run_facts | rule sound_then | (simp; fail) | (auto dest: not_Eof; fail))+)

lemma parseStdImportAsDataDecl_runs [run_facts]: "runs K n parseStdImportAsDataDecl"
  unfolding parseStdImportAsDataDecl_def
  by ((rule run_special run_facts | rule sound_then | (simp; fail) | (auto dest: not_Eof; fail))+)

lemma parseLifetimeAsDataDecl_runs [run_facts]: "runs K n parseLifetimeAsDataDecl"
  unfolding parseLifetimeAsDataDecl_def
  by ((rule run_special run_facts | rule sound_then | (simp; fail) | (auto dest: not_Eof; fail))+)

lemma parseInstantiateAsDataDecl_runs [run_facts]: "runs K n parseInstantiateAsDataDecl"
  unfolding parseInstantiateAsDataDecl_def
  by ((rule run_special run_facts | rule sound_then | (simp; fail) | (auto dest: not_Eof; fail))+)

lemma parseReturnParam_runs [run_facts]: "runs K n parseReturnParam"
  unfolding parseReturnParam_def
  by ((rule run_special run_facts | rule sound_then | (simp; fail) | (auto dest: not_Eof; fail))+)

lemma parseMultiReturnParams_runs [run_facts]: "runs K n parseMultiReturnParams"
  unfolding parseMultiReturnParams_def
  by ((rule run_special run_facts | rule sound_then | (simp; fail) | (auto dest: not_Eof; fail))+)

lemma parseConstSuffix_runs [run_facts]: "runs K n (parseConstSuffix decl)"
  unfolding parseConstSuffix_def
  by ((rule run_special run_facts | rule sound_then | (simp; fail) | (auto dest: not_Eof; fail))+)

lemma parseHintsAfter_runs [run_facts]: "runs K n (parseHintsAfter k decl)"
  unfolding parseHintsAfter_def
  by ((rule run_special run_facts | rule sound_then | (simp; fail) | (auto dest: not_Eof; fail))+)

lemma parseFnDeclCppStyle_runs [run_facts]: "runs K n parseFnDeclCppStyle"
  unfolding parseFnDeclCppStyle_def
  by ((rule run_special run_facts | rule sound_then | (simp; fail) | (auto dest: not_Eof; fail))+)

lemma parseRustReturn_runs [run_facts]: "runs K n (parseRustReturn decl)"
  unfolding parseRustReturn_def
  by ((rule run_special run_facts | rule sound_then | (simp; fail) | (auto dest: not_Eof; fail))+)

lemma parseWithClause_runs [run_facts]: "runs K n (parseWithClause decl)"
  unfolding parseWithClause_def
  by ((rule run_special run_facts | rule sound_then | (simp; fail) | (auto dest: not_Eof; fail))+)

lemma parseFnDeclRustStyle_runs [run_facts]: "runs K n parseFnDeclRustStyle"
  unfolding parseFnDeclRustStyle_def
  by ((rule run_special run_facts | rule sound_then | (simp; fail) | (auto dest: not_Eof; fail))+)

lemma parseHandlerDecl_runs [run_facts]: "runs K n parseHandlerDecl"
  unfolding parseHandlerDecl_def
  by ((rule run_special run_facts | rule sound_then | (simp; fail) | (auto dest: not_Eof; fail))+)

lemma parseOperatorDecl_runs [run_facts]: "runs K n parseOperatorDecl"
  unfolding parseOperatorDecl_def
  by ((rule run_special run_facts | rule sound_then | (simp; fail) | (auto dest: not_Eof; fail))+)

lemma parseStage_runs [run_facts]: "runs K n parseStage"
  unfolding parseStage_def
  by ((rule run_special run_facts | rule sound_then | (simp; fail) | (auto dest: not_Eof; fail))+)

lemma skipArguments_runs [run_facts]: "runs K n skipArguments"
  unfolding skipArguments_def
  by ((rule run_special run_facts | rule sound_then | (simp; fail) | (auto dest: not_Eof; fail))+)

lemma parseOperationDecl_runs [run_facts]: "runs K n parseOperationDecl"
  unfolding parseOperationDecl_def
  by ((rule run_special run_facts | rule sound_then | (simp; fail) | (auto dest: not_Eof; fail))+)

section \<open>Logic blocks\<close>

text \<open>
  Reading ahead over a qualified name and putting it back: the buffered tokens and what is left
  behind them weigh no more than what there was.
\<close>

definition bufferRound :: "Token list \<Rightarrow> Token list round parser" where
  "bufferRound buffered = do {
     colons \<leftarrow> check ColonColon;
     if colons then
       do {
         sep \<leftarrow> advance_token;
         ident \<leftarrow> check Identifier;
         if ident then do { part \<leftarrow> advance_token; return (Continue (buffered @ [sep, part])) }
         else return (Break (buffered @ [sep])) }
     else return (Break buffered) }"

lemma bufferName_rounds: "bufferName = do { first \<leftarrow> advance_token; loop bufferRound [first] }"
  by (simp add: bufferName_def bufferRound_def [abs_def])

lemma bufferName_runs: "runs K n bufferName"
  unfolding bufferName_def
  by ((rule run_special run_facts | rule sound_then | (simp; fail) | (auto dest: not_Eof; fail))+)

abbreviation weights :: "Token list \<Rightarrow> nat" where
  "weights ts \<equiv> sum_list (map tokenWeight ts)"

definition buffers :: "Token list \<Rightarrow> ParserState \<Rightarrow> Token list \<Rightarrow> ParserState \<Rightarrow> bool" where
  "buffers ts s ts' s' \<longleftrightarrow>
     (\<exists>us. ts' = ts @ us \<and> weights us + tokensLeft s' \<le> tokensLeft s)"

lemma buffers_trans: "buffers ts s ts1 s1 \<Longrightarrow> buffers ts1 s1 ts2 s2 \<Longrightarrow> buffers ts s ts2 s2"
  unfolding buffers_def by fastforce

lemma bufferRound_buffers:
  assumes "ready s" and "run_state (bufferRound ts) s = (r, s')"
  shows "ready s' \<and> buffers ts s (case r of Continue ts' \<Rightarrow> ts' | Break ts' \<Rightarrow> ts') s'"
proof (cases "curKind s = ColonColon")
  case True
  obtain t1 s1 where 1: "run_state advance_token s = (t1, s1)" by fastforce
  with advance_steps [OF assms(1)]
  have w1: "ready s1" "tokenWeight t1 + tokensLeft s1 \<le> tokensLeft s" by (auto simp: steps_def)
  obtain t2 s2 where 2: "run_state advance_token s1 = (t2, s2)" by fastforce
  with advance_steps [OF w1(1)]
  have w2: "ready s2" "tokenWeight t2 + tokensLeft s2 \<le> tokensLeft s1" by (auto simp: steps_def)
  from assms(2) True w1 w2 show ?thesis
    by (auto simp: bufferRound_def check_def 1 2 buffers_def split: if_splits)
next
  case False
  with assms show ?thesis by (auto simp: bufferRound_def check_def buffers_def)
qed

lemma rounds_buffers:
  "ready s \<Longrightarrow> run_state (rounds fuel bufferRound ts) s = (ts', s') \<Longrightarrow> buffers ts s ts' s'"
proof (induction fuel arbitrary: ts s)
  case 0
  then show ?case
    by (auto simp: outOfFuel_def buffers_def tokensLeft_def)
next
  case (Suc fuel)
  obtain r s1 where r: "run_state (bufferRound ts) s = (r, s1)" by fastforce
  from bufferRound_buffers [OF Suc.prems(1) r]
  have 1: "ready s1" "buffers ts s (case r of Continue ts' \<Rightarrow> ts' | Break ts' \<Rightarrow> ts') s1" by auto
  show ?case
  proof (cases r)
    case (Continue ts1)
    with Suc.prems(2) r have "run_state (rounds fuel bufferRound ts1) s1 = (ts', s')" by simp
    from Suc.IH [OF 1(1) this] 1(2) Continue show ?thesis by (auto intro: buffers_trans)
  next
    case (Break ts1)
    with Suc.prems(2) r 1 show ?thesis by simp
  qed
qed

lemma fold_replay:
  "ts \<noteq> [] \<Longrightarrow>
   fold (\<lambda>t s. s\<lparr>ps_pending := ps_current s # ps_pending s, ps_current := t\<rparr>) (rev ts) s =
   s\<lparr>ps_pending := tl ts @ ps_current s # ps_pending s, ps_current := hd ts\<rparr>"
proof (induction ts)
  case (Cons t ts)
  then show ?case by (cases "ts = []") simp_all
qed simp

lemma run_replay:
  "ts \<noteq> [] \<Longrightarrow>
   run_state (replay ts) s =
     ((), s\<lparr>ps_pending := tl ts @ ps_current s # ps_pending s, ps_current := hd ts, ps_lookahead := None\<rparr>)"
  by (simp add: replay_def fold_replay)

lemma replay_steps:
  assumes "ready s" and "run_state bufferName s = (ts, s1)"
  shows "steps s (snd (run_state (replay ts) s1))" "ps_current (snd (run_state (replay ts) s1)) = ps_current s"
proof -
  obtain t s0 where 0: "run_state advance_token s = (t, s0)" by fastforce
  with advance_steps [OF assms(1)]
  have w: "ready s0" "tokenWeight t + tokensLeft s0 \<le> tokensLeft s" "t = ps_current s"
    by (auto simp: steps_def)
  from 0 assms(2) have "run_state (rounds (Suc (budget s0)) bufferRound [t]) s0 = (ts, s1)"
    by (simp add: bufferName_rounds loop_def del: rounds.simps)
  from rounds_buffers [OF w(1) this] have "buffers [t] s0 ts s1" .
  then obtain us where ts: "ts = t # us" "weights us + tokensLeft s1 \<le> tokensLeft s0"
    by (auto simp: buffers_def)
  have s1: "steps s s1"
    using bufferName_runs [of UNIV "budget s"] assms by (auto simp: sound_def)
  have "tokensLeft (snd (run_state (replay ts) s1)) \<le> tokenWeight t + weights us + tokensLeft s1"
    by (simp add: run_replay ts(1) tokensLeft_def)
  with ts w have "tokensLeft (snd (run_state (replay ts) s1)) \<le> tokensLeft s" by simp
  with s1 ts w show "steps s (snd (run_state (replay ts) s1))"
    by (simp add: steps_def) (simp add: run_replay ready_def ps_diag_def)
  from ts w show "ps_current (snd (run_state (replay ts) s1)) = ps_current s"
    by (simp add: run_replay)
qed

lemma detectPipelineMode_runs [run_facts]: "runs K n detectPipelineMode"
proof -
  have replayed: "runs K n (State_Monad.bind bufferName (\<lambda>buffered.
      State_Monad.bind (check Arrow) (\<lambda>arrow. State_Monad.bind (replay buffered) (\<lambda>_. return arrow))))" for K n
    unfolding sound_def by (auto simp: check_def split: prod.split dest: replay_steps(1) intro: steps_ready)
  show ?thesis
    unfolding detectPipelineMode_def
    by (rule sound_check, rule sound_if, rule sound_return, simp, rule sound_peekNext, rule sound_if,
        rule sound_return, simp, rule sound_if, rule replayed, rule sound_return, simp)
qed

section \<open>Pipeline edges\<close>

text \<open>
  An edge that is not one resynchronizes, which may leave it where it is, and the loop goes on
  without the test that the round has moved.  What ends it then is the report: the engine takes
  a hundred errors.
\<close>

definition charges :: "('a \<Rightarrow> bool) \<Rightarrow> 'a parser \<Rightarrow> bool" where
  "charges R p \<longleftrightarrow>
     (\<forall>s. ready s \<longrightarrow> steps s (snd (run_state p s)) \<and>
       (\<not> reachedLimit (ps_diag s) \<and> R (fst (run_state p s)) \<longrightarrow> budget (snd (run_state p s)) < budget s))"

lemma charges_bind:
  assumes p: "\<And>n. runs UNIV n p" and f: "\<And>x. charges R (f x)"
  shows "charges R (State_Monad.bind p f)"
  unfolding charges_def
proof (intro allI impI)
  fix s assume s: "ready s"
  obtain x s1 where 1: "run_state p s = (x, s1)" by fastforce
  with soundD [OF p s order_refl _ 1] have st: "steps s s1" by simp
  let ?r = "run_state (f x) s1"
  from f [of x] steps_ready [OF st]
  have 2: "steps s1 (snd ?r)" "\<not> reachedLimit (ps_diag s1) \<and> R (fst ?r) \<Longrightarrow> budget (snd ?r) < budget s1"
    by (auto simp: charges_def)
  have "budget (snd ?r) < budget s" if "\<not> reachedLimit (ps_diag s)" "R (fst ?r)"
  proof (cases "budget s1 < budget s")
    case False
    with st that(1) have "\<not> reachedLimit (ps_diag s1)"
      by (auto simp: steps_def budget_def reachedLimit_def)
    with 2(2) that(2) steps_budget [OF st] show ?thesis by simp
  qed (use steps_budget [OF 2(1)] in simp)
  with 1 steps_trans [OF st 2(1)] show "steps s (snd (run_state (State_Monad.bind p f) s)) \<and>
      (\<not> reachedLimit (ps_diag s) \<and> R (fst (run_state (State_Monad.bind p f) s)) \<longrightarrow>
       budget (snd (run_state (State_Monad.bind p f) s)) < budget s)"
    by simp
qed

lemma charges_return: "\<not> R x \<Longrightarrow> charges R (State_Monad.return x)"
  by (simp add: charges_def steps_refl)

lemma charges_if: "(b \<Longrightarrow> charges R p) \<Longrightarrow> (\<not> b \<Longrightarrow> charges R q) \<Longrightarrow> charges R (if b then p else q)"
  by simp

lemma charges_error:
  assumes "\<And>n. runs UNIV n (f ())"
  shows "charges R (State_Monad.bind (errorHere msg) f)"
  unfolding charges_def
proof (intro allI impI)
  fix s assume s: "ready s"
  let ?s1 = "snd (run_state (error (tk_location (ps_current s)) msg) s)"
  let ?s2 = "snd (run_state (f ()) ?s1)"
  have e: "run_state (State_Monad.bind (errorHere msg) f) s = run_state (f ()) ?s1"
    by (simp add: errorHere_def location_def error_def)
  have 1: "steps s ?s1" using error_steps(1) [OF s] .
  have 2: "steps ?s1 ?s2"
    using assms [of "budget ?s1"] steps_ready [OF 1] by (simp add: sound_def)
  show "steps s (snd (run_state (State_Monad.bind (errorHere msg) f) s)) \<and>
      (\<not> reachedLimit (ps_diag s) \<and> R (fst (run_state (State_Monad.bind (errorHere msg) f) s)) \<longrightarrow>
       budget (snd (run_state (State_Monad.bind (errorHere msg) f) s)) < budget s)"
    unfolding e using steps_trans [OF 1 2] steps_budget [OF 2] error_uses [OF s]
    by (auto intro: le_less_trans)
qed

lemma parsePipelineEdge_charges: "charges (\<lambda>e. e = None) parsePipelineEdge"
  unfolding parsePipelineEdge_def
  by (intro charges_bind charges_if charges_error charges_return run_facts sound_then sound_return)
    (simp_all add: check_def location_def sound_def steps_refl)

lemma parsePipelineEdges_runs [run_facts]: "runs K n parsePipelineEdges"
  unfolding parsePipelineEdges_def
proof (rule untilRound_sound)
  fix edges m
  let ?body = "State_Monad.bind location (\<lambda>edgeLoc. State_Monad.bind parsePipelineEdge (\<lambda>e.
    case e of None \<Rightarrow> return edges
    | Some edge \<Rightarrow> State_Monad.bind (unstall edgeLoc) (\<lambda>_. return (edges @ [edge]))))"
  show "uses (\<lambda>k. k = RCurly) m ?body"
    unfolding uses_def
  proof (intro allI impI)
    fix s assume s: "ready s \<and> budget s \<le> m \<and> curKind s \<noteq> RCurly \<and> curKind s \<noteq> Eof \<and> \<not> reachedLimit (ps_diag s)"
    obtain e s1 where r: "run_state parsePipelineEdge s = (e, s1)" by fastforce
    with parsePipelineEdge_charges s
    have 1: "steps s s1" "e = None \<Longrightarrow> budget s1 < budget s" by (force simp: charges_def)+
    show "steps s (snd (run_state ?body s)) \<and> budget (snd (run_state ?body s)) < budget s"
    proof (cases e)
      case None
      with r 1 show ?thesis by (simp add: location_def)
    next
      case (Some edge)
      with r unstall_moves [OF 1(1)] s show ?thesis by (auto simp: location_def split: prod.split)
    qed
  qed
qed

section \<open>Nested declarations\<close>

lemma parseFnLogicBlock_runs [run_facts]: "runs K n parseFnLogicBlock"
  unfolding parseFnLogicBlock_def
  by ((rule run_special run_facts | rule sound_then | (simp; fail) | (auto dest: not_Eof; fail))+)

lemma parseFlowDecl_runs [run_facts]: "runs K n parseFlowDecl"
  unfolding parseFlowDecl_def
  by ((rule run_special run_facts | rule sound_then | (simp; fail) | (auto dest: not_Eof; fail))+)

lemma parseConstraintMember_runs [run_facts]: "runs K n parseConstraintMember"
  unfolding parseConstraintMember_def
  by ((rule run_special run_facts | rule sound_then | (simp; fail) | (auto dest: not_Eof; fail))+)

lemma parseConstraintAsTypeDecl_runs [run_facts]: "runs K n parseConstraintAsTypeDecl"
  unfolding parseConstraintAsTypeDecl_def
  by ((rule run_special run_facts | rule sound_then | (simp; fail) | (auto dest: not_Eof; fail))+)

lemma parseAdaptMapping_runs [run_facts]: "runs K n parseAdaptMapping"
  unfolding parseAdaptMapping_def
  by ((rule run_special run_facts | rule sound_then | (simp; fail) | (auto dest: not_Eof; fail))+)

lemma parseAdaptAsTypeDecl_runs [run_facts]: "runs K n parseAdaptAsTypeDecl"
  unfolding parseAdaptAsTypeDecl_def
  by ((rule run_special run_facts | rule sound_then | (simp; fail) | (auto dest: not_Eof; fail))+)

lemma parseTypeFnParam_runs [run_facts]: "runs K n parseTypeFnParam"
  unfolding parseTypeFnParam_def
  by ((rule run_special run_facts | rule sound_then | (simp; fail) | (auto dest: not_Eof; fail))+)

lemma parseMatchArm_runs [run_facts]: "runs K n parseMatchArm"
  unfolding parseMatchArm_def
  by ((rule run_special run_facts | rule sound_then | (simp; fail) | (auto dest: not_Eof; fail))+)

lemma parseTypeFnAsTypeDecl_runs [run_facts]: "runs K n parseTypeFnAsTypeDecl"
  unfolding parseTypeFnAsTypeDecl_def
  by ((rule run_special run_facts | rule sound_then | (simp; fail) | (auto dest: not_Eof; fail))+)

lemma isDebugDeclStart_runs [run_facts]: "runs K n isDebugDeclStart"
  unfolding isDebugDeclStart_def
  by ((rule run_special run_facts | rule sound_then | (simp; fail) | (auto dest: not_Eof; fail))+)

lemma parseSliceBound_runs [run_facts]: "runs K n (parseSliceBound l w)"
  unfolding parseSliceBound_def
  by ((rule run_special run_facts | rule sound_then | (simp; fail) | (auto dest: not_Eof; fail))+)

lemma parseDebugSliceExpr_runs [run_facts]: "runs K n (parseDebugSliceExpr l)"
  unfolding parseDebugSliceExpr_def
  by ((rule run_special run_facts | rule sound_then | (simp; fail) | (auto dest: not_Eof; fail))+)

lemma parseView_runs [run_facts]: "runs K n (parseView l d)"
  unfolding parseView_def
  by ((rule run_special run_facts | rule sound_then | (simp; fail) | (auto dest: not_Eof; fail))+)

lemma parseSummary_runs [run_facts]: "runs K n (parseSummary d)"
  unfolding parseSummary_def
  by ((rule run_special run_facts | rule sound_then | (simp; fail) | (auto dest: not_Eof; fail))+)

lemma parseInactiveMode_runs [run_facts]: "runs K n parseInactiveMode"
  unfolding parseInactiveMode_def
  by ((rule run_special run_facts | rule sound_then | (simp; fail) | (auto dest: not_Eof; fail))+)

lemma parseInactiveRegion_runs [run_facts]: "runs K n (parseInactiveRegion l d)"
  unfolding parseInactiveRegion_def
  by ((rule run_special run_facts | rule sound_then | (simp; fail) | (auto dest: not_Eof; fail))+)

lemma parseRawBody_runs [run_facts]: "runs K n parseRawBody"
  unfolding parseRawBody_def
  by ((rule run_special run_facts | rule sound_then | (simp; fail) | (auto dest: not_Eof; fail))+)

lemma parseRender_runs [run_facts]: "runs K n (parseRender l d)"
  unfolding parseRender_def
  by ((rule run_special run_facts | rule sound_then | (simp; fail) | (auto dest: not_Eof; fail))+)

lemma parseDebugItem_runs [run_facts]: "runs K n (parseDebugItem d)"
  unfolding parseDebugItem_def
  by ((rule run_special run_facts | rule sound_then | (simp; fail) | (auto dest: not_Eof; fail))+)

lemma parseDebugDecl_runs [run_facts]: "runs K n parseDebugDecl"
  unfolding parseDebugDecl_def
  by ((rule run_special run_facts | rule sound_then | (simp; fail) | (auto dest: not_Eof; fail))+)

lemma parseInnerParam_runs [run_facts]: "runs K n parseInnerParam"
  unfolding parseInnerParam_def
  by ((rule run_special run_facts | rule sound_then | (simp; fail) | (auto dest: not_Eof; fail))+)

lemma parseTypeParam_runs [run_facts]: "runs K n (parseTypeParam l)"
  unfolding parseTypeParam_def
  by ((rule run_special run_facts | rule sound_then | (simp; fail) | (auto dest: not_Eof; fail))+)

lemma parseNonTypeDefault_runs [run_facts]: "runs K n parseNonTypeDefault"
  unfolding parseNonTypeDefault_def
  by ((rule run_special run_facts | rule sound_then | (simp; fail) | (auto dest: not_Eof; fail))+)

lemma parseNonTypeParam_runs [run_facts]: "runs K n (parseNonTypeParam l)"
  unfolding parseNonTypeParam_def
  by ((rule run_special run_facts | rule sound_then | (simp; fail) | (auto dest: not_Eof; fail))+)

lemma parseTemplateTemplateParam_runs [run_facts]: "runs K n (parseTemplateTemplateParam l)"
  unfolding parseTemplateTemplateParam_def
  by ((rule run_special run_facts | rule sound_then | (simp; fail) | (auto dest: not_Eof; fail))+)

lemma parseTemplateParam_runs [run_facts]: "runs K n parseTemplateParam"
  unfolding parseTemplateParam_def
  by ((rule run_special run_facts | rule sound_then | (simp; fail) | (auto dest: not_Eof; fail))+)

lemma parseTemplateParamList_runs [run_facts]: "runs K n parseTemplateParamList"
  unfolding parseTemplateParamList_def
  by ((rule run_special run_facts | rule sound_then | (simp; fail) | (auto dest: not_Eof; fail))+)

lemma skipBody_runs [run_facts]: "runs K n skipBody"
  unfolding skipBody_def
  by ((rule run_special run_facts | rule sound_then | (simp; fail) | (auto dest: not_Eof; fail))+)

lemma endMemberFn_runs [run_facts]: "runs K n (endMemberFn msg)"
  unfolding endMemberFn_def
  by ((rule run_special run_facts | rule sound_then | (simp; fail) | (auto dest: not_Eof; fail))+)

lemma parseConstructorRest_runs [run_facts]: "runs K n (parseConstructorRest l nm b)"
  unfolding parseConstructorRest_def
  by ((rule run_special run_facts | rule sound_then | (simp; fail) | (auto dest: not_Eof; fail))+)

lemma parseDestructor_runs [run_facts]: "runs K n (parseDestructor l nm)"
  unfolding parseDestructor_def
  by ((rule run_special run_facts | rule sound_then | (simp; fail) | (auto dest: not_Eof; fail))+)

lemma parseExplicitConstructor_runs [run_facts]: "runs K n (parseExplicitConstructor l nm)"
  unfolding parseExplicitConstructor_def
  by ((rule run_special run_facts | rule sound_then | (simp; fail) | (auto dest: not_Eof; fail))+)

lemma parseMemberRest_runs [run_facts]: "runs K n (parseMemberRest l b ty nm)"
  unfolding parseMemberRest_def
  by ((rule run_special run_facts | rule sound_then | (simp; fail) | (auto dest: not_Eof; fail))+)

lemma parsePlainMember_runs [run_facts]: "runs K n (parsePlainMember l b)"
  unfolding parsePlainMember_def
  by ((rule run_special run_facts | rule sound_then | (simp; fail) | (auto dest: not_Eof; fail))+)

lemma parseStaticMember_runs [run_facts]: "runs K n (parseStaticMember l nm b)"
  unfolding parseStaticMember_def
  by ((rule run_special run_facts | rule sound_then | (simp; fail) | (auto dest: not_Eof; fail))+)

text \<open>Rules for the bodies of loops that do not test that a round has moved.\<close>

lemma uses_sound:
  assumes "\<And>m. m \<le> n \<Longrightarrow> sound {k. \<not> stops k \<and> k \<noteq> Eof} m (\<lambda>_ b. b < m) p"
  shows "uses stops n p"
  using assms by (auto simp: uses_def sound_def)

lemma uses_check:
  assumes "uses (\<lambda>k'. stops k' \<or> k' \<noteq> k) n (f True)" and "uses (\<lambda>k'. stops k' \<or> k' = k) n (f False)"
  shows "uses stops n (State_Monad.bind (check k) f)"
proof -
  have "run_state (State_Monad.bind (check k) f) s = run_state (f (curKind s = k)) s" for s
    by (simp add: check_def)
  then show ?thesis
    unfolding uses_def
  proof (intro allI impI)
    fix s assume "ready s \<and> budget s \<le> n \<and> \<not> stops (curKind s) \<and> curKind s \<noteq> Eof \<and> \<not> reachedLimit (ps_diag s)"
    with assms \<open>\<And>s. run_state (State_Monad.bind (check k) f) s = run_state (f (curKind s = k)) s\<close> [of s]
    show "steps s (snd (run_state (State_Monad.bind (check k) f) s)) \<and>
        budget (snd (run_state (State_Monad.bind (check k) f) s)) < budget s"
      by (cases "curKind s = k") (simp_all add: uses_def)
  qed
qed

lemma uses_then:
  assumes "uses stops n p" and "\<And>x m. m \<le> n \<Longrightarrow> runs UNIV m (f x)"
  shows "uses stops n (State_Monad.bind p f)"
  unfolding uses_def
proof (intro allI impI)
  fix s assume s: "ready s \<and> budget s \<le> n \<and> \<not> stops (curKind s) \<and> curKind s \<noteq> Eof \<and> \<not> reachedLimit (ps_diag s)"
  obtain x s1 where r: "run_state p s = (x, s1)" by fastforce
  with assms(1) s have 1: "steps s s1" "budget s1 < budget s" by (force simp: uses_def)+
  then have 2: "steps s1 (snd (run_state (f x) s1))"
    using assms(2) [of "budget s1" x] s steps_ready [OF 1(1)] by (simp add: sound_def)
  from r 1 steps_trans [OF 1(1) 2] steps_budget [OF 2]
  show "steps s (snd (run_state (State_Monad.bind p f) s)) \<and> budget (snd (run_state (State_Monad.bind p f) s)) < budget s"
    by simp
qed

lemma parsePriorityLevel_uses: "Eof \<notin> K \<Longrightarrow> sound K n (\<lambda>_ b. b < n) parsePriorityLevel"
  unfolding parsePriorityLevel_def
  by ((rule run_special run_facts | rule sound_then | (simp; fail) | (auto dest: not_Eof; fail))+)

lemma sectionMembers_runs [run_facts]:
  assumes "below (Suc n) memberDecl"
  shows "runs K n (sectionMembers memberDecl)"
proof -
  let ?stops = "\<lambda>k. k = RCurly \<or> isVisibilityKeyword k"
  have "uses ?stops m (case x of (members, p) \<Rightarrow> State_Monad.bind (check KW_priority) (\<lambda>priority.
      if priority then State_Monad.bind parsePriorityLevel (\<lambda>p'. return (members, p'))
      else State_Monad.bind (moving memberDecl) (\<lambda>m. return (case m of Some n \<Rightarrow> (members @ [prioritized p n], p) | None \<Rightarrow> (members, p)))))"
    if "m \<le> n" for m x
  proof (cases x)
    case (Pair members p)
    show ?thesis
      unfolding Pair prod.case
      by (rule uses_check; simp)
        (rule uses_then, rule uses_sound parsePriorityLevel_uses moving_uses, rule parsePriorityLevel_uses below_runs [OF assms],
          use that in simp, rule sound_return, simp)+
  qed
  then show ?thesis
    unfolding sectionMembers_def by (intro sound_then untilRound_sound) (auto intro: sound_return)
qed

lemma parseTypeMemberN_runs:
  assumes "below (Suc n) memberDecl"
  shows "m < fuel \<Longrightarrow> m \<le> n \<Longrightarrow> runs K m (parseTypeMemberN fuel memberDecl nm)"
proof (induction fuel arbitrary: m K)
  case (Suc fuel)
  have rec: "below m (parseTypeMemberN fuel memberDecl nm)"
    using Suc by (simp add: below_def)
  have dec: "below (Suc m) memberDecl" using below_mono [OF assms] Suc.prems(2) by simp
  show ?case unfolding parseTypeMemberN.simps
    by ((rule run_special run_facts | rule sound_then | rule below_runs [OF rec] below_runs [OF dec] | (simp; fail) | (auto dest: not_Eof; fail))+)
qed simp

lemma parseTypeMember_runs [run_facts]:
  assumes "below (Suc n) memberDecl"
  shows "runs K n (parseTypeMember memberDecl nm)"
  unfolding parseTypeMember_def
  by (rule fuelled_sound) (simp del: parseTypeMemberN.simps add: parseTypeMemberN_runs [OF assms])

lemma below_parseTypeMember:
  "below (Suc n) memberDecl \<Longrightarrow> below (Suc n) (parseTypeMember memberDecl nm)"
  unfolding below_def by (auto intro!: parseTypeMember_runs simp: below_def)

lemma isVisibilityKeyword_kind [not_Eof]: "isVisibilityKeyword k \<Longrightarrow> k \<noteq> Eof"
  by (auto simp: isVisibilityKeyword_def)

lemma parseSection_runs [run_facts]:
  assumes "below (Suc n) memberDecl"
  shows "runs K n (parseSection b memberDecl)"
  unfolding parseSection_def
  by ((rule run_special run_facts | rule sound_then | rule below_runs [OF assms] below_mono [OF assms] | (simp; fail) | (auto dest: not_Eof; fail))+)

lemma parseTypeSections_runs [run_facts]:
  assumes "below (Suc n) memberDecl"
  shows "runs K n (parseTypeSections memberDecl nm)"
  unfolding parseTypeSections_def
  by ((rule run_special run_facts | rule sound_then | rule below_mono [OF below_parseTypeMember [OF assms]] | (simp; fail) | (auto dest: not_Eof; fail))+)

lemma parseBaseClass_runs [run_facts]: "runs K n parseBaseClass"
  unfolding parseBaseClass_def
  by ((rule run_special run_facts | rule sound_then | (simp; fail) | (auto dest: not_Eof; fail))+)

lemma parseSpecializationArgs_runs [run_facts]: "runs K n parseSpecializationArgs"
  unfolding parseSpecializationArgs_def
  by ((rule run_special run_facts | rule sound_then | (simp; fail) | (auto dest: not_Eof; fail))+)

lemma classDeprecated_runs [run_facts]: "runs K n classDeprecated"
  unfolding classDeprecated_def
  by ((rule run_special run_facts | rule sound_then | (simp; fail) | (auto dest: not_Eof; fail))+)

lemma parseFnByNext_runs [run_facts]: "runs K n parseFnByNext"
  unfolding parseFnByNext_def
  by ((rule run_special run_facts | rule sound_then | (simp; fail) | (auto dest: not_Eof; fail))+)

lemma parseNamespacePath_runs [run_facts]: "runs K n parseNamespacePath"
  unfolding parseNamespacePath_def
  by ((rule run_special run_facts | rule sound_then | (simp; fail) | (auto dest: not_Eof; fail))+)

lemma lifetimeNext_runs [run_facts]: "runs K n lifetimeNext"
  unfolding lifetimeNext_def
  by ((rule run_special run_facts | rule sound_then | (simp; fail) | (auto dest: not_Eof; fail))+)

lemma parseTypeDecl_runs [run_facts]:
  assumes "below n memberDecl"
  shows "runs K n (parseTypeDecl memberDecl)"
  unfolding parseTypeDecl_def
  by ((rule run_special run_facts | rule sound_then | rule below_runs [OF assms] below_mono [OF assms] | (simp; fail) | (auto dest: not_Eof; fail))+)

lemma parseTemplateDecl_runs [run_facts]:
  assumes "below n memberDecl" and "K \<subseteq> {KW_template}"
  shows "runs K n (parseTemplateDecl memberDecl)"
  unfolding parseTemplateDecl_def
  by (insert assms(2), ((rule run_special run_facts | rule sound_then | rule below_runs [OF assms(1)] below_mono [OF assms(1)] | (simp; fail) | (auto dest: not_Eof; fail))+))

lemma parseNamespaceItem_runs [run_facts]:
  assumes "below (Suc n) memberDecl"
  shows "runs K n (parseNamespaceItem memberDecl)"
  unfolding parseNamespaceItem_def
  by ((rule run_special run_facts | rule sound_then | rule below_runs [OF assms] below_mono [OF assms] | (simp; fail) | (auto dest: not_Eof; fail))+)

lemma memberBlock_runs [run_facts]:
  assumes "below (Suc n) memberDecl"
  shows "runs K n (memberBlock memberDecl)"
  unfolding memberBlock_def
  by ((rule run_special run_facts | rule sound_then | rule below_runs [OF assms] below_mono [OF assms] | (simp; fail) | (auto dest: not_Eof; fail))+)

lemma parseNamespaceDecl_runs [run_facts]:
  assumes "below n memberDecl" and "K \<subseteq> {KW_namespace}"
  shows "runs K n (parseNamespaceDecl b memberDecl)"
  unfolding parseNamespaceDecl_def
  by (insert assms(2), ((rule run_special run_facts | rule sound_then | rule below_runs [OF assms(1)] below_mono [OF assms(1)] | (simp; fail) | (auto dest: not_Eof; fail))+))

section \<open>Members and files\<close>

lemma parseComptimeIf_runs [run_facts]:
  assumes "below n memberDecl" and "Eof \<notin> K"
  shows "runs K n (parseComptimeIf mods memberDecl)"
  unfolding parseComptimeIf_def
  by (insert assms(2), ((rule run_special run_facts | rule sound_then | rule below_runs [OF assms(1)] below_mono [OF assms(1)] | (simp; fail) | (auto dest: not_Eof; fail))+))

lemma parseNamespaceDecl_runs_inside [run_facts]:
  assumes "below (Suc n) memberDecl"
  shows "runs K n (parseNamespaceDecl b memberDecl)"
  unfolding parseNamespaceDecl_def
  by ((rule run_special run_facts | rule sound_then | rule below_runs [OF assms(1)] below_mono [OF assms(1)] | (simp; fail) | (auto dest: not_Eof; fail))+)

lemma isStdlibTypeToken_kind [not_Eof]: "isStdlibTypeToken k \<Longrightarrow> k \<noteq> Eof"
  by (auto simp: isStdlibTypeToken_def stdlibTokenTypeId_def)

lemma parseComptimeFn_runs [run_facts]: "runs K n (parseComptimeFn mods)"
  unfolding parseComptimeFn_def
  by ((rule run_special run_facts | rule sound_then | (simp; fail) | (auto dest: not_Eof; fail))+)

lemma parseIdentifierMember_runs [run_facts]: "runs K n (parseIdentifierMember mods)"
  unfolding parseIdentifierMember_def
  by ((rule run_special run_facts | rule sound_then | (simp; fail) | (auto dest: not_Eof; fail))+)

lemma parseMemberBody_runs [run_facts]:
  assumes "below n memberDecl"
  shows "runs K n (parseMemberBody memberDecl)"
  unfolding parseMemberBody_def
  by ((rule run_special run_facts | rule sound_then | rule below_runs [OF assms] below_mono [OF assms] | (simp; fail) | (auto dest: not_Eof; fail))+)

lemma parseMemberN_runs: "m < n \<Longrightarrow> runs K m (parseMemberN n)"
proof (induction n arbitrary: m K)
  case (Suc n)
  then have "below m (parseMemberN n)" by (simp add: below_def)
  then show ?case by (auto intro: parseMemberBody_runs)
qed simp

lemma parseMemberDecl_runs [run_facts]: "runs K n parseMemberDecl"
  unfolding parseMemberDecl_def by (rule fuelled_sound) (simp del: parseMemberN.simps add: parseMemberN_runs)

lemma below_parseMemberDecl [run_facts]: "below n parseMemberDecl"
  by (simp add: below_def parseMemberDecl_runs)

lemma parseTopLevelDecl_runs [run_facts]: "runs K n parseTopLevelDecl"
  unfolding parseTopLevelDecl_def
  by ((rule run_special run_facts | rule sound_then | (simp; fail) | (auto dest: not_Eof; fail))+)

lemma parseTopoFile_runs [run_facts]: "runs K n parseTopoFile"
  unfolding parseTopoFile_def
  by ((rule run_special run_facts | rule sound_then | (simp; fail) | (auto dest: not_Eof; fail))+)

text \<open>A loop that did not run out of fuel has left where its condition fails.\<close>

lemma rounds_leave:
  assumes "\<not> ps_stuck (snd (run_state (rounds fuel (\<lambda>x. State_Monad.bind (going stops) (\<lambda>b.
      if b then State_Monad.bind (body x) (\<lambda>y. return (Continue y)) else return (Break x))) x) s))"
  shows "\<not> fst (run_state (going stops) (snd (run_state (rounds fuel (\<lambda>x. State_Monad.bind (going stops) (\<lambda>b.
      if b then State_Monad.bind (body x) (\<lambda>y. return (Continue y)) else return (Break x))) x) s)))"
  using assms
proof (induction fuel arbitrary: x s)
  case 0
  then show ?case by (simp add: outOfFuel_def)
next
  case (Suc fuel)
  show ?case
  proof (cases "fst (run_state (going stops) s)")
    case True
    obtain y s1 where "run_state (body x) s = (y, s1)" by fastforce
    moreover from True have "run_state (going stops) s = (True, s)" by (simp add: going_def)
    ultimately show ?thesis using Suc.prems Suc.IH [of y s1] by simp
  next
    case False
    then have "run_state (going stops) s = (False, s)" by (simp add: going_def)
    then show ?thesis by simp
  qed
qed

lemma parser_init_ready: "lexer_ready lexer \<Longrightarrow> ready (parser_init lexer)"
  using nextToken_uses(1) by (auto simp: parser_init_def ready_def split: prod.split)

text \<open>C3: parsing a file always ends: whatever the lexer yields, no loop or recursion of the
  parser runs out of the fuel that is counted from what is left to read, so that every loop of the
  code is left; the parser stops at the end of the file or when the engine has taken its limit of
  errors, with the recursion depth back at zero.\<close>

theorem parser_terminates:
  assumes "lexer_ready lexer"
  shows "let s = snd (parseFile lexer) in
    \<not> ps_stuck s \<and> (tk_kind (ps_current s) = Eof \<or> reachedLimit (ps_diag s)) \<and>
    ps_recursionDepth s = 0 \<and> errorCount (lx_diag lexer) \<le> errorCount (ps_diag s)"
proof -
  let ?start = "parser_init lexer"
  let ?s = "snd (parseFile lexer)"
  have r0: "ready ?start" by (rule parser_init_ready [OF assms])
  have e0: "errorCount (lx_diag lexer) \<le> errorsOf ?start" "ps_recursionDepth ?start = 0"
    using nextToken_uses(3) [OF assms] by (auto simp: parser_init_def ps_diag_def split: prod.split)
  have st: "steps ?start ?s"
    using parseTopoFile_runs [of UNIV "budget ?start"] r0 by (simp add: sound_def parseFile_def)
  have "\<not> fst (run_state (going (\<lambda>_. False)) ?s)"
    using rounds_leave [of "Suc (budget ?start)" "\<lambda>_. False" "\<lambda>x. moving (addingOpt parseTopLevelDecl x)" "[]" ?start] steps_ready [OF st]
    by (simp add: parseFile_def parseTopoFile_def location_def untilKind_def untilRound_def loop_def ready_def
        del: rounds.simps split: prod.splits)
  then show ?thesis using st e0 by (simp add: going_def steps_def ready_def Let_def)
qed

theorem parser_terminates_witness:
  "let s = snd (parseFile (mkLexer ''flow f { a -> class'' ''f.topo'' empty_engine)) in
    \<not> ps_stuck s \<and> (tk_kind (ps_current s) = Eof \<or> reachedLimit (ps_diag s))"
  using parser_terminates [of "mkLexer ''flow f { a -> class'' ''f.topo'' empty_engine"]
  by (simp add: Let_def lexer_ready_def lex_wf_mkLexer)

end
