(* ===== verification/ParserStream.thy ===== *)
theory ParserStream
  imports ParserProgress
begin

text \<open>
  The parser's input as a stream: the tokens that \<open>advance\<close> will deliver from a state, however
  they are spread over the current token, the lookahead, the replay buffer and the lexer.  Tests,
  lookahead and replay leave the stream alone; the detection of pipelines is characterised on it.
\<close>

section \<open>Streams of tokens\<close>

type_synonym stream = "nat \<Rightarrow> Token"

definition advanced :: "ParserState \<Rightarrow> ParserState" where
  "advanced s = snd (run_state advance_token s)"

definition future :: "ParserState \<Rightarrow> stream" where
  "future s n = ps_current ((advanced ^^ n) s)"

text \<open>A list of tokens in front of a stream.\<close>

fun before :: "Token list \<Rightarrow> stream \<Rightarrow> stream" where
  "before [] f = f"
| "before (t # ts) f = (\<lambda>n. case n of 0 \<Rightarrow> t | Suc m \<Rightarrow> before ts f m)"

lemma before_append [simp]: "before (ts @ us) f = before ts (before us f)"
  by (induction ts) auto

lemma before_0 [simp]: "before (t # ts) f 0 = t"
  by simp

lemma before_same [simp]: "before ts f = before ts g \<longleftrightarrow> f = g"
proof (induction ts)
  case (Cons t ts)
  show ?case
  proof
    assume e: "before (t # ts) f = before (t # ts) g"
    have "before ts f m = before ts g m" for m
      using fun_cong [OF e, of "Suc m"] by simp
    with Cons show "f = g" by (simp add: fun_eq_iff [of "before ts f"])
  qed simp
qed simp

lemma future_0: "future s 0 = ps_current s"
  by (simp add: future_def)

lemma future_advanced: "future (advanced s) n = future s (Suc n)"
  by (simp add: future_def funpow_swap1)

lemma future_cons: "future s = before [ps_current s] (future (advanced s))"
  by (rule ext) (simp add: future_advanced future_0 split: nat.split)

lemma run_advance: "run_state advance_token s = (ps_current s, advanced s)"
  by (simp add: advanced_def advance_token_def)

lemma advanced_peeked: "advanced (snd (run_state peekNext_token s)) = advanced s"
  by (auto simp: advanced_def peekNext_token_def advance_token_def fetch_def
      split: option.splits list.splits prod.splits)

lemma run_peekNext:
  "\<exists>s'. run_state peekNext_token s = (future s 1, s') \<and> future s' = future s \<and>
     ps_current s' = ps_current s \<and> ps_recursionDepth s' = ps_recursionDepth s \<and> ps_stuck s' = ps_stuck s"
proof -
  let ?s' = "snd (run_state peekNext_token s)"
  have c: "ps_current ?s' = ps_current s \<and> ps_recursionDepth ?s' = ps_recursionDepth s \<and> ps_stuck ?s' = ps_stuck s"
    by (auto simp: peekNext_token_def fetch_def split: option.splits list.splits prod.splits)
  have "future ?s' = future s"
    by (simp add: future_cons [of ?s'] future_cons [of s] advanced_peeked c)
  moreover have "fst (run_state peekNext_token s) = future s 1"
    by (auto simp: future_def advanced_def peekNext_token_def advance_token_def fetch_def
        split: option.splits list.splits prod.splits)
  ultimately show ?thesis using c by (metis prod.collapse)
qed

text \<open>The recursion depth and the fuel mark do not touch the stream.\<close>

lemma advanced_frame:
  "advanced (s\<lparr>ps_recursionDepth := d\<rparr>) = (advanced s)\<lparr>ps_recursionDepth := d\<rparr>"
  "ps_recursionDepth (advanced s) = ps_recursionDepth s" "ps_stuck (advanced s) = ps_stuck s"
  by (auto simp: advanced_def advance_token_def fetch_def split: option.splits list.splits prod.splits)

lemma future_depth [simp]: "future (s\<lparr>ps_recursionDepth := d\<rparr>) = future s"
proof
  fix n
  have "(advanced ^^ n) (s\<lparr>ps_recursionDepth := d\<rparr>) = ((advanced ^^ n) s)\<lparr>ps_recursionDepth := d\<rparr>"
    by (induction n) (simp_all add: advanced_frame)
  then show "future (s\<lparr>ps_recursionDepth := d\<rparr>) n = future s n" by (simp add: future_def)
qed

section \<open>Replay\<close>

lemma future_pending:
  "future (s\<lparr>ps_current := c, ps_pending := t # ts, ps_lookahead := None\<rparr>) =
   before [c] (future (s\<lparr>ps_current := t, ps_pending := ts, ps_lookahead := None\<rparr>))"
proof -
  have "advanced (s\<lparr>ps_current := c, ps_pending := t # ts, ps_lookahead := None\<rparr>) =
      s\<lparr>ps_current := t, ps_pending := ts, ps_lookahead := None\<rparr>"
    by (cases s) (simp add: advanced_def advance_token_def fetch_def)
  then show ?thesis by (subst future_cons) simp
qed

lemma future_replayed:
  "future (s\<lparr>ps_pending := ts @ ps_current s # ps_pending s, ps_current := c, ps_lookahead := None\<rparr>) =
   before (c # ts) (future (s\<lparr>ps_lookahead := None\<rparr>))"
proof (induction ts arbitrary: c)
  case Nil
  have "s\<lparr>ps_pending := [] @ ps_current s # ps_pending s, ps_current := c, ps_lookahead := None\<rparr> =
      s\<lparr>ps_current := c, ps_pending := ps_current s # ps_pending s, ps_lookahead := None\<rparr>" by simp
  moreover have "s\<lparr>ps_current := ps_current s, ps_pending := ps_pending s, ps_lookahead := None\<rparr> = s\<lparr>ps_lookahead := None\<rparr>"
    by simp
  ultimately show ?case by (simp only: future_pending)
next
  case (Cons t ts)
  have "s\<lparr>ps_pending := (t # ts) @ ps_current s # ps_pending s, ps_current := c, ps_lookahead := None\<rparr> =
      s\<lparr>ps_current := c, ps_pending := t # (ts @ ps_current s # ps_pending s), ps_lookahead := None\<rparr>" by simp
  moreover have "s\<lparr>ps_current := t, ps_pending := ts @ ps_current s # ps_pending s, ps_lookahead := None\<rparr> =
      s\<lparr>ps_pending := ts @ ps_current s # ps_pending s, ps_current := t, ps_lookahead := None\<rparr>" by simp
  ultimately show ?case by (simp only: future_pending Cons.IH) simp
qed

lemma replay_future:
  assumes "ts \<noteq> []" and "ps_lookahead s = None"
  shows "future (snd (run_state (replay ts) s)) = before ts (future s)"
proof -
  have "s\<lparr>ps_lookahead := None\<rparr> = s" using assms(2) by simp
  with assms(1) future_replayed [where s = s and ts = "tl ts" and c = "hd ts"] show ?thesis
    by (simp add: run_replay)
qed

section \<open>The detection of pipelines\<close>

text \<open>A name and its qualification: the tokens that detection reads over.\<close>

inductive qualification :: "Token list \<Rightarrow> stream \<Rightarrow> bool" where
  qual_end: "tk_kind (f 0) \<noteq> ColonColon \<Longrightarrow> qualification [] f"
| qual_open: "tk_kind sep = ColonColon \<Longrightarrow> tk_kind (f 0) \<noteq> Identifier \<Longrightarrow> qualification [sep] f"
| qual_part: "tk_kind sep = ColonColon \<Longrightarrow> tk_kind part = Identifier \<Longrightarrow> qualification ts f \<Longrightarrow>
    qualification (sep # part # ts) f"

lemma rounds_qualification:
  "ready s \<Longrightarrow> budget s < fuel \<Longrightarrow> ps_lookahead s = None \<Longrightarrow>
   \<exists>ts s'. run_state (rounds fuel bufferRound buffered) s = (buffered @ ts, s') \<and>
     future s = before ts (future s') \<and> qualification ts (future s') \<and> ps_lookahead s' = None"
proof (induction fuel arbitrary: s buffered)
  case (Suc fuel)
  have adv: "ready (advanced s) \<and> ps_lookahead (advanced s) = None \<and> steps s (advanced s) \<and>
      (curKind s \<noteq> Eof \<longrightarrow> budget (advanced s) < budget s)" if "ready s" for s
    using advance_steps [OF that] steps_strict [of s "advanced s"] steps_ready [of s "advanced s"]
    by (simp add: advanced_def)
  show ?case
  proof (cases "curKind s = ColonColon")
    case False
    have "run_state (bufferRound buffered) s = (Break buffered, s)"
      using False by (simp add: bufferRound_def check_def)
    moreover have "qualification [] (future s)" using False by (simp add: qual_end future_0)
    ultimately show ?thesis using Suc.prems by (intro exI [of _ "[]"] exI [of _ s]) simp
  next
    case True
    let ?a = "advanced s"
    have a: "ready ?a" "ps_lookahead ?a = None" "budget ?a < budget s"
      using adv [OF Suc.prems(1)] True by auto
    have fs: "future s = before [ps_current s] (future ?a)" by (rule future_cons)
    show ?thesis
    proof (cases "curKind ?a = Identifier")
      case False
      have "run_state (bufferRound buffered) s = (Break (buffered @ [ps_current s]), ?a)"
        using True False by (simp add: bufferRound_def check_def run_advance)
      moreover have "qualification [ps_current s] (future ?a)"
        using True False by (simp add: qual_open future_0)
      ultimately show ?thesis using a fs by (intro exI [of _ "[ps_current s]"] exI [of _ ?a]) simp
    next
      case id: True
      let ?b = "advanced ?a"
      have b: "ready ?b" "ps_lookahead ?b = None" "budget ?b < fuel"
        using adv [OF a(1)] a Suc.prems(2) id by auto
      have r: "run_state (bufferRound buffered) s =
          (Continue (buffered @ [ps_current s, ps_current ?a]), ?b)"
        using True id by (simp add: bufferRound_def check_def run_advance)
      from Suc.IH [OF b(1,3,2), of "buffered @ [ps_current s, ps_current ?a]"] obtain ts s' where
        ih: "run_state (rounds fuel bufferRound (buffered @ [ps_current s, ps_current ?a])) ?b =
           (buffered @ [ps_current s, ps_current ?a] @ ts, s')" "future ?b = before ts (future s')"
          "qualification ts (future s')" "ps_lookahead s' = None"
        by auto
      have "future s = before (ps_current s # ps_current ?a # ts) (future s')"
        using fs future_cons [of ?a] ih(2) by simp
      moreover have "qualification (ps_current s # ps_current ?a # ts) (future s')"
        using qual_part [OF _ _ ih(3)] True id by simp
      ultimately show ?thesis using r ih(1,4)
        by (intro exI [of _ "ps_current s # ps_current ?a # ts"] exI [of _ s']) simp
    qed
  qed
qed simp

lemma qualification_unique:
  "qualification ts f \<Longrightarrow> qualification us g \<Longrightarrow> before ts f = before us g \<Longrightarrow> ts = us \<and> f = g"
proof (induction arbitrary: us rule: qualification.induct)
  case (qual_end f)
  from qual_end.prems(1) show ?case
    by cases (use qual_end in auto)
next
  case (qual_open sep f)
  have h: "before us g 0 = sep" "before us g 1 = f 0" using qual_open.prems(2) by (metis before.simps One_nat_def nat.case)+
  from qual_open.prems(1) show ?case
  proof cases
    case qual_end
    with h qual_open.hyps show ?thesis by simp
  next
    case (qual_open sep')
    with h(1) have "us = [sep]" by simp
    with qual_open.prems(2) have "before [sep] f = before [sep] g" by (simp only:)
    with \<open>us = [sep]\<close> show ?thesis by (simp only: before_same)
  next
    case (qual_part sep' part ts')
    with h \<open>tk_kind (f 0) \<noteq> Identifier\<close> show ?thesis by simp
  qed
next
  case (qual_part sep part ts f)
  have h: "before us g 0 = sep" "before us g 1 = part" using qual_part.prems(2) by (metis before.simps One_nat_def nat.case)+
  from qual_part.prems(1) show ?case
  proof cases
    case qual_end
    with h qual_part.hyps show ?thesis by simp
  next
    case (qual_open sep')
    with h qual_part.hyps show ?thesis by simp
  next
    case (qual_part sep' part' us')
    with h have eq: "sep' = sep" "part' = part" by simp_all
    with qual_part qual_part.prems(2) have "before (sep # part # []) (before ts f) = before (sep # part # []) (before us' g)"
      by simp
    then have "before ts f = before us' g" by (simp only: before_same)
    with qual_part eq \<open>\<And>us. qualification us g \<Longrightarrow> before ts f = before us g \<Longrightarrow> ts = us \<and> f = g\<close> show ?thesis by simp
  qed
qed

lemma bufferName_future:
  assumes "ready s"
  shows "\<exists>ts s1. run_state bufferName s = (ps_current s # ts, s1) \<and>
    future s = before (ps_current s # ts) (future s1) \<and> qualification ts (future s1) \<and> ps_lookahead s1 = None"
proof -
  have a: "ready (advanced s)" "ps_lookahead (advanced s) = None"
    using advance_steps(1,4) [OF assms] by (simp_all add: advanced_def steps_def)
  from rounds_qualification [OF a(1) lessI a(2), of "[ps_current s]"] obtain ts s1 where
    r: "run_state (rounds (Suc (budget (advanced s))) bufferRound [ps_current s]) (advanced s) = (ps_current s # ts, s1)"
      "future (advanced s) = before ts (future s1)" "qualification ts (future s1)" "ps_lookahead s1 = None"
    by auto
  have "run_state bufferName s = (ps_current s # ts, s1)"
    using r(1) by (simp add: bufferName_rounds loop_def run_advance del: rounds.simps)
  moreover have "future s = before (ps_current s # ts) (future s1)"
    using future_cons [of s] r(2) by simp
  ultimately show ?thesis using r by blast
qed

text \<open>C9: telling a pipeline from a list of operations reads ahead over a whole qualified name
  and puts it back: whatever the answer, the tokens to come are the same as before, so nothing is
  lost or read twice; and the answer is yes exactly when an identifier, qualified or not, is
  followed by an arrow.\<close>

theorem pipeline_detection:
  assumes "ready s"
  shows "case run_state detectPipelineMode s of (pipeline, s') \<Rightarrow>
    future s' = future s \<and>
    (pipeline \<longleftrightarrow> tk_kind (ps_current s) = Identifier \<and>
       (\<exists>ts f. future s = before (ps_current s # ts) f \<and> qualification ts f \<and> tk_kind (f 0) = Arrow))"
proof (cases "tk_kind (ps_current s) = Identifier")
  case False
  then show ?thesis by (simp add: detectPipelineMode_def check_def)
next
  case True
  obtain sp where p: "run_state peekNext_token s = (future s 1, sp)" "future sp = future s"
    "ps_current sp = ps_current s"
    using run_peekNext by blast
  have rp: "ready sp" using peekNext_steps [OF assms] p(1) by (simp add: steps_def)
  from bufferName_future [OF rp] obtain us s1 where b:
    "run_state bufferName sp = (ps_current s # us, s1)" "future s = before (ps_current s # us) (future s1)"
    "qualification us (future s1)" "ps_lookahead s1 = None"
    using p by auto
  have ex: "(\<exists>ts f. future s = before (ps_current s # ts) f \<and> qualification ts f \<and> tk_kind (f 0) = Arrow) \<longleftrightarrow>
      tk_kind (ps_current s1) = Arrow"
  proof -
    have "f = future s1" if "future s = before (ps_current s # ts) f" "qualification ts f" for ts f
    proof -
      have "before [ps_current s] (before ts f) = before [ps_current s] (before us (future s1))"
        using that(1) b(2) by simp
      then show ?thesis
        using qualification_unique [OF that(2) b(3)] by (simp only: before_same)
    qed
    then show ?thesis using b(2,3) by (metis future_0)
  qed
  have snd1: "future s 1 = before us (future s1) 0" using b(2) by simp
  consider (arrow) "tk_kind (future s 1) = Arrow" | (colons) "tk_kind (future s 1) = ColonColon"
    | (other) "tk_kind (future s 1) \<noteq> Arrow" "tk_kind (future s 1) \<noteq> ColonColon" by blast
  then show ?thesis
  proof cases
    case arrow
    from b(3) arrow snd1 have "us = []" by cases auto
    with arrow snd1 p True ex show ?thesis by (simp add: detectPipelineMode_def check_def future_0)
  next
    case colons
    have rf: "future (snd (run_state (replay (ps_current s # us)) s1)) = future s"
      using replay_future [OF _ b(4), of "ps_current s # us"] b(2) by simp
    with colons p True b ex show ?thesis
      by (auto simp: detectPipelineMode_def check_def split: prod.split)
  next
    case other
    from b(3) other snd1 have "us = []" by cases auto
    with other snd1 p True ex show ?thesis by (simp add: detectPipelineMode_def check_def future_0)
  qed
qed

theorem pipeline_detection_witness:
  "let s = parser_init (mkLexer ''a::b -> c;'' ''f.topo'' empty_engine) in
    future (snd (run_state detectPipelineMode s)) = future s"
proof -
  have "ready (parser_init (mkLexer ''a::b -> c;'' ''f.topo'' empty_engine))"
    by (intro parser_init_ready) (simp add: lexer_ready_def lex_wf_mkLexer)
  from pipeline_detection [OF this] show ?thesis by (simp add: Let_def split: prod.splits)
qed

end
