(* ===== verification/ExprGrammar.thy ===== *)
theory ExprGrammar
  imports ParserStream
begin

text \<open>
  The grammar of expressions, and the theorem that the precedence climber
  (\<open>parseBinaryExpr\<close>, \<open>parseUnaryExpr\<close>, \<open>parsePrimaryExpr\<close>) computes it: operators of one level
  associate to the left, the right operand binds tighter, and the number of nested
  expressions is what the recursion limit leaves.
\<close>

declare before.simps(2) [simp del]

lemma before_Suc [simp]: "before (t # ts) f (Suc n) = before ts f n"
  by (simp add: before.simps(2))

lemma before_Cons: "before (t # ts) f = before [t] (before ts f)"
  using before_append [of "[t]" ts f] by simp

section \<open>The grammar\<close>

inductive func_name :: "Token list \<Rightarrow> string \<Rightarrow> bool" where
  name_one: "tk_kind t = Identifier \<Longrightarrow> func_name [t] (tk_text t)"
| name_more: "func_name ts n \<Longrightarrow> tk_kind d = Dot \<Longrightarrow> tk_kind t = Identifier \<Longrightarrow>
    func_name (ts @ [d, t]) (n @ ''.'' @ tk_text t)"

text \<open>
  \<open>expr k p ts e\<close>: the tokens spell an expression whose operators outside of parentheses have
  precedence \<open>p\<close> or higher, with at most \<open>k\<close> expressions nested into each other.
\<close>

inductive expr :: "nat \<Rightarrow> int \<Rightarrow> Token list \<Rightarrow> Expr \<Rightarrow> bool"
  and unary :: "nat \<Rightarrow> Token list \<Rightarrow> Expr \<Rightarrow> bool"
  and args :: "nat \<Rightarrow> Token list \<Rightarrow> Expr list \<Rightarrow> bool" where
  expr_unary: "unary k ts e \<Longrightarrow> expr (Suc k) p ts e"
| expr_binary: "expr (Suc k) q ls l \<Longrightarrow> isBinaryOperator (tk_kind op) \<Longrightarrow>
    q = getOperatorPrecedence (tk_kind op) \<Longrightarrow> p \<le> q \<Longrightarrow> expr k (q + 1) rs r \<Longrightarrow>
    expr (Suc k) p (ls @ op # rs) (BinaryExpr (tk_location op) (tk_kind op) l r)"
| unary_op: "tk_kind t = Bang \<or> tk_kind t = Minus \<Longrightarrow> unary k ts e \<Longrightarrow>
    unary k (t # ts) (UnaryExpr (tk_location t) (tk_kind t) e)"
| unary_paren: "tk_kind t = LParen \<Longrightarrow> expr k 1 ts e \<Longrightarrow> tk_kind u = RParen \<Longrightarrow>
    unary k (t # ts @ [u]) e"
| unary_literal: "tk_kind t = IntegerLiteral \<or> tk_kind t = StringLiteral \<Longrightarrow>
    unary k [t] (LiteralExpr (tk_location t) (tk_text t) (tk_kind t))"
| unary_true: "tk_kind t = KW_true \<Longrightarrow> unary k [t] (LiteralExpr (tk_location t) ''true'' KW_true)"
| unary_false: "tk_kind t = KW_false \<Longrightarrow> unary k [t] (LiteralExpr (tk_location t) ''false'' KW_false)"
| unary_name: "func_name ts n \<Longrightarrow> unary k ts (IdentifierExpr (tk_location (hd ts)) n)"
| unary_call: "func_name ts n \<Longrightarrow> tk_kind t = LParen \<Longrightarrow> tk_kind u = RParen \<Longrightarrow>
    unary k (ts @ [t, u]) (CallExpr (tk_location (hd ts)) n [])"
| unary_call_args: "func_name ts n \<Longrightarrow> tk_kind t = LParen \<Longrightarrow> args k us as \<Longrightarrow> tk_kind u = RParen \<Longrightarrow>
    unary k (ts @ t # us @ [u]) (CallExpr (tk_location (hd ts)) n as)"
| args_one: "expr k 1 ts e \<Longrightarrow> args k ts [e]"
| args_more: "args k ts as \<Longrightarrow> tk_kind t = Comma \<Longrightarrow> expr k 1 us e \<Longrightarrow> args k (ts @ t # us) (as @ [e])"

lemma func_name_kinds: "func_name ts n \<Longrightarrow> ts \<noteq> [] \<and> tk_kind (hd ts) = Identifier \<and> (\<forall>t \<in> set ts. tk_kind t \<noteq> Eof)"
  by (induction rule: func_name.induct) (auto simp: hd_append)

lemma grammar_kinds:
  "expr k p ts e \<Longrightarrow> ts \<noteq> [] \<and> (\<forall>t \<in> set ts. tk_kind t \<noteq> Eof)"
  "unary k ts e \<Longrightarrow> ts \<noteq> [] \<and> (\<forall>t \<in> set ts. tk_kind t \<noteq> Eof)"
  "args k ts as \<Longrightarrow> ts \<noteq> [] \<and> (\<forall>t \<in> set ts. tk_kind t \<noteq> Eof)"
  by (induction rule: expr_unary_args.inducts) (auto dest: func_name_kinds not_Eof)

text \<open>A token that cannot go on after an expression of the level.\<close>

definition ends :: "int \<Rightarrow> Token \<Rightarrow> bool" where
  "ends p t \<longleftrightarrow> tk_kind t \<noteq> LParen \<and> tk_kind t \<noteq> Dot \<and> getOperatorPrecedence (tk_kind t) < p"

section \<open>Running the primitives\<close>

lemma advanced_ready:
  assumes "ready s"
  shows "steps s (advanced s)" "ready (advanced s)" "curKind s \<noteq> Eof \<Longrightarrow> budget (advanced s) < budget s"
  using advance_steps(1,2) [OF assms] steps_strict [of s "advanced s"]
  by (auto simp: advanced_def steps_def)

lemma run_expect: "curKind s = k \<Longrightarrow> run_state (expect k msg) s = (ps_current s, advanced s)"
  by (simp add: expect_def check_def run_advance)

lemma run_match: "run_state (match k) s = (curKind s = k, if curKind s = k then advanced s else s)"
  by (simp add: match_def check_def run_advance)

lemma expect_silent:
  assumes "ready s" and "\<not> reachedLimit (ps_diag s)" and "run_state (expect k msg) s = (t, s')"
    and "errorsOf s' = errorsOf s"
  shows "curKind s = k \<and> t = ps_current s \<and> s' = advanced s"
proof (cases "curKind s = k")
  case True
  with assms(3) show ?thesis by (simp add: run_expect)
next
  case False
  with assms(3) have "s' = snd (run_state (error (tk_location (ps_current s)) msg) s)"
    by (simp add: expect_def check_def errorHere_def location_def peek_token_def split: prod.splits)
  with report_counts(2) [OF assms(2), of "tk_location (ps_current s)" msg "[]"] assms(4) show ?thesis by (simp add: error_def ps_diag_def)
qed

text \<open>A loop is its body followed by the loop: its fuel always suffices.\<close>

lemma rounds_enough:
  assumes "\<And>x m. m \<le> N \<Longrightarrow> sound UNIV m (\<lambda>r b. \<forall>y. r = Continue y \<longrightarrow> b < m) (body x)"
  shows "ready s \<Longrightarrow> budget s \<le> N \<Longrightarrow> budget s < n \<Longrightarrow> budget s < m \<Longrightarrow>
    run_state (rounds n body x) s = run_state (rounds m body x) s"
proof (induction n arbitrary: m x s)
  case (Suc n)
  then obtain m' where m: "m = Suc m'" by (cases m) auto
  obtain r s1 where r: "run_state (body x) s = (r, s1)" by fastforce
  from soundD [OF assms [OF Suc.prems(2)] Suc.prems(1) order_refl _ r]
  have 1: "steps s s1" "\<And>y. r = Continue y \<Longrightarrow> budget s1 < budget s" by auto
  show ?case
  proof (cases r)
    case (Continue y)
    have "run_state (rounds n body y) s1 = run_state (rounds m' body y) s1"
      by (rule Suc.IH) (use 1 Continue Suc.prems m in \<open>auto dest: steps_ready\<close>)
    with r Continue m show ?thesis by simp
  qed (use r m in simp)
qed simp

lemma loop_unfold:
  assumes "\<And>x m. m \<le> N \<Longrightarrow> sound UNIV m (\<lambda>r b. \<forall>y. r = Continue y \<longrightarrow> b < m) (body x)"
    and "ready s" and "budget s \<le> N"
  shows "run_state (loop body x) s =
    (case run_state (body x) s of
       (Continue y, s1) \<Rightarrow> run_state (loop body y) s1
     | (Break y, s1) \<Rightarrow> (y, s1))"
proof -
  obtain r s1 where r: "run_state (body x) s = (r, s1)" by fastforce
  from soundD [OF assms(1) [OF assms(3)] assms(2) order_refl _ r]
  have 1: "steps s s1" "\<And>y. r = Continue y \<Longrightarrow> budget s1 < budget s" by auto
  show ?thesis
  proof (cases r)
    case (Continue y)
    have "run_state (rounds (budget s) body y) s1 = run_state (rounds (Suc (budget s1)) body y) s1"
      by (rule rounds_enough [where N = N, OF assms(1) steps_ready [OF 1(1)]]) (use 1 Continue assms(3) in auto)
    with r Continue show ?thesis by (simp add: loop_def del: rounds.simps add: rounds.simps(2) [of "budget s"])
  qed (use r in \<open>simp add: loop_def\<close>)
qed

lemma future_take:
  assumes "future s = before (t # ts) f"
  shows "ps_current s = t" "future (advanced s) = before ts f"
proof -
  have "before [ps_current s] (future (advanced s)) = before [t] (before ts f)"
    using assms future_cons [of s] before_Cons [of t ts f] by simp
  then show "ps_current s = t" by (metis before_0)
  with \<open>before [ps_current s] (future (advanced s)) = before [t] (before ts f)\<close>
  show "future (advanced s) = before ts f" by (simp only: before_same)
qed

lemma tokens_fit: "ready s \<Longrightarrow> future s = before ts f \<Longrightarrow> \<forall>t \<in> set ts. tk_kind t \<noteq> Eof \<Longrightarrow> length ts \<le> budget s"
proof (induction ts arbitrary: s)
  case (Cons t ts)
  from future_take [OF Cons.prems(2)] Cons.prems advanced_ready [of s] Cons.IH [of "advanced s"]
  show ?case by auto
qed simp

section \<open>Completeness\<close>

text \<open>A parser reads the tokens, leaves the rest, and returns the value.\<close>

definition reads_as :: "'a parser \<Rightarrow> ParserState \<Rightarrow> stream \<Rightarrow> 'a \<Rightarrow> bool" where
  "reads_as p s f x \<longleftrightarrow>
     (\<exists>s'. run_state p s = (x, s') \<and> future s' = f \<and> steps s s')"

text \<open>Two parsers in a row: the first reads the tokens and leaves the work to the second.\<close>

definition leads_to :: "'a parser \<Rightarrow> ParserState \<Rightarrow> 'a parser \<Rightarrow> stream \<Rightarrow> bool" where
  "leads_to p s q f \<longleftrightarrow> (\<exists>s1. run_state p s = run_state q s1 \<and> future s1 = f \<and> steps s s1)"

definition nameRound :: "string \<Rightarrow> string round parser" where
  "nameRound = (\<lambda>name. do {
     more_parts \<leftarrow> checkNext Dot Identifier;
     if more_parts then do {
       advance_token;
       part \<leftarrow> advance_token;
       return (Continue (name @ ''.'' @ tk_text part)) }
     else return (Break name) })"

lemma nameTail_loop: "nameTail Dot ''.'' = loop nameRound"
  by (simp add: nameTail_def nameRound_def fun_eq_iff)

lemma nameRound_sound: "sound UNIV m (\<lambda>r b. \<forall>y. r = Continue y \<longrightarrow> b < m) (nameRound x)"
  unfolding nameRound_def
  by ((rule run_special run_facts | rule sound_then | (simp; fail) | (auto dest: not_Eof; fail))+)

lemma nameTail_unfold:
  "ready s \<Longrightarrow> run_state (nameTail Dot ''.'' name) s =
    (case run_state (nameRound name) s of
       (Continue y, s1) \<Rightarrow> run_state (nameTail Dot ''.'' y) s1
     | (Break y, s1) \<Rightarrow> (y, s1))"
  unfolding nameTail_loop by (rule loop_unfold [OF nameRound_sound _ order_refl])

lemma nameTail_stops: "ready s \<Longrightarrow> curKind s \<noteq> Dot \<Longrightarrow> run_state (nameTail Dot ''.'' n) s = (n, s)"
  by (simp add: nameTail_unfold nameRound_def checkNext_def both_def check_def)

lemma leads_reads: "leads_to p s q f \<Longrightarrow> (\<And>s1. steps s s1 \<Longrightarrow> future s1 = f \<Longrightarrow> reads_as q s1 f' x) \<Longrightarrow> reads_as p s f' x"
  by (fastforce simp: leads_to_def reads_as_def dest: steps_trans)

lemma leads_trans: "leads_to p s q f \<Longrightarrow> (\<And>s1. steps s s1 \<Longrightarrow> future s1 = f \<Longrightarrow> leads_to q s1 r f') \<Longrightarrow> leads_to p s r f'"
  by (fastforce simp: leads_to_def dest: steps_trans)

lemma nameTail_reads:
  assumes "ready s" and "future s = before [d, t] f" and "tk_kind d = Dot" and "tk_kind t = Identifier"
  shows "leads_to (nameTail Dot ''.'' n) s (nameTail Dot ''.'' (n @ ''.'' @ tk_text t)) f"
proof -
  obtain s0 where 0: "run_state peekNext_token s = (future s 1, s0)" "future s0 = future s"
    "ps_current s0 = ps_current s"
    using run_peekNext by blast
  have r0: "ready s0" "steps s s0" using peekNext_steps [OF assms(1)] 0(1) by (auto simp: steps_def)
  from assms(2) 0(2) have f0: "future s0 = before (d # [t]) f" by simp
  note a = future_take [OF f0] and b = future_take [of "advanced s0" t "[]" f]
  have "run_state (nameRound n) s = (Continue (n @ ''.'' @ tk_text t), advanced (advanced s0))"
    using a b assms 0 by (simp add: nameRound_def checkNext_def both_def check_def nextIs_def run_advance)
  then show ?thesis
    unfolding leads_to_def
    using nameTail_unfold [OF assms(1), of n] b a r0(2) advanced_ready(1,2) [OF r0(1)] advanced_ready(1) [OF advanced_ready(2) [OF r0(1)]]
    by (intro exI [of _ "advanced (advanced s0)"]) (auto intro: steps_trans)
qed

lemma func_name_leads:
  "func_name ts n \<Longrightarrow> ready s \<Longrightarrow> future s = before ts f \<Longrightarrow> leads_to parseFuncName s (nameTail Dot ''.'' n) f"
proof (induction arbitrary: f rule: func_name.induct)
  case (name_one t)
  from future_take [of s t "[]" f] name_one have "ps_current s = t" "future (advanced s) = f" by simp_all
  with name_one show ?case
    unfolding leads_to_def by (intro exI [of _ "advanced s"]) (simp add: parseFuncName_def run_expect advanced_ready)
next
  case (name_more ts n d t)
  then have "leads_to parseFuncName s (nameTail Dot ''.'' n) (before [d, t] f)" by simp
  then show ?case
    by (rule leads_trans) (use name_more.hyps in \<open>blast intro: nameTail_reads steps_ready\<close>)
qed

lemma parseFuncName_reads:
  assumes "func_name ts n" and "ready s" and "future s = before ts f" and "tk_kind (f 0) \<noteq> Dot"
  shows "reads_as parseFuncName s f n"
proof (rule leads_reads [OF func_name_leads [OF assms(1-3)]])
  fix s1 assume "steps s s1" "future s1 = f"
  with assms(4) show "reads_as (nameTail Dot ''.'' n) s1 f n"
    by (auto simp: reads_as_def nameTail_stops future_0 steps_refl dest!: steps_ready)
qed

text \<open>The loop of \<open>parseBinaryExpr\<close>.\<close>

definition climbRound :: "nat \<Rightarrow> int \<Rightarrow> Expr \<Rightarrow> Expr round parser" where
  "climbRound n minPrec = (\<lambda>lhs. do {
     t \<leftarrow> peek_token;
     let prec = getOperatorPrecedence (tk_kind t);
     if isBinaryOperator (tk_kind t) \<and> prec \<ge> minPrec then
       do {
         advance_token;
         rhs \<leftarrow> parseBinaryN n (prec + 1);
         return (Continue (BinaryExpr (tk_location t) (tk_kind t) lhs rhs)) }
     else return (Break lhs) })"

lemma parseBinaryN_Suc:
  "parseBinaryN (Suc n) p = guarded exprTooDeep
     (do { lhs \<leftarrow> parseUnaryExpr (parseBinaryN n 1); loop (climbRound n p) lhs })"
  by (simp add: parseBinaryBody_def climbRound_def)

lemma climbRound_sound:
  assumes "m \<le> n"
  shows "sound UNIV m (\<lambda>r b. \<forall>y. r = Continue y \<longrightarrow> b < m) (climbRound n p x)"
proof -
  have B: "below m (parseBinaryN n q)" for q
    using assms parseBinaryN_runs by (auto simp: below_def)
  show ?thesis
    unfolding climbRound_def
    by ((rule run_special | rule sound_then | rule below_runs [OF B] | (simp; fail) | (auto dest: not_Eof; fail))+)
qed

lemma climb_stops:
  assumes "ready s" and "budget s \<le> n" and "getOperatorPrecedence (curKind s) < p"
  shows "run_state (loop (climbRound n p) e) s = (e, s)"
  using assms(3)
  by (subst loop_unfold [OF climbRound_sound assms(1,2)]) (simp_all add: climbRound_def peek_token_def Let_def)

text \<open>What the climber owes a derivation, of each of the three nonterminals.\<close>

definition unary_reads :: "nat \<Rightarrow> Token list \<Rightarrow> Expr \<Rightarrow> bool" where
  "unary_reads k ts e \<longleftrightarrow>
     (\<forall>s f u n. ready s \<and> future s = before ts f \<and> tk_kind (f 0) \<noteq> LParen \<and> tk_kind (f 0) \<noteq> Dot \<and>
       ps_recursionDepth s + k \<le> kMaxRecursionDepth \<and> budget s < u \<and> budget s \<le> n \<longrightarrow>
       reads_as (parseUnaryN u (parseBinaryN n 1)) s f e)"

definition expr_climbs :: "nat \<Rightarrow> int \<Rightarrow> Token list \<Rightarrow> Expr \<Rightarrow> bool" where
  "expr_climbs k p ts e \<longleftrightarrow>
     (\<forall>s f m n. ready s \<and> future s = before ts f \<and> ends (p + 1) (f 0) \<and> m \<le> p \<and>
       ps_recursionDepth s + k \<le> Suc kMaxRecursionDepth \<and> budget s \<le> n \<longrightarrow>
       leads_to (do { lhs \<leftarrow> parseUnaryExpr (parseBinaryN n 1); loop (climbRound n m) lhs }) s
         (loop (climbRound n m) e) f)"

definition expr_reads :: "nat \<Rightarrow> int \<Rightarrow> Token list \<Rightarrow> Expr \<Rightarrow> bool" where
  "expr_reads k p ts e \<longleftrightarrow>
     (\<forall>s f n. ready s \<and> future s = before ts f \<and> ends p (f 0) \<and>
       ps_recursionDepth s + k \<le> kMaxRecursionDepth \<and> budget s < n \<longrightarrow>
       reads_as (parseBinaryN n p) s f e)"

definition args_read :: "nat \<Rightarrow> Token list \<Rightarrow> Expr list \<Rightarrow> bool" where
  "args_read k ts as \<longleftrightarrow>
     (\<forall>s f n. ready s \<and> future s = before ts f \<and> ends 1 (f 0) \<and>
       ps_recursionDepth s + k \<le> kMaxRecursionDepth \<and> budget s < n \<longrightarrow>
       leads_to (do { a \<leftarrow> parseBinaryN n 1; whileMatch Comma (adding (parseBinaryN n 1)) [a] }) s
         (whileMatch Comma (adding (parseBinaryN n 1)) as) f)"

lemma run_guarded:
  "ps_recursionDepth s < kMaxRecursionDepth \<Longrightarrow>
   run_state body (s\<lparr>ps_recursionDepth := ps_recursionDepth s + 1\<rparr>) = (x, s1) \<Longrightarrow>
   run_state (guarded p body) s = (x, s1\<lparr>ps_recursionDepth := ps_recursionDepth s1 - 1\<rparr>)"
  by (simp add: guarded_def)

lemma climbs_reads:
  assumes "expr_climbs k p ts e" and "0 < k"
  shows "expr_reads k p ts e"
  unfolding expr_reads_def
proof (intro allI impI)
  fix s f n
  assume a: "ready s \<and> future s = before ts f \<and> ends p (f 0) \<and>
    ps_recursionDepth s + k \<le> kMaxRecursionDepth \<and> budget s < n"
  then obtain n' where n: "n = Suc n'" by (cases n) auto
  let ?i = "s\<lparr>ps_recursionDepth := ps_recursionDepth s + 1\<rparr>"
  have i: "ready ?i" "budget ?i = budget s" "ps_recursionDepth ?i = Suc (ps_recursionDepth s)"
    by (simp_all add: a ready_def budget_def tokensLeft_def ps_diag_def)
      (use a in \<open>simp_all add: ready_def\<close>)
  have "leads_to (do { lhs \<leftarrow> parseUnaryExpr (parseBinaryN n' 1); loop (climbRound n' p) lhs }) ?i
      (loop (climbRound n' p) e) f"
    using assms(1) a i n unfolding expr_climbs_def ends_def by force
  then obtain s1 where 1: "run_state (do { lhs \<leftarrow> parseUnaryExpr (parseBinaryN n' 1); loop (climbRound n' p) lhs }) ?i =
      run_state (loop (climbRound n' p) e) s1" "future s1 = f" "steps ?i s1"
    by (auto simp: leads_to_def)
  have "run_state (loop (climbRound n' p) e) s1 = (e, s1)"
    by (rule climb_stops) (use 1 a i n steps_ready [OF 1(3)] steps_budget [OF 1(3)] in \<open>auto simp: ends_def future_0\<close>)
  with 1(1) have "run_state (parseBinaryN n p) s = (e, s1\<lparr>ps_recursionDepth := ps_recursionDepth s1 - 1\<rparr>)"
    unfolding n parseBinaryN_Suc by (intro run_guarded) (use a assms(2) in simp_all)
  moreover have "steps s (s1\<lparr>ps_recursionDepth := ps_recursionDepth s1 - 1\<rparr>)"
    using 1(3) by (simp add: steps_def ready_def tokensLeft_def ps_diag_def)
  ultimately show "reads_as (parseBinaryN n p) s f e"
    using 1(2) by (simp add: reads_as_def)
qed

lemma parseUnaryN_prefix:
  "curKind s = Bang \<or> curKind s = Minus \<Longrightarrow>
   run_state (parseUnaryN (Suc u) x) s =
     (case run_state (parseUnaryN u x) (advanced s) of
        (e, s1) \<Rightarrow> (UnaryExpr (tk_location (ps_current s)) (curKind s) e, s1))"
  by (simp add: peek_token_def run_advance)

lemma parseUnaryN_primary:
  "\<not> (curKind s = Bang \<or> curKind s = Minus) \<Longrightarrow>
   run_state (parseUnaryN (Suc u) x) s = run_state (parsePrimaryExpr x) s"
  by (simp add: peek_token_def)

lemma unary_op_reads:
  assumes t: "tk_kind t = Bang \<or> tk_kind t = Minus" and e: "unary_reads k ts e"
  shows "unary_reads k (t # ts) (UnaryExpr (tk_location t) (tk_kind t) e)"
  unfolding unary_reads_def
proof (intro allI impI)
  fix s f u n
  assume a: "ready s \<and> future s = before (t # ts) f \<and> tk_kind (f 0) \<noteq> LParen \<and> tk_kind (f 0) \<noteq> Dot \<and>
    ps_recursionDepth s + k \<le> kMaxRecursionDepth \<and> budget s < u \<and> budget s \<le> n"
  then obtain u' where u: "u = Suc u'" by (cases u) auto
  from a future_take [of s t ts f] t
  have c: "ps_current s = t" "future (advanced s) = before ts f" "curKind s \<noteq> Eof" by auto
  with advanced_ready [of s] a u e have "reads_as (parseUnaryN u' (parseBinaryN n 1)) (advanced s) f e"
    unfolding unary_reads_def by (auto simp: advanced_frame)
  with c t advanced_ready(1) [of s] a
  show "reads_as (parseUnaryN u (parseBinaryN n 1)) s f (UnaryExpr (tk_location t) (tk_kind t) e)"
    unfolding u reads_as_def by (auto simp: parseUnaryN_prefix simp del: parseUnaryN.simps dest: steps_trans)
qed

text \<open>A primary expression is read by \<open>parsePrimaryExpr\<close>.\<close>

lemma primary_reads:
  assumes "\<And>s f n. ready s \<Longrightarrow> future s = before ts f \<Longrightarrow> tk_kind (f 0) \<noteq> LParen \<Longrightarrow> tk_kind (f 0) \<noteq> Dot \<Longrightarrow>
      ps_recursionDepth s + k \<le> kMaxRecursionDepth \<Longrightarrow> budget s \<le> n \<Longrightarrow>
      reads_as (parsePrimaryExpr (parseBinaryN n 1)) s f e"
    and "ts \<noteq> []" and "tk_kind (hd ts) \<noteq> Bang" and "tk_kind (hd ts) \<noteq> Minus"
  shows "unary_reads k ts e"
  unfolding unary_reads_def
proof (intro allI impI)
  fix s f u n
  assume a: "ready s \<and> future s = before ts f \<and> tk_kind (f 0) \<noteq> LParen \<and> tk_kind (f 0) \<noteq> Dot \<and>
    ps_recursionDepth s + k \<le> kMaxRecursionDepth \<and> budget s < u \<and> budget s \<le> n"
  then obtain u' where u: "u = Suc u'" by (cases u) auto
  obtain t ts' where ts: "ts = t # ts'" using assms(2) by (cases ts) auto
  with a future_take(1) [of s t ts' f] have "ps_current s = hd ts" by simp
  with assms(1) [of s f n] a assms(3,4)
  show "reads_as (parseUnaryN u (parseBinaryN n 1)) s f e"
    unfolding u reads_as_def by (simp add: parseUnaryN_primary del: parseUnaryN.simps)
qed

lemma literal_reads:
  assumes "tk_kind t = IntegerLiteral \<or> tk_kind t = StringLiteral"
  shows "unary_reads k [t] (LiteralExpr (tk_location t) (tk_text t) (tk_kind t))"
  by (rule primary_reads)
    (use assms future_take [where ts = "[]" and t = t] advanced_ready(1) in
      \<open>auto simp: reads_as_def parsePrimaryExpr_def peek_token_def run_advance Let_def\<close>)

lemma boolean_reads:
  "tk_kind t = KW_true \<Longrightarrow> unary_reads k [t] (LiteralExpr (tk_location t) ''true'' KW_true)"
  "tk_kind t = KW_false \<Longrightarrow> unary_reads k [t] (LiteralExpr (tk_location t) ''false'' KW_false)"
  by (rule primary_reads;
      (use future_take [where ts = "[]" and t = t] advanced_ready(1) in
      \<open>auto simp: reads_as_def parsePrimaryExpr_def peek_token_def run_advance Let_def\<close>))+

lemma expect_reads:
  assumes "ready s" and "future s = before [t] f" and "tk_kind t = k"
  shows "run_state (expect k msg) s = (t, advanced s)" "future (advanced s) = f" "steps s (advanced s)"
  using future_take [OF assms(2)] assms advanced_ready(1) [OF assms(1)] by (auto simp: run_expect)

lemma paren_reads:
  assumes t: "tk_kind t = LParen" and e: "expr_reads k 1 ts e" and u: "tk_kind u = RParen"
  shows "unary_reads k (t # ts @ [u]) e"
proof (rule primary_reads)
  fix s f n
  assume r: "ready s" and f: "future s = before (t # ts @ [u]) f"
    and d: "ps_recursionDepth s + k \<le> kMaxRecursionDepth" and b: "budget s \<le> n"
  from future_take [OF f] t have c: "ps_current s = t" "future (advanced s) = before ts (before [u] f)" "curKind s = LParen"
    by auto
  have "reads_as (parseBinaryN n 1) (advanced s) (before [u] f) e"
    using e c advanced_ready [OF r] d b u unfolding expr_reads_def ends_def
    by (auto simp: advanced_frame getOperatorPrecedence_def)
  then obtain s1 where 1: "run_state (parseBinaryN n 1) (advanced s) = (e, s1)" "future s1 = before [u] f" "steps (advanced s) s1"
    by (auto simp: reads_as_def)
  note x = expect_reads [OF steps_ready [OF 1(3)] 1(2) u]
  have "run_state (parsePrimaryExpr (parseBinaryN n 1)) s = (e, advanced s1)"
    using c 1(1) x(1) by (simp add: parsePrimaryExpr_def peek_token_def run_advance Let_def del: parseBinaryN.simps)
  with x(2,3) 1(3) advanced_ready(1) [OF r] show "reads_as (parsePrimaryExpr (parseBinaryN n 1)) s f e"
    unfolding reads_as_def by (blast intro: steps_trans)
qed (use t in simp_all)


text \<open>Names and calls.\<close>

lemma func_name_first:
  assumes "func_name ts n" and "future s = before (ts @ us) f"
  shows "ps_current s = hd ts" "tk_kind (hd ts) = Identifier" "hd (ts @ us) = hd ts"
proof -
  from func_name_kinds [OF assms(1)] obtain t ts' where "ts = t # ts'" "tk_kind t = Identifier"
    by (cases ts) auto
  with future_take(1) [of s t "ts' @ us" f] assms(2)
  show "ps_current s = hd ts" "tk_kind (hd ts) = Identifier" "hd (ts @ us) = hd ts" by simp_all
qed

lemma name_run:
  assumes "func_name ts n" and "ready s" and "future s = before ts f" and "tk_kind (f 0) \<noteq> Dot"
  obtains s1 where "future s1 = f" "steps s s1" "ps_current s1 = f 0"
    "run_state (parsePrimaryExpr x) s =
      (if tk_kind (f 0) = LParen
       then run_state (do { as \<leftarrow> parseCallArgs x; return (CallExpr (tk_location (hd ts)) n as) }) s1
       else (IdentifierExpr (tk_location (hd ts)) n, s1))"
proof -
  from parseFuncName_reads [OF assms] obtain s1 where
    1: "run_state parseFuncName s = (n, s1)" "future s1 = f" "steps s s1" by (auto simp: reads_as_def)
  have c: "ps_current s1 = f 0" using 1(2) future_0 [of s1] by simp
  have i: "ps_current s = hd ts" "tk_kind (hd ts) = Identifier"
    using func_name_first [OF assms(1), of s "[]" f] assms(3) by simp_all
  show ?thesis
    by (rule that [OF 1(2,3) c]) (use 1(1) c i in \<open>simp add: parsePrimaryExpr_def peek_token_def check_def Let_def\<close>)
qed

lemma name_reads:
  assumes "func_name ts n"
  shows "unary_reads k ts (IdentifierExpr (tk_location (hd ts)) n)"
proof (rule primary_reads)
  fix s f n'
  assume "ready s" "future s = before ts f" "tk_kind (f 0) \<noteq> LParen" "tk_kind (f 0) \<noteq> Dot"
  with name_run [OF assms, of s f "parseBinaryN n' 1"]
  show "reads_as (parsePrimaryExpr (parseBinaryN n' 1)) s f (IdentifierExpr (tk_location (hd ts)) n)"
    unfolding reads_as_def by metis
qed (use func_name_kinds [OF assms] in auto)

text \<open>A call reads its name and its arguments, \<open>as\<close>, once \<open>parseCallArgs\<close> reads these.\<close>

lemma call_reads:
  assumes n: "func_name ts n" and t: "tk_kind t = LParen"
    and as: "\<And>s f x. ready s \<Longrightarrow> future s = before (t # us) f \<Longrightarrow>
      ps_recursionDepth s + k \<le> kMaxRecursionDepth \<Longrightarrow> budget s \<le> x \<Longrightarrow>
      reads_as (parseCallArgs (parseBinaryN x 1)) s f as"
  shows "unary_reads k (ts @ t # us) (CallExpr (tk_location (hd ts)) n as)"
proof -
  note h = func_name_kinds [OF n]
  have "unary_reads k (ts @ t # us) (CallExpr (tk_location (hd ts)) n as)"
  proof (rule primary_reads)
    fix s f x
    assume a: "ready s" "future s = before (ts @ t # us) f"
      "ps_recursionDepth s + k \<le> kMaxRecursionDepth" "budget s \<le> x"
    from a(2) t have "future s = before ts (before (t # us) f)" "tk_kind (before (t # us) f 0) = LParen" by simp_all
    from name_run [OF n a(1) this(1), of "parseBinaryN x 1"] this(2) obtain s1 where
      1: "future s1 = before (t # us) f" "steps s s1"
      "run_state (parsePrimaryExpr (parseBinaryN x 1)) s =
        run_state (do { as \<leftarrow> parseCallArgs (parseBinaryN x 1); return (CallExpr (tk_location (hd ts)) n as) }) s1"
      by (auto simp del: parseBinaryN.simps)
    have "reads_as (parseCallArgs (parseBinaryN x 1)) s1 f as"
      by (rule as [OF steps_ready [OF 1(2)] 1(1)]) (use 1(2) a in \<open>auto simp: steps_def budget_def\<close>)
    with 1 show "reads_as (parsePrimaryExpr (parseBinaryN x 1)) s f (CallExpr (tk_location (hd ts)) n as)"
      by (auto simp: reads_as_def intro: steps_trans)
  qed (use h in \<open>auto simp: hd_append\<close>)
  then show ?thesis .
qed

lemma call_none_reads:
  assumes "func_name ts n" and "tk_kind t = LParen" and "tk_kind u = RParen"
  shows "unary_reads k (ts @ [t, u]) (CallExpr (tk_location (hd ts)) n [])"
proof (rule call_reads [OF assms(1,2)])
  fix s f x
  assume r: "ready s" and f: "future s = before [t, u] f"
  from f have f': "future s = before (t # [u]) f" by simp
  note c = future_take [OF f']
  note u = expect_reads [OF advanced_ready(2) [OF r] c(2) assms(3)]
  have "ps_current (advanced s) = u" using future_take(1) c(2) by blast
  with c u assms have "run_state (parseCallArgs (parseBinaryN x 1)) s = ([], advanced (advanced s))"
    by (simp add: parseCallArgs_def run_advance check_def del: parseBinaryN.simps)
  with u(2,3) advanced_ready(1) [OF r] show "reads_as (parseCallArgs (parseBinaryN x 1)) s f []"
    unfolding reads_as_def by (blast intro: steps_trans)
qed


text \<open>Arguments.\<close>

lemma whileMatch_unfold:
  assumes "below n p" and "ready s" and "budget s \<le> n" and "k \<noteq> Eof"
  shows "run_state (whileMatch k (adding p) xs) s =
    (if curKind s = k
     then case run_state p (advanced s) of (x, s1) \<Rightarrow> run_state (whileMatch k (adding p) (xs @ [x])) s1
     else (xs, s))"
proof -
  have S: "sound UNIV m (\<lambda>r b. \<forall>y. r = Continue y \<longrightarrow> b < m)
      (do { b \<leftarrow> match k; if b then do { y \<leftarrow> adding p x; return (Continue y) } else return (Break x) })"
    if "m \<le> n" for m x
  proof -
    have B: "below m p" using assms(1) that by (rule below_mono)
    show ?thesis unfolding adding_def
      by ((rule run_special | rule sound_then | rule below_runs [OF B] | (simp add: assms(4); fail) | (auto dest: not_Eof; fail))+)
  qed
  show ?thesis
    unfolding whileMatch_def
    by (subst loop_unfold [OF S assms(2,3)]) (auto simp: run_match adding_def split: prod.split)
qed

lemma parseBinaryN_below: "below n (parseBinaryN n p)"
  using parseBinaryN_runs by (auto simp: below_def)

lemma args_one_reads:
  assumes "expr_reads k 1 ts e"
  shows "args_read k ts [e]"
  unfolding args_read_def
proof (intro allI impI)
  fix s f n
  assume "ready s \<and> future s = before ts f \<and> ends 1 (f 0) \<and> ps_recursionDepth s + k \<le> kMaxRecursionDepth \<and> budget s < n"
  with assms have "reads_as (parseBinaryN n 1) s f e" unfolding expr_reads_def by blast
  then show "leads_to (do { a \<leftarrow> parseBinaryN n 1; whileMatch Comma (adding (parseBinaryN n 1)) [a] }) s
      (whileMatch Comma (adding (parseBinaryN n 1)) [e]) f"
    by (auto simp: reads_as_def leads_to_def simp del: parseBinaryN.simps)
qed

lemma args_more_reads:
  assumes as: "args_read k ts as" and t: "tk_kind t = Comma" and e: "expr_reads k 1 us e"
  shows "args_read k (ts @ t # us) (as @ [e])"
  unfolding args_read_def
proof (intro allI impI)
  fix s f n
  let ?more = "\<lambda>xs. whileMatch Comma (adding (parseBinaryN n 1)) xs"
  assume a: "ready s \<and> future s = before (ts @ t # us) f \<and> ends 1 (f 0) \<and>
    ps_recursionDepth s + k \<le> kMaxRecursionDepth \<and> budget s < n"
  have "ends 1 (before (t # us) f 0)" using t by (simp add: ends_def getOperatorPrecedence_def)
  with a as have "leads_to (do { a \<leftarrow> parseBinaryN n 1; ?more [a] }) s (?more as) (before (t # us) f)"
    unfolding args_read_def by simp
  moreover have "leads_to (?more as) s1 (?more (as @ [e])) f"
    if 1: "steps s s1" "future s1 = before (t # us) f" for s1
  proof -
    note r = steps_ready [OF 1(1)] and c = future_take [OF 1(2)]
    note v = advanced_ready [OF r]
    have "reads_as (parseBinaryN n 1) (advanced s1) f e"
      using e a c v t steps_budget [OF 1(1)] 1(1) unfolding expr_reads_def
      by (auto simp: advanced_frame steps_def budget_def)
    then obtain s2 where "run_state (parseBinaryN n 1) (advanced s1) = (e, s2)" "future s2 = f" "steps (advanced s1) s2"
      by (auto simp: reads_as_def)
    moreover have "budget s1 \<le> n" using a steps_budget [OF 1(1)] by simp
    ultimately show ?thesis
      using c t v(1) unfolding leads_to_def
      by (auto simp: whileMatch_unfold [OF parseBinaryN_below r] simp del: parseBinaryN.simps intro: steps_trans)
  qed
  ultimately show "leads_to (do { a \<leftarrow> parseBinaryN n 1; ?more [a] }) s (?more (as @ [e])) f"
    by (rule leads_trans)
qed

text \<open>What an expression starts with.\<close>

lemma grammar_starts:
  "expr k p ts e \<Longrightarrow> 0 < k \<and> ts \<noteq> [] \<and> tk_kind (hd ts) \<noteq> RParen"
  "unary k ts e \<Longrightarrow> ts \<noteq> [] \<and> tk_kind (hd ts) \<noteq> RParen"
  "args k ts as \<Longrightarrow> ts \<noteq> [] \<and> tk_kind (hd ts) \<noteq> RParen"
  by (induction rule: expr_unary_args.inducts) (auto dest: func_name_kinds simp: hd_append)

lemma call_args_reads:
  assumes "func_name ts n" and "tk_kind t = LParen" and as: "args_read k us as" and ar: "args k us as"
    and u: "tk_kind u = RParen"
  shows "unary_reads k (ts @ t # us @ [u]) (CallExpr (tk_location (hd ts)) n as)"
proof (rule call_reads [OF assms(1,2)])
  fix s f x
  let ?more = "\<lambda>xs. whileMatch Comma (adding (parseBinaryN x 1)) xs"
  assume r: "ready s" and f: "future s = before (t # us @ [u]) f"
    and d: "ps_recursionDepth s + k \<le> kMaxRecursionDepth" and b: "budget s \<le> x"
  note c = future_take [OF f] and v = advanced_ready [OF r]
  from c(2) have c2: "future (advanced s) = before us (before [u] f)" by simp
  obtain v' us' where us: "us = v' # us'" and v': "tk_kind v' \<noteq> RParen"
    using grammar_starts(3) [OF ar] by (cases us) auto
  from c2 us future_take(1) [of "advanced s" v' us'] have h: "curKind (advanced s) \<noteq> RParen" using v' by simp
  have "leads_to (do { a \<leftarrow> parseBinaryN x 1; ?more [a] }) (advanced s) (?more as) (before [u] f)"
    using as c2 c(1) v d b assms(2) u unfolding args_read_def ends_def
    by (auto simp: advanced_frame getOperatorPrecedence_def)
  then obtain s1 where 1: "run_state (do { a \<leftarrow> parseBinaryN x 1; ?more [a] }) (advanced s) = run_state (?more as) s1"
    "future s1 = before [u] f" "steps (advanced s) s1" by (auto simp: leads_to_def)
  note r1 = steps_ready [OF 1(3)]
  note w = expect_reads [OF r1 1(2) u]
  have "run_state (?more as) s1 = (as, s1)"
    using whileMatch_unfold [OF parseBinaryN_below r1, of x Comma 1 as] steps_budget [OF 1(3)] v(3) c(1) assms(2) b
      future_take(1) [of s1 u "[]" f] 1(2) u by simp
  with 1(1) w(1) h have "run_state (parseCallArgs (parseBinaryN x 1)) s = (as, advanced s1)"
    by (simp add: parseCallArgs_def run_advance check_def del: parseBinaryN.simps split: prod.splits)
  with w(2,3) 1(3) v(1) show "reads_as (parseCallArgs (parseBinaryN x 1)) s f as"
    unfolding reads_as_def by (blast intro: steps_trans)
qed

text \<open>Expressions.\<close>

lemma expr_unary_climbs:
  assumes "unary_reads k ts e"
  shows "expr_climbs (Suc k) p ts e"
  unfolding expr_climbs_def
proof (intro allI impI)
  fix s f m n
  assume a: "ready s \<and> future s = before ts f \<and> ends (p + 1) (f 0) \<and> m \<le> p \<and>
    ps_recursionDepth s + Suc k \<le> Suc kMaxRecursionDepth \<and> budget s \<le> n"
  with assms have "reads_as (parseUnaryN (Suc (budget s)) (parseBinaryN n 1)) s f e"
    unfolding unary_reads_def ends_def by (simp del: parseUnaryN.simps)
  then show "leads_to (do { lhs \<leftarrow> parseUnaryExpr (parseBinaryN n 1); loop (climbRound n m) lhs }) s
      (loop (climbRound n m) e) f"
    by (auto simp: reads_as_def leads_to_def parseUnaryExpr_def simp del: parseUnaryN.simps)
qed

lemma operator_kinds: "isBinaryOperator k \<Longrightarrow> k \<noteq> LParen \<and> k \<noteq> Dot \<and> k \<noteq> Eof"
  by (auto simp: isBinaryOperator_def getOperatorPrecedence_def)

lemma climb_round:
  assumes "ready s" and "future s = before (op # rs) f" and "isBinaryOperator (tk_kind op)"
    and q: "q = getOperatorPrecedence (tk_kind op)" "m \<le> q" and e: "expr_reads k (q + 1) rs r"
    and "ends (q + 1) (f 0)" and "ps_recursionDepth s + k \<le> kMaxRecursionDepth" and "budget s \<le> n"
  shows "leads_to (loop (climbRound n m) l) s
    (loop (climbRound n m) (BinaryExpr (tk_location op) (tk_kind op) l r)) f"
proof -
  note c = future_take [OF assms(2)] and v = advanced_ready [OF assms(1)]
  have "reads_as (parseBinaryN n (q + 1)) (advanced s) f r"
    using e c v assms operator_kinds [OF assms(3)] unfolding expr_reads_def by (auto simp: advanced_frame)
  then obtain s1 where 1: "run_state (parseBinaryN n (q + 1)) (advanced s) = (r, s1)" "future s1 = f" "steps (advanced s) s1"
    by (auto simp: reads_as_def)
  have "run_state (climbRound n m l) s = (Continue (BinaryExpr (tk_location op) (tk_kind op) l r), s1)"
    using c 1(1) assms(3) q by (simp add: climbRound_def peek_token_def run_advance Let_def del: parseBinaryN.simps)
  with loop_unfold [OF climbRound_sound assms(1,9)] 1 v(1) show ?thesis
    unfolding leads_to_def by (intro exI [of _ s1]) (auto intro: steps_trans)
qed

lemma expr_binary_climbs:
  assumes l: "expr_climbs (Suc k) q ls l" and op: "isBinaryOperator (tk_kind op)"
    and q: "q = getOperatorPrecedence (tk_kind op)" "p \<le> q" and r: "expr_reads k (q + 1) rs r"
  shows "expr_climbs (Suc k) p (ls @ op # rs) (BinaryExpr (tk_location op) (tk_kind op) l r)"
  unfolding expr_climbs_def
proof (intro allI impI)
  fix s f m n
  assume a: "ready s \<and> future s = before (ls @ op # rs) f \<and> ends (p + 1) (f 0) \<and> m \<le> p \<and>
    ps_recursionDepth s + Suc k \<le> Suc kMaxRecursionDepth \<and> budget s \<le> n"
  have "ends (q + 1) op" using operator_kinds [OF op] q by (simp add: ends_def)
  with a l q have "leads_to (do { lhs \<leftarrow> parseUnaryExpr (parseBinaryN n 1); loop (climbRound n m) lhs }) s
      (loop (climbRound n m) l) (before (op # rs) f)"
    unfolding expr_climbs_def by simp
  then show "leads_to (do { lhs \<leftarrow> parseUnaryExpr (parseBinaryN n 1); loop (climbRound n m) lhs }) s
      (loop (climbRound n m) (BinaryExpr (tk_location op) (tk_kind op) l r)) f"
  proof (rule leads_trans)
    fix s1 assume 1: "steps s s1" "future s1 = before (op # rs) f"
    show "leads_to (loop (climbRound n m) l) s1 (loop (climbRound n m) (BinaryExpr (tk_location op) (tk_kind op) l r)) f"
      by (rule climb_round [OF steps_ready [OF 1(1)] 1(2) op q(1) _ r])
        (use a q steps_budget [OF 1(1)] 1(1) in \<open>auto simp: ends_def steps_def\<close>)
  qed
qed

lemma climber_complete:
  "expr k p ts e \<Longrightarrow> expr_climbs k p ts e"
  "unary k ts e \<Longrightarrow> unary_reads k ts e"
  "args k ts as \<Longrightarrow> args_read k ts as"
proof (induction rule: expr_unary_args.inducts)
  case (expr_binary k q ls l op p rs r)
  then show ?case using climbs_reads [of k "q + 1" rs r] grammar_starts(1) by (blast intro: expr_binary_climbs)
next
  case (unary_paren t k ts e u)
  then show ?case using climbs_reads grammar_starts(1) by (blast intro: paren_reads)
next
  case (args_one k ts e)
  then show ?case using climbs_reads grammar_starts(1) by (blast intro: args_one_reads)
next
  case (args_more k ts as t us e)
  then show ?case using climbs_reads grammar_starts(1) by (blast intro: args_more_reads)
qed (blast intro: expr_unary_climbs unary_op_reads literal_reads boolean_reads name_reads call_none_reads call_args_reads)+

end
