(* ===== verification/ExprSound.thy ===== *)
theory ExprSound
  imports ExprGrammar
begin

text \<open>
  Soundness of the precedence climber against the grammar of expressions, and the
  two directions together.
\<close>

section \<open>Silent runs\<close>

text \<open>A run that starts in order, below the error limit, and reports no error.\<close>

definition silent :: "'a parser \<Rightarrow> ParserState \<Rightarrow> 'a \<Rightarrow> ParserState \<Rightarrow> bool" where
  "silent p s x s' \<longleftrightarrow>
     ready s \<and> \<not> reachedLimit (ps_diag s) \<and> run_state p s = (x, s') \<and> steps s s' \<and> errorsOf s' = errorsOf s"

lemma silent_then:
  assumes "silent (do { x \<leftarrow> p; q x }) s y s'"
    and "\<And>x s1. run_state p s = (x, s1) \<Longrightarrow> steps s s1"
    and "\<And>x s1 s'. run_state p s = (x, s1) \<Longrightarrow> steps s s1 \<Longrightarrow> run_state (q x) s1 = (y, s') \<Longrightarrow> steps s1 s'"
  obtains x s1 where "silent p s x s1" and "silent (q x) s1 y s'"
proof -
  obtain x s1 where 1: "run_state p s = (x, s1)" by fastforce
  with assms(1) have 2: "run_state (q x) s1 = (y, s')" by (simp add: silent_def)
  from assms(2) [OF 1] assms(3) [OF 1 _ 2] have "steps s s1" "steps s1 s'" by auto
  with 1 2 assms(1) show ?thesis
    by (intro that [of x s1]) (auto simp: silent_def steps_def reachedLimit_def)
qed

text \<open>Runs of parsers known to run.\<close>

lemma runs_steps: "runs UNIV n p \<Longrightarrow> ready s \<Longrightarrow> budget s \<le> n \<Longrightarrow> run_state p s = (x, s') \<Longrightarrow> steps s s'"
  using soundD [of UNIV n "\<lambda>_ _. True" p s x s'] by simp

lemma silent_bind:
  assumes "silent (do { x \<leftarrow> p; q x }) s y s'" and "runs UNIV n p" and "\<And>x. runs UNIV n (q x)" and "budget s \<le> n"
  obtains x s1 where "silent p s x s1" and "silent (q x) s1 y s'" and "budget s1 \<le> budget s"
proof -
  from assms(1) have r: "ready s" by (simp add: silent_def)
  obtain x s1 where "silent p s x s1" "silent (q x) s1 y s'"
  proof (rule silent_then [OF assms(1)])
    show "steps s s1" if "run_state p s = (x, s1)" for x s1
      using runs_steps [OF assms(2) r assms(4) that] .
    show "steps s1 s''" if "run_state (q x) s1 = (y, s'')" and "steps s s1" for x s1 s''
      using runs_steps [OF assms(3) steps_ready [OF that(2)] _ that(1)] steps_budget [OF that(2)] assms(4) by simp
  qed
  then show ?thesis by (intro that) (auto simp: silent_def dest: steps_budget)
qed

lemma silent_advance:
  assumes "silent (do { t \<leftarrow> advance_token; q t }) s y s'" and "\<And>t. runs UNIV n (q t)"
    and "budget (advanced s) \<le> n"
  shows "silent (q (ps_current s)) (advanced s) y s'"
proof -
  from assms(1) have r: "ready s" and e: "run_state (q (ps_current s)) (advanced s) = (y, s')"
    by (auto simp: silent_def run_advance)
  note v = advanced_ready [OF r]
  from runs_steps [OF assms(2) v(2) assms(3) e] v(1) assms(1) e show ?thesis
    by (auto simp: silent_def steps_def reachedLimit_def)
qed

lemma silent_return: "silent (return x) s y s' \<longleftrightarrow> ready s \<and> \<not> reachedLimit (ps_diag s) \<and> y = x \<and> s' = s"
  by (auto simp: silent_def steps_refl)

lemma silent_peek: "silent (do { t \<leftarrow> peek_token; q t }) s y s' \<longleftrightarrow> silent (q (ps_current s)) s y s'"
  by (simp add: silent_def peek_token_def)

lemma silent_check: "silent (do { b \<leftarrow> check k; q b }) s y s' \<longleftrightarrow> silent (q (curKind s = k)) s y s'"
  by (simp add: silent_def check_def)

lemma silent_expect: "silent (expect k msg) s t s' \<Longrightarrow> curKind s = k \<and> t = ps_current s \<and> s' = advanced s"
  unfolding silent_def by (blast dest: expect_silent)

lemma silent_error: "\<not> silent (do { error loc msg; return x }) s y s'"
  using report_counts(2) [of "ps_diag s" loc msg "[]"] by (auto simp: silent_def error_def ps_diag_def)

text \<open>The tokens a run reads.\<close>

definition reads_tokens :: "ParserState \<Rightarrow> Token list \<Rightarrow> ParserState \<Rightarrow> bool" where
  "reads_tokens s ts s' \<longleftrightarrow> future s = before ts (future s') \<and> ps_recursionDepth s' = ps_recursionDepth s"

lemma reads_none [simp]: "reads_tokens s [] s"
  by (simp add: reads_tokens_def)

lemma reads_one: "reads_tokens s [ps_current s] (advanced s)"
  unfolding reads_tokens_def advanced_frame by (simp only: future_cons [symmetric])

lemma reads_append: "reads_tokens s ts s1 \<Longrightarrow> reads_tokens s1 us s' \<Longrightarrow> reads_tokens s (ts @ us) s'"
  by (simp add: reads_tokens_def)

lemma reads_next: "reads_tokens (advanced s) ts s' \<Longrightarrow> reads_tokens s (ps_current s # ts) s'"
  using reads_append [OF reads_one] by simp

section \<open>Names\<close>

lemma nameTail_names:
  "budget s \<le> n \<Longrightarrow> func_name ts name \<Longrightarrow> silent (nameTail Dot ''.'' name) s name' s' \<Longrightarrow>
   \<exists>us. reads_tokens s us s' \<and> func_name (ts @ us) name'"
proof (induction n arbitrary: s ts name rule: less_induct)
  case (less n)
  from less.prems(3) have r: "ready s" "\<not> reachedLimit (ps_diag s)" "run_state (nameTail Dot ''.'' name) s = (name', s')" "errorsOf s' = errorsOf s"
    by (auto simp: silent_def)
  obtain s0 where 0: "run_state peekNext_token s = (future s 1, s0)" "future s0 = future s"
    "ps_current s0 = ps_current s" "ps_recursionDepth s0 = ps_recursionDepth s" using run_peekNext by blast
  have r0: "ready s0" "steps s s0" using peekNext_steps [OF r(1)] 0(1) by (auto simp: steps_def)
  show ?case
  proof (cases "curKind s = Dot \<and> tk_kind (future s 1) = Identifier")
    case False
    have "name' = name \<and> (s' = s \<or> s' = s0)"
      using r(3) False 0(1) unfolding nameTail_unfold [OF r(1)]
      by (auto simp: nameRound_def checkNext_def both_def check_def nextIs_def split: if_splits)
    with less.prems(2) 0 show ?thesis
      by (intro exI [of _ "[]"]) (auto simp: reads_tokens_def)
  next
    case True
    let ?s1 = "advanced s0" and ?s2 = "advanced (advanced s0)"
    note v = advanced_ready [OF r0(1)] and w = advanced_ready [OF advanced_ready(2) [OF r0(1)]]
    have c1: "ps_current ?s1 = future s 1"
      using future_advanced [of s0 0] 0(2) by (simp add: future_0)
    have run: "run_state (nameTail Dot ''.'' (name @ ''.'' @ tk_text (ps_current ?s1))) ?s2 = (name', s')"
      using r(3) True 0(1) unfolding nameTail_unfold [OF r(1)]
      by (simp add: nameRound_def checkNext_def both_def check_def nextIs_def run_advance)
    have b: "budget ?s2 < budget s"
      using v(3) 0(3) True steps_budget [OF r0(2)] steps_budget [OF w(1)] by simp
    have st: "steps ?s2 s'"
      by (rule runs_steps [OF nameTail_runs w(2) order_refl run]) simp
    have "silent (nameTail Dot ''.'' (name @ ''.'' @ tk_text (ps_current ?s1))) ?s2 name' s'"
      using st run r r0 v w unfolding silent_def by (auto simp: steps_def reachedLimit_def)
    moreover have "func_name (ts @ [ps_current s, ps_current ?s1]) (name @ ''.'' @ tk_text (ps_current ?s1))"
      using less.prems(2) True c1 by (intro name_more) auto
    ultimately obtain us where us: "reads_tokens ?s2 us s'" "func_name ((ts @ [ps_current s, ps_current ?s1]) @ us) name'"
      using less.IH [OF _ order_refl, of ?s2 "ts @ [ps_current s, ps_current ?s1]"] b less.prems(1) by fastforce
    from reads_next [OF reads_next [OF us(1)]] 0 have "reads_tokens s (ps_current s # ps_current ?s1 # us) s'"
      by (simp add: reads_tokens_def)
    with us(2) show ?thesis by (intro exI [of _ "ps_current s # ps_current ?s1 # us"]) simp
  qed
qed

lemma parseFuncName_names:
  assumes "silent parseFuncName s name s'"
  shows "\<exists>ts. reads_tokens s ts s' \<and> func_name ts name"
proof -
  obtain t s1 where 1: "silent (expect Identifier ''expected function name'') s t s1"
      "silent (nameTail Dot ''.'' (tk_text t)) s1 name s'" "budget s1 \<le> budget s"
    by (rule silent_bind [OF assms [unfolded parseFuncName_def], where n = "budget s"])
      (auto intro: run_facts)
  from silent_expect [OF 1(1)] have c: "curKind s = Identifier" "t = ps_current s" "s1 = advanced s" by auto
  from nameTail_names [OF order_refl name_one 1(2)] c obtain us where
    "reads_tokens s1 us s'" "func_name ([ps_current s] @ us) name" by auto
  with c reads_next show ?thesis by fastforce
qed


section \<open>Expressions\<close>

definition binary_sound :: "nat \<Rightarrow> bool" where
  "binary_sound n \<longleftrightarrow>
     (\<forall>p s e s'. silent (parseBinaryN n p) s e s' \<and> budget s < n \<and> 1 \<le> p \<longrightarrow>
       (\<exists>ts. reads_tokens s ts s' \<and> expr (kMaxRecursionDepth - ps_recursionDepth s) p ts e \<and>
          getOperatorPrecedence (curKind s') < p))"


lemma silent_from:
  assumes "silent p s y s'" and "run_state p s = run_state q (advanced s)" and "runs UNIV (budget (advanced s)) q"
  shows "silent q (advanced s) y s'"
proof -
  from assms(1,2) have r: "ready s" and e: "run_state q (advanced s) = (y, s')" by (auto simp: silent_def)
  note v = advanced_ready [OF r]
  from runs_steps [OF assms(3) v(2) order_refl e] v(1) assms(1) e show ?thesis
    by (auto simp: silent_def steps_def reachedLimit_def)
qed

lemma binary_runs: "m < n \<Longrightarrow> runs K m (parseBinaryN n p)"
  by (rule parseBinaryN_runs)

lemma more_args_runs: "m < n \<Longrightarrow> runs UNIV m (whileMatch Comma (adding (parseBinaryN n 1)) xs)"
  by (rule whileMatch_sound) (auto intro!: adding_sound binary_runs simp del: parseBinaryN.simps)

lemma args_sound:
  "binary_sound n \<Longrightarrow> b < n \<Longrightarrow> budget s \<le> b \<Longrightarrow> args k ts as \<Longrightarrow> k = kMaxRecursionDepth - ps_recursionDepth s \<Longrightarrow>
   silent (whileMatch Comma (adding (parseBinaryN n 1)) as) s as' s' \<Longrightarrow>
   \<exists>us. reads_tokens s us s' \<and> args k (ts @ us) as'"
proof (induction b arbitrary: s ts as rule: less_induct)
  case (less b)
  let ?more = "\<lambda>xs. whileMatch Comma (adding (parseBinaryN n 1)) xs"
  from less.prems(6) have r: "ready s" and run: "run_state (?more as) s = (as', s')" by (auto simp: silent_def)
  have le: "budget s \<le> n" using less.prems by simp
  have u: "run_state (?more as) s =
    (if curKind s = Comma
     then run_state (do { x \<leftarrow> parseBinaryN n 1; ?more (as @ [x]) }) (advanced s)
     else (as, s))"
    by (subst whileMatch_unfold [OF parseBinaryN_below r le]) simp_all
  show ?case
  proof (cases "curKind s = Comma")
    case False
    with u run less.prems(4) show ?thesis by (intro exI [of _ "[]"]) simp
  next
    case True
    note v = advanced_ready [OF r]
    from v(3) True less.prems have b: "budget (advanced s) < b" by simp
    have "silent (do { x \<leftarrow> parseBinaryN n 1; ?more (as @ [x]) }) (advanced s) as' s'"
      by (rule silent_from [OF less.prems(6)])
        (use u True b less.prems in \<open>auto intro!: sound_then more_args_runs binary_runs simp del: parseBinaryN.simps\<close>)
    then obtain e s1 where 1: "silent (parseBinaryN n 1) (advanced s) e s1" "silent (?more (as @ [e])) s1 as' s'"
      "budget s1 \<le> budget (advanced s)"
      by (rule silent_bind [where n = "budget (advanced s)"]) (use b less.prems in \<open>auto intro!: more_args_runs binary_runs simp del: parseBinaryN.simps\<close>)
    from less.prems(1) 1(1) b less.prems(2) obtain us where us: "reads_tokens (advanced s) us s1"
      "expr (kMaxRecursionDepth - ps_recursionDepth s) 1 us e"
      unfolding binary_sound_def by (force simp: advanced_frame)
    have "args k (ts @ ps_current s # us) (as @ [e])"
      using less.prems(4,5) True us(2) by (intro args_more) auto
    moreover have "k = kMaxRecursionDepth - ps_recursionDepth s1"
      using us(1) less.prems(5) by (simp add: reads_tokens_def advanced_frame)
    ultimately obtain us' where "reads_tokens s1 us' s'" "args k ((ts @ ps_current s # us) @ us') as'"
      using less.IH [OF b less.prems(1) _ 1(3) _ _ 1(2)] b less.prems(2) by force
    with reads_append [OF reads_next [OF us(1)]] show ?thesis
      by (intro exI [of _ "ps_current s # us @ us'"]) force
  qed
qed


lemma silent_expect_return:
  assumes "silent (do { expect k msg; return x }) s y s'"
  shows "curKind s = k \<and> y = x \<and> s' = advanced s"
proof -
  obtain t s1 where "silent (expect k msg) s t s1" "silent (return x) s1 y s'"
    by (rule silent_bind [OF assms, where n = "budget s"]) (auto intro: run_facts sound_return)
  then show ?thesis by (auto dest: silent_expect simp: silent_return)
qed

lemma call_args_sound:
  assumes E: "binary_sound n" and S: "silent (parseCallArgs (parseBinaryN n 1)) s as s'"
    and b: "budget s \<le> n" and p: "curKind s = LParen"
  defines "k \<equiv> kMaxRecursionDepth - ps_recursionDepth s"
  shows "\<exists>us u. tk_kind u = RParen \<and> reads_tokens s (ps_current s # us @ [u]) s' \<and>
    (us = [] \<and> as = [] \<or> args k us as)"
proof -
  let ?b = "budget (advanced s)"
  let ?more = "\<lambda>xs. whileMatch Comma (adding (parseBinaryN n 1)) xs"
  let ?args = "do { a \<leftarrow> parseBinaryN n 1; ?more [a] }"
  let ?close = "\<lambda>as. do { expect RParen ''expected ')' after arguments''; return as }"
  from S have r: "ready s" by (simp add: silent_def)
  from advanced_ready(3) [OF r] p b have lt: "?b < n" by simp
  have end_runs: "runs UNIV m (?close as)" for m as
    by ((rule run_special run_facts | simp)+)
  have args_runs: "runs UNIV ?b ?args"
    using lt by (intro sound_then binary_runs more_args_runs) auto
  have "silent (do { closed \<leftarrow> check RParen; as \<leftarrow> if closed then return [] else ?args; ?close as }) (advanced s) as s'"
    by (rule silent_from [OF S])
      (use lt in \<open>auto simp: parseCallArgs_def run_advance intro!: sound_check sound_then sound_if sound_return end_runs
        binary_runs more_args_runs simp del: parseBinaryN.simps\<close>)
  then have "silent (do { as \<leftarrow> if curKind (advanced s) = RParen then return [] else ?args; ?close as }) (advanced s) as s'"
    by (simp only: silent_check)
  then obtain as1 s1 where 1: "silent (if curKind (advanced s) = RParen then return [] else ?args) (advanced s) as1 s1"
    "silent (?close as1) s1 as s'"
    by (rule silent_bind [where n = ?b]) (auto intro!: args_runs sound_return end_runs)
  from silent_expect_return [OF 1(2)] have e: "curKind s1 = RParen" "as1 = as" "s' = advanced s1" by auto
  have "\<exists>us. reads_tokens (advanced s) us s1 \<and> (us = [] \<and> as = [] \<or> args k us as)"
  proof (cases "curKind (advanced s) = RParen")
    case True
    with 1(1) e(2) show ?thesis by (intro exI [of _ "[]"]) (simp add: silent_return)
  next
    case False
    with 1(1) have "silent ?args (advanced s) as1 s1" by simp
    then obtain a s2 where 2: "silent (parseBinaryN n 1) (advanced s) a s2" "silent (?more [a]) s2 as1 s1" "budget s2 \<le> ?b"
      by (rule silent_bind [where n = ?b]) (use lt in \<open>auto intro!: more_args_runs binary_runs simp del: parseBinaryN.simps\<close>)
    from E 2(1) lt obtain us where us: "reads_tokens (advanced s) us s2" "expr k 1 us a"
      unfolding binary_sound_def k_def by (force simp: advanced_frame)
    have "k = kMaxRecursionDepth - ps_recursionDepth s2" using us(1) by (simp add: k_def reads_tokens_def advanced_frame)
    with args_sound [OF E lt 2(3) args_one [OF us(2)] _ 2(2)] obtain us' where
      "reads_tokens s2 us' s1" "args k (us @ us') as1" by auto
    with reads_append [OF us(1)] e(2) show ?thesis by blast
  qed
  then obtain us where us: "reads_tokens (advanced s) us s1" "us = [] \<and> as = [] \<or> args k us as" by blast
  have "reads_tokens s (ps_current s # us @ [ps_current s1]) s'"
    using reads_next [OF reads_append [OF us(1) reads_one]] e(3) by simp
  with us(2) e(1) show ?thesis by blast
qed

lemma silent_advance_return:
  assumes "silent (do { advance_token; return x }) s y s'"
  shows "y = x \<and> reads_tokens s [ps_current s] s'"
proof -
  from silent_advance [OF assms sound_return order_refl] have "y = x \<and> s' = advanced s" by (simp add: silent_return)
  then show ?thesis by (simp add: reads_one)
qed

lemma silent_if: "silent (if b then p else q) s y s' \<longleftrightarrow> (if b then silent p s y s' else silent q s y s')"
  by simp

lemma paren_sound:
  assumes E: "binary_sound n" and b: "budget s \<le> n" and p: "curKind s = LParen"
    and S: "silent (do { advance_token; e \<leftarrow> parseBinaryN n 1; expect RParen msg; return e }) s e s'"
  shows "\<exists>ts. reads_tokens s ts s' \<and> unary (kMaxRecursionDepth - ps_recursionDepth s) ts e"
proof -
  let ?close = "\<lambda>e. do { expect RParen msg; return e }"
  from S have r: "ready s" by (simp add: silent_def)
  from advanced_ready(3) [OF r] p b have lt: "budget (advanced s) < n" by simp
  have end_runs: "runs UNIV m (?close e)" for m e
    by ((rule run_special run_facts | simp)+)
  have "silent (do { e \<leftarrow> parseBinaryN n 1; ?close e }) (advanced s) e s'"
    by (rule silent_advance [OF S _ order_refl]) (use lt in \<open>auto intro!: sound_then binary_runs end_runs simp del: parseBinaryN.simps\<close>)
  then obtain e1 s1 where 1: "silent (parseBinaryN n 1) (advanced s) e1 s1" "silent (?close e1) s1 e s'"
    by (rule silent_bind [where n = "budget (advanced s)"])
      (use lt in \<open>auto intro!: binary_runs end_runs simp del: parseBinaryN.simps\<close>)
  from silent_expect_return [OF 1(2)] have e: "curKind s1 = RParen" "e1 = e" "s' = advanced s1" by auto
  from E 1(1) lt obtain us where us: "reads_tokens (advanced s) us s1"
    "expr (kMaxRecursionDepth - ps_recursionDepth s) 1 us e1"
    unfolding binary_sound_def by (force simp: advanced_frame)
  have "reads_tokens s (ps_current s # us @ [ps_current s1]) s'"
    using reads_next [OF reads_append [OF us(1) reads_one]] e(3) by simp
  moreover have "unary (kMaxRecursionDepth - ps_recursionDepth s) (ps_current s # us @ [ps_current s1]) e"
    using p us(2) e by (auto intro: unary_paren)
  ultimately show ?thesis by blast
qed


lemma primary_sound:
  assumes E: "binary_sound n" and b: "budget s \<le> n" and S: "silent (parsePrimaryExpr (parseBinaryN n 1)) s e s'"
  shows "\<exists>ts. reads_tokens s ts s' \<and> unary (kMaxRecursionDepth - ps_recursionDepth s) ts e"
proof -
  let ?k = "kMaxRecursionDepth - ps_recursionDepth s"
  let ?t = "ps_current s"
  note S' = S [unfolded parsePrimaryExpr_def Let_def silent_peek silent_if]
  consider "curKind s = LParen" | "curKind s = IntegerLiteral" | "curKind s = KW_true" | "curKind s = KW_false"
    | "curKind s = StringLiteral" | "curKind s = Identifier"
    | "curKind s \<notin> {LParen, IntegerLiteral, KW_true, KW_false, StringLiteral, Identifier}"
    by auto
  then show ?thesis
  proof cases
    case 1
    with S' paren_sound [OF E b 1] show ?thesis by (auto simp del: parseBinaryN.simps)
  next
    case 2
    with S' have "silent (do { advance_token; return (LiteralExpr (tk_location ?t) (tk_text ?t) (tk_kind ?t)) }) s e s'"
      by (simp del: parseBinaryN.simps)
    from silent_advance_return [OF this] 2 unary_literal [of ?t ?k] show ?thesis by auto
  next
    case 3
    with S' have "silent (do { advance_token; return (LiteralExpr (tk_location ?t) ''true'' KW_true) }) s e s'"
      by (simp del: parseBinaryN.simps)
    from silent_advance_return [OF this] unary_true [OF 3, of ?k] show ?thesis by auto
  next
    case 4
    with S' have "silent (do { advance_token; return (LiteralExpr (tk_location ?t) ''false'' KW_false) }) s e s'"
      by (simp del: parseBinaryN.simps)
    from silent_advance_return [OF this] unary_false [OF 4, of ?k] show ?thesis by auto
  next
    case 5
    with S' have "silent (do { advance_token; return (LiteralExpr (tk_location ?t) (tk_text ?t) (tk_kind ?t)) }) s e s'"
      by (simp del: parseBinaryN.simps)
    from silent_advance_return [OF this] 5 unary_literal [of ?t ?k] show ?thesis by auto
  next
    case 6
    let ?rest = "\<lambda>name. do { call \<leftarrow> check LParen;
      if call then do { as \<leftarrow> parseCallArgs (parseBinaryN n 1); return (CallExpr (tk_location ?t) name as) }
      else return (IdentifierExpr (tk_location ?t) name) }"
    from 6 S' have "silent (do { name \<leftarrow> parseFuncName; ?rest name }) s e s'"
      by (simp del: parseBinaryN.simps)
    then obtain name s1 where n: "silent parseFuncName s name s1" and r: "silent (?rest name) s1 e s'"
      and b1: "budget s1 \<le> budget s"
    proof (rule silent_bind [where n = "budget s"])
      show "runs UNIV (budget s) (?rest name)" for name
        by (intro sound_check sound_if sound_then [OF parseCallArgs_runs] sound_return)
          (use b in \<open>auto simp: below_def intro!: binary_runs simp del: parseBinaryN.simps\<close>)
    qed (auto intro: run_facts)
    obtain ts where ts: "reads_tokens s ts s1" "func_name ts name" using parseFuncName_names [OF n] by blast
    have h: "hd ts = ?t" using func_name_first(1) [OF ts(2), of s "[]" "future s1"] ts(1) by (simp add: reads_tokens_def)
    show ?thesis
    proof (cases "curKind s1 = LParen")
      case False
      with r have "e = IdentifierExpr (tk_location ?t) name" "s' = s1" by (simp_all add: silent_check silent_return)
      with ts h unary_name show ?thesis by metis
    next
      case True
      with r have "silent (do { as \<leftarrow> parseCallArgs (parseBinaryN n 1); return (CallExpr (tk_location ?t) name as) }) s1 e s'"
        by (simp add: silent_check del: parseBinaryN.simps)
      then obtain as s2 where a: "silent (parseCallArgs (parseBinaryN n 1)) s1 as s2"
        "silent (return (CallExpr (tk_location ?t) name as)) s2 e s'"
      proof (rule silent_then)
        show "steps s1 s2" if "run_state (parseCallArgs (parseBinaryN n 1)) s1 = (x, s2)" for x s2
          using soundD [OF parseCallArgs_runs [OF below_mono [OF parseBinaryN_below]] _ order_refl _ that, where K = "{LParen}"] r True b1 b
          by (auto simp: silent_def)
      qed (auto dest!: steps_ready intro: steps_refl)
      from a(2) have e: "e = CallExpr (tk_location ?t) name as" "s' = s2" by (simp_all add: silent_return)
      obtain us u where u: "tk_kind u = RParen" "reads_tokens s1 (ps_current s1 # us @ [u]) s2"
        "us = [] \<and> as = [] \<or> args ?k us as"
        using call_args_sound [OF E a(1) _ True] b1 b ts(1) by (auto simp: reads_tokens_def)
      have "unary ?k (ts @ ps_current s1 # us @ [u]) e"
        using u(3) unary_call [OF ts(2) True u(1)] unary_call_args [OF ts(2) True _ u(1)] e(1) h by auto
      with reads_append [OF ts(1) u(2)] e(2) show ?thesis by blast
    qed
  next
    case 7
    with S' show ?thesis by (auto simp: silent_error)
  qed
qed


lemma unary_sound:
  assumes E: "binary_sound n"
  shows "budget s < u \<Longrightarrow> budget s \<le> n \<Longrightarrow> silent (parseUnaryN u (parseBinaryN n 1)) s e s' \<Longrightarrow>
   \<exists>ts. reads_tokens s ts s' \<and> unary (kMaxRecursionDepth - ps_recursionDepth s) ts e"
proof (induction u arbitrary: s e s')
  case (Suc u)
  note S = Suc.prems(3) [unfolded parseUnaryN.simps silent_peek silent_if]
  show ?case
  proof (cases "curKind s = Bang \<or> curKind s = Minus")
    case False
    with S have "silent (parsePrimaryExpr (parseBinaryN n 1)) s e s'" by (simp del: parseBinaryN.simps)
    with primary_sound [OF E Suc.prems(2)] show ?thesis by blast
  next
    case True
    let ?q = "do { operand \<leftarrow> parseUnaryN u (parseBinaryN n 1); return (UnaryExpr (tk_location (ps_current s)) (curKind s) operand) }"
    from Suc.prems(3) have r: "ready s" by (simp add: silent_def)
    from advanced_ready(3) [OF r] True Suc.prems have lt: "budget (advanced s) < u" "budget (advanced s) < n" by auto
    have run: "runs UNIV (budget (advanced s)) (parseUnaryN u (parseBinaryN n 1))"
      by (rule parseUnaryN_runs [OF parseBinaryN_below lt(1)]) (use lt in simp)
    from True S have "silent (do { advance_token; ?q }) s e s'"
      by (simp del: parseBinaryN.simps parseUnaryN.simps)
    then have "silent ?q (advanced s) e s'"
      by (rule silent_advance [OF _ _ order_refl]) (intro sound_then [OF run] sound_return, simp)
    then obtain x s1 where 1: "silent (parseUnaryN u (parseBinaryN n 1)) (advanced s) x s1"
      "silent (return (UnaryExpr (tk_location (ps_current s)) (curKind s) x)) s1 e s'"
      by (rule silent_bind [where n = "budget (advanced s)"]) (auto intro!: run sound_return)
    from Suc.IH [OF lt(1) _ 1(1)] lt(2) obtain ts where ts: "reads_tokens (advanced s) ts s1"
      "unary (kMaxRecursionDepth - ps_recursionDepth s) ts x" by (auto simp: advanced_frame)
    from 1(2) have "e = UnaryExpr (tk_location (ps_current s)) (curKind s) x" "s' = s1" by (simp_all add: silent_return)
    with reads_next [OF ts(1)] unary_op [OF True ts(2)] show ?thesis by blast
  qed
qed simp

lemma expr_lower: "expr k p ts e \<Longrightarrow> p' \<le> p \<Longrightarrow> expr k p' ts e"
  by (cases rule: expr.cases) (auto intro: expr_unary expr_binary)

lemma climb_sound:
  assumes E: "binary_sound n" and p: "1 \<le> p"
  shows "budget s \<le> b \<Longrightarrow> b \<le> n \<Longrightarrow> p \<le> q \<Longrightarrow> expr (Suc k) q ts lhs \<Longrightarrow> getOperatorPrecedence (curKind s) \<le> q \<Longrightarrow>
    k = kMaxRecursionDepth - ps_recursionDepth s \<Longrightarrow> silent (loop (climbRound n p) lhs) s e s' \<Longrightarrow>
    \<exists>us. reads_tokens s us s' \<and> expr (Suc k) p (ts @ us) e \<and> getOperatorPrecedence (curKind s') < p"
proof (induction b arbitrary: s q ts lhs rule: less_induct)
  case (less b)
  let ?t = "ps_current s"
  let ?go = "isBinaryOperator (tk_kind ?t) \<and> p \<le> getOperatorPrecedence (tk_kind ?t)"
  let ?next = "\<lambda>rhs. loop (climbRound n p) (BinaryExpr (tk_location ?t) (tk_kind ?t) lhs rhs)"
  let ?rest = "do { rhs \<leftarrow> parseBinaryN n (getOperatorPrecedence (tk_kind ?t) + 1); ?next rhs }"
  from less.prems(7) have r: "ready s" and run: "run_state (loop (climbRound n p) lhs) s = (e, s')" by (auto simp: silent_def)
  have le: "budget s \<le> n" using less.prems by simp
  have u: "run_state (loop (climbRound n p) lhs) s = (if ?go then run_state ?rest (advanced s) else (lhs, s))"
    by (subst loop_unfold [OF climbRound_sound r le])
      (auto simp: climbRound_def peek_token_def run_advance Let_def simp del: parseBinaryN.simps split: prod.splits)
  show ?case
  proof (cases ?go)
    case False
    with u run have "e = lhs" "s' = s" by auto
    moreover have "getOperatorPrecedence (curKind s) < p"
      using False p by (auto simp: isBinaryOperator_def)
    ultimately show ?thesis using expr_lower [OF less.prems(4,3)] by (intro exI [of _ "[]"]) simp
  next
    case True
    define c where "c = getOperatorPrecedence (tk_kind ?t)"
    note v = advanced_ready [OF r]
    from operator_kinds True v(3) less.prems have b: "budget (advanced s) < b" by fastforce
    have loops: "runs UNIV m (?next x)" if "m \<le> n" for m x
      using that by (intro loop_sound sound_mono [OF climbRound_sound]) auto
    have "silent ?rest (advanced s) e s'"
      by (rule silent_from [OF less.prems(7)])
        (use u True b less.prems(2) in \<open>auto intro!: sound_then loops binary_runs simp del: parseBinaryN.simps\<close>)
    then obtain rhs s1 where 1: "silent (parseBinaryN n (c + 1)) (advanced s) rhs s1" "silent (?next rhs) s1 e s'"
      "budget s1 \<le> budget (advanced s)"
      unfolding c_def
      by (rule silent_bind [where n = "budget (advanced s)"])
        (use b less.prems(2) in \<open>auto intro!: loops binary_runs simp del: parseBinaryN.simps\<close>)
    from E 1(1) b less.prems(2) True p obtain us where us: "reads_tokens (advanced s) us s1"
      "expr k (c + 1) us rhs" "getOperatorPrecedence (curKind s1) < c + 1"
      unfolding binary_sound_def less.prems(6) c_def by (force simp: advanced_frame)
    have "expr (Suc k) c (ts @ ?t # us) (BinaryExpr (tk_location ?t) (tk_kind ?t) lhs rhs)"
      using expr_lower [OF less.prems(4)] less.prems(5) True us(2) c_def by (intro expr_binary) auto
    then have "\<exists>us'. reads_tokens s1 us' s' \<and> expr (Suc k) p ((ts @ ?t # us) @ us') e \<and> getOperatorPrecedence (curKind s') < p"
      using us 1(2,3) b less.prems(2,6) True c_def
      by (intro less.IH [of "budget (advanced s)" s1 c]) (auto simp: reads_tokens_def advanced_frame)
    then obtain us' where us': "reads_tokens s1 us' s'" "expr (Suc k) p (ts @ ?t # us @ us') e" "getOperatorPrecedence (curKind s') < p" by auto
    with reads_append [OF reads_next [OF us(1)] us'(1)] show ?thesis by (intro exI [of _ "?t # us @ us'"]) simp
  qed
qed

lemma guarded_silent:
  assumes "silent (guarded exprTooDeep body) s e s'" and "\<And>m. m \<le> budget s \<Longrightarrow> runs UNIV m body"
  defines "inside \<equiv> s\<lparr>ps_recursionDepth := ps_recursionDepth s + 1\<rparr>"
  shows "ps_recursionDepth s < kMaxRecursionDepth \<and>
    (\<exists>s1. silent body inside e s1 \<and> s' = s1\<lparr>ps_recursionDepth := ps_recursionDepth s1 - 1\<rparr>)"
proof (cases "ps_recursionDepth s < kMaxRecursionDepth")
  case False
  have "errorsOf s' = errorCount (diag_error (tk_location (ps_current s)) ''maximum recursion depth exceeded'' [] (ps_diag s))"
    using assms(1) False
    by (auto simp: silent_def guarded_def exprTooDeep_def errorHere_def location_def error_def ps_diag_def)
  with report_counts(2) [of "ps_diag s" "tk_location (ps_current s)" "''maximum recursion depth exceeded''" "[]"]
    assms(1) show ?thesis
    by (simp add: silent_def)
next
  case True
  have i: "ready inside" "budget inside = budget s" "ps_diag inside = ps_diag s"
    using assms(1) by (simp_all add: silent_def inside_def ready_def budget_def tokensLeft_def ps_diag_def)
  obtain x s1 where 1: "run_state body inside = (x, s1)" by fastforce
  from runs_steps [OF assms(2) i(1) _ 1] i(2) have st: "steps inside s1" by simp
  have "x = e" "s' = s1\<lparr>ps_recursionDepth := ps_recursionDepth s1 - 1\<rparr>"
    using run_guarded [OF True 1 [unfolded inside_def], of exprTooDeep] assms(1) by (simp_all add: silent_def)
  with 1 st i assms(1) True show ?thesis
    by (auto simp: silent_def ps_diag_def)
qed

lemma climber_sound: "binary_sound n"
proof (induction n)
  case (Suc n)
  show ?case unfolding binary_sound_def
  proof (intro allI impI)
    fix p and s :: ParserState and e s'
    let ?body = "do { lhs \<leftarrow> parseUnaryExpr (parseBinaryN n 1); loop (climbRound n p) lhs }"
    let ?i = "s\<lparr>ps_recursionDepth := ps_recursionDepth s + 1\<rparr>"
    let ?k = "kMaxRecursionDepth - Suc (ps_recursionDepth s)"
    assume a: "silent (parseBinaryN (Suc n) p) s e s' \<and> budget s < Suc n \<and> 1 \<le> p"
    have loops: "runs UNIV m (loop (climbRound n p) x)" if "m \<le> n" for m x
      using that by (intro loop_sound sound_mono [OF climbRound_sound]) auto
    have un: "runs UNIV m (parseUnaryExpr (parseBinaryN n 1))" if "m \<le> n" for m
      using that by (intro parseUnaryExpr_runs below_mono [OF parseBinaryN_below])
    have body: "runs UNIV m ?body" if "m \<le> n" for m
      using that by (intro sound_then un loops) auto
    from a have "silent (guarded exprTooDeep ?body) s e s'" by (simp only: parseBinaryN_Suc)
    from guarded_silent [OF this body] a obtain s1 where d: "ps_recursionDepth s < kMaxRecursionDepth"
      and b: "silent ?body ?i e s1" and s': "s' = s1\<lparr>ps_recursionDepth := ps_recursionDepth s1 - 1\<rparr>" by auto
    have bi: "budget ?i \<le> n" using a by (simp add: budget_def tokensLeft_def ps_diag_def)
    from b obtain x s2 where 1: "silent (parseUnaryExpr (parseBinaryN n 1)) ?i x s2" "silent (loop (climbRound n p) x) s2 e s1"
      "budget s2 \<le> budget ?i"
      by (rule silent_bind [OF _ un loops bi]) (use bi in auto)
    from 1(1) have "silent (parseUnaryN (Suc (budget ?i)) (parseBinaryN n 1)) ?i x s2"
      by (simp add: silent_def parseUnaryExpr_def del: parseUnaryN.simps)
    from unary_sound [OF Suc.IH _ bi this] obtain ts where ts: "reads_tokens ?i ts s2" "unary ?k ts x" by auto
    have "\<exists>us. reads_tokens s2 us s1 \<and> expr (Suc ?k) p (ts @ us) e \<and> getOperatorPrecedence (curKind s1) < p"
      by (rule climb_sound [where q = "max p (getOperatorPrecedence (curKind s2))", OF Suc.IH _ _ bi _ expr_unary [OF ts(2)] _ _ 1(2)])
        (use a 1(3) ts(1) in \<open>auto simp: reads_tokens_def simp del: parseBinaryN.simps\<close>)
    then obtain us where us: "reads_tokens s2 us s1" "expr (Suc ?k) p (ts @ us) e" "getOperatorPrecedence (curKind s1) < p" by auto
    have "reads_tokens s (ts @ us) s'"
      using reads_append [OF ts(1) us(1)] s' by (simp add: reads_tokens_def)
    moreover have "Suc ?k = kMaxRecursionDepth - ps_recursionDepth s" using d by simp
    ultimately show "\<exists>ts. reads_tokens s ts s' \<and> expr (kMaxRecursionDepth - ps_recursionDepth s) p ts e \<and>
        getOperatorPrecedence (curKind s') < p"
      using us s' by auto
  qed
qed (simp add: binary_sound_def)

section \<open>The theorem\<close>

lemma run_parseExpression: "run_state parseExpression s = run_state (parseBinaryN (Suc (budget s)) 1) s"
  by (simp add: parseExpression_def parseBinaryExpr_def del: parseBinaryN.simps)

text \<open>C6: the expression parser computes the grammar of expressions.  A run that reports nothing
  has read exactly the tokens of an expression and returns its tree: operators of higher precedence
  bind tighter, those of one level associate to the left, prefix operators bind tightest, and
  no more expressions are nested into each other than the recursion limit leaves.  Conversely the
  tokens of every such expression, in front of a token that cannot continue it, are read and
  nothing else, and its tree is the result.\<close>

theorem expression_grammar:
  assumes "ready s"
  defines "k \<equiv> kMaxRecursionDepth - ps_recursionDepth s"
  shows "(\<forall>e s'. run_state parseExpression s = (e, s') \<and> \<not> reachedLimit (ps_diag s) \<and> errorsOf s' = errorsOf s \<longrightarrow>
      (\<exists>ts. future s = before ts (future s') \<and> expr k 1 ts e)) \<and>
    (\<forall>ts e f. future s = before ts f \<and> expr k 1 ts e \<and> ends 1 (f 0) \<longrightarrow>
      fst (run_state parseExpression s) = e \<and> future (snd (run_state parseExpression s)) = f)"
proof (intro conjI allI impI, goal_cases)
  case (1 e s')
  then have "silent (parseBinaryN (Suc (budget s)) 1) s e s'"
    using assms(1) runs_steps [OF parseExpression_runs assms(1) order_refl]
    by (auto simp: silent_def run_parseExpression simp del: parseBinaryN.simps)
  with climber_sound [unfolded binary_sound_def, rule_format, of "Suc (budget s)" 1 s e s'] show ?case
    unfolding k_def by (auto simp: reads_tokens_def simp del: parseBinaryN.simps)
next
  case (2 ts e f)
  with grammar_starts(1) have "expr_reads k 1 ts e" "0 < k" by (auto intro: climbs_reads climber_complete(1))
  with 2 assms have "reads_as (parseBinaryN (Suc (budget s)) 1) s f e"
    unfolding expr_reads_def by (auto simp del: parseBinaryN.simps)
  then show "fst (run_state parseExpression s) = e"
    by (auto simp: reads_as_def run_parseExpression simp del: parseBinaryN.simps)
next
  case (3 ts e f)
  with grammar_starts(1) have "expr_reads k 1 ts e" "0 < k" by (auto intro: climbs_reads climber_complete(1))
  with 3 assms have "reads_as (parseBinaryN (Suc (budget s)) 1) s f e"
    unfolding expr_reads_def by (auto simp del: parseBinaryN.simps)
  then show ?case
    by (auto simp: reads_as_def run_parseExpression simp del: parseBinaryN.simps)
qed


text \<open>\<open>a + b * c ;\<close> is a sum whose right operand is the product, and the semicolon is left.\<close>

abbreviation summed :: "Token list" where
  "summed \<equiv> map (\<lambda>(k, w). \<lparr>tk_kind = k, tk_text = w, tk_location = default_loc\<rparr>)
    [(Identifier, ''a''), (Plus, ''+''), (Identifier, ''b''), (Star, ''*''), (Identifier, ''c'')]"

theorem expression_grammar_witness:
  "let s = snd (run_state (replay summed) (parser_init (mkLexer '';'' ''f.topo'' empty_engine)));
       name = \<lambda>n. IdentifierExpr default_loc n
   in fst (run_state parseExpression s) =
     BinaryExpr default_loc Plus (name ''a'') (BinaryExpr default_loc Star (name ''b'') (name ''c''))"
proof -
  let ?init = "parser_init (mkLexer '';'' ''f.topo'' empty_engine)"
  let ?s = "snd (run_state (replay summed) ?init)"
  let ?t = "\<lambda>k w. \<lparr>tk_kind = k, tk_text = w, tk_location = default_loc\<rparr>"
  have i: "ready ?init"
    by (intro parser_init_ready) (simp add: lexer_ready_def lex_wf_mkLexer)
  have l: "ps_lookahead ?init = None" "curKind ?init = Semicolon" "ps_recursionDepth ?init = 0"
    by code_simp+
  have n: "unary k [?t Identifier w] (IdentifierExpr default_loc w)" for k w
    using unary_name [OF name_one [of "?t Identifier w"]] by simp
  have prod: "expr (Suc 254) 6 ([?t Identifier ''b''] @ ?t Star ''*'' # [?t Identifier ''c''])
     (BinaryExpr (tk_location (?t Star ''*'')) (tk_kind (?t Star ''*'')) (IdentifierExpr default_loc ''b'') (IdentifierExpr default_loc ''c''))"
    by (rule expr_binary [where q = 6, OF expr_unary [OF n]]) (use expr_unary [OF n, of 253] in \<open>simp_all add: isBinaryOperator_def getOperatorPrecedence_def\<close>)
  have "expr (Suc 255) 1 ([?t Identifier ''a''] @ ?t Plus ''+'' # ([?t Identifier ''b''] @ ?t Star ''*'' # [?t Identifier ''c'']))
     (BinaryExpr (tk_location (?t Plus ''+'')) (tk_kind (?t Plus ''+'')) (IdentifierExpr default_loc ''a'')
       (BinaryExpr (tk_location (?t Star ''*'')) (tk_kind (?t Star ''*'')) (IdentifierExpr default_loc ''b'') (IdentifierExpr default_loc ''c'')))"
    by (rule expr_binary [where q = 5, OF expr_unary [OF n]]) (use prod in \<open>simp_all add: isBinaryOperator_def getOperatorPrecedence_def\<close>)
  then have "expr 256 1 summed (BinaryExpr default_loc Plus (IdentifierExpr default_loc ''a'')
      (BinaryExpr default_loc Star (IdentifierExpr default_loc ''b'') (IdentifierExpr default_loc ''c'')))"
    by simp
  moreover have "future ?s = before summed (future ?init)" by (rule replay_future [OF _ l(1)]) simp
  moreover have "ends 1 (future ?init 0)" using l(2) by (simp add: future_0 ends_def getOperatorPrecedence_def)
  moreover have "ready ?s" "ps_recursionDepth ?s = 0"
    using i l(3) by (simp_all add: run_replay ready_def)
  ultimately show ?thesis
    using expression_grammar [of ?s] by (simp add: Let_def kMaxRecursionDepth_def)
qed

end
