(* ===== verification/Imports.thy ===== *)
theory Imports
  imports ExprSound
begin

text \<open>
  Resolving imports (\<open>lib/Sema/ImportResolver.cpp\<close>): a depth-first search over \<open>.topo\<close> files
  that parses each of them once, detects cycles, and lists the modules dependencies first.

  Paths are those of a POSIX system, where \<open>generic_string\<close> is the identity.  The files that
  can be opened are an association list from absolute paths to contents; the working
  directory is a parameter.
\<close>

section \<open>Paths\<close>

abbreviation SLASH :: char where "SLASH \<equiv> CHR ''/''"

definition joinPath :: "string \<Rightarrow> string \<Rightarrow> string" where
  "joinPath dir p =
     (if is_prefix [SLASH] p then p
      else if dir = [] \<or> last dir = SLASH then dir @ p else dir @ [SLASH] @ p)"

definition getAbsolutePath :: "string \<Rightarrow> string \<Rightarrow> string" where
  "getAbsolutePath cwd path = joinPath cwd path"

definition getDirectory :: "string \<Rightarrow> string" where
  "getDirectory absPath =
     (let upTo = rev (dropWhile (\<lambda>c. c \<noteq> SLASH) (rev absPath));
          dir = rev (dropWhile (\<lambda>c. c = SLASH) (rev upTo))
      in if upTo = [] then [] else if dir = [] then [SLASH] else dir)"

definition resolveImportPath :: "string \<Rightarrow> string \<Rightarrow> string" where
  "resolveImportPath importerAbsPath importFilename = getDirectory importerAbsPath @ ''/'' @ importFilename"

section \<open>Modules\<close>

record ImportDirective =
  im_resolvedPath :: string
  im_selectedSymbols :: "string list"
  im_location :: SourceLocation

record ResolvedModule =
  rm_path :: string
  rm_ast :: ASTNode
  rm_imports :: "ImportDirective list"

datatype Visit = InProgress | Done

text \<open>\<open>is_stuck\<close> marks fuel that ran out.\<close>

record ImportResolver =
  is_diag :: DiagnosticEngine
  is_state :: "Visit umap"
  is_modules :: "ResolvedModule umap"
  is_order :: "string list"
  is_stuck :: bool

type_synonym files = "string umap"

definition pathLocation :: "string \<Rightarrow> SourceLocation" where
  "pathLocation absPath = default_loc\<lparr>loc_file := absPath\<rparr>"

text \<open>A file that cannot be opened or does not parse is an error with its message.\<close>

definition parsePath :: "files \<Rightarrow> string \<Rightarrow> string + ASTNode" where
  "parsePath files absPath =
     (case map_of files absPath of
        None \<Rightarrow> Inl (''cannot open file '' @ quoted absPath)
      | Some src \<Rightarrow>
          (case parseFile (mkLexer src absPath empty_engine) of (ast, s) \<Rightarrow>
             if hasErrors (ps_diag s) then Inl (''parse errors in '' @ quoted absPath) else Inr ast))"

fun declarationsOf :: "ASTNode \<Rightarrow> ASTNode list" where
  "declarationsOf (TopoFile b decls) = decls"
| "declarationsOf _ = []"

fun directiveOf :: "string \<Rightarrow> ASTNode \<Rightarrow> ImportDirective option" where
  "directiveOf absPath (ImportNode b path selected) =
     Some \<lparr>im_resolvedPath = resolveImportPath absPath (path @ ''.topo''),
           im_selectedSymbols = selected, im_location = nd_location b\<rparr>"
| "directiveOf absPath _ = None"

definition directivesOf :: "string \<Rightarrow> ASTNode \<Rightarrow> ImportDirective list" where
  "directivesOf absPath ast = List.map_filter (directiveOf absPath) (declarationsOf ast)"

section \<open>The search\<close>

definition setVisit :: "string \<Rightarrow> Visit \<Rightarrow> ImportResolver \<Rightarrow> ImportResolver" where
  "setVisit p v r = r\<lparr>is_state := AList.update p v (is_state r)\<rparr>"

definition reportImport :: "SourceLocation \<Rightarrow> string \<Rightarrow> ImportResolver \<Rightarrow> ImportResolver" where
  "reportImport loc msg r = r\<lparr>is_diag := diag_error loc msg [] (is_diag r)\<rparr>"

text \<open>The loop over the directives: whether it ran to the end, and the resolver.\<close>

fun visitImports ::
  "(string \<Rightarrow> ImportResolver \<Rightarrow> ImportResolver) \<Rightarrow> string \<Rightarrow> ImportDirective list \<Rightarrow> ImportResolver \<Rightarrow>
   bool \<times> ImportResolver" where
  "visitImports go absPath [] r = (True, r)"
| "visitImports go absPath (d # ds) r =
     (case map_of (is_state r) (im_resolvedPath d) of
        None \<Rightarrow>
          let r' = go (im_resolvedPath d) r in
          if hasErrors (is_diag r') then (False, r') else visitImports go absPath ds r'
      | Some v \<Rightarrow>
          if v = InProgress then
            (False, reportImport (im_location d)
               (''circular import detected: '' @ quoted absPath @ '' and '' @ quoted (im_resolvedPath d) @
                '' form a cycle'') r)
          else visitImports go absPath ds r)"

definition storeModule :: "string \<Rightarrow> ASTNode \<Rightarrow> ImportDirective list \<Rightarrow> ImportResolver \<Rightarrow> ImportResolver" where
  "storeModule absPath ast directives r =
     setVisit absPath Done
       (r\<lparr>is_modules := AList.update absPath \<lparr>rm_path = absPath, rm_ast = ast, rm_imports = directives\<rparr> (is_modules r),
          is_order := is_order r @ [absPath]\<rparr>)"

fun discover :: "nat \<Rightarrow> files \<Rightarrow> string \<Rightarrow> ImportResolver \<Rightarrow> ImportResolver" where
  "discover 0 files absPath r = r\<lparr>is_stuck := True\<rparr>"
| "discover (Suc n) files absPath r =
     (let r1 = setVisit absPath InProgress r in
      case parsePath files absPath of
        Inl msg \<Rightarrow> setVisit absPath Done (reportImport (pathLocation absPath) msg r1)
      | Inr ast \<Rightarrow>
          let directives = directivesOf absPath ast in
          (case visitImports (discover n files) absPath directives r1 of
             (False, r2) \<Rightarrow> r2
           | (True, r2) \<Rightarrow> storeModule absPath ast directives r2))"

fun discoverRoots :: "nat \<Rightarrow> files \<Rightarrow> string \<Rightarrow> string list \<Rightarrow> ImportResolver \<Rightarrow> bool \<times> ImportResolver" where
  "discoverRoots n files cwd [] r = (True, r)"
| "discoverRoots n files cwd (root # roots) r =
     (let absPath = getAbsolutePath cwd root in
      if map_of (is_state r) absPath = None then
        let r' = discover n files absPath r in
        if hasErrors (is_diag r') then (False, r') else discoverRoots n files cwd roots r'
      else discoverRoots n files cwd roots r)"

definition resolver_init :: "DiagnosticEngine \<Rightarrow> ImportResolver" where
  "resolver_init diag = \<lparr>is_diag = diag, is_state = [], is_modules = [], is_order = [], is_stuck = False\<rparr>"

text \<open>The fuel: every file in progress is one of those that can be opened, but the last.\<close>

definition resolveImports :: "files \<Rightarrow> string \<Rightarrow> string list \<Rightarrow> DiagnosticEngine \<Rightarrow> ResolvedModule list \<times> ImportResolver" where
  "resolveImports files cwd rootFiles diag =
     (case discoverRoots (Suc (length files)) files cwd rootFiles (resolver_init diag) of
        (False, r) \<Rightarrow> ([], r)
      | (True, r) \<Rightarrow> (List.map_filter (map_of (is_modules r)) (is_order r), r))"

end
