(* ===== verification/Import_Laws.thy ===== *)
theory Import_Laws
  imports Imports
begin

text \<open>
  Import resolution succeeds exactly when every file that can be reached opens and parses and
  no import leads back, and then lists each reached module once, after all that it imports.
\<close>

section \<open>The graph of imports\<close>

definition loads :: "files \<Rightarrow> string \<Rightarrow> bool" where
  "loads files p \<longleftrightarrow> (\<exists>ast. parsePath files p = Inr ast)"

definition moduleAt :: "files \<Rightarrow> string \<Rightarrow> ResolvedModule" where
  "moduleAt files p =
     (case parsePath files p of
        Inr ast \<Rightarrow> \<lparr>rm_path = p, rm_ast = ast, rm_imports = directivesOf p ast\<rparr>
      | Inl _ \<Rightarrow> \<lparr>rm_path = p, rm_ast = TopoFile (node_at default_loc) [], rm_imports = []\<rparr>)"

definition targets :: "files \<Rightarrow> string \<Rightarrow> string set" where
  "targets files p = im_resolvedPath ` set (rm_imports (moduleAt files p))"

definition imports_rel :: "files \<Rightarrow> (string \<times> string) set" where
  "imports_rel files = {(p, q). q \<in> targets files p}"

abbreviation leads :: "files \<Rightarrow> string \<Rightarrow> string \<Rightarrow> bool" where
  "leads files p q \<equiv> (p, q) \<in> (imports_rel files)\<^sup>*"

lemma leads_step: "q \<in> targets files p \<Longrightarrow> leads files q r \<Longrightarrow> leads files p r"
  by (auto simp: imports_rel_def intro: converse_rtrancl_into_rtrancl)

section \<open>The invariant of the search\<close>

definition inProgress :: "ImportResolver \<Rightarrow> string set" where
  "inProgress r = {p. map_of (is_state r) p = Some InProgress}"

definition finished :: "ImportResolver \<Rightarrow> string set" where
  "finished r = {p. map_of (is_state r) p = Some Done}"

definition seen :: "ImportResolver \<Rightarrow> string set" where
  "seen r = {p. map_of (is_state r) p \<noteq> None}"

definition clean :: "ImportResolver \<Rightarrow> bool" where
  "clean r \<longleftrightarrow> errorCount (is_diag r) = 0"

definition ordered :: "files \<Rightarrow> string list \<Rightarrow> bool" where
  "ordered files ps \<longleftrightarrow>
     distinct ps \<and> (\<forall>i < length ps. loads files (ps ! i) \<and> targets files (ps ! i) \<subseteq> set (take i ps))"

definition found :: "files \<Rightarrow> ImportResolver \<Rightarrow> bool" where
  "found files r \<longleftrightarrow>
     finished r = set (is_order r) \<and> ordered files (is_order r) \<and>
     (\<forall>p \<in> set (is_order r). map_of (is_modules r) p = Some (moduleAt files p))"

text \<open>What a search from \<open>p\<close> owes: the fuel suffices; without errors it has finished \<open>p\<close> and
  nothing out of its reach; an error has a reason.\<close>

definition reason :: "files \<Rightarrow> string set \<Rightarrow> string \<Rightarrow> bool" where
  "reason files open_files p \<longleftrightarrow>
     (\<exists>q. leads files p q \<and> (\<not> loads files q \<or> (\<exists>t \<in> targets files q. t \<in> open_files \<or> leads files t q)))"

definition searched :: "files \<Rightarrow> string set \<Rightarrow> ImportResolver \<Rightarrow> ImportResolver \<Rightarrow> bool" where
  "searched files ps r r' \<longleftrightarrow>
     \<not> is_stuck r' \<and> seen r \<subseteq> seen r' \<and>
     (if hasErrors (is_diag r') then \<exists>p \<in> ps. reason files (inProgress r) p
      else clean r' \<and> found files r' \<and> inProgress r' = inProgress r \<and> finished r \<union> ps \<subseteq> finished r' \<and>
        finished r' \<subseteq> finished r \<union> {q. \<exists>p \<in> ps. leads files p q})"

lemma seen_split: "seen r = inProgress r \<union> finished r"
  by (auto simp: seen_def inProgress_def finished_def) (metis Visit.exhaust)

lemma ordered_append:
  "ordered files ps \<Longrightarrow> p \<notin> set ps \<Longrightarrow> loads files p \<Longrightarrow> targets files p \<subseteq> set ps \<Longrightarrow> ordered files (ps @ [p])"
  by (auto simp: ordered_def nth_append less_Suc_eq)

lemma clean_no_errors: "clean r \<Longrightarrow> \<not> hasErrors (is_diag r)"
  by (simp add: clean_def hasErrors_def)

lemma reported_errors: "clean r \<Longrightarrow> hasErrors (is_diag (reportImport loc msg r))"
  by (simp add: clean_def reportImport_def hasErrors_def diag_error_def report_def kMaxErrors_def Let_def)

lemma setVisit_sets:
  "inProgress (setVisit p v r) = (if v = InProgress then insert p (inProgress r) else inProgress r - {p})"
  "finished (setVisit p v r) = (if v = Done then insert p (finished r) else finished r - {p})"
  "seen (setVisit p v r) = insert p (seen r)"
  "is_diag (setVisit p v r) = is_diag r" "is_order (setVisit p v r) = is_order r"
  "is_modules (setVisit p v r) = is_modules r" "is_stuck (setVisit p v r) = is_stuck r"
  by (cases v; auto simp: inProgress_def finished_def seen_def setVisit_def update_conv')+

lemma searched_trans:
  assumes "searched files ps r r1" and "\<not> hasErrors (is_diag r1)" and "searched files qs r1 r2"
  shows "searched files (ps \<union> qs) r r2"
  using assms unfolding searched_def by (cases "hasErrors (is_diag r2)"; simp; blast)

text \<open>The loop over the directives, given the search.\<close>

lemma visitImports_searched:
  assumes "\<And>q r. clean r \<Longrightarrow> found files r \<Longrightarrow> \<not> is_stuck r \<Longrightarrow> q \<notin> seen r \<Longrightarrow> base \<subseteq> seen r \<Longrightarrow>
      searched files {q} r (go q r)"
  shows "clean r \<Longrightarrow> found files r \<Longrightarrow> \<not> is_stuck r \<Longrightarrow> base \<subseteq> seen r \<Longrightarrow> visitImports go p ds r = (b, r') \<Longrightarrow>
    \<not> is_stuck r' \<and> seen r \<subseteq> seen r' \<and>
    (if b then searched files (im_resolvedPath ` set ds) r r' \<and> \<not> hasErrors (is_diag r')
     else hasErrors (is_diag r') \<and>
       (\<exists>q \<in> im_resolvedPath ` set ds. q \<in> inProgress r \<or> reason files (inProgress r) q))"
proof (induction ds arbitrary: r)
  case Nil
  then show ?case by (auto simp: searched_def clean_no_errors)
next
  case (Cons d ds)
  let ?q = "im_resolvedPath d"
  consider (fresh) "map_of (is_state r) ?q = None" | (cyc) "map_of (is_state r) ?q = Some InProgress"
    | (old) "map_of (is_state r) ?q = Some Done"
    by (metis Visit.exhaust option.exhaust)
  then show ?case
  proof cases
    case fresh
    then have "?q \<notin> seen r" by (simp add: seen_def)
    from assms [OF Cons.prems(1-3) this Cons.prems(4)] have s: "searched files {?q} r (go ?q r)" .
    show ?thesis
    proof (cases "hasErrors (is_diag (go ?q r))")
      case True
      with s fresh Cons.prems show ?thesis by (auto simp: searched_def)
    next
      case False
      have n: "clean (go ?q r)" "found files (go ?q r)" "\<not> is_stuck (go ?q r)" "base \<subseteq> seen (go ?q r)"
        "inProgress (go ?q r) = inProgress r" "seen r \<subseteq> seen (go ?q r)"
        using s False Cons.prems(4) by (auto simp: searched_def)
      have run: "visitImports go p ds (go ?q r) = (b, r')" using Cons.prems(5) fresh False by simp
      from Cons.IH [OF n(1-4) run] n(5,6) searched_trans [OF s False, of "im_resolvedPath ` set ds" r']
      show ?thesis by (auto split: if_splits)
    qed
  next
    case cyc
    with Cons.prems reported_errors show ?thesis
      by (auto simp: inProgress_def reportImport_def seen_def)
  next
    case old
    then have run: "visitImports go p ds r = (b, r')" using Cons.prems(5) by simp
    have "?q \<in> finished r" using old by (simp add: finished_def)
    with Cons.IH [OF Cons.prems(1-4) run] show ?thesis by (auto simp: searched_def split: if_splits)
  qed
qed


lemma reason_lifts:
  assumes "q \<in> targets files p" and "q \<in> insert p above_p \<or> reason files (insert p above_p) q" and "p \<notin> above_p"
  shows "reason files above_p p"
proof (cases "q \<in> insert p above_p")
  case True
  with assms(1) show ?thesis unfolding reason_def by (intro exI [of _ p]) auto
next
  case False
  with assms(2) obtain q' where "leads files q q'"
    "\<not> loads files q' \<or> (\<exists>t \<in> targets files q'. t \<in> insert p above_p \<or> leads files t q')"
    by (auto simp: reason_def)
  with leads_step [OF assms(1)] show ?thesis unfolding reason_def by (intro exI [of _ q']) auto
qed

lemma progress_disjoint: "p \<in> inProgress r \<Longrightarrow> p \<notin> finished r"
  by (simp add: inProgress_def finished_def)

lemma discover_searched:
  "clean r \<Longrightarrow> found files r \<Longrightarrow> \<not> is_stuck r \<Longrightarrow> p \<notin> seen r \<Longrightarrow> card (fst ` set files - seen r) < n \<Longrightarrow>
   searched files {p} r (discover n files p r)"
proof (induction n arbitrary: p r)
  case (Suc n)
  let ?r1 = "setVisit p InProgress r"
  have p: "p \<notin> inProgress r" "p \<notin> finished r" using Suc.prems(4) by (auto simp: seen_split)
  show ?case
  proof (cases "parsePath files p")
    case (Inl msg)
    let ?r' = "setVisit p Done (reportImport (pathLocation p) msg ?r1)"
    have "hasErrors (is_diag ?r')" "\<not> is_stuck ?r'" "seen r \<subseteq> seen ?r'"
      using Suc.prems(1,3) reported_errors [of ?r1] by (auto simp: setVisit_sets clean_def reportImport_def seen_def)
        (auto simp: setVisit_def update_conv')
    moreover have "reason files (inProgress r) p"
      using Inl unfolding reason_def loads_def by (intro exI [of _ p]) simp
    ultimately show ?thesis using Inl by (simp add: searched_def)
  next
    case (Inr ast)
    then have l: "loads files p" and ma: "moduleAt files p = \<lparr>rm_path = p, rm_ast = ast, rm_imports = directivesOf p ast\<rparr>"
      by (simp_all add: loads_def moduleAt_def)
    have t: "targets files p = im_resolvedPath ` set (directivesOf p ast)" by (simp add: targets_def ma)
    have "map_of files p \<noteq> None" using Inr by (cases "map_of files p") (simp_all add: parsePath_def)
    then have "p \<in> fst ` set files" by (metis map_of_eq_None_iff)
    then have "card (fst ` set files - insert p (seen r)) < card (fst ` set files - seen r)"
      using Suc.prems(4) by (intro psubset_card_mono) auto
    then have fuel: "card (fst ` set files - insert p (seen r)) < n" using Suc.prems(5) by simp
    have go: "searched files {q} r' (discover n files q r')"
      if "clean r'" "found files r'" "\<not> is_stuck r'" "q \<notin> seen r'" "insert p (seen r) \<subseteq> seen r'" for q r'
    proof (rule Suc.IH [OF that(1-4)])
      have "card (fst ` set files - seen r') \<le> card (fst ` set files - insert p (seen r))"
        using that(5) by (intro card_mono) auto
      with fuel show "card (fst ` set files - seen r') < n" by simp
    qed
    have f1: "clean ?r1" "found files ?r1" "\<not> is_stuck ?r1" "insert p (seen r) \<subseteq> seen ?r1"
      using Suc.prems(1-3) p by (auto simp: clean_def found_def setVisit_sets)
    obtain b r2 where run: "visitImports (discover n files) p (directivesOf p ast) ?r1 = (b, r2)" by fastforce
    note v = visitImports_searched [where base = "insert p (seen r)", OF go f1 run, folded t]
    show ?thesis
    proof (cases b)
      case False
      with v obtain q where "q \<in> targets files p" "q \<in> insert p (inProgress r) \<or> reason files (insert p (inProgress r)) q"
        by (auto simp: setVisit_sets)
      from reason_lifts [OF this p(1)] v False run Inr show ?thesis by (auto simp: searched_def setVisit_sets)
    next
      case True
      with v have s: "searched files (targets files p) ?r1 r2" "\<not> hasErrors (is_diag r2)" by auto
      then have 2: "clean r2" "found files r2" "inProgress r2 = insert p (inProgress r)"
        "finished r \<union> targets files p \<subseteq> finished r2" "insert p (seen r) \<subseteq> seen r2" "\<not> is_stuck r2"
        "finished r2 \<subseteq> finished r \<union> {q. \<exists>t \<in> targets files p. leads files t q}"
        using p by (auto simp: searched_def setVisit_sets)
      let ?r3 = "storeModule p ast (directivesOf p ast) r2"
      have r3: "inProgress ?r3 = inProgress r2 - {p}" "finished ?r3 = insert p (finished r2)" "seen ?r3 = insert p (seen r2)"
        "is_order ?r3 = is_order r2 @ [p]" "clean ?r3" "is_stuck ?r3 = is_stuck r2"
        "is_modules ?r3 = AList.update p (moduleAt files p) (is_modules r2)"
        using 2(1) by (auto simp: storeModule_def clean_def setVisit_sets ma)
          (auto simp: storeModule_def setVisit_def inProgress_def finished_def seen_def update_conv')
      have "p \<notin> set (is_order r2)" using progress_disjoint [of p r2] 2(2,3) by (auto simp: found_def)
      then have "found files ?r3"
        using 2(2,4) l ordered_append [of files "is_order r2" p] by (auto simp: found_def r3 update_conv')
      with 2 r3 p clean_no_errors [OF r3(5)] have "searched files {p} r ?r3"
        unfolding searched_def by (auto dest: leads_step)
      with True run Inr show ?thesis by simp
    qed
  qed
qed simp


section \<open>The result\<close>

lemma roots_searched:
  "length files < n \<Longrightarrow> clean r \<Longrightarrow> found files r \<Longrightarrow> \<not> is_stuck r \<Longrightarrow> inProgress r = {} \<Longrightarrow>
   discoverRoots n files cwd roots r = (b, r') \<Longrightarrow>
   searched files (getAbsolutePath cwd ` set roots) r r' \<and> (b \<longleftrightarrow> \<not> hasErrors (is_diag r'))"
proof (induction roots arbitrary: r)
  case Nil
  then show ?case by (auto simp: searched_def clean_no_errors)
next
  case (Cons root roots)
  let ?p = "getAbsolutePath cwd root"
  show ?case
  proof (cases "map_of (is_state r) ?p")
    case None
    have "card (fst ` set files - seen r) \<le> length files"
      by (rule order_trans [OF card_mono card_image_le [THEN order_trans, OF _ card_length]]) auto
    with None Cons.prems have s: "searched files {?p} r (discover n files ?p r)"
      by (intro discover_searched) (auto simp: seen_def)
    show ?thesis
    proof (cases "hasErrors (is_diag (discover n files ?p r))")
      case True
      with s None Cons.prems show ?thesis by (auto simp: searched_def)
    next
      case False
      with s Cons.prems(5) have "clean (discover n files ?p r)" "found files (discover n files ?p r)"
        "\<not> is_stuck (discover n files ?p r)" "inProgress (discover n files ?p r) = {}"
        by (auto simp: searched_def)
      with Cons.IH [OF Cons.prems(1) this] None False Cons.prems(6)
        searched_trans [OF s False, of "getAbsolutePath cwd ` set roots" r'] show ?thesis by simp
    qed
  next
    case (Some v)
    with Cons.prems(5) have v: "?p \<in> finished r" by (cases v) (auto simp: inProgress_def finished_def)
    from Cons.IH [OF Cons.prems(1-5)] Some Cons.prems(6)
    have "searched files (getAbsolutePath cwd ` set roots) r r' \<and> (b \<longleftrightarrow> \<not> hasErrors (is_diag r'))" by simp
    with v show ?thesis by (auto simp: searched_def split: if_splits)
  qed
qed

lemma ordered_reach:
  assumes "ordered files ps"
  shows "(ps ! i, q) \<in> (imports_rel files)\<^sup>+ \<Longrightarrow> i < length ps \<Longrightarrow> \<exists>j < i. q = ps ! j"
proof (induction "ps ! i" q rule: trancl.induct)
  case (r_into_trancl q)
  with assms have "q \<in> set (take i ps)" by (auto simp: ordered_def imports_rel_def)
  with r_into_trancl(2) show ?case by (auto simp: in_set_conv_nth)
next
  case (trancl_into_trancl q t)
  then obtain j where j: "j < i" "q = ps ! j" by auto
  with assms trancl_into_trancl(4) have "targets files (ps ! j) \<subseteq> set (take j ps)" by (simp add: ordered_def)
  with j(2) trancl_into_trancl(3) have "t \<in> set (take j ps)" by (auto simp: imports_rel_def)
  with j trancl_into_trancl(4) show ?case by (auto simp: in_set_conv_nth intro: less_trans)
qed

lemma imports_acyclic:
  assumes "ordered files ps" and "p \<in> set ps"
  shows "(p, p) \<notin> (imports_rel files)\<^sup>+"
proof
  from assms(2) obtain i where i: "i < length ps" "p = ps ! i" by (auto simp: in_set_conv_nth)
  assume "(p, p) \<in> (imports_rel files)\<^sup>+"
  with ordered_reach [OF assms(1), of i p] i obtain j where "j < i" "ps ! i = ps ! j" by auto
  with assms(1) i show False by (auto simp: ordered_def nth_eq_iff_index_eq)
qed

lemma ordered_closed:
  assumes "ordered files ps" and "p \<in> set ps" and "leads files p q"
  shows "q \<in> set ps"
  using assms(3,2)
proof (induction rule: rtrancl_induct)
  case (step q t)
  then obtain i where "i < length ps" "q = ps ! i" by (auto simp: in_set_conv_nth)
  with step(2) assms(1) show ?case by (auto simp: ordered_def imports_rel_def dest: in_set_takeD)
qed

text \<open>C12: import resolution always ends.  It reports an error exactly when a file that the roots
  reach cannot be opened or parsed, or takes part in a cycle of imports, and then returns
  nothing; otherwise it returns every reached file once, parsed, each after all of the files
  it imports.\<close>

theorem import_resolution:
  fixes files :: files and cwd :: string and rootFiles :: "string list"
  assumes "errorCount diag = 0"
  defines "reach \<equiv> {q. \<exists>root \<in> set rootFiles. leads files (getAbsolutePath cwd root) q}"
  shows "case resolveImports files cwd rootFiles diag of (modules, r) \<Rightarrow>
    \<not> is_stuck r \<and>
    (hasErrors (is_diag r) \<longleftrightarrow> (\<exists>q \<in> reach. \<not> loads files q \<or> (q, q) \<in> (imports_rel files)\<^sup>+)) \<and>
    (if hasErrors (is_diag r) then modules = []
     else
       let paths = map rm_path modules in
       distinct paths \<and> set paths = reach \<and> modules = map (moduleAt files) paths \<and>
       (\<forall>i < length paths. targets files (paths ! i) \<subseteq> set (take i paths)))"
proof -
  let ?r0 = "resolver_init diag"
  obtain b r where run: "discoverRoots (Suc (length files)) files cwd rootFiles ?r0 = (b, r)" by fastforce
  have i: "clean ?r0" "found files ?r0" "\<not> is_stuck ?r0" "inProgress ?r0 = {}" "finished ?r0 = {}"
    using assms(1) by (auto simp: resolver_init_def clean_def found_def ordered_def inProgress_def finished_def)
  from roots_searched [OF lessI i(1-4) run] have s: "searched files (getAbsolutePath cwd ` set rootFiles) ?r0 r"
    and b: "b \<longleftrightarrow> \<not> hasErrors (is_diag r)" by auto
  show ?thesis
  proof (cases b)
    case False
    with s b i(4) obtain q root where q: "root \<in> set rootFiles" "leads files (getAbsolutePath cwd root) q"
      "\<not> loads files q \<or> (\<exists>t \<in> targets files q. leads files t q)"
      by (auto simp: searched_def reason_def)
    then have "\<not> loads files q \<or> (q, q) \<in> (imports_rel files)\<^sup>+"
      by (auto simp: imports_rel_def intro: rtrancl_into_trancl2)
    with q(1,2) have "\<exists>q \<in> reach. \<not> loads files q \<or> (q, q) \<in> (imports_rel files)\<^sup>+"
      unfolding reach_def by blast
    with False b s run show ?thesis by (simp add: resolveImports_def searched_def)
  next
    case True
    let ?ps = "is_order r"
    from True b s have f: "found files r" "getAbsolutePath cwd ` set rootFiles \<subseteq> finished r"
      "finished r \<subseteq> {q. \<exists>p \<in> getAbsolutePath cwd ` set rootFiles. leads files p q}" "\<not> is_stuck r"
      by (auto simp: searched_def i(5))
    then have o: "ordered files ?ps" and fin: "finished r = set ?ps"
      and m: "\<And>p. p \<in> set ?ps \<Longrightarrow> map_of (is_modules r) p = Some (moduleAt files p)" by (auto simp: found_def)
    have reach: "set ?ps = reach"
      using f(2,3) ordered_closed [OF o] unfolding fin reach_def by blast
    have "List.map_filter (map_of (is_modules r)) ps = map (moduleAt files) ps" if "set ps \<subseteq> set ?ps" for ps
      using that m by (induction ps) (auto simp: map_filter_simps)
    then have mods: "List.map_filter (map_of (is_modules r)) ?ps = map (moduleAt files) ?ps" by simp
    have "rm_path (moduleAt files p) = p" for p by (simp add: moduleAt_def split: sum.split)
    then have paths: "map rm_path (map (moduleAt files) ?ps) = ?ps" by (simp add: comp_def)
    have "\<not> (\<exists>q \<in> reach. \<not> loads files q \<or> (q, q) \<in> (imports_rel files)\<^sup>+)"
      using imports_acyclic [OF o] o unfolding reach [symmetric] by (auto simp: ordered_def in_set_conv_nth)
    moreover have "resolveImports files cwd rootFiles diag = (map (moduleAt files) ?ps, r)"
      using True run mods by (simp add: resolveImports_def)
    ultimately show ?thesis
      using True b f(4) o reach paths by (simp add: Let_def ordered_def)
  qed
qed

text \<open>A file that imports another comes after it.\<close>

abbreviation twoFiles :: files where
  "twoFiles \<equiv> [(''/p/a.topo'', ''import b;''), (''/p/b.topo'', [])]"

theorem import_resolution_witness:
  "map rm_path (fst (resolveImports twoFiles ''/p'' [''a.topo''] empty_engine)) = [''/p/b.topo'', ''/p/a.topo'']"
proof -
  let ?a = "''/p/a.topo''" and ?b = "''/p/b.topo''"
  have a: "map im_resolvedPath (rm_imports (moduleAt twoFiles ?a)) = [?b]"
    "map im_resolvedPath (rm_imports (moduleAt twoFiles ?b)) = []" "isl (parsePath twoFiles ?a) = False"
    "isl (parsePath twoFiles ?b) = False" "getAbsolutePath ''/p'' ''a.topo'' = ?a" by code_simp+
  have t: "targets twoFiles ?a = {?b}" "targets twoFiles ?b = {}"
    using arg_cong [OF a(1), of set] arg_cong [OF a(2), of set] unfolding targets_def set_map by simp_all
  have l: "loads twoFiles ?a" "loads twoFiles ?b"
    using a(3,4) by (auto simp: loads_def isl_def) (metis sum.exhaust)+
  have rel: "(p, q) \<in> imports_rel twoFiles \<longleftrightarrow> q \<in> targets twoFiles p" for p q by (simp add: imports_rel_def)
  have bb: "leads twoFiles ?b q \<longleftrightarrow> q = ?b" for q
  proof
    assume "leads twoFiles ?b q"
    then show "q = ?b" by (rule converse_rtranclE) (simp_all add: rel t)
  qed simp
  have ab: "leads twoFiles ?a q \<longleftrightarrow> q = ?a \<or> q = ?b" for q
  proof
    assume "leads twoFiles ?a q"
    then show "q = ?a \<or> q = ?b" by (rule converse_rtranclE) (simp_all add: rel t bb)
  next
    assume "q = ?a \<or> q = ?b"
    then show "leads twoFiles ?a q" using rel [of ?a ?b] t by auto
  qed
  have acyc: "(?a, ?a) \<notin> (imports_rel twoFiles)\<^sup>+" "(?b, ?b) \<notin> (imports_rel twoFiles)\<^sup>+"
    by (auto dest!: tranclD simp: rel t bb)
  obtain ms r where run: "resolveImports twoFiles ''/p'' [''a.topo''] empty_engine = (ms, r)" by fastforce
  let ?ps = "map rm_path ms"
  have reach: "{q. \<exists>root \<in> set [''a.topo'']. leads twoFiles (getAbsolutePath ''/p'' root) q} = {?a, ?b}"
    unfolding list.set bex_simps a(5) ab by blast
  have e: "errorCount empty_engine = 0" by (simp add: empty_engine_def)
  note I = import_resolution [OF e, where rootFiles = "[''a.topo'']" and files = twoFiles and cwd = "''/p''",
    unfolded run prod.case Let_def reach]
  have "\<not> hasErrors (is_diag r)" using I l acyc by blast
  with I have ps: "distinct ?ps" "set ?ps = {?a, ?b}"
    "\<And>i. i < length ?ps \<Longrightarrow> targets twoFiles (?ps ! i) \<subseteq> set (take i ?ps)" by (simp_all only: if_False)
  have "length ?ps = 2" using ps(1,2) distinct_card [of ?ps] by simp
  then obtain x y where xy: "?ps = [x, y]" by (auto simp: numeral_2_eq_2 length_Suc_conv)
  have "targets twoFiles x \<subseteq> {}" using ps(3) [of 0] unfolding xy by (simp only: list.size nth_Cons_0 take_0 list.set)
  with t(1) have "x \<noteq> ?a" by blast
  with ps(1,2) have "?ps = [?b, ?a]" unfolding xy by (simp add: doubleton_eq_iff)
  with run show ?thesis by simp
qed

end
