(* ===== verification/Stubbing.thy ===== *)
theory Stubbing
  imports Analysis
begin

text \<open>
  Replacing function bodies by stubs and putting the sources back
  (\<open>lib/Check/StubRewriter.cpp\<close>), with what the verifiers of \<open>lib/Check\<close> share: the working tree,
  the language's stub generator, the build and test command, and the guard that restores.

  The stub generator is a plug-in behind an abstract class and the command is an external
  process: both are parameters, functions on the working tree that may throw.
\<close>

section \<open>The working tree and the plug-ins\<close>

record World =
  w_files :: "string \<Rightarrow> string option"
  w_canWrite :: "string \<Rightarrow> bool"

type_synonym 'a outcome = "(string + 'a) \<times> World"

record StubResult =
  sb_success :: bool
  sb_originalContent :: string
  sb_error :: string

record StubGenerator =
  sg_stubFunction :: "string \<Rightarrow> string \<Rightarrow> World \<Rightarrow> StubResult outcome"
  sg_restoreFile :: "string \<Rightarrow> StubResult \<Rightarrow> World \<Rightarrow> bool \<times> World"

record CapturedProcessResult =
  pr_exitCode :: int
  pr_stdout :: string
  pr_stderr :: string

type_synonym process = "string \<Rightarrow> string list \<Rightarrow> string \<Rightarrow> World \<Rightarrow> CapturedProcessResult outcome"

text \<open>Truncating and writing a file: whether it opened, and the tree.\<close>

definition writeFile :: "string \<Rightarrow> string \<Rightarrow> World \<Rightarrow> bool \<times> World" where
  "writeFile path content w =
     (if w_canWrite w path then (True, w\<lparr>w_files := (w_files w)(path \<mapsto> content)\<rparr>) else (False, w))"

text \<open>Some line of the file holds the name.\<close>

definition fileContainsFunction :: "World \<Rightarrow> string \<Rightarrow> string \<Rightarrow> bool" where
  "fileContainsFunction w filePath funcName =
     (case w_files w filePath of
        None \<Rightarrow> False
      | Some content \<Rightarrow> list_ex (\<lambda>line. find_str funcName line \<noteq> None) (getlines LF content))"

definition findSourceFile :: "string list \<Rightarrow> string \<Rightarrow> World \<Rightarrow> string" where
  "findSourceFile sourceFiles funcName w =
     (case find (\<lambda>f. fileContainsFunction w f funcName) sourceFiles of Some f \<Rightarrow> f | None \<Rightarrow> [])"

section \<open>Commands\<close>

text \<open>The words collected, the current word, and whether a quote is open.\<close>

definition splitChar :: "char \<Rightarrow> string list \<times> string \<times> bool \<Rightarrow> string list \<times> string \<times> bool" where
  "splitChar c st =
     (case st of (parts, current, inQuote) \<Rightarrow>
      if c = DQUOTE then (parts, current, \<not> inQuote)
      else if c = SPACE \<and> \<not> inQuote then
        (if current \<noteq> [] then (parts @ [current], [], inQuote) else (parts, current, inQuote))
      else (parts, current @ [c], inQuote))"

definition splitCommand :: "string \<Rightarrow> string list" where
  "splitCommand cmd =
     (case fold splitChar cmd ([], [], False) of (parts, current, _) \<Rightarrow>
      if current \<noteq> [] then parts @ [current] else parts)"

text \<open>What a failed command is reported as.\<close>

definition failureText :: "CapturedProcessResult \<Rightarrow> string" where
  "failureText r =
     (let detail = (if pr_stderr r = [] then pr_stdout r
                    else if pr_stdout r = [] then pr_stderr r
                    else pr_stdout r @ LF # ''[stderr]'' @ LF # pr_stderr r)
      in ''command failed (exit '' @ int_to_string (pr_exitCode r) @ '')'' @
         (if detail = [] then []
          else if length detail > 500 then '': '' @ substr detail 0 500 @ ''...'' else '': '' @ detail))"

text \<open>Running a command: \<open>None\<close> is success, \<open>Some\<close> the error text; \<open>Inl\<close> an exception.\<close>

definition runCommand :: "process \<Rightarrow> string \<Rightarrow> string \<Rightarrow> string \<Rightarrow> World \<Rightarrow> (string option) outcome" where
  "runCommand run whenEmpty workDir cmd w =
     (case splitCommand cmd of
        [] \<Rightarrow> (Inr (Some whenEmpty), w)
      | exe # args \<Rightarrow>
          (case run exe args workDir w of
             (Inl ex, w1) \<Rightarrow> (Inl ex, w1)
           | (Inr r, w1) \<Rightarrow> (Inr (if pr_exitCode r \<noteq> 0 then Some (failureText r) else None), w1)))"

section \<open>The rewriter\<close>

record StubRewriter =
  sw_stubGen :: StubGenerator
  sw_sourceFiles :: "string list"

record StubRewriteResult =
  rw_success :: bool
  rw_error :: string
  rw_originalContents :: "string umap"
  rw_stubbedFunctions :: "string list"
  rw_skippedCount :: int

definition empty_rewrite :: StubRewriteResult where
  "empty_rewrite = \<lparr>rw_success = False, rw_error = [], rw_originalContents = [], rw_stubbedFunctions = [], rw_skippedCount = 0\<rparr>"

definition writeBack :: "string umap \<Rightarrow> World \<Rightarrow> World" where
  "writeBack contents w = fold (\<lambda>(path, original) w. snd (writeFile path original w)) contents w"

fun stubEach ::
  "StubRewriter \<Rightarrow> string list \<Rightarrow> StubRewriteResult \<Rightarrow> int \<Rightarrow> World \<Rightarrow> StubRewriteResult outcome" where
  "stubEach rw [] result skipped w = (Inr (result\<lparr>rw_skippedCount := skipped, rw_success := True\<rparr>), w)"
| "stubEach rw (funcName # names) result skipped w =
     (let srcFile = findSourceFile (sw_sourceFiles rw) funcName w in
      if srcFile = [] then stubEach rw names result (skipped + 1) w
      else
        (case sg_stubFunction (sw_stubGen rw) srcFile funcName w of
           (Inl ex, w1) \<Rightarrow> (Inl ex, w1)
         | (Inr stubRes, w1) \<Rightarrow>
             if \<not> sb_success stubRes then
               (Inr (result\<lparr>rw_success := False, rw_error := ''failed to stub '' @ funcName @ '': '' @ sb_error stubRes,
                     rw_originalContents := [], rw_stubbedFunctions := []\<rparr>),
                writeBack (rw_originalContents result) w1)
             else
               stubEach rw names
                 (result\<lparr>rw_originalContents := fst (umap_emplace srcFile (sb_originalContent stubRes) (rw_originalContents result)),
                         rw_stubbedFunctions := rw_stubbedFunctions result @ [funcName]\<rparr>) skipped w1))"

definition stubFunctions :: "StubRewriter \<Rightarrow> string list \<Rightarrow> World \<Rightarrow> StubRewriteResult outcome" where
  "stubFunctions rw funcNames w = stubEach rw funcNames empty_rewrite 0 w"

definition restore :: "StubRewriteResult \<Rightarrow> World \<Rightarrow> bool \<times> World" where
  "restore result w =
     fold (\<lambda>(path, original) (allOk, w).
       case writeFile path original w of (ok, w1) \<Rightarrow> (allOk \<and> ok, w1)) (rw_originalContents result) (True, w)"

section \<open>The guard\<close>

text \<open>
  A body under a \<open>RestoreGuard\<close>: an exception restores on the way out and goes on, the normal
  path restores explicitly and looks at the result.
\<close>

definition restoring ::
  "(World \<Rightarrow> bool \<times> World) \<Rightarrow> (World \<Rightarrow> 'a outcome) \<Rightarrow> World \<Rightarrow> ('a \<times> bool) outcome" where
  "restoring undo body w =
     (case body w of
        (Inl ex, w1) \<Rightarrow> (Inl ex, snd (undo w1))
      | (Inr x, w1) \<Rightarrow> (case undo w1 of (ok, w2) \<Rightarrow> (Inr (x, ok), w2)))"

definition addNote :: "string \<Rightarrow> string \<Rightarrow> string" where
  "addNote err note = (if err = [] then note else err @ ''; '' @ note)"

end
