(* ===== verification/Verification.thy ===== *)
theory Verification
  imports Stubbing
begin

text \<open>
  The three verifiers that stub, build, test and restore: stages pruned from the bottom
  (\<open>lib/Check/PruningOrchestrator.cpp\<close>), one callee at a time (\<open>lib/Check/StubVerificationCheck.cpp\<close>)
  and peers and branches (\<open>lib/Check/VerificationOrchestrator.cpp\<close>).

  Every verifier is a function from a working tree to an outcome.  Iteration over an unordered
  container is iteration over a list whose order nothing depends on.  What is printed when
  \<open>verbose\<close> is set is left out.
\<close>

section \<open>Sequencing\<close>

definition andThen :: "(World \<Rightarrow> 'a outcome) \<Rightarrow> ('a \<Rightarrow> World \<Rightarrow> 'b outcome) \<Rightarrow> World \<Rightarrow> 'b outcome" where
  "andThen m f w = (case m w of (Inl ex, w1) \<Rightarrow> (Inl ex, w1) | (Inr x, w1) \<Rightarrow> f x w1)"

fun eachDo :: "('a \<Rightarrow> 's \<Rightarrow> World \<Rightarrow> 's outcome) \<Rightarrow> 'a list \<Rightarrow> 's \<Rightarrow> World \<Rightarrow> 's outcome" where
  "eachDo f [] s w = (Inr s, w)"
| "eachDo f (x # xs) s w = andThen (f x s) (eachDo f xs) w"

section \<open>Pruning stages\<close>

record StageIsolationResult =
  si_stage :: int
  si_compileSuccess :: bool
  si_testSuccess :: bool
  si_error :: string
  si_stubbedFunctions :: "string list"
  si_liveFunctions :: "string list"

definition si_passed :: "StageIsolationResult \<Rightarrow> bool" where
  "si_passed r \<longleftrightarrow> si_compileSuccess r \<and> si_testSuccess r"

record PruningResult =
  pn_stages :: "StageIsolationResult list"
  pn_passCount :: int
  pn_failCount :: int

definition pn_passed :: "PruningResult \<Rightarrow> bool" where
  "pn_passed r \<longleftrightarrow> pn_failCount r = 0"

record PruningOrchestrator =
  po_stageInfo :: StageAnalysisResult
  po_rewriter :: StubRewriter
  po_projectDir :: string
  po_testCommand :: string

definition buildStageGroups :: "StageAnalysisResult \<Rightarrow> (int \<times> string list) list" where
  "buildStageGroups stageInfo =
     fold (\<lambda>(qualifiedName, stage) groups.
       AList.update stage
         (List.insert (afterLastSep qualifiedName)
           (case map_of groups stage of Some funcs \<Rightarrow> funcs | None \<Rightarrow> [])) groups)
       (sr_calleeStageMap stageInfo) []"

definition functionsBelow :: "int \<Rightarrow> (int \<times> string list) list \<Rightarrow> string list" where
  "functionsBelow targetStage groups =
     fold (\<lambda>(stage, funcs) toStub. if stage < targetStage then fold List.insert funcs toStub else toStub)
       groups []"

definition functionsFrom :: "int \<Rightarrow> (int \<times> string list) list \<Rightarrow> string list" where
  "functionsFrom targetStage groups = concat (map snd (filter (\<lambda>(stage, _). stage \<ge> targetStage) groups))"

definition stageRestoreNote :: "int \<Rightarrow> string" where
  "stageRestoreNote targetStage =
     ''failed to restore source file(s) after stubbing stage < '' @ int_to_string targetStage @
     ''; working-tree source may be modified''"

definition stageVerdict :: "int \<Rightarrow> string option \<Rightarrow> bool \<Rightarrow> StageIsolationResult \<Rightarrow> StageIsolationResult" where
  "stageVerdict targetStage failure restoreOk result =
     (let err = (case failure of Some e \<Rightarrow> e | None \<Rightarrow> []) in
      if restoreOk
      then result\<lparr>si_compileSuccess := failure = None, si_testSuccess := failure = None, si_error := err\<rparr>
      else result\<lparr>si_compileSuccess := False, si_testSuccess := False,
                  si_error := addNote err (stageRestoreNote targetStage)\<rparr>)"

definition verifyStage ::
  "process \<Rightarrow> PruningOrchestrator \<Rightarrow> int \<Rightarrow> World \<Rightarrow> StageIsolationResult outcome" where
  "verifyStage run po targetStage =
     (let stageGroups = buildStageGroups (po_stageInfo po);
          toStub = functionsBelow targetStage stageGroups;
          result = \<lparr>si_stage = targetStage, si_compileSuccess = False, si_testSuccess = False, si_error = [],
                    si_stubbedFunctions = [], si_liveFunctions = functionsFrom targetStage stageGroups\<rparr>
      in if toStub = [] then (\<lambda>w. (Inr (result\<lparr>si_compileSuccess := True, si_testSuccess := True\<rparr>), w))
         else andThen (stubFunctions (po_rewriter po) toStub) (\<lambda>rewriteResult.
           if \<not> rw_success rewriteResult then (\<lambda>w1. (Inr (result\<lparr>si_error := rw_error rewriteResult\<rparr>), w1))
           else andThen
             (restoring (restore rewriteResult)
               (runCommand run ''empty test command'' (po_projectDir po) (po_testCommand po)))
             (\<lambda>(failure, restoreOk) w1.
               (Inr (stageVerdict targetStage failure restoreOk
                      (result\<lparr>si_stubbedFunctions := rw_stubbedFunctions rewriteResult\<rparr>)), w1))))"

definition countStage :: "StageIsolationResult \<Rightarrow> PruningResult \<Rightarrow> PruningResult" where
  "countStage stageResult result =
     (let counted = (if si_passed stageResult then result\<lparr>pn_passCount := pn_passCount result + 1\<rparr>
                     else result\<lparr>pn_failCount := pn_failCount result + 1\<rparr>)
      in counted\<lparr>pn_stages := pn_stages counted @ [stageResult]\<rparr>)"

definition verifyAllStages :: "process \<Rightarrow> PruningOrchestrator \<Rightarrow> World \<Rightarrow> PruningResult outcome" where
  "verifyAllStages run po w =
     (let stageNumbers = rev (sort (remdups (map fst (buildStageGroups (po_stageInfo po)))))
      in eachDo (\<lambda>stage result.
           andThen (verifyStage run po stage) (\<lambda>stageResult w1. (Inr (countStage stageResult result), w1)))
         stageNumbers \<lparr>pn_stages = [], pn_passCount = 0, pn_failCount = 0\<rparr> w)"

section \<open>One callee at a time\<close>

record StubVerifyFunctionResult =
  sf_functionName :: string
  sf_stage :: int
  sf_compileSuccess :: bool
  sf_testSuccess :: bool
  sf_error :: string

definition sf_passed :: "StubVerifyFunctionResult \<Rightarrow> bool" where
  "sf_passed r \<longleftrightarrow> sf_compileSuccess r \<and> sf_testSuccess r"

record StubVerificationResult =
  sv_functions :: "StubVerifyFunctionResult list"
  sv_passCount :: int
  sv_failCount :: int
  sv_skipCount :: int

definition sv_passed :: "StubVerificationResult \<Rightarrow> bool" where
  "sv_passed r \<longleftrightarrow> sv_failCount r = 0"

definition failedFunctions :: "StubVerificationResult \<Rightarrow> string list" where
  "failedFunctions r = map sf_functionName (filter (\<lambda>f. \<not> sf_passed f) (sv_functions r))"

record StubVerificationCheck =
  sc_symbols :: SymbolTable
  sc_stageInfo :: StageAnalysisResult
  sc_rewriter :: StubRewriter
  sc_projectDir :: string
  sc_buildCommand :: string
  sc_testCommand :: string
  sc_filterPattern :: string

definition matchesFilter :: "StubVerificationCheck \<Rightarrow> string \<Rightarrow> bool" where
  "matchesFilter sc funcName \<longleftrightarrow>
     (if sc_filterPattern sc = [] then True else find_str (sc_filterPattern sc) funcName \<noteq> None)"

definition isCandidate :: "StubVerificationCheck \<Rightarrow> string \<Rightarrow> bool" where
  "isCandidate sc qualifiedName \<longleftrightarrow>
     \<not> qualifiedName \<in> set (umap_keys (st_logicBlocks (sc_symbols sc))) \<and>
     find_str ''<assign:'' qualifiedName = None \<and> matchesFilter sc qualifiedName"

text \<open>By stage, then by name: the sort is stable.\<close>

definition collectCandidates :: "StubVerificationCheck \<Rightarrow> (string \<times> int) list" where
  "collectCandidates sc =
     sort_key snd (sort_key fst
       (filter (\<lambda>(qualifiedName, _). isCandidate sc qualifiedName) (sr_calleeStageMap (sc_stageInfo sc))))"

text \<open>\<open>None\<close> is success; a failure comes with whether it was the build.\<close>

definition runBuildAndTest :: "process \<Rightarrow> StubVerificationCheck \<Rightarrow> World \<Rightarrow> ((string \<times> bool) option) outcome" where
  "runBuildAndTest run sc =
     (let test = andThen (runCommand run ''empty command'' (sc_projectDir sc) (sc_testCommand sc))
                   (\<lambda>r w. (Inr (map_option (\<lambda>e. (''test failed: '' @ e, False)) r), w))
      in if sc_buildCommand sc \<noteq> []
         then andThen (runCommand run ''empty command'' (sc_projectDir sc) (sc_buildCommand sc))
                (\<lambda>r. case r of Some e \<Rightarrow> (\<lambda>w. (Inr (Some (''build failed: '' @ e, True)), w)) | None \<Rightarrow> test)
         else test)"

definition functionRestoreNote :: "string \<Rightarrow> string" where
  "functionRestoreNote qualifiedName =
     ''failed to restore source after stubbing '' @ qualifiedName @ ''; working-tree source may be modified''"

definition functionVerdict ::
  "(string \<times> bool) option \<Rightarrow> bool \<Rightarrow> StubVerifyFunctionResult \<Rightarrow> StubVerifyFunctionResult" where
  "functionVerdict failure restoreOk result =
     (let judged =
        (case failure of
           None \<Rightarrow> result\<lparr>sf_compileSuccess := True, sf_testSuccess := True\<rparr>
         | Some (err, compileFailed) \<Rightarrow>
             if compileFailed then result\<lparr>sf_compileSuccess := False, sf_error := err\<rparr>
             else result\<lparr>sf_compileSuccess := True, sf_testSuccess := False, sf_error := err\<rparr>)
      in if restoreOk then judged
         else judged\<lparr>sf_compileSuccess := False, sf_testSuccess := False,
                     sf_error := addNote (sf_error judged) (functionRestoreNote (sf_functionName judged))\<rparr>)"

definition notFoundError :: string where
  "notFoundError = ''function not found in source files''"

definition verifyFunction ::
  "process \<Rightarrow> StubVerificationCheck \<Rightarrow> string \<Rightarrow> World \<Rightarrow> StubVerifyFunctionResult outcome" where
  "verifyFunction run sc qualifiedName =
     (let result = \<lparr>sf_functionName = qualifiedName,
                    sf_stage = (case map_of (sr_calleeStageMap (sc_stageInfo sc)) qualifiedName of
                                  Some s \<Rightarrow> s | None \<Rightarrow> 0),
                    sf_compileSuccess = False, sf_testSuccess = False, sf_error = []\<rparr>
      in andThen (stubFunctions (sc_rewriter sc) [afterLastSep qualifiedName]) (\<lambda>rewriteResult.
           if \<not> rw_success rewriteResult then
             (\<lambda>w. (Inr (result\<lparr>sf_error := ''stub failed: '' @ rw_error rewriteResult\<rparr>), w))
           else if rw_stubbedFunctions rewriteResult = [] then
             (\<lambda>w. (Inr (result\<lparr>sf_error := notFoundError\<rparr>), snd (restore rewriteResult w)))
           else
             andThen (restoring (restore rewriteResult) (runBuildAndTest run sc))
               (\<lambda>(failure, restoreOk) w. (Inr (functionVerdict failure restoreOk result), w))))"

definition countFunction :: "StubVerifyFunctionResult \<Rightarrow> StubVerificationResult \<Rightarrow> StubVerificationResult" where
  "countFunction funcResult result =
     (let counted =
        (if sf_error funcResult = notFoundError then result\<lparr>sv_skipCount := sv_skipCount result + 1\<rparr>
         else if sf_passed funcResult then result\<lparr>sv_passCount := sv_passCount result + 1\<rparr>
         else result\<lparr>sv_failCount := sv_failCount result + 1\<rparr>)
      in counted\<lparr>sv_functions := sv_functions counted @ [funcResult]\<rparr>)"

definition verifyCandidates :: "process \<Rightarrow> StubVerificationCheck \<Rightarrow> World \<Rightarrow> StubVerificationResult outcome" where
  "verifyCandidates run sc =
     eachDo (\<lambda>(qualifiedName, _) result.
         andThen (verifyFunction run sc qualifiedName) (\<lambda>funcResult w. (Inr (countFunction funcResult result), w)))
       (collectCandidates sc) \<lparr>sv_functions = [], sv_passCount = 0, sv_failCount = 0, sv_skipCount = 0\<rparr>"

section \<open>Peers of a stage\<close>

record VerificationTestResult =
  vt_stubbedFunction :: string
  vt_checkedProperty :: string
  vt_compileSuccess :: bool
  vt_testSuccess :: bool
  vt_error :: string

record VerificationResult =
  vr_checkName :: string
  vr_tests :: "VerificationTestResult list"
  vr_passCount :: int
  vr_failCount :: int

definition vr_passed :: "VerificationResult \<Rightarrow> bool" where
  "vr_passed r \<longleftrightarrow> vr_failCount r = 0"

record VerificationOrchestrator =
  vo_symbols :: SymbolTable
  vo_stubGen :: StubGenerator
  vo_projectDir :: string
  vo_testCommand :: string
  vo_sourceFiles :: "string list"

definition findSourceFileForFunction :: "VerificationOrchestrator \<Rightarrow> string \<Rightarrow> World \<Rightarrow> string" where
  "findSourceFileForFunction vo funcName w = findSourceFile (vo_sourceFiles vo) (afterLastSep funcName) w"

definition failedTest :: "string \<Rightarrow> string \<Rightarrow> string \<Rightarrow> VerificationTestResult" where
  "failedTest func checked err =
     \<lparr>vt_stubbedFunction = func, vt_checkedProperty = checked, vt_compileSuccess = False,
      vt_testSuccess = False, vt_error = err\<rparr>"

definition addTest :: "VerificationTestResult \<Rightarrow> VerificationResult \<Rightarrow> VerificationResult" where
  "addTest tr result =
     (let counted = (if vt_testSuccess tr then result\<lparr>vr_passCount := vr_passCount result + 1\<rparr>
                     else result\<lparr>vr_failCount := vr_failCount result + 1\<rparr>)
      in counted\<lparr>vr_tests := vr_tests counted @ [tr]\<rparr>)"

definition testVerdict :: "string \<Rightarrow> string \<Rightarrow> string option \<Rightarrow> bool \<Rightarrow> string \<Rightarrow> VerificationTestResult" where
  "testVerdict func checked failure restoreOk note =
     (let err = (case failure of Some e \<Rightarrow> e | None \<Rightarrow> []) in
      if restoreOk
      then (failedTest func checked err)\<lparr>vt_compileSuccess := failure = None, vt_testSuccess := failure = None\<rparr>
      else failedTest func checked (addNote err (note @ ''; working-tree source may be modified'')))"

definition orchestratedRun :: "process \<Rightarrow> VerificationOrchestrator \<Rightarrow> World \<Rightarrow> (string option) outcome" where
  "orchestratedRun run vo = runCommand run ''empty test command'' (vo_projectDir vo) (vo_testCommand vo)"

definition stageToFunctions :: "LogicBlockEntry \<Rightarrow> (int \<times> string list) list" where
  "stageToFunctions block =
     fold (\<lambda>i m.
       let stage = (if i < length (lb_stages block) then lb_stages block ! i else 0)
       in smap_put stage (smap_get [] m stage @ [lb_calledFunctions block ! i]) m)
       [0..<length (lb_calledFunctions block)] []"

definition verifyPeer ::
  "process \<Rightarrow> VerificationOrchestrator \<Rightarrow> string \<Rightarrow> string \<Rightarrow> VerificationResult \<Rightarrow> World \<Rightarrow>
   VerificationResult outcome" where
  "verifyPeer run vo checked stubFunc result w =
     (let srcFile = findSourceFileForFunction vo stubFunc w in
      if srcFile = [] then
        (Inr (addTest (failedTest stubFunc checked (''source file not found for function: '' @ stubFunc)) result), w)
      else
        andThen (sg_stubFunction (vo_stubGen vo) srcFile (afterLastSep stubFunc)) (\<lambda>stubRes.
          if \<not> sb_success stubRes then
            (\<lambda>w1. (Inr (addTest (failedTest stubFunc checked (sb_error stubRes)) result), w1))
          else
            andThen (restoring (sg_restoreFile (vo_stubGen vo) srcFile stubRes) (orchestratedRun run vo))
              (\<lambda>(failure, restoreOk) w1.
                (Inr (addTest (testVerdict stubFunc checked failure restoreOk
                   (''failed to restore source file after stubbing '' @ stubFunc @ '' ('' @ srcFile @ '')''))
                   result), w1))) w)"

definition verifyStageIsolation :: "process \<Rightarrow> VerificationOrchestrator \<Rightarrow> World \<Rightarrow> VerificationResult outcome" where
  "verifyStageIsolation run vo =
     eachDo (\<lambda>(blockName, block) result.
       if lb_isPipeline block \<or> lb_calledFunctions block = [] then (\<lambda>w. (Inr result, w))
       else
         eachDo (\<lambda>(stage, funcs) result.
           if length funcs < 2 then (\<lambda>w. (Inr result, w))
           else
             eachDo (verifyPeer run vo (''stage '' @ int_to_string stage @ '' isolation in '' @ blockName))
               funcs result)
           (stageToFunctions block) result)
       (st_logicBlocks (vo_symbols vo))
       \<lparr>vr_checkName = ''stage-isolation'', vr_tests = [], vr_passCount = 0, vr_failCount = 0\<rparr>"

section \<open>Branches of a pipeline\<close>

text \<open>The stack's last element is popped first, so it heads the list; the set is kept sorted.\<close>

function (sequential) branchFrom :: "PipelineEdge list \<Rightarrow> string list \<Rightarrow> string list \<Rightarrow> string list" where
  "branchFrom edges [] branchFuncs = branchFuncs"
| "branchFrom edges (cur # queue) branchFuncs =
     (if cur \<in> set branchFuncs then branchFrom edges queue branchFuncs
      else let seen = insort_insert cur branchFuncs
           in branchFrom edges
                (rev (map pe_target (filter (\<lambda>e. pe_source e = cur \<and> pe_target e \<notin> set seen) edges)) @ queue)
                seen)"
  by pat_completeness auto

definition unseen :: "PipelineEdge list \<Rightarrow> string list \<Rightarrow> string list \<Rightarrow> string set" where
  "unseen edges queue seen = (set queue \<union> pe_target ` set edges) - set seen"

lemma unseen_pop: "unseen edges queue seen \<subseteq> unseen edges (cur # queue) seen"
  by (auto simp: unseen_def)

lemma unseen_push:
  assumes "cur \<notin> set seen"
  shows "unseen edges (rev (map pe_target (filter P edges)) @ queue) (insort_insert cur seen)
         \<subset> unseen edges (cur # queue) seen"
  using assms by (auto simp: unseen_def set_insort_insert)

lemma finite_unseen [simp, intro]: "finite (unseen edges queue seen)"
  by (simp add: unseen_def)

termination branchFrom
proof (relation "measures [\<lambda>(edges, queue, seen). card (unseen edges queue seen), \<lambda>(edges, queue, seen). length queue]")
  show "wf (measures [\<lambda>(edges, queue, seen). card (unseen edges queue seen),
                      \<lambda>(edges, queue, seen :: string list). length (queue :: string list)])"
    by simp
  show "((edges, queue, seen), edges, cur # queue, seen) \<in>
        measures [\<lambda>(edges, queue, seen). card (unseen edges queue seen), \<lambda>(edges, queue, seen). length queue]"
    for edges :: "PipelineEdge list" and cur :: string and queue seen
    using card_mono [OF finite_unseen unseen_pop [of edges queue seen cur]] by auto
  show "((edges, rev (map pe_target (filter (\<lambda>e. pe_source e = cur \<and> pe_target e \<notin> set new) edges)) @ queue, new),
         edges, cur # queue, seen) \<in>
        measures [\<lambda>(edges, queue, seen). card (unseen edges queue seen), \<lambda>(edges, queue, seen). length queue]"
    if "cur \<notin> set seen" "new = insort_insert cur seen"
    for edges :: "PipelineEdge list" and cur :: string and queue seen new
    using psubset_card_mono [OF finite_unseen unseen_push [OF that(1), of edges _ queue]] that by auto
qed

definition sourceNodesOf :: "LogicBlockEntry \<Rightarrow> string list" where
  "sourceNodesOf block = filter (\<lambda>f. f \<notin> pe_target ` set (lb_edges block)) (lb_calledFunctions block)"

text \<open>Every touched file once, from the first stub recorded for it.\<close>

fun restoreAll :: "StubGenerator \<Rightarrow> string list \<Rightarrow> (string \<times> StubResult) list \<Rightarrow> World \<Rightarrow> bool \<times> World" where
  "restoreAll gen restored [] w = (True, w)"
| "restoreAll gen restored ((sf, sr) # stubs) w =
     (if sf \<in> set restored then restoreAll gen restored stubs w
      else case sg_restoreFile gen sf sr w of
             (ok, w1) \<Rightarrow> (case restoreAll gen (sf # restored) stubs w1 of (allOk, w2) \<Rightarrow> (ok \<and> allOk, w2)))"

text \<open>The stubs of a branch; \<open>None\<close> when one failed.  The guard covers the loop.\<close>

fun stubBranch ::
  "VerificationOrchestrator \<Rightarrow> string list \<Rightarrow> (string \<times> StubResult) list \<Rightarrow> World \<Rightarrow>
   ((string \<times> StubResult) list option) outcome" where
  "stubBranch vo [] stubs w = (Inr (Some stubs), w)"
| "stubBranch vo (func # funcs) stubs w =
     (let srcFile = findSourceFileForFunction vo func w in
      if srcFile = [] then stubBranch vo funcs stubs w
      else
        (case sg_stubFunction (vo_stubGen vo) srcFile (afterLastSep func) w of
           (Inl ex, w1) \<Rightarrow> (Inl ex, snd (restoreAll (vo_stubGen vo) [] stubs w1))
         | (Inr stubRes, w1) \<Rightarrow>
             if sb_success stubRes then stubBranch vo funcs (stubs @ [(srcFile, stubRes)]) w1
             else (Inr None, snd (restoreAll (vo_stubGen vo) [] stubs w1))))"

definition verifyBranch ::
  "process \<Rightarrow> VerificationOrchestrator \<Rightarrow> string \<Rightarrow> PipelineEdge list \<Rightarrow> string \<Rightarrow> VerificationResult \<Rightarrow>
   World \<Rightarrow> VerificationResult outcome" where
  "verifyBranch run vo blockName edges branchRoot result =
     (let func = branchRoot @ '' (branch)'';
          checked = ''branch independence in '' @ blockName
      in andThen (stubBranch vo (branchFrom edges [branchRoot] []) []) (\<lambda>stubbed.
           case stubbed of
             None \<Rightarrow> (\<lambda>w. (Inr (addTest (failedTest func checked ''failed to stub branch functions'') result), w))
           | Some stubs \<Rightarrow>
               andThen (restoring (restoreAll (vo_stubGen vo) [] stubs) (orchestratedRun run vo))
                 (\<lambda>(failure, restoreOk) w.
                   (Inr (addTest (testVerdict func checked failure restoreOk
                      (''failed to restore branch source file(s) after stubbing branch from '' @ branchRoot))
                      result), w))))"

definition verifyPipelineIndependence ::
  "process \<Rightarrow> VerificationOrchestrator \<Rightarrow> World \<Rightarrow> VerificationResult outcome" where
  "verifyPipelineIndependence run vo =
     eachDo (\<lambda>(blockName, block) result.
       if \<not> lb_isPipeline block \<or> lb_calledFunctions block = [] \<or> length (sourceNodesOf block) < 2
       then (\<lambda>w. (Inr result, w))
       else eachDo (verifyBranch run vo blockName (lb_edges block)) (sourceNodesOf block) result)
       (st_logicBlocks (vo_symbols vo))
       \<lparr>vr_checkName = ''pipeline-independence'', vr_tests = [], vr_passCount = 0, vr_failCount = 0\<rparr>"

definition verifyEverything :: "process \<Rightarrow> VerificationOrchestrator \<Rightarrow> World \<Rightarrow> (VerificationResult list) outcome" where
  "verifyEverything run vo =
     andThen (verifyStageIsolation run vo) (\<lambda>stages.
       andThen (verifyPipelineIndependence run vo) (\<lambda>branches w. (Inr [stages, branches], w)))"

end
