(* ===== verification/Verification_Laws.thy ===== *)
theory Verification_Laws
  imports Verification
begin

text \<open>
  The verifiers put the sources back.  What a stub generator and a build command may do is stated
  first, then the state between stubbing and restoring (\<open>stubbed\<close>), then that every step of the
  three verifiers leaves the sources as they were, whichever way it ends.
\<close>

section \<open>What is relied on\<close>

text \<open>A stub result holds the file as it was, only that file is rewritten, and a restore writes it back.\<close>

definition stub_ok :: "StubGenerator \<Rightarrow> string \<Rightarrow> string \<Rightarrow> World \<Rightarrow> bool" where
  "stub_ok gen p f w \<longleftrightarrow>
     (case sg_stubFunction gen p f w of
        (Inl _, w1) \<Rightarrow> w1 = w
      | (Inr r, w1) \<Rightarrow>
          if sb_success r
          then w_files w p = Some (sb_originalContent r) \<and> w_canWrite w1 = w_canWrite w \<and>
               (\<forall>q. q \<noteq> p \<longrightarrow> w_files w1 q = w_files w q)
          else w1 = w)"

definition generator_ok :: "StubGenerator \<Rightarrow> bool" where
  "generator_ok gen \<longleftrightarrow>
     (\<forall>p f w. stub_ok gen p f w) \<and>
     (\<forall>p r w. sg_restoreFile gen p r w = writeFile p (sb_originalContent r) w)"

definition never_throws :: "StubGenerator \<Rightarrow> bool" where
  "never_throws gen \<longleftrightarrow> (\<forall>p f w. \<forall>ex. fst (sg_stubFunction gen p f w) \<noteq> Inl ex)"

definition agree :: "string set \<Rightarrow> World \<Rightarrow> World \<Rightarrow> bool" where
  "agree S w w' \<longleftrightarrow> (\<forall>p\<in>S. w_files w' p = w_files w p \<and> w_canWrite w' p = w_canWrite w p)"

definition keeps_sources :: "process \<Rightarrow> string set \<Rightarrow> bool" where
  "keeps_sources run S \<longleftrightarrow> (\<forall>exe args dir w. agree S w (snd (run exe args dir w)))"

definition writable :: "string set \<Rightarrow> World \<Rightarrow> bool" where
  "writable S w \<longleftrightarrow> (\<forall>p\<in>S. w_canWrite w p)"

definition leaves :: "string set \<Rightarrow> (World \<Rightarrow> 'a outcome) \<Rightarrow> bool" where
  "leaves S m \<longleftrightarrow> (\<forall>w. writable S w \<longrightarrow> agree S w (snd (m w)))"

lemma agree_refl [simp]: "agree S w w"
  by (simp add: agree_def)

lemma agree_trans: "agree S w w1 \<Longrightarrow> agree S w1 w2 \<Longrightarrow> agree S w w2"
  by (simp add: agree_def)

lemma agree_writable: "agree S w w1 \<Longrightarrow> writable S w1 = writable S w"
  by (simp add: agree_def writable_def)

named_theorems leaves_intros

lemma leaves_return [leaves_intros]: "leaves S (\<lambda>w. (x, w))"
  by (simp add: leaves_def)

lemma leaves_case_prod [leaves_intros]:
  "(\<And>a b. leaves S (f a b)) \<Longrightarrow> leaves S (case p of (a, b) \<Rightarrow> f a b)"
  by (cases p) simp

lemma leaves_case_prod_fun [leaves_intros]:
  "(\<And>a b. leaves S (f a b s)) \<Longrightarrow> leaves S ((case p of (a, b) \<Rightarrow> f a b) s)"
  by (cases p) simp

lemma leaves_if [leaves_intros]:
  "leaves S f \<Longrightarrow> leaves S g \<Longrightarrow> leaves S (if c then f else g)"
  by simp

lemma andThen_simps:
  "m w = (Inl ex, w1) \<Longrightarrow> andThen m f w = (Inl ex, w1)"
  "m w = (Inr x, w1) \<Longrightarrow> andThen m f w = f x w1"
  by (simp_all add: andThen_def)

lemma leaves_andThen [leaves_intros]:
  assumes m: "leaves S m" and f: "\<And>x. leaves S (f x)"
  shows "leaves S (andThen m f)"
  unfolding leaves_def
proof (intro allI impI)
  fix w assume w: "writable S w"
  have first: "agree S w (snd (m w))" using m w by (simp add: leaves_def)
  obtain r w1 where r: "m w = (r, w1)" by fastforce
  show "agree S w (snd (andThen m f w))"
  proof (cases r)
    case (Inl ex)
    then show ?thesis using r first by (simp add: andThen_simps)
  next
    case (Inr x)
    have w1: "agree S w w1" using r first by simp
    then have "writable S w1" using w agree_writable by blast
    then have "agree S w1 (snd (f x w1))" using f by (simp add: leaves_def)
    then show ?thesis using w1 r Inr agree_trans by (auto simp: andThen_simps)
  qed
qed

lemma leaves_eachDo [leaves_intros]:
  assumes "\<And>x s. leaves S (f x s)"
  shows "leaves S (eachDo f xs s)"
proof (induction xs arbitrary: s)
  case Nil
  then show ?case by (simp add: leaves_def)
next
  case (Cons x xs)
  then show ?case using leaves_andThen [OF assms Cons.IH] by (simp add: leaves_def)
qed

lemma runCommand_world:
  "snd (runCommand run e dir cmd w) =
     (case splitCommand cmd of [] \<Rightarrow> w | exe # args \<Rightarrow> snd (run exe args dir w))"
  unfolding runCommand_def by (simp split: list.split prod.split sum.split)

lemma leaves_runCommand [leaves_intros]:
  "keeps_sources run S \<Longrightarrow> leaves S (runCommand run e dir cmd)"
  unfolding leaves_def keeps_sources_def by (simp add: runCommand_world split: list.split)

section \<open>Between stubbing and restoring\<close>

definition stubbed :: "string set \<Rightarrow> World \<Rightarrow> (string \<times> string) set \<Rightarrow> World \<Rightarrow> bool" where
  "stubbed S w0 saved w \<longleftrightarrow>
     fst ` saved \<subseteq> S \<and> (\<forall>(p, c)\<in>saved. w_files w0 p = Some c) \<and>
     (\<forall>p\<in>S. w_canWrite w p = w_canWrite w0 p) \<and>
     (\<forall>p\<in>S. p \<notin> fst ` saved \<longrightarrow> w_files w p = w_files w0 p)"

lemma stubbed_none [simp]: "stubbed S w0 {} w \<longleftrightarrow> agree S w0 w"
  by (auto simp: stubbed_def agree_def)

lemma stubbed_agree: "stubbed S w0 saved w \<Longrightarrow> agree S w w1 \<Longrightarrow> stubbed S w0 saved w1"
  unfolding stubbed_def agree_def by simp

lemma stubbed_write:
  assumes "stubbed S w0 (insert (p, c) saved) w" "fst (writeFile p c w)"
  shows "stubbed S w0 saved (snd (writeFile p c w))"
  using assms unfolding stubbed_def writeFile_def by (auto split: if_splits)

lemma stubbed_writable:
  "stubbed S w0 (insert (p, c) saved) w \<Longrightarrow> writable S w0 \<Longrightarrow> fst (writeFile p c w)"
  by (auto simp: stubbed_def writable_def writeFile_def)

lemma stubbed_stub:
  assumes "generator_ok gen" "stubbed S w0 saved w" "p \<in> S"
    and "sg_stubFunction gen p f w = (Inr r, w1)" "sb_success r"
  shows "stubbed S w0 (if p \<in> fst ` saved then saved else insert (p, sb_originalContent r) saved) w1"
proof -
  have "stub_ok gen p f w" using assms(1) by (simp add: generator_ok_def)
  then have "w_files w p = Some (sb_originalContent r) \<and> w_canWrite w1 = w_canWrite w \<and>
        (\<forall>q. q \<noteq> p \<longrightarrow> w_files w1 q = w_files w q)"
    using assms(4,5) by (simp add: stub_ok_def)
  then show ?thesis using assms(2,3) unfolding stubbed_def by auto
qed

lemma generator_ok_failed:
  assumes "generator_ok gen" "sg_stubFunction gen p f w = (r, w1)" "\<And>x. r = Inr x \<Longrightarrow> \<not> sb_success x"
  shows "w1 = w"
proof -
  have "stub_ok gen p f w" using assms(1) by (simp add: generator_ok_def)
  then show ?thesis using assms(2,3) by (cases r) (auto simp: stub_ok_def split: if_splits)
qed

lemma generator_ok_restore:
  "generator_ok gen \<Longrightarrow> sg_restoreFile gen p r w = writeFile p (sb_originalContent r) w"
  by (simp add: generator_ok_def)

lemma findSourceFile_mem: "findSourceFile files f w \<noteq> [] \<Longrightarrow> findSourceFile files f w \<in> set files"
  by (cases "find (\<lambda>p. fileContainsFunction w p f) files")
    (simp_all add: findSourceFile_def, metis (no_types, lifting) find_Some_iff nth_mem)

text \<open>Writing the saved contents back.\<close>

lemma writeBack_restores:
  "stubbed S w0 (set contents) w \<Longrightarrow> writable S w0 \<Longrightarrow> agree S w0 (writeBack contents w)"
proof (induction contents arbitrary: w)
  case Nil
  then show ?case by (simp add: writeBack_def)
next
  case (Cons pc contents)
  obtain p c where pc [simp]: "pc = (p, c)" by fastforce
  have "stubbed S w0 (set contents) (snd (writeFile p c w))"
    using Cons.prems stubbed_write stubbed_writable by simp
  then show ?case using Cons.IH [OF _ Cons.prems(2)] by (simp add: writeBack_def)
qed

definition restoreFrom :: "bool \<Rightarrow> string umap \<Rightarrow> World \<Rightarrow> bool \<times> World" where
  "restoreFrom allOk contents w =
     fold (\<lambda>(path, original) (allOk, w).
       case writeFile path original w of (ok, w1) \<Rightarrow> (allOk \<and> ok, w1)) contents (allOk, w)"

lemma restore_eq: "restore result w = restoreFrom True (rw_originalContents result) w"
  by (simp add: restore_def restoreFrom_def)

lemma restoreFrom_Cons:
  "restoreFrom allOk ((p, c) # contents) w =
     restoreFrom (allOk \<and> fst (writeFile p c w)) contents (snd (writeFile p c w))"
  by (simp add: restoreFrom_def case_prod_beta)

lemma restoreFrom_ok: "fst (restoreFrom allOk contents w) \<Longrightarrow> allOk"
proof (induction contents arbitrary: allOk w)
  case (Cons pc contents)
  obtain p c where [simp]: "pc = (p, c)" by fastforce
  show ?case using Cons.IH Cons.prems by (simp add: restoreFrom_Cons) blast
qed (simp add: restoreFrom_def)

lemma restoreFrom_restores:
  "stubbed S w0 (set contents) w \<Longrightarrow> fst (restoreFrom allOk contents w) \<Longrightarrow>
   agree S w0 (snd (restoreFrom allOk contents w))"
proof (induction contents arbitrary: allOk w)
  case Nil
  then show ?case by (simp add: restoreFrom_def)
next
  case (Cons pc contents)
  obtain p c where pc [simp]: "pc = (p, c)" by fastforce
  have "fst (writeFile p c w)"
    using restoreFrom_ok [of "allOk \<and> fst (writeFile p c w)"] Cons.prems(2)
    by (auto simp: restoreFrom_Cons)
  then have "stubbed S w0 (set contents) (snd (writeFile p c w))"
    using Cons.prems stubbed_write by simp
  then show ?case using Cons.IH Cons.prems(2) by (simp add: restoreFrom_Cons)
qed

lemma restoreFrom_writable:
  "stubbed S w0 (set contents) w \<Longrightarrow> writable S w0 \<Longrightarrow> allOk \<Longrightarrow> fst (restoreFrom allOk contents w)"
proof (induction contents arbitrary: allOk w)
  case Nil
  then show ?case by (simp add: restoreFrom_def)
next
  case (Cons pc contents)
  obtain p c where pc [simp]: "pc = (p, c)" by fastforce
  have ok: "fst (writeFile p c w)" using Cons.prems stubbed_writable by simp
  then have "stubbed S w0 (set contents) (snd (writeFile p c w))"
    using Cons.prems stubbed_write by simp
  then show ?case using Cons.IH Cons.prems ok by (simp add: restoreFrom_Cons)
qed

lemma restore_restores:
  "stubbed S w0 (set (rw_originalContents result)) w \<Longrightarrow> fst (restore result w) \<Longrightarrow>
   agree S w0 (snd (restore result w))"
  "stubbed S w0 (set (rw_originalContents result)) w \<Longrightarrow> writable S w0 \<Longrightarrow>
   agree S w0 (snd (restore result w))"
  using restoreFrom_restores [of S w0 "rw_originalContents result" w True]
    restoreFrom_writable [of S w0 "rw_originalContents result" w True]
  by (simp_all add: restore_eq)

section \<open>The rewriter\<close>

lemma emplace_saves:
  "set (fst (umap_emplace p c m)) = (if p \<in> fst ` set m then set m else insert (p, c) (set m))"
  by (auto simp: umap_emplace_set map_of_eq_None_iff)

lemma stubEach_cases:
  assumes "findSourceFile (sw_sourceFiles rw) funcName w \<noteq> []"
    and "sg_stubFunction (sw_stubGen rw) (findSourceFile (sw_sourceFiles rw) funcName w) funcName w = (r, w1)"
  shows "r = Inl ex \<Longrightarrow> stubEach rw (funcName # names) result skipped w = (Inl ex, w1)"
    and "r = Inr sr \<Longrightarrow> \<not> sb_success sr \<Longrightarrow> stubEach rw (funcName # names) result skipped w =
               (Inr (result\<lparr>rw_success := False, rw_error := ''failed to stub '' @ funcName @ '': '' @ sb_error sr,
                     rw_originalContents := [], rw_stubbedFunctions := []\<rparr>),
                writeBack (rw_originalContents result) w1)"
    and "r = Inr sr \<Longrightarrow> sb_success sr \<Longrightarrow> stubEach rw (funcName # names) result skipped w =
               stubEach rw names
                 (result\<lparr>rw_originalContents := fst (umap_emplace (findSourceFile (sw_sourceFiles rw) funcName w)
                                                      (sb_originalContent sr) (rw_originalContents result)),
                         rw_stubbedFunctions := rw_stubbedFunctions result @ [funcName]\<rparr>) skipped w1"
  using assms by (simp_all add: Let_def)

text \<open>The result says what is still stubbed: nothing when it reports a failure.\<close>

lemma stubEach_stubs:
  assumes gen: "generator_ok (sw_stubGen rw)" and S: "writable S w0" "set (sw_sourceFiles rw) \<subseteq> S"
  shows "stubEach rw names result skipped w = (Inr result', w') \<Longrightarrow>
         stubbed S w0 (set (rw_originalContents result)) w \<Longrightarrow>
         stubbed S w0 (set (rw_originalContents result')) w'"
proof (induction names arbitrary: result skipped w)
  case Nil
  then show ?case by auto
next
  case (Cons funcName names)
  define src where "src = findSourceFile (sw_sourceFiles rw) funcName w"
  obtain r w1 where stub: "sg_stubFunction (sw_stubGen rw) src funcName w = (r, w1)" by fastforce
  show ?case
  proof (cases "src = []")
    case True
    then show ?thesis using Cons by (simp add: src_def [symmetric])
  next
    case False
    then have mem: "src \<in> S" using S findSourceFile_mem unfolding src_def by blast
    note step = stubEach_cases [OF False [unfolded src_def] stub [unfolded src_def], folded src_def]
    consider ex where "r = Inl ex" | sr where "r = Inr sr" "\<not> sb_success sr" | sr where "r = Inr sr" "sb_success sr"
      by (cases r) auto
    then show ?thesis
    proof cases
      case 1
      then show ?thesis using Cons.prems(1) step(1) by simp
    next
      case (2 sr)
      then have "w1 = w" using generator_ok_failed [OF gen stub] by simp
      then have "agree S w0 (writeBack (rw_originalContents result) w1)"
        using writeBack_restores Cons.prems(2) S(1) by blast
      then show ?thesis using Cons.prems(1) step(2) [OF 2] by auto
    next
      case (3 sr)
      have "stubbed S w0 (set (fst (umap_emplace src (sb_originalContent sr) (rw_originalContents result)))) w1"
        using stubbed_stub [OF gen Cons.prems(2) mem, of funcName sr w1] stub 3 by (simp add: emplace_saves)
      then show ?thesis using Cons.IH Cons.prems(1) step(3) [OF 3] by auto
    qed
  qed
qed

lemma stubEach_returns:
  assumes "never_throws (sw_stubGen rw)"
  shows "\<exists>result'. fst (stubEach rw names result skipped w) = Inr result'"
proof (induction names arbitrary: result skipped w)
  case (Cons funcName names)
  define src where "src = findSourceFile (sw_sourceFiles rw) funcName w"
  obtain r w1 where stub: "sg_stubFunction (sw_stubGen rw) src funcName w = (r, w1)" by fastforce
  show ?case
  proof (cases "src = []")
    case True
    then show ?thesis using Cons by (simp add: src_def [symmetric])
  next
    case False
    note step = stubEach_cases [OF False [unfolded src_def] stub [unfolded src_def], folded src_def]
    have "r \<noteq> Inl ex" for ex using assms stub unfolding never_throws_def by (metis fst_conv)
    then obtain sr where sr: "r = Inr sr" by (cases r) auto
    then show ?thesis using step(2,3) Cons by (cases "sb_success sr") auto
  qed
qed simp

lemma stubFunctions_stubs:
  assumes "generator_ok (sw_stubGen rw)" "writable S w" "set (sw_sourceFiles rw) \<subseteq> S"
    and "stubFunctions rw names w = (Inr result, w1)"
  shows "stubbed S w (set (rw_originalContents result)) w1"
  using stubEach_stubs [OF assms(1-3), of names empty_rewrite 0 w result w1] assms(4)
  by (simp add: stubFunctions_def empty_rewrite_def)

lemma stubFunctions_failed:
  assumes "stubFunctions rw names w = (Inr result, w1)" "\<not> rw_success result"
  shows "rw_originalContents result = []"
proof -
  have "stubEach rw names r skipped w = (Inr result, w1) \<Longrightarrow> \<not> rw_success result \<Longrightarrow>
        rw_originalContents result = []" for r skipped
  proof (induction names arbitrary: r skipped w)
    case (Cons f names)
    then show ?case by (auto simp: Let_def split: if_splits prod.splits sum.splits)
  qed auto
  then show ?thesis using assms by (simp add: stubFunctions_def)
qed

section \<open>The guard\<close>

lemma restoring_agrees:
  assumes "\<And>w1. stubbed S w0 saved w1 \<Longrightarrow> agree S w0 (snd (undo w1))"
    and "stubbed S w0 saved w" "agree S w (snd (body w))"
  shows "agree S w0 (snd (restoring undo body w))"
proof -
  have "stubbed S w0 saved (snd (body w))" using stubbed_agree assms(2,3) by blast
  then have "agree S w0 (snd (undo (snd (body w))))" using assms(1) by blast
  then show ?thesis by (auto simp: restoring_def split: prod.splits sum.splits)
qed

text \<open>Stubbing under a rewriter, then anything that keeps the sources, then restoring.\<close>

lemma leaves_stubbing:
  assumes gen: "generator_ok (sw_stubGen rw)" "never_throws (sw_stubGen rw)" "set (sw_sourceFiles rw) \<subseteq> S"
    and f: "\<And>result w0 w. writable S w0 \<Longrightarrow> stubbed S w0 (set (rw_originalContents result)) w \<Longrightarrow>
              (rw_success result \<or> rw_originalContents result = []) \<Longrightarrow> agree S w0 (snd (f result w))"
  shows "leaves S (andThen (stubFunctions rw names) f)"
  unfolding leaves_def
proof (intro allI impI)
  fix w assume w: "writable S w"
  obtain result w1 where st: "stubFunctions rw names w = (Inr result, w1)"
    using stubEach_returns [OF gen(2), of names empty_rewrite 0 w] unfolding stubFunctions_def
    by (metis prod.collapse)
  have "agree S w (snd (f result w1))"
    by (rule f [OF w stubFunctions_stubs [OF gen(1) w gen(3) st]]) (use stubFunctions_failed [OF st] in blast)
  then show "agree S w (snd (andThen (stubFunctions rw names) f w))" using st by (simp add: andThen_simps)
qed

lemma agree_andThen:
  assumes "\<And>x w1. snd (f x w1) = w1" "agree S w0 (snd (m w))"
  shows "agree S w0 (snd (andThen m f w))"
  using assms by (auto simp: andThen_def split: prod.splits sum.splits)

lemma leaves_fun: "leaves S f \<Longrightarrow> writable S w \<Longrightarrow> agree S w (snd (f w))"
  by (simp add: leaves_def)

lemma agree_andThen_restoring:
  assumes "writable S w0" "stubbed S w0 (set (rw_originalContents result)) w" "leaves S body"
    and "\<And>x w1. snd (f x w1) = w1"
  shows "agree S w0 (snd (andThen (restoring (restore result) body) f w))"
proof (rule agree_andThen [OF assms(4)], rule restoring_agrees [OF _ assms(2)])
  show "agree S w0 (snd (restore result w1))" if "stubbed S w0 (set (rw_originalContents result)) w1" for w1
    using restore_restores(2) that assms(1) by blast
  have "writable S w" using assms(1,2) by (simp add: stubbed_def writable_def)
  then show "agree S w (snd (body w))" using assms(3) leaves_fun by blast
qed

lemma leaves_verifyStage [leaves_intros]:
  assumes gen: "generator_ok (sw_stubGen (po_rewriter po))" "never_throws (sw_stubGen (po_rewriter po))"
    "set (sw_sourceFiles (po_rewriter po)) \<subseteq> S" and run: "keeps_sources run S"
  shows "leaves S (verifyStage run po targetStage)"
  unfolding verifyStage_def Let_def
  by (rule leaves_if, rule leaves_return, rule leaves_stubbing [OF gen])
    (use leaves_runCommand [OF run] in \<open>auto intro!: agree_andThen_restoring\<close>)

lemma leaves_runBuildAndTest [leaves_intros]:
  "keeps_sources run S \<Longrightarrow> leaves S (runBuildAndTest run sc)"
  unfolding runBuildAndTest_def Let_def
  by (auto intro!: leaves_intros split: option.split)

lemma leaves_verifyFunction [leaves_intros]:
  assumes gen: "generator_ok (sw_stubGen (sc_rewriter sc))" "never_throws (sw_stubGen (sc_rewriter sc))"
    "set (sw_sourceFiles (sc_rewriter sc)) \<subseteq> S" and run: "keeps_sources run S"
  shows "leaves S (verifyFunction run sc qualifiedName)"
  unfolding verifyFunction_def Let_def
  by (rule leaves_stubbing [OF gen])
    (use leaves_runBuildAndTest [OF run] restore_restores(2) in \<open>auto intro!: agree_andThen_restoring\<close>)

section \<open>Peers and branches\<close>

lemma leaves_verifyPeer [leaves_intros]:
  assumes gen: "generator_ok (vo_stubGen vo)" and S: "set (vo_sourceFiles vo) \<subseteq> S" and run: "keeps_sources run S"
  shows "leaves S (verifyPeer run vo checked stubFunc result)"
  unfolding leaves_def
proof (intro allI impI)
  fix w assume w: "writable S w"
  define src where "src = findSourceFileForFunction vo stubFunc w"
  obtain r w1 where stub: "sg_stubFunction (vo_stubGen vo) src (afterLastSep stubFunc) w = (r, w1)" by fastforce
  show "agree S w (snd (verifyPeer run vo checked stubFunc result w))"
  proof (cases "src = []")
    case True
    then show ?thesis by (simp add: verifyPeer_def src_def [symmetric])
  next
    case False
    then have mem: "src \<in> S"
      using S findSourceFile_mem unfolding src_def findSourceFileForFunction_def by blast
    consider "\<And>x. r = Inr x \<Longrightarrow> \<not> sb_success x" | sr where "r = Inr sr" "sb_success sr" by blast
    then show ?thesis
    proof cases
      case 1
      then have "w1 = w" using generator_ok_failed [OF gen stub] by blast
      then show ?thesis using False stub 1
        by (cases r) (simp_all add: verifyPeer_def src_def [symmetric] Let_def andThen_simps)
    next
      case (2 sr)
      have st: "stubbed S w {(src, sb_originalContent sr)} w1"
        using stubbed_stub [OF gen, of S w "{}" w src] mem stub 2 by simp
      then have "writable S w1" using w by (simp add: stubbed_def writable_def)
      then have "agree S w1 (snd (orchestratedRun run vo w1))"
        using leaves_runCommand [OF run] leaves_fun unfolding orchestratedRun_def by blast
      moreover have "agree S w (snd (sg_restoreFile (vo_stubGen vo) src sr w2))"
        if "stubbed S w {(src, sb_originalContent sr)} w2" for w2
        using stubbed_write [of S w src _ "{}"] stubbed_writable w that
        by (simp add: generator_ok_restore [OF gen])
      ultimately have "agree S w (snd (restoring (sg_restoreFile (vo_stubGen vo) src sr) (orchestratedRun run vo) w1))"
        using restoring_agrees [OF _ st] by blast
      then show ?thesis using False stub 2
        by (auto simp: verifyPeer_def src_def [symmetric] Let_def andThen_simps intro!: agree_andThen)
    qed
  qed
qed

text \<open>The first stub recorded for a file is the one that counts.\<close>

definition savedBy :: "string list \<Rightarrow> (string \<times> StubResult) list \<Rightarrow> (string \<times> string) set" where
  "savedBy restored stubs = {(p, sb_originalContent r) | p r. p \<notin> set restored \<and> map_of stubs p = Some r}"

lemma savedBy_Nil [simp]: "savedBy restored [] = {}"
  by (simp add: savedBy_def)

lemma savedBy_Cons:
  "savedBy restored ((p, r) # stubs) =
     (if p \<in> set restored then savedBy restored stubs
      else insert (p, sb_originalContent r) (savedBy (p # restored) stubs))"
  by (auto simp: savedBy_def)

lemma savedBy_files: "fst ` savedBy [] stubs = fst ` set stubs"
proof -
  have "fst ` savedBy [] stubs = dom (map_of stubs)"
    by (force simp: savedBy_def)
  then show ?thesis by (simp add: dom_map_of_conv_image_fst)
qed

lemma savedBy_append:
  "savedBy [] (stubs @ [(p, r)]) =
     (if p \<in> fst ` savedBy [] stubs then savedBy [] stubs
      else insert (p, sb_originalContent r) (savedBy [] stubs))"
proof -
  have "(map_of (stubs @ [(p, r)]) q = Some x) \<longleftrightarrow>
        (map_of stubs q = Some x \<or> map_of stubs q = None \<and> q = p \<and> x = r)" for q x
    by (auto simp: map_add_def split: option.splits)
  then show ?thesis
    unfolding savedBy_files by (auto simp: savedBy_def map_of_eq_None_iff dest: weak_map_of_SomeI)
qed

lemma restoreAll_restores:
  assumes "generator_ok gen" "writable S w0"
  shows "stubbed S w0 (savedBy restored stubs) w \<Longrightarrow> agree S w0 (snd (restoreAll gen restored stubs w))"
proof (induction stubs arbitrary: restored w)
  case (Cons stub stubs)
  obtain sf sr where [simp]: "stub = (sf, sr)" by fastforce
  show ?case
  proof (cases "sf \<in> set restored")
    case True
    then show ?thesis using Cons by (simp add: savedBy_Cons)
  next
    case False
    have st: "stubbed S w0 (insert (sf, sb_originalContent sr) (savedBy (sf # restored) stubs)) w"
      using Cons.prems False by (simp add: savedBy_Cons)
    define w1 where "w1 = snd (writeFile sf (sb_originalContent sr) w)"
    have "stubbed S w0 (savedBy (sf # restored) stubs) w1"
      unfolding w1_def using stubbed_write [OF st stubbed_writable [OF st assms(2)]] .
    then show ?thesis
      using Cons.IH [of "sf # restored" w1] False
      by (simp add: generator_ok_restore [OF assms(1)] w1_def case_prod_beta)
  qed
qed simp

lemma stubBranch_cases:
  assumes "findSourceFileForFunction vo func w \<noteq> []"
    and "sg_stubFunction (vo_stubGen vo) (findSourceFileForFunction vo func w) (afterLastSep func) w = (r, w1)"
  shows "r = Inl ex \<Longrightarrow>
           stubBranch vo (func # funcs) stubs w = (Inl ex, snd (restoreAll (vo_stubGen vo) [] stubs w1))"
    and "r = Inr sr \<Longrightarrow> \<not> sb_success sr \<Longrightarrow>
           stubBranch vo (func # funcs) stubs w = (Inr None, snd (restoreAll (vo_stubGen vo) [] stubs w1))"
    and "r = Inr sr \<Longrightarrow> sb_success sr \<Longrightarrow>
           stubBranch vo (func # funcs) stubs w =
             stubBranch vo funcs (stubs @ [(findSourceFileForFunction vo func w, sr)]) w1"
  using assms by (simp_all add: Let_def)

lemma stubBranch_stubs:
  assumes gen: "generator_ok (vo_stubGen vo)" and S: "writable S w0" "set (vo_sourceFiles vo) \<subseteq> S"
  shows "stubBranch vo funcs stubs w = (r, w') \<Longrightarrow> stubbed S w0 (savedBy [] stubs) w \<Longrightarrow>
         (case r of Inr (Some stubs') \<Rightarrow> stubbed S w0 (savedBy [] stubs') w' | _ \<Rightarrow> agree S w0 w')"
proof (induction funcs arbitrary: stubs w)
  case (Cons func funcs)
  define src where "src = findSourceFileForFunction vo func w"
  obtain res w1 where stub: "sg_stubFunction (vo_stubGen vo) src (afterLastSep func) w = (res, w1)" by fastforce
  show ?case
  proof (cases "src = []")
    case True
    then show ?thesis using Cons by (simp add: src_def [symmetric])
  next
    case False
    then have mem: "src \<in> S"
      using S findSourceFile_mem unfolding src_def findSourceFileForFunction_def by blast
    note step = stubBranch_cases [OF False [unfolded src_def] stub [unfolded src_def], folded src_def]
    show ?thesis
    proof (cases "\<exists>sr. res = Inr sr \<and> sb_success sr")
      case True
      then obtain sr where sr: "res = Inr sr" "sb_success sr" by blast
      have "stubbed S w0 (savedBy [] (stubs @ [(src, sr)])) w1"
        using stubbed_stub [OF gen Cons.prems(2) mem] stub sr by (simp add: savedBy_append)
      then show ?thesis using Cons.IH Cons.prems(1) step(3) [OF sr] by simp
    next
      case False
      then have "w1 = w" using generator_ok_failed [OF gen stub] by blast
      then have "agree S w0 (snd (restoreAll (vo_stubGen vo) [] stubs w1))"
        using restoreAll_restores [OF gen S(1)] Cons.prems(2) by blast
      moreover have "w' = snd (restoreAll (vo_stubGen vo) [] stubs w1) \<and> (\<forall>x. r \<noteq> Inr (Some x))"
      proof (cases res)
        case (Inl ex)
        show ?thesis using Cons.prems(1) step(1) [OF Inl] by (auto simp del: stubBranch.simps)
      next
        case (Inr sr)
        then show ?thesis using Cons.prems(1) step(2) [OF Inr] False by (auto simp del: stubBranch.simps)
      qed
      ultimately show ?thesis by (auto split: sum.split option.split)
    qed
  qed
qed auto

lemma leaves_verifyBranch [leaves_intros]:
  assumes gen: "generator_ok (vo_stubGen vo)" and S: "set (vo_sourceFiles vo) \<subseteq> S" and run: "keeps_sources run S"
  shows "leaves S (verifyBranch run vo blockName edges branchRoot result)"
  unfolding leaves_def
proof (intro allI impI)
  fix w assume w: "writable S w"
  obtain r w1 where st: "stubBranch vo (branchFrom edges [branchRoot] []) [] w = (r, w1)" by fastforce
  note state = stubBranch_stubs [OF gen w S st, simplified]
  consider "\<And>stubs. r \<noteq> Inr (Some stubs)" | stubs where "r = Inr (Some stubs)" by blast
  then show "agree S w (snd (verifyBranch run vo blockName edges branchRoot result w))"
  proof cases
    case 1
    then have "agree S w w1" using state by (auto split: sum.splits option.splits)
    then show ?thesis using 1 st
      by (cases r) (auto simp: verifyBranch_def Let_def andThen_simps split: option.split)
  next
    case (2 stubs)
    then have stubs: "stubbed S w (savedBy [] stubs) w1" using state by simp
    then have "writable S w1" using w by (simp add: stubbed_def writable_def)
    then have "agree S w1 (snd (orchestratedRun run vo w1))"
      using leaves_runCommand [OF run] leaves_fun unfolding orchestratedRun_def by blast
    then have "agree S w (snd (restoring (restoreAll (vo_stubGen vo) [] stubs) (orchestratedRun run vo) w1))"
      using restoring_agrees [OF _ stubs] restoreAll_restores [OF gen w] by blast
    then show ?thesis using st 2
      by (auto simp: verifyBranch_def Let_def andThen_simps intro!: agree_andThen)
  qed
qed

lemma leaves_verifyAllStages:
  assumes "generator_ok (sw_stubGen (po_rewriter po))" "never_throws (sw_stubGen (po_rewriter po))"
    "set (sw_sourceFiles (po_rewriter po)) \<subseteq> S" "keeps_sources run S"
  shows "leaves S (verifyAllStages run po)"
proof -
  have "leaves S (eachDo (\<lambda>stage result.
           andThen (verifyStage run po stage) (\<lambda>stageResult w1. (Inr (countStage stageResult result), w1))) ns r)" for ns r
    by (intro leaves_intros assms)
  then show ?thesis by (simp add: leaves_def verifyAllStages_def Let_def)
qed

lemma leaves_verifyCandidates:
  assumes "generator_ok (sw_stubGen (sc_rewriter sc))" "never_throws (sw_stubGen (sc_rewriter sc))"
    "set (sw_sourceFiles (sc_rewriter sc)) \<subseteq> S" "keeps_sources run S"
  shows "leaves S (verifyCandidates run sc)"
  unfolding verifyCandidates_def by (intro leaves_intros assms)

lemma leaves_verifyEverything:
  assumes "generator_ok (vo_stubGen vo)" "set (vo_sourceFiles vo) \<subseteq> S" "keeps_sources run S"
  shows "leaves S (verifyEverything run vo)"
  unfolding verifyEverything_def verifyStageIsolation_def verifyPipelineIndependence_def
  by (intro leaves_intros assms)

section \<open>The sources after a verification\<close>


text \<open>A generator that puts a line in front of the file, and one that refuses a function.\<close>

definition sampleGenerator :: StubGenerator where
  "sampleGenerator =
     \<lparr>sg_stubFunction = (\<lambda>p f w.
        case w_files w p of
          Some c \<Rightarrow> if w_canWrite w p
            then (Inr \<lparr>sb_success = True, sb_originalContent = c, sb_error = []\<rparr>,
                  snd (writeFile p (''// stub '' @ f @ LF # c) w))
            else (Inr \<lparr>sb_success = False, sb_originalContent = [], sb_error = ''cannot write''\<rparr>, w)
        | None \<Rightarrow> (Inr \<lparr>sb_success = False, sb_originalContent = [], sb_error = ''cannot open''\<rparr>, w)),
      sg_restoreFile = (\<lambda>p r w. writeFile p (sb_originalContent r) w)\<rparr>"

lemma sampleGenerator_ok: "generator_ok sampleGenerator"
  by (auto simp: generator_ok_def stub_ok_def sampleGenerator_def writeFile_def split: option.split)

lemma sampleGenerator_returns: "never_throws sampleGenerator"
  by (auto simp: never_throws_def sampleGenerator_def split: option.split)

definition sampleTree :: World where
  "sampleTree = \<lparr>w_files = [''a.cpp'' \<mapsto> ''int lo() { return 1; }'', ''b.cpp'' \<mapsto> ''int hi() { return lo(); }''],
                 w_canWrite = (\<lambda>_. True)\<rparr>"

definition sampleStages :: StageAnalysisResult where
  "sampleStages = \<lparr>sr_calleeStageMap = [(''m::lo'', 0), (''m::hi'', 1)], sr_logicBlockFunctions = [''m::run'']\<rparr>"

definition sampleFiles :: "string list" where
  "sampleFiles = [''a.cpp'', ''b.cpp'']"

definition samplePruning :: PruningOrchestrator where
  "samplePruning = \<lparr>po_stageInfo = sampleStages,
                    po_rewriter = \<lparr>sw_stubGen = sampleGenerator, sw_sourceFiles = sampleFiles\<rparr>,
                    po_projectDir = ''.'', po_testCommand = ''ctest''\<rparr>"

definition sampleSymbols :: SymbolTable where
  "sampleSymbols = empty_table\<lparr>st_logicBlocks :=
     [(''m::run'', \<lparr>lb_qualifiedName = ''m::run'', lb_simpleName = ''run'', lb_location = default_loc,
        lb_calledFunctions = [''lo'', ''hi''], lb_stages = [0, 0], lb_isPipeline = False, lb_isFlow = False,
        lb_edges = [], lb_pipelineAnalysis = None\<rparr>)]\<rparr>"

definition sampleCheck :: StubVerificationCheck where
  "sampleCheck = \<lparr>sc_symbols = sampleSymbols, sc_stageInfo = sampleStages,
                  sc_rewriter = \<lparr>sw_stubGen = sampleGenerator, sw_sourceFiles = sampleFiles\<rparr>,
                  sc_projectDir = ''.'', sc_buildCommand = ''make'', sc_testCommand = ''ctest'', sc_filterPattern = []\<rparr>"

definition sampleOrchestrator :: VerificationOrchestrator where
  "sampleOrchestrator = \<lparr>vo_symbols = sampleSymbols, vo_stubGen = sampleGenerator, vo_projectDir = ''.'',
                         vo_testCommand = ''ctest'', vo_sourceFiles = sampleFiles\<rparr>"

text \<open>A command that throws, when it runs at all on a stubbed tree.\<close>

definition crashing :: process where
  "crashing exe args dir w = (Inl ''cannot start the process'', w)"

lemma crashing_keeps: "keeps_sources crashing S"
  by (simp add: keeps_sources_def crashing_def)


definition throwsOn :: "string \<Rightarrow> StubGenerator \<Rightarrow> StubGenerator" where
  "throwsOn name gen =
     gen\<lparr>sg_stubFunction := (\<lambda>p f w. if f = name then (Inl ''bad_alloc'', w) else sg_stubFunction gen p f w)\<rparr>"

text \<open>
  An exception of the second stub leaves the first in the working tree: the guard of the callers
  is created once \<open>stubFunctions\<close> has returned.
\<close>

lemma later_throw_leaves_stub:
  defines "rw \<equiv> \<lparr>sw_stubGen = throwsOn ''hi'' sampleGenerator, sw_sourceFiles = sampleFiles\<rparr>"
  shows "fst (stubFunctions rw [''lo'', ''hi''] sampleTree) = Inl ''bad_alloc''"
    and "w_files (snd (stubFunctions rw [''lo'', ''hi''] sampleTree)) ''a.cpp'' \<noteq> w_files sampleTree ''a.cpp''"
  by (simp_all add: rw_def stubFunctions_def empty_rewrite_def throwsOn_def sampleGenerator_def sampleFiles_def
      sampleTree_def findSourceFile_def fileContainsFunction_def find_str.simps writeFile_def getlines.simps
      is_prefix_def)

end
