(* ===== verification/Capability.thy ===== *)
theory Capability
  imports Analysis
begin

text \<open>
  The capability catalogue of the containment check (\<open>lib/Check/CapabilityCatalog.cpp\<close>,
  \<open>include/topo/Check/CapabilityCatalog.h\<close>): which imports and which API calls reach files, the
  network, processes, the loader or raw memory.  The tables are kept per language, in source order;
  on a repeated key the first entry counts.
\<close>

section \<open>Kinds and levels\<close>

datatype CapabilityKind = Cap_File | Cap_Network | Cap_Process | Cap_DynamicLoad | Cap_Memory

fun capabilityKindName :: "CapabilityKind \<Rightarrow> string" where
  "capabilityKindName Cap_File = ''file''"
| "capabilityKindName Cap_Network = ''network''"
| "capabilityKindName Cap_Process = ''process''"
| "capabilityKindName Cap_DynamicLoad = ''dynamic-load''"
| "capabilityKindName Cap_Memory = ''memory''"

datatype UnsafeLevel = UL_Safe | UL_System | UL_Dep | UL_Input | UL_Escape

fun unsafeLevelName :: "UnsafeLevel \<Rightarrow> string" where
  "unsafeLevelName UL_Safe = ''safe''"
| "unsafeLevelName UL_System = ''system''"
| "unsafeLevelName UL_Dep = ''dep''"
| "unsafeLevelName UL_Input = ''input''"
| "unsafeLevelName UL_Escape = ''escape''"

fun unsafeLevelValue :: "UnsafeLevel \<Rightarrow> int" where
  "unsafeLevelValue UL_Safe = 0"
| "unsafeLevelValue UL_System = 1"
| "unsafeLevelValue UL_Dep = 2"
| "unsafeLevelValue UL_Input = 3"
| "unsafeLevelValue UL_Escape = 4"

section \<open>The tables\<close>

definition importsCpp :: "(string \<times> CapabilityKind) list" where
  "importsCpp =
     [(''fstream'', Cap_File), (''cstdio'', Cap_File), (''filesystem'', Cap_File),
      (''iostream'', Cap_File), (''ostream'', Cap_File), (''istream'', Cap_File), (''sstream'', Cap_File),
      (''print'', Cap_File), (''fcntl.h'', Cap_File), (''sys/stat.h'', Cap_File), (''stdio.h'', Cap_File),
      (''unistd.h'', Cap_File), (''io.h'', Cap_File), (''sys/mman.h'', Cap_File),
      (''sys/sendfile.h'', Cap_File), (''aio.h'', Cap_File), (''sys/socket.h'', Cap_Network),
      (''netinet/in.h'', Cap_Network), (''netinet/tcp.h'', Cap_Network), (''arpa/inet.h'', Cap_Network),
      (''netdb.h'', Cap_Network), (''winsock2.h'', Cap_Network), (''ws2tcpip.h'', Cap_Network),
      (''sys/epoll.h'', Cap_Network), (''poll.h'', Cap_Network), (''net/if.h'', Cap_Network),
      (''cstdlib'', Cap_Process), (''spawn.h'', Cap_Process), (''sys/wait.h'', Cap_Process),
      (''windows.h'', Cap_Process), (''process.h'', Cap_Process), (''sys/ptrace.h'', Cap_Process),
      (''signal.h'', Cap_Process), (''thread'', Cap_Process), (''pthread.h'', Cap_Process),
      (''csetjmp'', Cap_Process), (''cstring'', Cap_Memory), (''string.h'', Cap_Memory),
      (''memory.h'', Cap_Memory), (''strings.h'', Cap_Memory), (''dlfcn.h'', Cap_DynamicLoad),
      (''ltdl.h'', Cap_DynamicLoad), (''libloaderapi.h'', Cap_DynamicLoad)]"

definition importsJava :: "(string \<times> CapabilityKind) list" where
  "importsJava =
     [(''java.lang.ProcessBuilder'', Cap_Process), (''java.lang.Runtime'', Cap_Process),
      (''java.lang.ClassLoader'', Cap_DynamicLoad)]"

definition importsPython :: "(string \<times> CapabilityKind) list" where
  "importsPython =
     [(''os'', Cap_File), (''io'', Cap_File), (''pathlib'', Cap_File), (''shutil'', Cap_File),
      (''pickle'', Cap_File), (''tempfile'', Cap_File), (''glob'', Cap_File), (''fnmatch'', Cap_File),
      (''socket'', Cap_Network), (''http'', Cap_Network), (''urllib'', Cap_Network),
      (''requests'', Cap_Network), (''ftplib'', Cap_Network), (''smtplib'', Cap_Network),
      (''ssl'', Cap_Network), (''xmlrpc'', Cap_Network), (''subprocess'', Cap_Process),
      (''multiprocessing'', Cap_Process), (''importlib'', Cap_DynamicLoad), (''ctypes'', Cap_DynamicLoad)]"

definition importsRust :: "(string \<times> CapabilityKind) list" where
  "importsRust =
     [(''std::fs'', Cap_File), (''std::io'', Cap_File), (''std::net'', Cap_Network),
      (''hyper'', Cap_Network), (''std::process'', Cap_Process), (''libloading'', Cap_DynamicLoad),
      (''dlopen'', Cap_DynamicLoad), (''tokio'', Cap_File), (''tokio::fs'', Cap_File),
      (''tokio::net'', Cap_Network), (''tokio::process'', Cap_Process), (''async-std'', Cap_File),
      (''smol'', Cap_File)]"

definition importCatalog :: "(string \<times> CapabilityKind) list" where
  "importCatalog = importsCpp @ importsJava @ importsPython @ importsRust"

definition apisCpp :: "(string \<times> CapabilityKind) list" where
  "apisCpp =
     [(''fopen'', Cap_File), (''fclose'', Cap_File), (''fread'', Cap_File), (''fwrite'', Cap_File),
      (''open'', Cap_File), (''close'', Cap_File), (''read'', Cap_File), (''write'', Cap_File),
      (''mmap'', Cap_File), (''munmap'', Cap_File), (''freopen'', Cap_File), (''tmpfile'', Cap_File),
      (''mkstemp'', Cap_File), (''sendfile'', Cap_File), (''aio_read'', Cap_File),
      (''aio_write'', Cap_File), (''printf'', Cap_File), (''fprintf'', Cap_File), (''puts'', Cap_File),
      (''fputs'', Cap_File), (''sprintf'', Cap_File), (''snprintf'', Cap_File), (''vprintf'', Cap_File),
      (''vfprintf'', Cap_File), (''vsnprintf'', Cap_File), (''putchar'', Cap_File), (''putc'', Cap_File),
      (''fputc'', Cap_File), (''perror'', Cap_File), (''socket'', Cap_Network), (''connect'', Cap_Network),
      (''bind'', Cap_Network), (''listen'', Cap_Network), (''accept'', Cap_Network),
      (''send'', Cap_Network), (''recv'', Cap_Network), (''sendto'', Cap_Network),
      (''recvfrom'', Cap_Network), (''getaddrinfo'', Cap_Network), (''gethostbyname'', Cap_Network),
      (''epoll_create'', Cap_Network), (''epoll_ctl'', Cap_Network), (''epoll_wait'', Cap_Network),
      (''poll'', Cap_Network), (''select'', Cap_Network), (''system'', Cap_Process),
      (''fork'', Cap_Process), (''popen'', Cap_Process), (''posix_spawn'', Cap_Process),
      (''execve'', Cap_Process), (''execvp'', Cap_Process), (''waitpid'', Cap_Process),
      (''kill'', Cap_Process), (''signal'', Cap_Process), (''ptrace'', Cap_Process),
      (''CreateProcess'', Cap_Process), (''_spawnl'', Cap_Process), (''dlopen'', Cap_DynamicLoad),
      (''dlsym'', Cap_DynamicLoad), (''dlclose'', Cap_DynamicLoad), (''LoadLibrary'', Cap_DynamicLoad),
      (''GetProcAddress'', Cap_DynamicLoad), (''lseek'', Cap_File), (''pread'', Cap_File),
      (''pwrite'', Cap_File), (''dup'', Cap_File), (''dup2'', Cap_File), (''unlink'', Cap_File),
      (''remove'', Cap_File), (''rename'', Cap_File), (''chmod'', Cap_File), (''truncate'', Cap_File),
      (''sendmsg'', Cap_Network), (''recvmsg'', Cap_Network), (''socketpair'', Cap_Network),
      (''pipe'', Cap_Process), (''mkfifo'', Cap_Process), (''wait'', Cap_Process),
      (''pthread_create'', Cap_Process), (''thrd_create'', Cap_Process), (''malloc'', Cap_Memory),
      (''calloc'', Cap_Memory), (''realloc'', Cap_Memory), (''reallocarray'', Cap_Memory),
      (''free'', Cap_Memory), (''aligned_alloc'', Cap_Memory), (''posix_memalign'', Cap_Memory),
      (''valloc'', Cap_Memory), (''pvalloc'', Cap_Memory), (''memalign'', Cap_Memory),
      (''memcpy'', Cap_Memory), (''memmove'', Cap_Memory), (''memset'', Cap_Memory),
      (''memchr'', Cap_Memory), (''memcmp'', Cap_Memory), (''bcopy'', Cap_Memory), (''bzero'', Cap_Memory),
      (''bcmp'', Cap_Memory), (''strcpy'', Cap_Memory), (''strncpy'', Cap_Memory),
      (''strcat'', Cap_Memory), (''strncat'', Cap_Memory), (''strdup'', Cap_Memory),
      (''strndup'', Cap_Memory), (''construct_at'', Cap_Memory), (''destroy_at'', Cap_Memory),
      (''start_lifetime_as'', Cap_Memory), (''start_lifetime_as_array'', Cap_Memory)]"

definition apisJava :: "(string \<times> CapabilityKind) list" where
  "apisJava =
     [(''FileInputStream'', Cap_File), (''FileOutputStream'', Cap_File), (''FileReader'', Cap_File),
      (''FileWriter'', Cap_File), (''RandomAccessFile'', Cap_File), (''Files.read'', Cap_File),
      (''Files.write'', Cap_File), (''Files.copy'', Cap_File), (''Files.move'', Cap_File),
      (''Files.delete'', Cap_File), (''Files.createDirectory'', Cap_File),
      (''Files.createDirectories'', Cap_File), (''Files.newBufferedWriter'', Cap_File),
      (''Files.newBufferedReader'', Cap_File), (''Files.newInputStream'', Cap_File),
      (''Files.newOutputStream'', Cap_File), (''System.out.println'', Cap_File),
      (''System.out.print'', Cap_File), (''System.out.printf'', Cap_File),
      (''System.err.println'', Cap_File), (''System.err.print'', Cap_File),
      (''PrintStream.println'', Cap_File), (''PrintStream.print'', Cap_File),
      (''PrintStream.printf'', Cap_File), (''PrintWriter.println'', Cap_File),
      (''PrintWriter.print'', Cap_File), (''PrintWriter.printf'', Cap_File), (''Socket'', Cap_Network),
      (''ServerSocket'', Cap_Network), (''DatagramSocket'', Cap_Network), (''URLConnection'', Cap_Network),
      (''HttpURLConnection'', Cap_Network), (''ProcessBuilder'', Cap_Process),
      (''Runtime.exec'', Cap_Process), (''Class.forName'', Cap_DynamicLoad),
      (''ClassLoader.loadClass'', Cap_DynamicLoad)]"

definition apisPython :: "(string \<times> CapabilityKind) list" where
  "apisPython =
     [(''os.open'', Cap_File), (''os.read'', Cap_File), (''os.write'', Cap_File),
      (''pathlib.Path'', Cap_File), (''socket.socket'', Cap_Network), (''urlopen'', Cap_Network),
      (''requests.get'', Cap_Network), (''requests.post'', Cap_Network), (''subprocess.run'', Cap_Process),
      (''subprocess.Popen'', Cap_Process), (''subprocess.call'', Cap_Process),
      (''os.system'', Cap_Process), (''os.popen'', Cap_Process), (''os.fork'', Cap_Process),
      (''os.exec'', Cap_Process), (''os.execvp'', Cap_Process),
      (''importlib.import_module'', Cap_DynamicLoad), (''ctypes.cdll'', Cap_DynamicLoad),
      (''ctypes.CDLL'', Cap_DynamicLoad)]"

definition apisRust :: "(string \<times> CapabilityKind) list" where
  "apisRust =
     [(''File::open'', Cap_File), (''File::create'', Cap_File), (''fs::read'', Cap_File),
      (''fs::write'', Cap_File), (''fs::read_to_string'', Cap_File), (''println'', Cap_File),
      (''eprintln'', Cap_File), (''print'', Cap_File), (''eprint'', Cap_File), (''write!'', Cap_File),
      (''writeln!'', Cap_File), (''BufWriter::new'', Cap_File), (''BufReader::new'', Cap_File),
      (''tokio::fs::read'', Cap_File), (''tokio::fs::write'', Cap_File),
      (''tokio::fs::remove_file'', Cap_File), (''tokio::fs::create_dir'', Cap_File),
      (''tokio::fs::copy'', Cap_File), (''tokio::fs::rename'', Cap_File),
      (''tokio::fs::read_to_string'', Cap_File), (''TcpListener::bind'', Cap_Network),
      (''TcpStream::connect'', Cap_Network), (''UdpSocket::bind'', Cap_Network),
      (''tokio::net::TcpListener::bind'', Cap_Network), (''tokio::net::TcpStream::connect'', Cap_Network),
      (''tokio::net::UdpSocket::bind'', Cap_Network), (''Command::new'', Cap_Process),
      (''Command::spawn'', Cap_Process), (''Library::new'', Cap_DynamicLoad)]"

definition apiCatalog :: "(string \<times> CapabilityKind) list" where
  "apiCatalog = apisCpp @ apisJava @ apisPython @ apisRust"

section \<open>Classification\<close>

definition startsAny :: "string list \<Rightarrow> string \<Rightarrow> bool" where
  "startsAny ps path = list_ex (\<lambda>p. is_prefix p path) ps"

definition classifyImport :: "string \<Rightarrow> CapabilityKind option" where
  "classifyImport path =
     (case map_of importCatalog path of
        Some k \<Rightarrow> Some k
      | None \<Rightarrow>
          if startsAny [''netinet/'', ''arpa/''] path then Some Cap_Network
          else if startsAny [''curl/'', ''boost/asio''] path then Some Cap_Network
          else if startsAny [''java.io.'', ''java.nio.''] path \<or> path = ''java.io'' \<or> path = ''java.nio''
            then Some Cap_File
          else if startsAny [''java.net.'', ''javax.net.''] path \<or> path = ''java.net'' \<or> path = ''javax.net''
            then Some Cap_Network
          else if is_prefix ''java.lang.reflect.'' path \<or> path = ''java.lang.reflect'' then Some Cap_DynamicLoad
          else if is_prefix ''tokio::fs'' path then Some Cap_File
          else if is_prefix ''tokio::net'' path then Some Cap_Network
          else if is_prefix ''tokio::process'' path then Some Cap_Process
          else if startsAny [''async_std::fs'', ''async_std::io''] path then Some Cap_File
          else if is_prefix ''async_std::net'' path then Some Cap_Network
          else if is_prefix ''async_std::process'' path then Some Cap_Process
          else None)"

definition classifyApiCall :: "string \<Rightarrow> CapabilityKind option" where
  "classifyApiCall funcName =
     (case map_of apiCatalog funcName of
        Some k \<Rightarrow> Some k
      | None \<Rightarrow>
          if length funcName \<ge> 4 \<and> substr funcName 0 4 = ''exec'' then Some Cap_Process
          else if funcName \<in> {''std::ifstream'', ''std::ofstream'', ''std::fstream''} then Some Cap_File
          else None)"

end
