(* ===== verification/Checks.thy ===== *)
theory Checks
  imports Capability
begin

text \<open>
  The checks that compare the declarations with what was extracted from the host code
  (\<open>include/topo/Check/CheckTypes.h\<close>, \<open>lib/Check/StageIsolationCheck.cpp\<close>, \<open>VisibilityCheck.cpp\<close>,
  \<open>PurityCheck.cpp\<close>, \<open>ContainmentCheck.cpp\<close>, \<open>CompletenessCheck.cpp\<close>).  The extractors are
  plug-ins; a check takes the lists they return.
\<close>

section \<open>Results\<close>

datatype Severity = Sev_Error | Sev_Warning | Sev_Note

record CheckDiagnostic =
  cd_severity :: Severity
  cd_check :: string
  cd_message :: string
  cd_file :: string
  cd_line :: int
  cd_column :: int

definition kMaxCheckDiagnostics :: nat where
  "kMaxCheckDiagnostics = 1000"

record CheckResult =
  cr_diagnostics :: "CheckDiagnostic list"
  cr_errorCount :: int
  cr_warningCount :: int
  cr_truncated :: bool

definition empty_result :: CheckResult where
  "empty_result = \<lparr>cr_diagnostics = [], cr_errorCount = 0, cr_warningCount = 0, cr_truncated = False\<rparr>"

definition countSeverity :: "Severity \<Rightarrow> CheckResult \<Rightarrow> CheckResult" where
  "countSeverity sev r =
     (if sev = Sev_Error then r\<lparr>cr_errorCount := cr_errorCount r + 1\<rparr>
      else if sev = Sev_Warning then r\<lparr>cr_warningCount := cr_warningCount r + 1\<rparr>
      else r)"

definition addDiagnostic :: "CheckDiagnostic \<Rightarrow> CheckResult \<Rightarrow> CheckResult" where
  "addDiagnostic diag r =
     (let counted = countSeverity (cd_severity diag) r in
      if length (cr_diagnostics counted) \<ge> kMaxCheckDiagnostics then counted\<lparr>cr_truncated := True\<rparr>
      else counted\<lparr>cr_diagnostics := cr_diagnostics counted @ [diag]\<rparr>)"

definition passed :: "CheckResult \<Rightarrow> bool" where
  "passed r \<longleftrightarrow> cr_errorCount r = 0"

text \<open>Three checks push the diagnostic and bump the counter themselves, past the bound.\<close>

definition pushDiagnostic :: "CheckDiagnostic \<Rightarrow> CheckResult \<Rightarrow> CheckResult" where
  "pushDiagnostic diag r =
     (let pushed = r\<lparr>cr_diagnostics := cr_diagnostics r @ [diag]\<rparr> in countSeverity (cd_severity diag) pushed)"

definition checkDiag :: "Severity \<Rightarrow> string \<Rightarrow> string \<Rightarrow> string \<Rightarrow> int \<Rightarrow> CheckDiagnostic" where
  "checkDiag sev check message path line =
     \<lparr>cd_severity = sev, cd_check = check, cd_message = message, cd_file = path, cd_line = line, cd_column = 0\<rparr>"

section \<open>What the extractors return\<close>

record CallEdge =
  ce_caller :: string
  ce_callee :: string
  ce_file :: string
  ce_line :: int

record SymbolAccess =
  sa_function :: string
  sa_symbol :: string
  sa_isWrite :: bool
  sa_file :: string
  sa_line :: int

record HostImport =
  hi_normalizedPath :: string
  hi_file :: string
  hi_line :: int
  hi_unsafeLevel :: UnsafeLevel

record DetectedCallSite =
  dc_callerQualifiedName :: string
  dc_calleePattern :: string
  dc_capability :: "CapabilityKind option"
  dc_unsafeLevel :: UnsafeLevel
  dc_file :: string
  dc_line :: int

datatype HostSymbolKind =
  HS_Function | HS_Method | HS_Constructor | HS_Destructor | HS_StaticMethod | HS_Class | HS_Struct | HS_Enum |
  HS_Interface | HS_TypeAlias | HS_Variable | HS_Namespace

record HostSymbol =
  hs_qualifiedName :: string
  hs_simpleName :: string
  hs_kind :: HostSymbolKind
  hs_file :: string
  hs_line :: int
  hs_returnType :: string
  hs_paramTypes :: "string list"
  hs_isConst :: bool
  hs_isStatic :: bool
  hs_hostVisibility :: "Visibility option"
  hs_enclosingClass :: string

text \<open>The extractor of a language, a plug-in on one file, over a list of files.\<close>

definition extractAll :: "(string \<Rightarrow> 'a list) \<Rightarrow> string list \<Rightarrow> 'a list" where
  "extractAll extract sourceFiles = fold (\<lambda>f result. result @ extract f) sourceFiles []"

section \<open>Stage isolation\<close>

definition stageAt :: "LogicBlockEntry \<Rightarrow> nat \<Rightarrow> int" where
  "stageAt block i = (if i < length (lb_stages block) then lb_stages block ! i else 0)"

definition calleeStages :: "SymbolTable \<Rightarrow> int umap" where
  "calleeStages symbols =
     fold (\<lambda>(_, block) m.
       fold (\<lambda>i m. AList.update (lb_calledFunctions block ! i) (stageAt block i) m)
         [0..<length (lb_calledFunctions block)] m)
       (st_logicBlocks symbols) []"

definition hostCallGraph :: "CallEdge list \<Rightarrow> string list umap" where
  "hostCallGraph callEdges =
     fold (\<lambda>e g. AList.update (ce_caller e)
       (List.insert (ce_callee e) (case map_of g (ce_caller e) of Some cs \<Rightarrow> cs | None \<Rightarrow> [])) g) callEdges []"

definition stageDiag :: "CallEdge list \<Rightarrow> string \<Rightarrow> int \<Rightarrow> string \<Rightarrow> int \<Rightarrow> CheckDiagnostic" where
  "stageDiag callEdges callee stage target targetStage =
     (let message = ''function '' @ quoted callee @ '' at stage '' @ int_to_string stage @ '' calls '' @
                    quoted target @ '' which belongs to later stage '' @ int_to_string targetStage
      in case find (\<lambda>e. ce_caller e = callee \<and> ce_callee e = target) callEdges of
           Some e \<Rightarrow> checkDiag Sev_Error ''stage-isolation'' message (ce_file e) (ce_line e)
         | None \<Rightarrow> checkDiag Sev_Error ''stage-isolation'' message [] 0)"

definition checkTarget ::
  "CallEdge list \<Rightarrow> int umap \<Rightarrow> string \<Rightarrow> int \<Rightarrow> string \<Rightarrow> CheckResult \<Rightarrow> CheckResult" where
  "checkTarget callEdges stages callee stage target result =
     (case map_of stages target of
        None \<Rightarrow> result
      | Some targetStage \<Rightarrow>
          if targetStage > stage then pushDiagnostic (stageDiag callEdges callee stage target targetStage) result
          else result)"

definition checkCallee ::
  "CallEdge list \<Rightarrow> int umap \<Rightarrow> LogicBlockEntry \<Rightarrow> nat \<Rightarrow> CheckResult \<Rightarrow> CheckResult" where
  "checkCallee callEdges stages block i r =
     (let callee = lb_calledFunctions block ! i in
      case map_of (hostCallGraph callEdges) callee of
        None \<Rightarrow> r
      | Some targets \<Rightarrow> fold (checkTarget callEdges stages callee (stageAt block i)) targets r)"

definition checkBlock :: "CallEdge list \<Rightarrow> int umap \<Rightarrow> string \<times> LogicBlockEntry \<Rightarrow> CheckResult \<Rightarrow> CheckResult" where
  "checkBlock callEdges stages entry r =
     (case entry of (_, block) \<Rightarrow>
      fold (checkCallee callEdges stages block) [0..<length (lb_calledFunctions block)] r)"

definition checkStageIsolation :: "SymbolTable \<Rightarrow> CallEdge list \<Rightarrow> CheckResult \<Rightarrow> CheckResult" where
  "checkStageIsolation symbols callEdges result =
     (let stages = calleeStages symbols in
      if stages = [] then result
      else fold (checkBlock callEdges stages) (st_logicBlocks symbols) result)"

section \<open>Visibility\<close>

definition getNamespace :: "string \<Rightarrow> string" where
  "getNamespace qualifiedName =
     (case rfind_str ''::'' qualifiedName of None \<Rightarrow> [] | Some p \<Rightarrow> substr qualifiedName 0 p)"

definition visibilityMap :: "VisibilityEntry list \<Rightarrow> Visibility umap" where
  "visibilityMap visEntries =
     fold (\<lambda>e m. AList.update (ve_qualifiedName e) (ve_visibility e) m) visEntries []"

definition checkEdge :: "SymbolTable \<Rightarrow> Visibility umap \<Rightarrow> CallEdge \<Rightarrow> CheckResult \<Rightarrow> CheckResult" where
  "checkEdge symbols visMap e result =
     (case map_of visMap (ce_callee e) of
        None \<Rightarrow> result
      | Some vis \<Rightarrow>
          if vis = Vis_Private then
            (if getNamespace (ce_caller e) \<noteq> getNamespace (ce_callee e)
             then pushDiagnostic (checkDiag Sev_Error ''visibility''
                    (''private function '' @ quoted (ce_callee e) @ '' called from outside its namespace by '' @
                     quoted (ce_caller e)) (ce_file e) (ce_line e)) result
             else result)
          else if vis = Vis_Internal then
            (if findFunction (ce_caller e) symbols = None
             then pushDiagnostic (checkDiag Sev_Error ''visibility''
                    (''internal function '' @ quoted (ce_callee e) @ '' called from external function '' @
                     quoted (ce_caller e)) (ce_file e) (ce_line e)) result
             else result)
          else result)"

definition checkVisibilityConsistency ::
  "SymbolTable \<Rightarrow> VisibilityEntry list \<Rightarrow> CallEdge list \<Rightarrow> CheckResult \<Rightarrow> CheckResult" where
  "checkVisibilityConsistency symbols visEntries callEdges result =
     fold (checkEdge symbols (visibilityMap visEntries)) callEdges result"

section \<open>Purity\<close>

definition parallelFunctions :: "SymbolTable \<Rightarrow> string list" where
  "parallelFunctions symbols =
     fold (\<lambda>(_, block) fs.
       fold (\<lambda>i fs. if count_list (lb_stages block) (stageAt block i) > 1
                     then List.insert (lb_calledFunctions block ! i) fs else fs)
         [0..<length (lb_calledFunctions block)] fs)
       (st_logicBlocks symbols) []"

definition externalCallee :: "SymbolTable \<Rightarrow> string \<Rightarrow> bool" where
  "externalCallee symbols callee \<longleftrightarrow>
     (case findFunction callee symbols of
        Some fn \<Rightarrow> fs_isExternal fn
      | None \<Rightarrow> list_ex (\<lambda>(_, fn). fs_simpleName fn = callee \<and> fs_isExternal fn) (st_functions symbols)) \<or>
     externalTypeForMember callee symbols \<noteq> None"

definition boundaryNote :: CheckDiagnostic where
  "boundaryNote = checkDiag Sev_Note ''purity''
     (''parallel-stage purity verified at direct-global-access depth only '' @ em_dash @
      '' transitive purity (state mutated via called helper functions) and operation commutativity '' @
      ''are NOT verified; a passing check is not a proof of full parallel safety'') [] 0"

definition accessDiag :: "SymbolAccess \<Rightarrow> CheckDiagnostic" where
  "accessDiag access =
     (if sa_isWrite access
      then checkDiag Sev_Error ''purity''
             (''function '' @ quoted (sa_function access) @ '' in parallel stage writes to global symbol '' @
              quoted (sa_symbol access) @ '' '' @ em_dash @
              '' parallel stages must be pure (data dependencies only through parameters)'')
             (sa_file access) (sa_line access)
      else checkDiag Sev_Warning ''purity''
             (''function '' @ quoted (sa_function access) @ '' in parallel stage reads global symbol '' @
              quoted (sa_symbol access) @ '' '' @ em_dash @ '' consider passing as parameter'')
             (sa_file access) (sa_line access))"

definition checkPurity :: "SymbolTable \<Rightarrow> SymbolAccess list \<Rightarrow> CheckResult \<Rightarrow> CheckResult" where
  "checkPurity symbols accesses result =
     (let parallel = parallelFunctions symbols; simple = map afterLastSep parallel in
      if parallel = [] then result
      else
        let flagged = fold (\<lambda>callee r.
              if externalCallee symbols callee
              then addDiagnostic (checkDiag Sev_Error ''purity''
                     (''external function '' @ quoted callee @
                      '' in a parallel stage has unverified effects; external is not a purity contract'') [] 0) r
              else r) parallel result
        in fold (\<lambda>access r.
             if sa_function access \<notin> set parallel \<and> afterLastSep (sa_function access) \<notin> set simple then r
             else pushDiagnostic (accessDiag access) r)
             accesses (pushDiagnostic boundaryNote flagged))"

section \<open>Containment\<close>

datatype FeatureMode = FM_Off | FM_Auto | FM_Force

definition parseFeatureMode :: "string \<Rightarrow> FeatureMode" where
  "parseFeatureMode s =
     (if s = ''auto'' then FM_Auto else if s = ''force'' then FM_Force else if s = ''off'' then FM_Off else FM_Off)"

record ContainmentConfig =
  cc_mode :: FeatureMode
  cc_strictIdentity :: bool

definition externalQualifiedNames :: "SymbolTable \<Rightarrow> string list" where
  "externalQualifiedNames symbols =
     map (\<lambda>(_, fn). fs_qualifiedName fn) (filter (\<lambda>(_, fn). fs_isExternal fn) (st_functions symbols))"

definition externalSimpleNames :: "SymbolTable \<Rightarrow> ContainmentConfig \<Rightarrow> string list" where
  "externalSimpleNames symbols config =
     map (\<lambda>(_, fn). fs_simpleName fn)
       (filter (\<lambda>(_, fn). fs_isExternal fn \<and> \<not> cc_strictIdentity config \<and> fs_externalOwner fn = [])
         (st_functions symbols))"

definition hasNonExternalWithSimpleName :: "SymbolTable \<Rightarrow> string \<Rightarrow> bool" where
  "hasNonExternalWithSimpleName symbols simpleName \<longleftrightarrow>
     list_ex (\<lambda>(_, fn). fs_simpleName fn = simpleName \<and> \<not> fs_isExternal fn) (st_functions symbols)"

text \<open>Every separator, scanned left to right, becomes \<open>::\<close>; the scan goes on behind it.\<close>

function (sequential) respell :: "string \<Rightarrow> string \<Rightarrow> string" where
  "respell sep [] = []"
| "respell sep (c # cs) =
     (if sep \<noteq> [] \<and> is_prefix sep (c # cs) then ''::'' @ respell sep (drop (length sep) (c # cs))
      else c # respell sep cs)"
  by pat_completeness auto
termination by (relation "measure (\<lambda>(sep, s). length s)") auto

definition hasExternalType :: "SymbolTable \<Rightarrow> string \<Rightarrow> string \<Rightarrow> bool" where
  "hasExternalType symbols separator name \<longleftrightarrow>
     externalTypeForMember (if separator \<noteq> ''::'' \<and> separator \<noteq> [] then respell separator name else name) symbols
       \<noteq> None"

definition isExternalCaller :: "SymbolTable \<Rightarrow> ContainmentConfig \<Rightarrow> string \<Rightarrow> string \<Rightarrow> bool" where
  "isExternalCaller symbols config separator callerQN \<longleftrightarrow>
     (if callerQN \<in> set (externalQualifiedNames symbols) \<or> hasExternalType symbols separator callerQN then True
      else
        let simpleName =
              (if separator = [] then callerQN
               else case rfind_str separator callerQN of
                      Some p \<Rightarrow> substr_from callerQN (p + length separator) | None \<Rightarrow> callerQN)
        in simpleName \<in> set (externalSimpleNames symbols config) \<and>
           \<not> hasNonExternalWithSimpleName symbols simpleName)"

definition isExternalCallee :: "SymbolTable \<Rightarrow> ContainmentConfig \<Rightarrow> string \<Rightarrow> string \<Rightarrow> bool" where
  "isExternalCallee symbols config separator calleePattern \<longleftrightarrow>
     (if calleePattern \<in> set (externalQualifiedNames symbols) \<or> hasExternalType symbols separator calleePattern
      then True
      else calleePattern \<in> set (externalSimpleNames symbols config) \<and>
           \<not> hasNonExternalWithSimpleName symbols calleePattern)"

definition filesWithExternal ::
  "SymbolTable \<Rightarrow> DetectedCallSite list \<Rightarrow> ContainmentConfig \<Rightarrow> string \<Rightarrow> string list" where
  "filesWithExternal symbols callSites config separator =
     map (\<lambda>(_, fn). loc_file (fs_location fn))
       (filter (\<lambda>(_, fn). fs_isExternal fn \<and> loc_file (fs_location fn) \<noteq> []) (st_functions symbols)) @
     map dc_file (filter (\<lambda>site. isExternalCaller symbols config separator (dc_callerQualifiedName site)) callSites)"

definition importsByFile :: "HostImport list \<Rightarrow> HostImport list umap" where
  "importsByFile imports =
     fold (\<lambda>imp m. AList.update (hi_file imp)
       ((case map_of m (hi_file imp) of Some is \<Rightarrow> is | None \<Rightarrow> []) @ [imp]) m) imports []"

definition restrictedImport :: "HostImport \<Rightarrow> bool" where
  "restrictedImport imp \<longleftrightarrow> classifyImport (hi_normalizedPath imp) \<noteq> None \<or> hi_unsafeLevel imp \<noteq> UL_Safe"

definition shortFileOf :: "string \<Rightarrow> string" where
  "shortFileOf path = (case rfind_str ''/'' path of Some p \<Rightarrow> substr_from path (p + 1) | None \<Rightarrow> path)"

definition kindText :: "CapabilityKind option \<Rightarrow> UnsafeLevel \<Rightarrow> string" where
  "kindText capability level =
     (case capability of Some k \<Rightarrow> capabilityKindName k | None \<Rightarrow> unsafeLevelName level)"

definition importDiag :: "Severity \<Rightarrow> string \<Rightarrow> HostImport \<Rightarrow> CheckDiagnostic" where
  "importDiag sev path imp =
     checkDiag sev ''containment''
       (quoted (shortFileOf path) @ '' includes <'' @ hi_normalizedPath imp @ ''> ('' @
        kindText (classifyImport (hi_normalizedPath imp)) (hi_unsafeLevel imp) @
        '') but has no external function'') path (hi_line imp)"

definition callSiteDiag :: "Severity \<Rightarrow> DetectedCallSite \<Rightarrow> CheckDiagnostic" where
  "callSiteDiag sev site =
     checkDiag sev ''containment''
       (''non-external function '' @ quoted (dc_callerQualifiedName site) @ '' uses '' @
        quoted (dc_calleePattern site) @ '' ('' @ kindText (dc_capability site) (dc_unsafeLevel site) @
        '', level '' @ int_to_string (unsafeLevelValue (dc_unsafeLevel site)) @ '') at '' @ dc_file site @ '':'' @
        int_to_string (dc_line site)) (dc_file site) (dc_line site)"

definition violatesContainment ::
  "SymbolTable \<Rightarrow> ContainmentConfig \<Rightarrow> string \<Rightarrow> DetectedCallSite \<Rightarrow> bool" where
  "violatesContainment symbols config separator site \<longleftrightarrow>
     \<not> (dc_unsafeLevel site = UL_Safe) \<and>
     \<not> isExternalCaller symbols config separator (dc_callerQualifiedName site) \<and>
     \<not> isExternalCallee symbols config separator (dc_calleePattern site)"

definition checkFileImports ::
  "Severity \<Rightarrow> string list \<Rightarrow> string \<times> HostImport list \<Rightarrow> CheckResult \<Rightarrow> CheckResult" where
  "checkFileImports sev declaredIn entry r =
     (case entry of (path, fileImports) \<Rightarrow>
      if \<not> list_ex restrictedImport fileImports \<or> path \<in> set declaredIn then r
      else fold (\<lambda>imp r. if restrictedImport imp then addDiagnostic (importDiag sev path imp) r else r)
             fileImports r)"

definition checkContainment ::
  "SymbolTable \<Rightarrow> HostImport list \<Rightarrow> DetectedCallSite list \<Rightarrow> ContainmentConfig \<Rightarrow> string \<Rightarrow> CheckResult \<Rightarrow>
   CheckResult" where
  "checkContainment symbols imports callSites config separator result =
     (if cc_mode config = FM_Off then result
      else
        let sev = (if cc_mode config = FM_Force then Sev_Error else Sev_Warning);
            declaredIn = filesWithExternal symbols callSites config separator;
            checked = fold (checkFileImports sev declaredIn) (importsByFile imports) result
        in fold (\<lambda>site r.
             if violatesContainment symbols config separator site then addDiagnostic (callSiteDiag sev site) r
             else r) callSites checked)"

end
