(* ===== verification/Completeness.thy ===== *)
theory Completeness
  imports Checks
begin

text \<open>
  The completeness check (\<open>lib/Check/CompletenessCheck.cpp\<close>): glob patterns turned into regular
  expressions, and the three passes over the host symbols and the declarations.

  Of \<open>std::regex\<close> (ECMAScript) exactly the fragment that the translation emits is modelled:
  escaped characters, \<open>.\<close> and \<open>.*\<close>, which do not match a line terminator, and ordinary characters.
\<close>

section \<open>Patterns\<close>

definition regexSpecial :: string where
  "regexSpecial = ''.()[]{}+^$|'' @ [CHR 0x5C]"

definition globChar :: "char \<Rightarrow> string" where
  "globChar c =
     (if c = CHR ''*'' then ''.*''
      else if c = CHR ''?'' then ''.''
      else if c \<in> set regexSpecial then [CHR 0x5C, c]
      else [c])"

definition globToRegex :: "string \<Rightarrow> string" where
  "globToRegex pattern = concat (map globChar pattern)"

datatype RegexItem = RX_Literal char | RX_Any | RX_AnyStar

fun parseRegex :: "string \<Rightarrow> RegexItem list" where
  "parseRegex [] = []"
| "parseRegex [c] = [if c = CHR ''.'' then RX_Any else RX_Literal c]"
| "parseRegex (c # d # rest) =
     (if c = CHR 0x5C then RX_Literal d # parseRegex rest
      else if c = CHR ''.'' \<and> d = CHR ''*'' then RX_AnyStar # parseRegex rest
      else if c = CHR ''.'' then RX_Any # parseRegex (d # rest)
      else RX_Literal c # parseRegex (d # rest))"

definition lineTerminator :: "char \<Rightarrow> bool" where
  "lineTerminator c \<longleftrightarrow> c = LF \<or> c = CR"

function (sequential) regexMatch :: "RegexItem list \<Rightarrow> string \<Rightarrow> bool" where
  "regexMatch [] s = (s = [])"
| "regexMatch (RX_Literal c # rs) s = (case s of [] \<Rightarrow> False | d # cs \<Rightarrow> c = d \<and> regexMatch rs cs)"
| "regexMatch (RX_Any # rs) s = (case s of [] \<Rightarrow> False | d # cs \<Rightarrow> \<not> lineTerminator d \<and> regexMatch rs cs)"
| "regexMatch (RX_AnyStar # rs) s =
     (regexMatch rs s \<or>
      (case s of [] \<Rightarrow> False | d # cs \<Rightarrow> \<not> lineTerminator d \<and> regexMatch (RX_AnyStar # rs) cs))"
  by pat_completeness auto
termination by (relation "measure (\<lambda>(rs, s). length rs + length s)") auto

definition matchesAnyPattern :: "string \<Rightarrow> string list \<Rightarrow> bool" where
  "matchesAnyPattern name patterns = list_ex (\<lambda>rx. regexMatch (parseRegex rx) name) patterns"

section \<open>Names\<close>

definition stripAritySuffix :: "string \<Rightarrow> string" where
  "stripAritySuffix name =
     (case rfind_str ''/'' name of
        None \<Rightarrow> name
      | Some p \<Rightarrow>
          if p + 1 \<ge> length name \<or> \<not> list_all isdigit (substr_from name (p + 1)) then name
          else substr name 0 p)"

record CompletenessConfig =
  co_ignoreConstructors :: bool
  co_ignoreDestructors :: bool
  co_ignoreMain :: bool
  co_ignorePatterns :: "string list"
  co_manualFiles :: "string list"

definition shouldSkipSymbol :: "HostSymbol \<Rightarrow> CompletenessConfig \<Rightarrow> string list \<Rightarrow> bool" where
  "shouldSkipSymbol hs config patterns \<longleftrightarrow>
     co_ignoreConstructors config \<and> hs_kind hs = HS_Constructor \<or>
     co_ignoreDestructors config \<and> hs_kind hs = HS_Destructor \<or>
     co_ignoreMain config \<and> hs_simpleName hs = ''main'' \<or>
     matchesAnyPattern (hs_qualifiedName hs) patterns"

text \<open>The lookups built first: entries by qualified and by simple name, and the ignored names.\<close>

record CompletenessIndex =
  ix_visMap :: "VisibilityEntry umap"
  ix_visSimpleMap :: "VisibilityEntry umap"
  ix_ignoredNames :: "string list"
  ix_ignoredSimpleNames :: "string list"

definition indexEntries :: "VisibilityEntry list \<Rightarrow> CompletenessIndex" where
  "indexEntries visEntries =
     (let ignored = filter (\<lambda>ve. ve_visibility ve = Vis_Ignore) visEntries in
      \<lparr>ix_visMap = fold (\<lambda>ve m. AList.update (ve_qualifiedName ve) ve m) visEntries [],
       ix_visSimpleMap = fold (\<lambda>ve m. AList.update (afterLastSep (ve_qualifiedName ve)) ve m) visEntries [],
       ix_ignoredNames = map ve_qualifiedName ignored,
       ix_ignoredSimpleNames = map (\<lambda>ve. afterLastSep (ve_qualifiedName ve)) ignored\<rparr>)"

section \<open>Undeclared symbols\<close>

definition typeShaped :: "HostSymbolKind \<Rightarrow> bool" where
  "typeShaped k \<longleftrightarrow> k \<in> {HS_Class, HS_Struct, HS_Enum, HS_Interface, HS_TypeAlias}"

definition hostExternalOwner :: "SymbolTable \<Rightarrow> HostSymbol \<Rightarrow> ClassSymbol option" where
  "hostExternalOwner symbols hs =
     (case externalTypeForMember (hs_qualifiedName hs) symbols of
        Some owner \<Rightarrow> Some owner
      | None \<Rightarrow>
          if hs_enclosingClass hs \<noteq> [] then externalOwnerNamed (hs_enclosingClass hs) symbols else None)"

definition declaredMember :: "ClassSymbol \<Rightarrow> HostSymbol \<Rightarrow> bool" where
  "declaredMember cls hs \<longleftrightarrow>
     list_ex (\<lambda>mf. mf = hs_qualifiedName hs \<or> afterLastSep mf = hs_simpleName hs) (cl_memberFunctions cls) \<or>
     hs_kind hs = HS_Constructor \<and> cl_constructors cls \<noteq> [] \<or>
     list_ex (\<lambda>ctor. let key = stripAritySuffix ctor
                     in key = hs_qualifiedName hs \<or> afterLastSep key = hs_simpleName hs) (cl_constructors cls) \<or>
     cl_destructor cls = hs_qualifiedName hs \<or> afterLastSep (cl_destructor cls) = hs_simpleName hs"

definition enclosingClassOf :: "SymbolTable \<Rightarrow> HostSymbol \<Rightarrow> ClassSymbol option" where
  "enclosingClassOf symbols hs =
     (case findClassSymbol (hs_enclosingClass hs) symbols of
        Some cls \<Rightarrow> Some cls
      | None \<Rightarrow> findClassBySimpleName (afterLastSep (hs_enclosingClass hs)) symbols)"

definition declaredSymbol :: "SymbolTable \<Rightarrow> bool \<Rightarrow> HostSymbol \<Rightarrow> bool" where
  "declaredSymbol symbols owned hs \<longleftrightarrow>
     (if typeShaped (hs_kind hs)
      then findClassSymbol (hs_qualifiedName hs) symbols \<noteq> None \<or>
           findClassBySimpleName (hs_simpleName hs) symbols \<noteq> None
      else
        findFunction (hs_qualifiedName hs) symbols \<noteq> None \<or>
        \<not> owned \<and> findFunctionBySimpleName (hs_simpleName hs) symbols \<noteq> None \<or>
        hs_enclosingClass hs \<noteq> [] \<and>
          (case enclosingClassOf symbols hs of Some cls \<Rightarrow> declaredMember cls hs | None \<Rightarrow> False))"

definition undeclared :: "SymbolTable \<Rightarrow> CompletenessIndex \<Rightarrow> CompletenessConfig \<Rightarrow> string list \<Rightarrow> HostSymbol \<Rightarrow> bool" where
  "undeclared symbols ix config patterns hs \<longleftrightarrow>
     (if hs_file hs \<in> set (co_manualFiles config) then False
      else if shouldSkipSymbol hs config patterns then False
      else if hs_qualifiedName hs \<in> set (ix_ignoredNames ix) then False
      else
        let owned = hostExternalOwner symbols hs \<noteq> None in
        if \<not> owned \<and> hs_simpleName hs \<in> set (ix_ignoredSimpleNames ix) then False
        else if hs_hostVisibility hs \<in> {Some Vis_Private, Some Vis_Internal} \<and> owned then False
        else \<not> (declaredSymbol symbols owned hs \<or>
                map_of (ix_visMap ix) (hs_qualifiedName hs) \<noteq> None \<or>
                \<not> owned \<and> map_of (ix_visSimpleMap ix) (hs_simpleName hs) \<noteq> None))"

definition undeclaredDiag :: "HostSymbol \<Rightarrow> CheckDiagnostic" where
  "undeclaredDiag hs =
     checkDiag Sev_Error ''completeness''
       (''symbol '' @ quoted (hs_qualifiedName hs) @ '' exists in host code but is not declared in .topo'')
       (hs_file hs) (hs_line hs)"

section \<open>Dangling declarations\<close>

definition inHost :: "HostSymbol list \<Rightarrow> string \<Rightarrow> string \<Rightarrow> bool" where
  "inHost hostSymbols qualified simple \<longleftrightarrow>
     qualified \<in> set (map hs_qualifiedName hostSymbols) \<or> simple \<in> set (map hs_simpleName hostSymbols)"

definition danglingFunction ::
  "HostSymbol list \<Rightarrow> CompletenessIndex \<Rightarrow> string list \<Rightarrow> string \<times> FunctionSymbol \<Rightarrow> bool" where
  "danglingFunction hostSymbols ix patterns entry \<longleftrightarrow>
     (case entry of (name, fn) \<Rightarrow>
      if fs_bindingTarget fn \<noteq> None \<or> name \<in> set (ix_ignoredNames ix) \<or> matchesAnyPattern name patterns
      then False
      else let hostKey = (if fs_kind fn = FK_Constructor then stripAritySuffix name else name)
           in \<not> inHost hostSymbols hostKey (fs_simpleName fn))"

definition danglingClass ::
  "HostSymbol list \<Rightarrow> CompletenessIndex \<Rightarrow> string list \<Rightarrow> string \<times> ClassSymbol \<Rightarrow> bool" where
  "danglingClass hostSymbols ix patterns entry \<longleftrightarrow>
     (case entry of (name, cls) \<Rightarrow>
      if name \<in> set (ix_ignoredNames ix) \<or> matchesAnyPattern name patterns then False
      else \<not> inHost hostSymbols name (cl_simpleName cls))"

definition danglingDiag :: "string \<Rightarrow> string \<Rightarrow> SourceLocation \<Rightarrow> CheckDiagnostic" where
  "danglingDiag what name loc =
     checkDiag Sev_Warning ''completeness''
       (what @ '' '' @ quoted name @ '' is declared in .topo but not found in host code'')
       (loc_file loc) (loc_line loc)"

section \<open>Visibility mismatches\<close>

definition entryFor :: "CompletenessIndex \<Rightarrow> HostSymbol \<Rightarrow> VisibilityEntry option" where
  "entryFor ix hs =
     (case map_of (ix_visMap ix) (hs_qualifiedName hs) of
        Some ve \<Rightarrow> Some ve
      | None \<Rightarrow> map_of (ix_visSimpleMap ix) (hs_simpleName hs))"

definition mismatchDiag :: "HostSymbol \<Rightarrow> Visibility \<Rightarrow> Visibility \<Rightarrow> CheckDiagnostic option" where
  "mismatchDiag hs topoVis hostVis =
     (if topoVis = Vis_Public \<and> hostVis \<in> {Vis_Private, Vis_Protected} then
        Some (checkDiag Sev_Error ''completeness''
          (''symbol '' @ quoted (hs_qualifiedName hs) @ '' is declared public in .topo but '' @
           visibilityName hostVis @ '' in host code'') (hs_file hs) (hs_line hs))
      else if topoVis \<in> {Vis_Private, Vis_Internal} \<and> hostVis = Vis_Public then
        Some (checkDiag Sev_Warning ''completeness''
          (''symbol '' @ quoted (hs_qualifiedName hs) @ '' is declared '' @ visibilityName topoVis @
           '' in .topo but public in host code'') (hs_file hs) (hs_line hs))
      else None)"

definition visibilityMismatch ::
  "CompletenessIndex \<Rightarrow> CompletenessConfig \<Rightarrow> string list \<Rightarrow> HostSymbol \<Rightarrow> CheckDiagnostic option" where
  "visibilityMismatch ix config patterns hs =
     (if shouldSkipSymbol hs config patterns \<or> hs_qualifiedName hs \<in> set (ix_ignoredNames ix) \<or>
         hs_simpleName hs \<in> set (ix_ignoredSimpleNames ix) then None
      else
        (case hs_hostVisibility hs of
           None \<Rightarrow> None
         | Some hostVis \<Rightarrow>
             (case entryFor ix hs of
                None \<Rightarrow> None
              | Some ve \<Rightarrow>
                  if ve_visibility ve = Vis_Ignore then None else mismatchDiag hs (ve_visibility ve) hostVis)))"

section \<open>The check\<close>

definition addOptional :: "CheckDiagnostic option \<Rightarrow> CheckResult \<Rightarrow> CheckResult" where
  "addOptional d r = (case d of Some diag \<Rightarrow> addDiagnostic diag r | None \<Rightarrow> r)"

definition checkCompleteness ::
  "HostSymbol list \<Rightarrow> SymbolTable \<Rightarrow> VisibilityEntry list \<Rightarrow> CompletenessConfig \<Rightarrow> CheckResult \<Rightarrow> CheckResult" where
  "checkCompleteness hostSymbols symbols visEntries config result =
     (let patterns = map globToRegex (co_ignorePatterns config);
          ix = indexEntries visEntries;
          pass1 = fold (\<lambda>hs r. if undeclared symbols ix config patterns hs then addDiagnostic (undeclaredDiag hs) r
                               else r) hostSymbols result;
          functions = fold (\<lambda>(name, fn) r.
              if danglingFunction hostSymbols ix patterns (name, fn)
              then addDiagnostic (danglingDiag ''function'' name (fs_location fn)) r else r)
            (st_functions symbols) pass1;
          classes = fold (\<lambda>(name, cls) r.
              if danglingClass hostSymbols ix patterns (name, cls)
              then addDiagnostic (danglingDiag ''class'' name (cl_location cls)) r else r)
            (st_classSymbols symbols) functions
      in fold (\<lambda>hs. addOptional (visibilityMismatch ix config patterns hs)) hostSymbols classes)"

end
