(* ===== verification/Check_Laws.thy ===== *)
theory Check_Laws
  imports Completeness
begin

text \<open>
  Verdicts of the checks.  A step of a check either raises the error count or leaves it alone; the
  locale \<open>error_steps\<close> carries that from the steps to the loops, and every check instantiates it.
  Then the glob translation.
\<close>

section \<open>Counting errors\<close>

definition raises :: "(CheckResult \<Rightarrow> CheckResult) \<Rightarrow> bool \<Rightarrow> bool" where
  "raises g b \<longleftrightarrow>
     (\<forall>r. cr_errorCount r \<le> cr_errorCount (g r) \<and> (cr_errorCount (g r) = cr_errorCount r \<longleftrightarrow> \<not> b))"

named_theorems raises_intros

lemma push_errorCount [simp]:
  "cr_errorCount (pushDiagnostic d r) = cr_errorCount r + (if cd_severity d = Sev_Error then 1 else 0)"
  by (simp add: pushDiagnostic_def countSeverity_def Let_def)

lemma add_errorCount [simp]:
  "cr_errorCount (addDiagnostic d r) = cr_errorCount r + (if cd_severity d = Sev_Error then 1 else 0)"
  by (simp add: addDiagnostic_def countSeverity_def Let_def)

lemma checkDiag_severity [simp]: "cd_severity (checkDiag sev check message path line) = sev"
  by (simp add: checkDiag_def)

lemma raises_id [raises_intros]: "raises (\<lambda>r. r) False"
  by (simp add: raises_def)

lemma raises_comp: "raises g b \<Longrightarrow> raises h c \<Longrightarrow> raises (\<lambda>r. h (g r)) (b \<or> c)"
  unfolding raises_def by (smt (verit))

lemma raises_verdict:
  "raises g b \<Longrightarrow> 0 \<le> cr_errorCount r \<Longrightarrow> passed (g r) \<longleftrightarrow> passed r \<and> \<not> b"
  unfolding raises_def passed_def by (smt (verit))

locale error_steps =
  fixes f :: "'a \<Rightarrow> CheckResult \<Rightarrow> CheckResult" and bad :: "'a \<Rightarrow> bool"
  assumes step: "raises (f x) (bad x)"
begin

lemma loop: "raises (fold f xs) (\<exists>x\<in>set xs. bad x)"
proof (induction xs)
  case Nil
  then show ?case by (simp add: raises_def)
next
  case (Cons x xs)
  show ?case using raises_comp [OF step [of x] Cons.IH] by (simp add: comp_def)
qed

lemma verdict:
  "0 \<le> cr_errorCount r \<Longrightarrow> passed (fold f xs r) \<longleftrightarrow> passed r \<and> (\<forall>x\<in>set xs. \<not> bad x)"
  using raises_verdict [OF loop] by auto

end

section \<open>Stage isolation\<close>

definition laterTarget :: "int umap \<Rightarrow> int \<Rightarrow> string \<Rightarrow> bool" where
  "laterTarget stages stage target \<longleftrightarrow> (case map_of stages target of Some t \<Rightarrow> stage < t | None \<Rightarrow> False)"

lemma stageDiag_severity [simp]: "cd_severity (stageDiag es callee stage target t) = Sev_Error"
  by (simp add: stageDiag_def Let_def split: option.split)

interpretation target_steps: error_steps "checkTarget callEdges stages callee stage" "laterTarget stages stage"
  for callEdges stages callee stage
  by unfold_locales (simp add: raises_def checkTarget_def laterTarget_def split: option.split)

definition calls :: "CallEdge list \<Rightarrow> string \<Rightarrow> string \<Rightarrow> bool" where
  "calls callEdges caller callee \<longleftrightarrow> (\<exists>e\<in>set callEdges. ce_caller e = caller \<and> ce_callee e = callee)"

definition graphTargets :: "string list umap \<Rightarrow> string \<Rightarrow> string set" where
  "graphTargets g f = (case map_of g f of Some cs \<Rightarrow> set cs | None \<Rightarrow> {})"

lemma hostCallGraph_targets: "graphTargets (hostCallGraph callEdges) f = {c. calls callEdges f c}"
proof -
  have "graphTargets (fold (\<lambda>e g. AList.update (ce_caller e)
          (List.insert (ce_callee e) (case map_of g (ce_caller e) of Some cs \<Rightarrow> cs | None \<Rightarrow> [])) g) callEdges g) f =
        graphTargets g f \<union> {c. calls callEdges f c}" for g
  proof (induction callEdges arbitrary: g)
    case (Cons e es)
    show ?case
      unfolding fold_simps Cons.IH by (auto simp: graphTargets_def calls_def update_conv' split: option.split)
  qed (simp add: calls_def [abs_def])
  then show ?thesis by (simp add: hostCallGraph_def graphTargets_def)
qed

definition badCallee :: "int umap \<Rightarrow> CallEdge list \<Rightarrow> LogicBlockEntry \<Rightarrow> nat \<Rightarrow> bool" where
  "badCallee stages callEdges block i \<longleftrightarrow>
     (\<exists>t. calls callEdges (lb_calledFunctions block ! i) t \<and> laterTarget stages (stageAt block i) t)"

interpretation callee_steps: error_steps
  "checkCallee callEdges stages block" "badCallee stages callEdges block" for callEdges stages block
proof unfold_locales
  fix i
  have g: "graphTargets (hostCallGraph callEdges) (lb_calledFunctions block ! i) =
           {t. calls callEdges (lb_calledFunctions block ! i) t}"
    by (rule hostCallGraph_targets)
  show "raises (checkCallee callEdges stages block i) (badCallee stages callEdges block i)"
  proof (cases "map_of (hostCallGraph callEdges) (lb_calledFunctions block ! i)")
    case None
    then show ?thesis using g by (auto simp: checkCallee_def graphTargets_def badCallee_def raises_def)
  next
    case (Some targets)
    then have bad: "badCallee stages callEdges block i \<longleftrightarrow>
                    (\<exists>t\<in>set targets. laterTarget stages (stageAt block i) t)"
      using g by (auto simp: graphTargets_def badCallee_def)
    show ?thesis
      using target_steps.loop [of callEdges stages "lb_calledFunctions block ! i" "stageAt block i" targets]
      unfolding bad raises_def by (simp add: checkCallee_def Some)
  qed
qed

definition laterCall :: "SymbolTable \<Rightarrow> CallEdge list \<Rightarrow> bool" where
  "laterCall symbols callEdges \<longleftrightarrow>
     (\<exists>(_, block)\<in>set (st_logicBlocks symbols). \<exists>i<length (lb_calledFunctions block).
        \<exists>e\<in>set callEdges. ce_caller e = lb_calledFunctions block ! i \<and>
          laterTarget (calleeStages symbols) (stageAt block i) (ce_callee e))"

definition badBlock :: "int umap \<Rightarrow> CallEdge list \<Rightarrow> string \<times> LogicBlockEntry \<Rightarrow> bool" where
  "badBlock stages callEdges entry \<longleftrightarrow>
     (case entry of (_, block) \<Rightarrow> \<exists>i\<in>set [0..<length (lb_calledFunctions block)]. badCallee stages callEdges block i)"

interpretation block_steps: error_steps "checkBlock callEdges stages" "badBlock stages callEdges"
  for callEdges stages
proof unfold_locales
  fix x :: "string \<times> LogicBlockEntry"
  show "raises (checkBlock callEdges stages x) (badBlock stages callEdges x)"
    using callee_steps.loop [of callEdges stages "snd x" "[0..<length (lb_calledFunctions (snd x))]"]
    unfolding raises_def by (simp add: checkBlock_def badBlock_def case_prod_beta)
qed

lemma raises_checkStageIsolation:
  "raises (checkStageIsolation symbols callEdges) (laterCall symbols callEdges)"
proof (cases "calleeStages symbols = []")
  case True
  then show ?thesis
    by (simp add: checkStageIsolation_def raises_def laterCall_def laterTarget_def case_prod_beta)
next
  case False
  have bad: "badCallee stages callEdges block i \<longleftrightarrow>
        (\<exists>e\<in>set callEdges. ce_caller e = lb_calledFunctions block ! i \<and>
           laterTarget stages (stageAt block i) (ce_callee e))" for stages block i
    unfolding badCallee_def calls_def by blast
  have "laterCall symbols callEdges \<longleftrightarrow>
        (\<exists>x\<in>set (st_logicBlocks symbols). badBlock (calleeStages symbols) callEdges x)"
    unfolding laterCall_def badBlock_def bad by (intro bex_cong refl) (auto simp: case_prod_beta)
  then show ?thesis
    using block_steps.loop [of callEdges "calleeStages symbols" "st_logicBlocks symbols"] False
    unfolding raises_def by (simp add: checkStageIsolation_def Let_def)
qed

section \<open>Visibility\<close>

definition forbiddenCall :: "SymbolTable \<Rightarrow> VisibilityEntry list \<Rightarrow> CallEdge \<Rightarrow> bool" where
  "forbiddenCall symbols visEntries e \<longleftrightarrow>
     map_of (visibilityMap visEntries) (ce_callee e) = Some Vis_Private \<and>
       getNamespace (ce_caller e) \<noteq> getNamespace (ce_callee e) \<or>
     map_of (visibilityMap visEntries) (ce_callee e) = Some Vis_Internal \<and> findFunction (ce_caller e) symbols = None"

interpretation edge_steps: error_steps
  "checkEdge symbols (visibilityMap visEntries)" "forbiddenCall symbols visEntries" for symbols visEntries
  by unfold_locales (simp add: raises_def checkEdge_def forbiddenCall_def split: option.split)

section \<open>Containment\<close>

lemma importDiag_severity [simp]: "cd_severity (importDiag sev path imp) = sev"
  by (simp add: importDiag_def)

lemma callSiteDiag_severity [simp]: "cd_severity (callSiteDiag sev site) = sev"
  by (simp add: callSiteDiag_def)

definition modeSeverity :: "ContainmentConfig \<Rightarrow> Severity" where
  "modeSeverity config = (if cc_mode config = FM_Force then Sev_Error else Sev_Warning)"

interpretation import_steps: error_steps
  "\<lambda>imp r. if restrictedImport imp then addDiagnostic (importDiag sev path imp) r else r"
  "\<lambda>imp. restrictedImport imp \<and> sev = Sev_Error" for sev path
  by unfold_locales (simp add: raises_def)

definition badFile :: "Severity \<Rightarrow> string list \<Rightarrow> string \<times> HostImport list \<Rightarrow> bool" where
  "badFile sev declaredIn entry \<longleftrightarrow>
     (case entry of (path, fileImports) \<Rightarrow>
      \<exists>imp\<in>set fileImports. path \<notin> set declaredIn \<and> restrictedImport imp \<and> sev = Sev_Error)"

interpretation file_steps: error_steps "checkFileImports sev declaredIn" "badFile sev declaredIn"
  for sev declaredIn
proof unfold_locales
  fix x :: "string \<times> HostImport list"
  obtain path fileImports where x: "x = (path, fileImports)" by fastforce
  show "raises (checkFileImports sev declaredIn x) (badFile sev declaredIn x)"
  proof (cases "list_ex restrictedImport fileImports \<and> path \<notin> set declaredIn")
    case True
    then show ?thesis
      using import_steps.loop [of sev path fileImports]
      unfolding raises_def by (simp add: x checkFileImports_def badFile_def)
  next
    case False
    then show ?thesis by (auto simp: x raises_def list_ex_iff checkFileImports_def badFile_def)
  qed
qed

interpretation site_steps: error_steps
  "\<lambda>site r. if violatesContainment symbols config separator site then addDiagnostic (callSiteDiag sev site) r else r"
  "\<lambda>site. violatesContainment symbols config separator site \<and> sev = Sev_Error" for symbols config separator sev
  by unfold_locales (simp add: raises_def)

definition filed :: "HostImport list umap \<Rightarrow> (string \<times> HostImport) set" where
  "filed m = {(path, imp). \<exists>is. map_of m path = Some is \<and> imp \<in> set is}"

definition fileImport :: "HostImport \<Rightarrow> HostImport list umap \<Rightarrow> HostImport list umap" where
  "fileImport imp m = AList.update (hi_file imp)
     ((case map_of m (hi_file imp) of Some is \<Rightarrow> is | None \<Rightarrow> []) @ [imp]) m"

lemma filed_step: "filed (fileImport imp m) = insert (hi_file imp, imp) (filed m)"
  by (auto simp: filed_def fileImport_def update_conv' split: option.splits if_splits)

lemma filed_fold: "filed (fold fileImport incs m) = filed m \<union> (\<lambda>imp. (hi_file imp, imp)) ` set incs"
  by (induction incs arbitrary: m) (auto simp: filed_step)

lemma filed_distinct: "distinct (map fst m) \<Longrightarrow> distinct (map fst (fold fileImport incs m))"
  by (induction incs arbitrary: m) (simp_all add: fileImport_def distinct_update)

lemma importsByFile_fold: "importsByFile incs = fold fileImport incs []"
  by (simp add: importsByFile_def fileImport_def [abs_def])

lemma filed_pairs:
  assumes "distinct (map fst m)"
  shows "(\<exists>x\<in>set m. \<exists>imp\<in>set (snd x). P (fst x) imp) \<longleftrightarrow> (\<exists>y\<in>filed m. P (fst y) (snd y))"
proof
  assume "\<exists>x\<in>set m. \<exists>imp\<in>set (snd x). P (fst x) imp"
  then obtain path ims imp where "(path, ims) \<in> set m" "imp \<in> set ims" "P path imp" by auto
  moreover from this(1) have "map_of m path = Some ims" using assms by simp
  ultimately have "(path, imp) \<in> filed m" by (auto simp: filed_def)
  then show "\<exists>y\<in>filed m. P (fst y) (snd y)" using \<open>P path imp\<close> by force
next
  assume "\<exists>y\<in>filed m. P (fst y) (snd y)"
  then obtain path ims imp where "map_of m path = Some ims" "imp \<in> set ims" "P path imp"
    by (auto simp: filed_def)
  then show "\<exists>x\<in>set m. \<exists>imp\<in>set (snd x). P (fst x) imp" using map_of_SomeD by force
qed

lemma importsByFile_pairs:
  "(\<exists>x\<in>set (importsByFile incs). \<exists>imp\<in>set (snd x). P (fst x) imp) \<longleftrightarrow>
   (\<exists>imp\<in>set incs. P (hi_file imp) imp)"
  unfolding importsByFile_fold filed_pairs [OF filed_distinct [of "[]", simplified]] filed_fold
  by (auto simp: filed_def)

lemma raises_checkContainment:
  assumes "cc_mode config \<noteq> FM_Off"
  shows "raises (checkContainment symbols incs callSites config separator)
    (cc_mode config = FM_Force \<and>
      ((\<exists>imp\<in>set incs. restrictedImport imp \<and>
          hi_file imp \<notin> set (filesWithExternal symbols callSites config separator)) \<or>
       (\<exists>site\<in>set callSites. violatesContainment symbols config separator site)))"
proof -
  define sev where "sev = (if cc_mode config = FM_Force then Sev_Error else Sev_Warning)"
  define declaredIn where "declaredIn = filesWithExternal symbols callSites config separator"
  have "(\<exists>x\<in>set (importsByFile incs). badFile sev declaredIn x) \<longleftrightarrow>
        (\<exists>imp\<in>set incs. hi_file imp \<notin> set declaredIn \<and> restrictedImport imp \<and> sev = Sev_Error)"
    using importsByFile_pairs [of incs "\<lambda>path imp. path \<notin> set declaredIn \<and> restrictedImport imp \<and> sev = Sev_Error"]
    by (auto simp: badFile_def case_prod_beta)
  moreover have "raises (\<lambda>r. fold (\<lambda>site r. if violatesContainment symbols config separator site
                                     then addDiagnostic (callSiteDiag sev site) r else r) callSites
                       (fold (checkFileImports sev declaredIn) (importsByFile incs) r))
     ((\<exists>x\<in>set (importsByFile incs). badFile sev declaredIn x) \<or>
      (\<exists>site\<in>set callSites. violatesContainment symbols config separator site \<and> sev = Sev_Error))"
    by (rule raises_comp [OF file_steps.loop site_steps.loop])
  ultimately show ?thesis
    using assms unfolding raises_def
    by (auto simp: checkContainment_def Let_def sev_def [symmetric] declaredIn_def [symmetric])
      (auto simp: sev_def)
qed

section \<open>The verdicts\<close>


text \<open>A block whose first-stage callee calls its second stage, which is private elsewhere and opens files.\<close>

definition lateBlock :: LogicBlockEntry where
  "lateBlock = \<lparr>lb_qualifiedName = ''m::run'', lb_simpleName = ''run'', lb_location = default_loc,
     lb_calledFunctions = [''a::lo'', ''b::hi''], lb_stages = [0, 1], lb_isPipeline = False, lb_isFlow = False,
     lb_edges = [], lb_pipelineAnalysis = None\<rparr>"

definition lateTable :: SymbolTable where
  "lateTable = empty_table\<lparr>st_logicBlocks := [(''m::run'', lateBlock)]\<rparr>"

definition lateEdges :: "CallEdge list" where
  "lateEdges = [\<lparr>ce_caller = ''a::lo'', ce_callee = ''b::hi'', ce_file = ''a.cpp'', ce_line = 3\<rparr>]"

definition hiEntry :: VisibilityEntry where
  "hiEntry = \<lparr>ve_qualifiedName = ''b::hi'', ve_visibility = Vis_Private, ve_isConst = False, ve_paramConsts = [],
              ve_bindingTarget = None, ve_priority = Pri_Normal\<rparr>"

definition fopenSite :: DetectedCallSite where
  "fopenSite = \<lparr>dc_callerQualifiedName = ''a::lo'', dc_calleePattern = ''fopen'', dc_capability = Some Cap_File,
                dc_unsafeLevel = UL_System, dc_file = ''a.cpp'', dc_line = 4\<rparr>"


section \<open>Globs\<close>

text \<open>What an ignore pattern means: \<open>*\<close> any text of one line, \<open>?\<close> one character of it, the rest itself.\<close>

fun globMatch :: "string \<Rightarrow> string \<Rightarrow> bool" where
  "globMatch [] s = (s = [])"
| "globMatch (p # ps) s =
     (if p = CHR ''*'' then (\<exists>n\<le>length s. list_all (\<lambda>c. \<not> lineTerminator c) (take n s) \<and> globMatch ps (drop n s))
      else (case s of [] \<Rightarrow> False | c # cs \<Rightarrow> (if p = CHR ''?'' then \<not> lineTerminator c else c = p) \<and> globMatch ps cs))"

definition globItem :: "char \<Rightarrow> RegexItem" where
  "globItem c = (if c = CHR ''*'' then RX_AnyStar else if c = CHR ''?'' then RX_Any else RX_Literal c)"

lemma globToRegex_Cons: "globToRegex (c # cs) = globChar c @ globToRegex cs"
  by (simp add: globToRegex_def)

lemma globToRegex_no_star: "globToRegex cs = [] \<or> hd (globToRegex cs) \<noteq> CHR ''*''"
  by (cases cs) (auto simp: globToRegex_def globChar_def)

lemma parse_dot:
  "rest = [] \<or> hd rest \<noteq> CHR ''*'' \<Longrightarrow> parseRegex (CHR ''.'' # rest) = RX_Any # parseRegex rest"
  by (cases rest) auto

lemma parse_plain:
  "c \<noteq> CHR ''.'' \<Longrightarrow> c \<noteq> CHR 0x5C \<Longrightarrow> parseRegex (c # rest) = RX_Literal c # parseRegex rest"
  by (cases rest) auto

lemma parse_glob: "parseRegex (globToRegex pattern) = map globItem pattern"
proof (induction pattern)
  case Nil
  then show ?case by (simp add: globToRegex_def)
next
  case (Cons c cs)
  consider "c = CHR ''*''" | "c = CHR ''?''" | "c \<noteq> CHR ''*''" "c \<noteq> CHR ''?''" "c \<in> set regexSpecial"
    | "c \<noteq> CHR ''*''" "c \<noteq> CHR ''?''" "c \<notin> set regexSpecial" by blast
  then show ?case
  proof cases
    case 1
    then show ?thesis using Cons.IH by (simp add: globToRegex_Cons globChar_def globItem_def)
  next
    case 2
    then show ?thesis
      using Cons.IH parse_dot [OF globToRegex_no_star [of cs]]
      by (simp add: globToRegex_Cons globChar_def globItem_def)
  next
    case 3
    then show ?thesis using Cons.IH by (simp add: globToRegex_Cons globChar_def globItem_def)
  next
    case 4
    then have "c \<noteq> CHR ''.''" "c \<noteq> CHR 0x5C" by (auto simp: regexSpecial_def)
    then show ?thesis using 4 Cons.IH by (simp add: globToRegex_Cons globChar_def globItem_def parse_plain)
  qed
qed

lemma match_star:
  "regexMatch (RX_AnyStar # rs) s \<longleftrightarrow>
     (\<exists>n\<le>length s. list_all (\<lambda>c. \<not> lineTerminator c) (take n s) \<and> regexMatch rs (drop n s))"
proof (induction s)
  case Nil
  then show ?case by simp
next
  case (Cons c cs)
  have split: "(\<exists>n\<le>length (c # cs). P n) \<longleftrightarrow> P 0 \<or> (\<exists>n\<le>length cs. P (Suc n))" for P
    by (metis Suc_le_mono bot_nat_0.extremum length_Cons not0_implies_Suc)
  show ?case unfolding split using Cons.IH by auto
qed

lemma match_glob: "regexMatch (map globItem pattern) s = globMatch pattern s"
proof (induction pattern arbitrary: s)
  case (Cons p ps)
  show ?case
  proof (cases "p = CHR ''*''")
    case True
    then show ?thesis using Cons.IH match_star by (simp add: globItem_def del: regexMatch.simps(4))
  next
    case False
    then show ?thesis using Cons.IH by (cases s) (auto simp: globItem_def)
  qed
qed simp

text \<open>
  C37: an ignore pattern, escaped into a regular expression and matched as one, matches exactly the
  names the glob means; so a host symbol whose qualified name some ignore glob covers is never
  reported as undeclared.
\<close>

theorem ignore_globs:
  "matchesAnyPattern name (map globToRegex globs) = list_ex (\<lambda>glob. globMatch glob name) globs \<and>
   (undeclared symbols ix config (map globToRegex globs) hs \<longrightarrow>
      \<not> list_ex (\<lambda>glob. globMatch glob (hs_qualifiedName hs)) globs)"
proof -
  have m: "matchesAnyPattern n (map globToRegex globs) = list_ex (\<lambda>glob. globMatch glob n) globs" for n
    by (simp add: matchesAnyPattern_def parse_glob match_glob list.pred_map list_ex_iff)
  then show ?thesis by (auto simp: undeclared_def shouldSkipSymbol_def)
qed

text \<open>A star covers any text; a dot is a dot, not any character.\<close>

lemma ignore_globs_witness:
  "matchesAnyPattern ''t::a.h'' (map globToRegex [''t::*.h'']) \<and>
   \<not> matchesAnyPattern ''t::axh'' (map globToRegex [''t::?.h''])"
proof -
  have yes: "globMatch ''t::*.h'' ''t::a.h''"
    by (simp add: lineTerminator_def exI [of _ "1::nat"])
  have no: "\<not> globMatch ''t::?.h'' ''t::axh''"
    by simp
  show ?thesis
    using yes no ignore_globs [THEN conjunct1, of "''t::a.h''" "[''t::*.h'']"]
      ignore_globs [THEN conjunct1, of "''t::axh''" "[''t::?.h'']"]
    by (simp del: globMatch.simps)
qed

end
