(* ===== verification/Formatter.thy ===== *)
theory Formatter
  imports Analysis
begin

text \<open>
  The formatter (\<open>lib/Format/Formatter.cpp\<close>): the tree printed again in canonical layout, with the
  comments of the source put back by line.  The state is the output so far, the comments not yet
  put back and whether the last line is blank; the source is the list of its lines.

  \<open>std::sort\<close> leaves the order of equal keys open; the model takes the stable order.
\<close>

section \<open>Rendering template parameters\<close>

fun renderTemplateParameter :: "TemplateParamDecl \<Rightarrow> string" where
  "renderTemplateParameter (TemplateParamDecl k n ct eb v inner dt dv l) =
     (if k = TP_TemplateTemplateParam then
        ''template<'' @ join '', '' (map renderTemplateParameter inner) @ ''> class '' @ n
      else if k = TP_NonTypeParam then ty_toString ct @ '' '' @ n
      else
        ''typename'' @ (if v then ''...'' else []) @ (if n \<noteq> [] then '' '' @ n else []) @
        (if ty_nameParts ct \<noteq> [] then '' : '' @ ty_toString ct else [])) @
     (case dt of Some t \<Rightarrow> '' = '' @ ty_toString t | None \<Rightarrow> [])"

definition renderTemplateParameters :: "TemplateParamDecl list \<Rightarrow> string" where
  "renderTemplateParameters params = join '', '' (map renderTemplateParameter params)"

definition renderParams :: "Parameter list \<Rightarrow> string" where
  "renderParams params = join '', '' (map param_toString params)"

definition renderReturnParams :: "ReturnParam list \<Rightarrow> string" where
  "renderReturnParams params = join '', '' (map returnParam_toString params)"

section \<open>Output\<close>

record FmtState =
  fm_output :: string
  fm_comments :: "CommentToken list"
  fm_lastWasBlank :: bool

type_synonym fmt = "FmtState \<Rightarrow> FmtState"

definition runs :: "fmt list \<Rightarrow> fmt" where
  "runs steps s = fold (\<lambda>f s. f s) steps s"

definition emit :: "string \<Rightarrow> fmt" where
  "emit text s = s\<lparr>fm_output := fm_output s @ text, fm_lastWasBlank := False\<rparr>"

definition emitLine :: fmt where
  "emitLine s =
     (let out = fm_output s @ [LF] in
      s\<lparr>fm_output := out, fm_lastWasBlank := length out \<ge> 2 \<and> out ! (length out - 2) = LF\<rparr>)"

definition emitIndent :: "nat \<Rightarrow> fmt" where
  "emitIndent level s = s\<lparr>fm_output := fm_output s @ concat (replicate level ''    '')\<rparr>"

definition emitBlankLine :: fmt where
  "emitBlankLine s =
     (if fm_lastWasBlank s then s else s\<lparr>fm_output := fm_output s @ [LF], fm_lastWasBlank := True\<rparr>)"

definition normalizeComment :: "CommentToken \<Rightarrow> string" where
  "normalizeComment c =
     (let text = ct_text c in
      if \<not> ct_isBlock c \<and> length text \<ge> 2 \<and> text ! 0 = CHR ''/'' \<and> text ! 1 = CHR ''/'' \<and>
         length text > 2 \<and> text ! 2 \<noteq> SPACE
      then ''// '' @ substr_from text 2 else text)"

function emitCommentsBefore :: "int \<Rightarrow> nat \<Rightarrow> fmt" where
  "emitCommentsBefore line indentLevel s =
     (case fm_comments s of
        [] \<Rightarrow> s
      | c # cs \<Rightarrow>
          if loc_line (ct_location c) \<ge> line then s
          else emitCommentsBefore line indentLevel
                 ((runs [emitIndent indentLevel, emit (normalizeComment c), emitLine] s)\<lparr>fm_comments := cs\<rparr>))"
  by pat_completeness auto
termination by (relation "measure (\<lambda>(line, ind, s). length (fm_comments s))") auto

declare emitCommentsBefore.simps [simp del]

definition emitEndOfLineComment :: "int \<Rightarrow> fmt" where
  "emitEndOfLineComment line s =
     (case fm_comments s of
        [] \<Rightarrow> s
      | c # cs \<Rightarrow>
          if loc_line (ct_location c) = line then (emit (''  '' @ normalizeComment c) s)\<lparr>fm_comments := cs\<rparr>
          else s)"

text \<open>A line of output with what trailed on a line of the source.\<close>

definition emitDecl :: "nat \<Rightarrow> string \<Rightarrow> int \<Rightarrow> fmt" where
  "emitDecl indent text line = runs [emitIndent indent, emit text, emitEndOfLineComment line, emitLine]"

definition emitPlain :: "nat \<Rightarrow> string \<Rightarrow> fmt" where
  "emitPlain indent text = runs [emitIndent indent, emit text, emitLine]"

section \<open>Text taken from the source\<close>

definition extractSourceLine :: "string list \<Rightarrow> int \<Rightarrow> string" where
  "extractSourceLine source line =
     (if 1 \<le> line \<and> line \<le> int (length source) then source ! nat (line - 1) else [])"

definition linesFrom :: "string list \<Rightarrow> int \<Rightarrow> string list" where
  "linesFrom source fromLine = drop (nat (fromLine - 1)) source"

definition trimBlanks :: "string \<Rightarrow> string" where
  "trimBlanks s =
     rev (dropWhile (\<lambda>c. c = SPACE \<or> c = TAB) (rev (dropWhile (\<lambda>c. c = SPACE \<or> c = TAB) s)))"

text \<open>Depth and whether an opening character was seen.\<close>

definition depthStep :: "char \<Rightarrow> char \<Rightarrow> char \<Rightarrow> int \<times> bool \<Rightarrow> int \<times> bool" where
  "depthStep opening closing c st =
     (if c = opening then (fst st + 1, True) else if c = closing then (fst st - 1, snd st) else st)"

fun joinBalanced :: "string \<Rightarrow> string list \<Rightarrow> string" where
  "joinBalanced joined [] = joined"
| "joinBalanced joined (l # ls) =
     (let now = (if joined = [] then l else joined @ [SPACE] @ l);
          (depth, sawOpen) = fold (depthStep (CHR ''('') (CHR '')'')) now (0, False)
      in if sawOpen \<and> depth \<le> 0 then now else joinBalanced now ls)"

text \<open>The index that closes the parenthesis at depth zero.\<close>

fun closingAt :: "int \<Rightarrow> nat \<Rightarrow> string \<Rightarrow> nat option" where
  "closingAt depth i [] = None"
| "closingAt depth i (c # cs) =
     (if c = CHR ''('' then closingAt (depth + 1) (Suc i) cs
      else if c = CHR '')'' then (if depth = 1 then Some i else closingAt (depth - 1) (Suc i) cs)
      else closingAt depth (Suc i) cs)"

definition extractParenContent :: "string list \<Rightarrow> int \<Rightarrow> string" where
  "extractParenContent source fromLine =
     (let joined = joinBalanced [] (linesFrom source fromLine) in
      case find_str ''('' joined of
        None \<Rightarrow> []
      | Some p \<Rightarrow>
          (case closingAt 0 p (substr_from joined p) of
             None \<Rightarrow> []
           | Some close \<Rightarrow>
               if close \<le> p + 1 then [] else trimBlanks (substr joined (p + 1) (close - p - 1))))"

fun blockSpan :: "string \<Rightarrow> int \<times> bool \<Rightarrow> string list \<Rightarrow> string" where
  "blockSpan out st [] = out"
| "blockSpan out st (l # ls) =
     (let now = (if out = [] then l else out @ [LF] @ l);
          st' = fold (depthStep (CHR ''{'') (CHR ''}'')) l st
      in if \<not> snd st' then now else if fst st' \<le> 0 then now else blockSpan now st' ls)"

definition extractBlockSpan :: "string list \<Rightarrow> int \<Rightarrow> string" where
  "extractBlockSpan source fromLine =
     (if fromLine < 1 then [] else blockSpan [] (0, False) (linesFrom source fromLine))"

text \<open>A node the formatter does not print: its source, with its comments taken as emitted.\<close>

fun emitSpanLines :: "nat \<Rightarrow> bool \<Rightarrow> string list \<Rightarrow> fmt" where
  "emitSpanLines indent first [] s = s"
| "emitSpanLines indent first (l # ls) s =
     emitSpanLines indent False ls
       (runs [if first then emitIndent indent else (\<lambda>s. s), emit l, emitLine] s)"

definition emitVerbatimNode :: "string list \<Rightarrow> int \<Rightarrow> nat \<Rightarrow> fmt" where
  "emitVerbatimNode source line indent s =
     (let span = extractBlockSpan source line in
      if span = [] then s
      else
        let ls = getlines LF span;
            endLine = line + (if ls = [] then 0 else int (length ls) - 1);
            s1 = emitSpanLines indent True ls s
        in s1\<lparr>fm_comments := dropWhile (\<lambda>c. loc_line (ct_location c) \<le> endLine) (fm_comments s1)\<rparr>)"

section \<open>Leaf declarations\<close>

definition formatImport :: "string \<Rightarrow> string list \<Rightarrow> int \<Rightarrow> nat \<Rightarrow> fmt" where
  "formatImport path selected line indent =
     emitDecl indent
       (''import '' @ path @ (if selected \<noteq> [] then '' { '' @ join '', '' selected @ '' }'' else []) @ '';'') line"

definition formatStdImport :: "DataDecl \<Rightarrow> int \<Rightarrow> nat \<Rightarrow> fmt" where
  "formatStdImport imp line indent =
     emitDecl indent
       (''std::import('' @ [DQUOTE] @ dd_importPath imp @ [DQUOTE] @
        (if dd_name imp \<noteq> [] then '', '' @ dd_name imp else []) @ '');'') line"

definition formatTypeAlias :: "DataDecl \<Rightarrow> int \<Rightarrow> nat \<Rightarrow> fmt" where
  "formatTypeAlias ta line indent =
     emitDecl indent (''using '' @ dd_name ta @ '' = '' @ ty_toString (dd_type ta) @ '';'') line"

definition formatData :: "NodeBase \<Rightarrow> DataDecl \<Rightarrow> nat \<Rightarrow> fmt" where
  "formatData b d indent =
     (let line = loc_line (nd_location b) in
      if isStdImport d then formatStdImport d line indent
      else if isInstantiate b then emitDecl indent (''instantiate '' @ ty_toString (dd_type d) @ '';'') line
      else formatTypeAlias d line indent)"

definition formatMemberVar :: "NodeBase \<Rightarrow> DataDecl \<Rightarrow> nat \<Rightarrow> fmt" where
  "formatMemberVar b d indent =
     emitDecl indent
       ((if isStaticData b then ''static '' else []) @ ty_toString (dd_type d) @ '' '' @ dd_name d @ '';'')
       (loc_line (nd_location b))"

section \<open>Functions\<close>

definition usedReturnsClause :: "FnDecl \<Rightarrow> string" where
  "usedReturnsClause fn =
     (if fd_hasUsedReturnsClause fn \<and> fd_isMultiReturn fn
      then '' with returns('' @
           join '', '' (map (\<lambda>rp. if rp_name rp \<in> set (fd_declaredUsedReturns fn) then rp_name rp else ''_'')
             (fd_returnParams fn)) @ '')''
      else [])"

definition returnClause :: "FnDecl \<Rightarrow> string" where
  "returnClause fn =
     (if fd_isMultiReturn fn then '' -> ('' @ renderReturnParams (fd_returnParams fn) @ '')''
      else '' -> '' @ ty_toString (fd_returnType fn))"

definition externalMark :: "NodeBase \<Rightarrow> string" where
  "externalMark b = (if hasModifier MK_External (nd_modifiers b) then ''external '' else [])"

definition fnLine :: "NodeBase \<Rightarrow> FnDecl \<Rightarrow> string" where
  "fnLine b fn =
     externalMark b @
     (if fd_isConstructor fn then
        (if fd_isExplicit fn then ''explicit '' else []) @ fd_className fn @ ''('' @ renderParams (fd_params fn) @ '');''
      else if fd_isDestructor fn then ''~'' @ fd_className fn @ ''();''
      else
        (case fd_operatorOp fn of
           Some op \<Rightarrow>
             ''fn operator'' @ overloadableOpName op @ ''('' @ renderParams (fd_params fn) @ '')'' @
             '' -> '' @ ty_toString (fd_returnType fn) @ '';''
         | None \<Rightarrow>
             if fd_isRustStyle fn then
               fd_name fn @ ''('' @ renderParams (fd_params fn) @ '')'' @
               (if fd_isConst fn then '' const'' else []) @ returnClause fn @ usedReturnsClause fn @ '';''
             else
               (if fd_isStatic fn then ''static '' else []) @ ty_toString (fd_returnType fn) @ '' '' @
               fd_name fn @ ''('' @ renderParams (fd_params fn) @ '')'' @
               (if fd_isConst fn then '' const'' else []) @ '';''))"

definition splitsParams :: "nat \<Rightarrow> NodeBase \<Rightarrow> FnDecl \<Rightarrow> bool" where
  "splitsParams indent b fn \<longleftrightarrow>
     indent * 4 + length (fnLine b fn) > 120 \<and> fd_params fn \<noteq> [] \<and>
     \<not> fd_isConstructor fn \<and> \<not> fd_isDestructor fn \<and> \<not> fd_isOperator fn"

fun emitParamLines :: "nat \<Rightarrow> Parameter list \<Rightarrow> fmt" where
  "emitParamLines indent [] s = s"
| "emitParamLines indent (p # ps) s =
     emitParamLines indent ps
       (emitPlain indent (param_toString p @ (if ps \<noteq> [] then '','' else [])) s)"

definition formatFnDecl :: "NodeBase \<Rightarrow> FnDecl \<Rightarrow> nat \<Rightarrow> fmt" where
  "formatFnDecl b fn indent =
     (if splitsParams indent b fn then
        runs [emitIndent indent,
          emit (externalMark b @
            (if fd_isRustStyle fn then []
             else (if fd_isStatic fn then ''static '' else []) @ ty_toString (fd_returnType fn) @ '' '') @
            fd_name fn @ ''(''),
          emitLine, emitParamLines (indent + 1) (fd_params fn), emitIndent indent,
          emit ('')'' @ (if fd_isConst fn then '' const'' else []) @
            (if fd_isRustStyle fn then returnClause fn @ usedReturnsClause fn else []) @ '';''),
          emitLine]
      else
        runs [emitIndent indent, emit (fnLine b fn), emitEndOfLineComment (loc_line (nd_location b)), emitLine])"

section \<open>Logic blocks\<close>

definition formatPipelineEdge :: "PipelineEdge \<Rightarrow> nat \<Rightarrow> fmt" where
  "formatPipelineEdge e indent =
     emitDecl indent
       (pe_source e @ '' -> '' @ (if pe_isTerminal e then pe_terminalType e else pe_target e) @ '';'')
       (loc_line (pe_loc e))"

text \<open>
  The right-hand side as the source has it, without the last semicolon and blanks around.  A text
  of blanks only is left as it is by the first trim and emptied by neither.
\<close>

definition assignedText :: "string \<Rightarrow> string" where
  "assignedText rhs0 =
     (let rhs = (case rfind_str '';'' rhs0 of Some p \<Rightarrow> substr rhs0 0 p | None \<Rightarrow> rhs0)
      in if list_all (\<lambda>c. c = SPACE \<or> c = TAB) rhs then rhs else trimBlanks rhs)"

definition operationLine :: "string list \<Rightarrow> OperationDecl \<Rightarrow> int \<Rightarrow> string" where
  "operationLine source op line =
     (if od_stage op \<ge> 0 then ''stage<'' @ int_to_string (od_stage op) @ ''> '' else []) @
     (if od_isAssignment op then
        (let srcLine = extractSourceLine source line in
         case find_str ''='' srcLine of
           Some p \<Rightarrow> od_varName op @ '' = '' @ assignedText (substr_from srcLine (p + 1)) @ '';''
         | None \<Rightarrow> od_varName op @ '' = <expr>;'')
      else
        od_funcName op @ ''()'' @
        (case od_returnBinding op of
           None \<Rightarrow> []
         | Some rb \<Rightarrow>
             '' -> '' @ (if rb_isSingleValue rb then rb_singleName rb
                       else ''('' @ join '', '' (map rt_name (rb_targets rb)) @ '')'')) @ '';'')"

definition formatOperation :: "string list \<Rightarrow> NodeBase \<Rightarrow> OperationDecl \<Rightarrow> nat \<Rightarrow> fmt" where
  "formatOperation source b op indent =
     (let line = loc_line (nd_location b) in emitDecl indent (operationLine source op line) line)"

fun exprLine :: "Expr \<Rightarrow> int" where
  "exprLine (BinaryExpr l op x y) = loc_line l"
| "exprLine (UnaryExpr l op x) = loc_line l"
| "exprLine (LiteralExpr l v k) = loc_line l"
| "exprLine (IdentifierExpr l n) = loc_line l"
| "exprLine (CallExpr l n args) = loc_line l"

fun nodeLine :: "ASTNode \<Rightarrow> int" where
  "nodeLine (TopoFile b ds) = loc_line (nd_location b)"
| "nodeLine (ImportNode b p ss) = loc_line (nd_location b)"
| "nodeLine (DataDeclNode b d) = loc_line (nd_location b)"
| "nodeLine (NamespaceDecl b p ss i) = loc_line (nd_location b)"
| "nodeLine (VisibilitySection b v ms) = loc_line (nd_location b)"
| "nodeLine (FnDeclNode b f) = loc_line (nd_location b)"
| "nodeLine (FnLogicBlock b n os es ts) = loc_line (nd_location b)"
| "nodeLine (OperationNode b d) = loc_line (nd_location b)"
| "nodeLine (TypeDeclNode b d ss) = loc_line (nd_location b)"
| "nodeLine (IfDecl b c ts es) = loc_line (nd_location b)"
| "nodeLine (DebugDeclNode b d) = loc_line (nd_location b)"
| "nodeLine (ExprNode e) = exprLine e"

definition formatFnLogicBlock ::
  "string list \<Rightarrow> NodeBase \<Rightarrow> string \<Rightarrow> ASTNode list \<Rightarrow> PipelineEdge list \<Rightarrow> nat \<Rightarrow> fmt" where
  "formatFnLogicBlock source b name ops edges indent =
     runs [emitDecl indent (''fn '' @ name @ '' {'') (loc_line (nd_location b)),
       if edges \<noteq> [] then
         fold (\<lambda>e s. formatPipelineEdge e (indent + 1) (emitCommentsBefore (loc_line (pe_loc e)) (indent + 1) s)) edges
       else
         fold (\<lambda>op s.
           let s1 = emitCommentsBefore (nodeLine op) (indent + 1) s
           in case op of OperationNode ob d \<Rightarrow> formatOperation source ob d (indent + 1) s1 | _ \<Rightarrow> s1) ops,
       emitPlain indent ''}'']"

section \<open>Constraints, adapts and type functions\<close>

definition constraintLine :: "ConstraintMember \<Rightarrow> string" where
  "constraintLine m =
     (if cm_isFunction m
      then ty_toString (cm_type m) @ '' '' @ cm_name m @ ''('' @ join '', '' (map param_toString (cm_params m)) @ '');''
      else ty_toString (cm_type m) @ '' '' @ cm_name m @ '';'')"

definition formatConstraint :: "TypeDeclData \<Rightarrow> int \<Rightarrow> nat \<Rightarrow> fmt" where
  "formatConstraint cls line indent =
     runs [emitDecl indent
         (''constraint '' @ td_name cls @
          (case td_parentConstraint cls of Some p \<Rightarrow> '' : '' @ p | None \<Rightarrow> []) @ '' {'') line,
       fold (\<lambda>m. emitDecl (indent + 1) (constraintLine m) (loc_line (cm_location m))) (td_constraintMembers cls),
       emitPlain indent ''}'']"

definition formatAdapt :: "TypeDeclData \<Rightarrow> int \<Rightarrow> nat \<Rightarrow> fmt" where
  "formatAdapt cls line indent =
     runs [emitDecl indent
         (''adapt '' @ td_adaptConstraintName cls @ '' for '' @ ty_toString (td_adaptTargetType cls) @ '' {'') line,
       fold (\<lambda>m. emitDecl (indent + 1) (am_memberName m @ '' = '' @ am_targetName m @ '';'')
                   (loc_line (am_location m))) (td_adaptMappings cls),
       emitPlain indent ''}'']"

definition formatTypeFn :: "TypeDeclData \<Rightarrow> int \<Rightarrow> nat \<Rightarrow> fmt" where
  "formatTypeFn cls line indent =
     runs [emitDecl indent (''typefn '' @ td_name cls @ ''(typename '' @ td_matchTarget cls @ '') -> typename {'') line,
       emitPlain (indent + 1) (''match '' @ td_matchTarget cls @ '' {''),
       fold (\<lambda>arm. emitPlain (indent + 2) (ty_toString (ma_pattern arm) @ '' => '' @ ty_toString (ma_result arm) @ '',''))
         (td_matchArms cls),
       emitPlain (indent + 1) ''}'', emitPlain indent ''}'']"

definition typeHeader :: "NodeBase \<Rightarrow> TypeDeclData \<Rightarrow> string" where
  "typeHeader b cls =
     externalMark b @
     (if td_templateParams cls \<noteq> [] then ''template<'' @ renderTemplateParameters (td_templateParams cls) @ ''> '' else []) @
     ''type '' @ td_name cls @
     (case td_baseClass cls of Some t \<Rightarrow> '' : public '' @ ty_toString t | None \<Rightarrow> []) @ '' {''"

section \<open>Nested declarations\<close>

text \<open>
  Members are printed in order, comments before each.  The list of remaining members tells whether
  another one follows.
\<close>

function
      fmtNamespace :: "string list \<Rightarrow> ASTNode \<Rightarrow> nat \<Rightarrow> fmt"
  and fmtSections :: "string list \<Rightarrow> bool \<Rightarrow> ASTNode list \<Rightarrow> nat \<Rightarrow> fmt"
  and fmtMembers :: "string list \<Rightarrow> ASTNode list \<Rightarrow> nat \<Rightarrow> fmt"
  and fmtIf :: "string list \<Rightarrow> ASTNode \<Rightarrow> nat \<Rightarrow> fmt"
  and fmtIfMembers :: "string list \<Rightarrow> ASTNode list \<Rightarrow> nat \<Rightarrow> fmt"
  and fmtType :: "string list \<Rightarrow> ASTNode \<Rightarrow> nat \<Rightarrow> fmt"
  and fmtTypeSections :: "string list \<Rightarrow> ASTNode list \<Rightarrow> nat \<Rightarrow> fmt"
  and fmtTypeMembers :: "string list \<Rightarrow> ASTNode list \<Rightarrow> nat \<Rightarrow> fmt" where
  "fmtNamespace source node indent s =
     (case node of
        NamespaceDecl b path sections internal \<Rightarrow>
          emitPlain indent ''}''
            (fmtSections source True sections indent
              (emitDecl indent (''namespace '' @ pathString path @ '' {'') (loc_line (nd_location b)) s))
      | _ \<Rightarrow> s)"
| "fmtSections source first [] indent s = s"
| "fmtSections source first (section # rest) indent s =
     fmtSections source False rest indent
       (case section of
          VisibilitySection b v members \<Rightarrow>
            fmtMembers source members (indent + 2)
              (emitDecl (indent + 1) (visibilityName v @ '':'') (loc_line (nd_location b))
                (emitCommentsBefore (loc_line (nd_location b)) (indent + 1)
                  (if first then s else emitBlankLine s)))
        | NamespaceDecl b path sections internal \<Rightarrow>
            fmtNamespace source section (indent + 1)
              (emitCommentsBefore (loc_line (nd_location b)) (indent + 1)
                (if first then s else emitBlankLine s))
        | _ \<Rightarrow> s)"
| "fmtMembers source [] indent s = s"
| "fmtMembers source (member # rest) indent s =
     fmtMembers source rest indent
       (let s1 = emitCommentsBefore (nodeLine member) indent s;
            blankIfMore = (if rest \<noteq> [] then emitBlankLine else (\<lambda>s. s))
        in case member of
             FnDeclNode b fn \<Rightarrow> formatFnDecl b fn indent s1
           | FnLogicBlock b name ops edges tps \<Rightarrow> blankIfMore (formatFnLogicBlock source b name ops edges indent s1)
           | TypeDeclNode b cls sections \<Rightarrow> blankIfMore (fmtType source member indent (emitBlankLine s1))
           | NamespaceDecl b path sections internal \<Rightarrow> fmtNamespace source member indent (emitBlankLine s1)
           | DataDeclNode b d \<Rightarrow> formatData b d indent s1
           | IfDecl b c thenBody elseBody \<Rightarrow> fmtIf source member indent s1
           | _ \<Rightarrow> s1)"
| "fmtIf source node indent s =
     (case node of
        IfDecl b c thenBody elseBody \<Rightarrow>
          let line = loc_line (nd_location b);
              s1 = fmtIfMembers source thenBody (indent + 1)
                     (emitDecl indent (''comptime if ('' @ extractParenContent source line @ '') {'') line s)
          in if elseBody = [] then emitPlain indent ''}'' s1
             else emitPlain indent ''}''
                    (fmtIfMembers source elseBody (indent + 1) (emitPlain indent ''} else {'' s1))
      | _ \<Rightarrow> s)"
| "fmtIfMembers source [] indent s = s"
| "fmtIfMembers source (member # rest) indent s =
     fmtIfMembers source rest indent
       (let s1 = emitCommentsBefore (nodeLine member) indent s in
        case member of
          FnDeclNode b fn \<Rightarrow> formatFnDecl b fn indent s1
        | FnLogicBlock b name ops edges tps \<Rightarrow> formatFnLogicBlock source b name ops edges indent s1
        | TypeDeclNode b cls sections \<Rightarrow> fmtType source member indent s1
        | NamespaceDecl b path sections internal \<Rightarrow> fmtNamespace source member indent s1
        | IfDecl b c thenBody elseBody \<Rightarrow> fmtIf source member indent s1
        | DataDeclNode b d \<Rightarrow> formatData b d indent s1
        | _ \<Rightarrow> s1)"
| "fmtType source node indent s =
     (case node of
        TypeDeclNode b cls sections \<Rightarrow>
          let line = loc_line (nd_location b);
              s1 = emitCommentsBefore line indent s
          in if hasModifier MK_Constraint (nd_modifiers b) then formatConstraint cls line indent s1
             else if hasModifier MK_Adapt (nd_modifiers b) then formatAdapt cls line indent s1
             else if hasModifier MK_TypeFn (nd_modifiers b) then formatTypeFn cls line indent s1
             else emitPlain indent ''}''
                    (fmtTypeSections source sections indent (emitDecl indent (typeHeader b cls) line s1))
      | _ \<Rightarrow> s)"
| "fmtTypeSections source [] indent s = s"
| "fmtTypeSections source (section # rest) indent s =
     fmtTypeSections source rest indent
       (case section of
          VisibilitySection b v members \<Rightarrow>
            fmtTypeMembers source members (indent + 2)
              (emitDecl (indent + 1) (visibilityName v @ '':'') (loc_line (nd_location b)) s)
        | _ \<Rightarrow> s)"
| "fmtTypeMembers source [] indent s = s"
| "fmtTypeMembers source (member # rest) indent s =
     fmtTypeMembers source rest indent
       (let s1 = emitCommentsBefore (nodeLine member) indent s in
        case member of
          TypeDeclNode b cls sections \<Rightarrow> fmtType source member indent s1
        | FnDeclNode b fn \<Rightarrow> formatFnDecl b fn indent s1
        | DataDeclNode b d \<Rightarrow> formatMemberVar b d indent s1
        | _ \<Rightarrow> s1)"
  by pat_completeness auto
termination
  by (relation "measure (case_sum
        (case_sum (case_sum (\<lambda>(source, node, indent, s). size node) (\<lambda>(source, first, nodes, indent, s). size_list size nodes)) (case_sum (\<lambda>(source, nodes, indent, s). size_list size nodes) (\<lambda>(source, node, indent, s). size node)))
        (case_sum (case_sum (\<lambda>(source, nodes, indent, s). size_list size nodes) (\<lambda>(source, node, indent, s). size node)) (case_sum (\<lambda>(source, nodes, indent, s). size_list size nodes) (\<lambda>(source, nodes, indent, s). size_list size nodes))))") auto

declare fmtNamespace.simps [simp del] fmtIf.simps [simp del] fmtType.simps [simp del]

section \<open>The file\<close>

fun isImportNode :: "ASTNode \<Rightarrow> bool" where
  "isImportNode (ImportNode b p ss) = True" | "isImportNode _ = False"

fun stdImportOf :: "ASTNode \<Rightarrow> bool" where
  "stdImportOf (DataDeclNode b d) = isStdImport d" | "stdImportOf _ = False"

fun aliasOf :: "ASTNode \<Rightarrow> bool" where
  "aliasOf (DataDeclNode b d) = (\<not> isStdImport d)" | "aliasOf _ = False"

fun sortText :: "ASTNode \<Rightarrow> string" where
  "sortText (ImportNode b p ss) = p"
| "sortText (DataDeclNode b d) = (if isStdImport d then dd_importPath d else dd_name d)"
| "sortText _ = []"

definition fmtTop :: "string list \<Rightarrow> ASTNode \<Rightarrow> fmt" where
  "fmtTop source node s =
     (let s1 = emitCommentsBefore (nodeLine node) 0 s in
      case node of
        ImportNode b path selected \<Rightarrow> formatImport path selected (nodeLine node) 0 s1
      | DataDeclNode b d \<Rightarrow>
          if isStdImport d then formatStdImport d (nodeLine node) 0 s1 else formatTypeAlias d (nodeLine node) 0 s1
      | NamespaceDecl b path sections internal \<Rightarrow> fmtNamespace source node 0 s1
      | _ \<Rightarrow> emitVerbatimNode source (nodeLine node) 0 s1)"

text \<open>A group of declarations, a blank line before it when something was printed already.\<close>

definition fmtGroup :: "string list \<Rightarrow> ASTNode list \<Rightarrow> bool \<times> FmtState \<Rightarrow> bool \<times> FmtState" where
  "fmtGroup source nodes st =
     (if nodes = [] then st
      else (True, fold (fmtTop source) nodes (if fst st then emitBlankLine (snd st) else snd st)))"

definition formatFile :: "string list \<Rightarrow> ASTNode list \<Rightarrow> fmt" where
  "formatFile source decls s =
     (let incs = sort_key sortText (filter isImportNode decls);
          stds = sort_key sortText (filter stdImportOf decls);
          aliases = sort_key sortText (filter aliasOf decls);
          others = filter (\<lambda>n. \<not> isImportNode n \<and> \<not> stdImportOf n \<and> \<not> aliasOf n) decls;
          start = (case decls of [] \<Rightarrow> s | d # _ \<Rightarrow> emitCommentsBefore (nodeLine d) 0 s)
      in snd (fold (\<lambda>n. fmtGroup source [n]) others
           (fmtGroup source aliases (fmtGroup source stds (fmtGroup source incs (False, start))))))"

definition drainComment :: "CommentToken \<Rightarrow> fmt" where
  "drainComment c = runs [emit (ct_text c), emitLine]"

definition drainComments :: fmt where
  "drainComments s = (fold drainComment (fm_comments s) s)\<lparr>fm_comments := []\<rparr>"

definition dropNewlines :: "string \<Rightarrow> string" where
  "dropNewlines out = rev (dropWhile (\<lambda>c. c = LF) (rev out))"

definition formatSource :: "ASTNode list \<Rightarrow> string \<Rightarrow> CommentToken list \<Rightarrow> string" where
  "formatSource decls source comments =
     dropNewlines (fm_output (drainComments (formatFile (getlines LF source) decls
       \<lparr>fm_output = [], fm_comments = comments, fm_lastWasBlank = False\<rparr>))) @ [LF]"

text \<open>The range is stored and then reset by \<open>format\<close>.\<close>

definition formatRange :: "ASTNode list \<Rightarrow> string \<Rightarrow> CommentToken list \<Rightarrow> int \<Rightarrow> int \<Rightarrow> string" where
  "formatRange decls source comments startLine endLine = formatSource decls source comments"

end
