(* ===== verification/Format_Laws.thy ===== *)
theory Format_Laws
  imports Formatter
begin

text \<open>
  The formatter loses no comment: every step keeps that the comments taken so far stand in the
  output and the others are still pending, in order.  What it does lose of a function is stated too.
\<close>

section \<open>Comments kept\<close>

definition shown :: "CommentToken \<Rightarrow> string \<Rightarrow> bool" where
  "shown c out \<longleftrightarrow> (\<exists>before t after. t \<in> {ct_text c, normalizeComment c} \<and> out = before @ t @ after)"

definition kept :: "CommentToken list \<Rightarrow> FmtState \<Rightarrow> bool" where
  "kept cs s \<longleftrightarrow> (\<exists>taken. cs = taken @ fm_comments s \<and> (\<forall>c\<in>set taken. shown c (fm_output s)))"

definition keeps :: "fmt \<Rightarrow> bool" where
  "keeps f \<longleftrightarrow> (\<forall>cs s. kept cs s \<longrightarrow> kept cs (f s))"

named_theorems keeps_intros

lemma shown_append: "shown c out \<Longrightarrow> shown c (out @ x)"
  unfolding shown_def by (metis append.assoc)

lemma kept_append:
  "kept cs s \<Longrightarrow> fm_comments s' = fm_comments s \<Longrightarrow> fm_output s' = fm_output s @ x \<Longrightarrow> kept cs s'"
  unfolding kept_def using shown_append by metis

lemma keepsD: "keeps f \<Longrightarrow> kept cs s \<Longrightarrow> kept cs (f s)"
  by (simp add: keeps_def)

lemma keeps_emit [keeps_intros]: "keeps (emit text)"
  unfolding keeps_def emit_def by (auto elim: kept_append)

lemma keeps_emitLine [keeps_intros]: "keeps emitLine"
  unfolding keeps_def emitLine_def Let_def by (auto elim: kept_append)

lemma keeps_emitIndent [keeps_intros]: "keeps (emitIndent n)"
  unfolding keeps_def emitIndent_def by (auto elim: kept_append)

lemma keeps_emitBlankLine [keeps_intros]: "keeps emitBlankLine"
  unfolding keeps_def emitBlankLine_def by (auto elim: kept_append)

lemma keeps_id [keeps_intros]: "keeps (\<lambda>s. s)"
  by (simp add: keeps_def)

lemma runs_Nil [simp]: "runs [] s = s"
  by (simp add: runs_def)

lemma runs_Cons [simp]: "runs (f # fs) s = runs fs (f s)"
  by (simp add: runs_def)

lemma keeps_runs_Nil [keeps_intros]: "keeps (runs [])"
  by (simp add: keeps_def)

lemma keeps_runs [keeps_intros]: "keeps f \<Longrightarrow> keeps (runs fs) \<Longrightarrow> keeps (runs (f # fs))"
  by (simp add: keeps_def)

lemma keeps_fold [keeps_intros]: "(\<And>x. keeps (g x)) \<Longrightarrow> keeps (fold g xs)"
  by (induction xs) (simp_all add: keeps_def)

lemma keeps_if [keeps_intros]: "keeps f \<Longrightarrow> keeps g \<Longrightarrow> keeps (if c then f else g)"
  by simp

text \<open>Putting a comment into the output.\<close>

lemma kept_take:
  assumes "kept cs s" "fm_comments s = c # rest" "fm_comments s' = rest"
    "fm_output s' = fm_output s @ x @ t @ y" "t \<in> {ct_text c, normalizeComment c}"
  shows "kept cs s'"
proof -
  obtain taken where taken: "cs = taken @ c # rest" "\<forall>d\<in>set taken. shown d (fm_output s)"
    using assms(1,2) by (auto simp: kept_def)
  have "shown c (fm_output s')" using assms(4,5) unfolding shown_def by (metis append.assoc)
  then have "\<forall>d\<in>set (taken @ [c]). shown d (fm_output s')"
    using taken(2) assms(4) shown_append by fastforce
  then show ?thesis unfolding kept_def using taken(1) assms(3) by (intro exI [of _ "taken @ [c]"]) simp
qed

lemma keeps_emitCommentsBefore [keeps_intros]: "keeps (emitCommentsBefore line indent)"
proof -
  have "kept cs s \<Longrightarrow> kept cs (emitCommentsBefore line indent s)" for cs s
  proof (induction line indent s rule: emitCommentsBefore.induct)
    case (1 line indent s)
    show ?case
    proof (cases "fm_comments s")
      case Nil
      then show ?thesis using "1.prems" by (simp add: emitCommentsBefore.simps)
    next
      case (Cons c rest)
      show ?thesis
      proof (cases "loc_line (ct_location c) \<ge> line")
        case True
        then show ?thesis using Cons "1.prems" by (simp add: emitCommentsBefore.simps)
      next
        case False
        let ?s = "(runs [emitIndent indent, emit (normalizeComment c), emitLine] s)\<lparr>fm_comments := rest\<rparr>"
        have "kept cs ?s"
          by (rule kept_take [OF "1.prems" Cons, of _ "concat (replicate indent ''    '')" "normalizeComment c" "[LF]"])
            (simp_all add: emitIndent_def emit_def emitLine_def Let_def)
        then show ?thesis
          using "1.IH" [OF Cons False] Cons False by (subst emitCommentsBefore.simps) simp
      qed
    qed
  qed
  then show ?thesis by (simp add: keeps_def)
qed

lemma keeps_emitEndOfLineComment [keeps_intros]: "keeps (emitEndOfLineComment line)"
  unfolding keeps_def
proof (intro allI impI)
  fix cs s assume s: "kept cs s"
  show "kept cs (emitEndOfLineComment line s)"
  proof (cases "fm_comments s")
    case (Cons c rest)
    show ?thesis
    proof (cases "loc_line (ct_location c) = line")
      case True
      then show ?thesis
        using kept_take [OF s Cons, of _ "''  ''" "normalizeComment c" "[]"] Cons
        by (simp add: emitEndOfLineComment_def emit_def)
    qed (use s Cons in \<open>simp add: emitEndOfLineComment_def\<close>)
  qed (use s in \<open>simp add: emitEndOfLineComment_def\<close>)
qed

lemma keeps_emitDecl [keeps_intros]: "keeps (emitDecl indent text line)"
  unfolding emitDecl_def by (intro keeps_intros)

lemma keeps_emitPlain [keeps_intros]: "keeps (emitPlain indent text)"
  unfolding emitPlain_def by (intro keeps_intros)

lemma keeps_emitParamLines [keeps_intros]: "keeps (emitParamLines indent ps)"
proof -
  have "kept cs s \<Longrightarrow> kept cs (emitParamLines indent ps s)" for cs s
    by (induction indent ps s rule: emitParamLines.induct) (simp_all add: keepsD [OF keeps_emitPlain])
  then show ?thesis by (simp add: keeps_def)
qed

section \<open>Every declaration keeps them\<close>

lemma keeps_leaves [keeps_intros]:
  "keeps (formatImport path selected line indent)" "keeps (formatStdImport imp line indent)"
  "keeps (formatTypeAlias ta line indent)" "keeps (formatMemberVar b d indent)" "keeps (formatPipelineEdge e indent)"
  "keeps (formatOperation source b op indent)"
  unfolding formatImport_def formatStdImport_def formatTypeAlias_def formatMemberVar_def formatPipelineEdge_def
    formatOperation_def Let_def
  by (intro keeps_intros)+

lemma keeps_formatData [keeps_intros]: "keeps (formatData b d indent)"
  unfolding formatData_def Let_def by (intro keeps_intros)

lemma keeps_formatFnDecl [keeps_intros]: "keeps (formatFnDecl b fn indent)"
  unfolding formatFnDecl_def by (intro keeps_intros)

lemma keeps_rules [keeps_intros]:
  "keeps (formatConstraint cls line indent)" "keeps (formatAdapt cls line indent)"
  "keeps (formatTypeFn cls line indent)"
  unfolding formatConstraint_def formatAdapt_def formatTypeFn_def by (intro keeps_intros)+

lemma keeps_after: "keeps f \<Longrightarrow> keeps g \<Longrightarrow> keeps (\<lambda>s. f (g s))"
  by (simp add: keeps_def)

lemma keeps_operation_step:
  "keeps (\<lambda>s. case op of OperationNode ob d \<Rightarrow> formatOperation source ob d n (emitCommentsBefore line n s)
              | _ \<Rightarrow> emitCommentsBefore line n s)"
  by (cases op) (simp_all add: keeps_after keeps_intros)

lemma keeps_formatFnLogicBlock [keeps_intros]: "keeps (formatFnLogicBlock source b name ops edges indent)"
  unfolding formatFnLogicBlock_def Let_def
  by (intro keeps_emitDecl keeps_emitPlain keeps_runs keeps_runs_Nil keeps_if keeps_fold keeps_operation_step
      keeps_after [OF keeps_leaves(5) keeps_emitCommentsBefore])

lemmas kept_steps =
  keeps_emitPlain [THEN keepsD] keeps_emitDecl [THEN keepsD] keeps_emitCommentsBefore [THEN keepsD]
  keeps_emitBlankLine [THEN keepsD] keeps_formatFnDecl [THEN keepsD] keeps_formatFnLogicBlock [THEN keepsD]
  keeps_formatData [THEN keepsD] keeps_leaves [THEN keepsD] keeps_rules [THEN keepsD]

lemma kept_nested:
  "\<And>cs. kept cs s \<Longrightarrow> kept cs (fmtNamespace source node indent s)"
  "\<And>cs. kept cs s \<Longrightarrow> kept cs (fmtSections source first nodes indent s)"
  "\<And>cs. kept cs s \<Longrightarrow> kept cs (fmtMembers source nodes indent s)"
  "\<And>cs. kept cs s \<Longrightarrow> kept cs (fmtIf source node indent s)"
  "\<And>cs. kept cs s \<Longrightarrow> kept cs (fmtIfMembers source nodes indent s)"
  "\<And>cs. kept cs s \<Longrightarrow> kept cs (fmtType source node indent s)"
  "\<And>cs. kept cs s \<Longrightarrow> kept cs (fmtTypeSections source nodes indent s)"
  "\<And>cs. kept cs s \<Longrightarrow> kept cs (fmtTypeMembers source nodes indent s)"
proof (induction source node indent s and source first nodes indent s and source nodes indent s
    and source node indent s and source nodes indent s and source node indent s and source nodes indent s
    and source nodes indent s
    rule: fmtNamespace_fmtSections_fmtMembers_fmtIf_fmtIfMembers_fmtType_fmtTypeSections_fmtTypeMembers.induct)
  case (1 source node indent s)
  then show ?case by (cases node) (simp_all add: fmtNamespace.simps kept_steps)
next
  case (3 source one sec rest indent s)
  then show ?case by (cases sec; cases one) (simp_all add: kept_steps)
next
  case (5 source member rest indent s)
  then show ?case by (cases member; cases "rest = []") (simp_all add: kept_steps)
next
  case (6 source node indent s)
  then show ?case by (cases node) (simp_all add: fmtIf.simps Let_def kept_steps)
next
  case (8 source member rest indent s)
  then show ?case by (cases member) (simp_all add: kept_steps)
next
  case (9 source node indent s)
  then show ?case by (cases node) (simp_all add: fmtType.simps Let_def kept_steps)
next
  case (11 source sec rest indent s)
  then show ?case by (cases sec) (simp_all add: kept_steps)
next
  case (13 source member rest indent s)
  then show ?case by (cases member) (simp_all add: kept_steps)
qed simp_all


section \<open>The file keeps them\<close>

text \<open>Every top-level declaration is one the formatter prints itself.\<close>

fun printedTop :: "ASTNode \<Rightarrow> bool" where
  "printedTop (ImportNode b p ss) = True"
| "printedTop (DataDeclNode b d) = True"
| "printedTop (NamespaceDecl b p ss i) = True"
| "printedTop _ = False"

lemma kept_fmtTop: "printedTop node \<Longrightarrow> kept cs s \<Longrightarrow> kept cs (fmtTop source node s)"
  by (cases node) (simp_all add: fmtTop_def Let_def kept_steps kept_nested)

lemma kept_fold_fmtTop:
  "list_all printedTop nodes \<Longrightarrow> kept cs s \<Longrightarrow> kept cs (fold (fmtTop source) nodes s)"
  by (induction nodes arbitrary: s) (simp_all add: kept_fmtTop)

lemma kept_fmtGroup:
  "list_all printedTop nodes \<Longrightarrow> kept cs (snd st) \<Longrightarrow> kept cs (snd (fmtGroup source nodes st))"
  by (simp add: fmtGroup_def kept_fold_fmtTop kept_steps)

lemma kept_groups:
  "list_all printedTop nodes \<Longrightarrow> kept cs (snd st) \<Longrightarrow> kept cs (snd (fold (\<lambda>n. fmtGroup source [n]) nodes st))"
  by (induction nodes arbitrary: st) (simp_all add: kept_fmtGroup)

lemma kept_formatFile:
  assumes "list_all printedTop decls" "kept cs s"
  shows "kept cs (formatFile source decls s)"
proof -
  have part: "list_all printedTop (filter P decls)" "list_all printedTop (sort_key f (filter P decls))" for P f
    using assms(1) by (simp_all add: list_all_iff)
  have "kept cs (case decls of [] \<Rightarrow> s | d # _ \<Rightarrow> emitCommentsBefore (nodeLine d) 0 s)"
    using assms(2) by (simp add: kept_steps split: list.split)
  then show ?thesis unfolding formatFile_def Let_def by (intro kept_groups kept_fmtGroup part) simp
qed

lemma drainComment_output: "fm_output (drainComment c s) = fm_output s @ ct_text c @ [LF]"
  by (simp add: drainComment_def runs_def emit_def emitLine_def Let_def)

lemma drain_appends: "\<exists>x. fm_output (fold drainComment cs s) = fm_output s @ x"
proof (induction cs arbitrary: s)
  case (Cons c cs)
  obtain x where "fm_output (fold drainComment cs (drainComment c s)) = fm_output (drainComment c s) @ x"
    using Cons.IH by blast
  then show ?case by (simp add: drainComment_output)
qed simp

lemma drain_shows: "\<forall>c\<in>set cs. shown c (fm_output (fold drainComment cs s))"
proof (induction cs arbitrary: s)
  case (Cons c cs)
  have "shown c (fm_output (drainComment c s))" unfolding shown_def drainComment_output by blast
  then have "shown c (fm_output (fold drainComment cs (drainComment c s)))"
    using drain_appends shown_append by metis
  then show ?case using Cons.IH by simp
qed simp

lemma drained: "kept cs s \<Longrightarrow> \<forall>c\<in>set cs. shown c (fm_output (drainComments s))"
proof -
  assume "kept cs s"
  then obtain taken where taken: "cs = taken @ fm_comments s" "\<forall>c\<in>set taken. shown c (fm_output s)"
    by (auto simp: kept_def)
  have "\<forall>c\<in>set taken. shown c (fm_output (drainComments s))"
    using taken(2) drain_appends [of "fm_comments s" s] shown_append by (fastforce simp: drainComments_def)
  then show ?thesis using taken(1) drain_shows [of "fm_comments s" s] by (auto simp: drainComments_def)
qed

definition wholeText :: "CommentToken \<Rightarrow> bool" where
  "wholeText c \<longleftrightarrow> ct_text c \<noteq> [] \<and> last (ct_text c) \<noteq> LF"

lemma normalize_whole: "wholeText c \<Longrightarrow> normalizeComment c \<noteq> [] \<and> last (normalizeComment c) \<noteq> LF"
  by (auto simp: wholeText_def normalizeComment_def Let_def substr_from_def last_drop)

lemma dropWhile_stop: "\<not> P x \<Longrightarrow> dropWhile P (xs @ x # ys) = dropWhile P xs @ x # ys"
  by (induction xs) auto

lemma dropNewlines_keeps:
  assumes "t \<noteq> []" "last t \<noteq> LF"
  shows "dropNewlines (before @ t @ after) = before @ t @ dropNewlines after"
proof -
  obtain u x where t: "t = u @ [x]" using assms(1) by (metis append_butlast_last_id)
  then have x: "\<not> x = LF" using assms(2) by simp
  show ?thesis
    using dropWhile_stop [of "\<lambda>c. c = LF" x "rev after" "rev u @ rev before", OF x]
    by (simp add: dropNewlines_def t)
qed

lemma dropNewlines_shown: "wholeText c \<Longrightarrow> shown c out \<Longrightarrow> shown c (dropNewlines out)"
proof -
  assume c: "wholeText c" and "shown c out"
  then obtain before t after where t: "t \<in> {ct_text c, normalizeComment c}" "out = before @ t @ after"
    unfolding shown_def by blast
  have "t \<noteq> [] \<and> last t \<noteq> LF" using t(1) c normalize_whole [OF c] by (auto simp: wholeText_def)
  then have "dropNewlines out = before @ t @ dropNewlines after" using dropNewlines_keeps t(2) by blast
  then show "shown c (dropNewlines out)" unfolding shown_def using t(1) by blast
qed


definition sampleComments :: "CommentToken list" where
  "sampleComments =
     [\<lparr>ct_text = ''//first'', ct_location = mkLoc ''a.topo'' 1 1, ct_isBlock = False\<rparr>,
      \<lparr>ct_text = ''// tail'', ct_location = mkLoc ''a.topo'' 9 1, ct_isBlock = False\<rparr>]"

definition sampleNamespace :: ASTNode where
  "sampleNamespace = NamespaceDecl (node_at (mkLoc ''a.topo'' 2 1)) [''m''] [] False"


section \<open>What formatting forgets\<close>

text \<open>
  A function is printed without its binding target, its priority and layout hints, its template
  parameters and its compile-time body; a lifetime group is printed as an alias; a range is not
  looked at.
\<close>

lemma formatFnDecl_forgets:
  fixes fn :: FnDecl and t p ts k a n e
  defines "fn' \<equiv> fn\<lparr>fd_bindingTarget := t, fd_priority := p, fd_templateParams := ts, fd_cardinality := k,
                     fd_accessPattern := a, fd_tiledSize := n, fd_comptimeBody := e\<rparr>"
  shows "formatFnDecl b fn' indent = formatFnDecl b fn indent"
proof -
  have sel: "fd_name fn' = fd_name fn" "fd_params fn' = fd_params fn" "fd_isConst fn' = fd_isConst fn"
    "fd_isStatic fn' = fd_isStatic fn" "fd_isRustStyle fn' = fd_isRustStyle fn"
    "fd_isConstructor fn' = fd_isConstructor fn" "fd_isDestructor fn' = fd_isDestructor fn"
    "fd_isExplicit fn' = fd_isExplicit fn" "fd_className fn' = fd_className fn"
    "fd_operatorOp fn' = fd_operatorOp fn" "fd_returnType fn' = fd_returnType fn"
    "fd_isMultiReturn fn' = fd_isMultiReturn fn" "fd_returnParams fn' = fd_returnParams fn"
    "fd_hasUsedReturnsClause fn' = fd_hasUsedReturnsClause fn"
    "fd_declaredUsedReturns fn' = fd_declaredUsedReturns fn"
    by (simp_all add: fn'_def)
  have line: "fnLine b fn' = fnLine b fn"
    unfolding fnLine_def returnClause_def usedReturnsClause_def sel ..
  show ?thesis
    unfolding formatFnDecl_def splitsParams_def fd_isOperator_def line returnClause_def usedReturnsClause_def sel ..
qed

lemma lifetime_printed_as_alias:
  assumes "isLifetime b" "\<not> isInstantiate b" "dd_importPath d = []"
  shows "formatData b d indent = formatTypeAlias d (loc_line (nd_location b)) indent"
  using assms by (simp add: formatData_def isStdImport_def)

lemma formatRange_whole: "formatRange decls source comments l1 l2 = formatRange decls source comments l3 l4"
  by (simp add: formatRange_def)

end
