(* ===== verification/Equivalence.thy ===== *)
theory Equivalence
  imports Checks
begin

text \<open>
  The structural comparison of two symbol tables (\<open>lib/Transform/SemanticVerifier.cpp\<close>) and the
  check of import paths (\<open>lib/Analysis/ImportPathCheck.cpp\<close>).  Names are visited in order, as the
  sets of the code keep them; the file system is two predicates.
\<close>

section \<open>Comparing tables\<close>

record ComparisonResult =
  sm_equivalent :: bool
  sm_differences :: "string list"

definition sortedNames :: "'v umap \<Rightarrow> string list" where
  "sortedNames m = sort (remdups (map fst m))"

definition countDiff :: "string \<Rightarrow> 'v umap \<Rightarrow> 'v umap \<Rightarrow> string list" where
  "countDiff what a b =
     (if length a \<noteq> length b
      then [what @ '' count mismatch: original has '' @ nat_to_string (length a) @ '', transformed has '' @
            nat_to_string (length b)]
      else [])"

definition nameDiffs :: "string \<Rightarrow> 'v umap \<Rightarrow> 'v umap \<Rightarrow> string list" where
  "nameDiffs what a b =
     map (\<lambda>name. what @ '' '' @ quoted name @ '' missing in transformed output'')
       (filter (\<lambda>name. name \<notin> fst ` set b) (sortedNames a)) @
     map (\<lambda>name. what @ '' '' @ quoted name @ '' unexpected in transformed output'')
       (filter (\<lambda>name. name \<notin> fst ` set a) (sortedNames b))"

definition matchedDiffs :: "(string \<Rightarrow> 'v \<Rightarrow> 'v \<Rightarrow> string list) \<Rightarrow> 'v umap \<Rightarrow> 'v umap \<Rightarrow> string list" where
  "matchedDiffs diff a b =
     concat (map (\<lambda>name. case (map_of a name, map_of b name) of (Some x, Some y) \<Rightarrow> diff name x y | _ \<Rightarrow> [])
       (sortedNames a))"

definition functionDiff :: "string \<Rightarrow> FunctionSymbol \<Rightarrow> FunctionSymbol \<Rightarrow> string list" where
  "functionDiff name fa fb =
     (if length (fs_params fa) \<noteq> length (fs_params fb)
      then [''function '' @ quoted name @ '' parameter count mismatch: '' @ nat_to_string (length (fs_params fa)) @
            '' vs '' @ nat_to_string (length (fs_params fb))]
      else []) @
     (let aRet = ty_toString (fs_returnType fa); bRet = ty_toString (fs_returnType fb) in
      if aRet \<noteq> bRet
      then [''function '' @ quoted name @ '' return type mismatch: '' @ quoted aRet @ '' vs '' @ quoted bRet]
      else [])"

definition compareFunctions :: "SymbolTable \<Rightarrow> SymbolTable \<Rightarrow> string list" where
  "compareFunctions a b =
     (let fa = st_functions a; fb = st_functions b in
      countDiff ''function'' fa fb @ nameDiffs ''function'' fa fb @ matchedDiffs functionDiff fa fb)"

definition classDiff :: "string \<Rightarrow> ClassSymbol \<Rightarrow> ClassSymbol \<Rightarrow> string list" where
  "classDiff name ca cb =
     (if length (cl_memberFunctions ca) \<noteq> length (cl_memberFunctions cb)
      then [''class '' @ quoted name @ '' member function count mismatch: '' @
            nat_to_string (length (cl_memberFunctions ca)) @ '' vs '' @ nat_to_string (length (cl_memberFunctions cb))]
      else [])"

definition compareClasses :: "SymbolTable \<Rightarrow> SymbolTable \<Rightarrow> string list" where
  "compareClasses a b =
     (let ca = st_classSymbols a; cb = st_classSymbols b in
      countDiff ''class'' ca cb @ nameDiffs ''class'' ca cb @ matchedDiffs classDiff ca cb)"

definition boolText :: "bool \<Rightarrow> string" where
  "boolText b = (if b then ''true'' else ''false'')"

definition blockDiff :: "string \<Rightarrow> LogicBlockEntry \<Rightarrow> LogicBlockEntry \<Rightarrow> string list" where
  "blockDiff name la lb =
     (if lb_isPipeline la \<noteq> lb_isPipeline lb
      then [''logic block '' @ quoted name @ '' pipeline flag mismatch: '' @ boolText (lb_isPipeline la) @ '' vs '' @
            boolText (lb_isPipeline lb)]
      else []) @
     (if length (lb_edges la) \<noteq> length (lb_edges lb)
      then [''logic block '' @ quoted name @ '' pipeline edge count mismatch: '' @ nat_to_string (length (lb_edges la)) @
            '' vs '' @ nat_to_string (length (lb_edges lb))]
      else [])"

definition compareLogicBlocks :: "SymbolTable \<Rightarrow> SymbolTable \<Rightarrow> string list" where
  "compareLogicBlocks a b =
     (let la = st_logicBlocks a; lb = st_logicBlocks b in
      countDiff ''logic block'' la lb @ nameDiffs ''logic block'' la lb @ matchedDiffs blockDiff la lb)"

definition constraintDiff :: "string \<Rightarrow> ConstraintSymbol \<Rightarrow> ConstraintSymbol \<Rightarrow> string list" where
  "constraintDiff name ca cb =
     (if length (cs_members ca) \<noteq> length (cs_members cb)
      then [''constraint '' @ quoted name @ '' member count mismatch: '' @ nat_to_string (length (cs_members ca)) @
            '' vs '' @ nat_to_string (length (cs_members cb))]
      else [])"

definition compareConstraints :: "SymbolTable \<Rightarrow> SymbolTable \<Rightarrow> string list" where
  "compareConstraints a b =
     (let ca = st_constraintSymbols a; cb = st_constraintSymbols b in
      countDiff ''constraint'' ca cb @ nameDiffs ''constraint'' ca cb @ matchedDiffs constraintDiff ca cb)"

definition verifyTables :: "SymbolTable \<Rightarrow> SymbolTable \<Rightarrow> ComparisonResult" where
  "verifyTables original transformed =
     (let differences = compareFunctions original transformed @ compareClasses original transformed @
                        compareLogicBlocks original transformed @ compareConstraints original transformed
      in \<lparr>sm_equivalent = differences = [], sm_differences = differences\<rparr>)"

section \<open>What the verdict means\<close>

text \<open>Two maps with the same keys whose values agree.\<close>

definition sameEntries :: "('v \<Rightarrow> 'v \<Rightarrow> bool) \<Rightarrow> 'v umap \<Rightarrow> 'v umap \<Rightarrow> bool" where
  "sameEntries same a b \<longleftrightarrow>
     fst ` set a = fst ` set b \<and>
     (\<forall>name x y. map_of a name = Some x \<longrightarrow> map_of b name = Some y \<longrightarrow> same x y)"

lemma nameDiffs_none: "nameDiffs what a b = [] \<longleftrightarrow> fst ` set a = fst ` set b"
  by (auto simp: nameDiffs_def sortedNames_def filter_empty_conv)

lemma matchedDiffs_none:
  assumes "\<And>name x y. diff name x y = [] \<longleftrightarrow> same x y"
  shows "matchedDiffs diff a b = [] \<longleftrightarrow>
         (\<forall>name x y. map_of a name = Some x \<longrightarrow> map_of b name = Some y \<longrightarrow> same x y)"
proof -
  have "matchedDiffs diff a b = [] \<longleftrightarrow>
        (\<forall>name\<in>fst ` set a. case (map_of a name, map_of b name) of (Some x, Some y) \<Rightarrow> same x y | _ \<Rightarrow> True)"
    by (auto simp: matchedDiffs_def sortedNames_def assms split: option.splits)
  then show ?thesis
    by (auto split: option.splits dest: map_of_SomeD) (metis fst_conv map_of_SomeD)
qed

lemma tables_compared:
  assumes "distinct (map fst a)" "distinct (map fst b)" "\<And>name x y. diff name x y = [] \<longleftrightarrow> same x y"
  shows "countDiff what a b @ nameDiffs what a b @ matchedDiffs diff a b = [] \<longleftrightarrow> sameEntries same a b"
proof -
  have "fst ` set a = fst ` set b \<Longrightarrow> length a = length b"
    using assms(1,2) distinct_card by (metis length_map list.set_map)
  then show ?thesis
    by (auto simp: countDiff_def nameDiffs_none sameEntries_def matchedDiffs_none [OF assms(3)])
qed

definition sameFunction :: "FunctionSymbol \<Rightarrow> FunctionSymbol \<Rightarrow> bool" where
  "sameFunction f g \<longleftrightarrow>
     length (fs_params f) = length (fs_params g) \<and> ty_toString (fs_returnType f) = ty_toString (fs_returnType g)"

definition sameBlock :: "LogicBlockEntry \<Rightarrow> LogicBlockEntry \<Rightarrow> bool" where
  "sameBlock l m \<longleftrightarrow> lb_isPipeline l = lb_isPipeline m \<and> length (lb_edges l) = length (lb_edges m)"

text \<open>
  The verdict compares names and counts: it does not look at parameter types, bindings,
  priorities, stages, edge ends or members.
\<close>

lemma verifyTables_equivalent:
  assumes "distinct (map fst (st_functions a))" "distinct (map fst (st_functions b))"
    "distinct (map fst (st_classSymbols a))" "distinct (map fst (st_classSymbols b))"
    "distinct (map fst (st_logicBlocks a))" "distinct (map fst (st_logicBlocks b))"
    "distinct (map fst (st_constraintSymbols a))" "distinct (map fst (st_constraintSymbols b))"
  shows "sm_equivalent (verifyTables a b) \<longleftrightarrow>
     sameEntries sameFunction (st_functions a) (st_functions b) \<and>
     sameEntries (\<lambda>c d. length (cl_memberFunctions c) = length (cl_memberFunctions d))
       (st_classSymbols a) (st_classSymbols b) \<and>
     sameEntries sameBlock (st_logicBlocks a) (st_logicBlocks b) \<and>
     sameEntries (\<lambda>c d. length (cs_members c) = length (cs_members d))
       (st_constraintSymbols a) (st_constraintSymbols b)"
proof -
  have fd: "functionDiff name f g = [] \<longleftrightarrow> sameFunction f g" for name f g
    by (simp add: functionDiff_def sameFunction_def Let_def)
  have cd: "classDiff name c d = [] \<longleftrightarrow> length (cl_memberFunctions c) = length (cl_memberFunctions d)" for name c d
    by (simp add: classDiff_def)
  have bd: "blockDiff name l m = [] \<longleftrightarrow> sameBlock l m" for name l m
    by (simp add: blockDiff_def sameBlock_def)
  have kd: "constraintDiff name c d = [] \<longleftrightarrow> length (cs_members c) = length (cs_members d)" for name c d
    by (simp add: constraintDiff_def)
  have "compareFunctions a b = [] \<longleftrightarrow> sameEntries sameFunction (st_functions a) (st_functions b)"
    unfolding compareFunctions_def Let_def by (rule tables_compared [OF assms(1,2)]) (rule fd)
  moreover have "compareClasses a b = [] \<longleftrightarrow>
       sameEntries (\<lambda>c d. length (cl_memberFunctions c) = length (cl_memberFunctions d))
         (st_classSymbols a) (st_classSymbols b)"
    unfolding compareClasses_def Let_def by (rule tables_compared [OF assms(3,4)]) (rule cd)
  moreover have "compareLogicBlocks a b = [] \<longleftrightarrow> sameEntries sameBlock (st_logicBlocks a) (st_logicBlocks b)"
    unfolding compareLogicBlocks_def Let_def by (rule tables_compared [OF assms(5,6)]) (rule bd)
  moreover have "compareConstraints a b = [] \<longleftrightarrow>
       sameEntries (\<lambda>c d. length (cs_members c) = length (cs_members d))
         (st_constraintSymbols a) (st_constraintSymbols b)"
    unfolding compareConstraints_def Let_def by (rule tables_compared [OF assms(7,8)]) (rule kd)
  ultimately show ?thesis by (simp add: verifyTables_def)
qed

section \<open>Import paths\<close>

record ImportPathConfig =
  ip_searchDirs :: "string list"
  ip_projectDir :: string
  ip_warnOnly :: bool

record FileSystem =
  sys_isDirectory :: "string \<Rightarrow> bool"
  sys_exists :: "string \<Rightarrow> string \<Rightarrow> bool"

definition searchDirs :: "FileSystem \<Rightarrow> ImportPathConfig \<Rightarrow> string list" where
  "searchDirs sys config =
     filter (sys_isDirectory sys) (ip_searchDirs config) @
     (if ip_projectDir config \<noteq> [] \<and> sys_isDirectory sys (ip_projectDir config) then [ip_projectDir config] else [])"

definition importPathDiag :: "Severity \<Rightarrow> string list \<Rightarrow> ImportEntry \<Rightarrow> CheckDiagnostic" where
  "importPathDiag sev dirs entry =
     \<lparr>cd_severity = sev, cd_check = ''import-path'',
      cd_message = ''std::import path '' @ quoted (ie_path entry) @ '' not found'' @
        (if dirs \<noteq> [] then '' (searched: '' @ join '', '' dirs @ '')'' else []),
      cd_file = loc_file (ie_location entry), cd_line = loc_line (ie_location entry),
      cd_column = loc_column (ie_location entry)\<rparr>"

text \<open>The paths checked so far and the result.\<close>

definition checkImportEntry ::
  "FileSystem \<Rightarrow> string list \<Rightarrow> Severity \<Rightarrow> ImportEntry \<Rightarrow> string list \<times> CheckResult \<Rightarrow> string list \<times> CheckResult" where
  "checkImportEntry sys dirs sev entry st =
     (case st of (checked, result) \<Rightarrow>
      if ie_path entry = [] then (checked, result)
      else if ie_path entry \<in> set checked then (checked, result)
      else
        (ie_path entry # checked,
         if list_ex (\<lambda>dir. sys_exists sys dir (ie_path entry)) dirs then result
         else addDiagnostic (importPathDiag sev dirs entry) result))"

definition checkImportPaths :: "FileSystem \<Rightarrow> SymbolTable \<Rightarrow> ImportPathConfig \<Rightarrow> CheckResult \<Rightarrow> CheckResult" where
  "checkImportPaths sys symbols config result =
     (let incs = st_imports symbols in
      if incs = [] then result
      else
        let dirs = searchDirs sys config;
            sev = (if dirs = [] then Sev_Warning else if ip_warnOnly config then Sev_Warning else Sev_Error)
        in snd (fold (checkImportEntry sys dirs sev) incs ([], result)))"

text \<open>Without a directory to search, or when only warning, the check never fails.\<close>

lemma checkImportEntry_warning:
  "sev \<noteq> Sev_Error \<Longrightarrow>
   cr_errorCount (snd (fold (checkImportEntry sys dirs sev) incs (checked, result))) = cr_errorCount result"
  by (induction incs arbitrary: checked result)
    (simp_all add: checkImportEntry_def addDiagnostic_def countSeverity_def importPathDiag_def Let_def)

lemma checkImportPaths_warns:
  "ip_warnOnly config \<or> searchDirs sys config = [] \<Longrightarrow>
   cr_errorCount (checkImportPaths sys symbols config result) = cr_errorCount result"
  by (auto simp: checkImportPaths_def Let_def checkImportEntry_warning)

end
