(* ===== verification/Query.thy ===== *)
theory Query
  imports Bytes
begin

text \<open>
  The query language of the debugger: its tree, lexer and recursive-descent parser
  (\<open>include/topo/Debug/Query/Ast.h\<close>, \<open>lib/Debug/Query/Parser.cpp\<close>).  A position is an index into
  the source.  Floating-point numbers are of a type of their own; what \<open>strtod\<close> reads is an
  argument of the parser.

  The functions recurse on fuel.  A call uses one unit and every sixth nested call at the latest
  consumes a character, so six units a character and six more never run out
  (\<open>parseQuery_returns\<close>).
\<close>

section \<open>The tree\<close>

datatype BinaryOpKind = BO_Add | BO_Sub | BO_Mul | BO_Div

datatype 'f QExpr =
    QIdent (q_pos: nat) string
  | QInt (q_pos: nat) int
  | QFloat (q_pos: nat) 'f
  | QString (q_pos: nat) string
  | QField (q_pos: nat) "'f QExpr" string
  | QSlice (q_pos: nat) "'f QExpr" "'f QExpr" "'f QExpr"
  | QCall (q_pos: nat) "'f QExpr" "'f QExpr list"
  | QBinary (q_pos: nat) BinaryOpKind "'f QExpr" "'f QExpr"
  | QUnary (q_pos: nat) "'f QExpr"

section \<open>The lexer\<close>

definition querySpace :: "char \<Rightarrow> bool" where
  "querySpace c \<longleftrightarrow> c = SPACE \<or> c = TAB \<or> c = LF \<or> c = CR"

definition skipSpaces :: "string \<Rightarrow> nat \<Rightarrow> nat" where
  "skipSpaces src pos = pos + length (takeWhile querySpace (drop pos src))"

definition charAt :: "string \<Rightarrow> nat \<Rightarrow> char" where
  "charAt src p = (if p < length src then src ! p else NUL)"

definition consume :: "string \<Rightarrow> char \<Rightarrow> nat \<Rightarrow> bool \<times> nat" where
  "consume src c pos0 =
     (let pos = skipSpaces src pos0 in
      if pos < length src \<and> src ! pos = c then (True, pos + 1) else (False, pos))"

definition atRange :: "string \<Rightarrow> nat \<Rightarrow> bool" where
  "atRange src pos0 \<longleftrightarrow>
     (let pos = skipSpaces src pos0 in
      pos + 1 < length src \<and> src ! pos = CHR ''.'' \<and> src ! (pos + 1) = CHR ''.'')"

definition consumeRange :: "string \<Rightarrow> nat \<Rightarrow> bool \<times> nat" where
  "consumeRange src pos0 =
     (let pos = skipSpaces src pos0 in if atRange src pos then (True, pos + 2) else (False, pos))"

definition identChar :: "char \<Rightarrow> bool" where
  "identChar c \<longleftrightarrow> isalnum c \<or> c = CHR ''_''"

text \<open>The name (empty when there is none), its position, and where reading goes on.\<close>

definition tryIdent :: "string \<Rightarrow> nat \<Rightarrow> string \<times> nat \<times> nat" where
  "tryIdent src pos0 =
     (let pos = skipSpaces src pos0 in
      if pos < length src \<and> (isalpha (src ! pos) \<or> src ! pos = CHR ''_'') then
        let name = takeWhile identChar (drop pos src) in (name, pos, pos + length name)
      else ([], pos, pos))"

definition digitsAt :: "string \<Rightarrow> nat \<Rightarrow> nat" where
  "digitsAt src pos = pos + length (takeWhile isdigit (drop pos src))"

definition signAt :: "string \<Rightarrow> nat \<Rightarrow> bool" where
  "signAt src pos \<longleftrightarrow> pos < length src \<and> (src ! pos = CHR ''+'' \<or> src ! pos = CHR ''-'')"

definition startsNumber :: "string \<Rightarrow> nat \<Rightarrow> bool" where
  "startsNumber src pos \<longleftrightarrow>
     pos < length src \<and>
     (isdigit (src ! pos) \<or> signAt src pos \<and> pos + 1 < length src \<and> isdigit (src ! (pos + 1)))"

text \<open>\<open>strtoll\<close> on a literal: digits with a sign, saturating at the bounds of the type.\<close>

definition clamp64 :: "int \<Rightarrow> int" where
  "clamp64 v = max (- (2 ^ 63)) (min (2 ^ 63 - 1) v)"

definition strtoll :: "string \<Rightarrow> int" where
  "strtoll lit =
     (case lit of
        [] \<Rightarrow> 0
      | c # cs \<Rightarrow>
          if c = CHR ''-'' then clamp64 (- int (digits_value 0 cs))
          else if c = CHR ''+'' then clamp64 (int (digits_value 0 cs))
          else clamp64 (int (digits_value 0 lit)))"

text \<open>The end of the mantissa, whether it was fractional, then the exponent.\<close>

definition numberMantissa :: "string \<Rightarrow> nat \<Rightarrow> nat \<times> bool" where
  "numberMantissa src pos =
     (let p1 = digitsAt src (if signAt src pos then pos + 1 else pos) in
      if p1 < length src \<and> src ! p1 = CHR ''.'' \<and>
         \<not> (p1 + 1 < length src \<and> src ! (p1 + 1) = CHR ''.'')
      then (digitsAt src (p1 + 1), True) else (p1, False))"

definition numberEnd :: "string \<Rightarrow> nat \<Rightarrow> nat \<times> bool" where
  "numberEnd src pos =
     (case numberMantissa src pos of (p, isFloat) \<Rightarrow>
      if p < length src \<and> (src ! p = CHR ''e'' \<or> src ! p = CHR ''E'')
      then (digitsAt src (if signAt src (p + 1) then p + 2 else p + 1), True)
      else (p, isFloat))"

text \<open>The characters of a string literal up to its quote; a backslash passes over one character.\<close>

fun stringBody :: "string \<Rightarrow> string \<times> nat" where
  "stringBody [] = ([], 0)"
| "stringBody [c] = (if c = DQUOTE then ([], 1) else ([c], 1))"
| "stringBody (c # d # cs) =
     (if c = DQUOTE then ([], 1)
      else if c = CHR 0x5C then (case stringBody cs of (s, n) \<Rightarrow> (d # s, n + 2))
      else (case stringBody (d # cs) of (s, n) \<Rightarrow> (c # s, n + 1)))"

section \<open>The parser\<close>

datatype 'a parsed = Parsed 'a nat | Failed string | NoFuel

definition atColumn :: "string \<Rightarrow> nat \<Rightarrow> 'a parsed" where
  "atColumn message pos = Failed (message @ '' at column '' @ nat_to_string (pos + 1))"

definition thenParse :: "'a parsed \<Rightarrow> ('a \<Rightarrow> nat \<Rightarrow> 'b parsed) \<Rightarrow> 'b parsed" where
  "thenParse r f = (case r of Parsed x pos \<Rightarrow> f x pos | Failed e \<Rightarrow> Failed e | NoFuel \<Rightarrow> NoFuel)"

lemma thenParse_cong [fundef_cong]:
  "r = r' \<Longrightarrow> (\<And>x pos. r' = Parsed x pos \<Longrightarrow> f x pos = g x pos) \<Longrightarrow> thenParse r f = thenParse r' g"
  by (simp add: thenParse_def split: parsed.split)

definition addOp :: "char \<Rightarrow> BinaryOpKind option" where
  "addOp c = (if c = CHR ''+'' then Some BO_Add else if c = CHR ''-'' then Some BO_Sub else None)"

definition mulOp :: "char \<Rightarrow> BinaryOpKind option" where
  "mulOp c = (if c = CHR ''*'' then Some BO_Mul else if c = CHR ''/'' then Some BO_Div else None)"

text \<open>A number, a string or a name; the parenthesised case is the parser's own.\<close>

definition parseAtom :: "(string \<Rightarrow> 'f) \<Rightarrow> string \<Rightarrow> nat \<Rightarrow> 'f QExpr parsed" where
  "parseAtom toFloat src pos0 =
     (let pos = skipSpaces src pos0 in
      if startsNumber src pos then
        (case numberEnd src pos of (endPos, isFloat) \<Rightarrow>
         let lit = substr src pos (endPos - pos)
         in Parsed (if isFloat then QFloat (pos + 1) (toFloat lit) else QInt (pos + 1) (strtoll lit)) endPos)
      else if pos < length src \<and> src ! pos = DQUOTE then
        (case stringBody (drop (pos + 1) src) of (s, n) \<Rightarrow> Parsed (QString (pos + 1) s) (pos + 1 + n))
      else
        (case tryIdent src pos of (name, start, next) \<Rightarrow>
         if name \<noteq> [] then Parsed (QIdent (start + 1) name) next
         else atColumn ''expected expression'' next))"

function
      parseAddSub :: "(string \<Rightarrow> 'f) \<Rightarrow> string \<Rightarrow> nat \<Rightarrow> nat \<Rightarrow> 'f QExpr parsed"
  and addSubLoop :: "(string \<Rightarrow> 'f) \<Rightarrow> string \<Rightarrow> nat \<Rightarrow> 'f QExpr \<Rightarrow> nat \<Rightarrow> 'f QExpr parsed"
  and parseMulDiv :: "(string \<Rightarrow> 'f) \<Rightarrow> string \<Rightarrow> nat \<Rightarrow> nat \<Rightarrow> 'f QExpr parsed"
  and mulDivLoop :: "(string \<Rightarrow> 'f) \<Rightarrow> string \<Rightarrow> nat \<Rightarrow> 'f QExpr \<Rightarrow> nat \<Rightarrow> 'f QExpr parsed"
  and parseUnary :: "(string \<Rightarrow> 'f) \<Rightarrow> string \<Rightarrow> nat \<Rightarrow> nat \<Rightarrow> 'f QExpr parsed"
  and parsePrimary :: "(string \<Rightarrow> 'f) \<Rightarrow> string \<Rightarrow> nat \<Rightarrow> nat \<Rightarrow> 'f QExpr parsed"
  and parsePostfix :: "(string \<Rightarrow> 'f) \<Rightarrow> string \<Rightarrow> nat \<Rightarrow> 'f QExpr \<Rightarrow> nat \<Rightarrow> 'f QExpr parsed"
  and parseArgs :: "(string \<Rightarrow> 'f) \<Rightarrow> string \<Rightarrow> nat \<Rightarrow> 'f QExpr list \<Rightarrow> nat \<Rightarrow> 'f QExpr list parsed"
  where
  "parseAddSub toFloat src fuel pos =
     (if fuel = 0 then NoFuel
      else thenParse (parseMulDiv toFloat src (fuel - 1) pos) (addSubLoop toFloat src (fuel - 1)))"
| "addSubLoop toFloat src fuel left pos0 =
     (if fuel = 0 then NoFuel
      else
        let pos = skipSpaces src pos0 in
        case addOp (charAt src pos) of
          None \<Rightarrow> Parsed left pos
        | Some op \<Rightarrow>
            thenParse (parseMulDiv toFloat src (fuel - 1) (pos + 1))
              (\<lambda>right. addSubLoop toFloat src (fuel - 1) (QBinary (pos + 1) op left right)))"
| "parseMulDiv toFloat src fuel pos =
     (if fuel = 0 then NoFuel
      else thenParse (parseUnary toFloat src (fuel - 1) pos) (mulDivLoop toFloat src (fuel - 1)))"
| "mulDivLoop toFloat src fuel left pos0 =
     (if fuel = 0 then NoFuel
      else
        let pos = skipSpaces src pos0 in
        case mulOp (charAt src pos) of
          None \<Rightarrow> Parsed left pos
        | Some op \<Rightarrow>
            thenParse (parseUnary toFloat src (fuel - 1) (pos + 1))
              (\<lambda>right. mulDivLoop toFloat src (fuel - 1) (QBinary (pos + 1) op left right)))"
| "parseUnary toFloat src fuel pos0 =
     (if fuel = 0 then NoFuel
      else
        let pos = skipSpaces src pos0 in
        if charAt src pos = CHR ''-'' \<and> \<not> isdigit (charAt src (pos + 1)) then
          thenParse (parseUnary toFloat src (fuel - 1) (pos + 1)) (\<lambda>operand. Parsed (QUnary (pos + 1) operand))
        else
          thenParse (parsePrimary toFloat src (fuel - 1) pos) (parsePostfix toFloat src (fuel - 1)))"
| "parsePrimary toFloat src fuel pos0 =
     (if fuel = 0 then NoFuel
      else
        (case consume src (CHR ''('') pos0 of
           (True, pos) \<Rightarrow>
             thenParse (parseAddSub toFloat src (fuel - 1) pos) (\<lambda>inner p.
               case consume src (CHR '')'') p of
                 (True, p1) \<Rightarrow> Parsed inner p1
               | (False, p1) \<Rightarrow> atColumn (''expected '' @ quoted '')'') p1)
         | (False, pos) \<Rightarrow> parseAtom toFloat src pos))"
| "parsePostfix toFloat src fuel base pos0 =
     (if fuel = 0 then NoFuel
      else if \<not> atRange src pos0 \<and> fst (consume src (CHR ''.'') pos0) then
        (case tryIdent src (snd (consume src (CHR ''.'') pos0)) of (name, start, next) \<Rightarrow>
         if name = [] then atColumn (''expected field name after '' @ quoted ''.'') next
         else parsePostfix toFloat src (fuel - 1) (QField (start + 1) base name) next)
      else
        (case consume src (CHR ''['') pos0 of
           (True, pos) \<Rightarrow>
             thenParse (parseAddSub toFloat src (fuel - 1) pos) (\<lambda>start p.
               case consumeRange src p of
                 (False, p1) \<Rightarrow> atColumn (''expected '' @ quoted ''..'' @ '' inside slice'') p1
               | (True, p1) \<Rightarrow>
                   thenParse (parseAddSub toFloat src (fuel - 1) p1) (\<lambda>endExpr p2.
                     case consume src (CHR '']'') p2 of
                       (False, p3) \<Rightarrow> atColumn (''expected '' @ quoted '']'') p3
                     | (True, p3) \<Rightarrow>
                         parsePostfix toFloat src (fuel - 1) (QSlice (q_pos base) base start endExpr) p3))
         | (False, pos) \<Rightarrow>
             (case consume src (CHR ''('') pos of
                (True, p) \<Rightarrow>
                  (case consume src (CHR '')'') p of
                     (True, p1) \<Rightarrow> parsePostfix toFloat src (fuel - 1) (QCall (q_pos base) base []) p1
                   | (False, p1) \<Rightarrow>
                       thenParse (parseArgs toFloat src (fuel - 1) [] p1)
                         (\<lambda>args. parsePostfix toFloat src (fuel - 1) (QCall (q_pos base) base args)))
              | (False, p) \<Rightarrow> Parsed base p)))"
| "parseArgs toFloat src fuel args pos =
     (if fuel = 0 then NoFuel
      else
        thenParse (parseAddSub toFloat src (fuel - 1) pos) (\<lambda>arg p.
          case consume src (CHR '','') p of
            (True, p1) \<Rightarrow> parseArgs toFloat src (fuel - 1) (args @ [arg]) p1
          | (False, p1) \<Rightarrow>
              (case consume src (CHR '')'') p1 of
                 (True, p2) \<Rightarrow> Parsed (args @ [arg]) p2
               | (False, p2) \<Rightarrow> atColumn (''expected '' @ quoted '','' @ '' or '' @ quoted '')'' @ '' in call'') p2)))"
  by pat_completeness auto
termination
  by (relation "measure (case_sum
        (case_sum (case_sum (\<lambda>(f, s, fuel, p). fuel) (\<lambda>(f, s, fuel, l, p). fuel))
          (case_sum (\<lambda>(f, s, fuel, p). fuel) (\<lambda>(f, s, fuel, l, p). fuel)))
        (case_sum (case_sum (\<lambda>(f, s, fuel, p). fuel) (\<lambda>(f, s, fuel, p). fuel))
          (case_sum (\<lambda>(f, s, fuel, b, p). fuel) (\<lambda>(f, s, fuel, as, p). fuel))))") auto

definition queryFuel :: "string \<Rightarrow> nat" where
  "queryFuel source = 6 * length source + 6"

definition parseQuery :: "(string \<Rightarrow> 'f) \<Rightarrow> string \<Rightarrow> 'f QExpr parsed" where
  "parseQuery toFloat source =
     thenParse (parseAddSub toFloat source (queryFuel source) 0) (\<lambda>expr p.
       let pos = skipSpaces source p in
       if pos < length source then atColumn ''unexpected trailing input'' pos else Parsed expr pos)"

end
