(* ===== verification/QueryEval.thy ===== *)
theory QueryEval
  imports Query Matcher AST
begin

text \<open>
  Frames and the evaluator of queries (\<open>lib/Debug/Query/FrameView.cpp\<close>, \<open>Evaluator.cpp\<close>,
  \<open>Value.cpp\<close>).  A view is a window into a buffer: an offset and the size it claims.  Reading
  outside the buffer, and arithmetic that leaves the machine type, are outcomes of their own.

  IEEE arithmetic is a record of operations.  The detail blocks of pass reports are JSON of a
  third-party library: what a detail query finds in them is an argument.
\<close>

section \<open>Frames\<close>

record ByteSpan =
  bs_buffer :: "u8 list"
  bs_offset :: nat
  bs_size :: nat

record StructField =
  sd_name :: string
  sd_offset :: nat
  sd_dtype :: string

record StructLayout =
  sl_name :: string
  sl_strideBytes :: nat
  sl_fields :: "StructField list"

record LayoutDescriptor =
  ly_dtype :: string
  ly_shape :: "int list"
  ly_strides :: "int list"
  ly_soa :: bool
  ly_isStruct :: bool
  ly_structLayout :: StructLayout

record FrameView =
  fv_variable :: string
  fv_layout :: LayoutDescriptor
  fv_bytes :: ByteSpan
  fv_shmRef :: bool
  fv_elemStride :: nat

definition kSizes :: "(string \<times> nat) list" where
  "kSizes = [(''i8'', 1), (''u8'', 1), (''i16'', 2), (''u16'', 2), (''i32'', 4), (''u32'', 4), (''f32'', 4),
             (''i64'', 8), (''u64'', 8), (''f64'', 8)]"

definition dtypeSize :: "string \<Rightarrow> nat" where
  "dtypeSize dtype = (case map_of kSizes dtype of Some n \<Rightarrow> n | None \<Rightarrow> 0)"

definition isSupportedDtype :: "string \<Rightarrow> bool" where
  "isSupportedDtype dtype \<longleftrightarrow> dtypeSize dtype \<noteq> 0"

text \<open>The product in 64 bits; a negative dimension ends it with zero.\<close>

definition wrapInt64 :: "int \<Rightarrow> int" where
  "wrapInt64 v = (v + 2 ^ 63) mod 2 ^ 64 - 2 ^ 63"

fun numelFrom :: "int \<Rightarrow> int list \<Rightarrow> int" where
  "numelFrom n [] = n"
| "numelFrom n (d # ds) = (if d < 0 then 0 else numelFrom (wrapInt64 (n * d)) ds)"

definition numel :: "int list \<Rightarrow> int" where
  "numel shape = numelFrom 1 shape"

definition owned :: "string \<Rightarrow> u8 list \<Rightarrow> LayoutDescriptor \<Rightarrow> FrameView" where
  "owned variable bytes layout =
     \<lparr>fv_variable = variable, fv_layout = layout,
      fv_bytes = \<lparr>bs_buffer = bytes, bs_offset = 0, bs_size = length bytes\<rparr>, fv_shmRef = False, fv_elemStride = 0\<rparr>"

definition reference :: "string \<Rightarrow> ByteSpan \<Rightarrow> LayoutDescriptor \<Rightarrow> FrameView" where
  "reference variable bytes layout =
     \<lparr>fv_variable = variable, fv_layout = layout, fv_bytes = bytes, fv_shmRef = False, fv_elemStride = 0\<rparr>"

definition effectiveElemStride :: "FrameView \<Rightarrow> nat" where
  "effectiveElemStride v =
     (if fv_elemStride v \<noteq> 0 then fv_elemStride v else dtypeSize (ly_dtype (fv_layout v)))"

definition isStrided :: "FrameView \<Rightarrow> bool" where
  "isStrided v \<longleftrightarrow> fv_elemStride v \<noteq> 0 \<and> fv_elemStride v \<noteq> dtypeSize (ly_dtype (fv_layout v))"

section \<open>Values and outcomes\<close>

datatype 'f QValue =
    QV_None | QV_Int int | QV_Float 'f | QV_String string | QV_IntList "int list" | QV_FloatList "'f list"
  | QV_StringList "string list" | QV_Frame FrameView

datatype 'a evaluated = Evaluated 'a | EvalError string | ReadOutside | Overflowed

definition thenEval :: "'a evaluated \<Rightarrow> ('a \<Rightarrow> 'b evaluated) \<Rightarrow> 'b evaluated" where
  "thenEval r f =
     (case r of Evaluated x \<Rightarrow> f x | EvalError e \<Rightarrow> EvalError e | ReadOutside \<Rightarrow> ReadOutside | Overflowed \<Rightarrow> Overflowed)"

lemma thenEval_cong [fundef_cong]:
  "r = r' \<Longrightarrow> (\<And>x. r' = Evaluated x \<Longrightarrow> f x = g x) \<Longrightarrow> thenEval r f = thenEval r' g"
  by (simp add: thenEval_def split: evaluated.split)

text \<open>
  The operations of \<open>double\<close> the evaluator uses; \<open>fo_integral\<close> is the value of a finite number
  without a fraction.
\<close>

record 'f FloatOps =
  fo_ofInt :: "int \<Rightarrow> 'f"
  fo_f32 :: "u8 list \<Rightarrow> 'f"
  fo_f64 :: "u8 list \<Rightarrow> 'f"
  fo_add :: "'f \<Rightarrow> 'f \<Rightarrow> 'f"
  fo_sub :: "'f \<Rightarrow> 'f \<Rightarrow> 'f"
  fo_mul :: "'f \<Rightarrow> 'f \<Rightarrow> 'f"
  fo_div :: "'f \<Rightarrow> 'f \<Rightarrow> 'f"
  fo_neg :: "'f \<Rightarrow> 'f"
  fo_less :: "'f \<Rightarrow> 'f \<Rightarrow> bool"
  fo_isZero :: "'f \<Rightarrow> bool"
  fo_inf :: 'f
  fo_floor :: "'f \<Rightarrow> int"
  fo_integral :: "'f \<Rightarrow> int option"
  fo_show :: "'f \<Rightarrow> string"

section \<open>Reading\<close>

text \<open>The bytes of an element, when they lie in the buffer.\<close>

definition elementBytes :: "FrameView \<Rightarrow> int \<Rightarrow> u8 list evaluated" where
  "elementBytes v i =
     (let b = fv_bytes v; size = dtypeSize (ly_dtype (fv_layout v));
          at = bs_offset b + nat i * effectiveElemStride v
      in if 0 \<le> i \<and> at + size \<le> length (bs_buffer b) then Evaluated (take size (drop at (bs_buffer b)))
         else ReadOutside)"

fun littleEndian :: "u8 list \<Rightarrow> int" where
  "littleEndian [] = 0"
| "littleEndian (b # bs) = uint b + 256 * littleEndian bs"

definition twosComplement :: "u8 list \<Rightarrow> int" where
  "twosComplement bs =
     (let n = littleEndian bs; m = 256 ^ length bs in if 2 * n < m then n else n - m)"

definition isIntegralDtype :: "string \<Rightarrow> bool" where
  "isIntegralDtype dt \<longleftrightarrow>
     dt \<in> {''i8'', ''i16'', ''i32'', ''i64'', ''u8'', ''u16'', ''u32'', ''u64''}"

definition asDouble :: "'f FloatOps \<Rightarrow> string \<Rightarrow> u8 list \<Rightarrow> 'f" where
  "asDouble ops dt bs =
     (if dt = ''f32'' then fo_f32 ops bs
      else if dt = ''f64'' then fo_f64 ops bs
      else if dt \<in> {''i8'', ''i16'', ''i32'', ''i64''} then fo_ofInt ops (twosComplement bs)
      else fo_ofInt ops (littleEndian bs))"

definition readDoubleAt :: "'f FloatOps \<Rightarrow> FrameView \<Rightarrow> int \<Rightarrow> 'f evaluated" where
  "readDoubleAt ops v i = thenEval (elementBytes v i) (\<lambda>bs. Evaluated (asDouble ops (ly_dtype (fv_layout v)) bs))"

fun foldFrom :: "'f FloatOps \<Rightarrow> ('f \<Rightarrow> 'f \<Rightarrow> 'f) \<Rightarrow> FrameView \<Rightarrow> nat list \<Rightarrow> 'f \<Rightarrow> 'f evaluated" where
  "foldFrom ops fn v [] acc = Evaluated acc"
| "foldFrom ops fn v (i # is) acc =
     thenEval (readDoubleAt ops v (int i)) (\<lambda>x. foldFrom ops fn v is (fn acc x))"

definition foldElements :: "'f FloatOps \<Rightarrow> FrameView \<Rightarrow> ('f \<Rightarrow> 'f \<Rightarrow> 'f) \<Rightarrow> 'f \<Rightarrow> 'f evaluated" where
  "foldElements ops v fn init = foldFrom ops fn v [0..<nat (numel (ly_shape (fv_layout v)))] init"

text \<open>Products in \<open>uint64_t\<close>.\<close>

definition mulOverflows :: "nat \<Rightarrow> nat \<Rightarrow> bool" where
  "mulOverflows a b \<longleftrightarrow> a \<noteq> 0 \<and> b > (2 ^ 64 - 1) div a"

definition validateReadable :: "FrameView \<Rightarrow> unit evaluated" where
  "validateReadable v =
     (let ly = fv_layout v; n = numel (ly_shape ly); stride = effectiveElemStride v; size = bs_size (fv_bytes v) in
      if fv_shmRef v then EvalError ''shm not yet implemented''
      else if ly_isStruct ly then
        EvalError (''cannot reduce over struct '' @ quoted (sl_name (ly_structLayout ly)) @ '' '' @ em_dash @
          '' field selection required (e.g. sum('' @ fv_variable v @ ''.'' @
          (case sl_fields (ly_structLayout ly) of [] \<Rightarrow> ''<field>'' | f # _ \<Rightarrow> sd_name f) @ ''))'')
      else if \<not> isSupportedDtype (ly_dtype ly) then EvalError (''unsupported dtype '' @ quoted (ly_dtype ly))
      else if n < 0 then EvalError ''invalid (negative) element count''
      else
        let elemSize = dtypeSize (ly_dtype ly);
            strided = isStrided v \<and> n > 0;
            base = (if strided then nat (n - 1) * stride else nat n * stride);
            need = (if strided then base + elemSize else base)
        in if (if strided then mulOverflows (nat (n - 1)) stride \<or> base > 2 ^ 64 - 1 - elemSize
               else mulOverflows (nat n) stride)
           then EvalError ''frame byte size overflow for shape/stride''
           else if size < need
           then EvalError (''frame byte buffer too small for shape (expected '' @ nat_to_string need @ '', got '' @
                  nat_to_string size @ '')'')
           else Evaluated ())"

section \<open>Reductions\<close>

text \<open>
  An accumulated \<open>double\<close> as an integer when it has no fraction and passes the range test, whose
  upper bound is the \<open>double\<close> next to the largest integer, that is \<open>2^63\<close>.
\<close>

definition intOrFloat :: "'f FloatOps \<Rightarrow> string \<Rightarrow> 'f \<Rightarrow> 'f QValue evaluated" where
  "intOrFloat ops dt acc =
     (case fo_integral ops acc of
        Some k \<Rightarrow>
          if isIntegralDtype dt \<and> - (2 ^ 63) \<le> k \<and> k \<le> 2 ^ 63
          then (if k = 2 ^ 63 then Overflowed else Evaluated (QV_Int k))
          else Evaluated (QV_Float acc)
      | None \<Rightarrow> Evaluated (QV_Float acc))"

definition builtinSum :: "'f FloatOps \<Rightarrow> FrameView \<Rightarrow> 'f QValue evaluated" where
  "builtinSum ops v =
     thenEval (validateReadable v) (\<lambda>_.
       let dt = ly_dtype (fv_layout v) in
       if numel (ly_shape (fv_layout v)) = 0
       then Evaluated (if isIntegralDtype dt then QV_Int 0 else QV_Float (fo_ofInt ops 0))
       else thenEval (foldElements ops v (fo_add ops) (fo_ofInt ops 0)) (intOrFloat ops dt))"

definition builtinMean :: "'f FloatOps \<Rightarrow> FrameView \<Rightarrow> 'f QValue evaluated" where
  "builtinMean ops v =
     thenEval (validateReadable v) (\<lambda>_.
       let n = numel (ly_shape (fv_layout v)) in
       if n = 0 then EvalError ''mean: empty input''
       else thenEval (foldElements ops v (fo_add ops) (fo_ofInt ops 0))
              (\<lambda>acc. Evaluated (QV_Float (fo_div ops acc (fo_ofInt ops n)))))"

definition builtinMin :: "'f FloatOps \<Rightarrow> FrameView \<Rightarrow> 'f QValue evaluated" where
  "builtinMin ops v =
     thenEval (validateReadable v) (\<lambda>_.
       if numel (ly_shape (fv_layout v)) = 0 then EvalError ''min: empty input''
       else thenEval (foldElements ops v (\<lambda>a x. if fo_less ops x a then x else a) (fo_inf ops))
              (intOrFloat ops (ly_dtype (fv_layout v))))"

definition builtinMax :: "'f FloatOps \<Rightarrow> FrameView \<Rightarrow> 'f QValue evaluated" where
  "builtinMax ops v =
     thenEval (validateReadable v) (\<lambda>_.
       if numel (ly_shape (fv_layout v)) = 0 then EvalError ''max: empty input''
       else thenEval (foldElements ops v (\<lambda>a x. if fo_less ops a x then x else a) (fo_neg ops (fo_inf ops)))
              (intOrFloat ops (ly_dtype (fv_layout v))))"

definition builtinCount :: "FrameView \<Rightarrow> 'f QValue evaluated" where
  "builtinCount v = Evaluated (QV_Int (numel (ly_shape (fv_layout v))))"

definition builtinShape :: "FrameView \<Rightarrow> 'f QValue evaluated" where
  "builtinShape v = Evaluated (QV_IntList (ly_shape (fv_layout v)))"

definition builtinDtype :: "FrameView \<Rightarrow> 'f QValue evaluated" where
  "builtinDtype v = Evaluated (QV_String (ly_dtype (fv_layout v)))"

definition sampleIndex :: "'f FloatOps \<Rightarrow> int \<Rightarrow> int \<Rightarrow> int \<Rightarrow> int" where
  "sampleIndex ops n k i =
     (let idx = fo_floor ops (fo_mul ops (fo_ofInt ops i) (fo_div ops (fo_ofInt ops n) (fo_ofInt ops k)))
      in if idx \<ge> n then n - 1 else idx)"

fun sampleAll :: "'f FloatOps \<Rightarrow> FrameView \<Rightarrow> int list \<Rightarrow> 'f list evaluated" where
  "sampleAll ops v [] = Evaluated []"
| "sampleAll ops v (i # is) =
     thenEval (readDoubleAt ops v i) (\<lambda>d. thenEval (sampleAll ops v is) (\<lambda>ds. Evaluated (d # ds)))"

text \<open>The cast of a sampled \<open>double\<close> back to a signed integer.\<close>

definition castInt :: "'f FloatOps \<Rightarrow> 'f \<Rightarrow> int evaluated" where
  "castInt ops d =
     (case fo_integral ops d of
        Some k \<Rightarrow> if - (2 ^ 63) \<le> k \<and> k < 2 ^ 63 then Evaluated k else Overflowed
      | None \<Rightarrow> Overflowed)"

fun castAll :: "'f FloatOps \<Rightarrow> 'f list \<Rightarrow> int list evaluated" where
  "castAll ops [] = Evaluated []"
| "castAll ops (d # ds) = thenEval (castInt ops d) (\<lambda>k. thenEval (castAll ops ds) (\<lambda>ks. Evaluated (k # ks)))"

definition builtinSample :: "'f FloatOps \<Rightarrow> FrameView \<Rightarrow> int \<Rightarrow> 'f QValue evaluated" where
  "builtinSample ops v k0 =
     thenEval (validateReadable v) (\<lambda>_.
       let n = numel (ly_shape (fv_layout v)); isFloat = \<not> isIntegralDtype (ly_dtype (fv_layout v)) in
       if k0 < 0 then EvalError ''sample: count must be >= 0''
       else
         let k = min k0 n in
         if k = 0 then Evaluated (if isFloat then QV_FloatList [] else QV_IntList [])
         else
           thenEval (sampleAll ops v (map (sampleIndex ops n k) [0..k - 1])) (\<lambda>ds.
             if isFloat then Evaluated (QV_FloatList ds)
             else thenEval (castAll ops ds) (\<lambda>ks. Evaluated (QV_IntList ks))))"

section \<open>Slices and fields\<close>

text \<open>Products of \<open>size_t\<close>; the product of the inner dimensions is one of \<open>int64_t\<close> before.\<close>

definition toSize :: "int \<Rightarrow> nat" where
  "toSize v = nat (v mod 2 ^ 64)"

definition rowElems :: "int list \<Rightarrow> int" where
  "rowElems shape = fold (\<lambda>d n. wrapInt64 (n * d)) (tl shape) 1"

definition sliceFrame :: "FrameView \<Rightarrow> int \<Rightarrow> int \<Rightarrow> 'f QValue evaluated" where
  "sliceFrame parent start end' =
     thenEval (validateReadable parent) (\<lambda>_.
       let ly = fv_layout parent in
       case ly_shape ly of
         [] \<Rightarrow> EvalError ''cannot slice a scalar''
       | dim0 # inner \<Rightarrow>
           if start < 0 \<or> end' > dim0 \<or> start > end' then
             EvalError (''slice ['' @ int_to_string start @ ''..'' @ int_to_string end' @
               ''] out of bounds for dim0='' @ int_to_string dim0)
           else
             let elemSize = dtypeSize (ly_dtype ly);
                 strided = isStrided parent;
                 dim0Step = (if strided then effectiveElemStride parent
                             else toSize (int (toSize (rowElems (ly_shape ly))) * int elemSize));
                 byteOffset = toSize (start * int dim0Step);
                 count = end' - start;
                 byteLen = (if strided
                            then (if count > 0 then toSize ((count - 1) * int dim0Step + int elemSize) else 0)
                            else toSize (count * int dim0Step));
                 b = fv_bytes parent;
                 child = reference
                   (fv_variable parent @ ''['' @ int_to_string start @ ''..'' @ int_to_string end' @ '']'')
                   \<lparr>bs_buffer = bs_buffer b, bs_offset = bs_offset b + byteOffset, bs_size = byteLen\<rparr>
                   (ly\<lparr>ly_shape := count # inner, ly_strides := []\<rparr>)
             in Evaluated (QV_Frame (if strided then child\<lparr>fv_elemStride := effectiveElemStride parent\<rparr> else child)))"

definition fieldView :: "string \<Rightarrow> FrameView \<Rightarrow> 'f QValue evaluated" where
  "fieldView name parent =
     (let pl = fv_layout parent in
      if \<not> ly_isStruct pl then
        EvalError (''field access '' @ quoted (''.'' @ name) @ '' on a non-struct frame (dtype='' @
          quoted (ly_dtype pl) @ '')'')
      else
        (case find (\<lambda>f. sd_name f = name) (sl_fields (ly_structLayout pl)) of
           None \<Rightarrow> EvalError (''unknown field '' @ quoted name @ '' in struct '' @ quoted (sl_name (ly_structLayout pl)))
         | Some hit \<Rightarrow>
             if \<not> isSupportedDtype (sd_dtype hit) then
               EvalError (''field '' @ quoted name @ '' has unsupported dtype '' @ quoted (sd_dtype hit))
             else
               let b = fv_bytes parent in
               if sd_offset hit \<ge> bs_size b then
                 EvalError (''field '' @ quoted name @ '' offset '' @ nat_to_string (sd_offset hit) @
                   '' out of frame bytes ('' @ nat_to_string (bs_size b) @ '')'')
               else
                 Evaluated (QV_Frame ((reference (fv_variable parent @ ''.'' @ sd_name hit)
                   \<lparr>bs_buffer = bs_buffer b, bs_offset = bs_offset b + sd_offset hit, bs_size = bs_size b - sd_offset hit\<rparr>
                   \<lparr>ly_dtype = sd_dtype hit, ly_shape = ly_shape pl, ly_strides = [], ly_soa = False, ly_isStruct = False,
                    ly_structLayout = \<lparr>sl_name = [], sl_strideBytes = 0, sl_fields = []\<rparr>\<rparr>)
                   \<lparr>fv_elemStride := sl_strideBytes (ly_structLayout pl)\<rparr>))))"

section \<open>The environment\<close>

record PassReportHeader =
  prh_passName :: string
  prh_category :: string
  prh_fired :: bool
  prh_firedCount :: int
  prh_decision :: string
  prh_reason :: string
  prh_elapsedNs :: int

text \<open>
  The registry: the headers by pass, and what the detail block of a pass answers to a built-in and
  a key: nothing, a name, indices or names.
\<close>

datatype DetailAnswer = DA_None | DA_String string | DA_Ints "int list" | DA_Strings "string list"

record PassReports =
  pr_reports :: "PassReportHeader umap"
  pr_detail :: "string \<Rightarrow> string \<Rightarrow> string \<Rightarrow> DetailAnswer"

record Environment =
  en_variables :: "FrameView umap"
  en_passReports :: "PassReports option"

fun detailAnswer :: "DetailAnswer \<Rightarrow> 'f QValue" where
  "detailAnswer DA_None = QV_None"
| "detailAnswer (DA_String s) = QV_String s"
| "detailAnswer (DA_Ints ks) = QV_IntList ks"
| "detailAnswer (DA_Strings ss) = QV_StringList ss"

definition findHeader :: "PassReports \<Rightarrow> string \<Rightarrow> PassReportHeader option" where
  "findHeader reports passName = map_of (pr_reports reports) passName"

section \<open>Arithmetic\<close>

fun opName :: "BinaryOpKind \<Rightarrow> string" where
  "opName BO_Add = ''+''"
| "opName BO_Sub = ''-''"
| "opName BO_Mul = ''*''"
| "opName BO_Div = ''/''"

fun isScalar :: "'f QValue \<Rightarrow> bool" where
  "isScalar (QV_Int _) = True"
| "isScalar (QV_Float _) = True"
| "isScalar _ = False"

fun kindWord :: "'f QValue \<Rightarrow> string" where
  "kindWord (QV_String _) = ''string''"
| "kindWord (QV_Frame _) = ''array''"
| "kindWord _ = ''other''"

definition requireScalar :: "'f QValue \<Rightarrow> string \<Rightarrow> string \<Rightarrow> unit evaluated" where
  "requireScalar v role opLabel =
     (if isScalar v then Evaluated ()
      else EvalError (role @ '' of '' @ quoted opLabel @ '' must be int or float (got '' @ kindWord v @ '')''))"

fun scalarDouble :: "'f FloatOps \<Rightarrow> 'f QValue \<Rightarrow> 'f" where
  "scalarDouble ops (QV_Float x) = x"
| "scalarDouble ops (QV_Int k) = fo_ofInt ops k"
| "scalarDouble ops _ = fo_ofInt ops 0"

definition floatBinary :: "'f FloatOps \<Rightarrow> BinaryOpKind \<Rightarrow> 'f \<Rightarrow> 'f \<Rightarrow> 'f QValue evaluated" where
  "floatBinary ops op l r =
     (case op of
        BO_Add \<Rightarrow> Evaluated (QV_Float (fo_add ops l r))
      | BO_Sub \<Rightarrow> Evaluated (QV_Float (fo_sub ops l r))
      | BO_Mul \<Rightarrow> Evaluated (QV_Float (fo_mul ops l r))
      | BO_Div \<Rightarrow> if fo_isZero ops r then EvalError ''division by zero'' else Evaluated (QV_Float (fo_div ops l r)))"

definition inInt64 :: "int \<Rightarrow> bool" where
  "inInt64 k \<longleftrightarrow> - (2 ^ 63) \<le> k \<and> k < 2 ^ 63"

text \<open>The checked operations report what leaves 64 bits.\<close>

definition checkedInt :: "BinaryOpKind \<Rightarrow> int \<Rightarrow> 'f QValue evaluated" where
  "checkedInt op out =
     (if inInt64 out then Evaluated (QV_Int out) else EvalError (''integer overflow in '' @ quoted (opName op)))"

definition binaryValue :: "'f FloatOps \<Rightarrow> BinaryOpKind \<Rightarrow> 'f QValue \<Rightarrow> 'f QValue \<Rightarrow> 'f QValue evaluated" where
  "binaryValue ops op lhs rhs =
     thenEval (requireScalar lhs ''left operand'' (opName op)) (\<lambda>_.
     thenEval (requireScalar rhs ''right operand'' (opName op)) (\<lambda>_.
       case (lhs, rhs, op) of
         (QV_Int l, QV_Int r, BO_Add) \<Rightarrow> checkedInt op (l + r)
       | (QV_Int l, QV_Int r, BO_Sub) \<Rightarrow> checkedInt op (l - r)
       | (QV_Int l, QV_Int r, BO_Mul) \<Rightarrow> checkedInt op (l * r)
       | _ \<Rightarrow> floatBinary ops op (scalarDouble ops lhs) (scalarDouble ops rhs)))"

text \<open>The negation is a plain one: that of the least integer overflows.\<close>

definition negValue :: "'f FloatOps \<Rightarrow> 'f QValue \<Rightarrow> 'f QValue evaluated" where
  "negValue ops v =
     thenEval (requireScalar v ''operand'' ''-'') (\<lambda>_.
       case v of
         QV_Float x \<Rightarrow> Evaluated (QV_Float (fo_neg ops x))
       | QV_Int k \<Rightarrow> if inInt64 (- k) then Evaluated (QV_Int (- k)) else Overflowed
       | _ \<Rightarrow> EvalError ''internal: unhandled unary op'')"

section \<open>Built-ins\<close>

definition kFrameBuiltins :: "string list" where
  "kFrameBuiltins = [''sum'', ''mean'', ''min'', ''max'', ''count'', ''shape'', ''dtype'', ''sample'']"

definition builtinReductionNames :: "string list" where
  "builtinReductionNames = [''sum'', ''mean'', ''min'', ''max'', ''count'', ''shape'', ''dtype'', ''sample'']"

definition kPassReportBuiltins :: "string list" where
  "kPassReportBuiltins =
     [''pass_decision'', ''pass_fired'', ''pass_reason'', ''pass_count'', ''pass_field_rename'',
      ''pass_eliminated_fields'', ''pass_intercepted_callees'']"

definition headerValue :: "string \<Rightarrow> PassReportHeader \<Rightarrow> 'f QValue" where
  "headerValue name hdr =
     (if name = ''pass_decision'' then QV_String (prh_decision hdr)
      else if name = ''pass_fired'' then QV_Int (if prh_fired hdr then 1 else 0)
      else if name = ''pass_reason'' then QV_String (prh_reason hdr)
      else QV_Int (prh_firedCount hdr))"

definition resolveHeader :: "Environment \<Rightarrow> string \<Rightarrow> 'f QValue \<Rightarrow> PassReportHeader evaluated" where
  "resolveHeader env fnName arg =
     (case arg of
        QV_String passName \<Rightarrow>
          (case en_passReports env of
             None \<Rightarrow> EvalError (fnName @ '': no pass-reports registry available (no <output>.topo-passes/ sidecar next to the target)'')
           | Some reports \<Rightarrow>
               (case findHeader reports passName of
                  None \<Rightarrow> EvalError (fnName @ '': unknown pass '' @ quoted passName)
                | Some hdr \<Rightarrow> Evaluated hdr))
      | _ \<Rightarrow> EvalError (fnName @ '': argument must be a string literal Pass name''))"

text \<open>What the detail of a pass answers; none without a registry or without the pass.\<close>

definition detailValue :: "Environment \<Rightarrow> string \<Rightarrow> string \<Rightarrow> string \<Rightarrow> 'f QValue" where
  "detailValue env name passName key =
     (case en_passReports env of
        None \<Rightarrow> QV_None
      | Some reports \<Rightarrow>
          if findHeader reports passName = None then QV_None else detailAnswer (pr_detail reports name passName key))"

definition requireString :: "string \<Rightarrow> 'f QValue \<Rightarrow> string evaluated" where
  "requireString message v = (case v of QV_String s \<Rightarrow> Evaluated s | _ \<Rightarrow> EvalError message)"

text \<open>The reductions of one argument, by name.\<close>

definition reduceFrame :: "'f FloatOps \<Rightarrow> string \<Rightarrow> FrameView \<Rightarrow> 'f QValue evaluated" where
  "reduceFrame ops name frame =
     (if name = ''sum'' then builtinSum ops frame
      else if name = ''mean'' then builtinMean ops frame
      else if name = ''min'' then builtinMin ops frame
      else if name = ''max'' then builtinMax ops frame
      else if name = ''count'' then builtinCount frame
      else if name = ''shape'' then builtinShape frame
      else builtinDtype frame)"

definition requireFrame :: "string \<Rightarrow> 'f QValue \<Rightarrow> FrameView evaluated" where
  "requireFrame message v = (case v of QV_Frame frame \<Rightarrow> Evaluated frame | _ \<Rightarrow> EvalError message)"

definition requireInt :: "string \<Rightarrow> 'f QValue \<Rightarrow> int evaluated" where
  "requireInt message v = (case v of QV_Int k \<Rightarrow> Evaluated k | _ \<Rightarrow> EvalError message)"

definition unknownBuiltin :: "string \<Rightarrow> string" where
  "unknownBuiltin name =
     ''user functions not implemented (got '' @ quoted name @
     ''); built-ins are sum/mean/min/max/count/shape/dtype/sample/pass_decision/pass_fired/pass_reason/pass_count/pass_field_rename/pass_eliminated_fields/pass_intercepted_callees''"

section \<open>Evaluation\<close>

fun evalExpr :: "'f FloatOps \<Rightarrow> Environment \<Rightarrow> 'f QExpr \<Rightarrow> 'f QValue evaluated" where
  "evalExpr ops env (QIdent pos name) =
     (case map_of (en_variables env) name of
        None \<Rightarrow> EvalError (''unknown variable '' @ quoted name)
      | Some v \<Rightarrow> Evaluated (QV_Frame v))"
| "evalExpr ops env (QInt pos k) = Evaluated (QV_Int k)"
| "evalExpr ops env (QFloat pos x) = Evaluated (QV_Float x)"
| "evalExpr ops env (QString pos s) = Evaluated (QV_String s)"
| "evalExpr ops env (QField pos base name) =
     thenEval (evalExpr ops env base) (\<lambda>v.
     thenEval (requireFrame (''field access '' @ quoted (''.'' @ name) @ '' applied to a non-array value'') v)
       (fieldView name))"
| "evalExpr ops env (QSlice pos base start end') =
     thenEval (evalExpr ops env base) (\<lambda>v.
     thenEval (requireFrame ''slice operand is not an array'' v) (\<lambda>frame.
     thenEval (evalExpr ops env start) (\<lambda>s.
     thenEval (evalExpr ops env end') (\<lambda>e.
     thenEval (requireInt ''slice bounds must be integers'' s) (\<lambda>startVal.
     thenEval (requireInt ''slice bounds must be integers'' e) (\<lambda>endVal.
       sliceFrame frame startVal endVal))))))"
| "evalExpr ops env (QBinary pos op lhs rhs) =
     thenEval (evalExpr ops env lhs) (\<lambda>l. thenEval (evalExpr ops env rhs) (\<lambda>r. binaryValue ops op l r))"
| "evalExpr ops env (QUnary pos operand) = thenEval (evalExpr ops env operand) (negValue ops)"
| "evalExpr ops env (QCall pos base args) =
     (case base of
        QIdent p name \<Rightarrow>
          if name \<notin> set kFrameBuiltins \<and> name \<notin> set kPassReportBuiltins then EvalError (unknownBuiltin name)
          else if name \<in> {''pass_field_rename'', ''pass_eliminated_fields'', ''pass_intercepted_callees''} then
            (case args of
               [a, b] \<Rightarrow>
                 thenEval (evalExpr ops env a) (\<lambda>v0.
                 thenEval (requireString (name @ '': first argument must be a string Pass name'') v0) (\<lambda>passName.
                 thenEval (evalExpr ops env b) (\<lambda>v1.
                 thenEval (requireString (name @ '': second argument must be a string key'') v1) (\<lambda>key.
                   Evaluated (detailValue env name passName key)))))
             | _ \<Rightarrow> EvalError (name @ '': expected exactly two string arguments (pass name, key)''))
          else if name \<in> set kPassReportBuiltins then
            (case args of
               [a] \<Rightarrow>
                 thenEval (evalExpr ops env a) (\<lambda>v.
                 thenEval (resolveHeader env name v) (\<lambda>hdr. Evaluated (headerValue name hdr)))
             | _ \<Rightarrow> EvalError (name @ '': expected exactly one argument (a string Pass name)''))
          else
            (case args of
               [] \<Rightarrow> EvalError (name @ '': expected at least one argument'')
             | a # rest \<Rightarrow>
                 thenEval (evalExpr ops env a) (\<lambda>v.
                 thenEval (requireFrame (name @ '': first argument must be a frame/array'') v) (\<lambda>frame.
                   if name = ''sample'' then
                     (case rest of
                        [k] \<Rightarrow>
                          thenEval (evalExpr ops env k) (\<lambda>kv.
                          thenEval (requireInt ''sample: count must be an integer'' kv) (builtinSample ops frame))
                      | _ \<Rightarrow> EvalError ''sample: expected (frame, n)'')
                   else if rest \<noteq> [] then EvalError (name @ '': takes exactly one argument'')
                   else reduceFrame ops name frame)))
      | _ \<Rightarrow> EvalError ''call target must be a built-in name; nested function calls are not supported'')"

section \<open>Showing values\<close>

definition commaList :: "string list \<Rightarrow> string" where
  "commaList xs = ''['' @ join '', '' xs @ '']''"

text \<open>The array of strings is printed by the JSON library: \<open>dump\<close> is its text.\<close>

definition formatText :: "'f FloatOps \<Rightarrow> (string list \<Rightarrow> string) \<Rightarrow> 'f QValue \<Rightarrow> string" where
  "formatText ops dump v =
     (case v of
        QV_Int k \<Rightarrow> int_to_string k
      | QV_Float x \<Rightarrow> fo_show ops x
      | QV_String s \<Rightarrow> s
      | QV_IntList ks \<Rightarrow> commaList (map int_to_string ks)
      | QV_FloatList xs \<Rightarrow> commaList (map (fo_show ops) xs)
      | QV_StringList ss \<Rightarrow> dump ss
      | QV_Frame f \<Rightarrow>
          ''<frame '' @ ly_dtype (fv_layout f) @
          (if ly_shape (fv_layout f) = [] then [] else '' shape='' @ commaList (map int_to_string (ly_shape (fv_layout f)))) @ ''>''
      | QV_None \<Rightarrow> ''null'')"

definition formatTypeName :: "'f QValue \<Rightarrow> string" where
  "formatTypeName v =
     (case v of
        QV_Int _ \<Rightarrow> ''i64''
      | QV_Float _ \<Rightarrow> ''f64''
      | QV_String _ \<Rightarrow> ''string''
      | QV_IntList _ \<Rightarrow> ''list[i64]''
      | QV_FloatList _ \<Rightarrow> ''list[f64]''
      | QV_StringList _ \<Rightarrow> ''list[string]''
      | QV_Frame f \<Rightarrow>
          ''frame['' @ ly_dtype (fv_layout f) @
          (if ly_shape (fv_layout f) = [] then []
           else '','' @ join ''x'' (map int_to_string (ly_shape (fv_layout f)))) @ '']''
      | QV_None \<Rightarrow> ''none'')"

end
