(* ===== verification/Query_Laws.thy ===== *)
theory Query_Laws
  imports Query
begin

text \<open>
  The query parser returns on every input: a successful call consumes at least a character, and the
  fuel of \<open>parseQuery\<close> is enough.
\<close>

section \<open>Positions\<close>

named_theorems position_bounds \<open>where the lexer functions of the query parser leave the position\<close>

lemma skipSpaces_ge: "pos \<le> skipSpaces src pos"
  by (simp add: skipSpaces_def)

lemma takeWhile_drop_le: "pos \<le> length src \<Longrightarrow> pos + length (takeWhile P (drop pos src)) \<le> length src"
  using length_takeWhile_le [of P "drop pos src"] by simp

lemma skipSpaces_le: "pos \<le> length src \<Longrightarrow> skipSpaces src pos \<le> length src"
  by (simp add: skipSpaces_def takeWhile_drop_le)

lemma skipSpaces_inside: "skipSpaces src pos < length src \<Longrightarrow> pos < length src"
  using skipSpaces_ge [of pos src] by linarith

lemma charAt_inside: "charAt src p \<noteq> NUL \<Longrightarrow> p < length src"
  by (simp add: charAt_def split: if_splits)

lemma digitsAt_ge: "pos \<le> digitsAt src pos"
  by (simp add: digitsAt_def)

lemma digitsAt_le: "pos \<le> length src \<Longrightarrow> digitsAt src pos \<le> length src"
  by (simp add: digitsAt_def takeWhile_drop_le)

lemma consume_True: "consume src c pos = (True, p) \<Longrightarrow> pos < p \<and> p \<le> length src"
  using skipSpaces_ge [of pos src] by (auto simp: consume_def Let_def less_Suc_eq_le split: if_splits)

lemma consume_False: "consume src c pos = (False, p) \<Longrightarrow> pos \<le> p \<and> (pos \<le> length src \<longrightarrow> p \<le> length src)"
  by (auto simp: consume_def Let_def skipSpaces_le skipSpaces_ge split: if_splits)

lemma consumeRange_True: "consumeRange src pos = (True, p) \<Longrightarrow> pos < p \<and> p \<le> length src"
proof -
  assume "consumeRange src pos = (True, p)"
  hence p: "p = skipSpaces src pos + 2" "atRange src (skipSpaces src pos)"
    by (auto simp: consumeRange_def Let_def split: if_splits)
  have "skipSpaces src (skipSpaces src pos) + 1 < length src" using p(2) by (simp add: atRange_def Let_def)
  thus ?thesis using p(1) skipSpaces_ge [of pos src] skipSpaces_ge [of "skipSpaces src pos" src] by linarith
qed

lemma tryIdent_bounds:
  assumes "tryIdent src pos = (name, start, next')"
  shows "pos \<le> next'" "pos \<le> length src \<Longrightarrow> next' \<le> length src" "name \<noteq> [] \<Longrightarrow> pos < next' \<and> next' \<le> length src"
proof -
  let ?q = "skipSpaces src pos" and ?n = "takeWhile identChar (drop (skipSpaces src pos) src)"
  have ge: "pos \<le> ?q" by (rule skipSpaces_ge)
  have cases: "name = [] \<and> next' = ?q \<or> name = ?n \<and> next' = ?q + length ?n \<and> ?q < length src"
    using assms by (auto simp: tryIdent_def Let_def split: if_splits)
  show "pos \<le> next'" using cases ge by auto
  show "next' \<le> length src" if "pos \<le> length src"
    using cases that skipSpaces_le [of pos src] takeWhile_drop_le [of ?q src identChar] by auto
  show "pos < next' \<and> next' \<le> length src" if "name \<noteq> []"
  proof -
    have "name = ?n" "next' = ?q + length ?n" "?q < length src" using cases that by auto
    moreover have "0 < length ?n" using calculation(1) that by simp
    ultimately show ?thesis using ge takeWhile_drop_le [of ?q src identChar] by linarith
  qed
qed

lemma numberMantissa_bounds:
  assumes "numberMantissa src pos = (p, isFloat)" "startsNumber src pos"
  shows "pos < p \<and> p \<le> length src"
proof -
  have in1: "pos < length src" using assms(2) by (simp add: startsNumber_def)
  let ?q = "if signAt src pos then pos + 1 else pos"
  have q: "?q < length src" "isdigit (src ! ?q)"
    using assms(2) in1 by (auto simp: startsNumber_def signAt_def isdigit_def char_in_def)
  have d: "?q < digitsAt src ?q"
    using q by (simp add: digitsAt_def Cons_nth_drop_Suc [symmetric])
  have l: "digitsAt src ?q \<le> length src" using q(1) digitsAt_le [of ?q src] by linarith
  show ?thesis
    using assms(1) d l digitsAt_ge [of "digitsAt src ?q + 1" src] digitsAt_le [of "digitsAt src ?q + 1" src]
    by (auto simp: numberMantissa_def Let_def split: if_splits)
qed

lemma numberEnd_bounds:
  assumes "numberEnd src pos = (p, isFloat)" "startsNumber src pos"
  shows "pos < p \<and> p \<le> length src"
proof -
  obtain m f where m: "numberMantissa src pos = (m, f)" by (cases "numberMantissa src pos")
  note b = numberMantissa_bounds [OF m assms(2)]
  show ?thesis
    using assms(1) b digitsAt_ge [of "m + 1" src] digitsAt_ge [of "m + 2" src]
      digitsAt_le [of "m + 1" src] digitsAt_le [of "m + 2" src]
    by (auto simp: numberEnd_def m signAt_def split: if_splits)
qed

lemma stringBody_le: "stringBody cs = (s, n) \<Longrightarrow> n \<le> length cs"
  by (induction cs arbitrary: s n rule: stringBody.induct) (auto split: if_splits prod.splits)

lemma parseAtom_consumes:
  assumes "parseAtom toFloat src pos = Parsed e p"
  shows "pos < p \<and> p \<le> length src"
proof -
  let ?q = "skipSpaces src pos"
  have ge: "pos \<le> ?q" by (rule skipSpaces_ge)
  show ?thesis
  proof (cases "startsNumber src ?q")
    case True
    obtain m f where m: "numberEnd src ?q = (m, f)" by (cases "numberEnd src ?q")
    show ?thesis
      using assms True numberEnd_bounds [OF m True]
      by (auto simp: parseAtom_def Let_def m split: if_splits intro: le_less_trans [OF ge])
  next
    case num: False
    show ?thesis
    proof (cases "?q < length src \<and> src ! ?q = DQUOTE")
      case True
      obtain s n where n: "stringBody (drop (?q + 1) src) = (s, n)" by (cases "stringBody (drop (?q + 1) src)")
      show ?thesis
        using assms num True stringBody_le [OF n] ge by (auto simp: parseAtom_def Let_def n [simplified])
    next
      case False
      obtain name start nx where t: "tryIdent src ?q = (name, start, nx)" by (cases "tryIdent src ?q")
      show ?thesis
        using assms num False tryIdent_bounds [OF t] ge
        by (auto simp: parseAtom_def Let_def t atColumn_def split: if_splits)
    qed
  qed
qed

lemma parseAtom_fuel [simp]: "parseAtom toFloat src pos \<noteq> NoFuel"
  by (simp add: parseAtom_def Let_def atColumn_def split: prod.split)

lemma thenParse_Parsed:
  "thenParse r f = Parsed y p \<longleftrightarrow> (\<exists>x q. r = Parsed x q \<and> f x q = Parsed y p)"
  by (simp add: thenParse_def split: parsed.split)

lemma thenParse_NoFuel:
  "thenParse r f = NoFuel \<longleftrightarrow> r = NoFuel \<or> (\<exists>x q. r = Parsed x q \<and> f x q = NoFuel)"
  by (simp add: thenParse_def split: parsed.split)

lemma atColumn_Failed [simp]: "atColumn m p \<noteq> Parsed x q" "atColumn m p \<noteq> NoFuel"
  by (simp_all add: atColumn_def)

section \<open>Progress\<close>

lemmas parser_equations =
  parseAddSub.simps addSubLoop.simps parseMulDiv.simps mulDivLoop.simps parseUnary.simps parsePrimary.simps
  parsePostfix.simps parseArgs.simps

lemmas parser_induct = parseAddSub_addSubLoop_parseMulDiv_mulDivLoop_parseUnary_parsePrimary_parsePostfix_parseArgs.induct

declare parseAddSub.simps [simp del] addSubLoop.simps [simp del] parseMulDiv.simps [simp del]
  mulDivLoop.simps [simp del] parseUnary.simps [simp del] parsePrimary.simps [simp del]
  parsePostfix.simps [simp del] parseArgs.simps [simp del]

text \<open>
  What a call promises: under \<open>b\<close>, the fuel it needs, an answer; and in any case that success stops
  after the position it was given (a loop may stop there), inside the source.
\<close>

definition advances :: "bool \<Rightarrow> string \<Rightarrow> nat \<Rightarrow> 'a parsed \<Rightarrow> bool" where
  "advances b src pos r \<longleftrightarrow>
     (b \<longrightarrow> r \<noteq> NoFuel) \<and> (\<forall>x p. r = Parsed x p \<longrightarrow> pos < p \<and> p \<le> length src)"

definition keepsOn :: "bool \<Rightarrow> string \<Rightarrow> nat \<Rightarrow> 'a parsed \<Rightarrow> bool" where
  "keepsOn b src pos r \<longleftrightarrow>
     (pos \<le> length src \<longrightarrow> (b \<longrightarrow> r \<noteq> NoFuel) \<and> (\<forall>x p. r = Parsed x p \<longrightarrow> pos \<le> p \<and> p \<le> length src))"

lemma advances_simps [simp]:
  "advances b src pos NoFuel \<longleftrightarrow> \<not> b" "advances b src pos (atColumn m q)"
  "keepsOn b src pos NoFuel \<longleftrightarrow> (pos \<le> length src \<longrightarrow> \<not> b)" "keepsOn b src pos (atColumn m q)"
  "advances b src pos (Parsed x p) \<longleftrightarrow> pos < p \<and> p \<le> length src"
  "keepsOn b src pos (Parsed x p) \<longleftrightarrow> (pos \<le> length src \<longrightarrow> pos \<le> p \<and> p \<le> length src)"
  by (auto simp: advances_def keepsOn_def)

lemma advances_then:
  assumes "advances b src q r" "b' \<Longrightarrow> b" "pos \<le> q"
    "\<And>x p. r = Parsed x p \<Longrightarrow> q < p \<Longrightarrow> p \<le> length src \<Longrightarrow> keepsOn b' src p (f x p)"
  shows "advances b' src pos (thenParse r f)"
  using assms by (fastforce simp: advances_def keepsOn_def thenParse_Parsed thenParse_NoFuel)

lemma keepsOn_weaken:
  "keepsOn b src q r \<Longrightarrow> (b' \<Longrightarrow> b) \<Longrightarrow> pos \<le> q \<Longrightarrow> (pos \<le> length src \<Longrightarrow> q \<le> length src) \<Longrightarrow> keepsOn b' src pos r"
  by (fastforce simp: keepsOn_def)

lemma keepsOn_advances: "advances b src pos r \<Longrightarrow> keepsOn b src pos r"
  by (fastforce simp: keepsOn_def advances_def)

lemma parseAtom_advances: "pos \<le> q \<Longrightarrow> advances b src pos (parseAtom toFloat src q)"
  unfolding advances_def using parseAtom_fuel by (blast dest: parseAtom_consumes intro: le_less_trans)

lemma consume_cases:
  obtains (yes) p where "consume src c pos = (True, p)" "pos < p" "p \<le> length src"
  | (no) p where "consume src c pos = (False, p)" "pos \<le> p" "pos \<le> length src \<Longrightarrow> p \<le> length src"
proof (cases "consume src c pos")
  case (Pair b p)
  thus ?thesis
  proof (cases b)
    case True
    thus ?thesis using Pair consume_True [of src c pos p] yes by simp
  next
    case False
    thus ?thesis using Pair consume_False [of src c pos p] no by simp
  qed
qed

text \<open>The characters left.\<close>

abbreviation rem_of :: "string \<Rightarrow> nat \<Rightarrow> nat" where
  "rem_of src pos \<equiv> length src - pos"

lemma consume_advances:
  assumes "\<And>p. consume src c q = (True, p) \<Longrightarrow> q < p \<Longrightarrow> p \<le> length src \<Longrightarrow> keepsOn b src q (f p)"
    "\<And>p. consume src c q = (False, p) \<Longrightarrow> q \<le> p \<Longrightarrow> (q \<le> length src \<Longrightarrow> p \<le> length src) \<Longrightarrow> keepsOn b src q (g p)"
  shows "keepsOn b src q (case consume src c q of (True, p) \<Rightarrow> f p | (False, p) \<Rightarrow> g p)"
  by (rule consume_cases [of src c q]) (use assms in auto)

section \<open>The steps of a postfix\<close>

lemma postfix_slice:
  assumes add: "\<And>q. advances (6 * rem_of src q + 6 \<le> fuel) src q (parseAddSub toFloat src fuel q)"
    and again: "\<And>q e. pos < q \<Longrightarrow> q \<le> length src \<Longrightarrow> keepsOn B src q (parsePostfix toFloat src fuel e q)"
    and B: "B \<Longrightarrow> 6 * rem_of src pos \<le> fuel" and q: "pos < q" "q \<le> length src"
  shows "keepsOn B src pos (thenParse (parseAddSub toFloat src fuel q) (\<lambda>start p.
           case consumeRange src p of
             (False, p1) \<Rightarrow> atColumn (''expected '' @ quoted ''..'' @ '' inside slice'') p1
           | (True, p1) \<Rightarrow>
               thenParse (parseAddSub toFloat src fuel p1) (\<lambda>endExpr p2.
                 case consume src (CHR '']'') p2 of
                   (False, p3) \<Rightarrow> atColumn (''expected '' @ quoted '']'') p3
                 | (True, p3) \<Rightarrow> parsePostfix toFloat src fuel (QSlice (q_pos left) left start endExpr) p3)))"
proof (rule keepsOn_advances, rule advances_then [OF add])
  fix start p assume p: "q < p" "p \<le> length src"
  obtain b p1 where r: "consumeRange src p = (b, p1)" by (cases "consumeRange src p")
  let ?rest = "thenParse (parseAddSub toFloat src fuel p1) (\<lambda>endExpr p2.
                 case consume src (CHR '']'') p2 of
                   (False, p3) \<Rightarrow> atColumn (''expected '' @ quoted '']'') p3
                 | (True, p3) \<Rightarrow> parsePostfix toFloat src fuel (QSlice (q_pos left) left start endExpr) p3)"
  have "keepsOn B src p ?rest" if b
  proof (rule keepsOn_advances, rule advances_then [OF add])
    have r1: "p < p1" "p1 \<le> length src" using consumeRange_True [of src p p1] r that by auto
    thus "p \<le> p1" by simp
    show "6 * rem_of src p1 + 6 \<le> fuel" if B using B [OF that] q p r1 by linarith
    fix endExpr p2 assume "p1 < p2" "p2 \<le> length src"
    thus "keepsOn B src p2 (case consume src (CHR '']'') p2 of
             (False, p3) \<Rightarrow> atColumn (''expected '' @ quoted '']'') p3
           | (True, p3) \<Rightarrow> parsePostfix toFloat src fuel (QSlice (q_pos left) left start endExpr) p3)"
      using q p r1 by (intro consume_advances) (auto intro!: keepsOn_weaken [OF again])
  qed
  thus "keepsOn B src p (case consumeRange src p of
             (False, p1) \<Rightarrow> atColumn (''expected '' @ quoted ''..'' @ '' inside slice'') p1
           | (True, p1) \<Rightarrow>
               thenParse (parseAddSub toFloat src fuel p1) (\<lambda>endExpr p2.
                 case consume src (CHR '']'') p2 of
                   (False, p3) \<Rightarrow> atColumn (''expected '' @ quoted '']'') p3
                 | (True, p3) \<Rightarrow> parsePostfix toFloat src fuel (QSlice (q_pos left) left start endExpr) p3))"
    by (simp add: r split: bool.split)
qed (use q B in \<open>linarith, linarith\<close>)

lemma postfix_call:
  assumes args: "\<And>q as. advances (6 * rem_of src q + 7 \<le> fuel) src q (parseArgs toFloat src fuel as q)"
    and again: "\<And>q e. pos < q \<Longrightarrow> q \<le> length src \<Longrightarrow> keepsOn B src q (parsePostfix toFloat src fuel e q)"
    and B: "B \<Longrightarrow> 6 * rem_of src pos + 1 \<le> fuel" and q: "pos < q" "q \<le> length src"
  shows "keepsOn B src pos (case consume src (CHR '')'') q of
          (True, p1) \<Rightarrow> parsePostfix toFloat src fuel (QCall (q_pos left) left []) p1
        | (False, p1) \<Rightarrow> thenParse (parseArgs toFloat src fuel [] p1)
            (\<lambda>args. parsePostfix toFloat src fuel (QCall (q_pos left) left args)))"
proof (cases rule: consume_cases [of src "CHR '')''" q])
  case (yes p)
  thus ?thesis using q by (auto intro: keepsOn_weaken [OF again])
next
  case (no p)
  hence "advances B src p (thenParse (parseArgs toFloat src fuel [] p)
            (\<lambda>args. parsePostfix toFloat src fuel (QCall (q_pos left) left args)))"
    using q B by (intro advances_then [OF args]) (force intro!: again)+
  thus ?thesis using no q by (auto intro: keepsOn_weaken [OF keepsOn_advances])
qed

lemma postfix_dot:
  assumes again: "\<And>q e. pos < q \<Longrightarrow> q \<le> length src \<Longrightarrow> keepsOn B src q (parsePostfix toFloat src fuel e q)"
    and q: "pos < q" "q \<le> length src"
  shows "keepsOn B src pos (case tryIdent src q of (name, start, nx) \<Rightarrow>
           if name = [] then atColumn m nx else parsePostfix toFloat src fuel (QField (start + 1) left name) nx)"
proof -
  obtain name start nx where t: "tryIdent src q = (name, start, nx)" by (cases "tryIdent src q")
  show ?thesis using q tryIdent_bounds [OF t] by (auto simp: t intro!: keepsOn_weaken [OF again])
qed

lemma postfix_bracket:
  assumes X: "\<And>q. pos < q \<Longrightarrow> q \<le> length src \<Longrightarrow> keepsOn B src pos (X q)"
    and Y: "\<And>q. pos < q \<Longrightarrow> q \<le> length src \<Longrightarrow> keepsOn B src pos (Y q)"
  shows "keepsOn B src pos (case consume src (CHR ''['') pos of
           (True, q) \<Rightarrow> X q
         | (False, q) \<Rightarrow> (case consume src (CHR ''('') q of (True, p) \<Rightarrow> Y p | (False, p) \<Rightarrow> Parsed left p))"
proof (rule consume_advances)
  fix q assume q: "pos \<le> q" "pos \<le> length src \<Longrightarrow> q \<le> length src"
  show "keepsOn B src pos (case consume src (CHR ''('') q of (True, p) \<Rightarrow> Y p | (False, p) \<Rightarrow> Parsed left p)"
    using q by (cases rule: consume_cases [of src "CHR ''(''" q]) (auto intro!: Y)
qed (rule X)

lemma postfix_step:
  assumes add: "\<And>q. advances (6 * rem_of src q + 6 \<le> fuel) src q (parseAddSub toFloat src fuel q)"
    and post: "\<And>q e. keepsOn (6 * rem_of src q + 2 \<le> fuel) src q (parsePostfix toFloat src fuel e q)"
    and args: "\<And>q as. advances (6 * rem_of src q + 7 \<le> fuel) src q (parseArgs toFloat src fuel as q)"
  shows "keepsOn (6 * rem_of src pos + 2 \<le> Suc fuel) src pos (parsePostfix toFloat src (Suc fuel) left pos)"
proof -
  let ?B = "6 * rem_of src pos + 2 \<le> Suc fuel"
  have again: "keepsOn ?B src q (parsePostfix toFloat src fuel e q)" if "pos < q" "q \<le> length src" for e q
    using that by (intro keepsOn_weaken [OF post]) auto
  show ?thesis
  proof (cases "\<not> atRange src pos \<and> fst (consume src (CHR ''.'') pos)")
    case True
    then obtain q where c: "consume src (CHR ''.'') pos = (True, q)" by (cases "consume src (CHR ''.'') pos") auto
    hence q: "pos < q" "q \<le> length src" using consume_True [of src "CHR ''.''" pos q] by auto
    show ?thesis
      by (subst parsePostfix.simps)
        (simp only: True c fst_conv snd_conv if_True if_False nat.simps diff_Suc_1 HOL.simp_thms,
         rule postfix_dot [OF again q], assumption+)
  next
    case False
    show ?thesis
      by (subst parsePostfix.simps)
        (simp only: False if_False nat.simps diff_Suc_1, rule postfix_bracket,
         rule postfix_slice [OF add again], assumption+, simp, assumption+,
         rule postfix_call [OF args again], assumption+, simp, assumption+)
  qed
qed

section \<open>The parser returns\<close>

lemma parser_advances:
  "advances (6 * rem_of src pos + 6 \<le> fuel) src pos (parseAddSub toFloat src fuel pos)"
  "keepsOn (6 * rem_of src pos + 1 \<le> fuel) src pos (addSubLoop toFloat src fuel left pos)"
  "advances (6 * rem_of src pos + 5 \<le> fuel) src pos (parseMulDiv toFloat src fuel pos)"
  "keepsOn (6 * rem_of src pos + 1 \<le> fuel) src pos (mulDivLoop toFloat src fuel left pos)"
  "advances (6 * rem_of src pos + 4 \<le> fuel) src pos (parseUnary toFloat src fuel pos)"
  "advances (6 * rem_of src pos + 3 \<le> fuel) src pos (parsePrimary toFloat src fuel pos)"
  "keepsOn (6 * rem_of src pos + 2 \<le> fuel) src pos (parsePostfix toFloat src fuel left pos)"
  "advances (6 * rem_of src pos + 7 \<le> fuel) src pos (parseArgs toFloat src fuel args pos)"
proof (induction fuel arbitrary: pos left args)
  case 0
  { case 1 show ?case by (simp add: parser_equations) next
    case 2 show ?case by (simp add: parser_equations) next
    case 3 show ?case by (simp add: parser_equations) next
    case 4 show ?case by (simp add: parser_equations) next
    case 5 show ?case by (simp add: parser_equations) next
    case 6 show ?case by (simp add: parser_equations) next
    case 7 show ?case by (simp add: parser_equations) next
    case 8 show ?case by (simp add: parser_equations) }
next
  case (Suc fuel)
  { case 1
    have "advances (6 * rem_of src pos + 6 \<le> Suc fuel) src pos
        (thenParse (parseMulDiv toFloat src fuel pos) (addSubLoop toFloat src fuel))"
      by (rule advances_then [OF Suc.IH(3)]) (auto intro!: keepsOn_weaken [OF Suc.IH(2)])
    thus ?case by (subst parseAddSub.simps) simp
  next
    case 2
    let ?q = "skipSpaces src pos"
    have le: "pos \<le> ?q" by (rule skipSpaces_ge)
    show ?case
    proof (cases "addOp (charAt src ?q)")
      case None
      thus ?thesis using le skipSpaces_le [of pos src] by (subst addSubLoop.simps) (auto simp: Let_def)
    next
      case (Some op)
      hence "?q < length src" by (intro charAt_inside) (auto simp: addOp_def split: if_splits)
      hence "advances (6 * rem_of src pos + 1 \<le> Suc fuel) src pos
          (thenParse (parseMulDiv toFloat src fuel (?q + 1))
             (\<lambda>right. addSubLoop toFloat src fuel (QBinary (?q + 1) op left right)))"
        using le by (intro advances_then [OF Suc.IH(3)]) (auto intro!: keepsOn_weaken [OF Suc.IH(2)])
      thus ?thesis using Some by (subst addSubLoop.simps) (simp add: Let_def keepsOn_advances)
    qed
  next
    case 3
    have "advances (6 * rem_of src pos + 5 \<le> Suc fuel) src pos
        (thenParse (parseUnary toFloat src fuel pos) (mulDivLoop toFloat src fuel))"
      by (rule advances_then [OF Suc.IH(5)]) (auto intro!: keepsOn_weaken [OF Suc.IH(4)])
    thus ?case by (subst parseMulDiv.simps) simp
  next
    case 4
    let ?q = "skipSpaces src pos"
    have le: "pos \<le> ?q" by (rule skipSpaces_ge)
    show ?case
    proof (cases "mulOp (charAt src ?q)")
      case None
      thus ?thesis using le skipSpaces_le [of pos src] by (subst mulDivLoop.simps) (auto simp: Let_def)
    next
      case (Some op)
      hence "?q < length src" by (intro charAt_inside) (auto simp: mulOp_def split: if_splits)
      hence "advances (6 * rem_of src pos + 1 \<le> Suc fuel) src pos
          (thenParse (parseUnary toFloat src fuel (?q + 1))
             (\<lambda>right. mulDivLoop toFloat src fuel (QBinary (?q + 1) op left right)))"
        using le by (intro advances_then [OF Suc.IH(5)]) (auto intro!: keepsOn_weaken [OF Suc.IH(4)])
      thus ?thesis using Some by (subst mulDivLoop.simps) (simp add: Let_def keepsOn_advances)
    qed
  next
    case 5
    let ?q = "skipSpaces src pos"
    have le: "pos \<le> ?q" by (rule skipSpaces_ge)
    have neg: "advances (6 * rem_of src pos + 4 \<le> Suc fuel) src pos
        (thenParse (parseUnary toFloat src fuel (?q + 1)) (\<lambda>operand. Parsed (QUnary (?q + 1) operand)))"
      if "charAt src ?q = CHR ''-''"
    proof -
      have "?q < length src" using that by (intro charAt_inside) auto
      thus ?thesis using le by (intro advances_then [OF Suc.IH(5)]) auto
    qed
    have "advances (6 * rem_of src pos + 4 \<le> Suc fuel) src pos
        (thenParse (parsePrimary toFloat src fuel ?q) (parsePostfix toFloat src fuel))"
      using le by (intro advances_then [OF Suc.IH(6)]) (auto intro!: keepsOn_weaken [OF Suc.IH(7)])
    thus ?case using neg by (subst parseUnary.simps) (simp add: Let_def)
  next
    case 6
    show ?case
    proof (cases rule: consume_cases [of src "CHR ''(''" pos])
      case (yes p)
      have "advances (6 * rem_of src pos + 3 \<le> Suc fuel) src pos
          (thenParse (parseAddSub toFloat src fuel p) (\<lambda>inner p. case consume src (CHR '')'') p of
                 (True, p1) \<Rightarrow> Parsed inner p1 | (False, p1) \<Rightarrow> atColumn (''expected '' @ quoted '')'') p1))"
        using yes by (intro advances_then [OF Suc.IH(1)] consume_advances) auto
      thus ?thesis using yes by (subst parsePrimary.simps) simp
    next
      case (no p)
      thus ?thesis by (subst parsePrimary.simps) (simp add: parseAtom_advances)
    qed
  next
    case 7
    show ?case by (rule postfix_step) (rule Suc.IH)+
  next
    case 8
    have "advances (6 * rem_of src pos + 7 \<le> Suc fuel) src pos
        (thenParse (parseAddSub toFloat src fuel pos) (\<lambda>arg p. case consume src (CHR '','') p of
            (True, p1) \<Rightarrow> parseArgs toFloat src fuel (args @ [arg]) p1
          | (False, p1) \<Rightarrow> (case consume src (CHR '')'') p1 of
                 (True, p2) \<Rightarrow> Parsed (args @ [arg]) p2
               | (False, p2) \<Rightarrow> atColumn (''expected '' @ quoted '','' @ '' or '' @ quoted '')'' @ '' in call'') p2)))"
      by (intro advances_then [OF Suc.IH(1)] consume_advances )
        (auto intro!: keepsOn_weaken [OF keepsOn_advances [OF Suc.IH(8)]] keepsOn_weaken [OF consume_advances])
    thus ?case by (subst parseArgs.simps) (simp only: if_False nat.simps diff_Suc_1) }
qed

lemma parseQuery_returns: "parseQuery toFloat source \<noteq> NoFuel"
  using parser_advances(1) [of source 0 "queryFuel source" toFloat]
  by (auto simp: parseQuery_def queryFuel_def advances_def thenParse_NoFuel Let_def)

end
