(* ===== verification/QueryEval_Laws.thy ===== *)
theory QueryEval_Laws
  imports QueryEval Query_Laws
begin

text \<open>
  Queries read inside their buffers, when the shapes of the frames multiply in 64 bits and the
  frames are whole; a shape whose product wraps reads outside.
\<close>

section \<open>Element counts\<close>

lemma thenEval_simps [simp]:
  "thenEval (Evaluated x) f = f x" "thenEval (EvalError e) f = EvalError e"
  "thenEval ReadOutside f = ReadOutside" "thenEval Overflowed f = Overflowed"
  by (simp_all add: thenEval_def)

lemma thenEval_Evaluated: "thenEval r f = Evaluated y \<longleftrightarrow> (\<exists>x. r = Evaluated x \<and> f x = Evaluated y)"
  by (cases r) auto

lemma wrapInt64_id: "- (2 ^ 63) \<le> v \<Longrightarrow> v < 2 ^ 63 \<Longrightarrow> wrapInt64 v = v"
  by (simp add: wrapInt64_def)

definition allPositive :: "int list \<Rightarrow> bool" where
  "allPositive ds \<longleftrightarrow> (\<forall>d \<in> set ds. 0 < d)"

lemma allPositive_simps [simp]: "allPositive []" "allPositive (d # ds) \<longleftrightarrow> 0 < d \<and> allPositive ds"
  by (auto simp: allPositive_def)

lemma allPositive_prod: "allPositive ds \<Longrightarrow> 1 \<le> prod_list ds"
proof (induction ds)
  case (Cons d ds)
  hence "1 * 1 \<le> d * prod_list ds" by (intro mult_mono) auto
  thus ?case by simp
qed simp

lemma numelFrom_zero: "numelFrom 0 ds = 0"
  by (induction ds) (auto simp: wrapInt64_def)

lemma numelFrom_nonpositive: "\<not> allPositive ds \<Longrightarrow> numelFrom n ds = 0"
proof (induction ds arbitrary: n)
  case (Cons d ds)
  thus ?case by (cases "d = 0") (auto simp: numelFrom_zero wrapInt64_id)
qed simp

lemma times_prod_ge:
  assumes "allPositive ds" "(0::int) \<le> n" shows "n \<le> n * prod_list ds"
  using mult_left_mono [OF allPositive_prod [OF assms(1)] assms(2)] by simp

lemma wrapInt64_factor:
  assumes "allPositive ds" "0 \<le> m" "m * prod_list ds < 2 ^ 63" shows "wrapInt64 m = m"
  using times_prod_ge [OF assms(1,2)] assms(2,3) by (intro wrapInt64_id) linarith+

lemma numelFrom_positive:
  "allPositive ds \<Longrightarrow> 0 \<le> n \<Longrightarrow> n * prod_list ds < 2 ^ 63 \<Longrightarrow> numelFrom n ds = n * prod_list ds"
proof (induction ds arbitrary: n)
  case (Cons d ds)
  have "wrapInt64 (n * d) = n * d" by (rule wrapInt64_factor [of ds]) (use Cons.prems in \<open>auto simp: mult.assoc\<close>)
  thus ?case using Cons.IH [of "n * d"] Cons.prems by (auto simp: mult.assoc)
qed simp

lemma numelFrom_fold: "allPositive ds \<Longrightarrow> numelFrom n ds = fold (\<lambda>d n. wrapInt64 (n * d)) ds n"
  by (induction ds arbitrary: n) auto

section \<open>Whole frames\<close>

text \<open>The element count is in the machine type, and the bytes a view claims are in its buffer.\<close>

definition wholeFrame :: "FrameView \<Rightarrow> bool" where
  "wholeFrame v \<longleftrightarrow>
     (allPositive (ly_shape (fv_layout v)) \<longrightarrow>
        prod_list (ly_shape (fv_layout v)) < 2 ^ 63 \<and>
        bs_offset (fv_bytes v) + bs_size (fv_bytes v) \<le> length (bs_buffer (fv_bytes v)))"

lemma wholeFrame_numel:
  assumes "wholeFrame v" "numel (ly_shape (fv_layout v)) \<noteq> 0"
  shows "allPositive (ly_shape (fv_layout v))" "numel (ly_shape (fv_layout v)) = prod_list (ly_shape (fv_layout v))"
    "0 < numel (ly_shape (fv_layout v))"
    "bs_offset (fv_bytes v) + bs_size (fv_bytes v) \<le> length (bs_buffer (fv_bytes v))"
proof -
  show pos: "allPositive (ly_shape (fv_layout v))"
    using assms numelFrom_nonpositive by (fastforce simp: numel_def)
  show eq: "numel (ly_shape (fv_layout v)) = prod_list (ly_shape (fv_layout v))"
    using assms pos numelFrom_positive [OF pos, of 1] by (simp add: wholeFrame_def numel_def)
  show "0 < numel (ly_shape (fv_layout v))" using allPositive_prod [OF pos] eq by simp
  show "bs_offset (fv_bytes v) + bs_size (fv_bytes v) \<le> length (bs_buffer (fv_bytes v))"
    using assms pos by (simp add: wholeFrame_def)
qed

text \<open>What a readable frame has room for.\<close>

lemma validateReadable_room:
  assumes "validateReadable v = Evaluated u" "0 \<le> i" "i < numel (ly_shape (fv_layout v))"
  shows "nat i * effectiveElemStride v + dtypeSize (ly_dtype (fv_layout v)) \<le> bs_size (fv_bytes v)"
proof -
  let ?n = "numel (ly_shape (fv_layout v))" and ?s = "effectiveElemStride v"
    and ?e = "dtypeSize (ly_dtype (fv_layout v))"
  have le: "nat i \<le> nat (?n - 1)" "Suc (nat i) \<le> nat ?n" using assms(2,3) by auto
  show ?thesis
  proof (cases "isStrided v")
    case True
    hence "nat (?n - 1) * ?s + ?e \<le> bs_size (fv_bytes v)"
      using assms by (auto simp: validateReadable_def Let_def split: if_splits)
    thus ?thesis using mult_le_mono1 [OF le(1), of ?s] by linarith
  next
    case False
    hence s: "?s = ?e" by (auto simp: isStrided_def effectiveElemStride_def)
    have "nat ?n * ?s \<le> bs_size (fv_bytes v)"
      using assms False by (auto simp: validateReadable_def Let_def split: if_splits)
    thus ?thesis using mult_le_mono1 [OF le(2), of ?s] s by simp
  qed
qed

lemma elementBytes_inside:
  assumes "wholeFrame v" "validateReadable v = Evaluated u" "0 \<le> i" "i < numel (ly_shape (fv_layout v))"
  shows "elementBytes v i \<noteq> ReadOutside"
  using validateReadable_room [OF assms(2-4)] wholeFrame_numel(4) [OF assms(1)] assms(3,4)
  by (simp add: elementBytes_def Let_def)

text \<open>The frames a value holds, and results that never come from outside a buffer.\<close>

definition insideResult :: "'f QValue evaluated \<Rightarrow> bool" where
  "insideResult r \<longleftrightarrow> r \<noteq> ReadOutside \<and> (\<forall>v. r = Evaluated (QV_Frame v) \<longrightarrow> wholeFrame v)"

lemma insideResult_simps [simp]:
  "insideResult (EvalError e)" "insideResult Overflowed" "\<not> insideResult ReadOutside"
  "insideResult (Evaluated (QV_Int k))" "insideResult (Evaluated (QV_Float x))" "insideResult (Evaluated (QV_String s))"
  "insideResult (Evaluated (QV_IntList ks))" "insideResult (Evaluated (QV_FloatList xs))"
  "insideResult (Evaluated (QV_StringList ss))" "insideResult (Evaluated QV_None)"
  "insideResult (Evaluated (QV_Frame v)) \<longleftrightarrow> wholeFrame v"
  by (auto simp: insideResult_def)

lemma insideResult_then:
  assumes "r \<noteq> ReadOutside" "\<And>x. r = Evaluated x \<Longrightarrow> insideResult (f x)"
  shows "insideResult (thenEval r f)"
  using assms by (cases r) auto

lemma validateReadable_inside [simp]: "validateReadable v \<noteq> ReadOutside"
  by (simp add: validateReadable_def Let_def)

lemma readDoubleAt_inside:
  assumes "wholeFrame v" "validateReadable v = Evaluated u" "0 \<le> i" "i < numel (ly_shape (fv_layout v))"
  shows "readDoubleAt ops v i \<noteq> ReadOutside"
  using elementBytes_inside [OF assms] by (cases "elementBytes v i") (auto simp: readDoubleAt_def)

lemma foldFrom_inside:
  assumes "wholeFrame v" "validateReadable v = Evaluated u"
  shows "\<forall>i \<in> set is. int i < numel (ly_shape (fv_layout v)) \<Longrightarrow> foldFrom ops fn v is acc \<noteq> ReadOutside"
proof (induction "is" arbitrary: acc)
  case (Cons i "is")
  hence "readDoubleAt ops v (int i) \<noteq> ReadOutside" by (intro readDoubleAt_inside [OF assms]) auto
  thus ?case using Cons by (cases "readDoubleAt ops v (int i)") auto
qed simp

lemma foldElements_inside:
  assumes "wholeFrame v" "validateReadable v = Evaluated u"
  shows "foldElements ops v fn init \<noteq> ReadOutside"
  unfolding foldElements_def by (rule foldFrom_inside [OF assms]) auto

lemma intOrFloat_inside [simp]: "insideResult (intOrFloat ops dt x)"
  by (simp add: intOrFloat_def split: option.split)

lemma readable_fold_inside:
  assumes "wholeFrame v" "insideResult r" "\<And>x. insideResult (f x)"
  shows "insideResult (thenEval (validateReadable v) (\<lambda>_. if b then r else thenEval (foldElements ops v fn init) f))"
proof (rule insideResult_then [OF validateReadable_inside])
  fix u assume u: "validateReadable v = Evaluated u"
  show "insideResult (if b then r else thenEval (foldElements ops v fn init) f)"
    using assms(2,3) by (simp add: insideResult_then [OF foldElements_inside [OF assms(1) u]])
qed

lemma builtins_inside:
  assumes "wholeFrame v"
  shows "insideResult (builtinSum ops v)" "insideResult (builtinMean ops v)" "insideResult (builtinMin ops v)"
    "insideResult (builtinMax ops v)"
  unfolding builtinSum_def builtinMean_def builtinMin_def builtinMax_def Let_def
  by (rule readable_fold_inside [OF assms]; simp)+

lemma reduceFrame_inside: "wholeFrame v \<Longrightarrow> insideResult (reduceFrame ops name v)"
  by (simp add: reduceFrame_def builtins_inside builtinCount_def builtinShape_def builtinDtype_def)

lemma sampleAll_inside:
  assumes "wholeFrame v" "validateReadable v = Evaluated u"
  shows "\<forall>i \<in> set is. 0 \<le> i \<and> i < numel (ly_shape (fv_layout v)) \<Longrightarrow> sampleAll ops v is \<noteq> ReadOutside"
proof (induction "is")
  case (Cons i "is")
  hence "readDoubleAt ops v i \<noteq> ReadOutside" by (intro readDoubleAt_inside [OF assms]) auto
  thus ?case using Cons by (cases "readDoubleAt ops v i"; cases "sampleAll ops v is") auto
qed simp

lemma castAll_inside [simp]: "castAll ops ds \<noteq> ReadOutside"
proof (induction ds)
  case (Cons d ds)
  thus ?case by (cases "castAll ops ds") (auto simp: castInt_def split: option.split)
qed simp

text \<open>The rounding of \<open>double\<close> never yields a negative sample index.\<close>

definition samplesForward :: "'f FloatOps \<Rightarrow> bool" where
  "samplesForward ops \<longleftrightarrow>
     (\<forall>n k i. 0 \<le> i \<longrightarrow> i < k \<longrightarrow> k \<le> n \<longrightarrow>
        0 \<le> fo_floor ops (fo_mul ops (fo_ofInt ops i) (fo_div ops (fo_ofInt ops n) (fo_ofInt ops k))))"

lemma sampleIndex_inside:
  assumes "samplesForward ops" "0 \<le> i" "i < k" "k \<le> n"
  shows "0 \<le> sampleIndex ops n k i \<and> sampleIndex ops n k i < n"
  using assms unfolding samplesForward_def sampleIndex_def Let_def by (smt (verit))

lemma builtinSample_inside:
  assumes "wholeFrame v" "samplesForward ops"
  shows "insideResult (builtinSample ops v k)"
proof -
  let ?n = "numel (ly_shape (fv_layout v))"
  have "sampleAll ops v (map (sampleIndex ops ?n (min k ?n)) [0..min k ?n - 1]) \<noteq> ReadOutside"
    if "validateReadable v = Evaluated u" for u
    by (rule sampleAll_inside [OF assms(1) that]) (use sampleIndex_inside [OF assms(2)] in auto)
  thus ?thesis by (auto simp: builtinSample_def Let_def intro!: insideResult_then)
qed

section \<open>Slices and fields keep to the buffer\<close>

lemma toSize_le: "0 \<le> v \<Longrightarrow> toSize v \<le> nat v"
  by (simp add: toSize_def nat_mono zmod_le_nonneg_dividend)

lemma toSize_step: "toSize (int a * int b) \<le> a * b"
  using toSize_le [of "int a * int b"] by (simp add: nat_mult_distrib)

lemma rowElems_positive:
  assumes "allPositive ds" "prod_list ds < 2 ^ 63" shows "rowElems (d # ds) = prod_list ds"
  using assms numelFrom_fold [OF assms(1), of 1] numelFrom_positive [OF assms(1), of 1] by (simp add: rowElems_def)

lemma positive_dims:
  assumes "wholeFrame v" "ly_shape (fv_layout v) = dim0 # inner" "allPositive inner" "0 < c" "c \<le> dim0"
  shows "c * prod_list inner < 2 ^ 63" "prod_list inner < 2 ^ 63" "numel (ly_shape (fv_layout v)) = dim0 * prod_list inner"
    "bs_offset (fv_bytes v) + bs_size (fv_bytes v) \<le> length (bs_buffer (fv_bytes v))"
proof -
  have pos: "allPositive (ly_shape (fv_layout v))" using assms by simp
  have whole: "dim0 * prod_list inner < 2 ^ 63" using assms pos by (simp add: wholeFrame_def)
  show "numel (ly_shape (fv_layout v)) = dim0 * prod_list inner"
    using numelFrom_positive [OF pos, of 1] whole assms(2) by (simp add: numel_def)
  show "bs_offset (fv_bytes v) + bs_size (fv_bytes v) \<le> length (bs_buffer (fv_bytes v))"
    using assms(1) pos by (simp add: wholeFrame_def)
  have p: "1 \<le> prod_list inner" by (rule allPositive_prod [OF assms(3)])
  show c: "c * prod_list inner < 2 ^ 63"
    using mult_right_mono [OF assms(5), of "prod_list inner"] whole p by linarith
  show "prod_list inner < 2 ^ 63"
    using mult_right_mono [of 1 c "prod_list inner"] assms(4) c p by linarith
qed

text \<open>The rows up to the end of a slice lie in what the parent claims.\<close>

lemma rows_strided:
  assumes "validateReadable v = Evaluated u" "isStrided v" "numel (ly_shape (fv_layout v)) = dim0 * row"
    "1 \<le> row" "1 \<le> e" "e \<le> dim0"
  shows "nat (e - 1) * effectiveElemStride v + dtypeSize (ly_dtype (fv_layout v)) \<le> bs_size (fv_bytes v)"
proof (rule validateReadable_room [OF assms(1), of "e - 1", simplified])
  have "dim0 * 1 \<le> dim0 * row" using assms(4,5,6) by (intro mult_left_mono) auto
  thus "e - 1 < numel (ly_shape (fv_layout v))" using assms(3,6) by simp
qed (use assms in simp)

lemma rows_packed:
  assumes "validateReadable v = Evaluated u" "\<not> isStrided v" "numel (ly_shape (fv_layout v)) = dim0 * row"
    "0 \<le> e" "e \<le> dim0" "1 \<le> row"
  shows "nat e * (nat row * dtypeSize (ly_dtype (fv_layout v))) \<le> bs_size (fv_bytes v)"
proof -
  have s: "effectiveElemStride v = dtypeSize (ly_dtype (fv_layout v))"
    using assms(2) by (auto simp: isStrided_def effectiveElemStride_def)
  have "nat (dim0 * row) * dtypeSize (ly_dtype (fv_layout v)) \<le> bs_size (fv_bytes v)"
    using assms(1,2,3) s by (auto simp: validateReadable_def Let_def split: if_splits)
  moreover have "nat e * nat row \<le> nat (dim0 * row)"
    using assms(4-6) by (simp add: nat_mult_distrib [symmetric] mult_right_mono nat_mono)
  ultimately show ?thesis
    unfolding mult.assoc [symmetric] by (rule order_trans [OF mult_le_mono1, rotated])
qed

definition sliceOffset :: "FrameView \<Rightarrow> int \<Rightarrow> nat" where
  "sliceOffset v start =
     toSize (start * int (if isStrided v then effectiveElemStride v
        else toSize (int (toSize (rowElems (ly_shape (fv_layout v)))) * int (dtypeSize (ly_dtype (fv_layout v))))))"

definition sliceLength :: "FrameView \<Rightarrow> int \<Rightarrow> nat" where
  "sliceLength v count =
     (let elemSize = dtypeSize (ly_dtype (fv_layout v)) in
      if isStrided v
      then (if count > 0 then toSize ((count - 1) * int (effectiveElemStride v) + int elemSize) else 0)
      else toSize (count * int (toSize (int (toSize (rowElems (ly_shape (fv_layout v)))) * int elemSize))))"

lemma slice_room:
  assumes "wholeFrame v" "validateReadable v = Evaluated u" "ly_shape (fv_layout v) = dim0 # inner"
    "allPositive inner" "0 \<le> start" "start < e" "e \<le> dim0"
  shows "sliceOffset v start + sliceLength v (e - start) \<le> bs_size (fv_bytes v)"
proof -
  let ?size = "dtypeSize (ly_dtype (fv_layout v))" and ?row = "prod_list inner"
  note dims = positive_dims [OF assms(1,3,4), of e] assms(5-7)
  have row: "1 \<le> ?row" by (rule allPositive_prod [OF assms(4)])
  show ?thesis
  proof (cases "isStrided v")
    case True
    let ?s = "effectiveElemStride v"
    have "nat (e - 1) * ?s + ?size \<le> bs_size (fv_bytes v)"
      by (rule rows_strided [OF assms(2) True _ row]) (use dims in auto)
    moreover have "sliceOffset v start \<le> nat start * ?s"
      using True toSize_step [of "nat start" ?s] assms(5) by (simp add: sliceOffset_def)
    moreover have "sliceLength v (e - start) \<le> nat (e - start - 1) * ?s + ?size"
      using True toSize_le [of "(e - start - 1) * int ?s + int ?size"] assms(6)
      by (simp add: sliceLength_def nat_add_distrib nat_mult_distrib)
    moreover have "nat start * ?s + nat (e - start - 1) * ?s = nat (e - 1) * ?s"
      using assms(5,6) by (simp add: add_mult_distrib [symmetric] nat_add_distrib [symmetric])
    ultimately show ?thesis by linarith
  next
    case False
    define step where "step = toSize (int (toSize (rowElems (ly_shape (fv_layout v)))) * int ?size)"
    have "toSize ?row \<le> nat ?row" using row by (intro toSize_le) simp
    hence "step \<le> nat ?row * ?size"
      using order_trans [OF toSize_step [of "toSize ?row" ?size] mult_le_mono1 [of _ "nat ?row"]] dims
      by (simp add: step_def assms(3) rowElems_positive [OF assms(4)])
    hence "nat e * step \<le> nat e * (nat ?row * ?size)" by (rule mult_le_mono2)
    also have "\<dots> \<le> bs_size (fv_bytes v)"
      by (rule rows_packed [OF assms(2) False]) (use dims row in auto)
    finally have "nat e * step \<le> bs_size (fv_bytes v)" .
    moreover have "sliceOffset v start \<le> nat start * step"
      using False toSize_step [of "nat start" step] assms(5) by (simp add: sliceOffset_def step_def)
    moreover have "sliceLength v (e - start) \<le> nat (e - start) * step"
      using False toSize_step [of "nat (e - start)" step] assms(6) by (simp add: sliceLength_def step_def)
    moreover have "nat start * step + nat (e - start) * step = nat e * step"
      using assms(5,6) by (simp add: add_mult_distrib [symmetric] nat_add_distrib [symmetric])
    ultimately show ?thesis by linarith
  qed
qed

lemma sliceFrame_inside:
  assumes v: "wholeFrame v" shows "insideResult (sliceFrame v start e)"
  unfolding sliceFrame_def
proof (rule insideResult_then [OF validateReadable_inside], goal_cases)
  case (1 u)
  have room: "prod_list ((e - start) # inner) < 2 ^ 63 \<and>
      bs_offset (fv_bytes v) + (sliceOffset v start + sliceLength v (e - start)) \<le> length (bs_buffer (fv_bytes v))"
    if "ly_shape (fv_layout v) = dim0 # inner" "allPositive inner" "0 \<le> start" "start < e" "e \<le> dim0" for dim0 inner
    using positive_dims [OF v that(1,2), of "e - start"] slice_room [OF v 1 that] that(3-5) by simp
  show ?case
    using room
    by (auto simp: Let_def wholeFrame_def reference_def sliceOffset_def sliceLength_def add.assoc split: list.split)
qed

lemma fieldView_inside:
  assumes "wholeFrame v" shows "insideResult (fieldView name v)"
  using assms by (auto simp: fieldView_def Let_def wholeFrame_def reference_def split: option.split)

lemma insideResult_require [simp]:
  "requireFrame m v \<noteq> ReadOutside" "requireInt m v \<noteq> ReadOutside" "requireString m v \<noteq> ReadOutside"
  "requireScalar v r l \<noteq> ReadOutside" "resolveHeader env n v \<noteq> ReadOutside"
  by (simp_all add: requireFrame_def requireInt_def requireString_def requireScalar_def resolveHeader_def
      split: QValue.split option.split)

lemma requireFrame_Evaluated: "requireFrame m v = Evaluated frame \<longleftrightarrow> v = QV_Frame frame"
  by (simp add: requireFrame_def split: QValue.split)

lemma binaryValue_inside: "insideResult (binaryValue ops op l r)"
  unfolding binaryValue_def
  by (intro insideResult_then insideResult_require)
    (auto simp: checkedInt_def floatBinary_def split: QValue.split BinaryOpKind.split)

lemma negValue_inside: "insideResult (negValue ops v)"
  unfolding negValue_def by (intro insideResult_then insideResult_require) (auto split: QValue.split)

lemma insideResult_ok: "insideResult r \<Longrightarrow> r \<noteq> ReadOutside"
  by (simp add: insideResult_def)

lemma insideResult_frame: "insideResult r \<Longrightarrow> r = Evaluated v \<Longrightarrow> requireFrame m v = Evaluated frame \<Longrightarrow> wholeFrame frame"
  by (auto simp: requireFrame_Evaluated)

lemma detailAnswer_inside [simp]: "insideResult (Evaluated (detailAnswer a))"
  by (cases a) simp_all

lemma detailValue_inside: "insideResult (Evaluated (detailValue env name passName key))"
  by (simp add: detailValue_def split: option.split)

lemma insideResult_if: "insideResult r \<Longrightarrow> insideResult r' \<Longrightarrow> insideResult (if c then r else r')"
  by simp

lemma headerValue_inside: "insideResult (Evaluated (headerValue name hdr))"
  by (simp add: headerValue_def)

lemma variable_whole: "\<forall>(name, v) \<in> set m. wholeFrame v \<Longrightarrow> map_of m name = Some v \<Longrightarrow> wholeFrame v"
  by (auto dest: map_of_SomeD)

lemma reduceCall_inside:
  assumes a: "insideResult (evalExpr ops env a)" and rest: "\<And>k. k \<in> set rest \<Longrightarrow> insideResult (evalExpr ops env k)"
    and ops: "samplesForward ops"
  shows "insideResult (thenEval (evalExpr ops env a) (\<lambda>v. thenEval (requireFrame m v) (\<lambda>frame.
           if name = ''sample'' then
             (case rest of
                [k] \<Rightarrow> thenEval (evalExpr ops env k) (\<lambda>kv. thenEval (requireInt m2 kv) (builtinSample ops frame))
              | _ \<Rightarrow> EvalError m3)
           else if rest \<noteq> [] then EvalError m4 else reduceFrame ops name frame)))"
proof (rule insideResult_then [OF insideResult_ok [OF a]], rule insideResult_then [OF insideResult_require(1)])
  fix v frame assume "evalExpr ops env a = Evaluated v" "requireFrame m v = Evaluated frame"
  hence frame: "wholeFrame frame" by (rule insideResult_frame [OF a])
  have sample: "insideResult (thenEval (evalExpr ops env k) (\<lambda>kv. thenEval (requireInt m2 kv) (builtinSample ops frame)))"
    if "rest = [k]" for k
    by (intro insideResult_then insideResult_ok [OF rest] insideResult_require builtinSample_inside [OF frame ops])
      (simp add: that)
  show "insideResult (if name = ''sample'' then
             (case rest of
                [k] \<Rightarrow> thenEval (evalExpr ops env k) (\<lambda>kv. thenEval (requireInt m2 kv) (builtinSample ops frame))
              | _ \<Rightarrow> EvalError m3)
           else if rest \<noteq> [] then EvalError m4 else reduceFrame ops name frame)"
    using sample reduceFrame_inside [OF frame] by (auto split: list.split)
qed

lemma detailCall_inside:
  assumes "insideResult (evalExpr ops env a)" "insideResult (evalExpr ops env b)"
  shows "insideResult (thenEval (evalExpr ops env a) (\<lambda>v0. thenEval (requireString m v0) (\<lambda>passName.
           thenEval (evalExpr ops env b) (\<lambda>v1. thenEval (requireString m2 v1) (\<lambda>key.
             Evaluated (detailValue env name passName key))))))"
  by (intro insideResult_then insideResult_ok [OF assms(1)] insideResult_ok [OF assms(2)] insideResult_require
      detailValue_inside)

lemma evalExpr_inside:
  assumes env: "\<forall>(name, v) \<in> set (en_variables env). wholeFrame v" and ops: "samplesForward ops"
  shows "insideResult (evalExpr ops env e)"
proof (induction e)
  case (QIdent pos name)
  show ?case using variable_whole [OF env] by (simp split: option.split)
next
  case (QField pos base name)
  show ?case
    by (simp, intro insideResult_then insideResult_ok [OF QField] insideResult_require)
      (rule fieldView_inside, rule insideResult_frame [OF QField])
next
  case (QSlice pos base start e)
  show ?case
    by (simp, intro insideResult_then insideResult_ok [OF QSlice.IH(1)] insideResult_ok [OF QSlice.IH(2)]
        insideResult_ok [OF QSlice.IH(3)] insideResult_require sliceFrame_inside)
      (rule insideResult_frame [OF QSlice.IH(1)])
next
  case (QBinary pos op l r)
  show ?case
    by (simp, intro insideResult_then insideResult_ok [OF QBinary.IH(1)] insideResult_ok [OF QBinary.IH(2)] binaryValue_inside)
next
  case (QUnary pos operand)
  show ?case by (simp, intro insideResult_then insideResult_ok [OF QUnary] negValue_inside)
next
  case (QCall pos base args)
  note arg = QCall.IH(2)
  have header: "insideResult (case args of
             [a] \<Rightarrow> thenEval (evalExpr ops env a) (\<lambda>v. thenEval (resolveHeader env name v) (\<lambda>hdr. Evaluated (headerValue name hdr)))
           | _ \<Rightarrow> EvalError m)" for name m
    by (cases args rule: remdups_adj.cases)
      (simp_all, intro insideResult_then insideResult_ok [OF arg] insideResult_require headerValue_inside, simp)
  have detail: "insideResult (case args of
             [a, b] \<Rightarrow>
               thenEval (evalExpr ops env a) (\<lambda>v0. thenEval (requireString m v0) (\<lambda>passName.
               thenEval (evalExpr ops env b) (\<lambda>v1. thenEval (requireString m2 v1) (\<lambda>key.
                 Evaluated (detailValue env name passName key)))))
           | _ \<Rightarrow> EvalError m3)" for name m m2 m3
    by (auto split: list.split intro!: detailCall_inside arg)
  have reduce: "insideResult (case args of [] \<Rightarrow> EvalError m | a # rest \<Rightarrow>
           thenEval (evalExpr ops env a) (\<lambda>v. thenEval (requireFrame m1 v) (\<lambda>frame.
             if name = ''sample'' then
               (case rest of
                  [k] \<Rightarrow> thenEval (evalExpr ops env k) (\<lambda>kv. thenEval (requireInt m2 kv) (builtinSample ops frame))
                | _ \<Rightarrow> EvalError m3)
             else if rest \<noteq> [] then EvalError m4 else reduceFrame ops name frame)))" for name m m1 m2 m3 m4
    by (cases args) (simp_all only: list.case insideResult_simps, rule reduceCall_inside [OF arg arg ops], simp_all)
  show ?case
  proof (cases base)
    case (QIdent p name)
    show ?thesis
      unfolding evalExpr.simps QIdent QExpr.case by (intro insideResult_if insideResult_simps detail header reduce)
  qed simp_all
qed simp_all

section \<open>A shape that wraps\<close>

text \<open>
  Numbers of integers in place of \<open>double\<close>, for evaluating examples.
\<close>

definition intOps :: "int FloatOps" where
  "intOps = \<lparr>fo_ofInt = id, fo_f32 = littleEndian, fo_f64 = littleEndian, fo_add = (+), fo_sub = (-), fo_mul = (*),
     fo_div = (div), fo_neg = uminus, fo_less = (<), fo_isZero = (\<lambda>k. k = 0), fo_inf = 2 ^ 63, fo_floor = id,
     fo_integral = Some, fo_show = int_to_string\<rparr>"

definition plainLayout :: "string \<Rightarrow> int list \<Rightarrow> LayoutDescriptor" where
  "plainLayout dtype shape =
     \<lparr>ly_dtype = dtype, ly_shape = shape, ly_strides = [], ly_soa = False, ly_isStruct = False,
      ly_structLayout = \<lparr>sl_name = [], sl_strideBytes = 0, sl_fields = []\<rparr>\<rparr>"

definition frameEnv :: "string \<Rightarrow> FrameView \<Rightarrow> Environment" where
  "frameEnv name v = \<lparr>en_variables = [(name, v)], en_passReports = None\<rparr>"

lemma intOps_forward: "samplesForward intOps"
  by (simp add: samplesForward_def intOps_def pos_imp_zdiv_nonneg_iff)

lemma foldElements_outside:
  assumes "0 < numel (ly_shape (fv_layout v))" "elementBytes v 0 = ReadOutside"
  shows "foldElements ops v fn init = ReadOutside"
proof -
  have "[0..<nat (numel (ly_shape (fv_layout v)))] = 0 # [1..<nat (numel (ly_shape (fv_layout v)))]"
    using assms(1) upt_conv_Cons [of 0 "nat (numel (ly_shape (fv_layout v)))"] by simp
  thus ?thesis using assms(2) by (simp add: foldElements_def readDoubleAt_def)
qed

text \<open>
  Two dimensions whose product is \<open>2^64\<close>: no byte is asked for, the slice claims \<open>2^31\<close> of them, and
  the sum of the slice reads an empty buffer.
\<close>

definition wrappedFrame :: FrameView where
  "wrappedFrame = owned ''x'' [] (plainLayout ''u8'' [2 ^ 33, 2 ^ 31])"

lemma wrapped_shape_reads_outside:
  "evalExpr intOps (frameEnv ''x'' wrappedFrame)
     (QCall 1 (QIdent 1 ''sum'') [QSlice 5 (QIdent 5 ''x'') (QInt 7 0) (QInt 10 1)]) = ReadOutside"
proof -
  define row where
    "row = reference ''x[0..1]'' \<lparr>bs_buffer = [], bs_offset = 0, bs_size = 2 ^ 31\<rparr> (plainLayout ''u8'' [1, 2 ^ 31])"
  have slice: "sliceFrame wrappedFrame 0 1 = Evaluated (QV_Frame row)"
    by (simp add: sliceFrame_def validateReadable_def wrappedFrame_def row_def owned_def reference_def plainLayout_def
        numel_def wrapInt64_def isSupportedDtype_def dtypeSize_def kSizes_def isStrided_def effectiveElemStride_def
        mulOverflows_def rowElems_def toSize_def Let_def int_to_string_def) code_simp
  have fits: "validateReadable row = Evaluated ()"
    by (simp add: validateReadable_def row_def reference_def plainLayout_def numel_def wrapInt64_def isSupportedDtype_def
        dtypeSize_def kSizes_def isStrided_def effectiveElemStride_def mulOverflows_def Let_def)
  have first: "elementBytes row 0 = ReadOutside" "numel (ly_shape (fv_layout row)) = 2 ^ 31"
    by (simp_all add: elementBytes_def row_def reference_def plainLayout_def numel_def wrapInt64_def
        dtypeSize_def kSizes_def Let_def)
  have "builtinSum intOps row = ReadOutside"
    by (simp add: builtinSum_def fits first foldElements_outside Let_def)
  thus ?thesis
    by (simp add: frameEnv_def slice kFrameBuiltins_def kPassReportBuiltins_def reduceFrame_def requireFrame_def requireInt_def)
qed

section \<open>Queries\<close>

text \<open>
  C18: every query text is answered by the parser, and an expression it yields is evaluated without a
  read outside the buffers, in every environment whose frames are whole and whose shapes multiply
  in 64 bits; a frame it evaluates to is again a whole one.
\<close>

theorem query_memory_safe:
  assumes "\<forall>(name, v) \<in> set (en_variables env). wholeFrame v" "samplesForward ops"
  shows "parseQuery toFloat source \<noteq> NoFuel \<and>
         (\<forall>e pos. parseQuery toFloat source = Parsed e pos \<longrightarrow>
            evalExpr ops env e \<noteq> ReadOutside \<and>
            (\<forall>v. evalExpr ops env e = Evaluated (QV_Frame v) \<longrightarrow> wholeFrame v))"
  using evalExpr_inside [OF assms] parseQuery_returns [of toFloat source] by (auto simp: insideResult_def)

definition exampleEnv :: Environment where
  "exampleEnv = frameEnv ''x'' (owned ''x'' [1, 2, 3, 4] (plainLayout ''u8'' [4]))"

lemma exampleEnv_whole: "\<forall>(name, v) \<in> set (en_variables exampleEnv). wholeFrame v"
  by (simp add: exampleEnv_def frameEnv_def owned_def plainLayout_def wholeFrame_def)

lemma example_parsed:
  "parseQuery (\<lambda>_. 0 :: int) ''sum(x[1..3])'' =
     Parsed (QCall 1 (QIdent 1 ''sum'') [QSlice 5 (QIdent 5 ''x'') (QInt 7 1) (QInt 10 3)]) 12"
  by code_simp

lemma query_memory_safe_witness:
  "evalExpr intOps exampleEnv
     (QCall 1 (QIdent 1 ''sum'') [QSlice 5 (QIdent 5 ''x'') (QInt 7 1) (QInt 10 3)]) \<noteq> ReadOutside"
  using query_memory_safe [OF exampleEnv_whole intOps_forward, of "\<lambda>_. 0 :: int" "''sum(x[1..3])''"] example_parsed by blast

end
