(* ===== verification/TranspileModel.thy ===== *)
theory TranspileModel
  imports AST
begin

text \<open>
  The tree that the transpiler works on (\<open>include/topo/Transpile/TranspileModel.h\<close>) and the walk over
  its expressions (\<open>TranspileTraversal.h\<close>).  A pointer that the code tests before it follows it is
  an option.
\<close>

section \<open>Nodes\<close>

datatype Fidelity = Fid_Source | Fid_Recovered | Fid_Inferred

record SourceSpan =
  sp_file :: string
  sp_startOffset :: int
  sp_endOffset :: int
  sp_startLine :: int
  sp_startColumn :: int
  sp_endLine :: int
  sp_endColumn :: int

datatype TBinaryOp =
    TB_Add | TB_Sub | TB_Mul | TB_Div | TB_Mod | TB_Eq | TB_NotEq | TB_Less | TB_Greater | TB_LessEq
  | TB_GreaterEq | TB_And | TB_Or | TB_BitAnd | TB_BitOr | TB_BitXor | TB_Shl | TB_Shr

datatype TUnaryOp =
  TU_Negate | TU_Not | TU_BitNot | TU_PreIncrement | TU_PostIncrement | TU_PreDecrement | TU_PostDecrement

datatype TLiteralKind = TL_Integer | TL_Float | TL_Boolean | TL_String

datatype CaptureMode = Cap_ByValue | Cap_ByReference

record CaptureEntry =
  cap_name :: string
  cap_mode :: CaptureMode

text \<open>What every expression and every statement carries.\<close>

record ExprMeta =
  xm_fidelity :: Fidelity
  xm_sourceSpan :: "SourceSpan option"
  xm_rawSource :: string
  xm_resolvedQualifiedName :: string
  xm_resolvedSignature :: string

record StmtMeta =
  sm_fidelity :: Fidelity
  sm_sourceSpan :: "SourceSpan option"
  sm_rawSource :: string

datatype TExpr =
    TE_Binary ExprMeta TBinaryOp TExpr TExpr
  | TE_Unary ExprMeta TUnaryOp TExpr
  | TE_Call ExprMeta string "TExpr option" "TExpr list"
  | TE_Member ExprMeta TExpr string
  | TE_Index ExprMeta TExpr TExpr
  | TE_Literal ExprMeta TLiteralKind string
  | TE_Var ExprMeta string
  | TE_Construct ExprMeta TypeNode "TExpr list"
  | TE_Lambda ExprMeta "CaptureEntry list" "Parameter list" TypeNode TypeNode "TStmt list"
  | TE_MethodRef ExprMeta string string "TExpr option" TypeNode TypeNode bool
  | TE_Throw ExprMeta "TExpr option"
  | TE_Unsupported ExprMeta string
  | TE_Ternary ExprMeta TExpr TExpr TExpr
  | TE_Compound ExprMeta TBinaryOp TExpr TExpr
and TStmt =
    TS_VarDecl StmtMeta TypeNode string "TExpr option"
  | TS_Assign StmtMeta TExpr TExpr
  | TS_Return StmtMeta "TExpr option"
  | TS_If StmtMeta TExpr "TStmt list" "TStmt list"
  | TS_For StmtMeta "TStmt option" "TExpr option" "TExpr option" "TStmt list"
  | TS_While StmtMeta TExpr "TStmt list"
  | TS_Expr StmtMeta TExpr
  | TS_Try StmtMeta "TStmt list" "CatchClause list" "TStmt list"
  | TS_Break StmtMeta
  | TS_Continue StmtMeta
  | TS_Switch StmtMeta TExpr "SwitchCase list"
and CatchClause = CatchClause TypeNode string "TStmt list"
and SwitchCase = SwitchCase "TExpr option" "TStmt list"

section \<open>Modules\<close>

record TranspileField =
  tf_type :: TypeNode
  tf_name :: string
  tf_fidelity :: Fidelity
  tf_sourceSpan :: "SourceSpan option"
  tf_rawSource :: string
  tf_init :: "TExpr option"

datatype BaseClassKind = BCK_Class | BCK_Interface

record TranspileType =
  tt_qualifiedName :: string
  tt_isExternal :: bool
  tt_externalOwner :: string
  tt_fields :: "TranspileField list"
  tt_baseClasses :: "TypeNode list"
  tt_baseClassKinds :: "BaseClassKind list"
  tt_templateParams :: "TemplateParamDecl list"
  tt_fidelity :: Fidelity
  tt_sourceSpan :: "SourceSpan option"
  tt_rawSource :: string
  tt_initializers :: "TStmt list"
  tt_unsupported :: "string list"

record TranspileFunction =
  tn_qualifiedName :: string
  tn_isExternal :: bool
  tn_owningType :: string
  tn_externalOwner :: string
  tn_returnType :: TypeNode
  tn_params :: "Parameter list"
  tn_body :: "TStmt list"
  tn_unsupported :: "string list"
  tn_fidelity :: Fidelity
  tn_accessModifier :: string
  tn_throwsClause :: "TypeNode list"
  tn_templateParams :: "TemplateParamDecl list"
  tn_sourceSpan :: "SourceSpan option"
  tn_rawSource :: string
  tn_resolvedQualifiedName :: string
  tn_resolvedSignature :: string

record TranspileModule =
  mo_types :: "TranspileType list"
  mo_functions :: "TranspileFunction list"

section \<open>The walk\<close>

text \<open>The expressions in the order of the visit.\<close>

fun visitExpr :: "TExpr \<Rightarrow> TExpr list"
  and visitStmt :: "TStmt \<Rightarrow> TExpr list"
  and visitCatch :: "CatchClause \<Rightarrow> TExpr list"
  and visitCase :: "SwitchCase \<Rightarrow> TExpr list" where
  "visitExpr (TE_Binary m op l r) = TE_Binary m op l r # visitExpr l @ visitExpr r"
| "visitExpr (TE_Unary m op e) = TE_Unary m op e # visitExpr e"
| "visitExpr (TE_Call m c recv args) =
     TE_Call m c recv args # (case recv of None \<Rightarrow> [] | Some e \<Rightarrow> visitExpr e) @ concat (map visitExpr args)"
| "visitExpr (TE_Member m e n) = TE_Member m e n # visitExpr e"
| "visitExpr (TE_Index m e i) = TE_Index m e i # visitExpr e @ visitExpr i"
| "visitExpr (TE_Literal m k v) = [TE_Literal m k v]"
| "visitExpr (TE_Var m n) = [TE_Var m n]"
| "visitExpr (TE_Construct m t args) = TE_Construct m t args # concat (map visitExpr args)"
| "visitExpr (TE_Lambda m cs ps rt tt body) = TE_Lambda m cs ps rt tt body # concat (map visitStmt body)"
| "visitExpr (TE_MethodRef m k c recv ot tt b) =
     TE_MethodRef m k c recv ot tt b # (case recv of None \<Rightarrow> [] | Some e \<Rightarrow> visitExpr e)"
| "visitExpr (TE_Throw m e) = TE_Throw m e # (case e of None \<Rightarrow> [] | Some x \<Rightarrow> visitExpr x)"
| "visitExpr (TE_Unsupported m d) = [TE_Unsupported m d]"
| "visitExpr (TE_Ternary m c t e) = TE_Ternary m c t e # visitExpr c @ visitExpr t @ visitExpr e"
| "visitExpr (TE_Compound m op t v) = TE_Compound m op t v # visitExpr t @ visitExpr v"
| "visitStmt (TS_VarDecl m t n i) = (case i of None \<Rightarrow> [] | Some e \<Rightarrow> visitExpr e)"
| "visitStmt (TS_Assign m t v) = visitExpr t @ visitExpr v"
| "visitStmt (TS_Return m v) = (case v of None \<Rightarrow> [] | Some e \<Rightarrow> visitExpr e)"
| "visitStmt (TS_If m c t e) = visitExpr c @ concat (map visitStmt t) @ concat (map visitStmt e)"
| "visitStmt (TS_For m i c n b) =
     (case i of None \<Rightarrow> [] | Some s \<Rightarrow> visitStmt s) @ (case c of None \<Rightarrow> [] | Some e \<Rightarrow> visitExpr e) @
     (case n of None \<Rightarrow> [] | Some e \<Rightarrow> visitExpr e) @ concat (map visitStmt b)"
| "visitStmt (TS_While m c b) = visitExpr c @ concat (map visitStmt b)"
| "visitStmt (TS_Expr m e) = visitExpr e"
| "visitStmt (TS_Try m b cs f) =
     concat (map visitStmt b) @ concat (map visitCatch cs) @ concat (map visitStmt f)"
| "visitStmt (TS_Break m) = []"
| "visitStmt (TS_Continue m) = []"
| "visitStmt (TS_Switch m s cs) = visitExpr s @ concat (map visitCase cs)"
| "visitCatch (CatchClause t v b) = concat (map visitStmt b)"
| "visitCase (SwitchCase v b) = (case v of None \<Rightarrow> [] | Some e \<Rightarrow> visitExpr e) @ concat (map visitStmt b)"

definition visitStatements :: "TStmt list \<Rightarrow> TExpr list" where
  "visitStatements body = concat (map visitStmt body)"

definition visitModuleExprs :: "TranspileModule \<Rightarrow> TExpr list" where
  "visitModuleExprs m =
     concat (map (\<lambda>fn. visitStatements (tn_body fn)) (mo_functions m)) @
     concat (map (\<lambda>t.
       concat (map (\<lambda>f. case tf_init f of None \<Rightarrow> [] | Some e \<Rightarrow> visitExpr e) (tt_fields t)) @
       visitStatements (tt_initializers t)) (mo_types m))"

end
