(* ===== verification/Optimizer.thy ===== *)
theory Optimizer
  imports TranspileModel
begin

text \<open>
  The passes that make a transpiled function idiomatic (\<open>lib/Transpile/ModelOptimizer.cpp\<close>): folding of
  temporaries, names for generated variables, removal of dead code.

  A lambda is cloned by writing its body to JSON and reading it back, which is the third-party
  library's: \<open>recode\<close> is what comes back for a statement.
\<close>

section \<open>Cloning and closures\<close>

fun closureExpr :: "TExpr \<Rightarrow> bool" where
  "closureExpr (TE_Lambda m cs ps rt tt body) = True"
| "closureExpr (TE_MethodRef m k c recv ot tt b) = True"
| "closureExpr _ = False"

definition hasClosureBinding :: "TranspileFunction \<Rightarrow> bool" where
  "hasClosureBinding fn = list_ex closureExpr (visitStatements (tn_body fn))"

fun cloneExpr :: "(TStmt \<Rightarrow> TStmt) \<Rightarrow> TExpr \<Rightarrow> TExpr" where
  "cloneExpr recode (TE_Literal m k v) = TE_Literal m k v"
| "cloneExpr recode (TE_Var m n) = TE_Var m n"
| "cloneExpr recode (TE_Binary m op l r) = TE_Binary m op (cloneExpr recode l) (cloneExpr recode r)"
| "cloneExpr recode (TE_Unary m op e) = TE_Unary m op (cloneExpr recode e)"
| "cloneExpr recode (TE_Call m c recv args) =
     TE_Call m c (map_option (cloneExpr recode) recv) (map (cloneExpr recode) args)"
| "cloneExpr recode (TE_Member m e n) = TE_Member m (cloneExpr recode e) n"
| "cloneExpr recode (TE_Index m e i) = TE_Index m (cloneExpr recode e) (cloneExpr recode i)"
| "cloneExpr recode (TE_Construct m t args) = TE_Construct m t (map (cloneExpr recode) args)"
| "cloneExpr recode (TE_Unsupported m d) = TE_Unsupported m d"
| "cloneExpr recode (TE_Ternary m c t e) =
     TE_Ternary m (cloneExpr recode c) (cloneExpr recode t) (cloneExpr recode e)"
| "cloneExpr recode (TE_Compound m op t v) = TE_Compound m op (cloneExpr recode t) (cloneExpr recode v)"
| "cloneExpr recode (TE_Lambda m cs ps rt tt body) = TE_Lambda m cs ps rt tt (map recode body)"
| "cloneExpr recode (TE_MethodRef m k c recv ot tt b) =
     TE_MethodRef m k c (map_option (cloneExpr recode) recv) ot tt b"
| "cloneExpr recode (TE_Throw m e) = TE_Throw m (map_option (cloneExpr recode) e)"

section \<open>Folding temporaries\<close>

text \<open>References are not looked for in lambdas, method references and throws.\<close>

fun countRefs :: "TExpr \<Rightarrow> string \<Rightarrow> nat" where
  "countRefs (TE_Var m n) name = (if n = name then 1 else 0)"
| "countRefs (TE_Binary m op l r) name = countRefs l name + countRefs r name"
| "countRefs (TE_Unary m op e) name = countRefs e name"
| "countRefs (TE_Call m c recv args) name =
     (case recv of Some e \<Rightarrow> countRefs e name | None \<Rightarrow> 0) + sum_list (map (\<lambda>a. countRefs a name) args)"
| "countRefs (TE_Member m e n) name = countRefs e name"
| "countRefs (TE_Index m e i) name = countRefs e name + countRefs i name"
| "countRefs (TE_Construct m t args) name = sum_list (map (\<lambda>a. countRefs a name) args)"
| "countRefs (TE_Ternary m c t e) name = countRefs c name + countRefs t name + countRefs e name"
| "countRefs (TE_Compound m op t v) name = countRefs t name + countRefs v name"
| "countRefs _ name = 0"

definition optRefs :: "TExpr option \<Rightarrow> string \<Rightarrow> nat" where
  "optRefs e name = (case e of Some x \<Rightarrow> countRefs x name | None \<Rightarrow> 0)"

fun countRefsInStmt :: "TStmt \<Rightarrow> string \<Rightarrow> nat"
  and countRefsInCatch :: "CatchClause \<Rightarrow> string \<Rightarrow> nat"
  and countRefsInCase :: "SwitchCase \<Rightarrow> string \<Rightarrow> nat" where
  "countRefsInStmt (TS_VarDecl m t n i) name = optRefs i name"
| "countRefsInStmt (TS_Assign m t v) name = countRefs t name + countRefs v name"
| "countRefsInStmt (TS_Return m v) name = optRefs v name"
| "countRefsInStmt (TS_Expr m e) name = countRefs e name"
| "countRefsInStmt (TS_If m c t e) name =
     countRefs c name + sum_list (map (\<lambda>s. countRefsInStmt s name) t) + sum_list (map (\<lambda>s. countRefsInStmt s name) e)"
| "countRefsInStmt (TS_For m i c n b) name =
     (case i of Some s \<Rightarrow> countRefsInStmt s name | None \<Rightarrow> 0) + optRefs c name + optRefs n name +
     sum_list (map (\<lambda>s. countRefsInStmt s name) b)"
| "countRefsInStmt (TS_While m c b) name = countRefs c name + sum_list (map (\<lambda>s. countRefsInStmt s name) b)"
| "countRefsInStmt (TS_Switch m s cs) name =
     countRefs s name + sum_list (map (\<lambda>c. countRefsInCase c name) cs)"
| "countRefsInStmt (TS_Try m b cs f) name =
     sum_list (map (\<lambda>s. countRefsInStmt s name) b) + sum_list (map (\<lambda>c. countRefsInCatch c name) cs) +
     sum_list (map (\<lambda>s. countRefsInStmt s name) f)"
| "countRefsInStmt (TS_Break m) name = 0"
| "countRefsInStmt (TS_Continue m) name = 0"
| "countRefsInCatch (CatchClause t v b) name = sum_list (map (\<lambda>s. countRefsInStmt s name) b)"
| "countRefsInCase (SwitchCase v b) name = optRefs v name + sum_list (map (\<lambda>s. countRefsInStmt s name) b)"

definition countRefsInStmts :: "TStmt list \<Rightarrow> string \<Rightarrow> nat" where
  "countRefsInStmts stmts name = sum_list (map (\<lambda>s. countRefsInStmt s name) stmts)"

fun replaceRef :: "(TStmt \<Rightarrow> TStmt) \<Rightarrow> string \<Rightarrow> TExpr \<Rightarrow> TExpr \<Rightarrow> TExpr" where
  "replaceRef recode name new (TE_Var m n) = (if n = name then cloneExpr recode new else TE_Var m n)"
| "replaceRef recode name new (TE_Binary m op l r) =
     TE_Binary m op (replaceRef recode name new l) (replaceRef recode name new r)"
| "replaceRef recode name new (TE_Unary m op e) = TE_Unary m op (replaceRef recode name new e)"
| "replaceRef recode name new (TE_Call m c recv args) =
     TE_Call m c (map_option (replaceRef recode name new) recv) (map (replaceRef recode name new) args)"
| "replaceRef recode name new (TE_Member m e n) = TE_Member m (replaceRef recode name new e) n"
| "replaceRef recode name new (TE_Index m e i) =
     TE_Index m (replaceRef recode name new e) (replaceRef recode name new i)"
| "replaceRef recode name new (TE_Construct m t args) = TE_Construct m t (map (replaceRef recode name new) args)"
| "replaceRef recode name new (TE_Ternary m c t e) =
     TE_Ternary m (replaceRef recode name new c) (replaceRef recode name new t) (replaceRef recode name new e)"
| "replaceRef recode name new (TE_Compound m op t v) =
     TE_Compound m op (replaceRef recode name new t) (replaceRef recode name new v)"
| "replaceRef recode name new e = e"

fun replaceRefInStmt :: "(TExpr \<Rightarrow> TExpr) \<Rightarrow> TStmt \<Rightarrow> TStmt"
  and replaceRefInCatch :: "(TExpr \<Rightarrow> TExpr) \<Rightarrow> CatchClause \<Rightarrow> CatchClause"
  and replaceRefInCase :: "(TExpr \<Rightarrow> TExpr) \<Rightarrow> SwitchCase \<Rightarrow> SwitchCase" where
  "replaceRefInStmt r (TS_VarDecl m t n i) = TS_VarDecl m t n (map_option r i)"
| "replaceRefInStmt r (TS_Assign m t v) = TS_Assign m (r t) (r v)"
| "replaceRefInStmt r (TS_Return m v) = TS_Return m (map_option r v)"
| "replaceRefInStmt r (TS_Expr m e) = TS_Expr m (r e)"
| "replaceRefInStmt r (TS_If m c t e) = TS_If m (r c) (map (replaceRefInStmt r) t) (map (replaceRefInStmt r) e)"
| "replaceRefInStmt r (TS_For m i c n b) =
     TS_For m (map_option (replaceRefInStmt r) i) (map_option r c) (map_option r n) (map (replaceRefInStmt r) b)"
| "replaceRefInStmt r (TS_While m c b) = TS_While m (r c) (map (replaceRefInStmt r) b)"
| "replaceRefInStmt r (TS_Switch m s cs) = TS_Switch m (r s) (map (replaceRefInCase r) cs)"
| "replaceRefInStmt r (TS_Try m b cs f) =
     TS_Try m (map (replaceRefInStmt r) b) (map (replaceRefInCatch r) cs) (map (replaceRefInStmt r) f)"
| "replaceRefInStmt r (TS_Break m) = TS_Break m"
| "replaceRefInStmt r (TS_Continue m) = TS_Continue m"
| "replaceRefInCatch r (CatchClause t v b) = CatchClause t v (map (replaceRefInStmt r) b)"
| "replaceRefInCase r (SwitchCase v b) = SwitchCase (map_option r v) (map (replaceRefInStmt r) b)"

text \<open>A declaration of a temporary that only the next statement uses, once.\<close>

fun foldedBy :: "TStmt \<Rightarrow> (string \<times> TExpr) option" where
  "foldedBy (TS_VarDecl m t n (Some i)) = (if is_prefix ''_tmp'' n then Some (n, i) else None)"
| "foldedBy _ = None"

definition foldable :: "TStmt list \<Rightarrow> nat \<Rightarrow> bool" where
  "foldable stmts i \<longleftrightarrow>
     i + 1 < length stmts \<and>
     (case foldedBy (stmts ! i) of
        None \<Rightarrow> False
      | Some (n, _) \<Rightarrow>
          countRefsInStmt (stmts ! (i + 1)) n = 1 \<and> countRefsInStmts (drop (i + 2) stmts) n = 0)"

definition foldAt :: "(TStmt \<Rightarrow> TStmt) \<Rightarrow> TStmt list \<Rightarrow> nat \<Rightarrow> TStmt list" where
  "foldAt recode stmts i =
     (case foldedBy (stmts ! i) of
        None \<Rightarrow> stmts
      | Some (n, e) \<Rightarrow>
          take i stmts @ replaceRefInStmt (replaceRef recode n e) (stmts ! (i + 1)) # drop (i + 2) stmts)"

lemma foldAt_shorter: "foldable stmts i \<Longrightarrow> length (foldAt recode stmts i) < length stmts"
  by (auto simp: foldable_def foldAt_def split: option.splits)

lemma find_foldable: "find P xs = Some i \<Longrightarrow> P i"
  by (induction xs) (auto split: if_splits)

function foldTemps :: "(TStmt \<Rightarrow> TStmt) \<Rightarrow> TStmt list \<Rightarrow> TStmt list" where
  "foldTemps recode stmts =
     (case find (foldable stmts) [0..<length stmts] of
        None \<Rightarrow> stmts
      | Some i \<Rightarrow> foldTemps recode (foldAt recode stmts i))"
  by pat_completeness auto
termination by (relation "measure (\<lambda>(recode, stmts). length stmts)") (auto dest: find_foldable foldAt_shorter)

declare foldTemps.simps [simp del]

fun foldStmt :: "(TStmt \<Rightarrow> TStmt) \<Rightarrow> TStmt \<Rightarrow> TStmt"
  and foldCatch :: "(TStmt \<Rightarrow> TStmt) \<Rightarrow> CatchClause \<Rightarrow> CatchClause"
  and foldCase :: "(TStmt \<Rightarrow> TStmt) \<Rightarrow> SwitchCase \<Rightarrow> SwitchCase" where
  "foldStmt rc (TS_If m c t e) = TS_If m c (foldTemps rc (map (foldStmt rc) t)) (foldTemps rc (map (foldStmt rc) e))"
| "foldStmt rc (TS_For m i c n b) = TS_For m i c n (foldTemps rc (map (foldStmt rc) b))"
| "foldStmt rc (TS_While m c b) = TS_While m c (foldTemps rc (map (foldStmt rc) b))"
| "foldStmt rc (TS_Switch m s cs) = TS_Switch m s (map (foldCase rc) cs)"
| "foldStmt rc (TS_Try m b cs f) =
     TS_Try m (foldTemps rc (map (foldStmt rc) b)) (map (foldCatch rc) cs) (foldTemps rc (map (foldStmt rc) f))"
| "foldStmt rc s = s"
| "foldCatch rc (CatchClause t v b) = CatchClause t v (foldTemps rc (map (foldStmt rc) b))"
| "foldCase rc (SwitchCase v b) = SwitchCase v (foldTemps rc (map (foldStmt rc) b))"

definition foldBlock :: "(TStmt \<Rightarrow> TStmt) \<Rightarrow> TStmt list \<Rightarrow> TStmt list" where
  "foldBlock recode stmts = foldTemps recode (map (foldStmt recode) stmts)"

definition runTempFolding :: "(TStmt \<Rightarrow> TStmt) \<Rightarrow> TranspileFunction \<Rightarrow> TranspileFunction" where
  "runTempFolding recode fn =
     (if hasClosureBinding fn then fn else fn\<lparr>tn_body := foldBlock recode (tn_body fn)\<rparr>)"

section \<open>Names for generated variables\<close>

record NameState =
  ns_renames :: "string umap"
  ns_usedNames :: "string list"
  ns_counterIdx :: nat
  ns_accumIdx :: nat

definition isGeneratedName :: "string \<Rightarrow> bool" where
  "isGeneratedName name \<longleftrightarrow>
     is_prefix ''_tmp'' name \<or>
     is_prefix ''field'' name \<and> length name > 5 \<and> list_all isdigit (drop 5 name)"

definition nextCounter :: "NameState \<Rightarrow> string \<times> NameState" where
  "nextCounter st =
     (let i = ns_counterIdx st; counters = [''i'', ''j'', ''k'', ''ii'', ''jj'', ''kk''] in
      (if i < 6 then counters ! i else ''idx'' @ nat_to_string i, st\<lparr>ns_counterIdx := i + 1\<rparr>))"

definition nextAccumulator :: "NameState \<Rightarrow> string \<times> NameState" where
  "nextAccumulator st =
     (let i = ns_accumIdx st; accums = [''sum'', ''total'', ''acc''] in
      (if i < 3 then accums ! i else ''sum'' @ nat_to_string i, st\<lparr>ns_accumIdx := i + 1\<rparr>))"

text \<open>
  The first unused of the preferred name and its numbered variants; among as many variants as there
  are used names and one more, one is unused (\<open>freeName_found\<close>).
\<close>

definition freeName :: "string list \<Rightarrow> string \<Rightarrow> string" where
  "freeName used preferred =
     (if preferred \<notin> set used then preferred
      else
        (case find (\<lambda>k. preferred @ nat_to_string k \<notin> set used) [2..<length used + 3] of
           Some k \<Rightarrow> preferred @ nat_to_string k
         | None \<Rightarrow> preferred))"

definition allocateName :: "string \<Rightarrow> NameState \<Rightarrow> string \<times> NameState" where
  "allocateName preferred st =
     (let name = freeName (ns_usedNames st) preferred in
      (name, st\<lparr>ns_usedNames := ns_usedNames st @ [name]\<rparr>))"

definition renameTo :: "string \<Rightarrow> string \<Rightarrow> NameState \<Rightarrow> NameState" where
  "renameTo name preferred st =
     (case allocateName preferred st of (new, st1) \<Rightarrow>
      st1\<lparr>ns_renames := AList.update name new (ns_renames st1)\<rparr>)"

definition renamed :: "string \<Rightarrow> NameState \<Rightarrow> bool" where
  "renamed name st \<longleftrightarrow> map_of (ns_renames st) name \<noteq> None"

definition renameCounter :: "TStmt option \<Rightarrow> NameState \<Rightarrow> NameState" where
  "renameCounter init st =
     (case init of
        Some (TS_VarDecl m t n i) \<Rightarrow>
          if isGeneratedName n then (case nextCounter st of (c, st1) \<Rightarrow> renameTo n c st1) else st
      | _ \<Rightarrow> st)"

fun detectLoopCounter :: "TStmt \<Rightarrow> NameState \<Rightarrow> NameState"
  and detectLoopCatch :: "CatchClause \<Rightarrow> NameState \<Rightarrow> NameState"
  and detectLoopCase :: "SwitchCase \<Rightarrow> NameState \<Rightarrow> NameState" where
  "detectLoopCounter (TS_For m i c n b) st = fold detectLoopCounter b (renameCounter i st)"
| "detectLoopCounter (TS_While m c b) st = fold detectLoopCounter b st"
| "detectLoopCounter (TS_If m c t e) st = fold detectLoopCounter e (fold detectLoopCounter t st)"
| "detectLoopCounter (TS_Switch m s cs) st = fold detectLoopCase cs st"
| "detectLoopCounter (TS_Try m b cs f) st =
     fold detectLoopCounter f (fold detectLoopCatch cs (fold detectLoopCounter b st))"
| "detectLoopCounter s st = st"
| "detectLoopCatch (CatchClause t v b) st = fold detectLoopCounter b st"
| "detectLoopCase (SwitchCase v b) st = fold detectLoopCounter b st"

definition detectLoopCounters :: "TStmt list \<Rightarrow> NameState \<Rightarrow> NameState" where
  "detectLoopCounters stmts st = fold detectLoopCounter stmts st"

definition isVar :: "string \<Rightarrow> TExpr \<Rightarrow> bool" where
  "isVar name e = (case e of TE_Var m n \<Rightarrow> n = name | _ \<Rightarrow> False)"

definition addsTo :: "string \<Rightarrow> TStmt \<Rightarrow> bool" where
  "addsTo name s =
     (case s of
        TS_Assign m target (TE_Binary bm op l r) \<Rightarrow> isVar name target \<and> op = TB_Add \<and> (isVar name l \<or> isVar name r)
      | _ \<Rightarrow> False)"

definition loopBodyOf :: "TStmt \<Rightarrow> TStmt list option" where
  "loopBodyOf s = (case s of TS_For m i c n b \<Rightarrow> Some b | TS_While m c b \<Rightarrow> Some b | _ \<Rightarrow> None)"

definition startsAtZero :: "TExpr option \<Rightarrow> bool" where
  "startsAtZero init = (case init of Some (TE_Literal m k v) \<Rightarrow> v = ''0'' \<or> v = ''0.0'' | _ \<Rightarrow> False)"

text \<open>
  The statements after a declaration up to its first loop.  The code descends into nested blocks only
  behind a test that the statement is a declaration, so never.
\<close>

fun detectAccumulators :: "TStmt list \<Rightarrow> NameState \<Rightarrow> NameState" where
  "detectAccumulators [] st = st"
| "detectAccumulators (s # rest) st =
     detectAccumulators rest
       (case s of
          TS_VarDecl m t n i \<Rightarrow>
            if isGeneratedName n \<and> \<not> renamed n st \<and> startsAtZero i then
              (case List.map_filter loopBodyOf rest of
                 [] \<Rightarrow> st
               | body # _ \<Rightarrow>
                   if list_ex (addsTo n) body
                   then (case nextAccumulator st of (a, st1) \<Rightarrow> renameTo n a st1) else st)
            else st
        | _ \<Rightarrow> st)"

definition comparison :: "TBinaryOp \<Rightarrow> bool" where
  "comparison op \<longleftrightarrow> op \<in> {TB_Eq, TB_NotEq, TB_Less, TB_Greater, TB_LessEq, TB_GreaterEq}"

definition looksBoolean :: "TExpr option \<Rightarrow> bool" where
  "looksBoolean init =
     (case init of
        Some (TE_Literal m k v) \<Rightarrow> k = TL_Boolean
      | Some (TE_Binary m op l r) \<Rightarrow> comparison op
      | _ \<Rightarrow> False)"

fun detectBoolean :: "TStmt \<Rightarrow> NameState \<Rightarrow> NameState"
  and detectBooleanCatch :: "CatchClause \<Rightarrow> NameState \<Rightarrow> NameState"
  and detectBooleanCase :: "SwitchCase \<Rightarrow> NameState \<Rightarrow> NameState" where
  "detectBoolean (TS_VarDecl m t n i) st =
     (if isGeneratedName n \<and> \<not> renamed n st \<and> looksBoolean i then renameTo n ''isReady'' st else st)"
| "detectBoolean (TS_If m c t e) st = fold detectBoolean e (fold detectBoolean t st)"
| "detectBoolean (TS_For m i c n b) st = fold detectBoolean b st"
| "detectBoolean (TS_While m c b) st = fold detectBoolean b st"
| "detectBoolean (TS_Switch m s cs) st = fold detectBooleanCase cs st"
| "detectBoolean (TS_Try m b cs f) st =
     fold detectBoolean f (fold detectBooleanCatch cs (fold detectBoolean b st))"
| "detectBoolean s st = st"
| "detectBooleanCatch (CatchClause t v b) st = fold detectBoolean b st"
| "detectBooleanCase (SwitchCase v b) st = fold detectBoolean b st"

definition detectBooleans :: "TStmt list \<Rightarrow> NameState \<Rightarrow> NameState" where
  "detectBooleans stmts st = fold detectBoolean stmts st"

fun exprUsedAsIndex :: "TExpr \<Rightarrow> string \<Rightarrow> bool" where
  "exprUsedAsIndex (TE_Index m e i) name = (isVar name i \<or> exprUsedAsIndex e name \<or> exprUsedAsIndex i name)"
| "exprUsedAsIndex (TE_Binary m op l r) name = (exprUsedAsIndex l name \<or> exprUsedAsIndex r name)"
| "exprUsedAsIndex (TE_Unary m op e) name = exprUsedAsIndex e name"
| "exprUsedAsIndex (TE_Call m c recv args) name =
     ((case recv of Some e \<Rightarrow> exprUsedAsIndex e name | None \<Rightarrow> False) \<or> list_ex (\<lambda>a. exprUsedAsIndex a name) args)"
| "exprUsedAsIndex (TE_Member m e n) name = exprUsedAsIndex e name"
| "exprUsedAsIndex (TE_Ternary m c t e) name =
     (exprUsedAsIndex c name \<or> exprUsedAsIndex t name \<or> exprUsedAsIndex e name)"
| "exprUsedAsIndex (TE_Compound m op t v) name = (exprUsedAsIndex t name \<or> exprUsedAsIndex v name)"
| "exprUsedAsIndex _ name = False"

definition optIndex :: "TExpr option \<Rightarrow> string \<Rightarrow> bool" where
  "optIndex e name = (case e of Some x \<Rightarrow> exprUsedAsIndex x name | None \<Rightarrow> False)"

fun stmtUsesIndex :: "TStmt \<Rightarrow> string \<Rightarrow> bool"
  and catchUsesIndex :: "CatchClause \<Rightarrow> string \<Rightarrow> bool"
  and caseUsesIndex :: "SwitchCase \<Rightarrow> string \<Rightarrow> bool" where
  "stmtUsesIndex (TS_VarDecl m t n i) name = optIndex i name"
| "stmtUsesIndex (TS_Assign m t v) name = (exprUsedAsIndex t name \<or> exprUsedAsIndex v name)"
| "stmtUsesIndex (TS_Return m v) name = optIndex v name"
| "stmtUsesIndex (TS_Expr m e) name = exprUsedAsIndex e name"
| "stmtUsesIndex (TS_If m c t e) name =
     (exprUsedAsIndex c name \<or> list_ex (\<lambda>s. stmtUsesIndex s name) t \<or> list_ex (\<lambda>s. stmtUsesIndex s name) e)"
| "stmtUsesIndex (TS_For m i c n b) name =
     (optIndex c name \<or> optIndex n name \<or> list_ex (\<lambda>s. stmtUsesIndex s name) b)"
| "stmtUsesIndex (TS_While m c b) name = (exprUsedAsIndex c name \<or> list_ex (\<lambda>s. stmtUsesIndex s name) b)"
| "stmtUsesIndex (TS_Switch m s cs) name = (exprUsedAsIndex s name \<or> list_ex (\<lambda>c. caseUsesIndex c name) cs)"
| "stmtUsesIndex (TS_Try m b cs f) name =
     (list_ex (\<lambda>s. stmtUsesIndex s name) b \<or> list_ex (\<lambda>c. catchUsesIndex c name) cs \<or>
      list_ex (\<lambda>s. stmtUsesIndex s name) f)"
| "stmtUsesIndex (TS_Break m) name = False"
| "stmtUsesIndex (TS_Continue m) name = False"
| "catchUsesIndex (CatchClause t v b) name = list_ex (\<lambda>s. stmtUsesIndex s name) b"
| "caseUsesIndex (SwitchCase v b) name = (optIndex v name \<or> list_ex (\<lambda>s. stmtUsesIndex s name) b)"

definition exprUsedAsIndexInStmts :: "TStmt list \<Rightarrow> string \<Rightarrow> bool" where
  "exprUsedAsIndexInStmts stmts name = list_ex (\<lambda>s. stmtUsesIndex s name) stmts"

text \<open>A statement of a block, with the block it is in.\<close>

fun detectIndex :: "TStmt list \<Rightarrow> TStmt \<Rightarrow> NameState \<Rightarrow> NameState"
  and detectIndexCatch :: "CatchClause \<Rightarrow> NameState \<Rightarrow> NameState"
  and detectIndexCase :: "SwitchCase \<Rightarrow> NameState \<Rightarrow> NameState" where
  "detectIndex block (TS_VarDecl m t n i) st =
     (if isGeneratedName n \<and> \<not> renamed n st \<and> exprUsedAsIndexInStmts block n then renameTo n ''idx'' st else st)"
| "detectIndex block (TS_If m c t e) st = fold (detectIndex e) e (fold (detectIndex t) t st)"
| "detectIndex block (TS_For m i c n b) st = fold (detectIndex b) b st"
| "detectIndex block (TS_While m c b) st = fold (detectIndex b) b st"
| "detectIndex block (TS_Switch m s cs) st = fold detectIndexCase cs st"
| "detectIndex block (TS_Try m b cs f) st =
     fold (detectIndex f) f (fold detectIndexCatch cs (fold (detectIndex b) b st))"
| "detectIndex block s st = st"
| "detectIndexCatch (CatchClause t v b) st = fold (detectIndex b) b st"
| "detectIndexCase (SwitchCase v b) st = fold (detectIndex b) b st"

definition detectIndices :: "TStmt list \<Rightarrow> NameState \<Rightarrow> NameState" where
  "detectIndices stmts st = fold (detectIndex stmts) stmts st"

section \<open>Applying the names\<close>

definition newName :: "string umap \<Rightarrow> string \<Rightarrow> string" where
  "newName renames n = (case map_of renames n of Some new \<Rightarrow> new | None \<Rightarrow> n)"

fun renameInExpr :: "string umap \<Rightarrow> TExpr \<Rightarrow> TExpr" where
  "renameInExpr rs (TE_Var m n) = TE_Var m (newName rs n)"
| "renameInExpr rs (TE_Binary m op l r) = TE_Binary m op (renameInExpr rs l) (renameInExpr rs r)"
| "renameInExpr rs (TE_Unary m op e) = TE_Unary m op (renameInExpr rs e)"
| "renameInExpr rs (TE_Call m c recv args) =
     TE_Call m c (map_option (renameInExpr rs) recv) (map (renameInExpr rs) args)"
| "renameInExpr rs (TE_Member m e n) = TE_Member m (renameInExpr rs e) n"
| "renameInExpr rs (TE_Index m e i) = TE_Index m (renameInExpr rs e) (renameInExpr rs i)"
| "renameInExpr rs (TE_Construct m t args) = TE_Construct m t (map (renameInExpr rs) args)"
| "renameInExpr rs (TE_Ternary m c t e) =
     TE_Ternary m (renameInExpr rs c) (renameInExpr rs t) (renameInExpr rs e)"
| "renameInExpr rs (TE_Compound m op t v) = TE_Compound m op (renameInExpr rs t) (renameInExpr rs v)"
| "renameInExpr rs e = e"

fun renameInStmt :: "string umap \<Rightarrow> TStmt \<Rightarrow> TStmt"
  and renameInCatch :: "string umap \<Rightarrow> CatchClause \<Rightarrow> CatchClause"
  and renameInCase :: "string umap \<Rightarrow> SwitchCase \<Rightarrow> SwitchCase" where
  "renameInStmt rs (TS_VarDecl m t n i) = TS_VarDecl m t (newName rs n) (map_option (renameInExpr rs) i)"
| "renameInStmt rs (TS_Assign m t v) = TS_Assign m (renameInExpr rs t) (renameInExpr rs v)"
| "renameInStmt rs (TS_Return m v) = TS_Return m (map_option (renameInExpr rs) v)"
| "renameInStmt rs (TS_Expr m e) = TS_Expr m (renameInExpr rs e)"
| "renameInStmt rs (TS_If m c t e) =
     TS_If m (renameInExpr rs c) (map (renameInStmt rs) t) (map (renameInStmt rs) e)"
| "renameInStmt rs (TS_For m i c n b) =
     TS_For m (map_option (renameInStmt rs) i) (map_option (renameInExpr rs) c) (map_option (renameInExpr rs) n)
       (map (renameInStmt rs) b)"
| "renameInStmt rs (TS_While m c b) = TS_While m (renameInExpr rs c) (map (renameInStmt rs) b)"
| "renameInStmt rs (TS_Switch m s cs) = TS_Switch m (renameInExpr rs s) (map (renameInCase rs) cs)"
| "renameInStmt rs (TS_Try m b cs f) =
     TS_Try m (map (renameInStmt rs) b) (map (renameInCatch rs) cs) (map (renameInStmt rs) f)"
| "renameInStmt rs (TS_Break m) = TS_Break m"
| "renameInStmt rs (TS_Continue m) = TS_Continue m"
| "renameInCatch rs (CatchClause t v b) = CatchClause t v (map (renameInStmt rs) b)"
| "renameInCase rs (SwitchCase v b) = SwitchCase (map_option (renameInExpr rs) v) (map (renameInStmt rs) b)"

definition renameInStmts :: "string umap \<Rightarrow> TStmt list \<Rightarrow> TStmt list" where
  "renameInStmts rs stmts = map (renameInStmt rs) stmts"

definition detectNames :: "TranspileFunction \<Rightarrow> NameState" where
  "detectNames fn =
     (let body = tn_body fn;
          start = \<lparr>ns_renames = [], ns_usedNames = map pm_name (tn_params fn), ns_counterIdx = 0, ns_accumIdx = 0\<rparr>
      in detectIndices body (detectBooleans body (detectAccumulators body (detectLoopCounters body start))))"

definition runNameHeuristics :: "TranspileFunction \<Rightarrow> TranspileFunction" where
  "runNameHeuristics fn =
     (if hasClosureBinding fn then fn
      else
        let renames = ns_renames (detectNames fn)
        in if renames = [] then fn else fn\<lparr>tn_body := renameInStmts renames (tn_body fn)\<rparr>)"

section \<open>Dead code\<close>

lemma last_smaller: "xs \<noteq> [] \<Longrightarrow> size (List.last xs) \<le> size_list size xs"
  by (simp add: size_list_estimation' [OF last_in_set])

function isTerminator :: "TStmt \<Rightarrow> bool" where
  "isTerminator s =
     (case s of
        TS_Return m v \<Rightarrow> True
      | TS_Break m \<Rightarrow> True
      | TS_Continue m \<Rightarrow> True
      | TS_If m c thenBody elseBody \<Rightarrow>
          if thenBody = [] \<or> elseBody = [] then False
          else isTerminator (List.last thenBody) \<and> isTerminator (List.last elseBody)
      | _ \<Rightarrow> False)"
  by pat_completeness auto
termination
proof (relation "measure size", goal_cases)
  case (2 s m c thenBody elseBody)
  thus ?case using last_smaller [of thenBody] by simp
next
  case (3 s m c thenBody elseBody)
  thus ?case using last_smaller [of elseBody] by simp
qed simp

declare isTerminator.simps [simp del]

fun cutAfter :: "TStmt list \<Rightarrow> TStmt list" where
  "cutAfter [] = []"
| "cutAfter (s # ss) = (if isTerminator s then [s] else s # cutAfter ss)"

fun elimStmt :: "TStmt \<Rightarrow> TStmt"
  and elimCatch :: "CatchClause \<Rightarrow> CatchClause"
  and elimCase :: "SwitchCase \<Rightarrow> SwitchCase" where
  "elimStmt (TS_If m c t e) = TS_If m c (cutAfter (map elimStmt t)) (cutAfter (map elimStmt e))"
| "elimStmt (TS_For m i c n b) = TS_For m i c n (cutAfter (map elimStmt b))"
| "elimStmt (TS_While m c b) = TS_While m c (cutAfter (map elimStmt b))"
| "elimStmt (TS_Switch m s cs) = TS_Switch m s (map elimCase cs)"
| "elimStmt (TS_Try m b cs f) = TS_Try m (cutAfter (map elimStmt b)) (map elimCatch cs) (cutAfter (map elimStmt f))"
| "elimStmt s = s"
| "elimCatch (CatchClause t v b) = CatchClause t v (cutAfter (map elimStmt b))"
| "elimCase (SwitchCase v b) = SwitchCase v (cutAfter (map elimStmt b))"

definition elimBlock :: "TStmt list \<Rightarrow> TStmt list" where
  "elimBlock stmts = cutAfter (map elimStmt stmts)"

definition runDeadCodeElim :: "TranspileFunction \<Rightarrow> TranspileFunction" where
  "runDeadCodeElim fn = fn\<lparr>tn_body := elimBlock (tn_body fn)\<rparr>"

section \<open>The pipeline\<close>

type_synonym pass = "TranspileFunction \<Rightarrow> TranspileFunction"

definition optimizeFunction :: "pass list \<Rightarrow> TranspileFunction \<Rightarrow> TranspileFunction" where
  "optimizeFunction passes fn = (if tn_isExternal fn then fn else fold (\<lambda>pass f. pass f) passes fn)"

definition optimize :: "pass list \<Rightarrow> TranspileModule \<Rightarrow> TranspileModule" where
  "optimize passes m = m\<lparr>mo_functions := map (optimizeFunction passes) (mo_functions m)\<rparr>"

definition createIdiomaticPipeline :: "(TStmt \<Rightarrow> TStmt) \<Rightarrow> pass list" where
  "createIdiomaticPipeline recode = [runTempFolding recode, runNameHeuristics, runDeadCodeElim]"

end
