(* ===== verification/Optimizer_Laws.thy ===== *)
theory Optimizer_Laws
  imports Optimizer
begin

text \<open>
  What the passes keep.  Dead code removal keeps the meaning of a block under every semantics of
  expressions, scopes and dispatch; folding keeps every use of a variable that is not a temporary;
  the generated names are apart from each other and from the parameters.
\<close>

section \<open>A semantics of statements\<close>

text \<open>
  How a block ends, and what a target language says about expressions: evaluation, which may raise,
  declaring, assigning, truth, the handler of an exception, the bodies a switch runs, leaving a
  scope.
\<close>

datatype 'v ending = Done | Returned "'v option" | Broke | Continued | Raised 'v | OutOfFuel

record ('s, 'v) semantics =
  sem_eval :: "TExpr \<Rightarrow> 's \<Rightarrow> ('v + 'v) \<times> 's"
  sem_declare :: "TypeNode \<Rightarrow> string \<Rightarrow> 'v option \<Rightarrow> 's \<Rightarrow> 's"
  sem_assign :: "TExpr \<Rightarrow> 'v \<Rightarrow> 's \<Rightarrow> ('v + unit) \<times> 's"
  sem_truth :: "'v \<Rightarrow> bool"
  sem_handles :: "TypeNode \<Rightarrow> 'v \<Rightarrow> bool"
  sem_select :: "'v \<Rightarrow> TExpr option list \<Rightarrow> 's \<Rightarrow> nat list \<times> 's"
  sem_leave :: "'s \<Rightarrow> 's \<Rightarrow> 's"

type_synonym ('s, 'v) run = "'s \<Rightarrow> 'v ending \<times> 's"

definition seq :: "('s, 'v) run \<Rightarrow> ('s, 'v) run \<Rightarrow> ('s, 'v) run" where
  "seq f g st = (case f st of (Done, st1) \<Rightarrow> g st1 | r \<Rightarrow> r)"

fun runAll :: "(TStmt \<Rightarrow> ('s, 'v) run) \<Rightarrow> TStmt list \<Rightarrow> ('s, 'v) run" where
  "runAll x [] st = (Done, st)"
| "runAll x (s # ss) st = seq (x s) (runAll x ss) st"

definition withValue :: "('s, 'v) semantics \<Rightarrow> TExpr \<Rightarrow> ('v \<Rightarrow> ('s, 'v) run) \<Rightarrow> ('s, 'v) run" where
  "withValue sem e f st = (case sem_eval sem e st of (Inl ex, st1) \<Rightarrow> (Raised ex, st1) | (Inr v, st1) \<Rightarrow> f v st1)"

definition scoped :: "('s, 'v) semantics \<Rightarrow> ('s, 'v) run \<Rightarrow> ('s, 'v) run" where
  "scoped sem f st = (case f st of (r, st1) \<Rightarrow> (r, sem_leave sem st st1))"

text \<open>One round of a loop, then \<open>again\<close>.\<close>

definition loopRound :: "('s, 'v) run \<Rightarrow> ('s, 'v) run \<Rightarrow> ('s, 'v) run" where
  "loopRound body again st =
     (case body st of
        (Done, st1) \<Rightarrow> again st1
      | (Continued, st1) \<Rightarrow> again st1
      | (Broke, st1) \<Rightarrow> (Done, st1)
      | r \<Rightarrow> r)"

definition optionally :: "('a \<Rightarrow> ('s, 'v) run) \<Rightarrow> 'a option \<Rightarrow> ('s, 'v) run" where
  "optionally f x = (case x of None \<Rightarrow> (\<lambda>st. (Done, st)) | Some y \<Rightarrow> f y)"

definition evaluating :: "('s, 'v) semantics \<Rightarrow> TExpr \<Rightarrow> ('s, 'v) run" where
  "evaluating sem e = withValue sem e (\<lambda>_ st. (Done, st))"

definition guarded :: "('s, 'v) semantics \<Rightarrow> TExpr option \<Rightarrow> ('s, 'v) run \<Rightarrow> ('s, 'v) run" where
  "guarded sem c f =
     (case c of None \<Rightarrow> f | Some e \<Rightarrow> withValue sem e (\<lambda>v st. if sem_truth sem v then f st else (Done, st)))"

fun caseBody :: "SwitchCase \<Rightarrow> TStmt list" where "caseBody (SwitchCase v b) = b"
fun caseValue :: "SwitchCase \<Rightarrow> TExpr option" where "caseValue (SwitchCase v b) = v"
fun catchBody :: "CatchClause \<Rightarrow> TStmt list" where "catchBody (CatchClause t v b) = b"
fun catchType :: "CatchClause \<Rightarrow> TypeNode" where "catchType (CatchClause t v b) = t"
fun catchVar :: "CatchClause \<Rightarrow> string" where "catchVar (CatchClause t v b) = v"

fun runBodies :: "(TStmt \<Rightarrow> ('s, 'v) run) \<Rightarrow> SwitchCase list \<Rightarrow> nat list \<Rightarrow> ('s, 'v) run" where
  "runBodies x cs [] st = (Done, st)"
| "runBodies x cs (i # is) st =
     seq (if i < length cs then runAll x (caseBody (cs ! i)) else (\<lambda>st. (Done, st))) (runBodies x cs is) st"

definition handled :: "('s, 'v) semantics \<Rightarrow> (TStmt \<Rightarrow> ('s, 'v) run) \<Rightarrow> CatchClause list \<Rightarrow> ('s, 'v) run \<Rightarrow> ('s, 'v) run" where
  "handled sem x clauses body st =
     (case body st of
        (Raised ex, st1) \<Rightarrow>
          (case find (\<lambda>c. sem_handles sem (catchType c) ex) clauses of
             None \<Rightarrow> (Raised ex, st1)
           | Some c \<Rightarrow>
               scoped sem (\<lambda>st. runAll x (catchBody c) (sem_declare sem (catchType c) (catchVar c) (Some ex) st)) st1)
      | r \<Rightarrow> r)"

definition finallyDo :: "('s, 'v) run \<Rightarrow> ('s, 'v) run \<Rightarrow> ('s, 'v) run" where
  "finallyDo body cleanup st =
     (case body st of (r, st1) \<Rightarrow> (case cleanup st1 of (Done, st2) \<Rightarrow> (r, st2) | other \<Rightarrow> other))"

definition stepStmt :: "('s, 'v) semantics \<Rightarrow> (TStmt \<Rightarrow> ('s, 'v) run) \<Rightarrow> TStmt \<Rightarrow> ('s, 'v) run" where
  "stepStmt sem x s =
     (case s of
        TS_VarDecl m t n i \<Rightarrow>
          (case i of
             None \<Rightarrow> (\<lambda>st. (Done, sem_declare sem t n None st))
           | Some e \<Rightarrow> withValue sem e (\<lambda>v st. (Done, sem_declare sem t n (Some v) st)))
      | TS_Assign m target e \<Rightarrow>
          withValue sem e (\<lambda>v st. case sem_assign sem target v st of
            (Inl ex, st1) \<Rightarrow> (Raised ex, st1) | (Inr _, st1) \<Rightarrow> (Done, st1))
      | TS_Return m i \<Rightarrow>
          (case i of
             None \<Rightarrow> (\<lambda>st. (Returned None, st))
           | Some e \<Rightarrow> withValue sem e (\<lambda>v st. (Returned (Some v), st)))
      | TS_If m c t e \<Rightarrow>
          withValue sem c (\<lambda>v. scoped sem (runAll x (if sem_truth sem v then t else e)))
      | TS_For m (Some i) c n b \<Rightarrow> scoped sem (seq (x i) (x (TS_For m None c n b)))
      | TS_For m None c n b \<Rightarrow>
          guarded sem c (loopRound (scoped sem (runAll x b))
            (seq (optionally (evaluating sem) n) (x (TS_For m None c n b))))
      | TS_While m c b \<Rightarrow> guarded sem (Some c) (loopRound (scoped sem (runAll x b)) (x (TS_While m c b)))
      | TS_Expr m e \<Rightarrow> evaluating sem e
      | TS_Try m b clauses f \<Rightarrow>
          finallyDo (handled sem x clauses (scoped sem (runAll x b))) (scoped sem (runAll x f))
      | TS_Break m \<Rightarrow> (\<lambda>st. (Broke, st))
      | TS_Continue m \<Rightarrow> (\<lambda>st. (Continued, st))
      | TS_Switch m e cs \<Rightarrow>
          withValue sem e (\<lambda>v st.
            case sem_select sem v (map caseValue cs) st of
              (chosen, st1) \<Rightarrow> loopRound (scoped sem (runBodies x cs chosen)) (\<lambda>st. (Done, st)) st1))"

fun exec :: "('s, 'v) semantics \<Rightarrow> nat \<Rightarrow> TStmt \<Rightarrow> ('s, 'v) run" where
  "exec sem 0 s st = (OutOfFuel, st)"
| "exec sem (Suc n) s st = stepStmt sem (exec sem n) s st"

section \<open>Dead code\<close>

lemma runAll_stuck:
  assumes "ss \<noteq> []" and "\<And>st. fst (x (List.last ss) st) \<noteq> Done"
  shows "fst (runAll x ss st) \<noteq> Done"
  using assms
proof (induction ss arbitrary: st)
  case (Cons s ss)
  show ?case
  proof (cases "ss = []")
    case True
    thus ?thesis using Cons.prems(2) [of st] by (auto simp: seq_def split: prod.splits ending.splits)
  next
    case False
    thus ?thesis using Cons by (auto simp: seq_def split: prod.splits ending.splits)
  qed
qed simp

lemma scoped_stuck: "(\<And>st. fst (f st) \<noteq> Done) \<Longrightarrow> fst (scoped sem f st) \<noteq> Done"
  by (auto simp: scoped_def split: prod.splits) (metis fst_conv)

lemma withValue_stuck: "(\<And>v st. fst (f v st) \<noteq> Done) \<Longrightarrow> fst (withValue sem e f st) \<noteq> Done"
  by (auto simp: withValue_def split: prod.splits sum.splits)

text \<open>What the code calls a terminator never lets the next statement run.\<close>

lemma terminator_stuck: "isTerminator s \<Longrightarrow> fst (exec sem n s st) \<noteq> Done"
proof (induction n arbitrary: s st)
  case (Suc n)
  show ?case
  proof (cases s)
    case (TS_If m c t e)
    hence branches: "t \<noteq> []" "isTerminator (List.last t)" "e \<noteq> []" "isTerminator (List.last e)"
      using Suc.prems isTerminator.simps [of s] by (auto split: if_splits)
    have "fst (runAll (exec sem n) (if b then t else e) st) \<noteq> Done" for b st
      by (cases b) (simp_all add: runAll_stuck Suc.IH branches)
    thus ?thesis by (simp add: TS_If stepStmt_def withValue_stuck scoped_stuck)
  next
    case (TS_Return m v)
    thus ?thesis by (cases v) (simp_all add: stepStmt_def withValue_stuck)
  qed (use Suc.prems isTerminator.simps [of s] in \<open>simp_all add: stepStmt_def\<close>)
qed simp

lemma runAll_cutAfter:
  "(\<And>s st. isTerminator s \<Longrightarrow> fst (x s st) \<noteq> Done) \<Longrightarrow> runAll x (cutAfter ss) = runAll x ss"
proof (induction ss)
  case (Cons s ss)
  show ?case
  proof (cases "isTerminator s")
    case True
    have "runAll x [s] st = runAll x (s # ss) st" for st
      using Cons.prems [OF True, of st] by (auto simp: seq_def split: prod.splits ending.splits)
    thus ?thesis using True by auto
  next
    case False
    have "runAll x (cutAfter ss) = runAll x ss" using Cons by blast
    thus ?thesis using False by (intro ext) simp
  qed
qed simp

lemma runAll_map: "(\<And>s. x (f s) = x s) \<Longrightarrow> runAll x (map f ss) = runAll x ss"
  by (induction ss) (simp_all add: ext)

lemma find_map_same: "(\<And>c. p (f c) = p c) \<Longrightarrow> find p (map f cs) = map_option f (find p cs)"
  by (induction cs) auto

lemma elimCatch_parts [simp]:
  "catchType (elimCatch c) = catchType c" "catchVar (elimCatch c) = catchVar c"
  "catchBody (elimCatch c) = cutAfter (map elimStmt (catchBody c))"
  by (cases c; simp)+

lemma elimCase_parts [simp]:
  "caseValue (elimCase c) = caseValue c" "caseBody (elimCase c) = cutAfter (map elimStmt (caseBody c))"
  by (cases c; simp)+

lemma runBodies_elim:
  assumes "\<And>b. runAll x (cutAfter (map elimStmt b)) = runAll x b"
  shows "runBodies x (map elimCase cs) is = runBodies x cs is"
  by (induction "is") (simp_all add: assms ext)

lemma handled_elim:
  assumes "\<And>b. runAll x (cutAfter (map elimStmt b)) = runAll x b"
  shows "handled sem x (map elimCatch cs) body = handled sem x cs body"
  by (auto simp: handled_def fun_eq_iff find_map_same assms split: prod.splits ending.splits option.splits)

lemma exec_elimStmt: "exec sem n (elimStmt s) = exec sem n s"
proof (induction n arbitrary: s)
  case 0
  show ?case by auto
next
  case (Suc n)
  have block: "runAll (exec sem n) (cutAfter (map elimStmt b)) = runAll (exec sem n) b" for b
    using runAll_cutAfter [of "exec sem n"] runAll_map [of "exec sem n" elimStmt b] Suc.IH terminator_stuck
    by metis
  have "stepStmt sem (exec sem n) (elimStmt s) = stepStmt sem (exec sem n) s"
  proof (cases s)
    case (TS_If m c t e)
    have "runAll (exec sem n) (if p then cutAfter (map elimStmt t) else cutAfter (map elimStmt e)) =
        runAll (exec sem n) (if p then t else e)" for p
      by (simp add: block)
    thus ?thesis by (simp add: TS_If stepStmt_def)
  next
    case (TS_For m i c nx b)
    have again: "exec sem n (TS_For m None c nx (cutAfter (map elimStmt b))) = exec sem n (TS_For m None c nx b)"
      using Suc.IH [of "TS_For m None c nx b"] by simp
    show ?thesis by (cases i) (simp_all add: TS_For stepStmt_def again block)
  next
    case (TS_While m c b)
    have "exec sem n (TS_While m c (cutAfter (map elimStmt b))) = exec sem n (TS_While m c b)"
      using Suc.IH [of "TS_While m c b"] by simp
    thus ?thesis by (simp add: TS_While stepStmt_def block)
  next
    case (TS_Switch m e cs)
    have "map caseValue (map elimCase cs) = map caseValue cs" by simp
    thus ?thesis by (simp add: TS_Switch stepStmt_def runBodies_elim [OF block] o_def)
  next
    case (TS_Try m b cs f)
    thus ?thesis by (simp add: stepStmt_def block handled_elim [OF block])
  qed (simp_all add: stepStmt_def)
  thus ?case by (auto simp: fun_eq_iff)
qed

lemma cutAfter_none_after: "list_all (\<lambda>s. \<not> isTerminator s) (butlast (cutAfter ss))"
  by (induction ss) auto

text \<open>C23: Dead code removal is invisible: under every semantics of expressions, scopes, handlers and
  dispatch, with whatever bound on the steps, the block that is left runs to the same state and ends
  the same way; and in it no statement follows one that the code calls a terminator.\<close>

theorem dead_code_elim:
  "runAll (exec sem n) (elimBlock b) st = runAll (exec sem n) b st \<and>
   list_all (\<lambda>s. \<not> isTerminator s) (butlast (elimBlock b))"
proof
  show "runAll (exec sem n) (elimBlock b) st = runAll (exec sem n) b st"
    unfolding elimBlock_def
    using runAll_cutAfter [of "exec sem n"] runAll_map [of "exec sem n" elimStmt b] exec_elimStmt terminator_stuck
    by metis
qed (simp add: elimBlock_def cutAfter_none_after)

section \<open>Folding\<close>

lemma countRefs_clone [simp]: "countRefs (cloneExpr rc e) y = countRefs e y"
  by (induction rc e rule: cloneExpr.induct)
    (auto simp: o_def split: option.splits intro!: arg_cong [where f = sum_list] map_cong)

text \<open>A replacement that puts \<open>c\<close> references to \<open>y\<close> for each reference to \<open>x\<close>.\<close>

lemma sum_list_replace:
  assumes "\<And>s. s \<in> set b \<Longrightarrow> f (r s) y = f s y + f s x * (c::nat)"
  shows "sum_list (map ((\<lambda>s. f s y) \<circ> r) b) = sum_list (map (\<lambda>s. f s y) b) + sum_list (map (\<lambda>s. f s x) b) * c"
  using assms by (induction b) (auto simp: algebra_simps)

lemma countRefs_replace:
  "y \<noteq> x \<Longrightarrow> countRefs (replaceRef rc x e t) y = countRefs t y + countRefs t x * countRefs e y"
proof (induction rc x e t rule: replaceRef.induct)
  case (4 rc name e m c recv args)
  thus ?case
    using sum_list_replace [where f = countRefs and r = "replaceRef rc name e" and b = args and x = name
        and y = y and c = "countRefs e y"]
    by (cases recv) (simp_all add: algebra_simps)
next
  case (7 rc name e m t args)
  thus ?case
    using sum_list_replace [where f = countRefs and r = "replaceRef rc name e" and b = args and x = name
        and y = y and c = "countRefs e y"]
    by simp
qed (simp_all add: algebra_simps)

definition substitutes :: "(TExpr \<Rightarrow> TExpr) \<Rightarrow> string \<Rightarrow> string \<Rightarrow> nat \<Rightarrow> bool" where
  "substitutes r x y c \<longleftrightarrow> (\<forall>t. countRefs (r t) y = countRefs t y + countRefs t x * c)"

lemma replaceRef_substitutes: "y \<noteq> x \<Longrightarrow> substitutes (replaceRef rc x e) x y (countRefs e y)"
  by (simp add: substitutes_def countRefs_replace)

lemma optRefs_replace:
  "substitutes r x y c \<Longrightarrow> optRefs (map_option r i) y = optRefs i y + optRefs i x * c"
  by (cases i) (simp_all add: optRefs_def substitutes_def)

lemma countRefsInStmt_replace:
  "substitutes r x y c \<Longrightarrow>
     countRefsInStmt (replaceRefInStmt r s) y = countRefsInStmt s y + countRefsInStmt s x * c"
  "substitutes r x y c \<Longrightarrow>
     countRefsInCatch (replaceRefInCatch r k) y = countRefsInCatch k y + countRefsInCatch k x * c"
  "substitutes r x y c \<Longrightarrow>
     countRefsInCase (replaceRefInCase r l) y = countRefsInCase l y + countRefsInCase l x * c"
proof (induction r s and r k and r l rule: replaceRefInStmt_replaceRefInCatch_replaceRefInCase.induct)
  case (6 r m i cnd n b)
  thus ?case
    using sum_list_replace [where f = countRefsInStmt and r = "replaceRefInStmt r" and b = b and x = x and y = y and c = c]
    by (cases i) (simp_all add: optRefs_replace [where x = x and c = c] algebra_simps)
qed (simp_all add: optRefs_replace [where x = x and c = c] substitutes_def algebra_simps
  sum_list_replace [where f = countRefsInStmt and x = x and c = c]
  sum_list_replace [where f = countRefsInCatch and x = x and c = c]
  sum_list_replace [where f = countRefsInCase and x = x and c = c])

lemma countRefsInStmts_parts:
  "countRefsInStmts [] y = 0"
  "countRefsInStmts (s # ss) y = countRefsInStmt s y + countRefsInStmts ss y"
  "countRefsInStmts (ss @ ts) y = countRefsInStmts ss y + countRefsInStmts ts y"
  by (simp_all add: countRefsInStmts_def)

lemma foldedByE:
  assumes "foldedBy s = Some (n, e)"
  obtains m t where "s = TS_VarDecl m t n (Some e)" "is_prefix ''_tmp'' n"
  using assms by (cases s rule: foldedBy.cases) (auto split: if_splits)

lemma foldAt_keeps:
  assumes "foldable stmts i" "\<not> is_prefix ''_tmp'' y"
  shows "countRefsInStmts (foldAt rc stmts i) y = countRefsInStmts stmts y"
proof -
  obtain n e where at: "i + 1 < length stmts" "foldedBy (stmts ! i) = Some (n, e)" "countRefsInStmt (stmts ! (i + 1)) n = 1"
    using assms(1) by (auto simp: foldable_def split: option.splits)
  then obtain m t where decl: "stmts ! i = TS_VarDecl m t n (Some e)" "is_prefix ''_tmp'' n" by (blast elim: foldedByE)
  have split: "stmts = take i stmts @ stmts ! i # stmts ! (i + 1) # drop (i + 2) stmts"
    using at(1) by (simp add: Cons_nth_drop_Suc)
  have "countRefsInStmt (replaceRefInStmt (replaceRef rc n e) (stmts ! (i + 1))) y =
      countRefsInStmt (stmts ! (i + 1)) y + countRefs e y"
    using countRefsInStmt_replace(1) [OF replaceRef_substitutes [of y n rc e], of "stmts ! (i + 1)"] at(3) decl(2) assms(2)
    by auto
  moreover have "countRefsInStmts stmts y = countRefsInStmts (take i stmts) y + countRefs e y +
      countRefsInStmt (stmts ! (i + 1)) y + countRefsInStmts (drop (i + 2) stmts) y"
    by (subst split) (simp add: countRefsInStmts_parts decl optRefs_def)
  ultimately show ?thesis by (simp add: foldAt_def at(2) countRefsInStmts_parts)
qed

lemma foldTemps_keeps:
  "\<not> is_prefix ''_tmp'' y \<Longrightarrow> countRefsInStmts (foldTemps rc stmts) y = countRefsInStmts stmts y"
proof (induction rc stmts rule: foldTemps.induct)
  case (1 rc stmts)
  show ?case
  proof (cases "find (foldable stmts) [0..<length stmts]")
    case None
    thus ?thesis by (simp add: foldTemps.simps [of rc stmts])
  next
    case (Some i)
    thus ?thesis using 1 foldAt_keeps [OF find_foldable [OF Some]] by (simp add: foldTemps.simps [of rc stmts])
  qed
qed

lemma fold_same:
  "(\<And>s. s \<in> set b \<Longrightarrow> countRefsInStmt (foldStmt rc s) y = countRefsInStmt s y) \<Longrightarrow>
   \<not> is_prefix ''_tmp'' y \<Longrightarrow>
   sum_list (map (\<lambda>s. countRefsInStmt s y) (foldTemps rc (map (foldStmt rc) b))) =
   sum_list (map (\<lambda>s. countRefsInStmt s y) b)"
  using foldTemps_keeps [of y rc "map (foldStmt rc) b"]
  by (simp add: countRefsInStmts_def o_def cong: map_cong)

lemma foldStmt_keeps:
  "\<not> is_prefix ''_tmp'' y \<Longrightarrow> countRefsInStmt (foldStmt rc s) y = countRefsInStmt s y"
  "\<not> is_prefix ''_tmp'' y \<Longrightarrow> countRefsInCatch (foldCatch rc k) y = countRefsInCatch k y"
  "\<not> is_prefix ''_tmp'' y \<Longrightarrow> countRefsInCase (foldCase rc l) y = countRefsInCase l y"
  by (induction rc s and rc k and rc l rule: foldStmt_foldCatch_foldCase.induct)
    (simp_all add: fold_same o_def cong: map_cong)

text \<open>C32: Folding loses and invents no use of a variable: for every name that is not a temporary's, the
  block has as many references to it after folding as before.\<close>

theorem fold_keeps_uses:
  assumes "\<not> is_prefix ''_tmp'' y"
  shows "countRefsInStmts (foldBlock rc b) y = countRefsInStmts b y"
  using fold_same [of b rc y] foldStmt_keeps(1) [OF assms] assms
  by (simp add: foldBlock_def countRefsInStmts_def)

text \<open>Small statements to evaluate on.\<close>

definition plainExpr :: ExprMeta where
  "plainExpr = \<lparr>xm_fidelity = Fid_Source, xm_sourceSpan = None, xm_rawSource = [],
     xm_resolvedQualifiedName = [], xm_resolvedSignature = []\<rparr>"

definition plainStmt :: StmtMeta where
  "plainStmt = \<lparr>sm_fidelity = Fid_Source, sm_sourceSpan = None, sm_rawSource = []\<rparr>"

abbreviation varUse :: "string \<Rightarrow> TExpr" where "varUse n \<equiv> TE_Var plainExpr n"

abbreviation varCall :: "string \<Rightarrow> TExpr" where "varCall f \<equiv> TE_Call plainExpr f None []"

definition tmpDecl :: "string \<Rightarrow> TExpr \<Rightarrow> TStmt" where
  "tmpDecl n e = TS_VarDecl plainStmt empty_type n (Some e)"

text \<open>\<open>_tmp0 = a; return a + _tmp0\<close> becomes \<open>return a + a\<close>.\<close>

lemma fold_keeps_uses_witness:
  defines "b \<equiv> [tmpDecl ''_tmp0'' (varUse ''a''),
    TS_Return plainStmt (Some (TE_Binary plainExpr TB_Add (varUse ''a'') (varUse ''_tmp0'')))]"
  shows "foldBlock id b = [TS_Return plainStmt (Some (TE_Binary plainExpr TB_Add (varUse ''a'') (varUse ''a'')))] \<and>
    countRefsInStmts (foldBlock id b) ''a'' = 2"
proof
  have "\<not> is_prefix ''_tmp'' ''a''" by (simp add: is_prefix_def)
  from fold_keeps_uses [OF this, of id b]
  show "countRefsInStmts (foldBlock id b) ''a'' = 2"
    by (simp add: b_def countRefsInStmts_def tmpDecl_def optRefs_def)
qed (simp add: b_def tmpDecl_def foldBlock_def foldTemps.simps foldable_def foldAt_def countRefsInStmts_def optRefs_def
  is_prefix_def)

text \<open>
  A throw's operand is not counted, so a temporary that only a later throw still uses loses its
  declaration; and a call that was made once before a loop moves into the condition.
\<close>

lemma fold_forgets_throw:
  "foldBlock id [tmpDecl ''_tmp0'' (varCall ''f''), TS_Expr plainStmt (varUse ''_tmp0''),
      TS_Expr plainStmt (TE_Throw plainExpr (Some (varUse ''_tmp0'')))] =
   [TS_Expr plainStmt (varCall ''f''), TS_Expr plainStmt (TE_Throw plainExpr (Some (varUse ''_tmp0'')))]"
  by (simp add: tmpDecl_def foldBlock_def foldTemps.simps foldable_def foldAt_def countRefsInStmts_def optRefs_def
    is_prefix_def)

lemma fold_into_condition:
  "foldBlock id [tmpDecl ''_tmp0'' (varCall ''f''), TS_While plainStmt (varUse ''_tmp0'') []] =
   [TS_While plainStmt (varCall ''f'') []]"
  by (simp add: tmpDecl_def foldBlock_def foldTemps.simps foldable_def foldAt_def countRefsInStmts_def optRefs_def
    is_prefix_def)

section \<open>Names\<close>

lemma nat_to_string_inj: "nat_to_string a = nat_to_string b \<Longrightarrow> a = b"
  by (metis digits_value_nat_to_string)

lemma freeName_found: "freeName used preferred \<notin> set used"
proof (cases "preferred \<in> set used")
  case True
  define variant where "variant k = preferred @ nat_to_string k" for k
  have "inj_on variant {2..<length used + 3}"
    by (auto simp: inj_on_def variant_def dest: nat_to_string_inj)
  hence "card (variant ` {2..<length used + 3}) = length used + 1"
    by (simp add: card_image)
  hence "\<not> variant ` {2..<length used + 3} \<subseteq> set used"
    using card_mono [of "set used" "variant ` {2..<length used + 3}"] card_length [of used] by fastforce
  then obtain k where "k \<in> {2..<length used + 3}" "variant k \<notin> set used" by blast
  hence k: "k \<in> set [2..<length used + 3]" "variant k \<notin> set used" unfolding set_upt .
  have "find (\<lambda>k. variant k \<notin> set used) [2..<length used + 3] \<noteq> None"
    using k by (auto simp: find_None_iff)
  then obtain j where "find (\<lambda>k. variant k \<notin> set used) [2..<length used + 3] = Some j" by auto
  moreover from this have "variant j \<notin> set used" by (rule find_foldable)
  ultimately show ?thesis using True by (simp add: freeName_def flip: variant_def)
qed (simp add: freeName_def)

text \<open>
  The state of the heuristics: every name given is recorded as used, no two variables got the same,
  none is in \<open>avoid\<close>.
\<close>

definition namesFresh :: "string list \<Rightarrow> NameState \<Rightarrow> bool" where
  "namesFresh avoid st \<longleftrightarrow>
     set avoid \<subseteq> set (ns_usedNames st) \<and> distinct (map fst (ns_renames st)) \<and>
     distinct (map snd (ns_renames st)) \<and> snd ` set (ns_renames st) \<subseteq> set (ns_usedNames st) - set avoid"

lemma renames_values: "map_of rs x = Some y \<Longrightarrow> y \<in> snd ` set rs"
  by (force dest: map_of_SomeD)

lemma update_values: "snd ` set (AList.update k v rs) \<subseteq> insert v (snd ` set rs)"
  by (induction rs) auto

lemma distinct_update_values:
  "distinct (map snd rs) \<Longrightarrow> v \<notin> snd ` set rs \<Longrightarrow> distinct (map snd (AList.update k v rs))"
proof (induction rs)
  case (Cons r rs)
  thus ?case using update_values [of k v rs] by (cases r) (auto simp: image_iff)
qed simp

lemma renameTo_fresh: "namesFresh avoid st \<Longrightarrow> namesFresh avoid (renameTo n p st)"
proof -
  assume fresh: "namesFresh avoid st"
  define new where "new = freeName (ns_usedNames st) p"
  have unused: "new \<notin> set (ns_usedNames st)" by (simp add: new_def freeName_found)
  hence "new \<notin> snd ` set (ns_renames st)" using fresh by (auto simp: namesFresh_def)
  hence "distinct (map snd (AList.update n new (ns_renames st)))"
    using fresh by (intro distinct_update_values) (auto simp: namesFresh_def)
  thus ?thesis
    using fresh unused update_values [of n new "ns_renames st"]
    by (auto simp: namesFresh_def renameTo_def allocateName_def Let_def distinct_update simp flip: new_def)
qed

lemma namesFresh_indices [simp]:
  "namesFresh avoid (st\<lparr>ns_counterIdx := i\<rparr>) = namesFresh avoid st"
  "namesFresh avoid (st\<lparr>ns_accumIdx := i\<rparr>) = namesFresh avoid st"
  by (simp_all add: namesFresh_def)

lemma nextCounter_fresh: "nextCounter st = (c, st1) \<Longrightarrow> namesFresh avoid st1 = namesFresh avoid st"
  by (auto simp: nextCounter_def Let_def)

lemma nextAccumulator_fresh: "nextAccumulator st = (c, st1) \<Longrightarrow> namesFresh avoid st1 = namesFresh avoid st"
  by (auto simp: nextAccumulator_def Let_def)

lemma renameCounter_fresh: "namesFresh avoid st \<Longrightarrow> namesFresh avoid (renameCounter i st)"
  by (auto simp: renameCounter_def renameTo_fresh nextCounter_fresh split: option.splits TStmt.splits prod.splits)

lemma fold_keeps: "(\<And>x st. x \<in> set xs \<Longrightarrow> P st \<Longrightarrow> P (f x st)) \<Longrightarrow> P st \<Longrightarrow> P (fold f xs st)"
  by (induction xs arbitrary: st) auto

lemma detectLoopCounter_fresh:
  "namesFresh avoid st \<Longrightarrow> namesFresh avoid (detectLoopCounter s st)"
  "namesFresh avoid st \<Longrightarrow> namesFresh avoid (detectLoopCatch c st)"
  "namesFresh avoid st \<Longrightarrow> namesFresh avoid (detectLoopCase k st)"
  by (induction s st and c st and k st rule: detectLoopCounter_detectLoopCatch_detectLoopCase.induct)
    (simp_all add: fold_keeps [where P = "namesFresh avoid"] renameCounter_fresh)

lemma detectAccumulators_fresh: "namesFresh avoid st \<Longrightarrow> namesFresh avoid (detectAccumulators stmts st)"
proof (induction stmts st rule: detectAccumulators.induct)
  case (2 s rest st)
  show ?case unfolding detectAccumulators.simps
    by (rule 2(1)) (auto simp: 2(2) renameTo_fresh nextAccumulator_fresh split: TStmt.splits list.splits prod.splits)
qed simp

lemma detectBoolean_fresh:
  "namesFresh avoid st \<Longrightarrow> namesFresh avoid (detectBoolean s st)"
  "namesFresh avoid st \<Longrightarrow> namesFresh avoid (detectBooleanCatch c st)"
  "namesFresh avoid st \<Longrightarrow> namesFresh avoid (detectBooleanCase k st)"
  by (induction s st and c st and k st rule: detectBoolean_detectBooleanCatch_detectBooleanCase.induct)
    (simp_all add: fold_keeps [where P = "namesFresh avoid"] renameTo_fresh)

lemma detectIndex_fresh:
  "namesFresh avoid st \<Longrightarrow> namesFresh avoid (detectIndex block s st)"
  "namesFresh avoid st \<Longrightarrow> namesFresh avoid (detectIndexCatch c st)"
  "namesFresh avoid st \<Longrightarrow> namesFresh avoid (detectIndexCase k st)"
  by (induction block s st and c st and k st rule: detectIndex_detectIndexCatch_detectIndexCase.induct)
    (simp_all add: fold_keeps [where P = "namesFresh avoid"] renameTo_fresh)

lemma detectNames_fresh: "namesFresh (map pm_name (tn_params fn)) (detectNames fn)"
proof -
  let ?fresh = "namesFresh (map pm_name (tn_params fn))"
  have start: "?fresh \<lparr>ns_renames = [], ns_usedNames = map pm_name (tn_params fn), ns_counterIdx = 0, ns_accumIdx = 0\<rparr>"
    by (simp add: namesFresh_def)
  show ?thesis
    unfolding detectNames_def detectLoopCounters_def detectBooleans_def detectIndices_def Let_def
    by (intro fold_keeps [where P = ?fresh] detectAccumulators_fresh detectIndex_fresh detectBoolean_fresh
        detectLoopCounter_fresh start)
qed

text \<open>C36: The names the heuristics give: no variable gets two, no two variables get the same, and none
  is the name of a parameter.\<close>

theorem names_fresh:
  "let renames = ns_renames (detectNames fn) in
   distinct (map fst renames) \<and> distinct (map snd renames) \<and>
   snd ` set renames \<inter> pm_name ` set (tn_params fn) = {}"
  using detectNames_fresh [of fn] by (auto simp: namesFresh_def Let_def)

text \<open>
  The used names start from the parameters alone: a counter takes the name of a local variable of the
  function, and a throw keeps the old name of a variable that is renamed.
\<close>

lemma rename_captures_local:
  "renameInStmts (ns_renames (detectNames (f\<lparr>tn_params := [], tn_body :=
      [tmpDecl ''i'' (varCall ''f''), TS_For plainStmt (Some (tmpDecl ''_tmp0'' (varUse ''i''))) None None []]\<rparr>)))
     [tmpDecl ''i'' (varCall ''f''), TS_For plainStmt (Some (tmpDecl ''_tmp0'' (varUse ''i''))) None None []] =
   [tmpDecl ''i'' (varCall ''f''), TS_For plainStmt (Some (tmpDecl ''i'' (varUse ''i''))) None None []]"
  by (simp add: detectNames_def detectLoopCounters_def detectBooleans_def detectIndices_def tmpDecl_def Let_def
    renameCounter_def isGeneratedName_def is_prefix_def nextCounter_def renameTo_def allocateName_def freeName_def
    renameInStmts_def newName_def)

lemma rename_skips_throw:
  "renameInExpr [(''_tmp0'', ''i'')] (TE_Throw plainExpr (Some (varUse ''_tmp0''))) =
   TE_Throw plainExpr (Some (varUse ''_tmp0''))"
  by simp

end
