(* ===== verification/SourceBuilder.thy ===== *)
theory SourceBuilder
  imports TranspileModel
begin

text \<open>
  The \<open>.topo\<close> front end of the transpiler (\<open>lib/Transpile/TopoSourceBuilder.cpp\<close>): functions and logic
  blocks are collected from the tree, and every function gets a body from its block, or the mark of a
  leaf.

  The builder's logic blocks are in an \<open>unordered_map\<close>; the order in which it is walked is the
  standard library's, and is the argument \<open>walk\<close>.
\<close>

section \<open>Operators and literals\<close>

fun mapBinaryOp :: "TokenKind \<Rightarrow> TBinaryOp option" where
  "mapBinaryOp Plus = Some TB_Add"
| "mapBinaryOp Minus = Some TB_Sub"
| "mapBinaryOp Star = Some TB_Mul"
| "mapBinaryOp Slash = Some TB_Div"
| "mapBinaryOp Percent = Some TB_Mod"
| "mapBinaryOp EqEq = Some TB_Eq"
| "mapBinaryOp NotEq = Some TB_NotEq"
| "mapBinaryOp LAngle = Some TB_Less"
| "mapBinaryOp RAngle = Some TB_Greater"
| "mapBinaryOp LessEq = Some TB_LessEq"
| "mapBinaryOp GreaterEq = Some TB_GreaterEq"
| "mapBinaryOp AmpAmp = Some TB_And"
| "mapBinaryOp PipePipe = Some TB_Or"
| "mapBinaryOp Amp = Some TB_BitAnd"
| "mapBinaryOp Pipe = Some TB_BitOr"
| "mapBinaryOp Caret = Some TB_BitXor"
| "mapBinaryOp ShiftLeft = Some TB_Shl"
| "mapBinaryOp ShiftRight = Some TB_Shr"
| "mapBinaryOp _ = None"

fun mapUnaryOp :: "TokenKind \<Rightarrow> TUnaryOp option" where
  "mapUnaryOp Minus = Some TU_Negate"
| "mapUnaryOp Bang = Some TU_Not"
| "mapUnaryOp Tilde = Some TU_BitNot"
| "mapUnaryOp _ = None"

definition mapLiteralKind :: "TokenKind \<Rightarrow> string \<Rightarrow> TLiteralKind" where
  "mapLiteralKind k v =
     (case k of
        StringLiteral \<Rightarrow> TL_String
      | KW_true \<Rightarrow> TL_Boolean
      | KW_false \<Rightarrow> TL_Boolean
      | IntegerLiteral \<Rightarrow> if CHR ''.'' \<in> set v then TL_Float else TL_Integer
      | _ \<Rightarrow> TL_Integer)"

section \<open>Collecting\<close>

record CollectedFn =
  cf_modifiers :: "ModifierData list"
  cf_decl :: FnDecl
  cf_qualifiedName :: string
  cf_accessModifier :: string

text \<open>What the builder reads of a logic block: its operations and its pipeline.\<close>

record BlockBody =
  bb_operations :: "ASTNode list"
  bb_pipelineEdges :: "PipelineEdge list"

record BuilderState =
  bd_errors :: "string list"
  bd_fnDecls :: "CollectedFn list"
  bd_logicBlocks :: "BlockBody umap"

definition empty_builder :: BuilderState where
  "empty_builder = \<lparr>bd_errors = [], bd_fnDecls = [], bd_logicBlocks = []\<rparr>"

definition joinQualified :: "string list \<Rightarrow> string \<Rightarrow> string" where
  "joinQualified parts name = concat (map (\<lambda>p. p @ ''::'') parts) @ name"

definition normalizeDotted :: "string \<Rightarrow> string" where
  "normalizeDotted name = concat (map (\<lambda>c. if c = CHR ''.'' then ''::'' else [c]) name)"

fun visibilityToAccess :: "Visibility \<Rightarrow> string" where
  "visibilityToAccess Vis_Public = ''public''"
| "visibilityToAccess Vis_Protected = ''protected''"
| "visibilityToAccess Vis_Private = ''private''"
| "visibilityToAccess Vis_Internal = ''private''"
| "visibilityToAccess Vis_Ignore = []"

definition collectFnDecl :: "NodeBase \<Rightarrow> FnDecl \<Rightarrow> string list \<Rightarrow> string \<Rightarrow> BuilderState \<Rightarrow> BuilderState" where
  "collectFnDecl base d nsPrefix access st =
     (if fd_isOperator d \<or> fd_isConstructor d \<or> fd_isDestructor d then st
      else st\<lparr>bd_fnDecls := bd_fnDecls st @
        [\<lparr>cf_modifiers = nd_modifiers base, cf_decl = d,
          cf_qualifiedName = joinQualified nsPrefix (normalizeDotted (fd_name d)), cf_accessModifier = access\<rparr>]\<rparr>)"

definition collectBlock :: "string \<Rightarrow> ASTNode list \<Rightarrow> PipelineEdge list \<Rightarrow> string list \<Rightarrow> BuilderState \<Rightarrow> BuilderState" where
  "collectBlock name ops edges nsPrefix st =
     st\<lparr>bd_logicBlocks := AList.update (joinQualified nsPrefix (normalizeDotted name))
          \<lparr>bb_operations = ops, bb_pipelineEdges = edges\<rparr> (bd_logicBlocks st)\<rparr>"

definition externalTypeError :: "string list \<Rightarrow> string \<Rightarrow> string" where
  "externalTypeError nsPrefix name =
     ''external type '' @ quoted (joinQualified nsPrefix name) @
     '' requires host-source transpilation; .topo-source type implementation lowering is unavailable''"

fun walkMember :: "string list \<Rightarrow> string \<Rightarrow> ASTNode \<Rightarrow> BuilderState \<Rightarrow> BuilderState" where
  "walkMember nsPrefix access (TypeDeclNode base td sections) st =
     (if hasModifier MK_External (nd_modifiers base)
      then st\<lparr>bd_errors := bd_errors st @ [externalTypeError nsPrefix (td_name td)]\<rparr> else st)"
| "walkMember nsPrefix access (FnDeclNode base d) st = collectFnDecl base d nsPrefix access st"
| "walkMember nsPrefix access (FnLogicBlock base name ops edges tps) st = collectBlock name ops edges nsPrefix st"
| "walkMember nsPrefix access (VisibilitySection base v members) st =
     fold (walkMember nsPrefix (visibilityToAccess v)) members st"
| "walkMember nsPrefix access _ st = st"

fun walkTopLevel :: "string list \<Rightarrow> ASTNode \<Rightarrow> BuilderState \<Rightarrow> BuilderState" where
  "walkTopLevel nsPrefix (NamespaceDecl base path sections ext) st =
     fold (walkTopLevel (nsPrefix @ path)) sections st"
| "walkTopLevel nsPrefix (VisibilitySection base v members) st =
     fold (walkMember nsPrefix (visibilityToAccess v)) members st"
| "walkTopLevel nsPrefix (FnDeclNode base d) st = collectFnDecl base d nsPrefix [] st"
| "walkTopLevel nsPrefix (FnLogicBlock base name ops edges tps) st = collectBlock name ops edges nsPrefix st"
| "walkTopLevel nsPrefix _ st = st"

text \<open>The return types by qualified and by simple name.\<close>

definition bareName :: "string \<Rightarrow> string" where
  "bareName q = (case rfind_str ''::'' q of Some pos \<Rightarrow> drop (pos + 2) q | None \<Rightarrow> q)"

definition indexReturnType :: "CollectedFn \<Rightarrow> TypeNode umap \<Rightarrow> TypeNode umap" where
  "indexReturnType fd m =
     fst (umap_emplace (bareName (cf_qualifiedName fd)) (fd_returnType (cf_decl fd))
       (AList.update (cf_qualifiedName fd) (fd_returnType (cf_decl fd)) m))"

definition returnTypeByName :: "CollectedFn list \<Rightarrow> TypeNode umap" where
  "returnTypeByName fds = fold indexReturnType fds []"

definition calleeReturnType :: "TypeNode umap \<Rightarrow> string \<Rightarrow> TypeNode" where
  "calleeReturnType m name = (case map_of m name of Some t \<Rightarrow> t | None \<Rightarrow> empty_type)"

section \<open>Expressions\<close>

text \<open>The metadata of a node that the builder makes.\<close>

definition fresh_expr :: ExprMeta where
  "fresh_expr = \<lparr>xm_fidelity = Fid_Source, xm_sourceSpan = None, xm_rawSource = [],
     xm_resolvedQualifiedName = [], xm_resolvedSignature = []\<rparr>"

definition fresh_stmt :: StmtMeta where
  "fresh_stmt = \<lparr>sm_fidelity = Fid_Source, sm_sourceSpan = None, sm_rawSource = []\<rparr>"

text \<open>Something that the model does not represent is noted, and the function is no longer as in the source.\<close>

definition noteUnsupported :: "string \<Rightarrow> TranspileFunction \<Rightarrow> TranspileFunction" where
  "noteUnsupported desc fn =
     fn\<lparr>tn_unsupported := tn_unsupported fn @ [desc],
        tn_fidelity := (if tn_fidelity fn = Fid_Source then Fid_Inferred else tn_fidelity fn)\<rparr>"

definition makeUnsupported :: "string \<Rightarrow> TranspileFunction \<Rightarrow> TExpr \<times> TranspileFunction" where
  "makeUnsupported desc fn = (TE_Unsupported fresh_expr desc, noteUnsupported desc fn)"

fun lowerExpr :: "Expr \<Rightarrow> TranspileFunction \<Rightarrow> TExpr \<times> TranspileFunction"
  and lowerArgs :: "Expr list \<Rightarrow> TranspileFunction \<Rightarrow> TExpr list \<times> TranspileFunction" where
  "lowerExpr (BinaryExpr loc k l r) fn =
     (case mapBinaryOp k of
        None \<Rightarrow> makeUnsupported ''binary operator not representable'' fn
      | Some op \<Rightarrow>
          (case lowerExpr l fn of (l1, fn1) \<Rightarrow>
           case lowerExpr r fn1 of (r1, fn2) \<Rightarrow> (TE_Binary fresh_expr op l1 r1, fn2)))"
| "lowerExpr (UnaryExpr loc k e) fn =
     (case mapUnaryOp k of
        None \<Rightarrow>
          makeUnsupported (''unary operator '' @ quoted (tokenKindName k) @ '' not representable'') fn
      | Some op \<Rightarrow> (case lowerExpr e fn of (e1, fn1) \<Rightarrow> (TE_Unary fresh_expr op e1, fn1)))"
| "lowerExpr (LiteralExpr loc v k) fn = (TE_Literal fresh_expr (mapLiteralKind k v) v, fn)"
| "lowerExpr (IdentifierExpr loc name) fn = (TE_Var fresh_expr name, fn)"
| "lowerExpr (CallExpr loc f args) fn =
     (case lowerArgs args fn of (args1, fn1) \<Rightarrow> (TE_Call fresh_expr f None args1, fn1))"
| "lowerArgs [] fn = ([], fn)"
| "lowerArgs (e # es) fn =
     (case lowerExpr e fn of (e1, fn1) \<Rightarrow> case lowerArgs es fn1 of (es1, fn2) \<Rightarrow> (e1 # es1, fn2))"

definition lowerOptional :: "Expr option \<Rightarrow> TranspileFunction \<Rightarrow> TExpr \<times> TranspileFunction" where
  "lowerOptional e fn = (case e of None \<Rightarrow> makeUnsupported ''empty expression'' fn | Some x \<Rightarrow> lowerExpr x fn)"

section \<open>Bodies\<close>

definition pushStmt :: "TStmt \<Rightarrow> TranspileFunction \<Rightarrow> TranspileFunction" where
  "pushStmt s fn = fn\<lparr>tn_body := tn_body fn @ [s]\<rparr>"

definition callOf :: "string \<Rightarrow> TExpr" where
  "callOf f = TE_Call fresh_expr f None []"

definition literalType :: "Expr option \<Rightarrow> TypeNode" where
  "literalType e =
     (case e of
        Some (LiteralExpr loc v k) \<Rightarrow>
          (case k of
             IntegerLiteral \<Rightarrow> named_type [''i64'']
           | StringLiteral \<Rightarrow> named_type [''string'']
           | KW_true \<Rightarrow> named_type [''bool'']
           | KW_false \<Rightarrow> named_type [''bool'']
           | _ \<Rightarrow> empty_type)
      | _ \<Rightarrow> empty_type)"

text \<open>One operation, over the names bound so far and the function.\<close>

definition lowerOperation :: "TypeNode umap \<Rightarrow> OperationDecl \<Rightarrow> string list \<times> TranspileFunction \<Rightarrow> string list \<times> TranspileFunction" where
  "lowerOperation types op st =
     (case st of (boundNames, fn) \<Rightarrow>
        if od_isAssignment op then
          (case lowerOptional (od_expr op) fn of (rhs, fn1) \<Rightarrow>
             if od_varName op \<in> set boundNames
             then (boundNames, pushStmt (TS_Assign fresh_stmt (TE_Var fresh_expr (od_varName op)) rhs) fn1)
             else (boundNames @ [od_varName op],
               pushStmt (TS_VarDecl fresh_stmt (literalType (od_expr op)) (od_varName op) (Some rhs)) fn1))
        else
          (case od_returnBinding op of
             None \<Rightarrow> (boundNames, pushStmt (TS_Expr fresh_stmt (callOf (od_funcName op))) fn)
           | Some rb \<Rightarrow>
               if rb_isSingleValue rb then
                 (boundNames @ [rb_singleName rb],
                  pushStmt (TS_VarDecl fresh_stmt (calleeReturnType types (od_funcName op)) (rb_singleName rb)
                    (Some (callOf (od_funcName op)))) fn)
               else
                 (boundNames,
                  noteUnsupported (''multi-value return binding on operation '' @ quoted (od_funcName op) @
                      '' not represented in the naive orchestration body'')
                    (pushStmt (TS_Expr fresh_stmt (callOf (od_funcName op))) fn))))"

fun lowerOperationNode :: "TypeNode umap \<Rightarrow> ASTNode \<Rightarrow> string list \<times> TranspileFunction \<Rightarrow> string list \<times> TranspileFunction" where
  "lowerOperationNode types (OperationNode base op) st = lowerOperation types op st"
| "lowerOperationNode types _ st = st"

definition buildOperationBody :: "TypeNode umap \<Rightarrow> BlockBody \<Rightarrow> TranspileFunction \<Rightarrow> TranspileFunction" where
  "buildOperationBody types block fn = snd (fold (lowerOperationNode types) (bb_operations block) ([], fn))"

definition addNode :: "string \<Rightarrow> string list \<Rightarrow> string list" where
  "addNode n order = (if n \<noteq> [] \<and> n \<notin> set order then order @ [n] else order)"

definition addEdgeNodes :: "PipelineEdge \<Rightarrow> string list \<Rightarrow> string list" where
  "addEdgeNodes e order = (if pe_isTerminal e then addNode (pe_source e) order
     else addNode (pe_target e) (addNode (pe_source e) order))"

definition pipelineOrder :: "PipelineEdge list \<Rightarrow> string list" where
  "pipelineOrder es = fold addEdgeNodes es []"

definition lastTerminal :: "PipelineEdge list \<Rightarrow> string" where
  "lastTerminal es = fold (\<lambda>e t. if pe_isTerminal e then pe_source e else t) es []"

definition nodeStmt :: "TypeNode umap \<Rightarrow> string \<Rightarrow> TStmt" where
  "nodeStmt types n = TS_VarDecl fresh_stmt (calleeReturnType types n) (n @ ''_out'') (Some (callOf n))"

definition returnOf :: "string \<Rightarrow> TStmt list" where
  "returnOf t = (if t = [] then [] else [TS_Return fresh_stmt (Some (TE_Var fresh_expr (t @ ''_out'')))])"

definition buildPipelineBody :: "TypeNode umap \<Rightarrow> BlockBody \<Rightarrow> TranspileFunction \<Rightarrow> TranspileFunction" where
  "buildPipelineBody types block fn =
     (let es = bb_pipelineEdges block in
      fn\<lparr>tn_body := tn_body fn @ map (nodeStmt types) (pipelineOrder es) @ returnOf (lastTerminal es)\<rparr>)"

definition buildCompositeBody :: "TypeNode umap \<Rightarrow> BlockBody \<Rightarrow> TranspileFunction \<Rightarrow> TranspileFunction" where
  "buildCompositeBody types block fn =
     (if bb_pipelineEdges block \<noteq> [] then buildPipelineBody types block fn else buildOperationBody types block fn)"

section \<open>Functions\<close>

definition kLeafUnresolvedMarker :: string where
  "kLeafUnresolvedMarker = ''__topo_leaf_unresolved__''"

definition fresh_function :: TranspileFunction where
  "fresh_function =
     \<lparr>tn_qualifiedName = [], tn_isExternal = False, tn_owningType = [], tn_externalOwner = [],
      tn_returnType = empty_type, tn_params = [], tn_body = [], tn_unsupported = [], tn_fidelity = Fid_Source,
      tn_accessModifier = [], tn_throwsClause = [], tn_templateParams = [], tn_sourceSpan = None,
      tn_rawSource = [], tn_resolvedQualifiedName = [], tn_resolvedSignature = []\<rparr>"

definition buildFunction :: "TypeNode umap \<Rightarrow> BlockBody umap \<Rightarrow> CollectedFn \<Rightarrow> TranspileFunction" where
  "buildFunction types blocks fd =
     (let d = cf_decl fd;
          fn = fresh_function\<lparr>tn_qualifiedName := cf_qualifiedName fd,
            tn_isExternal := hasModifier MK_External (cf_modifiers fd), tn_returnType := fd_returnType d,
            tn_params := fd_params d, tn_accessModifier := cf_accessModifier fd,
            tn_templateParams := fd_templateParams d\<rparr>
      in case map_of blocks (cf_qualifiedName fd) of
           Some block \<Rightarrow> buildCompositeBody types block fn
         | None \<Rightarrow> fn\<lparr>tn_unsupported := tn_unsupported fn @ [kLeafUnresolvedMarker]\<rparr>)"

definition flowReturnType :: "PipelineEdge list \<Rightarrow> TypeNode" where
  "flowReturnType es =
     (case find (\<lambda>e. pe_isTerminal e \<and> pe_terminalType e \<noteq> []) es of
        Some e \<Rightarrow> named_type [pe_terminalType e]
      | None \<Rightarrow> empty_type)"

definition buildOrphanComposite :: "TypeNode umap \<Rightarrow> string \<Rightarrow> BlockBody \<Rightarrow> TranspileFunction" where
  "buildOrphanComposite types qn block =
     buildCompositeBody types block
       (fresh_function\<lparr>tn_qualifiedName := qn, tn_accessModifier := ''public'',
          tn_returnType := flowReturnType (bb_pipelineEdges block)\<rparr>)"

record BuildResult =
  br_module :: TranspileModule
  br_warnings :: "string list"
  br_errors :: "string list"
  br_success :: bool

definition collectFile :: "ASTNode list \<Rightarrow> BuilderState" where
  "collectFile decls = fold (walkTopLevel []) decls empty_builder"

definition buildSource :: "((string \<times> BlockBody) list \<Rightarrow> (string \<times> BlockBody) list) \<Rightarrow> ASTNode list \<Rightarrow> BuildResult" where
  "buildSource walk decls =
     (let st = collectFile decls;
          types = returnTypeByName (bd_fnDecls st);
          built = map cf_qualifiedName (bd_fnDecls st);
          orphans = filter (\<lambda>(qn, block). qn \<notin> set built) (walk (bd_logicBlocks st))
      in \<lparr>br_module = \<lparr>mo_types = [],
             mo_functions = map (buildFunction types (bd_logicBlocks st)) (bd_fnDecls st) @
               map (\<lambda>(qn, block). buildOrphanComposite types qn block) orphans\<rparr>,
          br_warnings = [], br_errors = bd_errors st, br_success = (bd_errors st = [])\<rparr>)"

definition isUnresolvedLeaf :: "TranspileFunction \<Rightarrow> bool" where
  "isUnresolvedLeaf fn = list_ex (\<lambda>u. u = kLeafUnresolvedMarker) (tn_unsupported fn)"

end
