(* ===== verification/Source_Laws.thy ===== *)
theory Source_Laws
  imports SourceBuilder "HOL-Library.Multiset"
begin

text \<open>
  What the builder promises of every function it emits: its name, whether it is a leaf, what its
  fidelity says, and that what its body assigns and returns is declared before.
\<close>

section \<open>Fidelity and leaves\<close>

definition honest :: "TranspileFunction \<Rightarrow> bool" where
  "honest fn \<longleftrightarrow> (tn_fidelity fn = Fid_Source) = (set (tn_unsupported fn) \<subseteq> {kLeafUnresolvedMarker})"

text \<open>What a step of the lowering keeps.\<close>

definition keepsFn :: "TranspileFunction \<Rightarrow> TranspileFunction \<Rightarrow> bool" where
  "keepsFn fn fn1 \<longleftrightarrow>
     tn_qualifiedName fn1 = tn_qualifiedName fn \<and> isUnresolvedLeaf fn1 = isUnresolvedLeaf fn \<and>
     (honest fn \<longrightarrow> honest fn1)"

lemma keepsFn_refl [simp]: "keepsFn fn fn"
  by (simp add: keepsFn_def)

lemma keepsFn_trans: "keepsFn a b \<Longrightarrow> keepsFn b c \<Longrightarrow> keepsFn a c"
  by (simp add: keepsFn_def)

lemma keepsFn_body [simp]: "keepsFn fn (fn1\<lparr>tn_body := b\<rparr>) = keepsFn fn fn1"
  by (simp add: keepsFn_def isUnresolvedLeaf_def honest_def)

lemma pushStmt_keeps [simp]: "keepsFn fn (pushStmt s fn1) = keepsFn fn fn1"
  by (simp add: pushStmt_def)

lemma noteUnsupported_keeps: "d \<noteq> kLeafUnresolvedMarker \<Longrightarrow> keepsFn fn (noteUnsupported d fn)"
  by (auto simp: keepsFn_def noteUnsupported_def isUnresolvedLeaf_def honest_def)

lemma noteUnsupported_body [simp]: "tn_body (noteUnsupported d fn) = tn_body fn"
  by (simp add: noteUnsupported_def)

lemma lowerExpr_keeps:
  "keepsFn fn (snd (lowerExpr e fn)) \<and> tn_body (snd (lowerExpr e fn)) = tn_body fn"
  "keepsFn fn (snd (lowerArgs es fn)) \<and> tn_body (snd (lowerArgs es fn)) = tn_body fn"
  by (induction e fn and es fn rule: lowerExpr_lowerArgs.induct)
    (auto simp: makeUnsupported_def noteUnsupported_keeps kLeafUnresolvedMarker_def
      split: option.splits prod.splits intro: keepsFn_trans)

lemma lowerOptional_keeps:
  "lowerOptional e fn = (x, fn1) \<Longrightarrow> keepsFn fn fn1 \<and> tn_body fn1 = tn_body fn"
  using lowerExpr_keeps(1) [of fn]
  by (auto simp: lowerOptional_def makeUnsupported_def noteUnsupported_keeps kLeafUnresolvedMarker_def
      split: option.splits) (metis snd_conv)+

section \<open>Scope\<close>

text \<open>What a statement declares, and what it assigns or returns.\<close>

fun declares :: "TStmt \<Rightarrow> string set" where
  "declares (TS_VarDecl m t n i) = {n}"
| "declares _ = {}"

fun targets :: "TStmt \<Rightarrow> string set" where
  "targets (TS_Assign m (TE_Var xm n) e) = {n}"
| "targets (TS_Return m (Some (TE_Var xm n))) = {n}"
| "targets _ = {}"

fun scopedIn :: "string set \<Rightarrow> TStmt list \<Rightarrow> bool" where
  "scopedIn N [] = True"
| "scopedIn N (s # ss) = (targets s \<subseteq> N \<and> scopedIn (N \<union> declares s) ss)"

lemma scopedIn_append: "scopedIn N (a @ b) = (scopedIn N a \<and> scopedIn (N \<union> \<Union> (declares ` set a)) b)"
  by (induction a arbitrary: N) (auto simp: Un_assoc)

definition boundIn :: "string list \<times> TranspileFunction \<Rightarrow> bool" where
  "boundIn st \<longleftrightarrow> scopedIn {} (tn_body (snd st)) \<and> set (fst st) \<subseteq> \<Union> (declares ` set (tn_body (snd st)))"

lemma lowerOperation_bound:
  assumes "boundIn st"
  shows "boundIn (lowerOperation types op st) \<and> keepsFn (snd st) (snd (lowerOperation types op st))"
proof (cases "od_isAssignment op")
  case True
  obtain names fn where st: "st = (names, fn)" by force
  obtain rhs fn1 where rhs: "lowerOptional (od_expr op) fn = (rhs, fn1)" by force
  show ?thesis using assms True lowerOptional_keeps [OF rhs]
    by (auto simp: lowerOperation_def st rhs boundIn_def pushStmt_def scopedIn_append)
next
  case False
  show ?thesis using assms False
    by (auto simp: lowerOperation_def boundIn_def pushStmt_def scopedIn_append kLeafUnresolvedMarker_def
        intro!: keepsFn_trans [OF _ noteUnsupported_keeps] split: prod.splits option.splits) blast+
qed

lemma operations_bound:
  "boundIn st \<Longrightarrow>
   boundIn (fold (lowerOperationNode types) ops st) \<and> keepsFn (snd st) (snd (fold (lowerOperationNode types) ops st))"
proof (induction ops arbitrary: st)
  case (Cons op ops)
  have first: "boundIn (lowerOperationNode types op st) \<and> keepsFn (snd st) (snd (lowerOperationNode types op st))"
    using lowerOperation_bound Cons.prems by (cases op) simp_all
  thus ?case using Cons.IH [OF conjunct1 [OF first]] keepsFn_trans by auto
qed simp

lemma addEdgeNodes_keeps: "set order \<subseteq> set (addEdgeNodes e order)"
  by (auto simp: addEdgeNodes_def addNode_def)

lemma addEdgeNodes_terminal: "pe_isTerminal e \<Longrightarrow> pe_source e = [] \<or> pe_source e \<in> set (addEdgeNodes e order)"
  by (simp add: addEdgeNodes_def addNode_def)

lemma lastTerminal_listed: "lastTerminal es = [] \<or> lastTerminal es \<in> set (pipelineOrder es)"
proof (induction es rule: rev_induct)
  case (snoc e es)
  thus ?case using addEdgeNodes_keeps [of "pipelineOrder es" e] addEdgeNodes_terminal [of e "pipelineOrder es"]
    by (auto simp: lastTerminal_def pipelineOrder_def)
qed (simp add: lastTerminal_def)

lemma scopedIn_nodes: "scopedIn N (map (nodeStmt types) ns)"
  by (induction ns arbitrary: N) (simp_all add: nodeStmt_def)

lemma declares_nodes: "\<Union> (declares ` set (map (nodeStmt types) ns)) = (\<lambda>n. n @ ''_out'') ` set ns"
  by (auto simp: nodeStmt_def)

lemma buildCompositeBody_good:
  assumes "tn_body fn = []"
  shows "keepsFn fn (buildCompositeBody types block fn) \<and> scopedIn {} (tn_body (buildCompositeBody types block fn))"
proof (cases "bb_pipelineEdges block = []")
  case True
  have "boundIn ([], fn)" by (simp add: boundIn_def assms)
  from operations_bound [OF this, of types "bb_operations block"] True show ?thesis
    by (simp add: buildCompositeBody_def buildOperationBody_def boundIn_def)
next
  case False
  show ?thesis using False assms lastTerminal_listed [of "bb_pipelineEdges block"]
    by (auto simp: buildCompositeBody_def buildPipelineBody_def Let_def scopedIn_append scopedIn_nodes
        declares_nodes returnOf_def simp del: set_map)
qed

section \<open>The module\<close>

lemma fresh_good: "honest fresh_function" "\<not> isUnresolvedLeaf fresh_function"
  by (simp_all add: honest_def isUnresolvedLeaf_def fresh_function_def)

definition goodFunction :: "BlockBody umap \<Rightarrow> TranspileFunction \<Rightarrow> bool" where
  "goodFunction blocks fn \<longleftrightarrow>
     (isUnresolvedLeaf fn = (map_of blocks (tn_qualifiedName fn) = None)) \<and> honest fn \<and> scopedIn {} (tn_body fn)"

lemma composite_good:
  assumes "map_of blocks (tn_qualifiedName fn) \<noteq> None" "honest fn" "\<not> isUnresolvedLeaf fn" "tn_body fn = []"
  shows "goodFunction blocks (buildCompositeBody types block fn) \<and>
    tn_qualifiedName (buildCompositeBody types block fn) = tn_qualifiedName fn"
  using buildCompositeBody_good [OF assms(4), of types block] assms by (simp add: goodFunction_def keepsFn_def)

lemma buildFunction_good:
  "goodFunction blocks (buildFunction types blocks fd) \<and>
   tn_qualifiedName (buildFunction types blocks fd) = cf_qualifiedName fd"
proof (cases "map_of blocks (cf_qualifiedName fd)")
  case None
  thus ?thesis
    by (simp add: buildFunction_def Let_def goodFunction_def isUnresolvedLeaf_def honest_def fresh_function_def)
next
  case (Some block)
  let ?fn = "fresh_function\<lparr>tn_qualifiedName := cf_qualifiedName fd,
    tn_isExternal := hasModifier MK_External (cf_modifiers fd), tn_returnType := fd_returnType (cf_decl fd),
    tn_params := fd_params (cf_decl fd), tn_accessModifier := cf_accessModifier fd,
    tn_templateParams := fd_templateParams (cf_decl fd)\<rparr>"
  have "goodFunction blocks (buildCompositeBody types block ?fn) \<and>
      tn_qualifiedName (buildCompositeBody types block ?fn) = tn_qualifiedName ?fn"
    using Some by (intro composite_good) (simp_all add: honest_def isUnresolvedLeaf_def fresh_function_def)
  thus ?thesis by (simp add: buildFunction_def Let_def Some)
qed

lemma buildOrphanComposite_good:
  assumes "map_of blocks qn \<noteq> None"
  shows "goodFunction blocks (buildOrphanComposite types qn block) \<and>
    tn_qualifiedName (buildOrphanComposite types qn block) = qn"
proof -
  let ?fn = "fresh_function\<lparr>tn_qualifiedName := qn, tn_accessModifier := ''public'',
    tn_returnType := flowReturnType (bb_pipelineEdges block)\<rparr>"
  have "goodFunction blocks (buildCompositeBody types block ?fn) \<and>
      tn_qualifiedName (buildCompositeBody types block ?fn) = tn_qualifiedName ?fn"
    using assms by (intro composite_good) (simp_all add: honest_def isUnresolvedLeaf_def fresh_function_def)
  thus ?thesis by (simp add: buildOrphanComposite_def)
qed

text \<open>C24: The module built from a \<open>.topo\<close> file, whatever order the map of blocks is walked in: one
  function for every collected declaration, in order, then one for every block without a declaration;
  a function is left for the resolver exactly when no block has its name; its fidelity is that of the
  source exactly when nothing of it was found unsupported; and every name its body assigns or returns
  is declared earlier in the body.\<close>

theorem source_build:
  assumes "mset (walk (bd_logicBlocks (collectFile decls))) = mset (bd_logicBlocks (collectFile decls))"
  shows "let st = collectFile decls; fns = mo_functions (br_module (buildSource walk decls));
      declared = map cf_qualifiedName (bd_fnDecls st) in
    take (length declared) (map tn_qualifiedName fns) = declared \<and>
    mset (drop (length declared) (map tn_qualifiedName fns)) =
      mset (filter (\<lambda>q. q \<notin> set declared) (map fst (bd_logicBlocks st))) \<and>
    list_all (goodFunction (bd_logicBlocks st)) fns"
proof -
  let ?st = "collectFile decls" and ?walk = "walk (bd_logicBlocks (collectFile decls))"
  let ?types = "returnTypeByName (bd_fnDecls ?st)" and ?declared = "map cf_qualifiedName (bd_fnDecls (collectFile decls))"
  let ?orphans = "filter (\<lambda>(qn, block). qn \<notin> set ?declared) ?walk"
  let ?fns = "map (buildFunction ?types (bd_logicBlocks ?st)) (bd_fnDecls ?st) @
    map (\<lambda>(qn, block). buildOrphanComposite ?types qn block) ?orphans"
  have fns: "mo_functions (br_module (buildSource walk decls)) = ?fns"
    by (simp add: buildSource_def Let_def)
  have known: "map_of (bd_logicBlocks ?st) qn \<noteq> None" if "(qn, block) \<in> set ?walk" for qn block
    using that mset_eq_setD [OF assms] weak_map_of_SomeI [of qn block] by fastforce
  have good: "goodFunction (bd_logicBlocks ?st) (buildOrphanComposite ?types qn block) \<and>
      tn_qualifiedName (buildOrphanComposite ?types qn block) = qn" if "(qn, block) \<in> set ?walk" for qn block
    by (rule buildOrphanComposite_good [OF known [OF that]])
  have orphans: "map tn_qualifiedName (map (\<lambda>(qn, block). buildOrphanComposite ?types qn block) ?orphans) = map fst ?orphans"
    using good by auto
  have names: "map tn_qualifiedName ?fns = ?declared @ map fst ?orphans"
    unfolding map_append orphans using buildFunction_good by (simp add: o_def)
  have "mset (map fst ?orphans) = image_mset fst (filter_mset (\<lambda>(qn, block). qn \<notin> set ?declared) (mset ?walk))"
    by (simp add: mset_filter)
  also have "\<dots> = mset (map fst (filter (\<lambda>(qn, block). qn \<notin> set ?declared) (bd_logicBlocks ?st)))"
    by (simp add: assms mset_filter)
  also have "map fst (filter (\<lambda>(qn, block). qn \<notin> set ?declared) (bd_logicBlocks ?st)) =
      filter (\<lambda>q. q \<notin> set ?declared) (map fst (bd_logicBlocks ?st))"
    by (simp add: filter_map o_def case_prod_unfold)
  finally have "mset (map fst ?orphans) = mset (filter (\<lambda>q. q \<notin> set ?declared) (map fst (bd_logicBlocks ?st)))" .
  moreover have "list_all (goodFunction (bd_logicBlocks ?st)) ?fns"
    using good buildFunction_good by (auto simp: list_all_iff)
  ultimately show ?thesis unfolding Let_def fns names by simp
qed

text \<open>A declared function with a block, a leaf and a flow: \<open>f() -> x; x = 1\<close>, \<open>g\<close>, \<open>main = g -> void\<close>.\<close>

definition sampleDecls :: "ASTNode list" where
  "sampleDecls =
     (let n = node_at default_loc;
          op = \<lparr>od_stage = -1, od_funcName = ''g'', od_varName = [], od_expr = None,
            od_returnBinding = Some \<lparr>rb_isSingleValue = True, rb_singleName = ''x'', rb_targets = [], rb_loc = default_loc\<rparr>\<rparr>;
          asg = \<lparr>od_stage = -1, od_funcName = [], od_varName = ''x'',
            od_expr = Some (LiteralExpr default_loc ''1'' IntegerLiteral), od_returnBinding = None\<rparr>;
          edge = \<lparr>pe_source = ''g'', pe_target = [], pe_terminalType = ''void'', pe_isTerminal = True, pe_loc = default_loc\<rparr>
      in [FnDeclNode n (empty_fn\<lparr>fd_name := ''f''\<rparr>), FnDeclNode n (empty_fn\<lparr>fd_name := ''g''\<rparr>),
          FnLogicBlock n ''main'' [] [edge] [],
          FnLogicBlock n ''f'' [OperationNode n op, OperationNode n asg] [] []])"

lemma sampleDecls_collected:
  "map cf_qualifiedName (bd_fnDecls (collectFile sampleDecls)) = [''f'', ''g'']"
  "map fst (bd_logicBlocks (collectFile sampleDecls)) = [''main'', ''f'']"
  by (simp_all add: collectFile_def sampleDecls_def Let_def collectFnDecl_def collectBlock_def empty_builder_def
    joinQualified_def normalizeDotted_def fd_isOperator_def empty_fn_def node_at_def)

lemma source_build_witness:
  "map tn_qualifiedName (mo_functions (br_module (buildSource rev sampleDecls))) = [''f'', ''g'', ''main''] \<and>
   list_all (goodFunction (bd_logicBlocks (collectFile sampleDecls)))
     (mo_functions (br_module (buildSource rev sampleDecls)))"
proof -
  let ?names = "map tn_qualifiedName (mo_functions (br_module (buildSource rev sampleDecls)))"
  have "mset (rev (bd_logicBlocks (collectFile sampleDecls))) = mset (bd_logicBlocks (collectFile sampleDecls))" by simp
  from source_build [of rev sampleDecls, OF this]
  have "take (length [''f'', ''g'']) ?names = [''f'', ''g''] \<and>
      mset (drop (length [''f'', ''g'']) ?names) = mset (filter (\<lambda>q. q \<notin> set [''f'', ''g'']) [''main'', ''f'']) \<and>
      list_all (goodFunction (bd_logicBlocks (collectFile sampleDecls)))
        (mo_functions (br_module (buildSource rev sampleDecls)))"
    unfolding Let_def sampleDecls_collected .
  hence names: "take 2 ?names = [''f'', ''g'']" "mset (drop 2 ?names) = {#''main''#}"
    and good: "list_all (goodFunction (bd_logicBlocks (collectFile sampleDecls)))
      (mo_functions (br_module (buildSource rev sampleDecls)))"
    by (simp_all add: numeral_2_eq_2)
  have "drop 2 ?names = [''main'']" using names(2) by (metis mset_single_iff)
  with names(1) have "?names = [''f'', ''g'', ''main'']" by (metis append_Cons append_Nil append_take_drop_id)
  with good show ?thesis by simp
qed

text \<open>
  The calls of a pipeline are in the order of the edges' ends, not of the data: \<open>b -> c; a -> b\<close> runs
  \<open>b\<close> before \<open>a\<close>.  Two single bindings of one name declare it twice.  A function whose qualified name
  is the simple name of an earlier one takes over its return type.
\<close>

lemma pipeline_not_topological:
  "pipelineOrder [\<lparr>pe_source = ''b'', pe_target = ''c'', pe_terminalType = [], pe_isTerminal = False, pe_loc = l\<rparr>,
     \<lparr>pe_source = ''a'', pe_target = ''b'', pe_terminalType = [], pe_isTerminal = False, pe_loc = l\<rparr>] =
   [''b'', ''c'', ''a'']"
  by (simp add: pipelineOrder_def addEdgeNodes_def addNode_def)

lemma binding_declared_twice:
  assumes "\<not> od_isAssignment op" "od_returnBinding op = Some rb" "rb_isSingleValue rb"
  shows "map declares (tn_body (buildOperationBody types
    \<lparr>bb_operations = [OperationNode n op, OperationNode n op], bb_pipelineEdges = []\<rparr> fresh_function)) =
    [{rb_singleName rb}, {rb_singleName rb}]"
  using assms by (simp add: buildOperationBody_def lowerOperation_def pushStmt_def fresh_function_def)

lemma simple_name_overwritten:
  "calleeReturnType (returnTypeByName
     [\<lparr>cf_modifiers = [], cf_decl = d, cf_qualifiedName = ''n::f'', cf_accessModifier = []\<rparr>,
      \<lparr>cf_modifiers = [], cf_decl = e, cf_qualifiedName = ''f'', cf_accessModifier = []\<rparr>]) ''f'' = fd_returnType e"
  by (simp add: calleeReturnType_def returnTypeByName_def indexReturnType_def bareName_def umap_emplace_def is_prefix_def)

end
